(* ===== verification/Go_Prelude.thy ===== *)
theory Go_Prelude
  imports Complex_Main "HOL-Library.Word" "HOL-Library.Log_Nat"
begin

text \<open>
  Shared vocabulary of the development: the machine integers of Go, its truncating
  division, the shape of an HTTP reply, and the list facts that several components use.

  \<^item> \<open>int64\<close> values are \<open>int\<close>s kept in range by \<open>wrap64\<close>, which is two's complement
    wrap-around written out; every \<open>int64\<close> addition and subtraction of the code goes
    through \<open>add64\<close> and \<open>sub64\<close>. \<open>uint64\<close> identifiers are \<open>64 word\<close>s.
  \<^item> \<open>big.Int\<close> values are \<open>int\<close>. \<open>big.Int.Quo\<close> truncates towards zero (\<open>quo\<close>);
    \<open>big.Int.Div\<close> is Euclidean, which for a positive divisor is HOL's \<open>div\<close>.
  \<^item> \<open>time.Time\<close> is an \<open>int\<close> of nanoseconds, \<open>time.Duration\<close> an \<open>int\<close> of nanoseconds.
\<close>

named_theorems go_int "arithmetic of Go's integers"
named_theorems list_facts "facts on lists shared by the components"

section \<open>Machine integers\<close>

type_synonym int64 = int
type_synonym uint64 = "64 word"
type_synonym time = int

definition max_int64 :: int where
  "max_int64 = 9223372036854775807"

definition min_int64 :: int where
  "min_int64 = - 9223372036854775808"

definition in_int64 :: "int \<Rightarrow> bool" where
  "in_int64 x \<longleftrightarrow> min_int64 \<le> x \<and> x \<le> max_int64"

definition wrap64 :: "int \<Rightarrow> int64" where
  "wrap64 x = (x + 9223372036854775808) mod 18446744073709551616 - 9223372036854775808"

definition add64 :: "int64 \<Rightarrow> int64 \<Rightarrow> int64" where
  "add64 a b = wrap64 (a + b)"

definition sub64 :: "int64 \<Rightarrow> int64 \<Rightarrow> int64" where
  "sub64 a b = wrap64 (a - b)"

lemma wrap64_id [simp]: "in_int64 x \<Longrightarrow> wrap64 x = x"
  by (simp add: wrap64_def in_int64_def min_int64_def max_int64_def)

lemma in_int64_wrap64 [simp, intro]: "in_int64 (wrap64 x)"
  using pos_mod_bound [of 18446744073709551616 "x + 9223372036854775808"]
  by (simp add: wrap64_def in_int64_def min_int64_def max_int64_def)

lemma wrap64_mod: "wrap64 x mod 18446744073709551616 = x mod 18446744073709551616"
  by (simp add: wrap64_def mod_diff_left_eq)

lemma wrap64_eqI: "x mod 18446744073709551616 = y mod 18446744073709551616 \<Longrightarrow> wrap64 x = wrap64 y"
  unfolding wrap64_def by (simp add: mod_add_cong)

lemma wrap64_wrap64_add [go_int]: "wrap64 (wrap64 x + y) = wrap64 (x + y)"
  by (rule wrap64_eqI) (metis wrap64_mod mod_add_left_eq)

lemma wrap64_wrap64_add2 [go_int]: "wrap64 (x + wrap64 y) = wrap64 (x + y)"
  using wrap64_wrap64_add [of y x] by (simp add: add.commute)

lemma wrap64_wrap64_diff [go_int]: "wrap64 (wrap64 x - y) = wrap64 (x - y)"
  using wrap64_wrap64_add [of x "- y"] by simp

lemma wrap64_wrap64_diff2 [go_int]: "wrap64 (x - wrap64 y) = wrap64 (x - y)"
  by (rule wrap64_eqI) (metis wrap64_mod mod_diff_right_eq)

lemma in_int64_between: "in_int64 a \<Longrightarrow> in_int64 b \<Longrightarrow> a \<le> x \<Longrightarrow> x \<le> b \<Longrightarrow> in_int64 x"
  by (simp add: in_int64_def)

lemma in_int64_0 [simp]: "in_int64 0" and in_int64_1 [simp]: "in_int64 1"
  by (simp_all add: in_int64_def min_int64_def max_int64_def)

lemma in_int64_numeral [simp]: "in_int64 (numeral n) \<longleftrightarrow> (numeral n :: int) \<le> 9223372036854775807"
  by (simp add: in_int64_def min_int64_def max_int64_def)

section \<open>Truncating division\<close>

definition quo :: "int \<Rightarrow> int \<Rightarrow> int" where
  "quo a b = sgn a * sgn b * (\<bar>a\<bar> div \<bar>b\<bar>)"

definition rem_trunc :: "int \<Rightarrow> int \<Rightarrow> int" where
  "rem_trunc a b = a - b * quo a b"

lemma quo_nonneg: "0 \<le> a \<Longrightarrow> 0 < b \<Longrightarrow> quo a b = a div b"
  by (cases "a = 0") (auto simp: quo_def)

lemma quo_0 [simp]: "quo 0 b = 0"
  by (simp add: quo_def)

lemma quo_minus: "quo (- a) b = - quo a b"
  by (simp add: quo_def sgn_minus)

lemma quo_ge_0: "0 \<le> a \<Longrightarrow> 0 \<le> b \<Longrightarrow> 0 \<le> quo a b"
  by (cases "a = 0"; cases "b = 0") (auto simp: quo_def pos_imp_zdiv_nonneg_iff)

lemma quo_mono: 
  assumes "a \<le> a'" and b: "0 < b"
  shows "quo a b \<le> quo a' b"
proof -
  consider "0 \<le> a" | "a < 0" "0 \<le> a'" | "a' < 0" using assms by linarith
  then show ?thesis
  proof cases
    case 1 with assms show ?thesis by (simp add: quo_nonneg zdiv_mono1)
  next
    case 2
    then have "quo a b \<le> 0" using b quo_ge_0 [of "- a" b] by (simp add: quo_minus)
    with 2 b show ?thesis using quo_ge_0 [of a' b] by linarith
  next
    case 3
    then have "quo (- a') b \<le> quo (- a) b" using assms by (simp add: quo_nonneg zdiv_mono1)
    then show ?thesis by (simp add: quo_minus)
  qed
qed

lemma quo_le_self: "0 \<le> a \<Longrightarrow> 0 < b \<Longrightarrow> quo a b \<le> a"
  by (simp add: quo_nonneg) (metis div_by_1 int_one_le_iff_zero_less order_refl zdiv_mono2 zero_less_one)

lemma quo_mult_cancel_nonneg: "0 < b \<Longrightarrow> 0 \<le> a \<Longrightarrow> quo (a * b) b = a"
  by (simp add: quo_nonneg)

lemma quo_mult_cancel: "0 < b \<Longrightarrow> quo (a * b) b = a"
  using quo_mult_cancel_nonneg [of b a] quo_mult_cancel_nonneg [of b "- a"] quo_minus [of "- a * b" b]
  by fastforce

section \<open>Results\<close>

text \<open>Sequencing of calls that return a value or an error: \<open>if err != nil { return err }\<close>.\<close>

fun and_then :: "'e + 'a \<Rightarrow> ('a \<Rightarrow> 'e + 'b) \<Rightarrow> 'e + 'b" where
  "and_then (Inl e) f = Inl e"
| "and_then (Inr x) f = f x"

text \<open>An error passed on under another name.\<close>

fun map_error :: "('e \<Rightarrow> 'f) \<Rightarrow> 'e + 'a \<Rightarrow> 'f + 'a" where
  "map_error f (Inl e) = Inl (f e)"
| "map_error f (Inr x) = Inr x"

lemma and_then_Inr [simp]: "and_then r f = Inr y \<longleftrightarrow> (\<exists>x. r = Inr x \<and> f x = Inr y)"
  by (cases r) auto

lemma and_then_Inl [simp]: "and_then r f = Inl e \<longleftrightarrow> r = Inl e \<or> (\<exists>x. r = Inr x \<and> f x = Inl e)"
  by (cases r) auto

section \<open>HTTP replies\<close>

text \<open>
  A handler ends by writing one reply: a status code, and a body that is either the
  \<open>error\<close> field of a failure or the payload of a success. \<open>Bad_binding\<close> is the
  library's own message for a body that does not parse.
\<close>

datatype 'a reply = Ok_reply nat 'a | Error_reply nat string | Bad_binding

fun reply_code :: "'a reply \<Rightarrow> nat" where
  "reply_code (Ok_reply n _) = n"
| "reply_code (Error_reply n _) = n"
| "reply_code Bad_binding = 400"

fun is_ok :: "'a reply \<Rightarrow> bool" where
  "is_ok (Ok_reply _ _) = True"
| "is_ok _ = False"

section \<open>List facts\<close>

lemma sum_list_ge_0_int: "(\<And>x. x \<in> set xs \<Longrightarrow> (0::int) \<le> f x) \<Longrightarrow> 0 \<le> (\<Sum>x\<leftarrow>xs. f x)"
  by (induction xs) auto

lemma sum_list_member_le_int:
  assumes "\<And>x. x \<in> set xs \<Longrightarrow> (0::int) \<le> f x" and "y \<in> set xs"
  shows "f y \<le> (\<Sum>x\<leftarrow>xs. f x)"
  using assms
proof (induction xs)
  case (Cons a xs)
  then have "0 \<le> (\<Sum>x\<leftarrow>xs. f x)" by (intro sum_list_ge_0_int) auto
  with Cons show ?case by fastforce
qed simp

lemma find_Some_iff_filter: "find P xs = (case filter P xs of [] \<Rightarrow> None | x # _ \<Rightarrow> Some x)"
  by (induction xs) auto

lemma find_SomeD [list_facts]: "find P xs = Some x \<Longrightarrow> x \<in> set xs \<and> P x"
  by (induction xs) (auto split: if_splits)

lemma find_NoneD [list_facts]: "find P xs = None \<Longrightarrow> x \<in> set xs \<Longrightarrow> \<not> P x"
  by (induction xs) (auto split: if_splits)

end
