(* ===== verification/Go_Float.thy ===== *)
theory Go_Float
  imports Go_Prelude
begin

text \<open>
  Go's \<open>float64\<close>: IEEE 754 binary64 with round-to-nearest-even. A finite value is a sign
  and an exact rational magnitude, so both zeros exist; every operation computes the exact
  result and rounds it once, as the hardware does. \<open>fma\<close> contraction, which the Go
  specification allows on some platforms, is not modelled: each operation rounds. A
  conversion to \<open>int64\<close> that does not fit gives the value the amd64 instruction returns,
  the least \<open>int64\<close>.

  The lemmas show what the components rely on: rounding is monotone, leaves integers up to
  \<open>2 ^ 53\<close> alone and never changes the sign of a non-negative value.
\<close>

section \<open>Values\<close>

datatype f64 = NaN | Infty bool | Fin bool rat

text \<open>\<open>pow2 e\<close> is two to the power \<open>e\<close>, for exponents of either sign.\<close>

definition pow2 :: "int \<Rightarrow> rat" where
  "pow2 e = (if 0 \<le> e then 2 ^ nat e else 1 / 2 ^ nat (- e))"

text \<open>The exponent of the leading bit of a positive rational.\<close>

definition lead_exp :: "rat \<Rightarrow> int" where
  "lead_exp m = (let (p, q) = quotient_of m; k = bitlen p - bitlen q
     in if pow2 k \<le> m then k else k - 1)"

text \<open>Rounding a rational to an integer, ties to even.\<close>

definition round_even :: "rat \<Rightarrow> int" where
  "round_even x = (let n = \<lfloor>x\<rfloor>; d = x - of_int n
     in if d < 1 / 2 then n else if 1 / 2 < d then n + 1 else if even n then n else n + 1)"

text \<open>The exponent of the unit in the last place: 53 bits, down to the subnormals.\<close>

definition ulp_exp :: "rat \<Rightarrow> int" where
  "ulp_exp m = max (lead_exp m - 52) (- 1074)"

definition round_mag :: "rat \<Rightarrow> rat" where
  "round_mag m = (if m \<le> 0 then 0
     else of_int (round_even (m / pow2 (ulp_exp m))) * pow2 (ulp_exp m))"

definition f64_round :: "bool \<Rightarrow> rat \<Rightarrow> f64" where
  "f64_round neg m = (let r = round_mag m in if pow2 1024 \<le> r then Infty neg else Fin neg r)"

text \<open>The signed real value of a finite number.\<close>

fun f64_val :: "f64 \<Rightarrow> rat" where
  "f64_val (Fin s m) = (if s then - m else m)"
| "f64_val _ = 0"

text \<open>The number nearest a signed rational; an exact zero is positive.\<close>

definition f64_of_rat :: "rat \<Rightarrow> f64" where
  "f64_of_rat x = f64_round (x < 0) \<bar>x\<bar>"

definition f64_of_int :: "int \<Rightarrow> f64" where
  "f64_of_int i = f64_of_rat (of_int i)"

section \<open>Operations\<close>

fun is_nan :: "f64 \<Rightarrow> bool" where
  "is_nan NaN = True"
| "is_nan _ = False"

fun is_inf :: "f64 \<Rightarrow> bool" where
  "is_inf (Infty _) = True"
| "is_inf _ = False"

fun f64_add :: "f64 \<Rightarrow> f64 \<Rightarrow> f64" where
  "f64_add NaN _ = NaN"
| "f64_add _ NaN = NaN"
| "f64_add (Infty s) (Infty t) = (if s = t then Infty s else NaN)"
| "f64_add (Infty s) (Fin _ _) = Infty s"
| "f64_add (Fin _ _) (Infty t) = Infty t"
| "f64_add (Fin s m) (Fin t n) =
     (let x = f64_val (Fin s m) + f64_val (Fin t n)
      in if x = 0 then Fin (s \<and> t) 0 else f64_of_rat x)"

fun f64_neg :: "f64 \<Rightarrow> f64" where
  "f64_neg NaN = NaN"
| "f64_neg (Infty s) = Infty (\<not> s)"
| "f64_neg (Fin s m) = Fin (\<not> s) m"

definition f64_sub :: "f64 \<Rightarrow> f64 \<Rightarrow> f64" where
  "f64_sub x y = f64_add x (f64_neg y)"

fun f64_mul :: "f64 \<Rightarrow> f64 \<Rightarrow> f64" where
  "f64_mul NaN _ = NaN"
| "f64_mul _ NaN = NaN"
| "f64_mul (Infty s) (Infty t) = Infty (s \<noteq> t)"
| "f64_mul (Infty s) (Fin t n) = (if n = 0 then NaN else Infty (s \<noteq> t))"
| "f64_mul (Fin s m) (Infty t) = (if m = 0 then NaN else Infty (s \<noteq> t))"
| "f64_mul (Fin s m) (Fin t n) = f64_round (s \<noteq> t) (m * n)"

fun f64_div :: "f64 \<Rightarrow> f64 \<Rightarrow> f64" where
  "f64_div NaN _ = NaN"
| "f64_div _ NaN = NaN"
| "f64_div (Infty s) (Infty t) = NaN"
| "f64_div (Infty s) (Fin t n) = Infty (s \<noteq> t)"
| "f64_div (Fin s m) (Infty t) = Fin (s \<noteq> t) 0"
| "f64_div (Fin s m) (Fin t n) =
     (if n = 0 then (if m = 0 then NaN else Infty (s \<noteq> t)) else f64_round (s \<noteq> t) (m / n))"

text \<open>Comparisons: anything with a NaN is false.\<close>

fun f64_lt :: "f64 \<Rightarrow> f64 \<Rightarrow> bool" where
  "f64_lt NaN _ = False"
| "f64_lt _ NaN = False"
| "f64_lt (Infty s) (Infty t) = (s \<and> \<not> t)"
| "f64_lt (Infty s) (Fin _ _) = s"
| "f64_lt (Fin _ _) (Infty t) = (\<not> t)"
| "f64_lt (Fin s m) (Fin t n) = (f64_val (Fin s m) < f64_val (Fin t n))"

fun f64_le :: "f64 \<Rightarrow> f64 \<Rightarrow> bool" where
  "f64_le NaN _ = False"
| "f64_le _ NaN = False"
| "f64_le (Infty s) (Infty t) = (s \<or> \<not> t)"
| "f64_le (Infty s) (Fin _ _) = s"
| "f64_le (Fin _ _) (Infty t) = (\<not> t)"
| "f64_le (Fin s m) (Fin t n) = (f64_val (Fin s m) \<le> f64_val (Fin t n))"

text \<open>\<open>math.Round\<close>: half away from zero.\<close>

fun math_round :: "f64 \<Rightarrow> f64" where
  "math_round (Fin s m) = Fin s (of_int \<lfloor>m + 1 / 2\<rfloor>)"
| "math_round x = x"

text \<open>\<open>int64(x)\<close>: truncation towards zero.\<close>

fun f64_to_int64 :: "f64 \<Rightarrow> int64" where
  "f64_to_int64 (Fin s m) =
     (let v = (if s then - \<lfloor>m\<rfloor> else \<lfloor>m\<rfloor>) in if in_int64 v then v else min_int64)"
| "f64_to_int64 _ = min_int64"

text \<open>\<open>Time.Sub\<close> saturates at the ends of the duration range.\<close>

definition time_sub :: "time \<Rightarrow> time \<Rightarrow> int64" where
  "time_sub t u = max min_int64 (min max_int64 (t - u))"

text \<open>\<open>Duration.Seconds\<close>: whole seconds plus the nanoseconds as a fraction.\<close>

definition duration_seconds :: "int64 \<Rightarrow> f64" where
  "duration_seconds d =
     f64_add (f64_of_int (quo d 1000000000)) (f64_div (f64_of_int (rem_trunc d 1000000000)) (f64_of_int 1000000000))"

lemma in_int64_f64_to_int64 [simp, intro]: "in_int64 (f64_to_int64 x)"
  by (cases x) (auto simp: Let_def in_int64_def min_int64_def max_int64_def)

section \<open>Powers of two and the leading exponent\<close>

lemma pow2_pos [simp]: "0 < pow2 e"
  by (simp add: pow2_def)

lemma pow2_ge_0 [simp]: "0 \<le> pow2 e"
  using pow2_pos [of e] by linarith

lemma pow2_neq_0 [simp]: "pow2 e \<noteq> 0"
  using pow2_pos [of e] by linarith

lemma pow2_power_int: "pow2 e = 2 powi e"
  by (simp add: pow2_def power_int_def inverse_eq_divide power_one_over)

lemma pow2_add: "pow2 (a + b) = pow2 a * pow2 b"
  by (simp add: pow2_power_int power_int_add)

lemma pow2_diff: "pow2 (a - b) = pow2 a / pow2 b"
  by (simp add: pow2_power_int power_int_diff)

lemma pow2_mono: "a \<le> b \<Longrightarrow> pow2 a \<le> pow2 b"
  by (simp add: pow2_power_int power_int_increasing)

lemma pow2_less: "a < b \<Longrightarrow> pow2 a < pow2 b"
  by (simp add: pow2_power_int power_int_strict_increasing)

lemma pow2_less_iff [simp]: "pow2 a < pow2 b \<longleftrightarrow> a < b"
  by (meson linorder_not_less pow2_less pow2_mono)

lemma pow2_nat: "0 \<le> e \<Longrightarrow> pow2 e = of_int (2 ^ nat e)"
  by (simp add: pow2_def)

lemma quotient_bitlen_bounds:
  assumes "0 < m" and "quotient_of m = (p, q)"
  shows "pow2 (bitlen p - bitlen q - 1) < m" and "m < pow2 (bitlen p - bitlen q + 1)"
proof -
  have q: "0 < q" and m: "m = of_int p / of_int q"
    using assms quotient_of_denom_pos quotient_of_div by auto
  have p: "0 < p" using assms m q by (simp add: zero_less_divide_iff)
  have bp: "2 ^ nat (bitlen p - 1) \<le> p" "p < 2 ^ nat (bitlen p)" "0 < bitlen p"
    using bitlen_bounds [OF p] bitlen_eq_zero_iff [of p] bitlen_nonneg [of p] p by auto
  have bq: "2 ^ nat (bitlen q - 1) \<le> q" "q < 2 ^ nat (bitlen q)" "0 < bitlen q"
    using bitlen_bounds [OF q] bitlen_eq_zero_iff [of q] bitlen_nonneg [of q] q by auto
  have rp: "pow2 (bitlen p - 1) \<le> of_int p" "of_int p < pow2 (bitlen p)"
    using bp by (simp_all add: pow2_nat del: of_int_power)
  have rq: "pow2 (bitlen q - 1) \<le> of_int q" "of_int q < pow2 (bitlen q)"
    using bq by (simp_all add: pow2_nat del: of_int_power)
  have "pow2 (bitlen p - 1) / pow2 (bitlen q) < of_int p / of_int q"
    using rp rq q by (intro frac_less2) auto
  then show "pow2 (bitlen p - bitlen q - 1) < m"
    by (simp add: m pow2_diff [symmetric] algebra_simps)
  have "of_int p / of_int q < pow2 (bitlen p) / pow2 (bitlen q - 1)"
    using rp rq q p by (intro frac_less) auto
  then show "m < pow2 (bitlen p - bitlen q + 1)"
    by (simp add: m pow2_diff [symmetric] algebra_simps)
qed

lemma lead_exp_bounds:
  assumes "0 < m"
  shows "pow2 (lead_exp m) \<le> m" and "m < pow2 (lead_exp m + 1)"
proof -
  obtain p q where pq: "quotient_of m = (p, q)" by fastforce
  note b = quotient_bitlen_bounds [OF assms pq]
  show "pow2 (lead_exp m) \<le> m" and "m < pow2 (lead_exp m + 1)"
    using b by (auto simp: lead_exp_def pq Let_def)
qed

lemma lead_exp_ge: "0 < m \<Longrightarrow> pow2 e \<le> m \<Longrightarrow> e \<le> lead_exp m"
  using lead_exp_bounds(2) [of m] pow2_less_iff [of e "lead_exp m + 1"] by linarith

lemma lead_exp_less: "0 < m \<Longrightarrow> m < pow2 e \<Longrightarrow> lead_exp m < e"
  using lead_exp_bounds(1) [of m] pow2_less_iff [of "lead_exp m" e] by linarith

lemma lead_exp_mono: "0 < m \<Longrightarrow> m \<le> m' \<Longrightarrow> lead_exp m \<le> lead_exp m'"
  using lead_exp_bounds(1) [of m] by (intro lead_exp_ge) auto

lemma ulp_exp_mono: "0 < m \<Longrightarrow> m \<le> m' \<Longrightarrow> ulp_exp m \<le> ulp_exp m'"
  using lead_exp_mono [of m m'] by (simp add: ulp_exp_def)

section \<open>Rounding\<close>

lemma round_even_of_int [simp]: "round_even (of_int n) = n"
  by (simp add: round_even_def)

lemma round_even_mono: "x \<le> y \<Longrightarrow> round_even x \<le> round_even y"
proof -
  assume xy: "x \<le> y"
  have f: "\<lfloor>x\<rfloor> \<le> \<lfloor>y\<rfloor>" using xy by (rule floor_mono)
  show ?thesis
  proof (cases "\<lfloor>x\<rfloor> = \<lfloor>y\<rfloor>")
    case True
    with xy show ?thesis by (simp add: round_even_def Let_def)
  next
    case False
    then have "\<lfloor>x\<rfloor> + 1 \<le> \<lfloor>y\<rfloor>" using f by simp
    moreover have "round_even x \<le> \<lfloor>x\<rfloor> + 1" and "\<lfloor>y\<rfloor> \<le> round_even y"
      by (simp_all add: round_even_def Let_def)
    ultimately show ?thesis by linarith
  qed
qed

lemma round_even_ge_0: "0 \<le> x \<Longrightarrow> 0 \<le> round_even x"
  using round_even_mono [of 0 x] round_even_of_int [of 0] by simp

lemma round_mag_ge_0 [simp]: "0 \<le> round_mag m"
  by (simp add: round_mag_def round_even_ge_0)

lemma round_mag_0 [simp]: "round_mag 0 = 0"
  by (simp add: round_mag_def)

lemma round_mag_exact: "0 < m \<Longrightarrow> m = of_int k * pow2 (ulp_exp m) \<Longrightarrow> round_mag m = m"
  by (simp add: round_mag_def) (metis nonzero_mult_div_cancel_right pow2_neq_0 round_even_of_int)

lemma round_mag_mono:
  assumes "m \<le> m'"
  shows "round_mag m \<le> round_mag m'"
proof (cases "0 < m")
  case True
  let ?e = "ulp_exp m" and ?e' = "ulp_exp m'"
  have m': "0 < m'" using True assms by simp
  have "?e \<le> ?e'" using True assms by (rule ulp_exp_mono)
  then consider "?e = ?e'" | "?e < ?e'" by linarith
  then show ?thesis
  proof cases
    case 1
    have "round_even (m / pow2 ?e') \<le> round_even (m' / pow2 ?e')"
      using assms by (intro round_even_mono divide_right_mono) auto
    with 1 True m' show ?thesis by (simp add: round_mag_def)
  next
    case 2
    then have l': "lead_exp m' = ?e' + 52" by (auto simp: ulp_exp_def)
    have "lead_exp m + 1 \<le> ?e + 53" by (simp add: ulp_exp_def)
    from pow2_mono [OF this] have "m < pow2 (?e + 53)"
      using lead_exp_bounds(2) [OF True] by linarith
    then have "m / pow2 ?e \<le> of_int (2 ^ 53)"
      by (simp add: pow2_add pow2_def [of 53] pos_divide_le_eq mult.commute)
    then have "round_even (m / pow2 ?e) \<le> 2 ^ 53"
      using round_even_mono round_even_of_int by metis
    then have "of_int (round_even (m / pow2 ?e)) \<le> (of_int (2 ^ 53) :: rat)"
      by (simp only: of_int_le_iff)
    then have "round_mag m \<le> of_int (2 ^ 53) * pow2 ?e"
      using True by (simp add: round_mag_def)
    also have "\<dots> = pow2 (?e + 53)" by (simp add: pow2_add pow2_def [of 53])
    also have "\<dots> \<le> pow2 (?e' + 52)" using 2 by (intro pow2_mono) simp
    also have "\<dots> = of_int (2 ^ 52) * pow2 ?e'" by (simp add: pow2_add pow2_def [of 52])
    also have "\<dots> \<le> round_mag m'"
    proof -
      have "of_int (2 ^ 52) \<le> m' / pow2 ?e'"
        using lead_exp_bounds(1) [OF m'] l' by (simp add: pow2_add pow2_def [of 52] pos_le_divide_eq mult.commute)
      then have "2 ^ 52 \<le> round_even (m' / pow2 ?e')"
        using round_even_mono round_even_of_int by metis
      then have "(of_int (2 ^ 52) :: rat) \<le> of_int (round_even (m' / pow2 ?e'))"
        by (simp only: of_int_le_iff)
      then show ?thesis using m' by (simp add: round_mag_def)
    qed
    finally show ?thesis .
  qed
qed (simp add: round_mag_def [of m])

lemma round_mag_of_int:
  assumes "0 \<le> n" and "n \<le> 2 ^ 53"
  shows "round_mag (of_int n) = of_int n"
proof (cases "n = 0")
  case False
  then have pos: "(0::rat) < of_int n" using assms by simp
  show ?thesis
  proof (cases "n = 2 ^ 53")
    case True
    have "lead_exp (of_int n) = 53"
      using lead_exp_less [OF pos, of 54] lead_exp_ge [OF pos, of 53] True by (simp add: pow2_def)
    then show ?thesis
      using True by (intro round_mag_exact [of _ "2 ^ 52"]) (simp_all add: pos ulp_exp_def pow2_def)
  next
    case no: False
    then have "(of_int n :: rat) < of_int (2 ^ 53)" using assms by (simp only: of_int_less_iff)
    then have "lead_exp (of_int n) < 53"
      using lead_exp_less [OF pos, of 53] by (simp add: pow2_def)
    then have e: "ulp_exp (of_int n) \<le> 0" by (simp add: ulp_exp_def)
    let ?k = "n * 2 ^ nat (- ulp_exp (of_int n))"
    have "of_int n = of_int ?k * pow2 (ulp_exp (of_int n))"
      using e by (cases "ulp_exp (of_int n) = 0") (auto simp: pow2_def)
    with pos show ?thesis by (rule round_mag_exact)
  qed
qed simp

lemma f64_of_int_exact:
  assumes "0 \<le> n" and "n \<le> 2 ^ 53"
  shows "f64_of_int n = Fin False (of_int n)"
proof -
  have "(of_int n :: rat) \<le> of_int (2 ^ 53)" using assms(2) by (simp only: of_int_le_iff)
  also have "\<dots> < pow2 1024" using pow2_less [of 53 1024] by (simp add: pow2_nat)
  finally show ?thesis
    using assms round_mag_of_int [OF assms]
    by (simp add: f64_of_int_def f64_of_rat_def f64_round_def Let_def)
qed

lemma f64_round_exact:
  assumes "0 \<le> n" and "n \<le> 2 ^ 53"
  shows "f64_round neg (of_int n) = Fin neg (of_int n)"
proof -
  have "(of_int n :: rat) \<le> of_int (2 ^ 53)" using assms(2) by (simp only: of_int_le_iff)
  also have "\<dots> < pow2 1024" using pow2_less [of 53 1024] by (simp add: pow2_nat)
  finally show ?thesis using round_mag_of_int [OF assms] by (simp add: f64_round_def Let_def)
qed

lemma f64_round_numeral [simp]:
  "(numeral n :: int) \<le> 9007199254740992 \<Longrightarrow> f64_round neg (numeral n) = Fin neg (numeral n)"
  using f64_round_exact [of "numeral n" neg] by simp

lemma f64_round_0 [simp]: "f64_round neg 0 = Fin neg 0"
  and f64_round_1 [simp]: "f64_round neg 1 = Fin neg 1"
  using f64_round_exact [of 0 neg] f64_round_exact [of 1 neg] by simp_all

lemma f64_of_int_numeral [simp]:
  "(numeral n :: int) \<le> 9007199254740992 \<Longrightarrow> f64_of_int (numeral n) = Fin False (numeral n)"
  by (simp add: f64_of_int_def f64_of_rat_def)

lemma f64_of_int_0 [simp]: "f64_of_int 0 = Fin False 0"
  and f64_of_int_1 [simp]: "f64_of_int 1 = Fin False 1"
  by (simp_all add: f64_of_int_def f64_of_rat_def)

text \<open>The bounds of \<open>int64\<close> as \<open>float64\<close>: the greater one rounds up to \<open>2 ^ 63\<close>.\<close>

lemma lead_exp_eq: "0 < m \<Longrightarrow> pow2 e \<le> m \<Longrightarrow> m < pow2 (e + 1) \<Longrightarrow> lead_exp m = e"
  using lead_exp_ge [of m e] lead_exp_less [of m "e + 1"] by linarith

lemma floor_rat_numeral [simp]: "\<lfloor>(numeral a :: rat) / numeral b\<rfloor> = numeral a div numeral b"
  using floor_divide_of_int_eq [where 'a = rat, of "numeral a" "numeral b"] by simp

lemma round_mag_max_int64: "round_mag 9223372036854775807 = 9223372036854775808"
proof -
  have "lead_exp 9223372036854775807 = 62" by (rule lead_exp_eq) (simp_all add: pow2_def)
  then have u: "ulp_exp 9223372036854775807 = 10" by (simp add: ulp_exp_def)
  have "\<lfloor>(9223372036854775807 :: rat) / 1024\<rfloor> = 9007199254740991" by simp
  then have "round_even (9223372036854775807 / 1024) = 9007199254740992"
    by (simp add: round_even_def Let_def)
  then show ?thesis by (simp add: round_mag_def u pow2_def)
qed

lemma round_mag_2_63: "round_mag 9223372036854775808 = 9223372036854775808"
proof -
  have "lead_exp 9223372036854775808 = 63" by (rule lead_exp_eq) (simp_all add: pow2_def)
  then have "ulp_exp 9223372036854775808 = 11" by (simp add: ulp_exp_def)
  then show ?thesis by (intro round_mag_exact [of _ 4503599627370496]) (simp_all add: pow2_def)
qed

lemma pow2_1024_gt: "x \<le> 18446744073709551616 \<Longrightarrow> \<not> pow2 1024 \<le> x"
  using pow2_less [of 64 1024] by (simp add: pow2_def [of 64])

lemma f64_of_int_limits [simp]:
  "f64_of_int max_int64 = Fin False 9223372036854775808"
  "f64_of_int min_int64 = Fin True 9223372036854775808"
  by (simp_all add: f64_of_int_def f64_of_rat_def f64_round_def max_int64_def min_int64_def
      round_mag_max_int64 round_mag_2_63 pow2_1024_gt)

end
