(* ===== verification/Book_Side.thy ===== *)
theory Book_Side
  imports Go_Float
begin

text \<open>
  One side of an order book (\<open>backend/go/order_matching/orderbook/book.go\<close>): orders,
  price levels, and the \<open>sideBook\<close> that keeps the levels sorted best-first.

  A Go \<open>*level\<close> is identified by its price: \<open>insertLevel\<close> creates a level only for a price
  that the index does not hold, so the two never differ on a side that is \<open>side_ok\<close>. The
  index is the set of prices it has a level for. \<open>price_order\<close> is the contract of
  \<open>better\<close>; the correctness of the binary search and of the insertion is proved from
  it once and holds for bids and asks alike.
\<close>

section \<open>Constants and data\<close>

definition status_open :: string where "status_open = ''open''"
definition status_partial :: string where "status_partial = ''partially_filled''"
definition status_filled :: string where "status_filled = ''filled''"
definition status_cancelled :: string where "status_cancelled = ''cancelled''"
definition status_rejected :: string where "status_rejected = ''rejected''"

definition side_buy :: string where "side_buy = ''buy''"
definition side_sell :: string where "side_sell = ''sell''"

definition type_limit :: string where "type_limit = ''limit''"
definition type_market :: string where "type_market = ''market''"

definition tif_gtc :: string where "tif_gtc = ''GTC''"
definition tif_ioc :: string where "tif_ioc = ''IOC''"
definition tif_fok :: string where "tif_fok = ''FOK''"

lemmas book_strings =
  status_open_def status_partial_def status_filled_def status_cancelled_def status_rejected_def
  side_buy_def side_sell_def type_limit_def type_market_def tif_gtc_def tif_ioc_def tif_fok_def

text \<open>\<open>Order\<close>: the wire fields, then the exact integer state.\<close>

record order =
  o_id :: uint64
  o_trader :: string
  o_pair :: string
  o_side :: string
  o_type :: string
  o_tif :: string
  o_price :: f64
  o_quantity :: f64
  o_filled :: f64
  o_leaves :: f64
  o_status :: string
  o_created :: time
  o_updated :: time
  o_price_ticks :: int64
  o_qty_units :: int64
  o_filled_units :: int64

record level =
  lv_price :: int64
  lv_orders :: "order list"
  lv_total :: int64

record side_book =
  sb_side :: string
  sb_levels :: "level list"
  sb_index :: "int64 set"

definition leaves_units :: "order \<Rightarrow> int64" where
  "leaves_units ord = sub64 (o_qty_units ord) (o_filled_units ord)"

section \<open>Levels\<close>

definition level_add :: "order \<Rightarrow> level \<Rightarrow> level" where
  "level_add ord l = l\<lparr>lv_orders := lv_orders l @ [ord],
     lv_total := add64 (lv_total l) (leaves_units ord)\<rparr>"

text \<open>The first order with the identifier, and the orders without it.\<close>

fun take_order :: "uint64 \<Rightarrow> order list \<Rightarrow> (order \<times> order list) option" where
  "take_order i [] = None"
| "take_order i (x # xs) =
     (if o_id x = i then Some (x, xs)
      else map_option (\<lambda>(y, ys). (y, x # ys)) (take_order i xs))"

definition level_remove :: "uint64 \<Rightarrow> level \<Rightarrow> level \<times> bool" where
  "level_remove i l =
     (case take_order i (lv_orders l) of
        None \<Rightarrow> (l, False)
      | Some (ord, rest) \<Rightarrow>
          (l\<lparr>lv_orders := rest, lv_total := sub64 (lv_total l) (leaves_units ord)\<rparr>, True))"

section \<open>The side book\<close>

definition new_side_book :: "string \<Rightarrow> side_book" where
  "new_side_book side = \<lparr>sb_side = side, sb_levels = [], sb_index = {}\<rparr>"

definition price_better :: "string \<Rightarrow> int64 \<Rightarrow> int64 \<Rightarrow> bool" where
  "price_better side a b = (if side = side_buy then b < a else a < b)"

definition side_better :: "side_book \<Rightarrow> int64 \<Rightarrow> int64 \<Rightarrow> bool" where
  "side_better s = price_better (sb_side s)"

text \<open>The binary search of \<open>insertLevel\<close>, over any order of prices.\<close>

function bin_search :: "(int64 \<Rightarrow> int64 \<Rightarrow> bool) \<Rightarrow> int64 list \<Rightarrow> int64 \<Rightarrow> nat \<Rightarrow> nat \<Rightarrow> nat" where
  "bin_search better ps p lo hi =
     (if lo < hi then
        let mid = (lo + hi) div 2
        in if better (ps ! mid) p then bin_search better ps p (mid + 1) hi
           else bin_search better ps p lo mid
      else lo)"
  by pat_completeness auto
termination
  by (relation "measure (\<lambda>(b, ps, p, lo, hi). hi - lo)") auto

declare bin_search.simps [simp del]

definition insert_at :: "nat \<Rightarrow> 'a \<Rightarrow> 'a list \<Rightarrow> 'a list" where
  "insert_at i x xs = take i xs @ x # drop i xs"

text \<open>\<open>insertLevel\<close>: the side book in which the price has a level.\<close>

definition insert_level :: "int64 \<Rightarrow> side_book \<Rightarrow> side_book" where
  "insert_level p s =
     (if p \<in> sb_index s then s
      else
        let lo = bin_search (side_better s) (map lv_price (sb_levels s)) p 0 (length (sb_levels s))
        in s\<lparr>sb_levels := insert_at lo \<lparr>lv_price = p, lv_orders = [], lv_total = 0\<rparr> (sb_levels s),
             sb_index := insert p (sb_index s)\<rparr>)"

text \<open>Writing through the pointer to the level at a price.\<close>

fun map_level_at :: "int64 \<Rightarrow> (level \<Rightarrow> level) \<Rightarrow> level list \<Rightarrow> level list" where
  "map_level_at p f [] = []"
| "map_level_at p f (l # ls) = (if lv_price l = p then f l # ls else l # map_level_at p f ls)"

definition update_level :: "int64 \<Rightarrow> (level \<Rightarrow> level) \<Rightarrow> side_book \<Rightarrow> side_book" where
  "update_level p f s = s\<lparr>sb_levels := map_level_at p f (sb_levels s)\<rparr>"

fun remove_level_at :: "int64 \<Rightarrow> level list \<Rightarrow> level list" where
  "remove_level_at p [] = []"
| "remove_level_at p (l # ls) = (if lv_price l = p then ls else l # remove_level_at p ls)"

definition drop_level :: "int64 \<Rightarrow> side_book \<Rightarrow> side_book" where
  "drop_level p s =
     (if p \<notin> sb_index s then s
      else s\<lparr>sb_levels := remove_level_at p (sb_levels s), sb_index := sb_index s - {p}\<rparr>)"

fun best_level :: "side_book \<Rightarrow> level option" where
  "best_level s = (case sb_levels s of [] \<Rightarrow> None | l # _ \<Rightarrow> Some l)"

text \<open>\<open>insertLevel(p).add(o)\<close>.\<close>

definition rest_order :: "order \<Rightarrow> side_book \<Rightarrow> side_book" where
  "rest_order ord s =
     update_level (o_price_ticks ord) (level_add ord) (insert_level (o_price_ticks ord) s)"

text \<open>Every resting order of a side in price-time priority.\<close>

definition flat :: "side_book \<Rightarrow> order list" where
  "flat s = concat (map lv_orders (sb_levels s))"

section \<open>The contract of \<open>better\<close>\<close>

locale price_order =
  fixes better :: "int64 \<Rightarrow> int64 \<Rightarrow> bool"
  assumes better_irrefl: "\<not> better a a"
    and better_trans: "better a b \<Longrightarrow> better b c \<Longrightarrow> better a c"
    and better_total: "a = b \<or> better a b \<or> better b a"
begin

lemma better_asym: "better a b \<Longrightarrow> \<not> better b a"
  using better_irrefl better_trans by blast

lemma sorted_distinct: "sorted_wrt better ps \<Longrightarrow> distinct ps"
  by (induction ps) (auto simp: better_irrefl)

lemma sorted_nth_better: "sorted_wrt better ps \<Longrightarrow> i < j \<Longrightarrow> j < length ps \<Longrightarrow> better (ps ! i) (ps ! j)"
  by (simp add: sorted_wrt_iff_nth_less)

text \<open>
  The search keeps the classical invariant: every price before \<open>lo\<close> is better, none from
  \<open>hi\<close> on is.
\<close>

lemma bin_search_split:
  assumes "sorted_wrt better ps" "lo \<le> hi" "hi \<le> length ps"
    and "\<And>i. i < lo \<Longrightarrow> better (ps ! i) p"
    and "\<And>i. hi \<le> i \<Longrightarrow> i < length ps \<Longrightarrow> \<not> better (ps ! i) p"
  shows "bin_search better ps p lo hi \<le> length ps
    \<and> (\<forall>i < bin_search better ps p lo hi. better (ps ! i) p)
    \<and> (\<forall>i < length ps. bin_search better ps p lo hi \<le> i \<longrightarrow> \<not> better (ps ! i) p)"
  using assms
proof (induction "hi - lo" arbitrary: lo hi rule: less_induct)
  case less
  note prems = less.prems(2-)
  show ?case
  proof (cases "lo < hi")
    case False
    with less.prems show ?thesis by (subst (1 2 3) bin_search.simps) auto
  next
    case True
    define mid where "mid = (lo + hi) div 2"
    have mid: "lo \<le> mid" "mid < hi" using True by (simp_all add: mid_def)
    show ?thesis
    proof (cases "better (ps ! mid) p")
      case b: True
      have below: "better (ps ! i) p" if "i < mid + 1" for i
        using that b prems mid sorted_nth_better [OF assms(1), of i mid]
          better_trans [of "ps ! i" "ps ! mid" p]
        by (cases "i = mid") auto
      have  "bin_search better ps p (mid + 1) hi \<le> length ps
        \<and> (\<forall>i < bin_search better ps p (mid + 1) hi. better (ps ! i) p)
        \<and> (\<forall>i < length ps. bin_search better ps p (mid + 1) hi \<le> i \<longrightarrow> \<not> better (ps ! i) p)"
        using mid prems below assms(1) by (intro less.hyps) auto
      with True b show ?thesis
        by (simp add: bin_search.simps [of better ps p lo hi] mid_def [symmetric])
    next
      case nb: False
      have above: "\<not> better (ps ! i) p" if "mid \<le> i" "i < length ps" for i
        using that nb sorted_nth_better [OF assms(1), of mid i]
          better_trans [of "ps ! mid" "ps ! i" p]
        by (cases "i = mid") auto
      have  "bin_search better ps p lo mid \<le> length ps
        \<and> (\<forall>i < bin_search better ps p lo mid. better (ps ! i) p)
        \<and> (\<forall>i < length ps. bin_search better ps p lo mid \<le> i \<longrightarrow> \<not> better (ps ! i) p)"
        using mid prems above assms(1) by (intro less.hyps) auto
      with True nb show ?thesis
        by (simp add: bin_search.simps [of better ps p lo hi] mid_def [symmetric])
    qed
  qed
qed

lemma sorted_insert_at:
  assumes "sorted_wrt better ps" "p \<notin> set ps"
  shows "sorted_wrt better (insert_at (bin_search better ps p 0 (length ps)) p ps)"
proof -
  let ?k = "bin_search better ps p 0 (length ps)"
  have k: "?k \<le> length ps" "\<forall>i < ?k. better (ps ! i) p" "\<forall>i < length ps. ?k \<le> i \<longrightarrow> \<not> better (ps ! i) p"
    using bin_search_split [OF assms(1), of 0 "length ps" p] by auto
  have 1: "\<forall>x \<in> set (take ?k ps). better x p"
    using k by (auto simp: in_set_conv_nth)
  have 2: "better p x" if "x \<in> set (drop ?k ps)" for x
  proof -
    from that obtain j where "j < length (drop ?k ps)" "x = drop ?k ps ! j"
      by (metis in_set_conv_nth)
    then have "?k + j < length ps" "x = ps ! (?k + j)" using k(1) by auto
    moreover have "x \<noteq> p" using that assms(2) by (meson in_set_dropD)
    ultimately show ?thesis using k(3) better_total [of p x] by auto
  qed
  have s: "sorted_wrt better (take ?k ps @ drop ?k ps)" using assms(1) by simp
  then have "sorted_wrt better (take ?k ps)" "sorted_wrt better (drop ?k ps)"
    "\<forall>x \<in> set (take ?k ps). \<forall>y \<in> set (drop ?k ps). better x y"
    by (simp_all add: sorted_wrt_append del: append_take_drop_id)
  with 1 2 show ?thesis by (auto simp: insert_at_def sorted_wrt_append)
qed

end

interpretation pr: price_order "price_better side" for side
  by unfold_locales (auto simp: price_better_def)

section \<open>The invariant of a side\<close>

text \<open>What the matching engine lets rest: a live limit order on its own side and price.\<close>

definition resting_ok :: "string \<Rightarrow> int64 \<Rightarrow> order \<Rightarrow> bool" where
  "resting_ok side p ord \<longleftrightarrow> o_side ord = side \<and> o_price_ticks ord = p \<and> o_type ord = type_limit
     \<and> 0 \<le> o_filled_units ord \<and> o_filled_units ord < o_qty_units ord \<and> o_qty_units ord \<le> max_int64"

definition level_ok :: "string \<Rightarrow> level \<Rightarrow> bool" where
  "level_ok side l \<longleftrightarrow> (\<forall>x \<in> set (lv_orders l). resting_ok side (lv_price l) x)
     \<and> lv_total l = wrap64 (\<Sum>x\<leftarrow>lv_orders l. leaves_units x)"

definition side_ok :: "side_book \<Rightarrow> bool" where
  "side_ok s \<longleftrightarrow> sorted_wrt (side_better s) (map lv_price (sb_levels s))
     \<and> sb_index s = lv_price ` set (sb_levels s)
     \<and> (\<forall>l \<in> set (sb_levels s). level_ok (sb_side s) l \<and> lv_orders l \<noteq> [])"

lemma leaves_resting:
  assumes "resting_ok side p x"
  shows "leaves_units x = o_qty_units x - o_filled_units x" and "0 < leaves_units x"
proof -
  have "in_int64 (o_qty_units x - o_filled_units x)"
    using assms by (auto simp: resting_ok_def in_int64_def min_int64_def max_int64_def)
  then show "leaves_units x = o_qty_units x - o_filled_units x"
    by (simp add: leaves_units_def sub64_def)
  then show "0 < leaves_units x" using assms by (simp add: resting_ok_def)
qed

lemma in_int64_leaves [simp]: "in_int64 (leaves_units x)"
  by (simp add: leaves_units_def sub64_def)

lemma side_ok_new [simp]: "side_ok (new_side_book side)"
  by (simp add: side_ok_def new_side_book_def)

lemma flat_new [simp]: "flat (new_side_book side) = []"
  by (simp add: flat_def new_side_book_def)

lemma level_add_simps [simp]:
  "lv_price (level_add x l) = lv_price l" "lv_orders (level_add x l) = lv_orders l @ [x]"
  by (simp_all add: level_add_def)

lemma level_ok_add: "level_ok side l \<Longrightarrow> resting_ok side (lv_price l) x \<Longrightarrow> level_ok side (level_add x l)"
  by (auto simp: level_ok_def level_add_def add64_def go_int)

lemma map_level_at_split:
  "p \<notin> lv_price ` set as \<Longrightarrow> lv_price l = p \<Longrightarrow> map_level_at p f (as @ l # bs) = as @ f l # bs"
  by (induction as) auto

lemma remove_level_at_split:
  "p \<notin> lv_price ` set as \<Longrightarrow> lv_price l = p \<Longrightarrow> remove_level_at p (as @ l # bs) = as @ bs"
  by (induction as) auto

lemma sorted_prices_split:
  assumes "sorted_wrt (price_better side) (map lv_price (as @ l # bs))"
  shows "lv_price l \<notin> lv_price ` set as" "lv_price l \<notin> lv_price ` set bs"
  using pr.sorted_distinct [OF assms] by auto

text \<open>Where the new order lands: an existing level, or a new level in sorted position.\<close>

lemma rest_order_split:
  assumes ok: "side_ok s"
  obtains as bs l where
    "sb_levels (rest_order x s) = as @ level_add x l # bs"
    "lv_price l = o_price_ticks x"
    "sorted_wrt (side_better s) (map lv_price (as @ l # bs))"
    "sb_levels s = as @ l # bs \<and> o_price_ticks x \<in> sb_index s
      \<or> sb_levels s = as @ bs \<and> l = \<lparr>lv_price = o_price_ticks x, lv_orders = [], lv_total = 0\<rparr>
        \<and> o_price_ticks x \<notin> sb_index s"
proof (cases "o_price_ticks x \<in> sb_index s")
  case True
  then obtain l where l: "l \<in> set (sb_levels s)" "lv_price l = o_price_ticks x"
    using ok by (auto simp: side_ok_def)
  then obtain as bs where ls: "sb_levels s = as @ l # bs" by (meson split_list)
  have srt: "sorted_wrt (side_better s) (map lv_price (as @ l # bs))"
    using ok ls by (simp add: side_ok_def)
  show ?thesis
    using that [of as l bs] True l ls srt sorted_prices_split [of "sb_side s" as l bs]
    by (simp add: rest_order_def insert_level_def update_level_def map_level_at_split side_better_def)
next
  case False
  let ?p = "o_price_ticks x"
  let ?n = "\<lparr>lv_price = ?p, lv_orders = [], lv_total = 0\<rparr>"
  let ?k = "bin_search (side_better s) (map lv_price (sb_levels s)) ?p 0 (length (sb_levels s))"
  let ?as = "take ?k (sb_levels s)" and ?bs = "drop ?k (sb_levels s)"
  have srt: "sorted_wrt (side_better s) (map lv_price (sb_levels s))"
    and nin: "?p \<notin> set (map lv_price (sb_levels s))"
    using ok False by (auto simp: side_ok_def)
  have "sorted_wrt (side_better s) (insert_at ?k ?p (map lv_price (sb_levels s)))"
    using pr.sorted_insert_at [of "sb_side s" "map lv_price (sb_levels s)" ?p] srt nin
    by (simp add: side_better_def)
  then have srt': "sorted_wrt (side_better s) (map lv_price (?as @ ?n # ?bs))"
    by (simp add: insert_at_def take_map drop_map)
  have "sb_levels (rest_order x s) = ?as @ level_add x ?n # ?bs"
    using False sorted_prices_split [of "sb_side s" ?as ?n ?bs] srt'
    by (simp add: rest_order_def insert_level_def update_level_def map_level_at_split side_better_def
        Let_def insert_at_def)
  with that [of ?as ?n ?bs] srt' False show ?thesis by simp
qed

lemma rest_order_index [simp]: "sb_index (rest_order x s) = insert (o_price_ticks x) (sb_index s)"
  by (auto simp: rest_order_def update_level_def insert_level_def Let_def)

lemma rest_order_side [simp]: "sb_side (rest_order x s) = sb_side s"
  by (simp add: rest_order_def update_level_def insert_level_def Let_def)

lemma side_ok_rest_order:
  assumes ok: "side_ok s" and x: "resting_ok (sb_side s) (o_price_ticks x) x"
  shows "side_ok (rest_order x s)"
proof -
  from ok obtain as bs l where sp: "sb_levels (rest_order x s) = as @ level_add x l # bs"
    "lv_price l = o_price_ticks x" "sorted_wrt (side_better s) (map lv_price (as @ l # bs))"
    and old: "sb_levels s = as @ l # bs \<and> o_price_ticks x \<in> sb_index s
      \<or> sb_levels s = as @ bs \<and> l = \<lparr>lv_price = o_price_ticks x, lv_orders = [], lv_total = 0\<rparr>
        \<and> o_price_ticks x \<notin> sb_index s"
    by (rule rest_order_split)
  have l: "level_ok (sb_side s) l" using old ok by (auto simp: side_ok_def level_ok_def)
  have rest: "\<forall>k \<in> set (as @ bs). level_ok (sb_side s) k \<and> lv_orders k \<noteq> []"
    using old ok by (auto simp: side_ok_def)
  have idx: "insert (o_price_ticks x) (sb_index s) = lv_price ` set (as @ level_add x l # bs)"
    using old ok sp(2) by (auto simp: side_ok_def)
  have srt: "sorted_wrt (side_better (rest_order x s)) (map lv_price (as @ level_add x l # bs))"
    using sp(3) by (simp add: side_better_def)
  show ?thesis
    unfolding side_ok_def sp(1) using idx rest srt level_ok_add [OF l, of x] x sp(2) by auto
qed

text \<open>
  In the flattened book the order goes behind every order at a price as good as its own
  and in front of every order at a worse one: price-time priority.
\<close>

lemma flat_rest_order:
  assumes ok: "side_ok s"
  shows "\<exists>us vs. flat s = us @ vs \<and> flat (rest_order x s) = us @ x # vs
    \<and> (\<forall>u \<in> set us. u \<in> set (flat s) \<and> \<not> side_better s (o_price_ticks x) (o_price_ticks u))
    \<and> (\<forall>v \<in> set vs. v \<in> set (flat s) \<and> side_better s (o_price_ticks x) (o_price_ticks v))"
proof -
  from ok obtain as bs l where sp: "sb_levels (rest_order x s) = as @ level_add x l # bs"
    "lv_price l = o_price_ticks x" "sorted_wrt (side_better s) (map lv_price (as @ l # bs))"
    and old: "sb_levels s = as @ l # bs \<and> o_price_ticks x \<in> sb_index s
      \<or> sb_levels s = as @ bs \<and> l = \<lparr>lv_price = o_price_ticks x, lv_orders = [], lv_total = 0\<rparr>
        \<and> o_price_ticks x \<notin> sb_index s"
    by (rule rest_order_split)
  let ?us = "concat (map lv_orders (as @ [l]))" and ?vs = "concat (map lv_orders bs)"
  have flat_s: "flat s = ?us @ ?vs" using old by (auto simp: flat_def)
  have price: "o_price_ticks y = lv_price k" if "k \<in> set (sb_levels s)" "y \<in> set (lv_orders k)" for k y
    using ok that by (auto simp: side_ok_def level_ok_def resting_ok_def)
  have us: "\<not> side_better s (o_price_ticks x) (o_price_ticks u)" if u: "u \<in> set ?us" for u
  proof -
    from u obtain k where k: "k \<in> set (as @ [l])" "u \<in> set (lv_orders k)" by auto
    then have "k \<in> set (sb_levels s)" using old by auto
    with k price have pu: "o_price_ticks u = lv_price k" by blast
    show ?thesis
    proof (cases "k = l")
      case True
      then show ?thesis using pu sp(2) pr.better_irrefl by (simp add: side_better_def)
    next
      case False
      then have "side_better s (lv_price k) (lv_price l)" using sp(3) k by (auto simp: sorted_wrt_append)
      then show ?thesis using pu sp(2) pr.better_asym by (simp add: side_better_def)
    qed
  qed
  have vs: "side_better s (o_price_ticks x) (o_price_ticks v)" if v: "v \<in> set ?vs" for v
  proof -
    from v obtain k where k: "k \<in> set bs" "v \<in> set (lv_orders k)" by auto
    then have "k \<in> set (sb_levels s)" using old by auto
    with k price have "o_price_ticks v = lv_price k" by blast
    then show ?thesis using sp k(1) by (auto simp: sorted_wrt_append)
  qed
  have "flat (rest_order x s) = ?us @ x # ?vs" by (simp add: flat_def sp(1))
  with flat_s us vs show ?thesis by (metis Un_iff set_append)
qed

end
