(* ===== verification/Book_Tape.thy ===== *)
theory Book_Tape
  imports Book_Side
begin

text \<open>
  Trades and the tape of \<open>orderbook/book.go\<close>: the ring buffer of the last
  \<open>defaultTradeHistory\<close> trades (\<open>pushTrade\<close>, \<open>Trades\<close>), refined to the plain
  list of every trade pushed: reading \<open>limit\<close> trades gives the last ones, oldest first.
\<close>

record trade =
  t_id :: uint64
  t_pair :: string
  t_maker_id :: uint64
  t_taker_id :: uint64
  t_taker_side :: string
  t_maker :: string
  t_taker :: string
  t_price :: f64
  t_quantity :: f64
  t_notional :: f64
  t_maker_fee :: f64
  t_taker_fee :: f64
  t_timestamp :: time
  t_price_ticks :: int64
  t_qty_units :: int64

text \<open>The zero value of the struct, which fills a fresh buffer.\<close>

definition zero_trade :: trade where
  "zero_trade = \<lparr>t_id = 0, t_pair = [], t_maker_id = 0, t_taker_id = 0, t_taker_side = [],
     t_maker = [], t_taker = [], t_price = Fin False 0, t_quantity = Fin False 0,
     t_notional = Fin False 0, t_maker_fee = Fin False 0, t_taker_fee = Fin False 0,
     t_timestamp = 0, t_price_ticks = 0, t_qty_units = 0\<rparr>"

definition default_trade_history :: nat where
  "default_trade_history = 5000"

record tape =
  tp_buf :: "trade list"
  tp_start :: nat
  tp_count :: nat

definition new_tape :: tape where
  "new_tape = \<lparr>tp_buf = replicate default_trade_history zero_trade, tp_start = 0, tp_count = 0\<rparr>"

definition push_trade :: "trade \<Rightarrow> tape \<Rightarrow> tape" where
  "push_trade t tp =
     \<lparr>tp_buf = (tp_buf tp)[tp_start tp := t],
      tp_start = (tp_start tp + 1) mod length (tp_buf tp),
      tp_count = (if tp_count tp < length (tp_buf tp) then tp_count tp + 1 else tp_count tp)\<rparr>"

text \<open>The loop of \<open>Trades\<close>: \<open>n\<close> entries read from position \<open>start\<close>, wrapping.\<close>

fun read_ring :: "'a list \<Rightarrow> nat \<Rightarrow> nat \<Rightarrow> 'a list" where
  "read_ring buf start 0 = []"
| "read_ring buf start (Suc n) = buf ! (start mod length buf) # read_ring buf (Suc start) n"

definition tape_trades :: "int \<Rightarrow> tape \<Rightarrow> trade list" where
  "tape_trades limit tp =
     (let n = (if limit \<le> 0 \<or> int (tp_count tp) < limit then tp_count tp else nat limit);
          start = (tp_start tp + length (tp_buf tp) - n) mod length (tp_buf tp)
      in read_ring (tp_buf tp) start n)"

section \<open>The tape is the end of the history\<close>

text \<open>\<open>tape_rep tp hist\<close>: slot \<open>j mod N\<close> holds the \<open>j\<close>-th trade for the last \<open>count\<close> of them.\<close>

definition tape_rep :: "tape \<Rightarrow> trade list \<Rightarrow> bool" where
  "tape_rep tp hist \<longleftrightarrow> 0 < length (tp_buf tp)
     \<and> tp_start tp = length hist mod length (tp_buf tp)
     \<and> tp_count tp = min (length hist) (length (tp_buf tp))
     \<and> (\<forall>j < length hist. length hist - tp_count tp \<le> j \<longrightarrow>
          tp_buf tp ! (j mod length (tp_buf tp)) = hist ! j)"

lemma tape_rep_new: "tape_rep new_tape []"
  by (simp add: tape_rep_def new_tape_def default_trade_history_def)

lemma mod_eq_close:
  fixes a b n :: nat
  assumes "a mod n = b mod n" "a \<le> b" "b < a + n"
  shows "a = b"
proof -
  have "n dvd b - a" using assms(1,2) by (metis mod_eq_dvd_iff_nat)
  then have "b - a = 0" using assms(2,3) nat_dvd_not_less [of "b - a" n] by linarith
  with assms(2) show ?thesis by simp
qed

lemma tape_rep_push:
  assumes rep: "tape_rep tp hist"
  shows "tape_rep (push_trade t tp) (hist @ [t])"
proof -
  let ?N = "length (tp_buf tp)" and ?h = "length hist"
  have N: "0 < ?N" and st: "tp_start tp = ?h mod ?N" and cnt: "tp_count tp = min ?h ?N"
    and slots: "\<And>j. j < ?h \<Longrightarrow> ?h - tp_count tp \<le> j \<Longrightarrow> tp_buf tp ! (j mod ?N) = hist ! j"
    using rep by (auto simp: tape_rep_def)
  have new: "(tp_buf tp)[tp_start tp := t] ! (j mod ?N) = (hist @ [t]) ! j"
    if j: "j < Suc ?h" "Suc ?h - min (Suc ?h) ?N \<le> j" for j
  proof (cases "j = ?h")
    case True
    with N st show ?thesis by simp
  next
    case False
    then have jh: "j < ?h" using j by simp
    have "?h < j + ?N" using j(2) N by (simp add: min_def split: if_splits)
    then have "j mod ?N \<noteq> ?h mod ?N" using mod_eq_close [of j ?N ?h] jh by auto
    with slots [OF jh] jh j(2) cnt st show ?thesis by (auto simp: nth_append)
  qed
  show ?thesis
    unfolding tape_rep_def push_trade_def using N st cnt new by (auto simp: mod_Suc_eq)
qed

lemma length_tape_push [simp]: "length (tp_buf (push_trade t tp)) = length (tp_buf tp)"
  by (simp add: push_trade_def)

lemma read_ring_hist:
  assumes "\<And>i. i < n \<Longrightarrow> buf ! ((start + i) mod length buf) = hist ! (k + i)" "k + n \<le> length hist"
  shows "read_ring buf start n = take n (drop k hist)"
  using assms
proof (induction n arbitrary: start k)
  case (Suc n)
  have "read_ring buf (Suc start) n = take n (drop (Suc k) hist)"
    using Suc.prems(1) [of "Suc _"] Suc.prems(2) by (intro Suc.IH) auto
  moreover have "buf ! (start mod length buf) = hist ! k" using Suc.prems(1) [of 0] by simp
  ultimately show ?case using Suc.prems(2) by (simp add: Cons_nth_drop_Suc [symmetric])
qed simp

lemma tape_trades_hist:
  assumes rep: "tape_rep tp hist"
    and n: "n = (if limit \<le> 0 \<or> int (tp_count tp) < limit then tp_count tp else nat limit)"
  shows "tape_trades limit tp = drop (length hist - n) hist"
proof -
  let ?N = "length (tp_buf tp)" and ?h = "length hist"
  have N: "0 < ?N" and st: "tp_start tp = ?h mod ?N" and cnt: "tp_count tp = min ?h ?N"
    and slots: "\<And>j. j < ?h \<Longrightarrow> ?h - tp_count tp \<le> j \<Longrightarrow> tp_buf tp ! (j mod ?N) = hist ! j"
    using rep by (auto simp: tape_rep_def)
  have nle: "n \<le> tp_count tp" using n by (auto split: if_splits)
  then have nN: "n \<le> ?N" "n \<le> ?h" using cnt by auto
  have start: "(tp_start tp + ?N - n) mod ?N = (?h - n) mod ?N"
  proof -
    have "tp_start tp + ?N - n = ?h mod ?N + (?N - n)" using nN st by simp
    then have "(tp_start tp + ?N - n) mod ?N = (?h + (?N - n)) mod ?N" by (simp add: mod_add_left_eq)
    also have "?h + (?N - n) = (?h - n) + ?N" using nN by simp
    finally show ?thesis by simp
  qed
  have "read_ring (tp_buf tp) ((?h - n) mod ?N) n = take n (drop (?h - n) hist)"
  proof (rule read_ring_hist)
    fix i assume i: "i < n"
    have "((?h - n) mod ?N + i) mod ?N = (?h - n + i) mod ?N" by (simp add: mod_add_left_eq)
    then show "tp_buf tp ! (((?h - n) mod ?N + i) mod ?N) = hist ! (?h - n + i)"
      using slots [of "?h - n + i"] i nN nle by auto
  qed (use nN in auto)
  then show ?thesis using start n by (simp add: tape_trades_def Let_def)
qed

end
