(* ===== verification/Book_Match.thy ===== *)
theory Book_Match
  imports Book_Tape
begin

text \<open>
  The book of one pair (\<open>orderbook/book.go\<close>): validation, matching, submission,
  cancellation and the reads. Every method holds the book's mutex, so each is one atomic
  step from book to book. \<open>time.Now()\<close> is a parameter: \<open>clk 0\<close> stamps the submitted
  order and \<open>clk k\<close> its \<open>k\<close>-th trade; the reading a cancelled resting order gets is not
  observable, since the order leaves the book.

  The matching loop is \<open>partial_function (option)\<close>: on a side whose index lost a level the
  Go loop would spin, and \<open>None\<close> says so. On a well-formed book it always returns and
  computes \<open>match_flat\<close>, the price-time priority rule over the flat list of resting
  orders.
\<close>

section \<open>Configuration, book, errors\<close>

datatype book_error =
  ErrUnknownPair | ErrBadSide | ErrBadType | ErrBadTIF | ErrBadPrice | ErrBadQuantity
| ErrQtyRange | ErrUnknownOrder | ErrNotOwner | ErrNoLiquidity | ErrPairRequired

record pair_config =
  pc_pair :: string
  pc_price_scale :: int64
  pc_qty_scale :: int64
  pc_maker_fee_bps :: int64
  pc_taker_fee_bps :: int64
  pc_min_quantity :: f64
  pc_max_quantity :: f64

definition default_scale :: int64 where
  "default_scale = 100000000"

definition with_defaults :: "pair_config \<Rightarrow> pair_config" where
  "with_defaults c = c\<lparr>
     pc_price_scale := (if pc_price_scale c \<le> 0 then default_scale else pc_price_scale c),
     pc_qty_scale := (if pc_qty_scale c \<le> 0 then default_scale else pc_qty_scale c),
     pc_maker_fee_bps := (if pc_maker_fee_bps c < 0 then 0 else pc_maker_fee_bps c),
     pc_taker_fee_bps := (if pc_taker_fee_bps c < 0 then 0 else pc_taker_fee_bps c)\<rparr>"

record book =
  bk_cfg :: pair_config
  bk_bids :: side_book
  bk_asks :: side_book
  bk_last :: int64
  bk_open :: int
  bk_tape :: tape

definition new_book :: "pair_config \<Rightarrow> book" where
  "new_book cfg = \<lparr>bk_cfg = with_defaults cfg, bk_bids = new_side_book side_buy,
     bk_asks = new_side_book side_sell, bk_last = 0, bk_open = 0, bk_tape = new_tape\<rparr>"

definition f64_zero :: f64 where
  "f64_zero = Fin False 0"

section \<open>Validation\<close>

definition to_ticks :: "f64 \<Rightarrow> int64 \<Rightarrow> int64 option" where
  "to_ticks value scale =
     (if is_nan value \<or> is_inf value then None
      else
        let scaled = f64_mul value (f64_of_int scale)
        in if f64_lt (f64_of_int max_int64) scaled \<or> f64_lt scaled (f64_of_int min_int64) then None
           else Some (f64_to_int64 (math_round scaled)))"

text \<open>The quantity checks of \<open>validate\<close>, and its price checks for a limit order.\<close>

definition quantity_units :: "pair_config \<Rightarrow> f64 \<Rightarrow> book_error + int64" where
  "quantity_units cfg q =
     (if is_nan q \<or> is_inf q \<or> f64_le q f64_zero then Inl ErrBadQuantity
      else if f64_lt f64_zero (pc_min_quantity cfg) \<and> f64_lt q (pc_min_quantity cfg) then Inl ErrQtyRange
      else if f64_lt f64_zero (pc_max_quantity cfg) \<and> f64_lt (pc_max_quantity cfg) q then Inl ErrQtyRange
      else (case to_ticks q (pc_qty_scale cfg) of
              None \<Rightarrow> Inl ErrBadQuantity
            | Some units \<Rightarrow> if units \<le> 0 then Inl ErrBadQuantity else Inr units))"

definition limit_ticks :: "pair_config \<Rightarrow> f64 \<Rightarrow> book_error + int64" where
  "limit_ticks cfg p =
     (if is_nan p \<or> is_inf p \<or> f64_le p f64_zero then Inl ErrBadPrice
      else (case to_ticks p (pc_price_scale cfg) of
              None \<Rightarrow> Inl ErrBadPrice
            | Some ticks \<Rightarrow> if ticks \<le> 0 then Inl ErrBadPrice else Inr ticks))"

text \<open>
  \<open>validate\<close> works on the book's own copy of the order, so what it has already normalised
  stays in the copy when a later check fails.
\<close>

definition validate :: "pair_config \<Rightarrow> order \<Rightarrow> order \<times> book_error option" where
  "validate cfg ord =
     (if o_side ord \<notin> {side_buy, side_sell} then (ord, Some ErrBadSide)
      else if o_type ord \<notin> {type_limit, type_market} then (ord, Some ErrBadType)
      else
        let t1 = (if o_tif ord = [] then tif_gtc else o_tif ord) in
        if t1 \<notin> {tif_gtc, tif_ioc, tif_fok} then (ord\<lparr>o_tif := t1\<rparr>, Some ErrBadTIF)
        else
          let o2 = ord\<lparr>o_tif := (if o_type ord = type_market \<and> t1 = tif_gtc then tif_ioc else t1)\<rparr> in
          (case quantity_units cfg (o_quantity ord) of
             Inl e \<Rightarrow> (o2, Some e)
           | Inr units \<Rightarrow>
               let o3 = o2\<lparr>o_qty_units := units, o_filled_units := 0\<rparr> in
               if o_type ord = type_limit then
                 (case limit_ticks cfg (o_price ord) of
                    Inl e \<Rightarrow> (o3, Some e)
                  | Inr ticks \<Rightarrow> (o3\<lparr>o_price_ticks := ticks\<rparr>, None))
               else (o3\<lparr>o_price_ticks := 0\<rparr>, None)))"

section \<open>Public fields\<close>

definition sync_public :: "pair_config \<Rightarrow> order \<Rightarrow> order" where
  "sync_public cfg ord =
     (let scale = f64_of_int (pc_qty_scale cfg);
          o1 = ord\<lparr>o_filled := f64_div (f64_of_int (o_filled_units ord)) scale,
                   o_leaves := f64_div (f64_of_int (leaves_units ord)) scale\<rparr>
      in if o_status ord = status_rejected then o1
         else if o_status ord = status_cancelled then o1\<lparr>o_leaves := f64_zero\<rparr>
         else if leaves_units ord = 0 then o1\<lparr>o_status := status_filled\<rparr>
         else if 0 < o_filled_units ord then o1\<lparr>o_status := status_partial\<rparr>
         else o1\<lparr>o_status := status_open\<rparr>)"

section \<open>Matching\<close>

definition opposite_side :: "string \<Rightarrow> string" where
  "opposite_side side = (if side = side_buy then side_sell else side_buy)"

definition side_for :: "string \<Rightarrow> book \<Rightarrow> side_book" where
  "side_for side b = (if side = side_buy then bk_bids b else bk_asks b)"

definition set_side :: "string \<Rightarrow> side_book \<Rightarrow> book \<Rightarrow> book" where
  "set_side side s b = (if side = side_buy then b\<lparr>bk_bids := s\<rparr> else b\<lparr>bk_asks := s\<rparr>)"

definition crosses :: "order \<Rightarrow> int64 \<Rightarrow> bool" where
  "crosses ord resting =
     (if o_type ord = type_market then True
      else if o_side ord = side_buy then resting \<le> o_price_ticks ord
      else o_price_ticks ord \<le> resting)"

fun available_from :: "order \<Rightarrow> level list \<Rightarrow> int64 \<Rightarrow> int64" where
  "available_from ord [] acc = acc"
| "available_from ord (l # ls) acc =
     (if \<not> crosses ord (lv_price l) then acc
      else available_from ord ls (add64 acc (lv_total l)))"

definition available_units :: "book \<Rightarrow> order \<Rightarrow> int64" where
  "available_units b ord =
     available_from ord (sb_levels (side_for (opposite_side (o_side ord)) b)) 0"

definition min_int :: "int64 \<Rightarrow> int64 \<Rightarrow> int64" where
  "min_int a b = (if a < b then a else b)"

definition make_trade :: "pair_config \<Rightarrow> time \<Rightarrow> order \<Rightarrow> order \<Rightarrow> int64 \<Rightarrow> int64 \<Rightarrow> trade" where
  "make_trade cfg now maker taker ticks units =
     (let price = f64_div (f64_of_int ticks) (f64_of_int (pc_price_scale cfg));
          qty = f64_div (f64_of_int units) (f64_of_int (pc_qty_scale cfg));
          notional = f64_mul price qty
      in \<lparr>t_id = 0, t_pair = pc_pair cfg, t_maker_id = o_id maker, t_taker_id = o_id taker,
          t_taker_side = o_side taker, t_maker = o_trader maker, t_taker = o_trader taker,
          t_price = price, t_quantity = qty, t_notional = notional,
          t_maker_fee = f64_div (f64_mul notional (f64_of_int (pc_maker_fee_bps cfg))) (f64_of_int 10000),
          t_taker_fee = f64_div (f64_mul notional (f64_of_int (pc_taker_fee_bps cfg))) (f64_of_int 10000),
          t_timestamp = now, t_price_ticks = ticks, t_qty_units = units\<rparr>)"

text \<open>What the loop changes beside the opposite side: the taker, its trades, the counters.\<close>

record match_state =
  ms_taker :: order
  ms_trades :: "trade list"
  ms_open :: int
  ms_tape :: tape

text \<open>One fill: the maker that stays, if it is not done, and the new state.\<close>

definition fill_order ::
  "(nat \<Rightarrow> time) \<Rightarrow> pair_config \<Rightarrow> int64 \<Rightarrow> order \<Rightarrow> int64 \<Rightarrow> match_state \<Rightarrow> order option \<times> match_state" where
  "fill_order clk cfg ticks maker qty ms =
     (let taker = (ms_taker ms)\<lparr>o_filled_units := add64 (o_filled_units (ms_taker ms)) qty\<rparr>;
          m1 = maker\<lparr>o_filled_units := add64 (o_filled_units maker) qty\<rparr>;
          t = make_trade cfg (clk (Suc (length (ms_trades ms)))) m1 taker ticks qty;
          m2 = m1\<lparr>o_updated := t_timestamp t\<rparr>;
          ms1 = ms\<lparr>ms_taker := taker, ms_trades := ms_trades ms @ [t], ms_tape := push_trade t (ms_tape ms)\<rparr>
      in if leaves_units m2 = 0 then (None, ms1\<lparr>ms_open := ms_open ms - 1\<rparr>)
         else (Some (sync_public cfg (m2\<lparr>o_status := status_partial\<rparr>)), ms1))"

text \<open>\<open>cancelResting\<close>: remove the order and drop its level when that empties it.\<close>

definition cancel_resting :: "side_book \<Rightarrow> level \<Rightarrow> order \<Rightarrow> side_book \<times> level" where
  "cancel_resting s l ord =
     (let l' = fst (level_remove (o_id ord) l)
      in (if lv_orders l' = [] then drop_level (lv_price l') s else s, l'))"

lemma leaves_fill:
  assumes "0 < qty" "qty \<le> leaves_units x"
  shows "leaves_units (x\<lparr>o_filled_units := add64 (o_filled_units x) qty\<rparr>) = leaves_units x - qty"
proof -
  have "in_int64 (leaves_units x - qty)"
    using assms by (auto intro: in_int64_between [of 0 "leaves_units x" "leaves_units x - qty"])
  then have "wrap64 (leaves_units x - qty) = leaves_units x - qty" by (rule wrap64_id)
  moreover have "wrap64 (leaves_units x - qty) = wrap64 (o_qty_units x - (o_filled_units x + qty))"
    unfolding leaves_units_def sub64_def by (simp only: wrap64_wrap64_diff diff_diff_add)
  ultimately show ?thesis
    by (simp add: leaves_units_def [of "x\<lparr>o_filled_units := _\<rparr>"] add64_def sub64_def wrap64_wrap64_diff2)
qed

lemma taker_fill_order [simp]:
  "ms_taker (snd (fill_order clk cfg p m qty ms)) =
    (ms_taker ms)\<lparr>o_filled_units := add64 (o_filled_units (ms_taker ms)) qty\<rparr>"
  by (simp add: fill_order_def Let_def)

lemma orders_cancel_resting [simp]:
  "lv_orders l = maker # rest \<Longrightarrow> lv_orders (snd (cancel_resting s l maker)) = rest"
  by (simp add: cancel_resting_def level_remove_def Let_def)

text \<open>The inner loop, over the orders of one level.\<close>

function match_level ::
  "(nat \<Rightarrow> time) \<Rightarrow> pair_config \<Rightarrow> side_book \<Rightarrow> level \<Rightarrow> match_state \<Rightarrow> side_book \<times> level \<times> match_state" where
  "match_level clk cfg s l ms =
     (case lv_orders l of
        [] \<Rightarrow> (s, l, ms)
      | maker # rest \<Rightarrow>
          if leaves_units (ms_taker ms) \<le> 0 then (s, l, ms)
          else if o_trader maker = o_trader (ms_taker ms)
               \<or> min_int (leaves_units (ms_taker ms)) (leaves_units maker) \<le> 0 then
            match_level clk cfg (fst (cancel_resting s l maker)) (snd (cancel_resting s l maker))
              (ms\<lparr>ms_open := ms_open ms - 1\<rparr>)
          else
            let qty = min_int (leaves_units (ms_taker ms)) (leaves_units maker);
                r = fill_order clk cfg (lv_price l) maker qty ms
            in match_level clk cfg s
                 (l\<lparr>lv_orders := (case fst r of None \<Rightarrow> rest | Some m \<Rightarrow> m # rest),
                    lv_total := sub64 (lv_total l) qty\<rparr>)
                 (snd r))"
  by pat_completeness auto
termination
proof (relation "measures [\<lambda>(clk, cfg, s, l, ms). length (lv_orders l),
      \<lambda>(clk, cfg, s, l, ms). nat (leaves_units (ms_taker ms))]", goal_cases)
  case (3 clk cfg s l ms maker rest qty r)
  have q: "0 < qty" "qty \<le> leaves_units (ms_taker ms)"
    using 3 by (auto simp: min_int_def split: if_splits)
  have "nat (leaves_units (ms_taker (snd r))) < nat (leaves_units (ms_taker ms))"
    using leaves_fill [OF q] q 3 by simp
  then show ?case using 3 by (auto split: option.splits)
qed auto

declare match_level.simps [simp del]

text \<open>Leaving the inner loop: an emptied level is dropped, a live one was changed in place.\<close>

definition store_back :: "side_book \<times> level \<times> match_state \<Rightarrow> side_book \<times> match_state" where
  "store_back r = (case r of (s, l, ms) \<Rightarrow>
     (if lv_orders l = [] then drop_level (lv_price l) s else update_level (lv_price l) (\<lambda>_. l) s, ms))"

partial_function (option) match_loop ::
  "(nat \<Rightarrow> time) \<Rightarrow> pair_config \<Rightarrow> side_book \<Rightarrow> match_state \<Rightarrow> (side_book \<times> match_state) option" where
  "match_loop clk cfg s ms =
     (if \<not> (0 < leaves_units (ms_taker ms) \<and> sb_levels s \<noteq> []) then Some (s, ms)
      else if \<not> crosses (ms_taker ms) (lv_price (hd (sb_levels s))) then Some (s, ms)
      else match_loop clk cfg
             (fst (store_back (match_level clk cfg s (hd (sb_levels s)) ms)))
             (snd (store_back (match_level clk cfg s (hd (sb_levels s)) ms))))"

definition match_book :: "(nat \<Rightarrow> time) \<Rightarrow> book \<Rightarrow> order \<Rightarrow> (book \<times> order \<times> trade list) option" where
  "match_book clk b ord =
     (let side = opposite_side (o_side ord);
          ms = \<lparr>ms_taker = ord, ms_trades = [], ms_open = bk_open b, ms_tape = bk_tape b\<rparr>
      in case match_loop clk (bk_cfg b) (side_for side b) ms of
           None \<Rightarrow> None
         | Some (s, ms') \<Rightarrow>
             Some ((set_side side s b)\<lparr>
                 bk_open := ms_open ms', bk_tape := ms_tape ms',
                 bk_last := (if ms_trades ms' = [] then bk_last b else t_price_ticks (last (ms_trades ms')))\<rparr>,
               ms_taker ms', ms_trades ms'))"

section \<open>Submission and cancellation\<close>

definition submit ::
  "(nat \<Rightarrow> time) \<Rightarrow> book \<Rightarrow> order \<Rightarrow> (book \<times> order \<times> trade list \<times> book_error option) option" where
  "submit clk b ord =
     (case validate (bk_cfg b) ord of
        (o1, Some e) \<Rightarrow> Some (b, sync_public (bk_cfg b) (o1\<lparr>o_status := status_rejected\<rparr>), [], Some e)
      | (o1, None) \<Rightarrow>
          let o2 = o1\<lparr>o_created := clk 0, o_updated := clk 0\<rparr> in
          if o_tif o2 = tif_fok \<and> available_units b o2 < o_qty_units o2
          then Some (b, sync_public (bk_cfg b) (o2\<lparr>o_status := status_rejected\<rparr>), [], Some ErrNoLiquidity)
          else
            (case match_book clk b o2 of
               None \<Rightarrow> None
             | Some (b1, o3, trades) \<Rightarrow>
                 if 0 < leaves_units o3 \<and> o_type o3 = type_limit \<and> o_tif o3 = tif_gtc then
                   let o4 = sync_public (bk_cfg b) o3
                   in Some ((set_side (o_side o3) (rest_order o4 (side_for (o_side o3) b1)) b1)
                              \<lparr>bk_open := bk_open b1 + 1\<rparr>, o4, trades, None)
                 else if 0 < leaves_units o3 then
                   Some (b1, sync_public (bk_cfg b) (o3\<lparr>o_status := status_cancelled\<rparr>), trades, None)
                 else Some (b1, sync_public (bk_cfg b) o3, trades, None)))"

text \<open>The level and the order an identifier names on one side, in book order.\<close>

fun find_in_levels :: "uint64 \<Rightarrow> level list \<Rightarrow> (level \<times> order) option" where
  "find_in_levels i [] = None"
| "find_in_levels i (l # ls) =
     (case find (\<lambda>x. o_id x = i) (lv_orders l) of
        Some x \<Rightarrow> Some (l, x)
      | None \<Rightarrow> find_in_levels i ls)"

definition cancel_on :: "string \<Rightarrow> level \<Rightarrow> order \<Rightarrow> time \<Rightarrow> book \<Rightarrow> book \<times> order" where
  "cancel_on side l x now b =
     (let s = side_for side b;
          l' = fst (level_remove (o_id x) l);
          s' = (if lv_orders l' = [] then drop_level (lv_price l) s
                else update_level (lv_price l) (\<lambda>_. l') s)
      in ((set_side side s' b)\<lparr>bk_open := bk_open b - 1\<rparr>,
          sync_public (bk_cfg b) (x\<lparr>o_status := status_cancelled, o_updated := now\<rparr>)))"

definition cancel :: "time \<Rightarrow> uint64 \<Rightarrow> string \<Rightarrow> book \<Rightarrow> book \<times> (book_error + order)" where
  "cancel now i trader b =
     (case find_in_levels i (sb_levels (bk_bids b)) of
        Some (l, x) \<Rightarrow>
          if o_trader x \<noteq> trader then (b, Inl ErrNotOwner)
          else (case cancel_on side_buy l x now b of (b', x') \<Rightarrow> (b', Inr x'))
      | None \<Rightarrow>
          (case find_in_levels i (sb_levels (bk_asks b)) of
             Some (l, x) \<Rightarrow>
               if o_trader x \<noteq> trader then (b, Inl ErrNotOwner)
               else (case cancel_on side_sell l x now b of (b', x') \<Rightarrow> (b', Inr x'))
           | None \<Rightarrow> (b, Inl ErrUnknownOrder)))"

section \<open>Reads\<close>

definition get_order :: "uint64 \<Rightarrow> book \<Rightarrow> order option" where
  "get_order i b =
     (case find_in_levels i (sb_levels (bk_bids b)) of
        Some (_, x) \<Rightarrow> Some x
      | None \<Rightarrow> map_option snd (find_in_levels i (sb_levels (bk_asks b))))"

definition orders_by_trader :: "string \<Rightarrow> book \<Rightarrow> order list" where
  "orders_by_trader trader b = filter (\<lambda>x. o_trader x = trader) (flat (bk_bids b) @ flat (bk_asks b))"

record depth_level =
  dl_price :: f64
  dl_quantity :: f64
  dl_orders :: nat

definition build_depth :: "pair_config \<Rightarrow> nat \<Rightarrow> side_book \<Rightarrow> depth_level list" where
  "build_depth cfg limit s =
     map (\<lambda>l. \<lparr>dl_price = f64_div (f64_of_int (lv_price l)) (f64_of_int (pc_price_scale cfg)),
               dl_quantity = f64_div (f64_of_int (lv_total l)) (f64_of_int (pc_qty_scale cfg)),
               dl_orders = length (lv_orders l)\<rparr>)
       (take limit (sb_levels s))"

definition depth :: "int \<Rightarrow> book \<Rightarrow> depth_level list \<times> depth_level list" where
  "depth limit b =
     (let n = (if limit \<le> 0 then 20 else nat limit)
      in (build_depth (bk_cfg b) n (bk_bids b), build_depth (bk_cfg b) n (bk_asks b)))"

definition best_price :: "pair_config \<Rightarrow> side_book \<Rightarrow> f64" where
  "best_price cfg s =
     (case best_level s of
        Some l \<Rightarrow> f64_div (f64_of_int (lv_price l)) (f64_of_int (pc_price_scale cfg))
      | None \<Rightarrow> f64_zero)"

definition best_bid :: "book \<Rightarrow> f64" where "best_bid b = best_price (bk_cfg b) (bk_bids b)"
definition best_ask :: "book \<Rightarrow> f64" where "best_ask b = best_price (bk_cfg b) (bk_asks b)"

definition last_price :: "book \<Rightarrow> f64" where
  "last_price b = f64_div (f64_of_int (bk_last b)) (f64_of_int (pc_price_scale (bk_cfg b)))"

definition book_trades :: "int \<Rightarrow> book \<Rightarrow> trade list" where
  "book_trades limit b = tape_trades limit (bk_tape b)"

end
