(* ===== verification/Book_Refine.thy ===== *)
theory Book_Refine
  imports Book_Match
begin

text \<open>
  What matching means, and that the level structure implements it. \<open>match_flat\<close> is the
  venue's rule over one list of resting orders in price-time priority; \<open>match_loop\<close>
  returns on every well-formed side, keeps it well-formed and computes \<open>match_flat\<close> on
  its flattening. The book's invariant \<open>book_ok\<close> and its preservation follow.
\<close>

section \<open>The rule\<close>

fun match_flat ::
  "(nat \<Rightarrow> time) \<Rightarrow> pair_config \<Rightarrow> order list \<Rightarrow> match_state \<Rightarrow> order list \<times> match_state" where
  "match_flat clk cfg [] ms = ([], ms)"
| "match_flat clk cfg (maker # rest) ms =
     (if leaves_units (ms_taker ms) \<le> 0 \<or> \<not> crosses (ms_taker ms) (o_price_ticks maker)
      then (maker # rest, ms)
      else if o_trader maker = o_trader (ms_taker ms)
      then match_flat clk cfg rest (ms\<lparr>ms_open := ms_open ms - 1\<rparr>)
      else
        let qty = min (leaves_units (ms_taker ms)) (leaves_units maker);
            r = fill_order clk cfg (o_price_ticks maker) maker qty ms
        in (case fst r of
              None \<Rightarrow> match_flat clk cfg rest (snd r)
            | Some m \<Rightarrow> (m # rest, snd r)))"

lemma min_int_min [simp]: "min_int a b = min a b"
  by (simp add: min_int_def min_def)

lemma crosses_filled [simp]: "crosses (x\<lparr>o_filled_units := n\<rparr>) = crosses x"
  by (simp add: crosses_def fun_eq_iff)

lemma sync_public_simps [simp]:
  "o_id (sync_public cfg x) = o_id x" "o_trader (sync_public cfg x) = o_trader x"
  "o_side (sync_public cfg x) = o_side x" "o_type (sync_public cfg x) = o_type x"
  "o_tif (sync_public cfg x) = o_tif x" "o_pair (sync_public cfg x) = o_pair x"
  "o_price_ticks (sync_public cfg x) = o_price_ticks x"
  "o_qty_units (sync_public cfg x) = o_qty_units x"
  "o_filled_units (sync_public cfg x) = o_filled_units x"
  by (simp_all add: sync_public_def Let_def)

lemma leaves_sync_public [simp]: "leaves_units (sync_public cfg x) = leaves_units x"
  by (simp add: leaves_units_def)

lemma resting_ok_sync_public [simp]: "resting_ok side p (sync_public cfg x) = resting_ok side p x"
  by (simp add: resting_ok_def)

section \<open>One fill\<close>

lemma leaves_updates [simp]:
  "leaves_units (x\<lparr>o_updated := u\<rparr>) = leaves_units x"
  "leaves_units (x\<lparr>o_created := u\<rparr>) = leaves_units x"
  "leaves_units (x\<lparr>o_status := st\<rparr>) = leaves_units x"
  by (simp_all add: leaves_units_def)

lemma fill_order_None:
  assumes "0 < qty" "qty \<le> leaves_units m" "fst (fill_order clk cfg p m qty ms) = None"
  shows "qty = leaves_units m"
  using assms leaves_fill [OF assms(1,2)] by (auto simp: fill_order_def Let_def split: if_splits)

lemma fill_order_Some:
  assumes "0 < qty" "qty \<le> leaves_units m" "fst (fill_order clk cfg p m qty ms) = Some m'"
  shows "leaves_units m' = leaves_units m - qty" "leaves_units m' \<noteq> 0"
    "o_id m' = o_id m" "o_trader m' = o_trader m" "o_filled_units m' = add64 (o_filled_units m) qty"
    "o_qty_units m' = o_qty_units m" "o_price_ticks m' = o_price_ticks m"
    "o_side m' = o_side m" "o_type m' = o_type m"
  using assms leaves_fill [OF assms(1,2)] by (auto simp: fill_order_def Let_def split: if_splits)

lemma resting_fill_Some:
  assumes m: "resting_ok side p m" and q: "0 < qty" "qty \<le> leaves_units m"
    and s: "fst (fill_order clk cfg p' m qty ms) = Some m'"
  shows "resting_ok side p m'"
proof -
  have lv: "leaves_units m = o_qty_units m - o_filled_units m" by (rule leaves_resting [OF m])
  have "in_int64 (o_filled_units m + qty)"
    using m q lv by (auto simp: resting_ok_def in_int64_def min_int64_def max_int64_def)
  then have "o_filled_units m' = o_filled_units m + qty"
    using fill_order_Some(5) [OF q s] by (simp add: add64_def)
  with fill_order_Some [OF q s] m q lv show ?thesis by (auto simp: resting_ok_def)
qed

lemma leaves_taker_fill:
  "0 < qty \<Longrightarrow> qty \<le> leaves_units (ms_taker ms) \<Longrightarrow>
    leaves_units (ms_taker (snd (fill_order clk cfg p m qty ms))) = leaves_units (ms_taker ms) - qty"
  by (simp add: leaves_fill)

section \<open>Levels\<close>

lemma level_ok_cancel:
  assumes ok: "level_ok side l" and l: "lv_orders l = maker # rest"
  shows "level_ok side (snd (cancel_resting s l maker))"
    and "lv_price (snd (cancel_resting s l maker)) = lv_price l"
proof -
  have "wrap64 (leaves_units maker + (\<Sum>x\<leftarrow>rest. leaves_units x) - leaves_units maker)
      = wrap64 (\<Sum>x\<leftarrow>rest. leaves_units x)" by simp
  then show "level_ok side (snd (cancel_resting s l maker))"
    and "lv_price (snd (cancel_resting s l maker)) = lv_price l"
    using ok l by (auto simp: cancel_resting_def level_remove_def Let_def level_ok_def sub64_def wrap64_wrap64_diff)
qed

lemma level_ok_fill:
  assumes ok: "level_ok side l" and l: "lv_orders l = maker # rest"
    and q: "0 < qty" "qty \<le> leaves_units maker"
    and r_def: "r = fill_order clk cfg (lv_price l) maker qty ms"
  shows "level_ok side (l\<lparr>lv_orders := (case fst r of None \<Rightarrow> rest | Some m \<Rightarrow> m # rest),
           lv_total := sub64 (lv_total l) qty\<rparr>)"
proof (cases "fst r")
  case None
  then have "qty = leaves_units maker" using fill_order_None [OF q] by (simp add: r_def)
  with None ok l show ?thesis by (auto simp: level_ok_def sub64_def wrap64_wrap64_diff)
next
  case (Some m)
  have m: "resting_ok side (lv_price l) m"
    using resting_fill_Some [OF _ q Some [unfolded r_def]] ok l by (auto simp: level_ok_def)
  have lm: "leaves_units maker = leaves_units m + qty" using fill_order_Some [OF q Some [unfolded r_def]] by simp
  show ?thesis using Some m ok l by (auto simp: level_ok_def sub64_def wrap64_wrap64_diff lm)
qed

text \<open>
  The inner loop does to the orders of its level what the rule does to them, and its side
  is the old one, or the old one without the level when self-trade prevention emptied it.
\<close>

definition level_result :: "(nat \<Rightarrow> time) \<Rightarrow> pair_config \<Rightarrow> string \<Rightarrow> side_book \<Rightarrow> level \<Rightarrow> match_state
    \<Rightarrow> side_book \<times> level \<times> match_state \<Rightarrow> bool" where
  "level_result clk cfg side s l ms r \<longleftrightarrow>
     (case r of (s', l', ms') \<Rightarrow>
        match_flat clk cfg (lv_orders l) ms = (lv_orders l', ms')
        \<and> level_ok side l' \<and> lv_price l' = lv_price l
        \<and> (s' = s \<or> lv_orders l' = [] \<and> s' = drop_level (lv_price l) s)
        \<and> (lv_orders l' \<noteq> [] \<longrightarrow> leaves_units (ms_taker ms') \<le> 0)
        \<and> crosses (ms_taker ms') = crosses (ms_taker ms))"

lemma drop_level_idem [simp]: "drop_level p (drop_level p s) = drop_level p s"
  by (simp add: drop_level_def)

lemma match_level_flat:
  assumes "level_ok side l" "crosses (ms_taker ms) (lv_price l)"
  shows "level_result clk cfg side s l ms (match_level clk cfg s l ms)"
  using assms
proof (induction clk cfg s l ms rule: match_level.induct)
  case (1 clk cfg s l ms)
  show ?case
  proof (cases "lv_orders l")
    case Nil
    then show ?thesis using "1.prems" by (subst match_level.simps) (simp add: level_result_def)
  next
    case (Cons maker rest)
    let ?q = "min (leaves_units (ms_taker ms)) (leaves_units maker)"
    have maker: "resting_ok side (lv_price l) maker" using "1.prems"(1) Cons by (simp add: level_ok_def)
    then have price: "o_price_ticks maker = lv_price l" by (simp add: resting_ok_def)
    have lm: "0 < leaves_units maker" by (rule leaves_resting [OF maker])
    show ?thesis
    proof (cases "leaves_units (ms_taker ms) \<le> 0")
      case True
      then show ?thesis using Cons "1.prems" by (subst match_level.simps) (simp add: level_result_def)
    next
      case live: False
      show ?thesis
      proof (cases "o_trader maker = o_trader (ms_taker ms)")
        case self: True
        let ?c = "cancel_resting s l maker" and ?ms = "ms\<lparr>ms_open := ms_open ms - 1\<rparr>"
        have eq: "match_level clk cfg s l ms = match_level clk cfg (fst ?c) (snd ?c) ?ms"
          using Cons live self by (subst match_level.simps) simp
        have ih: "level_result clk cfg side (fst ?c) (snd ?c) ?ms (match_level clk cfg (fst ?c) (snd ?c) ?ms)"
          using "1.IH"(1) [OF Cons live] self level_ok_cancel [OF "1.prems"(1) Cons] "1.prems"(2) by simp
        have fc: "fst ?c = s \<or> rest = [] \<and> fst ?c = drop_level (lv_price l) s"
          using level_ok_cancel(2) [OF "1.prems"(1) Cons, of s] Cons
          by (auto simp: cancel_resting_def level_remove_def Let_def)
        obtain s' l' ms' where r: "match_level clk cfg (fst ?c) (snd ?c) ?ms = (s', l', ms')"
          by (cases "match_level clk cfg (fst ?c) (snd ?c) ?ms")
        have "match_flat clk cfg rest ?ms = (lv_orders l', ms')"
          using ih r Cons by (simp add: level_result_def)
        moreover from this have "rest = [] \<Longrightarrow> lv_orders l' = []" by simp
        ultimately show ?thesis
          using ih r eq fc live self price "1.prems"(2) Cons level_ok_cancel(2) [OF "1.prems"(1) Cons, of s]
          by (auto simp: level_result_def)
      next
        case other: False
        have q: "0 < ?q" "?q \<le> leaves_units (ms_taker ms)" "?q \<le> leaves_units maker" using live lm by auto
        then have nq: "\<not> ?q \<le> 0" by linarith
        define r where "r = fill_order clk cfg (lv_price l) maker ?q ms"
        let ?l = "l\<lparr>lv_orders := (case fst r of None \<Rightarrow> rest | Some m \<Rightarrow> m # rest), lv_total := sub64 (lv_total l) ?q\<rparr>"
        have eq: "match_level clk cfg s l ms = match_level clk cfg s ?l (snd r)"
          using Cons live other nq by (subst match_level.simps) (simp add: Let_def r_def)
        have lok: "level_ok side ?l" using level_ok_fill [OF "1.prems"(1) Cons q(1,3) r_def] .
        have cr: "crosses (ms_taker (snd r)) = crosses (ms_taker ms)" by (simp add: r_def)
        have ih: "level_result clk cfg side s ?l (snd r) (match_level clk cfg s ?l (snd r))"
        proof (rule "1.IH"(2) [OF Cons live])
          show "\<not> (o_trader maker = o_trader (ms_taker ms)
              \<or> min_int (leaves_units (ms_taker ms)) (leaves_units maker) \<le> 0)"
            using other nq by (simp only: min_int_min) simp
          show "crosses (ms_taker (snd r)) (lv_price ?l)" using cr "1.prems"(2) by simp
        qed (simp_all only: min_int_min r_def lok [unfolded r_def])
        show ?thesis
        proof (cases "fst r")
          case None
          then show ?thesis using ih eq live other price "1.prems"(2) Cons cr
            by (auto simp: level_result_def Let_def r_def)
        next
          case (Some m)
          have "?q \<noteq> leaves_units maker" using fill_order_Some(1,2) [OF q(1,3) Some [unfolded r_def]] by simp
          then have "leaves_units (ms_taker (snd r)) = 0"
            using leaves_taker_fill [OF q(1,2)] by (simp add: r_def min_def split: if_splits)
          then have "match_level clk cfg s ?l (snd r) = (s, ?l, snd r)"
            using Some by (subst match_level.simps) simp
          with eq Some lok cr live other price "1.prems"(2) Cons \<open>leaves_units (ms_taker (snd r)) = 0\<close>
          show ?thesis by (auto simp: level_result_def Let_def r_def)
        qed
      qed
    qed
  qed
qed

section \<open>Sides\<close>

text \<open>The rule stops, or it goes on with the next orders.\<close>

lemma match_flat_append:
  "match_flat clk cfg (xs @ ys) ms =
     (case match_flat clk cfg xs ms of (rest, ms') \<Rightarrow>
        if rest = [] then match_flat clk cfg ys ms' else (rest @ ys, ms'))"
  by (induction clk cfg xs ms rule: match_flat.induct) (auto simp: Let_def split: option.splits)

lemma match_flat_done: "leaves_units (ms_taker ms) \<le> 0 \<Longrightarrow> match_flat clk cfg xs ms = (xs, ms)"
  by (cases xs) auto

lemma side_ok_tail:
  assumes ok: "side_ok s" and ls: "sb_levels s = l # ls"
  shows "side_ok (drop_level (lv_price l) s)" "sb_levels (drop_level (lv_price l) s) = ls"
    "sb_side (drop_level (lv_price l) s) = sb_side s"
proof -
  have nin: "lv_price l \<notin> lv_price ` set ls"
    using ok ls sorted_prices_split(2) [of "sb_side s" "[]" l ls] by (simp add: side_ok_def side_better_def)
  have "lv_price l \<in> sb_index s" using ok ls by (simp add: side_ok_def)
  then show "sb_levels (drop_level (lv_price l) s) = ls"
    "sb_side (drop_level (lv_price l) s) = sb_side s"
    using ls by (simp_all add: drop_level_def)
  with \<open>lv_price l \<in> sb_index s\<close> show "side_ok (drop_level (lv_price l) s)"
    using ok ls nin by (auto simp: side_ok_def side_better_def drop_level_def)
qed

lemma side_ok_head:
  assumes ok: "side_ok s" and ls: "sb_levels s = l # ls"
    and l': "level_ok (sb_side s) l'" "lv_price l' = lv_price l" "lv_orders l' \<noteq> []"
  shows "side_ok (update_level (lv_price l) (\<lambda>_. l') s)"
    "sb_levels (update_level (lv_price l) (\<lambda>_. l') s) = l' # ls"
    "sb_side (update_level (lv_price l) (\<lambda>_. l') s) = sb_side s"
  using ok ls l' by (auto simp: side_ok_def side_better_def update_level_def)

definition side_result :: "(nat \<Rightarrow> time) \<Rightarrow> pair_config \<Rightarrow> side_book \<Rightarrow> match_state \<Rightarrow> side_book \<times> match_state \<Rightarrow> bool" where
  "side_result clk cfg s ms r \<longleftrightarrow>
     side_ok (fst r) \<and> sb_side (fst r) = sb_side s
     \<and> match_flat clk cfg (flat s) ms = (flat (fst r), snd r)"

text \<open>Total correctness: on a well-formed side the outer loop returns, and it is the rule.\<close>

lemma match_loop_flat:
  assumes "side_ok s"
  shows "\<exists>r. match_loop clk cfg s ms = Some r \<and> side_result clk cfg s ms r"
  using assms
proof (induction "length (sb_levels s)" arbitrary: s ms rule: less_induct)
  case less
  show ?case
  proof (cases "sb_levels s")
    case Nil
    then show ?thesis using less.prems
      by (subst match_loop.simps) (simp add: side_result_def flat_def)
  next
    case (Cons l ls)
    have l: "level_ok (sb_side s) l" "lv_orders l \<noteq> []" using less.prems Cons by (auto simp: side_ok_def)
    then obtain maker rest where os: "lv_orders l = maker # rest" by (cases "lv_orders l") auto
    have price: "o_price_ticks maker = lv_price l" using l os by (simp add: level_ok_def resting_ok_def)
    have flat_s: "flat s = lv_orders l @ concat (map lv_orders ls)" using Cons by (simp add: flat_def)
    show ?thesis
    proof (cases "0 < leaves_units (ms_taker ms) \<and> crosses (ms_taker ms) (lv_price l)")
      case False
      then have "match_loop clk cfg s ms = Some (s, ms)" using Cons by (subst match_loop.simps) auto
      moreover have "match_flat clk cfg (flat s) ms = (flat s, ms)" using False flat_s os price by auto
      ultimately show ?thesis using less.prems by (auto simp: side_result_def)
    next
      case True
      obtain s' l' ms' where r: "match_level clk cfg s l ms = (s', l', ms')"
        by (cases "match_level clk cfg s l ms")
      have mf: "match_flat clk cfg (lv_orders l) ms = (lv_orders l', ms')"
        and lok: "level_ok (sb_side s) l'" "lv_price l' = lv_price l"
        and s': "s' = s \<or> lv_orders l' = [] \<and> s' = drop_level (lv_price l) s"
        and stop: "lv_orders l' \<noteq> [] \<Longrightarrow> leaves_units (ms_taker ms') \<le> 0"
        using match_level_flat [OF l(1), of ms clk cfg s] True r by (auto simp: level_result_def)
      have eq: "match_loop clk cfg s ms =
          match_loop clk cfg (fst (store_back (s', l', ms'))) (snd (store_back (s', l', ms')))"
        using True Cons r by (subst match_loop.simps) simp
      show ?thesis
      proof (cases "lv_orders l' = []")
        case empty: True
        let ?s = "drop_level (lv_price l) s"
        have sb: "store_back (s', l', ms') = (?s, ms')" using empty s' lok(2) by (auto simp: store_back_def)
        have t: "side_ok ?s" "sb_levels ?s = ls" "sb_side ?s = sb_side s"
          using side_ok_tail [OF less.prems Cons] by auto
        from less.hyps [of ?s ms'] t Cons obtain r' where
          r': "match_loop clk cfg ?s ms' = Some r'" "side_result clk cfg ?s ms' r'" by auto
        have "match_flat clk cfg (flat s) ms = match_flat clk cfg (flat ?s) ms'"
          using mf empty t(2) flat_s by (simp add: match_flat_append flat_def)
        with r' eq sb t(3) show ?thesis by (auto simp: side_result_def)
      next
        case False
        let ?s = "update_level (lv_price l) (\<lambda>_. l') s"
        have sb: "store_back (s', l', ms') = (?s, ms')" using False s' lok(2) by (auto simp: store_back_def)
        have t: "side_ok ?s" "sb_levels ?s = l' # ls" "sb_side ?s = sb_side s"
          using side_ok_head [OF less.prems Cons lok False] by auto
        have fin: "match_loop clk cfg ?s ms' = Some (?s, ms')"
          using stop [OF False] by (subst match_loop.simps) auto
        have "match_flat clk cfg (flat s) ms = (flat ?s, ms')"
          using mf False t(2) flat_s by (simp add: match_flat_append flat_def)
        with fin eq sb t show ?thesis by (auto simp: side_result_def)
      qed
    qed
  qed
qed

end
