(* ===== verification/Book_Props.thy ===== *)
theory Book_Props
  imports Book_Refine
begin

text \<open>
  The properties of the order book: what a run of the matching rule does to the taker, the
  makers and the counters (\<open>match_flat\<close> lemmas, by computation induction), the invariant
  \<open>book_ok\<close> that every operation keeps, and the claims about \<open>submit\<close> and \<open>cancel\<close>.
\<close>

section \<open>What a run of the rule does\<close>

lemma fill_order_trades:
  "ms_trades (snd (fill_order clk cfg p m qty ms)) =
     ms_trades ms @ [make_trade cfg (clk (Suc (length (ms_trades ms))))
       (m\<lparr>o_filled_units := add64 (o_filled_units m) qty\<rparr>)
       (ms_taker (snd (fill_order clk cfg p m qty ms))) p qty]"
  by (simp add: fill_order_def Let_def)

lemma fill_order_open:
  "ms_open (snd (fill_order clk cfg p m qty ms)) =
     (if fst (fill_order clk cfg p m qty ms) = None then ms_open ms - 1 else ms_open ms)"
  by (simp add: fill_order_def Let_def)

lemma fill_order_tape:
  "ms_tape (snd (fill_order clk cfg p m qty ms)) =
     push_trade (last (ms_trades (snd (fill_order clk cfg p m qty ms)))) (ms_tape ms)"
  by (simp add: fill_order_def Let_def)

lemma make_trade_simps [simp]:
  "t_id (make_trade cfg now m t p q) = 0"
  "t_maker_id (make_trade cfg now m t p q) = o_id m" "t_taker_id (make_trade cfg now m t p q) = o_id t"
  "t_maker (make_trade cfg now m t p q) = o_trader m" "t_taker (make_trade cfg now m t p q) = o_trader t"
  "t_price_ticks (make_trade cfg now m t p q) = p" "t_qty_units (make_trade cfg now m t p q) = q"
  "t_taker_side (make_trade cfg now m t p q) = o_side t" "t_pair (make_trade cfg now m t p q) = pc_pair cfg"
  "t_timestamp (make_trade cfg now m t p q) = now"
  "t_price (make_trade cfg now m t p q) = f64_div (f64_of_int p) (f64_of_int (pc_price_scale cfg))"
  by (simp_all add: make_trade_def Let_def)

lemma match_flat_taker_int64:
  "in_int64 (o_filled_units (ms_taker ms)) \<Longrightarrow>
     in_int64 (o_filled_units (ms_taker (snd (match_flat clk cfg os ms))))"
  by (induction clk cfg os ms rule: match_flat.induct) (auto simp: Let_def add64_def split: option.splits)

text \<open>The taker keeps everything but its filled units.\<close>

definition same_order :: "order \<Rightarrow> order \<Rightarrow> bool" where
  "same_order x y \<longleftrightarrow> (\<exists>n. y = x\<lparr>o_filled_units := n\<rparr>)"

lemma same_order_refl [simp]: "same_order x x"
  by (auto simp: same_order_def intro: exI [of _ "o_filled_units x"])

lemma same_order_trans: "same_order x y \<Longrightarrow> same_order y z \<Longrightarrow> same_order x z"
  by (auto simp: same_order_def)

lemma same_order_fill: "same_order (ms_taker ms) (ms_taker (snd (fill_order clk cfg p m qty ms)))"
  by (auto simp: same_order_def)

lemma same_orderD:
  "same_order x y \<Longrightarrow> o_id y = o_id x \<and> o_trader y = o_trader x \<and> o_side y = o_side x
     \<and> o_type y = o_type x \<and> o_tif y = o_tif x \<and> o_price_ticks y = o_price_ticks x
     \<and> o_qty_units y = o_qty_units x \<and> o_pair y = o_pair x \<and> o_status y = o_status x"
  by (auto simp: same_order_def)

lemma same_order_crosses: "same_order x y \<Longrightarrow> crosses y = crosses x"
  by (auto simp: same_order_def)

text \<open>One live step of the rule against a maker that may trade.\<close>

definition all_resting :: "string \<Rightarrow> order list \<Rightarrow> bool" where
  "all_resting side xs \<longleftrightarrow> (\<forall>x \<in> set xs. resting_ok side (o_price_ticks x) x)"

lemma all_resting_Cons [simp]:
  "all_resting side (x # xs) \<longleftrightarrow> resting_ok side (o_price_ticks x) x \<and> all_resting side xs"
  by (auto simp: all_resting_def)

lemma all_resting_Nil [simp]: "all_resting side []"
  by (simp add: all_resting_def)

text \<open>What a trade has to respect, and the trades the makers consumed in full give.\<close>

definition fair_trade :: "pair_config \<Rightarrow> order \<Rightarrow> trade \<Rightarrow> bool" where
  "fair_trade cfg taker t \<longleftrightarrow> t_id t = 0 \<and> t_maker t \<noteq> t_taker t \<and> t_taker t = o_trader taker \<and> t_taker_id t = o_id taker
     \<and> crosses taker (t_price_ticks t) \<and> 0 < t_qty_units t
     \<and> t_price t = f64_div (f64_of_int (t_price_ticks t)) (f64_of_int (pc_price_scale cfg))"

definition fill_of :: "trade \<Rightarrow> uint64 \<times> string \<times> int64 \<times> int64" where
  "fill_of t = (t_maker_id t, t_maker t, t_price_ticks t, t_qty_units t)"

definition full_fill :: "order \<Rightarrow> uint64 \<times> string \<times> int64 \<times> int64" where
  "full_fill m = (o_id m, o_trader m, o_price_ticks m, leaves_units m)"

definition others :: "string \<Rightarrow> order list \<Rightarrow> order list" where
  "others trader xs = filter (\<lambda>x. o_trader x \<noteq> trader) xs"

text \<open>
  \<open>consumed\<close>: the orders \<open>os\<close> were worked through strictly in order. Either a prefix is gone
  and each foreign order in it was filled in full, or after such a prefix one more order
  was filled in part and stays at the head.
\<close>

definition consumed :: "string \<Rightarrow> order list \<Rightarrow> order list \<Rightarrow> trade list \<Rightarrow> bool" where
  "consumed trader os rest trades \<longleftrightarrow>
     (\<exists>pre. os = pre @ rest \<and> map fill_of trades = map full_fill (others trader pre))
     \<or> (\<exists>pre m m' suf q. os = pre @ m # suf \<and> rest = m' # suf \<and> o_trader m \<noteq> trader
          \<and> o_id m' = o_id m \<and> o_price_ticks m' = o_price_ticks m \<and> leaves_units m' = leaves_units m - q
          \<and> 0 < q \<and> q < leaves_units m
          \<and> map fill_of trades = map full_fill (others trader pre) @ [(o_id m, o_trader m, o_price_ticks m, q)])"

lemma consumed_Nil: "consumed trader os os []"
  unfolding consumed_def by (intro disjI1 exI [of _ "[]"]) (simp add: others_def)

lemma consumed_step:
  assumes "consumed trader os rest trades" and m: "map fill_of ts = map full_fill (others trader [m])"
  shows "consumed trader (m # os) rest (ts @ trades)"
proof -
  have oth: "map full_fill (others trader (m # pre)) = map fill_of ts @ map full_fill (others trader pre)" for pre
    using m by (simp add: others_def)
  from assms(1) consider
    (gone) pre where "os = pre @ rest" "map fill_of trades = map full_fill (others trader pre)"
  | (part) pre n n' suf q where "os = pre @ n # suf" "rest = n' # suf" "o_trader n \<noteq> trader"
      "o_id n' = o_id n" "o_price_ticks n' = o_price_ticks n" "leaves_units n' = leaves_units n - q"
      "0 < q" "q < leaves_units n"
      "map fill_of trades = map full_fill (others trader pre) @ [(o_id n, o_trader n, o_price_ticks n, q)]"
    unfolding consumed_def by blast
  then show ?thesis
  proof cases
    case gone
    then show ?thesis unfolding consumed_def by (intro disjI1 exI [of _ "m # pre"]) (simp add: oth)
  next
    case part
    show ?thesis unfolding consumed_def
      by (intro disjI2 exI [of _ "m # pre"] exI [of _ n] exI [of _ n'] exI [of _ suf] exI [of _ q])
         (simp add: part oth)
  qed
qed

lemma consumed_self:
  "o_trader m = trader \<Longrightarrow> consumed trader os rest trades \<Longrightarrow> consumed trader (m # os) rest trades"
  using consumed_step [of trader os rest trades "[]" m] by (simp add: others_def)

lemma consumed_full:
  "o_trader m \<noteq> trader \<Longrightarrow> consumed trader os rest trades \<Longrightarrow> fill_of t = full_fill m \<Longrightarrow>
    consumed trader (m # os) rest (t # trades)"
  using consumed_step [of trader os rest trades "[t]" m] by (simp add: others_def)

text \<open>Every trade names an order it met, its trader and its price.\<close>

lemma consumed_maker:
  assumes "consumed trader os rest trades" "t \<in> set trades"
  shows "\<exists>m \<in> set os. o_id m = t_maker_id t \<and> o_trader m = t_maker t \<and> o_price_ticks m = t_price_ticks t
    \<and> t_qty_units t \<le> leaves_units m"
proof -
  have f: "fill_of t \<in> set (map fill_of trades)" using assms(2) by simp
  from assms(1) show ?thesis unfolding consumed_def
  proof (elim disjE exE conjE)
    fix pre assume p: "os = pre @ rest" "map fill_of trades = map full_fill (others trader pre)"
    with f show ?thesis by (auto simp: others_def fill_of_def full_fill_def)
  next
    fix pre m m' suf q
    assume p: "os = pre @ m # suf" "q < leaves_units m"
      "map fill_of trades = map full_fill (others trader pre) @ [(o_id m, o_trader m, o_price_ticks m, q)]"
    with f show ?thesis by (auto simp: others_def fill_of_def full_fill_def)
  qed
qed

definition run_ok :: "pair_config \<Rightarrow> string \<Rightarrow> order list \<Rightarrow> match_state \<Rightarrow> order list \<times> match_state \<Rightarrow> bool" where
  "run_ok cfg side os ms r \<longleftrightarrow>
     (case r of (rest, ms') \<Rightarrow>
        same_order (ms_taker ms) (ms_taker ms')
        \<and> all_resting side rest
        \<and> 0 \<le> leaves_units (ms_taker ms')
        \<and> (rest = [] \<or> leaves_units (ms_taker ms') = 0 \<or> \<not> crosses (ms_taker ms) (o_price_ticks (hd rest)))
        \<and> ms_open ms' = ms_open ms - int (length os - length rest) \<and> length rest \<le> length os
        \<and> (\<exists>new. ms_trades ms' = ms_trades ms @ new
             \<and> leaves_units (ms_taker ms') = leaves_units (ms_taker ms) - (\<Sum>t\<leftarrow>new. t_qty_units t)
             \<and> (\<forall>t \<in> set new. fair_trade cfg (ms_taker ms) t)
             \<and> consumed (o_trader (ms_taker ms)) os rest new
             \<and> ms_tape ms' = fold push_trade new (ms_tape ms)))"

lemma match_flat_run:
  assumes "all_resting side os" "0 \<le> leaves_units (ms_taker ms)"
  shows "run_ok cfg side os ms (match_flat clk cfg os ms)"
  using assms
proof (induction clk cfg os ms rule: match_flat.induct)
  case (1 clk cfg ms)
  then show ?case by (simp add: run_ok_def consumed_Nil)
next
  case (2 clk cfg m os ms)
  let ?t = "ms_taker ms"
  show ?case
  proof (cases "leaves_units ?t \<le> 0 \<or> \<not> crosses ?t (o_price_ticks m)")
    case True
    then show ?thesis using "2.prems" by (auto simp: run_ok_def consumed_Nil)
  next
    case live: False
    show ?thesis
    proof (cases "o_trader m = o_trader ?t")
      case self: True
      with "2.IH"(1) [OF live] "2.prems"
      have ih: "run_ok cfg side os (ms\<lparr>ms_open := ms_open ms - 1\<rparr>)
          (match_flat clk cfg os (ms\<lparr>ms_open := ms_open ms - 1\<rparr>))" by simp
      show ?thesis using ih live self
        by (auto simp: run_ok_def consumed_self Suc_diff_le split: prod.splits)
    next
      case other: False
      let ?q = "min (leaves_units ?t) (leaves_units m)"
      define r where "r = fill_order clk cfg (o_price_ticks m) m ?q ms"
      have lm: "0 < leaves_units m" using "2.prems"(1) leaves_resting(2) by auto
      have q: "0 < ?q" "?q \<le> leaves_units ?t" "?q \<le> leaves_units m" using live lm by auto
      have lt: "leaves_units (ms_taker (snd r)) = leaves_units ?t - ?q"
        using leaves_taker_fill [OF q(1,2)] by (simp add: r_def)
      have st: "same_order ?t (ms_taker (snd r))" by (simp add: r_def same_order_fill del: taker_fill_order)
      define t where "t = last (ms_trades (snd r))"
      have tr: "ms_trades (snd r) = ms_trades ms @ [t]" by (simp add: t_def r_def fill_order_trades)
      have fill: "fill_of t = (o_id m, o_trader m, o_price_ticks m, ?q)"
        by (simp add: t_def r_def fill_order_trades fill_of_def)
      have fair: "fair_trade cfg ?t t"
        using live other lm by (simp add: t_def r_def fill_order_trades fair_trade_def)
      have tape: "ms_tape (snd r) = push_trade t (ms_tape ms)" by (simp add: t_def r_def fill_order_tape)
      show ?thesis
      proof (cases "fst r")
        case None
        have qm: "?q = leaves_units m" by (rule fill_order_None [OF q(1,3) None [unfolded r_def]])
        have eq: "match_flat clk cfg (m # os) ms = match_flat clk cfg os (snd r)"
          using live other None by (simp add: Let_def r_def)
        have op: "ms_open (snd r) = ms_open ms - 1" using None by (simp add: r_def fill_order_open)
        have ih: "run_ok cfg side os (snd r) (match_flat clk cfg os (snd r))"
          using "2.IH"(2) [OF live other refl] None "2.prems" lt q by (simp add: r_def)
        obtain rest ms' where mf: "match_flat clk cfg os (snd r) = (rest, ms')" by fastforce
        from ih mf obtain new where new: "ms_trades ms' = ms_trades (snd r) @ new"
          "leaves_units (ms_taker ms') = leaves_units (ms_taker (snd r)) - (\<Sum>t\<leftarrow>new. t_qty_units t)"
          "\<forall>t \<in> set new. fair_trade cfg (ms_taker (snd r)) t"
          "consumed (o_trader (ms_taker (snd r))) os rest new"
          "ms_tape ms' = fold push_trade new (ms_tape (snd r))"
          by (auto simp: run_ok_def)
        have ft: "fair_trade cfg (ms_taker (snd r)) = fair_trade cfg ?t" and tt: "o_trader (ms_taker (snd r)) = o_trader ?t"
          using same_orderD [OF st] same_order_crosses [OF st] by (auto simp: fair_trade_def fun_eq_iff)
        have cons: "consumed (o_trader ?t) (m # os) rest (t # new)"
          using consumed_full [OF other] new(4) fill qm tt by (simp add: full_fill_def)
        have qt: "t_qty_units t = ?q" using fill by (simp add: fill_of_def)
        have "run_ok cfg side (m # os) ms (rest, ms')"
          unfolding run_ok_def prod.case
        proof (intro conjI exI [of _ "t # new"])
          show "same_order ?t (ms_taker ms')" using ih mf st by (auto simp: run_ok_def intro: same_order_trans)
          show "rest = [] \<or> leaves_units (ms_taker ms') = 0 \<or> \<not> crosses ?t (o_price_ticks (hd rest))"
            using ih mf same_order_crosses [OF st] by (auto simp: run_ok_def)
          show "ms_open ms' = ms_open ms - int (length (m # os) - length rest)"
            using ih mf op by (auto simp: run_ok_def Suc_diff_le)
          show "leaves_units (ms_taker ms') = leaves_units ?t - (\<Sum>t\<leftarrow>t # new. t_qty_units t)"
            using new(2) lt qt by simp
        qed (use ih mf new tr ft fair cons tape in \<open>auto simp: run_ok_def\<close>)
        with eq mf show ?thesis by simp
      next
        case (Some m')
        note sm = fill_order_Some [OF q(1,3) Some [unfolded r_def]]
        have qm: "?q < leaves_units m" using sm(1,2) q(3) by linarith
        have z: "leaves_units (ms_taker (snd r)) = 0" using lt qm by linarith
        have eq: "match_flat clk cfg (m # os) ms = (m' # os, snd r)"
          using live other Some by (simp add: Let_def r_def)
        have rm: "resting_ok side (o_price_ticks m') m'"
          using resting_fill_Some [OF _ q(1,3) Some [unfolded r_def]] "2.prems"(1) sm(7) by simp
        have cons: "consumed (o_trader ?t) (m # os) (m' # os) [t]"
          unfolding consumed_def
          by (intro disjI2 exI [of _ "[]"] exI [of _ m] exI [of _ m'] exI [of _ os] exI [of _ ?q])
             (use other sm q qm fill in \<open>simp add: others_def\<close>)
        have qt: "t_qty_units t = ?q" using fill by (simp add: fill_of_def)
        have op: "ms_open (snd r) = ms_open ms" using Some by (simp add: r_def fill_order_open)
        show ?thesis
          unfolding eq run_ok_def prod.case
          using st rm "2.prems" z op tr lt qt fair cons tape by (intro conjI exI [of _ "[t]"]) auto
      qed
    qed
  qed
qed

section \<open>The invariant of a book\<close>

definition uncrossed :: "book \<Rightarrow> bool" where
  "uncrossed b \<longleftrightarrow> (\<forall>x \<in> set (flat (bk_bids b)). \<forall>y \<in> set (flat (bk_asks b)).
     o_price_ticks x < o_price_ticks y)"

definition book_ok :: "book \<Rightarrow> bool" where
  "book_ok b \<longleftrightarrow> side_ok (bk_bids b) \<and> sb_side (bk_bids b) = side_buy
     \<and> side_ok (bk_asks b) \<and> sb_side (bk_asks b) = side_sell
     \<and> bk_open b = int (length (flat (bk_bids b)) + length (flat (bk_asks b)))
     \<and> uncrossed b"

lemma side_neq [simp]: "side_sell \<noteq> side_buy" "side_buy \<noteq> side_sell"
  by (simp_all add: side_buy_def side_sell_def)

lemma type_neq [simp]: "type_market \<noteq> type_limit" "type_limit \<noteq> type_market"
  by (simp_all add: type_limit_def type_market_def)

lemma tif_neq [simp]: "tif_gtc \<noteq> tif_ioc" "tif_gtc \<noteq> tif_fok" "tif_ioc \<noteq> tif_gtc" "tif_fok \<noteq> tif_gtc"
    "tif_ioc \<noteq> tif_fok" "tif_fok \<noteq> tif_ioc" "tif_gtc \<noteq> []"
  by (simp_all add: tif_gtc_def tif_ioc_def tif_fok_def)

lemma book_ok_new: "book_ok (new_book cfg)"
  by (simp add: book_ok_def new_book_def uncrossed_def) (simp add: new_side_book_def)

lemma all_resting_flat: "side_ok s \<Longrightarrow> all_resting (sb_side s) (flat s)"
  by (fastforce simp: all_resting_def flat_def side_ok_def level_ok_def resting_ok_def)

text \<open>The head of the flat side has the best price.\<close>

lemma flat_head_best:
  assumes ok: "side_ok s" and f: "flat s = x # xs" and y: "y \<in> set (flat s)"
  shows "\<not> side_better s (o_price_ticks y) (o_price_ticks x)"
proof -
  have price: "o_price_ticks z = lv_price k" if "k \<in> set (sb_levels s)" "z \<in> set (lv_orders k)" for k z
    using ok that by (auto simp: side_ok_def level_ok_def resting_ok_def)
  obtain l ls where ls: "sb_levels s = l # ls" using f by (cases "sb_levels s") (auto simp: flat_def)
  then have "lv_orders l \<noteq> []" using ok by (simp add: side_ok_def)
  then have x: "x \<in> set (lv_orders l)" using f ls by (cases "lv_orders l") (auto simp: flat_def)
  from y obtain k where k: "k \<in> set (sb_levels s)" "y \<in> set (lv_orders k)" by (auto simp: flat_def)
  have px: "o_price_ticks x = lv_price l" using price [of l x] ls x by simp
  have py: "o_price_ticks y = lv_price k" using price k by blast
  have "k = l \<or> price_better (sb_side s) (lv_price l) (lv_price k)"
    using ok k(1) ls by (auto simp: side_ok_def side_better_def)
  then show ?thesis using px py pr.better_irrefl pr.better_asym by (auto simp: side_better_def)
qed

text \<open>What acceptance means: which fields \<open>validate\<close> has set, and to what.\<close>

lemma to_ticks_le: "to_ticks v sc = Some u \<Longrightarrow> u \<le> max_int64"
  using in_int64_f64_to_int64 [of "math_round (f64_mul v (f64_of_int sc))"]
  by (auto simp: to_ticks_def Let_def in_int64_def split: if_splits)

lemma quantity_units_Inr: "quantity_units cfg q = Inr u \<Longrightarrow> 0 < u \<and> u \<le> max_int64"
  by (auto simp: quantity_units_def dest: to_ticks_le split: if_splits option.splits)

lemma limit_ticks_Inr: "limit_ticks cfg p = Inr t \<Longrightarrow> 0 < t \<and> t \<le> max_int64"
  by (auto simp: limit_ticks_def dest: to_ticks_le split: if_splits option.splits)

lemma validate_accepts:
  assumes v: "validate cfg ord = (o1, None)"
  obtains tif units ticks where
    "o1 = ord\<lparr>o_tif := tif, o_qty_units := units, o_filled_units := 0, o_price_ticks := ticks\<rparr>"
    "o_side ord \<in> {side_buy, side_sell}" "o_type ord \<in> {type_limit, type_market}"
    "tif \<in> {tif_gtc, tif_ioc, tif_fok}" "o_type ord = type_market \<Longrightarrow> tif \<noteq> tif_gtc"
    "quantity_units cfg (o_quantity ord) = Inr units"
    "o_type ord = type_limit \<Longrightarrow> limit_ticks cfg (o_price ord) = Inr ticks"
    "o_tif ord \<noteq> [] \<Longrightarrow> o_type ord = type_limit \<Longrightarrow> tif = o_tif ord"
proof -
  define t1 where "t1 = (if o_tif ord = [] then tif_gtc else o_tif ord)"
  define t2 where "t2 = (if o_type ord = type_market \<and> t1 = tif_gtc then tif_ioc else t1)"
  have base: "o_side ord \<in> {side_buy, side_sell}" "o_type ord \<in> {type_limit, type_market}"
    using v by (auto simp: validate_def split: if_splits)
  have t1: "t1 \<in> {tif_gtc, tif_ioc, tif_fok}"
  proof (rule ccontr)
    assume "t1 \<notin> {tif_gtc, tif_ioc, tif_fok}"
    then have "validate cfg ord = (ord\<lparr>o_tif := t1\<rparr>, Some ErrBadTIF)"
      using base by (simp only: validate_def t1_def [symmetric] Let_def not_not if_False) simp
    with v show False by simp
  qed
  have eq: "validate cfg ord = (case quantity_units cfg (o_quantity ord) of
             Inl e \<Rightarrow> (ord\<lparr>o_tif := t2\<rparr>, Some e)
           | Inr units \<Rightarrow>
               let o3 = ord\<lparr>o_tif := t2\<rparr>\<lparr>o_qty_units := units, o_filled_units := 0\<rparr> in
               if o_type ord = type_limit then
                 (case limit_ticks cfg (o_price ord) of
                    Inl e \<Rightarrow> (o3, Some e)
                  | Inr ticks \<Rightarrow> (o3\<lparr>o_price_ticks := ticks\<rparr>, None))
               else (o3\<lparr>o_price_ticks := 0\<rparr>, None))"
    using base t1 by (simp only: validate_def t1_def [symmetric] t2_def [symmetric] Let_def not_not not_True_eq_False if_False)
  obtain units where u: "quantity_units cfg (o_quantity ord) = Inr units"
    using v eq by (cases "quantity_units cfg (o_quantity ord)") auto
  have t2: "t2 \<in> {tif_gtc, tif_ioc, tif_fok}" "o_type ord = type_market \<Longrightarrow> t2 \<noteq> tif_gtc"
    "o_tif ord \<noteq> [] \<Longrightarrow> o_type ord = type_limit \<Longrightarrow> t2 = o_tif ord"
    using t1 by (auto simp: t2_def t1_def)
  show ?thesis
  proof (cases "o_type ord = type_limit")
    case True
    then obtain ticks where "limit_ticks cfg (o_price ord) = Inr ticks"
      using v eq u by (cases "limit_ticks cfg (o_price ord)") (auto simp: Let_def)
    with v eq u True base t2 that [where tif = t2 and units = units and ticks = ticks] show ?thesis by (simp add: Let_def)
  next
    case False
    with v eq u base t2 that [where tif = t2 and units = units and ticks = 0] show ?thesis by (simp add: Let_def)
  qed
qed

lemma leaves_new_order [simp]:
  "units \<le> max_int64 \<Longrightarrow> 0 < units \<Longrightarrow>
    leaves_units (ord\<lparr>o_tif := tif, o_qty_units := units, o_filled_units := 0, o_price_ticks := ticks\<rparr>) = units"
  by (simp add: leaves_units_def sub64_def in_int64_def max_int64_def min_int64_def)

lemma side_for_set_side [simp]:
  "side_for side (set_side side s b) = s"
  "side_for (opposite_side side) (set_side (opposite_side side) s b) = s"
  by (simp_all add: side_for_def set_side_def)

text \<open>
  \<open>book_split side b\<close>: seen from an order of \<open>side\<close>, the book is its own side, the opposite
  side and the counters; every submission is a change of these.
\<close>

lemma book_ok_sides:
  assumes "side \<in> {side_buy, side_sell}"
  shows "book_ok b \<longleftrightarrow> side_ok (side_for side b) \<and> sb_side (side_for side b) = side
     \<and> side_ok (side_for (opposite_side side) b) \<and> sb_side (side_for (opposite_side side) b) = opposite_side side
     \<and> bk_open b = int (length (flat (side_for side b)) + length (flat (side_for (opposite_side side) b)))
     \<and> (\<forall>x \<in> set (flat (side_for side b)). \<forall>y \<in> set (flat (side_for (opposite_side side) b)).
          price_better (opposite_side side) (o_price_ticks x) (o_price_ticks y))"
  using assms by (auto simp: book_ok_def uncrossed_def side_for_def opposite_side_def price_better_def)

lemma match_book_run:
  assumes ok: "book_ok b" and side: "o_side ord \<in> {side_buy, side_sell}" and lv: "0 \<le> leaves_units ord"
  obtains s taker trades op where
    "match_book clk b ord = Some ((set_side (opposite_side (o_side ord)) s b)
       \<lparr>bk_open := op, bk_tape := fold push_trade trades (bk_tape b),
        bk_last := (if trades = [] then bk_last b else t_price_ticks (last trades))\<rparr>, taker, trades)"
    "side_ok s" "sb_side s = opposite_side (o_side ord)"
    "same_order ord taker" "0 \<le> leaves_units taker"
    "leaves_units taker = leaves_units ord - (\<Sum>t\<leftarrow>trades. t_qty_units t)"
    "flat s = [] \<or> leaves_units taker = 0 \<or> \<not> crosses ord (o_price_ticks (hd (flat s)))"
    "op = bk_open b - int (length (flat (side_for (opposite_side (o_side ord)) b)) - length (flat s))"
    "length (flat s) \<le> length (flat (side_for (opposite_side (o_side ord)) b))"
    "\<forall>t \<in> set trades. fair_trade (bk_cfg b) ord t"
    "consumed (o_trader ord) (flat (side_for (opposite_side (o_side ord)) b)) (flat s) trades"
    "in_int64 (o_filled_units ord) \<Longrightarrow> in_int64 (o_filled_units taker)"
proof -
  let ?opp = "opposite_side (o_side ord)"
  let ?s = "side_for ?opp b"
  let ?ms = "\<lparr>ms_taker = ord, ms_trades = [], ms_open = bk_open b, ms_tape = bk_tape b\<rparr>"
  have s: "side_ok ?s" "sb_side ?s = ?opp" using ok book_ok_sides [OF side] by auto
  from match_loop_flat [OF s(1), of clk "bk_cfg b" ?ms] obtain s' ms' where
    r: "match_loop clk (bk_cfg b) ?s ?ms = Some (s', ms')" and
    sr: "side_ok s'" "sb_side s' = ?opp" "match_flat clk (bk_cfg b) (flat ?s) ?ms = (flat s', ms')"
    using s(2) by (auto simp: side_result_def)
  have "run_ok (bk_cfg b) ?opp (flat ?s) ?ms (flat s', ms')"
    using match_flat_run [where side = ?opp and os = "flat ?s" and ms = ?ms and clk = clk and cfg = "bk_cfg b"] all_resting_flat [OF s(1)] s(2) lv sr(3) by simp
  moreover have "in_int64 (o_filled_units ord) \<Longrightarrow> in_int64 (o_filled_units (ms_taker ms'))"
    using match_flat_taker_int64 [of ?ms clk "bk_cfg b" "flat ?s"] sr(3) by simp
  ultimately show ?thesis
    using r sr that [where s = s' and op = "ms_open ms'" and trades = "ms_trades ms'" and taker = "ms_taker ms'"]
    by (auto simp: run_ok_def match_book_def Let_def)
qed

text \<open>After matching, the opposite side is still strictly away from every own order.\<close>

lemma consumed_prices:
  assumes "consumed trader os rest trades"
  shows "o_price_ticks ` set rest \<subseteq> o_price_ticks ` set os"
  using assms unfolding consumed_def by (auto simp: image_iff)

lemma not_crosses_better:
  assumes "o_type ord = type_limit" "o_side ord \<in> {side_buy, side_sell}"
    "\<not> crosses ord p" "\<not> price_better (opposite_side (o_side ord)) q p"
  shows "price_better (opposite_side (o_side ord)) (o_price_ticks ord) q"
  using assms by (auto simp: crosses_def price_better_def opposite_side_def split: if_splits)

lemma book_ok_matched:
  assumes ok: "book_ok b" and side: "o_side ord \<in> {side_buy, side_sell}" and lv: "0 \<le> leaves_units ord"
    and m: "match_book clk b ord = Some (b1, taker, trades)"
  shows "book_ok b1"
    and "0 < leaves_units taker \<Longrightarrow> o_type ord = type_limit \<Longrightarrow>
      \<forall>y \<in> set (flat (side_for (opposite_side (o_side ord)) b1)).
        price_better (opposite_side (o_side ord)) (o_price_ticks ord) (o_price_ticks y)"
proof -
  let ?side = "o_side ord" and ?opp = "opposite_side (o_side ord)"
  obtain s taker' trades' op where r:
    "match_book clk b ord = Some ((set_side ?opp s b)
       \<lparr>bk_open := op, bk_tape := fold push_trade trades' (bk_tape b),
        bk_last := (if trades' = [] then bk_last b else t_price_ticks (last trades'))\<rparr>, taker', trades')"
    "side_ok s" "sb_side s = ?opp" "same_order ord taker'"
    "flat s = [] \<or> leaves_units taker' = 0 \<or> \<not> crosses ord (o_price_ticks (hd (flat s)))"
    "op = bk_open b - int (length (flat (side_for ?opp b)) - length (flat s))"
    "length (flat s) \<le> length (flat (side_for ?opp b))"
    "consumed (o_trader ord) (flat (side_for ?opp b)) (flat s) trades'"
    by (rule match_book_run [OF ok side lv, where clk = clk])
  have b1: "b1 = (set_side ?opp s b)\<lparr>bk_open := op, bk_tape := fold push_trade trades' (bk_tape b),
        bk_last := (if trades' = [] then bk_last b else t_price_ticks (last trades'))\<rparr>"
    and taker: "taker = taker'" using m r(1) by auto
  have f: "side_for ?side b1 = side_for ?side b" "side_for ?opp b1 = s"
    using side by (auto simp: b1 side_for_def set_side_def opposite_side_def)
  have sub: "o_price_ticks ` set (flat s) \<subseteq> o_price_ticks ` set (flat (side_for ?opp b))"
    by (rule consumed_prices [OF r(8)])
  have "\<forall>x \<in> set (flat (side_for ?side b)). \<forall>y \<in> set (flat s).
      price_better ?opp (o_price_ticks x) (o_price_ticks y)"
    using ok sub unfolding book_ok_sides [OF side] by (metis (no_types, lifting) image_iff image_subset_iff)
  then show "book_ok b1"
    using ok r(2,3,6,7) f unfolding book_ok_sides [OF side] by (auto simp: b1)
  show "\<forall>y \<in> set (flat (side_for ?opp b1)). price_better ?opp (o_price_ticks ord) (o_price_ticks y)"
    if "0 < leaves_units taker" "o_type ord = type_limit"
  proof
    fix y assume y: "y \<in> set (flat (side_for ?opp b1))"
    then obtain h hs where h: "flat s = h # hs" using f(2) by (cases "flat s") auto
    then have "\<not> crosses ord (o_price_ticks h)" using r(5) that taker by auto
    moreover have "\<not> price_better ?opp (o_price_ticks y) (o_price_ticks h)"
      using flat_head_best [OF r(2) h, of y] y f(2) r(3) by (simp add: side_better_def)
    ultimately show "price_better ?opp (o_price_ticks ord) (o_price_ticks y)"
      using not_crosses_better [OF that(2) side] by blast
  qed
qed

end
