(* ===== verification/Book_Claims.thy ===== *)
theory Book_Claims
  imports Book_Props
begin

text \<open>
  The claims about one book: a submission returns, keeps the invariant, fills in price-time
  priority within the taker's limit and never against the taker itself; a rejection and a
  foreign cancel change nothing; the tape is the end of the trade history.
\<close>

section \<open>Outcomes of a submission\<close>

lemma submit_outcome:
  assumes "submit clk b ord = Some (b', x', trades, err)"
  obtains (rejected) e where "err = Some e" "b' = b" "trades = []" "o_status x' = status_rejected"
  | (accepted) o1 o2 b1 taker where "err = None" "validate (bk_cfg b) ord = (o1, None)"
      "o2 = o1\<lparr>o_created := clk 0, o_updated := clk 0\<rparr>" "match_book clk b o2 = Some (b1, taker, trades)"
      "\<not> (o_tif o2 = tif_fok \<and> available_units b o2 < o_qty_units o2)"
      "if 0 < leaves_units taker \<and> o_type taker = type_limit \<and> o_tif taker = tif_gtc
       then x' = sync_public (bk_cfg b) taker
         \<and> b' = (set_side (o_side taker) (rest_order x' (side_for (o_side taker) b1)) b1)\<lparr>bk_open := bk_open b1 + 1\<rparr>
       else b' = b1 \<and> x' = sync_public (bk_cfg b)
         (if 0 < leaves_units taker then taker\<lparr>o_status := status_cancelled\<rparr> else taker)"
proof (cases "validate (bk_cfg b) ord")
  case (Pair o1 e)
  have st: "o_status (sync_public c (y\<lparr>o_status := status_rejected\<rparr>)) = status_rejected" for c y
    by (simp add: sync_public_def Let_def)
  show ?thesis
  proof (cases e)
    case (Some e')
    with assms Pair st show ?thesis by (intro rejected) (auto simp: submit_def)
  next
    case None
    let ?o2 = "o1\<lparr>o_created := clk 0, o_updated := clk 0\<rparr>"
    show ?thesis
    proof (cases "o_tif ?o2 = tif_fok \<and> available_units b ?o2 < o_qty_units ?o2")
      case True
      with assms Pair None st show ?thesis by (intro rejected) (auto simp: submit_def)
    next
      case False
      then obtain b1 taker trades' where m: "match_book clk b ?o2 = Some (b1, taker, trades')"
        using assms Pair None by (auto simp: submit_def Let_def split: option.splits)
      with assms Pair None False show ?thesis
        by (intro accepted [of o1 ?o2 b1 taker]) (auto simp: submit_def Let_def split: if_splits)
    qed
  qed
qed

text \<open>The order that goes into matching.\<close>

definition fresh_order :: "pair_config \<Rightarrow> order \<Rightarrow> order \<Rightarrow> bool" where
  "fresh_order cfg ord o2 \<longleftrightarrow>
     o_side o2 \<in> {side_buy, side_sell} \<and> o_type o2 \<in> {type_limit, type_market}
     \<and> o_tif o2 \<in> {tif_gtc, tif_ioc, tif_fok} \<and> (o_type o2 = type_market \<longrightarrow> o_tif o2 \<noteq> tif_gtc)
     \<and> 0 < o_qty_units o2 \<and> o_qty_units o2 \<le> max_int64 \<and> o_filled_units o2 = 0
     \<and> leaves_units o2 = o_qty_units o2 \<and> (o_type o2 = type_limit \<longrightarrow> 0 < o_price_ticks o2)
     \<and> o_side o2 = o_side ord \<and> o_trader o2 = o_trader ord \<and> o_id o2 = o_id ord \<and> o_type o2 = o_type ord
     \<and> o_status o2 = o_status ord \<and> o_pair o2 = o_pair ord
     \<and> quantity_units cfg (o_quantity ord) = Inr (o_qty_units o2)
     \<and> (o_tif ord \<noteq> [] \<longrightarrow> o_type ord = type_limit \<longrightarrow> o_tif o2 = o_tif ord)"

lemma fresh_order_side: "fresh_order cfg ord o2 \<Longrightarrow> o_side o2 \<in> {side_buy, side_sell} \<and> 0 \<le> leaves_units o2"
  by (auto simp: fresh_order_def)

lemma accepted_order:
  assumes v: "validate cfg ord = (o1, None)"
  shows "fresh_order cfg ord (o1\<lparr>o_created := c, o_updated := u\<rparr>)"
proof -
  obtain tif units ticks where
    "o1 = ord\<lparr>o_tif := tif, o_qty_units := units, o_filled_units := 0, o_price_ticks := ticks\<rparr>"
    "o_side ord \<in> {side_buy, side_sell}" "o_type ord \<in> {type_limit, type_market}"
    "tif \<in> {tif_gtc, tif_ioc, tif_fok}" "o_type ord = type_market \<Longrightarrow> tif \<noteq> tif_gtc"
    "quantity_units cfg (o_quantity ord) = Inr units"
    "o_type ord = type_limit \<Longrightarrow> limit_ticks cfg (o_price ord) = Inr ticks"
    "o_tif ord \<noteq> [] \<Longrightarrow> o_type ord = type_limit \<Longrightarrow> tif = o_tif ord"
    by (rule validate_accepts [OF v]) blast
  moreover from this have "0 < units" "units \<le> max_int64" "o_type ord = type_limit \<Longrightarrow> 0 < ticks"
    by (auto dest: quantity_units_Inr limit_ticks_Inr)
  ultimately show ?thesis by (simp add: fresh_order_def)
qed

lemma leaves_bounds: "0 \<le> o_filled_units x \<Longrightarrow> o_filled_units x \<le> o_qty_units x \<Longrightarrow> o_qty_units x \<le> max_int64
    \<Longrightarrow> leaves_units x = o_qty_units x - o_filled_units x"
  by (simp add: leaves_units_def sub64_def in_int64_def max_int64_def min_int64_def)

text \<open>The taker after matching: its filled units are what the trades add up to.\<close>

lemma taker_filled:
  assumes same: "same_order o2 taker" and f: "o_filled_units o2 = 0" "0 < o_qty_units o2" "o_qty_units o2 \<le> max_int64"
    and lv: "leaves_units taker = leaves_units o2 - n" "0 \<le> leaves_units taker" "0 \<le> n"
    and r: "in_int64 (o_filled_units taker)"
  shows "o_filled_units taker = n" "n \<le> o_qty_units o2"
proof -
  have q: "leaves_units o2 = o_qty_units o2" using f leaves_bounds [of o2] by simp
  then show nq: "n \<le> o_qty_units o2" using lv by simp
  have "o_qty_units taker = o_qty_units o2" using same_orderD [OF same] by simp
  then have "wrap64 (o_qty_units o2 - o_filled_units taker) = o_qty_units o2 - n"
    using lv(1) q by (simp add: leaves_units_def sub64_def)
  then have "wrap64 (o_qty_units o2 - wrap64 (o_qty_units o2 - o_filled_units taker))
      = wrap64 (o_qty_units o2 - (o_qty_units o2 - n))" by simp
  moreover have "in_int64 n" using nq lv(3) f(3) by (simp add: in_int64_def min_int64_def)
  ultimately show "o_filled_units taker = n" using r by (simp add: wrap64_wrap64_diff2)
qed

text \<open>
  Everything an accepted submission did, in terms of the flat sides: \<open>us\<close> is the side the
  order would rest on, \<open>os\<close> the side it matched against.
\<close>

definition accepted_run :: "book \<Rightarrow> order \<Rightarrow> book \<Rightarrow> order \<Rightarrow> trade list \<Rightarrow> order \<Rightarrow> order \<Rightarrow> bool" where
  "accepted_run b ord b' x' trades o2 taker \<longleftrightarrow>
     fresh_order (bk_cfg b) ord o2 \<and> same_order o2 taker
     \<and> o_filled_units taker = (\<Sum>t\<leftarrow>trades. t_qty_units t)
     \<and> (\<Sum>t\<leftarrow>trades. t_qty_units t) \<le> o_qty_units o2
     \<and> leaves_units taker = o_qty_units o2 - (\<Sum>t\<leftarrow>trades. t_qty_units t)
     \<and> (\<forall>t \<in> set trades. fair_trade (bk_cfg b) o2 t)
     \<and> consumed (o_trader ord) (flat (side_for (opposite_side (o_side ord)) b))
         (flat (side_for (opposite_side (o_side ord)) b')) trades
     \<and> bk_tape b' = fold push_trade trades (bk_tape b) \<and> bk_cfg b' = bk_cfg b
     \<and> bk_last b' = (if trades = [] then bk_last b else t_price_ticks (last trades))
     \<and> book_ok b'
     \<and> (if 0 < leaves_units taker \<and> o_type ord = type_limit \<and> o_tif o2 = tif_gtc
        then side_for (o_side ord) b' = rest_order x' (side_for (o_side ord) b) \<and> x' = sync_public (bk_cfg b) taker
        else side_for (o_side ord) b' = side_for (o_side ord) b
          \<and> x' = sync_public (bk_cfg b) (if 0 < leaves_units taker then taker\<lparr>o_status := status_cancelled\<rparr> else taker))"

lemma opposite_neq [simp]: "side \<in> {side_buy, side_sell} \<Longrightarrow> opposite_side side \<noteq> side"
    "side \<in> {side_buy, side_sell} \<Longrightarrow> opposite_side side \<in> {side_buy, side_sell}"
  by (auto simp: opposite_side_def)

lemma side_for_other:
  assumes "side \<in> {side_buy, side_sell}"
  shows "side_for side (set_side (opposite_side side) s b) = side_for side b"
    "side_for (opposite_side side) (set_side side s b) = side_for (opposite_side side) b"
  using assms by (auto simp: side_for_def set_side_def opposite_side_def)

lemma side_for_counters [simp]:
  "side_for side (b\<lparr>bk_open := n\<rparr>) = side_for side b"
  "side_for side (b\<lparr>bk_open := n, bk_tape := t, bk_last := l\<rparr>) = side_for side b"
  by (simp_all add: side_for_def)

lemma length_flat_rest: "side_ok s \<Longrightarrow> length (flat (rest_order x s)) = Suc (length (flat s))"
  using flat_rest_order [of s x] by auto

lemma set_flat_rest: "side_ok s \<Longrightarrow> set (flat (rest_order x s)) = insert x (set (flat s))"
  using flat_rest_order [of s x] by auto

lemma book_ok_rested:
  assumes ok: "book_ok b" and side: "side \<in> {side_buy, side_sell}"
    and x: "resting_ok side (o_price_ticks x) x"
    and away: "\<forall>y \<in> set (flat (side_for (opposite_side side) b)).
      price_better (opposite_side side) (o_price_ticks x) (o_price_ticks y)"
  shows "book_ok ((set_side side (rest_order x (side_for side b)) b)\<lparr>bk_open := bk_open b + 1\<rparr>)"
proof -
  have s: "side_ok (side_for side b)" "sb_side (side_for side b) = side"
    using ok book_ok_sides [OF side] by auto
  then have "side_ok (rest_order x (side_for side b))" using x by (intro side_ok_rest_order) auto
  then show ?thesis
    using ok s away unfolding book_ok_sides [OF side]
    by (auto simp: side_for_other [OF side] length_flat_rest set_flat_rest)
qed

lemma submit_accepted_run:
  assumes ok: "book_ok b" and sub: "submit clk b ord = Some (b', x', trades, None)"
  shows "\<exists>o2 taker. accepted_run b ord b' x' trades o2 taker"
  using sub
proof (cases rule: submit_outcome)
  case (accepted o1 o2 b1 taker)
  have fr: "fresh_order (bk_cfg b) ord o2" using accepted_order [OF accepted(2)] accepted(3) by simp
  then have side: "o_side o2 \<in> {side_buy, side_sell}" and so: "o_side o2 = o_side ord"
    and lv: "0 \<le> leaves_units o2" by (auto simp: fresh_order_def)
  let ?opp = "opposite_side (o_side ord)"
  obtain s taker' trades' op where r:
    "match_book clk b o2 = Some ((set_side ?opp s b)
       \<lparr>bk_open := op, bk_tape := fold push_trade trades' (bk_tape b),
        bk_last := (if trades' = [] then bk_last b else t_price_ticks (last trades'))\<rparr>, taker', trades')"
    "same_order o2 taker'" "0 \<le> leaves_units taker'"
    "leaves_units taker' = leaves_units o2 - (\<Sum>t\<leftarrow>trades'. t_qty_units t)"
    "\<forall>t \<in> set trades'. fair_trade (bk_cfg b) o2 t"
    "consumed (o_trader o2) (flat (side_for ?opp b)) (flat s) trades'"
    "in_int64 (o_filled_units o2) \<Longrightarrow> in_int64 (o_filled_units taker')"
    using so by (auto intro: match_book_run [OF ok side lv, where clk = clk])
  have eqs: "taker = taker'" "trades = trades'"
    and b1: "b1 = (set_side ?opp s b)\<lparr>bk_open := op, bk_tape := fold push_trade trades (bk_tape b),
        bk_last := (if trades = [] then bk_last b else t_price_ticks (last trades))\<rparr>"
    using accepted(4) r(1) by auto
  note m = book_ok_matched [OF ok side lv accepted(4)]
  have nn: "0 \<le> (\<Sum>t\<leftarrow>trades. t_qty_units t)"
    using r(5) eqs by (intro sum_list_ge_0_int) (auto simp: fair_trade_def)
  have filled: "o_filled_units taker = (\<Sum>t\<leftarrow>trades. t_qty_units t)"
    "(\<Sum>t\<leftarrow>trades. t_qty_units t) \<le> o_qty_units o2"
    using taker_filled [OF r(2) _ _ _ r(4,3)] fr nn r(7) eqs by (auto simp: fresh_order_def)
  have same: "same_order o2 taker" using r(2) eqs by simp
  note tk = same_orderD [OF same]
  have sides: "side_for (o_side ord) b1 = side_for (o_side ord) b" "side_for ?opp b1 = s"
    using side so by (simp_all add: b1 side_for_other)
  have common: "fresh_order (bk_cfg b) ord o2" "same_order o2 taker"
    "o_filled_units taker = (\<Sum>t\<leftarrow>trades. t_qty_units t)" "(\<Sum>t\<leftarrow>trades. t_qty_units t) \<le> o_qty_units o2"
    "leaves_units taker = o_qty_units o2 - (\<Sum>t\<leftarrow>trades. t_qty_units t)"
    "\<forall>t \<in> set trades. fair_trade (bk_cfg b) o2 t"
    "consumed (o_trader ord) (flat (side_for ?opp b)) (flat s) trades"
    using fr same filled r(4,5,6) eqs by (auto simp: fresh_order_def)
  show ?thesis
  proof (cases "0 < leaves_units taker \<and> o_type taker = type_limit \<and> o_tif taker = tif_gtc")
    case True
    then have x': "x' = sync_public (bk_cfg b) taker"
      and b': "b' = (set_side (o_side ord) (rest_order x' (side_for (o_side ord) b1)) b1)\<lparr>bk_open := bk_open b1 + 1\<rparr>"
      using accepted(6) tk so by auto
    have res: "resting_ok (o_side ord) (o_price_ticks x') x'"
      using True filled nn common(5) fr tk so by (auto simp: x' resting_ok_def fresh_order_def)
    have away: "\<forall>y \<in> set (flat (side_for ?opp b1)). price_better ?opp (o_price_ticks x') (o_price_ticks y)"
      using m(2) True tk so fr by (auto simp: x')
    have "book_ok b'" unfolding b' using book_ok_rested [OF m(1) _ res away] side so by simp
    moreover have sd: "side_for (o_side ord) b' = rest_order x' (side_for (o_side ord) b)"
      "side_for ?opp b' = s"
      using sides side so by (simp_all add: b' side_for_other)
    moreover have "bk_tape b' = fold push_trade trades (bk_tape b)" "bk_cfg b' = bk_cfg b"
      "bk_last b' = (if trades = [] then bk_last b else t_price_ticks (last trades))"
      by (simp_all add: b' b1 set_side_def)
    moreover have "0 < leaves_units taker \<and> o_type ord = type_limit \<and> o_tif o2 = tif_gtc"
      using True tk fr by (simp add: fresh_order_def)
    ultimately show ?thesis
      using common x' unfolding accepted_run_def by (rule_tac x = o2 in exI, rule_tac x = taker in exI) simp
  next
    case False
    then have b': "b' = b1" and x': "x' = sync_public (bk_cfg b)
         (if 0 < leaves_units taker then taker\<lparr>o_status := status_cancelled\<rparr> else taker)"
      using accepted(6) by auto
    have c: "bk_tape b1 = fold push_trade trades (bk_tape b)" "bk_cfg b1 = bk_cfg b"
      "bk_last b1 = (if trades = [] then bk_last b else t_price_ticks (last trades))"
      by (auto simp: b1 set_side_def)
    have ncond: "\<not> (0 < leaves_units taker \<and> o_type ord = type_limit \<and> o_tif o2 = tif_gtc)"
      using False tk fr by (auto simp: fresh_order_def)
    show ?thesis
      using common sides m(1) c x' unfolding accepted_run_def b'
      by (rule_tac x = o2 in exI, rule_tac x = taker in exI) (use ncond in auto)
  qed
qed simp

end
