(* ===== verification/Book_Cancel.thy ===== *)
theory Book_Cancel
  imports Book_Claims
begin

text \<open>
  Cancellation and lookup: \<open>cancel\<close> removes exactly the named order of the calling trader
  and keeps the book's invariant.
\<close>

lemma find_in_levels_split:
  assumes "find_in_levels i ls = Some (l, x)"
  obtains as bs us vs where "ls = as @ l # bs" "lv_orders l = us @ x # vs" "o_id x = i"
    "\<forall>y \<in> set (concat (map lv_orders as) @ us). o_id y \<noteq> i"
  using assms
proof (induction ls arbitrary: thesis)
  case (Cons k ls)
  show ?case
  proof (cases "find (\<lambda>x. o_id x = i) (lv_orders k)")
    case None
    then have r: "find_in_levels i ls = Some (l, x)" using Cons.prems(2) by simp
    obtain as bs us vs where "ls = as @ l # bs" "lv_orders l = us @ x # vs" "o_id x = i"
      "\<forall>y \<in> set (concat (map lv_orders as) @ us). o_id y \<noteq> i"
      by (rule Cons.IH [OF _ r])
    moreover have "\<forall>y \<in> set (lv_orders k). o_id y \<noteq> i" using None by (simp add: find_None_iff)
    ultimately show ?thesis using Cons.prems(1) [of "k # as" bs us vs] by auto
  next
    case (Some y)
    then have lx: "k = l" "y = x" using Cons.prems(2) by auto
    from Some obtain n where n: "n < length (lv_orders k)" "o_id (lv_orders k ! n) = i"
      "y = lv_orders k ! n" "\<forall>j<n. o_id (lv_orders k ! j) \<noteq> i"
      by (auto simp: find_Some_iff)
    have "lv_orders k = take n (lv_orders k) @ y # drop (Suc n) (lv_orders k)"
      using n(1,3) by (simp add: id_take_nth_drop)
    moreover have "\<forall>y \<in> set (take n (lv_orders k)). o_id y \<noteq> i"
      using n(4) by (metis (no_types, lifting) in_set_conv_nth length_take min_less_iff_conj nth_take)
    ultimately show ?thesis
      using Cons.prems(1) [of "[]" ls "take n (lv_orders k)" "drop (Suc n) (lv_orders k)"] lx n by simp
  qed
qed simp

lemma find_in_levels_None: "find_in_levels i ls = None \<longleftrightarrow> (\<forall>y \<in> set (concat (map lv_orders ls)). o_id y \<noteq> i)"
  by (induction ls) (auto simp: find_None_iff dest!: find_SomeD split: option.splits)

lemma take_order_split: "\<forall>y \<in> set us. o_id y \<noteq> i \<Longrightarrow> o_id x = i \<Longrightarrow> take_order i (us @ x # vs) = Some (x, us @ vs)"
  by (induction us) auto

lemma side_ok_drop_mid:
  assumes ok: "side_ok s" and ls: "sb_levels s = as @ l # bs"
  shows "side_ok (drop_level (lv_price l) s)" "sb_levels (drop_level (lv_price l) s) = as @ bs"
    "sb_side (drop_level (lv_price l) s) = sb_side s"
proof -
  have srt: "sorted_wrt (price_better (sb_side s)) (map lv_price (as @ l # bs))"
    using ok ls by (simp add: side_ok_def side_better_def)
  note nin = sorted_prices_split [OF srt]
  have idx: "lv_price l \<in> sb_index s" using ok ls by (simp add: side_ok_def)
  show levels: "sb_levels (drop_level (lv_price l) s) = as @ bs"
    and "sb_side (drop_level (lv_price l) s) = sb_side s"
    using idx ls nin(1) by (simp_all add: drop_level_def remove_level_at_split)
  have "sorted_wrt (price_better (sb_side s)) (map lv_price (as @ bs))"
    using srt by (auto simp: sorted_wrt_append)
  moreover have "sb_index s - {lv_price l} = lv_price ` set (as @ bs)"
  proof -
    have "lv_price k \<noteq> lv_price l" if "k \<in> set (as @ bs)" for k
      using that nin by (metis Un_iff imageI set_append)
    then show ?thesis using ok ls by (auto simp: side_ok_def)
  qed
  ultimately show "side_ok (drop_level (lv_price l) s)"
    using ok ls idx levels by (auto simp: side_ok_def side_better_def drop_level_def)
qed

lemma side_ok_update_mid:
  assumes ok: "side_ok s" and ls: "sb_levels s = as @ l # bs"
    and l': "level_ok (sb_side s) l'" "lv_price l' = lv_price l" "lv_orders l' \<noteq> []"
  shows "side_ok (update_level (lv_price l) (\<lambda>_. l') s)"
    "sb_levels (update_level (lv_price l) (\<lambda>_. l') s) = as @ l' # bs"
    "sb_side (update_level (lv_price l) (\<lambda>_. l') s) = sb_side s"
proof -
  have srt: "sorted_wrt (price_better (sb_side s)) (map lv_price (as @ l # bs))"
    using ok ls by (simp add: side_ok_def side_better_def)
  have levels: "map_level_at (lv_price l) (\<lambda>_. l') (sb_levels s) = as @ l' # bs"
    using ls sorted_prices_split(1) [OF srt] by (simp add: map_level_at_split)
  then show "sb_levels (update_level (lv_price l) (\<lambda>_. l') s) = as @ l' # bs"
    "sb_side (update_level (lv_price l) (\<lambda>_. l') s) = sb_side s"
    "side_ok (update_level (lv_price l) (\<lambda>_. l') s)"
    using ok ls l' by (auto simp: side_ok_def side_better_def update_level_def)
qed

lemma level_ok_remove:
  assumes ok: "level_ok side l" and l: "lv_orders l = us @ x # vs" "\<forall>y \<in> set us. o_id y \<noteq> o_id x"
  shows "level_ok side (fst (level_remove (o_id x) l))"
    "lv_orders (fst (level_remove (o_id x) l)) = us @ vs" "lv_price (fst (level_remove (o_id x) l)) = lv_price l"
proof -
  have t: "take_order (o_id x) (lv_orders l) = Some (x, us @ vs)" using l take_order_split [of us] by simp
  then show "lv_orders (fst (level_remove (o_id x) l)) = us @ vs"
    "lv_price (fst (level_remove (o_id x) l)) = lv_price l" by (simp_all add: level_remove_def)
  have "(\<Sum>y\<leftarrow>us. leaves_units y) + (leaves_units x + (\<Sum>y\<leftarrow>vs. leaves_units y)) - leaves_units x
      = (\<Sum>y\<leftarrow>us. leaves_units y) + (\<Sum>y\<leftarrow>vs. leaves_units y)" by simp
  then show "level_ok side (fst (level_remove (o_id x) l))"
    using ok l t by (auto simp: level_remove_def level_ok_def sub64_def wrap64_wrap64_diff)
qed

lemma cancel_on_removes:
  assumes ok: "book_ok b" and side: "side \<in> {side_buy, side_sell}"
    and f: "find_in_levels i (sb_levels (side_for side b)) = Some (l, x)"
    and c: "cancel_on side l x now b = (b', x')"
  shows "book_ok b'"
    "\<exists>us vs. flat (side_for side b) = us @ x # vs \<and> flat (side_for side b') = us @ vs
       \<and> (\<forall>y \<in> set us. o_id y \<noteq> i)"
    "side_for (opposite_side side) b' = side_for (opposite_side side) b"
    "o_id x = i" "o_id x' = i" "o_trader x' = o_trader x" "o_status x' = status_cancelled"
    "bk_tape b' = bk_tape b"
proof -
  let ?s = "side_for side b"
  have s: "side_ok ?s" "sb_side ?s = side" using ok book_ok_sides [OF side] by auto
  obtain as bs us vs where sp: "sb_levels ?s = as @ l # bs" "lv_orders l = us @ x # vs" "o_id x = i"
    "\<forall>y \<in> set (concat (map lv_orders as) @ us). o_id y \<noteq> i"
    by (rule find_in_levels_split [OF f])
  define l' where "l' = fst (level_remove (o_id x) l)"
  define s' where "s' = (if lv_orders l' = [] then drop_level (lv_price l) ?s
      else update_level (lv_price l) (\<lambda>_. l') ?s)"
  have lok: "level_ok side l" using s sp(1) by (auto simp: side_ok_def)
  have l': "level_ok side l'" "lv_orders l' = us @ vs" "lv_price l' = lv_price l"
    using level_ok_remove [OF lok sp(2)] sp(3,4) by (auto simp: l'_def)
  have s': "side_ok s'" "sb_side s' = side" "flat s' = concat (map lv_orders as) @ us @ vs @ concat (map lv_orders bs)"
    using side_ok_drop_mid [OF s(1) sp(1)] side_ok_update_mid [OF s(1) sp(1), of l'] l' s(2)
    by (auto simp: s'_def flat_def)
  have fs: "flat ?s = concat (map lv_orders as) @ us @ x # vs @ concat (map lv_orders bs)"
    using sp by (simp add: flat_def)
  have b': "b' = (set_side side s' b)\<lparr>bk_open := bk_open b - 1\<rparr>"
    and x': "x' = sync_public (bk_cfg b) (x\<lparr>o_status := status_cancelled, o_updated := now\<rparr>)"
    using c by (auto simp: cancel_on_def Let_def l'_def [symmetric] s'_def [symmetric])
  have sd: "side_for side b' = s'" "side_for (opposite_side side) b' = side_for (opposite_side side) b"
    by (simp_all add: b' side_for_other [OF side])
  then show "side_for (opposite_side side) b' = side_for (opposite_side side) b" by simp
  show "\<exists>us vs. flat ?s = us @ x # vs \<and> flat (side_for side b') = us @ vs \<and> (\<forall>y \<in> set us. o_id y \<noteq> i)"
    by (rule exI [of _ "concat (map lv_orders as) @ us"], rule exI [of _ "vs @ concat (map lv_orders bs)"])
       (use fs s'(3) sd(1) sp(4) in simp)
  show "o_id x = i" by (rule sp(3))
  show "o_id x' = i" "o_trader x' = o_trader x" using sp(3) by (simp_all add: x')
  show "o_status x' = status_cancelled" by (simp add: x' sync_public_def Let_def book_strings)
  show "bk_tape b' = bk_tape b" by (simp add: b' set_side_def)
  have "set (flat s') \<subseteq> set (flat ?s)" using fs s'(3) by auto
  moreover have "bk_open b' = bk_open b - 1" by (simp add: b')
  ultimately show "book_ok b'"
    using ok s' fs unfolding book_ok_sides [OF side] sd by auto
qed

lemma cancel_effect:
  assumes ok: "book_ok b" and c: "cancel now i trader b = (b', Inr x')"
  shows "book_ok b' \<and> o_id x' = i \<and> o_trader x' = trader \<and> o_status x' = status_cancelled
    \<and> (\<exists>us x vs. flat (bk_bids b) @ flat (bk_asks b) = us @ x # vs \<and> o_id x = i \<and> o_trader x = trader
         \<and> flat (bk_bids b') @ flat (bk_asks b') = us @ vs)"
proof -
  obtain side l x where f: "side \<in> {side_buy, side_sell}" "find_in_levels i (sb_levels (side_for side b)) = Some (l, x)"
    "o_trader x = trader" "cancel_on side l x now b = (b', x')"
    using c by (auto simp: cancel_def side_for_def split: option.splits if_splits prod.splits)
      (metis insertI1 insertI2 side_neq(1))+
  note r = cancel_on_removes [OF ok f(1,2,4)]
  obtain us vs where uv: "flat (side_for side b) = us @ x # vs" "flat (side_for side b') = us @ vs" using r(2) by blast
  have "\<exists>us x vs. flat (bk_bids b) @ flat (bk_asks b) = us @ x # vs \<and> o_id x = i \<and> o_trader x = trader
         \<and> flat (bk_bids b') @ flat (bk_asks b') = us @ vs"
  proof (cases "side = side_buy")
    case True
    with uv r(3,4) f(3) show ?thesis
      by (intro exI [of _ us] exI [of _ x] exI [of _ "vs @ flat (bk_asks b)"])
        (simp add: side_for_def opposite_side_def)
  next
    case False
    with uv r(3,4) f(1,3) show ?thesis
      by (intro exI [of _ "flat (bk_bids b) @ us"] exI [of _ x] exI [of _ vs])
        (simp add: side_for_def opposite_side_def)
  qed
  with r f(3) show ?thesis by simp
qed

lemma cancel_refused: "cancel now i trader b = (b', Inl e) \<Longrightarrow> b' = b"
  by (auto simp: cancel_def split: option.splits if_splits prod.splits)

section \<open>Claims on the book\<close>

lemma submit_total:
  assumes "book_ok b"
  shows "\<exists>r. submit clk b ord = Some r"
proof (cases "validate (bk_cfg b) ord")
  case (Pair o1 e)
  show ?thesis
  proof (cases e)
    case None
    let ?o2 = "o1\<lparr>o_created := clk 0, o_updated := clk 0\<rparr>"
    have fr: "fresh_order (bk_cfg b) ord ?o2" using accepted_order Pair None by simp
    from fresh_order_side [OF fr] have "o_side ?o2 \<in> {side_buy, side_sell}" "0 \<le> leaves_units ?o2" by blast+
    then obtain r where "match_book clk b ?o2 = Some r"
      by (rule match_book_run [OF assms, where clk = clk]) blast
    then show ?thesis using Pair None by (cases r) (simp add: submit_def Let_def)
  qed (use Pair in \<open>simp add: submit_def\<close>)
qed

text \<open>C1: a submission to a well-formed book always returns: the matching loop of the engine
  terminates whatever the order is.\<close>

theorem submit_returns:
  assumes "book_ok b"
  shows "\<exists>r. submit clk b ord = Some r"
  using assms by (rule submit_total)

text \<open>C2: every submission keeps the book well-formed: both sides sorted best-first with an index
  that names exactly their levels, level totals and the open-order counter right, resting
  orders live and on their own side, and the best bid strictly below the best ask.\<close>

theorem submit_keeps_book_ok:
  assumes "book_ok b" and "submit clk b ord = Some (b', x', trades, err)"
  shows "book_ok b'"
proof (cases err)
  case None
  with assms(2) have "submit clk b ord = Some (b', x', trades, None)" by simp
  from submit_accepted_run [OF assms(1) this] show ?thesis by (auto simp: accepted_run_def)
next
  case (Some e)
  with assms(2) have "b' = b" by (cases rule: submit_outcome) auto
  with assms(1) show ?thesis by simp
qed

text \<open>A rejected order leaves the book untouched and produces no trade.\<close>

theorem submit_rejection_changes_nothing:
  assumes "submit clk b ord = Some (b', x', trades, Some e)"
  shows "b' = b \<and> trades = [] \<and> o_status x' = status_rejected"
  using assms by (cases rule: submit_outcome) auto

text \<open>C3: price-time priority. The opposite side is consumed strictly from its front, in the order
  best price first and oldest first within a price: each foreign order of the consumed
  prefix is filled in full at its own price, at most one further order is filled in part and
  keeps its place, and no order behind it trades.\<close>

theorem submit_price_time_priority:
  assumes "book_ok b" and "submit clk b ord = Some (b', x', trades, None)"
  shows "consumed (o_trader ord) (flat (side_for (opposite_side (o_side ord)) b))
      (flat (side_for (opposite_side (o_side ord)) b')) trades"
  using submit_accepted_run [OF assms] by (auto simp: accepted_run_def)

text \<open>C4: no trade of an accepted submission is a self-trade. Each is struck with an order that
  was resting on the opposite side, names that order and its trader, and is recorded at that order's
  price, in ticks and in the public field; that price is within the taker's limit. Every trade moves
  a positive quantity, and together they are exactly the filled units of the returned order, at most
  its quantity.\<close>

theorem submit_trades_are_fair:
  assumes "book_ok b" and "submit clk b ord = Some (b', x', trades, None)"
  shows "(\<forall>t \<in> set trades. t_maker t \<noteq> o_trader ord \<and> t_taker t = o_trader ord \<and> 0 < t_qty_units t
        \<and> (\<exists>m \<in> set (flat (side_for (opposite_side (o_side ord)) b)). o_id m = t_maker_id t \<and> o_trader m = t_maker t
             \<and> o_price_ticks m = t_price_ticks t \<and> t_qty_units t \<le> leaves_units m
             \<and> t_price t = f64_div (f64_of_int (o_price_ticks m)) (f64_of_int (pc_price_scale (bk_cfg b))))
        \<and> (o_type x' = type_limit \<longrightarrow>
             (if o_side x' = side_buy then t_price_ticks t \<le> o_price_ticks x' else o_price_ticks x' \<le> t_price_ticks t)))
    \<and> o_filled_units x' = (\<Sum>t\<leftarrow>trades. t_qty_units t) \<and> o_filled_units x' \<le> o_qty_units x'"
proof -
  obtain o2 taker where r: "accepted_run b ord b' x' trades o2 taker"
    using submit_accepted_run [OF assms] by blast
  then have same: "same_order o2 taker" and fr: "fresh_order (bk_cfg b) ord o2" by (simp_all add: accepted_run_def)
  have x': "o_type x' = o_type o2" "o_side x' = o_side o2" "o_price_ticks x' = o_price_ticks o2"
    "o_filled_units x' = o_filled_units taker" "o_qty_units x' = o_qty_units o2"
    using r same_orderD [OF same] by (auto simp: accepted_run_def split: if_splits)
  have cons: "consumed (o_trader ord) (flat (side_for (opposite_side (o_side ord)) b))
      (flat (side_for (opposite_side (o_side ord)) b')) trades"
    using r by (simp add: accepted_run_def)
  have fair: "fair_trade (bk_cfg b) o2 t" if "t \<in> set trades" for t
    using r that by (auto simp: accepted_run_def)
  have "t_maker t \<noteq> o_trader ord \<and> t_taker t = o_trader ord \<and> 0 < t_qty_units t
      \<and> (o_type x' = type_limit \<longrightarrow>
        (if o_side x' = side_buy then t_price_ticks t \<le> o_price_ticks x' else o_price_ticks x' \<le> t_price_ticks t))"
    if "t \<in> set trades" for t
    using fair [OF that] fr x' by (auto simp: fair_trade_def fresh_order_def crosses_def split: if_splits)
  moreover have "\<exists>m \<in> set (flat (side_for (opposite_side (o_side ord)) b)). o_id m = t_maker_id t \<and> o_trader m = t_maker t
      \<and> o_price_ticks m = t_price_ticks t \<and> t_qty_units t \<le> leaves_units m
      \<and> t_price t = f64_div (f64_of_int (o_price_ticks m)) (f64_of_int (pc_price_scale (bk_cfg b)))"
    if "t \<in> set trades" for t
    using consumed_maker [OF cons that] fair [OF that] by (auto simp: fair_trade_def)
  ultimately show ?thesis using r x' by (auto simp: accepted_run_def)
qed

text \<open>What rests. After an accepted submission the side of the order holds one order more
  exactly when units are left of a GTC limit order; that order stands behind every order at a
  price as good as its own and in front of every worse one. An IOC, FOK or market order never
  rests.\<close>

theorem submit_rests_only_gtc_limit:
  assumes "book_ok b" and "submit clk b ord = Some (b', x', trades, None)"
  shows "if o_filled_units x' < o_qty_units x' \<and> o_type x' = type_limit \<and> o_tif x' = tif_gtc
    then \<exists>us vs. flat (side_for (o_side ord) b) = us @ vs \<and> flat (side_for (o_side ord) b') = us @ x' # vs
      \<and> (\<forall>u \<in> set us. \<not> price_better (o_side ord) (o_price_ticks x') (o_price_ticks u))
      \<and> (\<forall>v \<in> set vs. price_better (o_side ord) (o_price_ticks x') (o_price_ticks v))
    else side_for (o_side ord) b' = side_for (o_side ord) b"
proof -
  obtain o2 taker where r: "accepted_run b ord b' x' trades o2 taker"
    using submit_accepted_run [OF assms] by blast
  then have same: "same_order o2 taker" and fr: "fresh_order (bk_cfg b) ord o2" by (simp_all add: accepted_run_def)
  have x': "o_type x' = o_type ord" "o_tif x' = o_tif o2" "o_filled_units x' = o_filled_units taker"
    "o_qty_units x' = o_qty_units o2"
    using r same_orderD [OF same] fr by (auto simp: accepted_run_def fresh_order_def split: if_splits)
  have side: "o_side ord \<in> {side_buy, side_sell}" using fr by (auto simp: fresh_order_def)
  have s: "side_ok (side_for (o_side ord) b)" "sb_side (side_for (o_side ord) b) = o_side ord"
    using assms(1) book_ok_sides [OF side] by auto
  have lv: "0 < leaves_units taker \<longleftrightarrow> o_filled_units x' < o_qty_units x'"
    using r x' by (auto simp: accepted_run_def)
  show ?thesis
    using r flat_rest_order [OF s(1), of x'] s(2) x' lv
    by (auto simp: accepted_run_def side_better_def split: if_splits)
qed

text \<open>C5: a cancel succeeds only for the trader who placed the order; it then removes exactly that
  order, whichever side and level holds it, and keeps the book well-formed.\<close>

theorem cancel_removes_own_order:
  assumes ok: "book_ok b" and c: "cancel now i trader b = (b', Inr x')"
  shows "book_ok b' \<and> o_id x' = i \<and> o_trader x' = trader \<and> o_status x' = status_cancelled
    \<and> (\<exists>us x vs. flat (bk_bids b) @ flat (bk_asks b) = us @ x # vs \<and> o_id x = i \<and> o_trader x = trader
         \<and> flat (bk_bids b') @ flat (bk_asks b') = us @ vs)"
  using cancel_effect [OF assms] .

text \<open>A cancel that is refused changes nothing, and it is refused when the first order with that
  identifier belongs to somebody else or when no order has it.\<close>

theorem cancel_refused_changes_nothing:
  assumes "cancel now i trader b = (b', Inl e)"
  shows "b' = b \<and> (e = ErrNotOwner \<and> (\<exists>x. get_order i b = Some x \<and> o_trader x \<noteq> trader)
    \<or> e = ErrUnknownOrder \<and> get_order i b = None)"
  using assms by (auto simp: cancel_def get_order_def split: option.splits if_splits prod.splits)

text \<open>The tape. After an accepted submission, reading \<open>limit\<close> trades gives the end of the
  whole trade history, oldest first: the ring buffer loses only what is older than its length.\<close>

theorem submit_extends_tape:
  assumes "book_ok b" and "submit clk b ord = Some (b', x', trades, None)" and "tape_rep (bk_tape b) hist"
    and "0 < limit" and "limit \<le> int (min (length (hist @ trades)) (length (tp_buf (bk_tape b))))"
  shows "book_trades limit b' = drop (length (hist @ trades) - nat limit) (hist @ trades)"
proof -
  have push: "tape_rep (fold push_trade ts tp) (h @ ts) \<and> length (tp_buf (fold push_trade ts tp)) = length (tp_buf tp)"
    if "tape_rep tp h" for ts tp h
    using that
  proof (induction ts arbitrary: tp h)
    case (Cons t ts)
    then show ?case using Cons.IH [OF tape_rep_push [OF Cons.prems, of t]] by simp
  qed simp
  have "bk_tape b' = fold push_trade trades (bk_tape b)"
    using submit_accepted_run [OF assms(1,2)] by (auto simp: accepted_run_def)
  then have rep: "tape_rep (bk_tape b') (hist @ trades)" "length (tp_buf (bk_tape b')) = length (tp_buf (bk_tape b))"
    using push [OF assms(3)] by auto
  then have "int (tp_count (bk_tape b')) = int (min (length (hist @ trades)) (length (tp_buf (bk_tape b))))"
    by (simp add: tape_rep_def)
  then show ?thesis
    unfolding book_trades_def using tape_trades_hist [OF rep(1), of "nat limit" limit] assms(4,5) by simp
qed

end
