(* ===== verification/Book_Examples.thy ===== *)
theory Book_Examples
  imports Book_Cancel
begin

text \<open>
  Concrete books and orders: the witnesses of the book's claims, and the run that shows a
  fill-or-kill order trading in part.
\<close>

definition ex_cfg :: pair_config where
  "ex_cfg = \<lparr>pc_pair = ''TGR-USDC'', pc_price_scale = 1, pc_qty_scale = 1, pc_maker_fee_bps = 10,
     pc_taker_fee_bps = 30, pc_min_quantity = Fin False 0, pc_max_quantity = Fin False 0\<rparr>"

text \<open>An order as a client sends it: the integer state is not set.\<close>

definition ex_order :: "uint64 \<Rightarrow> string \<Rightarrow> string \<Rightarrow> string \<Rightarrow> string \<Rightarrow> rat \<Rightarrow> rat \<Rightarrow> order" where
  "ex_order i trader side ty tif price qty =
     \<lparr>o_id = i, o_trader = trader, o_pair = ''TGR-USDC'', o_side = side, o_type = ty, o_tif = tif,
      o_price = Fin False price, o_quantity = Fin False qty, o_filled = f64_zero, o_leaves = f64_zero,
      o_status = [], o_created = 0, o_updated = 0, o_price_ticks = 0, o_qty_units = 0, o_filled_units = 0\<rparr>"

text \<open>The same order resting: five units at ten.\<close>

definition ex_resting :: "uint64 \<Rightarrow> string \<Rightarrow> order" where
  "ex_resting i trader = (ex_order i trader side_sell type_limit tif_gtc 10 5)
     \<lparr>o_status := status_open, o_leaves := Fin False 5, o_price_ticks := 10, o_qty_units := 5\<rparr>"

text \<open>Two asks at one price, the older one by alice, the younger one by bob.\<close>

definition ex_book :: book where
  "ex_book = \<lparr>bk_cfg = ex_cfg, bk_bids = new_side_book side_buy,
     bk_asks = \<lparr>sb_side = side_sell,
       sb_levels = [\<lparr>lv_price = 10, lv_orders = [ex_resting 1 ''alice'', ex_resting 2 ''bob''], lv_total = 10\<rparr>],
       sb_index = {10}\<rparr>,
     bk_last = 0, bk_open = 2, bk_tape = new_tape\<rparr>"

lemma ex_units [simp]: "quantity_units ex_cfg (Fin False 10) = Inr 10" "quantity_units ex_cfg (Fin False 5) = Inr 5"
  "limit_ticks ex_cfg (Fin False 10) = Inr 10"
  by (simp_all add: quantity_units_def limit_ticks_def to_ticks_def ex_cfg_def f64_zero_def)

lemma ex_book_ok: "book_ok ex_book"
  by (simp add: book_ok_def uncrossed_def side_ok_def level_ok_def resting_ok_def ex_book_def ex_resting_def
      ex_order_def new_side_book_def flat_def leaves_units_def sub64_def max_int64_def)

definition ex_fok :: order where
  "ex_fok = ex_order 3 ''alice'' side_buy type_limit tif_fok 10 10"


lemma tif_fok_nonempty [simp]: "tif_fok \<noteq> []"
  by (simp add: tif_fok_def)
lemma ex_fok_valid:
  "validate ex_cfg ex_fok = (ex_fok\<lparr>o_qty_units := 10, o_filled_units := 0, o_price_ticks := 10\<rparr>, None)"
  by (simp add: validate_def ex_fok_def ex_order_def)

lemma ex_cfg_book [simp]: "bk_cfg ex_book = ex_cfg"
  by (simp add: ex_book_def)

definition "ex_taker = ex_fok\<lparr>o_qty_units := 10, o_filled_units := 0, o_price_ticks := 10, o_created := 0, o_updated := 0\<rparr>"

lemma ex_taker_simps: "o_side ex_taker = side_buy" "o_type ex_taker = type_limit" "o_tif ex_taker = tif_fok"
  "o_price_ticks ex_taker = 10" "o_qty_units ex_taker = 10" "o_filled_units ex_taker = 0" "leaves_units ex_taker = 10"
  "o_trader ex_taker = ''alice''"
  by (simp_all add: ex_taker_def ex_fok_def ex_order_def leaves_units_def sub64_def)

lemma avail: "available_units ex_book ex_taker = 10"
  by (simp add: available_units_def ex_taker_simps opposite_side_def side_for_def ex_book_def crosses_def add64_def)

lemma ex_resting_simps: "o_trader (ex_resting i t) = t" "leaves_units (ex_resting i t) = 5" "o_id (ex_resting i t) = i"
  by (simp_all add: ex_resting_def ex_order_def leaves_units_def sub64_def)


lemma ex_fill:
  assumes "r = fill_order clk cfg 10 (ex_resting 2 ''bob'') 5 \<lparr>ms_taker = ex_taker, ms_trades = [], ms_open = n, ms_tape = tp\<rparr>"
  shows "fst r = None" "o_filled_units (ms_taker (snd r)) = 5" "leaves_units (ms_taker (snd r)) = 5"
    "length (ms_trades (snd r)) = 1" "same_order ex_taker (ms_taker (snd r))"
proof -
  have z: "leaves_units (ex_resting 2 ''bob''\<lparr>o_filled_units := add64 (o_filled_units (ex_resting 2 ''bob'')) 5, o_updated := u\<rparr>) = 0" for u
    by (simp add: leaves_units_def ex_resting_def ex_order_def add64_def sub64_def)
  show "fst r = None" using z by (simp add: assms fill_order_def Let_def)
  show "o_filled_units (ms_taker (snd r)) = 5" by (simp add: assms ex_taker_simps add64_def)
  show "leaves_units (ms_taker (snd r)) = 5"
    using leaves_fill [of 5 ex_taker] by (simp add: assms ex_taker_simps)
  show "length (ms_trades (snd r)) = 1" by (simp add: assms fill_order_trades)
  show "same_order ex_taker (ms_taker (snd r))" using same_order_fill by (simp add: assms del: taker_fill_order) (metis match_state.select_convs(1) same_order_fill)
qed

lemma ex_level: "match_level clk cfg s \<lparr>lv_price = 10, lv_orders = [ex_resting 1 ''alice'', ex_resting 2 ''bob''], lv_total = 10\<rparr>
   \<lparr>ms_taker = ex_taker, ms_trades = [], ms_open = n, ms_tape = tp\<rparr> =
   (s, \<lparr>lv_price = 10, lv_orders = [], lv_total = 0\<rparr>, snd (fill_order clk cfg 10 (ex_resting 2 ''bob'') 5 \<lparr>ms_taker = ex_taker, ms_trades = [], ms_open = n - 1, ms_tape = tp\<rparr>))"
  apply (subst match_level.simps)
  apply (simp add: ex_taker_simps ex_resting_simps cancel_resting_def level_remove_def sub64_def)
  apply (subst match_level.simps)
  apply (simp add: ex_taker_simps ex_resting_simps cancel_resting_def level_remove_def sub64_def Let_def ex_fill [OF refl])
  apply (subst match_level.simps)
  apply simp
  done

lemma ex_match: "\<exists>b1 taker t. match_book clk ex_book ex_taker = Some (b1, taker, [t]) \<and> same_order ex_taker taker
   \<and> o_filled_units taker = 5 \<and> leaves_units taker = 5"
  apply (simp add: match_book_def Let_def ex_taker_simps opposite_side_def side_for_def)
  apply (simp add: ex_book_def)
  apply (subst match_loop.simps)
  apply (simp add: ex_taker_simps crosses_def ex_level store_back_def drop_level_def)
  apply (subst match_loop.simps)
  apply (simp add: ex_taker_simps crosses_def ex_level store_back_def drop_level_def ex_fill [OF refl])
  apply (simp add: fill_order_trades add64_def same_order_def leaves_units_def sub64_def ex_taker_simps)
  apply (rule exI, rule refl)
  done

lemma ex_fok_run: "\<exists>b' x' t. submit (\<lambda>_. 0) ex_book ex_fok = Some (b', x', [t], None)
   \<and> o_filled_units x' = 5 \<and> o_qty_units x' = 10 \<and> o_status x' = status_cancelled"
proof -
  obtain b1 taker t where m: "match_book (\<lambda>_. 0) ex_book ex_taker = Some (b1, taker, [t])" "same_order ex_taker taker"
    "o_filled_units taker = 5" "leaves_units taker = 5"
    using ex_match by blast
  have t: "o_tif taker = tif_fok" "o_type taker = type_limit" "o_qty_units taker = 10"
    using same_orderD [OF m(2)] by (simp_all add: ex_taker_simps)
  have "submit (\<lambda>_. 0) ex_book ex_fok = Some (b1, sync_public ex_cfg (taker\<lparr>o_status := status_cancelled\<rparr>), [t], None)"
    using m t avail by (simp add: submit_def ex_fok_valid ex_taker_def [symmetric] ex_taker_simps)
  then show ?thesis using m t by (auto simp: sync_public_def Let_def book_strings)
qed

section \<open>Witnesses\<close>

theorem submit_returns_witness: "\<exists>r. submit (\<lambda>_. 0) ex_book ex_fok = Some r"
  using submit_returns [OF ex_book_ok] by blast

theorem submit_keeps_book_ok_witness:
  "\<exists>b' x' trades err. submit (\<lambda>_. 0) ex_book ex_fok = Some (b', x', trades, err) \<and> book_ok b'"
  using ex_fok_run submit_keeps_book_ok [OF ex_book_ok] by blast

definition ex_bad :: order where
  "ex_bad = ex_order 4 ''carol'' ''hold'' type_limit tif_gtc 10 5"

theorem submit_rejection_witness:
  "\<exists>b' x' trades. submit (\<lambda>_. 0) ex_book ex_bad = Some (b', x', trades, Some ErrBadSide)
     \<and> b' = ex_book \<and> trades = [] \<and> o_status x' = status_rejected"
proof -
  have "\<exists>b' x' trades. submit (\<lambda>_. 0) ex_book ex_bad = Some (b', x', trades, Some ErrBadSide)"
    by (simp add: submit_def validate_def ex_bad_def ex_order_def book_strings)
  then show ?thesis using submit_rejection_changes_nothing by blast
qed

theorem submit_priority_witness:
  "\<exists>b' x' t. submit (\<lambda>_. 0) ex_book ex_fok = Some (b', x', [t], None)
     \<and> consumed ''alice'' (flat (bk_asks ex_book)) (flat (bk_asks b')) [t]"
  using ex_fok_run submit_price_time_priority [OF ex_book_ok, of "\<lambda>_. 0" ex_fok]
  by (fastforce simp: ex_fok_def ex_order_def opposite_side_def side_for_def)

theorem submit_fair_witness:
  "\<exists>b' x' t. submit (\<lambda>_. 0) ex_book ex_fok = Some (b', x', [t], None)
     \<and> t_maker t = ''bob'' \<and> t_price_ticks t = 10 \<and> o_filled_units x' = t_qty_units t"
proof -
  obtain b' x' t where r: "submit (\<lambda>_. 0) ex_book ex_fok = Some (b', x', [t], None)" using ex_fok_run by blast
  have "set (flat (side_for (opposite_side (o_side ex_fok)) ex_book)) = {ex_resting 1 ''alice'', ex_resting 2 ''bob''}"
    by (simp add: ex_fok_def ex_order_def opposite_side_def side_for_def ex_book_def flat_def)
  moreover from submit_trades_are_fair [OF ex_book_ok r] obtain m where
    "m \<in> set (flat (side_for (opposite_side (o_side ex_fok)) ex_book))" "o_trader m = t_maker t"
    "o_price_ticks m = t_price_ticks t" "t_maker t \<noteq> o_trader ex_fok" "o_filled_units x' = t_qty_units t"
    by (metis list.set_intros(1) list.simps(8) list.simps(9) sum_list.Cons sum_list.Nil add.right_neutral)
  ultimately have "(m = ex_resting 1 ''alice'' \<or> m = ex_resting 2 ''bob'') \<and> t_maker t \<noteq> ''alice''"
    by (simp add: ex_fok_def ex_order_def)
  with \<open>o_trader m = t_maker t\<close> \<open>o_price_ticks m = t_price_ticks t\<close> have "t_maker t = ''bob'' \<and> t_price_ticks t = 10"
    by (auto simp: ex_resting_def ex_order_def)
  with r \<open>o_filled_units x' = t_qty_units t\<close> show ?thesis by blast
qed

theorem submit_rests_witness:
  "\<exists>b' x' t. submit (\<lambda>_. 0) ex_book ex_fok = Some (b', x', [t], None) \<and> o_filled_units x' < o_qty_units x'
     \<and> (o_tif x' \<noteq> tif_gtc \<longrightarrow> side_for side_buy b' = side_for side_buy ex_book)"
proof -
  from ex_fok_run obtain b' x' t where r: "submit (\<lambda>_. 0) ex_book ex_fok = Some (b', x', [t], None)"
    "o_filled_units x' = 5" "o_qty_units x' = 10" by blast
  have "o_tif x' \<noteq> tif_gtc \<Longrightarrow> side_for (o_side ex_fok) b' = side_for (o_side ex_fok) ex_book"
    using submit_rests_only_gtc_limit [OF ex_book_ok r(1)] by (simp split: if_splits)
  with r show ?thesis by (auto simp: ex_fok_def ex_order_def)
qed

theorem cancel_own_witness:
  "\<exists>b' x'. cancel 0 2 ''bob'' ex_book = (b', Inr x') \<and> book_ok b' \<and> o_trader x' = ''bob''"
proof -
  have "\<exists>b' x'. cancel 0 2 ''bob'' ex_book = (b', Inr x')"
    by (simp add: cancel_def ex_book_def new_side_book_def ex_resting_def ex_order_def split: prod.splits)
  then show ?thesis using cancel_removes_own_order [OF ex_book_ok] by blast
qed

theorem cancel_refused_witness:
  "\<exists>b'. cancel 0 2 ''eve'' ex_book = (b', Inl ErrNotOwner) \<and> b' = ex_book"
proof -
  have "\<exists>b'. cancel 0 2 ''eve'' ex_book = (b', Inl ErrNotOwner)"
    by (simp add: cancel_def ex_book_def new_side_book_def ex_resting_def ex_order_def)
  then show ?thesis using cancel_refused_changes_nothing by blast
qed

theorem submit_tape_witness:
  "\<exists>b' x' t. submit (\<lambda>_. 0) ex_book ex_fok = Some (b', x', [t], None) \<and> book_trades 1 b' = [t]"
proof -
  from ex_fok_run obtain b' x' t where r: "submit (\<lambda>_. 0) ex_book ex_fok = Some (b', x', [t], None)" by blast
  have "tape_rep (bk_tape ex_book) []" using tape_rep_new by (simp add: ex_book_def)
  moreover have "0 < length (tp_buf (bk_tape ex_book))" by (simp add: ex_book_def new_tape_def default_trade_history_def)
  moreover from this have "int (min (length ([] @ [t])) (length (tp_buf (bk_tape ex_book)))) = 1"
    by (simp add: min_def Suc_le_eq del: length_greater_0_conv)
  ultimately have "book_trades 1 b' = [t]"
    using submit_extends_tape [OF ex_book_ok r, of "[]" 1] by simp
  with r show ?thesis by blast
qed

text \<open>Fill-or-kill is not honoured against the trader's own liquidity. The admission test counts
  every resting unit within the limit, the trader's own included, and matching then cancels
  those instead of filling them: here alice's order for ten units is accepted, trades five
  and is cancelled with five units open.\<close>

theorem fok_can_fill_in_part:
  "\<exists>b' x' t. submit (\<lambda>_. 0) ex_book ex_fok = Some (b', x', [t], None) \<and> o_tif ex_fok = tif_fok
     \<and> o_filled_units x' = 5 \<and> o_qty_units x' = 10 \<and> o_status x' = status_cancelled"
  using ex_fok_run by (simp add: ex_fok_def ex_order_def)

end
