(* ===== verification/Engine.thy ===== *)
theory Engine
  imports Book_Examples "HOL-Library.AList"
begin

text \<open>
  The matching engine (\<open>orderbook/book.go\<close>, \<open>Engine\<close>): the books of the listed pairs, the
  global order index, the identifier counters and the statistics. \<open>books\<close> is an association
  list with distinct keys; \<open>ListedPairs\<close> and \<open>Stats\<close> range over it in an order that, like
  Go's map iteration, means nothing. Each method is one step: identifiers come from atomic
  counters, matching runs under the book's mutex. \<open>engine_submit\<close> is one step too, although
  Go stores a resting order in its book under the book's lock and then, under another lock, in the
  order index: a cancellation that arrives between the two is told that the order is unknown.
\<close>

section \<open>State and operations\<close>

record engine =
  en_books :: "(string \<times> book) list"
  en_order_pair :: "uint64 \<rightharpoonup> string"
  en_next_order :: uint64
  en_next_trade :: uint64
  en_on_trade :: bool
  en_submitted :: uint64
  en_traded :: uint64
  en_rejected :: uint64
  en_started :: time

definition new_engine :: "time \<Rightarrow> engine" where
  "new_engine now =
     (let seed = push_bit 20 (word_of_int (now div 1000000) :: uint64)
      in \<lparr>en_books = [], en_order_pair = Map.empty, en_next_order = seed, en_next_trade = seed,
          en_on_trade = False, en_submitted = 0, en_traded = 0, en_rejected = 0, en_started = now\<rparr>)"

definition on_trade :: "engine \<Rightarrow> engine" where
  "on_trade e = e\<lparr>en_on_trade := True\<rparr>"

definition register_pair :: "pair_config \<Rightarrow> engine \<Rightarrow> engine \<times> book_error option" where
  "register_pair cfg e =
     (if pc_pair cfg = [] then (e, Some ErrPairRequired)
      else case map_of (en_books e) (pc_pair cfg) of
             Some b \<Rightarrow> (e\<lparr>en_books := AList.update (pc_pair cfg) (b\<lparr>bk_cfg := with_defaults cfg\<rparr>) (en_books e)\<rparr>, None)
           | None \<Rightarrow> (e\<lparr>en_books := AList.update (pc_pair cfg) (new_book cfg) (en_books e)\<rparr>, None))"

definition unregister_pair :: "string \<Rightarrow> engine \<Rightarrow> engine \<times> bool" where
  "unregister_pair pair e =
     (case map_of (en_books e) pair of
        None \<Rightarrow> (e, False)
      | Some _ \<Rightarrow> (e\<lparr>en_books := AList.delete pair (en_books e)\<rparr>, True))"

definition listed_pairs :: "engine \<Rightarrow> string list" where
  "listed_pairs e = map fst (en_books e)"

definition engine_book :: "string \<Rightarrow> engine \<Rightarrow> book_error + book" where
  "engine_book pair e = (case map_of (en_books e) pair of None \<Rightarrow> Inl ErrUnknownPair | Some b \<Rightarrow> Inr b)"

fun assign_trade_ids :: "uint64 \<Rightarrow> trade list \<Rightarrow> trade list \<times> uint64" where
  "assign_trade_ids n [] = ([], n)"
| "assign_trade_ids n (t # ts) =
     (case assign_trade_ids (n + 1) ts of (ts', n') \<Rightarrow> (t\<lparr>t_id := n + 1\<rparr> # ts', n'))"

text \<open>The last component lists the trades the registered callback is called with.\<close>

definition engine_submit ::
  "(nat \<Rightarrow> time) \<Rightarrow> order \<Rightarrow> engine \<Rightarrow> (engine \<times> order \<times> trade list \<times> book_error option \<times> trade list) option" where
  "engine_submit clk ord e =
     (case engine_book (o_pair ord) e of
        Inl err \<Rightarrow> Some (e\<lparr>en_rejected := en_rejected e + 1\<rparr>, ord, [], Some err, [])
      | Inr b \<Rightarrow>
          let i = en_next_order e + 1; e1 = e\<lparr>en_next_order := i\<rparr> in
          (case submit clk b (ord\<lparr>o_id := i\<rparr>) of
             None \<Rightarrow> None
           | Some (b', snapshot, trades, Some err) \<Rightarrow>
               Some (e1\<lparr>en_books := AList.update (o_pair ord) b' (en_books e),
                        en_rejected := en_rejected e + 1\<rparr>, snapshot, [], Some err, [])
           | Some (b', snapshot, trades, None) \<Rightarrow>
               (case assign_trade_ids (en_next_trade e) trades of
                  (trades', n) \<Rightarrow>
                    Some (e1\<lparr>en_books := AList.update (o_pair ord) b' (en_books e),
                             en_next_trade := n,
                             en_order_pair := (en_order_pair e)(o_id snapshot \<mapsto> o_pair snapshot),
                             en_submitted := en_submitted e + 1,
                             en_traded := en_traded e + of_nat (length trades)\<rparr>,
                          snapshot, trades', None, if en_on_trade e then trades' else []))))"

definition engine_cancel :: "time \<Rightarrow> uint64 \<Rightarrow> string \<Rightarrow> engine \<Rightarrow> engine \<times> (book_error + order)" where
  "engine_cancel now i trader e =
     (case en_order_pair e i of
        None \<Rightarrow> (e, Inl ErrUnknownOrder)
      | Some pair \<Rightarrow>
          (case engine_book pair e of
             Inl err \<Rightarrow> (e, Inl err)
           | Inr b \<Rightarrow>
               (case cancel now i trader b of
                  (b', r) \<Rightarrow> (e\<lparr>en_books := AList.update pair b' (en_books e)\<rparr>, r))))"

definition engine_get_order :: "uint64 \<Rightarrow> engine \<Rightarrow> book_error + order" where
  "engine_get_order i e =
     (case en_order_pair e i of
        None \<Rightarrow> Inl ErrUnknownOrder
      | Some pair \<Rightarrow>
          (case engine_book pair e of
             Inl err \<Rightarrow> Inl err
           | Inr b \<Rightarrow> (case get_order i b of None \<Rightarrow> Inl ErrUnknownOrder | Some x \<Rightarrow> Inr x)))"

record engine_stats =
  st_submitted :: uint64
  st_trades :: uint64
  st_rejected :: uint64
  st_listed :: nat
  st_open :: int
  st_rate :: f64
  st_update :: time

definition stats :: "time \<Rightarrow> engine \<Rightarrow> engine_stats" where
  "stats now e =
     (let elapsed = duration_seconds (now - en_started e)
      in \<lparr>st_submitted = en_submitted e, st_trades = en_traded e, st_rejected = en_rejected e,
          st_listed = length (en_books e), st_open = (\<Sum>(p, b)\<leftarrow>en_books e. bk_open b),
          st_rate = (if f64_lt f64_zero elapsed
                     then f64_div (f64_of_int (uint (en_submitted e))) elapsed else f64_zero),
          st_update = now\<rparr>)"

section \<open>The engine's invariant\<close>

text \<open>
  Every book is well-formed and the index knows every resting order, under the pair that
  holds it; every indexed identifier was issued, so none is ahead of the counter; and no two
  resting orders share an identifier. \<open>o_pair\<close> of a resting order is the pair of its book.
\<close>

definition book_ids :: "book \<Rightarrow> uint64 list" where
  "book_ids b = map o_id (flat (bk_bids b) @ flat (bk_asks b))"

definition engine_ok :: "engine \<Rightarrow> bool" where
  "engine_ok e \<longleftrightarrow> distinct (map fst (en_books e))
     \<and> (\<forall>(p, b) \<in> set (en_books e). book_ok b \<and> distinct (book_ids b)
          \<and> (\<forall>i \<in> set (book_ids b). en_order_pair e i = Some p))
     \<and> (\<forall>i \<in> dom (en_order_pair e). i \<le> en_next_order e)"

lemma engine_ok_new: "engine_ok (new_engine now)"
  by (simp add: engine_ok_def new_engine_def Let_def)

lemma set_update: "distinct (map fst al) \<Longrightarrow>
    set (AList.update k v al) = insert (k, v) {x \<in> set al. fst x \<noteq> k}"
  by (induction al) (auto simp: image_iff)

lemma engine_books_update:
  assumes "engine_ok e"
  shows "distinct (map fst (AList.update p b (en_books e)))"
    "map_of (en_books e) q = Some c \<longleftrightarrow> (q, c) \<in> set (en_books e)"
  using assms by (auto simp: engine_ok_def distinct_update)

text \<open>Replacing one book by one with the same or new, fresh identifiers.\<close>

lemma engine_ok_replace:
  assumes ok: "engine_ok e" and b: "book_ok b'" "distinct (book_ids b')"
    and ids: "\<forall>i \<in> set (book_ids b'). op i = Some p"
    and grow: "\<forall>i \<in> dom (en_order_pair e). op i = en_order_pair e i"
    and bound: "\<forall>i \<in> dom op. i \<le> en_next_order e'"
    and e': "en_books e' = AList.update p b' (en_books e)" "en_order_pair e' = op"
  shows "engine_ok e'"
proof -
  have d: "distinct (map fst (en_books e))" using ok by (simp add: engine_ok_def)
  have "book_ok c \<and> distinct (book_ids c) \<and> (\<forall>i \<in> set (book_ids c). op i = Some q)"
    if "(q, c) \<in> set (en_books e')" for q c
  proof (cases "(q, c) = (p, b')")
    case True
    with b ids show ?thesis by simp
  next
    case False
    then have "(q, c) \<in> set (en_books e)" using that e'(1) set_update [OF d, of p b'] by auto
    then have "book_ok c \<and> distinct (book_ids c) \<and> (\<forall>i \<in> set (book_ids c). en_order_pair e i = Some q)"
      using ok by (auto simp: engine_ok_def)
    moreover from this have "\<forall>i \<in> set (book_ids c). i \<in> dom (en_order_pair e)" by auto
    ultimately show ?thesis using grow by force
  qed
  then show ?thesis
    using engine_books_update(1) [OF ok, of p b'] bound e' by (auto simp: engine_ok_def)
qed

section \<open>Identifiers\<close>

lemma distinct_insert_mid:
  "distinct (us @ vs @ pre @ ws) \<Longrightarrow> i \<notin> set (us @ vs) \<Longrightarrow> i \<notin> set ws \<Longrightarrow>
    distinct ((us @ vs) @ ws) \<and> distinct ((us @ i # vs) @ ws)"
  by auto

lemma distinct_drop_mid: "distinct (us @ ys @ vs) \<Longrightarrow> distinct (us @ vs)"
  by auto

lemma consumed_ids: "consumed trader os rest trades \<Longrightarrow> \<exists>pre. map o_id os = pre @ map o_id rest"
  unfolding consumed_def by (elim disjE exE conjE) (auto simp: append_eq_append_conv2)

lemma distinct_side_ids:
  assumes "side \<in> {side_buy, side_sell}"
  shows "distinct (book_ids b) \<longleftrightarrow>
      distinct (map o_id (flat (side_for side b)) @ map o_id (flat (side_for (opposite_side side) b)))"
    "set (book_ids b) = o_id ` (set (flat (side_for side b)) \<union> set (flat (side_for (opposite_side side) b)))"
  using assms by (auto simp: book_ids_def side_for_def opposite_side_def)

text \<open>The identifiers after a submission: some of the old ones, and the order's own.\<close>

lemma submit_ids:
  assumes ok: "book_ok b" and sub: "submit clk b ord = Some (b', x', trades, None)"
    and d: "distinct (book_ids b)" "o_id ord \<notin> set (book_ids b)"
  shows "distinct (book_ids b')" "set (book_ids b') \<subseteq> insert (o_id ord) (set (book_ids b))"
    "o_id x' = o_id ord" "o_pair x' = o_pair ord"
proof -
  let ?opp = "opposite_side (o_side ord)"
  obtain o2 taker where r: "accepted_run b ord b' x' trades o2 taker"
    using submit_accepted_run [OF ok sub] by blast
  then have same: "same_order o2 taker" and fr: "fresh_order (bk_cfg b) ord o2" by (simp_all add: accepted_run_def)
  have side: "o_side ord \<in> {side_buy, side_sell}" using fr by (auto simp: fresh_order_def)
  have idx: "o_id x' = o_id ord \<and> o_pair x' = o_pair ord"
    using r same_orderD [OF same] fr by (auto simp: accepted_run_def fresh_order_def split: if_splits)
  then show "o_id x' = o_id ord" "o_pair x' = o_pair ord" by auto
  have "consumed (o_trader ord) (flat (side_for ?opp b)) (flat (side_for ?opp b')) trades"
    using r by (simp add: accepted_run_def)
  then obtain pre where pre: "map o_id (flat (side_for ?opp b)) = pre @ map o_id (flat (side_for ?opp b'))"
    using consumed_ids by blast
  have sok: "side_ok (side_for (o_side ord) b)" using ok book_ok_sides [OF side] by simp
  obtain us vs where uv: "flat (side_for (o_side ord) b) = us @ vs"
    "flat (side_for (o_side ord) b') = us @ vs \<or> flat (side_for (o_side ord) b') = us @ x' # vs"
    using r flat_rest_order [OF sok, of x']
    by (auto simp: accepted_run_def split: if_splits)
  have sets: "o_id ` set (flat (side_for ?opp b')) \<subseteq> o_id ` set (flat (side_for ?opp b))"
    using arg_cong [OF pre, of set] by auto
  show "set (book_ids b') \<subseteq> insert (o_id ord) (set (book_ids b))"
    using uv sets idx unfolding distinct_side_ids(2) [OF side] by auto
  have dd: "distinct (map o_id us @ map o_id vs @ pre @ map o_id (flat (side_for ?opp b')))"
    using d(1) uv(1) pre unfolding distinct_side_ids(1) [OF side] by simp
  have ni: "o_id ord \<notin> set (map o_id us @ map o_id vs)" "o_id ord \<notin> set (map o_id (flat (side_for ?opp b')))"
    using d(2) uv(1) sets unfolding distinct_side_ids(2) [OF side] by auto
  note distinct_insert_mid [OF dd ni]
  moreover have "map o_id (flat (side_for (o_side ord) b')) = map o_id us @ map o_id vs
      \<or> map o_id (flat (side_for (o_side ord) b')) = map o_id us @ o_id ord # map o_id vs"
    using uv(2) idx by auto
  ultimately show "distinct (book_ids b')"
    unfolding distinct_side_ids(1) [OF side] by (elim disjE) simp_all
qed

lemma cancel_ids:
  assumes ok: "book_ok b" and c: "cancel now i trader b = (b', r)"
  shows "book_ok b'" "distinct (book_ids b) \<Longrightarrow> distinct (book_ids b')" "set (book_ids b') \<subseteq> set (book_ids b)"
proof -
  have "book_ok b' \<and> (\<exists>us ys vs. flat (bk_bids b) @ flat (bk_asks b) = us @ ys @ vs
      \<and> flat (bk_bids b') @ flat (bk_asks b') = us @ vs)"
  proof (cases r)
    case (Inl e)
    with c cancel_refused ok show ?thesis by (metis append_Nil)
  next
    case (Inr x')
    with c cancel_effect [OF ok, of now i trader b' x'] show ?thesis
      by (metis append_Cons append_Nil)
  qed
  then obtain us ys vs where "book_ok b'" "flat (bk_bids b) @ flat (bk_asks b) = us @ ys @ vs"
    "flat (bk_bids b') @ flat (bk_asks b') = us @ vs" by blast
  moreover from this have "book_ids b = map o_id us @ map o_id ys @ map o_id vs" "book_ids b' = map o_id us @ map o_id vs"
    by (simp_all only: book_ids_def map_append)
  ultimately show "book_ok b'" "distinct (book_ids b) \<Longrightarrow> distinct (book_ids b')" "set (book_ids b') \<subseteq> set (book_ids b)"
    using distinct_drop_mid [of "map o_id us" "map o_id ys" "map o_id vs"] by auto
qed

end
