(* ===== verification/Engine_Props.thy ===== *)
theory Engine_Props
  imports Engine
begin

text \<open>
  The engine as a transition system: its steps, the reachable states, the invariant
  \<open>engine_ok\<close> by rule induction, and what it gives the callers (every resting order can be
  found and cancelled by its owner; identifiers are fresh). Trade identifiers are assigned to
  the returned copies only, so the tape keeps zero for all of them.
\<close>

section \<open>Submission and cancellation keep the invariant\<close>

lemma engine_ok_bookD:
  assumes "engine_ok e" and "engine_book p e = Inr b"
  shows "book_ok b" "distinct (book_ids b)" "\<And>i. i \<in> set (book_ids b) \<Longrightarrow> en_order_pair e i = Some p"
    "(p, b) \<in> set (en_books e)"
proof -
  show m: "(p, b) \<in> set (en_books e)" using assms(2) by (auto simp: engine_book_def split: option.splits dest: map_of_SomeD)
  from assms(1) m show "book_ok b" "distinct (book_ids b)" "\<And>i. i \<in> set (book_ids b) \<Longrightarrow> en_order_pair e i = Some p"
    by (auto simp: engine_ok_def)
qed

lemma engine_ok_bound:
  assumes "engine_ok e" and "i \<in> dom (en_order_pair e)"
  shows "i \<le> en_next_order e"
  using assms by (auto simp: engine_ok_def)

lemma next_id:
  fixes n :: uint64
  assumes "n \<noteq> - 1"
  shows "i \<le> n \<Longrightarrow> i < n + 1" "i \<le> n \<Longrightarrow> i \<le> n + 1" "n < n + 1"
proof -
  have "1 + n \<noteq> 0" using assms by (metis add.commute eq_neg_iff_add_eq_0)
  then have "n < n + 1" using unatSuc [of n] by (simp add: word_less_nat_alt add.commute)
  then show "i \<le> n \<Longrightarrow> i < n + 1" "i \<le> n \<Longrightarrow> i \<le> n + 1" "n < n + 1" by auto
qed

text \<open>The shape of a submission that reached a book.\<close>

lemma engine_submit_cases:
  assumes "engine_submit clk ord e = Some (e', x', trades, err, calls)"
  obtains (unlisted) f where "engine_book (o_pair ord) e = Inl f" "err = Some f" "trades = []" "x' = ord"
      "e' = e\<lparr>en_rejected := en_rejected e + 1\<rparr>"
  | (rejected) b b' f where "engine_book (o_pair ord) e = Inr b" "err = Some f" "trades = []"
      "submit clk b (ord\<lparr>o_id := en_next_order e + 1\<rparr>) = Some (b', x', [], Some f)"
      "e' = e\<lparr>en_next_order := en_next_order e + 1, en_books := AList.update (o_pair ord) b' (en_books e),
              en_rejected := en_rejected e + 1\<rparr>"
  | (accepted) b b' ts n where "engine_book (o_pair ord) e = Inr b" "err = None"
      "submit clk b (ord\<lparr>o_id := en_next_order e + 1\<rparr>) = Some (b', x', ts, None)"
      "assign_trade_ids (en_next_trade e) ts = (trades, n)"
      "e' = e\<lparr>en_next_order := en_next_order e + 1, en_books := AList.update (o_pair ord) b' (en_books e),
              en_next_trade := n, en_order_pair := (en_order_pair e)(o_id x' \<mapsto> o_pair x'),
              en_submitted := en_submitted e + 1, en_traded := en_traded e + of_nat (length ts)\<rparr>"
proof -
  consider (l) f where "engine_book (o_pair ord) e = Inl f" | (r) b where "engine_book (o_pair ord) e = Inr b"
    by (cases "engine_book (o_pair ord) e") auto
  then show ?thesis
  proof cases
    case l
    with assms show ?thesis by (intro unlisted) (auto simp: engine_submit_def)
  next
    case r
    then obtain b' y ts f where s: "submit clk b (ord\<lparr>o_id := en_next_order e + 1\<rparr>) = Some (b', y, ts, f)"
      using assms by (auto simp: engine_submit_def Let_def split: option.splits)
    show ?thesis
    proof (cases f)
      case None
      obtain ts' n where a: "assign_trade_ids (en_next_trade e) ts = (ts', n)" by fastforce
      from r s None a assms show ?thesis by (intro accepted [of b b' ts n]) (auto simp: engine_submit_def Let_def)
    next
      case (Some g)
      with s have "ts = []" by (auto elim: submit_outcome)
      with r s Some assms show ?thesis by (intro rejected [of b g b']) (auto simp: engine_submit_def Let_def)
    qed
  qed
qed

lemma engine_ok_submit:
  assumes ok: "engine_ok e" and sub: "engine_submit clk ord e = Some (e', x', trades, err, calls)"
    and room: "en_next_order e \<noteq> - 1"
  shows "engine_ok e'"
  using sub
proof (cases rule: engine_submit_cases)
  case unlisted
  with ok show ?thesis by (simp add: engine_ok_def)
next
  case (rejected b b' f)
  have "b' = b" using rejected(4) by (cases rule: submit_outcome) auto
  with rejected engine_ok_bookD [OF ok rejected(1)] show ?thesis
    by (intro engine_ok_replace [OF ok, where op = "en_order_pair e" and p = "o_pair ord" and b' = b])
       (auto intro: next_id(2) [OF room] engine_ok_bound [OF ok])
next
  case (accepted b b' ts n)
  note bk = engine_ok_bookD [OF ok accepted(1)]
  let ?i = "en_next_order e + 1"
  have "\<And>i. i \<in> dom (en_order_pair e) \<Longrightarrow> i \<noteq> ?i"
    using engine_ok_bound [OF ok] next_id(1) [OF room] by fastforce
  then have fresh: "?i \<notin> dom (en_order_pair e)" "?i \<notin> set (book_ids b)" using bk(3) by blast+
  note ids = submit_ids [OF bk(1) accepted(3) bk(2), simplified, OF fresh(2)]
  have okb: "book_ok b'" using submit_accepted_run [OF bk(1) accepted(3)] by (auto simp: accepted_run_def)
  show ?thesis
  proof (rule engine_ok_replace [OF ok okb ids(1), where op = "(en_order_pair e)(?i \<mapsto> o_pair ord)"])
    show "\<forall>i\<in>set (book_ids b'). ((en_order_pair e)(?i \<mapsto> o_pair ord)) i = Some (o_pair ord)"
      using ids(2) bk(3) by auto
    show "\<forall>i\<in>dom (en_order_pair e). ((en_order_pair e)(?i \<mapsto> o_pair ord)) i = en_order_pair e i"
      using fresh(1) by auto
    show "\<forall>i\<in>dom ((en_order_pair e)(?i \<mapsto> o_pair ord)). i \<le> en_next_order e'"
      using accepted(5) engine_ok_bound [OF ok] next_id(2) [OF room] by auto
  qed (use accepted(5) ids(3,4) in simp_all)
qed

lemma engine_ok_cancel:
  assumes ok: "engine_ok e" and c: "engine_cancel now i trader e = (e', r)"
  shows "engine_ok e'"
proof (cases "\<exists>p b. en_order_pair e i = Some p \<and> engine_book p e = Inr b")
  case False
  then have "e' = e" using c by (auto simp: engine_cancel_def split: option.splits sum.splits)
  with ok show ?thesis by simp
next
  case True
  then obtain p b b' where pb: "en_order_pair e i = Some p" "engine_book p e = Inr b"
    and cb: "cancel now i trader b = (b', r)" "e' = e\<lparr>en_books := AList.update p b' (en_books e)\<rparr>"
    using c by (auto simp: engine_cancel_def split: prod.splits)
  note bk = engine_ok_bookD [OF ok pb(2)]
  note cc = cancel_ids [OF bk(1) cb(1)]
  show ?thesis
    by (rule engine_ok_replace [OF ok cc(1) cc(2) [OF bk(2)], where op = "en_order_pair e" and p = p])
       (use cc(3) bk(3) cb(2) engine_ok_bound [OF ok] in auto)
qed

lemma book_ok_cfg [simp]: "book_ok (b\<lparr>bk_cfg := c\<rparr>) = book_ok b" "book_ids (b\<lparr>bk_cfg := c\<rparr>) = book_ids b"
  by (simp_all add: book_ok_def uncrossed_def book_ids_def)

lemma engine_ok_register:
  assumes ok: "engine_ok e"
  shows "engine_ok (fst (register_pair cfg e))"
proof (cases "map_of (en_books e) (pc_pair cfg)")
  case None
  have "book_ok (new_book cfg)" "book_ids (new_book cfg) = []"
    using book_ok_new by (simp_all add: book_ids_def new_book_def new_side_book_def flat_def)
  then have "engine_ok (e\<lparr>en_books := AList.update (pc_pair cfg) (new_book cfg) (en_books e)\<rparr>)"
    using engine_ok_bound [OF ok]
    by (intro engine_ok_replace [OF ok, where op = "en_order_pair e" and p = "pc_pair cfg" and b' = "new_book cfg"]) auto
  with None ok show ?thesis by (simp add: register_pair_def)
next
  case (Some b)
  then have "engine_book (pc_pair cfg) e = Inr b" by (simp add: engine_book_def)
  note bk = engine_ok_bookD [OF ok this]
  let ?b = "b\<lparr>bk_cfg := with_defaults cfg\<rparr>"
  have "engine_ok (e\<lparr>en_books := AList.update (pc_pair cfg) ?b (en_books e)\<rparr>)"
    using bk engine_ok_bound [OF ok]
    by (intro engine_ok_replace [OF ok, where op = "en_order_pair e" and p = "pc_pair cfg" and b' = ?b]) auto
  with Some ok show ?thesis by (simp add: register_pair_def)
qed

lemma engine_ok_unregister: "engine_ok e \<Longrightarrow> engine_ok (fst (unregister_pair pair e))"
  by (auto simp: unregister_pair_def engine_ok_def AList.delete_eq intro: distinct_map_filter split: option.splits)

section \<open>Steps and reachable states\<close>

text \<open>
  Every call a client can make. The premise of a submission says that the order counter has
  not reached its last value: ids are 64-bit words and the seed leaves \<open>2^63\<close> of them.
\<close>

inductive engine_step :: "engine \<Rightarrow> engine \<Rightarrow> bool" where
  step_register: "register_pair cfg e = (e', r) \<Longrightarrow> engine_step e e'"
| step_unregister: "unregister_pair pair e = (e', listed) \<Longrightarrow> engine_step e e'"
| step_submit: "en_next_order e \<noteq> - 1 \<Longrightarrow> engine_submit clk ord e = Some (e', x', trades, err, calls) \<Longrightarrow> engine_step e e'"
| step_cancel: "engine_cancel now i trader e = (e', c) \<Longrightarrow> engine_step e e'"
| step_on_trade: "engine_step e (on_trade e)"

inductive reachable :: "engine \<Rightarrow> bool" where
  start: "reachable (new_engine now)"
| step: "reachable e \<Longrightarrow> engine_step e e' \<Longrightarrow> reachable e'"

inductive_cases engine_stepE: "engine_step e e'"
inductive_simps reachable_unfold: "reachable e"

lemma engine_ok_step: "engine_step e e' \<Longrightarrow> engine_ok e \<Longrightarrow> engine_ok e'"
proof (induction rule: engine_step.induct)
  case (step_register cfg e e' r)
  with engine_ok_register [of e cfg] show ?case by simp
next
  case (step_unregister pair e e' listed)
  with engine_ok_unregister [of e pair] show ?case by simp
next
  case (step_on_trade e)
  then show ?case by (simp add: on_trade_def engine_ok_def)
qed (auto intro: engine_ok_submit engine_ok_cancel)

lemma engine_ok_reachable: "reachable e \<Longrightarrow> engine_ok e"
  by (induction rule: reachable.induct) (auto intro: engine_ok_new engine_ok_step)

section \<open>Identifiers of orders and trades\<close>

lemma assign_trade_ids_spec:
  "assign_trade_ids n ts = (ts', m) \<Longrightarrow>
     map t_id ts' = map (\<lambda>k. n + of_nat (Suc k)) [0..<length ts]
     \<and> map (t_id_update (\<lambda>_. 0)) ts' = map (t_id_update (\<lambda>_. 0)) ts \<and> m = n + of_nat (length ts)"
proof (induction n ts arbitrary: ts' m rule: assign_trade_ids.induct)
  case (2 n t ts)
  obtain us k where r: "assign_trade_ids (n + 1) ts = (us, k)" by fastforce
  have "map (\<lambda>k. n + of_nat (Suc k)) [0..<length (t # ts)] = (n + 1) # map (\<lambda>k. n + 1 + of_nat (Suc k)) [0..<length ts]"
    by (simp add: upt_conv_Cons map_Suc_upt [symmetric] add_ac del: upt_Suc map_Suc_upt)
  with 2 r show ?case by (auto simp: add_ac)
qed simp

text \<open>What is on the tapes.\<close>

definition tape_zero :: "tape \<Rightarrow> bool" where
  "tape_zero tp \<longleftrightarrow> tp_buf tp \<noteq> [] \<and> (\<forall>t \<in> set (tp_buf tp). t_id t = 0)"

definition tapes_zero :: "engine \<Rightarrow> bool" where
  "tapes_zero e \<longleftrightarrow> (\<forall>(p, b) \<in> set (en_books e). tape_zero (bk_tape b))"

lemma tape_zero_push: "tape_zero tp \<Longrightarrow> t_id t = 0 \<Longrightarrow> tape_zero (push_trade t tp)"
  by (auto simp: tape_zero_def push_trade_def dest!: set_mp [OF set_update_subset_insert])

lemma tape_zero_pushes: "tape_zero tp \<Longrightarrow> \<forall>t \<in> set ts. t_id t = 0 \<Longrightarrow> tape_zero (fold push_trade ts tp)"
  by (induction ts arbitrary: tp) (auto simp: tape_zero_push)

lemma tape_zero_read: "tape_zero tp \<Longrightarrow> t \<in> set (tape_trades limit tp) \<Longrightarrow> t_id t = 0"
proof -
  have "buf \<noteq> [] \<Longrightarrow> set (read_ring buf start n) \<subseteq> set buf" for buf :: "trade list" and start n
    by (induction buf start n rule: read_ring.induct) auto
  then show "tape_zero tp \<Longrightarrow> t \<in> set (tape_trades limit tp) \<Longrightarrow> t_id t = 0"
    by (auto simp: tape_zero_def tape_trades_def Let_def) blast
qed

lemma tapes_zero_replace:
  assumes "tapes_zero e" "engine_ok e" "tape_zero (bk_tape b)"
    and "en_books e' = AList.update p b (en_books e)"
  shows "tapes_zero e'"
proof -
  have d: "distinct (map fst (en_books e))" using assms(2) by (simp add: engine_ok_def)
  show ?thesis using assms(1,3,4) by (auto simp: tapes_zero_def set_update [OF d])
qed

lemma tapes_zero_update:
  "tapes_zero e \<Longrightarrow> engine_ok e \<Longrightarrow> tape_zero (bk_tape b) \<Longrightarrow>
    tapes_zero (e\<lparr>en_books := AList.update p b (en_books e)\<rparr>)"
  by (rule tapes_zero_replace) simp_all

lemma tapes_zeroD: "tapes_zero e \<Longrightarrow> engine_book p e = Inr b \<Longrightarrow> tape_zero (bk_tape b)"
  by (auto simp: tapes_zero_def engine_book_def split: option.splits dest!: map_of_SomeD)

lemma tapes_zero_submit:
  assumes "engine_ok e" "tapes_zero e" "engine_submit clk ord e = Some (e', x', trades, err, calls)"
  shows "tapes_zero e'"
  using assms(3)
proof (cases rule: engine_submit_cases)
  case (rejected b b' f)
  then have "b' = b" by (auto elim: submit_outcome)
  with rejected tapes_zeroD [OF assms(2)] show ?thesis by (intro tapes_zero_replace [OF assms(2,1)]) auto
next
  case (accepted b b' ts n)
  have "bk_tape b' = fold push_trade ts (bk_tape b)" "\<forall>t \<in> set ts. t_id t = 0"
    using submit_accepted_run [OF engine_ok_bookD(1) [OF assms(1) accepted(1)] accepted(3)]
    by (auto simp: accepted_run_def fair_trade_def)
  with accepted tapes_zeroD [OF assms(2)] tape_zero_pushes show ?thesis
    by (intro tapes_zero_replace [OF assms(2,1)]) auto
qed (use assms(2) in \<open>simp add: tapes_zero_def\<close>)

lemma cancel_tape: "cancel now i trader b = (b', r) \<Longrightarrow> bk_tape b' = bk_tape b"
  by (auto simp: cancel_def cancel_on_def set_side_def Let_def split: option.splits if_splits prod.splits)

lemma tapes_zero_step: "engine_step e e' \<Longrightarrow> engine_ok e \<Longrightarrow> tapes_zero e \<Longrightarrow> tapes_zero e'"
proof (induction rule: engine_step.induct)
  case (step_register cfg e e' r)
  have "tape_zero new_tape" by (simp add: tape_zero_def new_tape_def zero_trade_def default_trade_history_def)
  moreover have "map_of (en_books e) (pc_pair cfg) = Some b \<Longrightarrow> tape_zero (bk_tape b)" for b
    using tapes_zeroD [OF step_register.prems(2), of "pc_pair cfg" b] by (simp add: engine_book_def)
  ultimately show ?case using step_register
    by (auto simp: register_pair_def new_book_def split: if_splits option.splits
        intro!: tapes_zero_update)
next
  case (step_unregister pair e e' listed)
  then show ?case by (auto simp: unregister_pair_def tapes_zero_def AList.delete_eq split: option.splits)
next
  case (step_submit e clk ord e' x' trades err calls)
  then show ?case by (blast intro: tapes_zero_submit)
next
  case (step_cancel now i trader e e' c)
  then show ?case using tapes_zeroD [OF step_cancel.prems(2)]
    by (auto simp: engine_cancel_def split: option.splits sum.splits prod.splits intro!: tapes_zero_update)
      (metis cancel_tape)
qed (simp add: on_trade_def tapes_zero_def)

lemma tapes_zero_reachable: "reachable e \<Longrightarrow> tapes_zero e"
proof (induction rule: reachable.induct)
  case (start now)
  then show ?case by (simp add: new_engine_def tapes_zero_def Let_def)
next
  case (step e e')
  with engine_ok_reachable tapes_zero_step show ?case by blast
qed

section \<open>Looking up and cancelling a resting order\<close>

lemma get_order_resting:
  assumes "distinct (book_ids b)" "x \<in> set (flat (bk_bids b) @ flat (bk_asks b))"
  shows "get_order (o_id x) b = Some x"
proof -
  have uniq: "y = x" if "y \<in> set (flat (bk_bids b) @ flat (bk_asks b))" "o_id y = o_id x" for y
  proof -
    have "distinct (map o_id (flat (bk_bids b) @ flat (bk_asks b)))" using assms(1) by (simp add: book_ids_def)
    with that assms(2) show ?thesis by (metis distinct_map inj_on_contraD)
  qed
  show ?thesis
  proof (cases "find_in_levels (o_id x) (sb_levels (bk_bids b))")
    case None
    then have "x \<in> set (flat (bk_asks b))" using assms(2) by (auto simp: find_in_levels_None flat_def)
    then have "find_in_levels (o_id x) (sb_levels (bk_asks b)) \<noteq> None" by (auto simp: find_in_levels_None flat_def)
    then obtain l y where f: "find_in_levels (o_id x) (sb_levels (bk_asks b)) = Some (l, y)" by auto
    then have "y \<in> set (flat (bk_asks b))" "o_id y = o_id x" by (auto elim!: find_in_levels_split simp: flat_def)
    with uniq [of y] None f show ?thesis by (simp add: get_order_def)
  next
    case (Some p)
    then obtain l y where f: "find_in_levels (o_id x) (sb_levels (bk_bids b)) = Some (l, y)" by (cases p) auto
    then have "y \<in> set (flat (bk_bids b))" "o_id y = o_id x" by (auto elim!: find_in_levels_split simp: flat_def)
    with uniq [of y] f show ?thesis by (simp add: get_order_def)
  qed
qed

lemma get_order_None: "get_order i b = None \<longleftrightarrow> i \<notin> set (book_ids b)"
  using find_in_levels_None [of i "sb_levels (bk_bids b)"] find_in_levels_None [of i "sb_levels (bk_asks b)"]
  by (cases "find_in_levels i (sb_levels (bk_bids b))")
     (auto simp: get_order_def book_ids_def flat_def simp del: find_in_levels.simps split: option.splits)

lemma cancel_decides:
  assumes "get_order i b = Some x"
  shows "o_trader x = trader \<Longrightarrow> \<exists>b' x'. cancel now i trader b = (b', Inr x')"
    "o_trader x \<noteq> trader \<Longrightarrow> cancel now i trader b = (b, Inl ErrNotOwner)"
  using assms by (auto simp: get_order_def cancel_def split: option.splits prod.splits)


section \<open>The engine's claims\<close>

text \<open>C6: in every reachable state of the engine each listed book is well-formed, its resting orders
  have pairwise different identifiers, the index maps each of them to the pair of that book, and no
  identifier is ahead of the counter, so the next one is fresh.\<close>

theorem reachable_engine_is_consistent:
  assumes "reachable e" and "engine_book p e = Inr b"
  shows "book_ok b \<and> distinct (book_ids b)
    \<and> (\<forall>x \<in> set (flat (bk_bids b) @ flat (bk_asks b)). en_order_pair e (o_id x) = Some p \<and> o_id x \<le> en_next_order e)"
proof -
  note ok = engine_ok_reachable [OF assms(1)]
  note bk = engine_ok_bookD [OF ok assms(2)]
  have "en_order_pair e (o_id x) = Some p \<and> o_id x \<le> en_next_order e"
    if "x \<in> set (flat (bk_bids b) @ flat (bk_asks b))" for x
  proof -
    from that have "o_id x \<in> set (book_ids b)" by (auto simp: book_ids_def)
    with bk(3) have "en_order_pair e (o_id x) = Some p" by blast
    then show ?thesis using engine_ok_bound [OF ok] by blast
  qed
  with bk show ?thesis by blast
qed

lemma resting_order_lookup_and_cancel:
  assumes "reachable e" and "engine_book p e = Inr b" and "x \<in> set (flat (bk_bids b) @ flat (bk_asks b))"
  shows "engine_get_order (o_id x) e = Inr x
    \<and> (\<exists>e' x'. engine_cancel now (o_id x) (o_trader x) e = (e', Inr x') \<and> o_id x' = o_id x
         \<and> o_status x' = status_cancelled \<and> engine_get_order (o_id x) e' = Inl ErrUnknownOrder)
    \<and> (\<forall>t. t \<noteq> o_trader x \<longrightarrow> engine_cancel now (o_id x) t e = (e, Inl ErrNotOwner))"
proof (intro conjI)
  note ok = engine_ok_reachable [OF assms(1)]
  note bk = engine_ok_bookD [OF ok assms(2)]
  from assms(3) have idx: "o_id x \<in> set (book_ids b)" by (auto simp: book_ids_def)
  note ix = bk(3) [OF this]
  note g = get_order_resting [OF bk(2) assms(3)]
  show "engine_get_order (o_id x) e = Inr x" using ix assms(2) g by (simp add: engine_get_order_def)
  have m: "map_of (en_books e) p = Some b" using assms(2) by (auto simp: engine_book_def split: option.splits)
  show "\<forall>t. t \<noteq> o_trader x \<longrightarrow> engine_cancel now (o_id x) t e = (e, Inl ErrNotOwner)"
    using ix assms(2) cancel_decides(2) [OF g] update_triv [OF m] by (auto simp: engine_cancel_def)
  obtain b' x' where c: "cancel now (o_id x) (o_trader x) b = (b', Inr x')"
    using cancel_decides(1) [OF g refl] by blast
  let ?e = "e\<lparr>en_books := AList.update p b' (en_books e)\<rparr>"
  note ce = cancel_effect [OF bk(1) c]
  then obtain us y vs where uv: "flat (bk_bids b) @ flat (bk_asks b) = us @ y # vs" "o_id y = o_id x"
    "flat (bk_bids b') @ flat (bk_asks b') = us @ vs" by blast
  have "book_ids b = map o_id us @ o_id x # map o_id vs" "book_ids b' = map o_id us @ map o_id vs"
    using uv(2) arg_cong [OF uv(1), of "map o_id"] arg_cong [OF uv(3), of "map o_id"]
    by (simp_all add: book_ids_def)
  then have "o_id x \<notin> set (book_ids b')" using bk(2) by auto
  then have "get_order (o_id x) b' = None" by (simp add: get_order_None)
  then have "engine_get_order (o_id x) ?e = Inl ErrUnknownOrder"
    using ix by (simp add: engine_get_order_def engine_book_def update_conv)
  moreover have "engine_cancel now (o_id x) (o_trader x) e = (?e, Inr x')"
    using ix assms(2) c by (simp add: engine_cancel_def)
  ultimately show "\<exists>e' x'. engine_cancel now (o_id x) (o_trader x) e = (e', Inr x') \<and> o_id x' = o_id x
         \<and> o_status x' = status_cancelled \<and> engine_get_order (o_id x) e' = Inl ErrUnknownOrder"
    using ce by blast
qed

text \<open>C7: every resting order of a reachable engine can be looked up by its identifier; its owner can
  cancel it, after which the lookup fails; and a cancel by anybody else is refused and leaves the
  engine as it was.\<close>

theorem resting_order_can_be_cancelled_by_owner_only:
  assumes "reachable e" and "engine_book p e = Inr b" and "x \<in> set (flat (bk_bids b) @ flat (bk_asks b))"
  shows "engine_get_order (o_id x) e = Inr x
    \<and> (\<exists>e' x'. engine_cancel now (o_id x) (o_trader x) e = (e', Inr x') \<and> o_id x' = o_id x
         \<and> o_status x' = status_cancelled \<and> engine_get_order (o_id x) e' = Inl ErrUnknownOrder)
    \<and> (\<forall>t. t \<noteq> o_trader x \<longrightarrow> engine_cancel now (o_id x) t e = (e, Inl ErrNotOwner))"
  using resting_order_lookup_and_cancel [OF assms] .

text \<open>The trades a submission returns carry consecutive identifiers that start right after the
  engine's counter, and the counter moves past them.\<close>

theorem submitted_trades_get_consecutive_ids:
  assumes "engine_submit clk ord e = Some (e', x', trades, None, calls)"
  shows "map t_id trades = map (\<lambda>k. en_next_trade e + of_nat (Suc k)) [0..<length trades]
    \<and> en_next_trade e' = en_next_trade e + of_nat (length trades)
    \<and> en_traded e' = en_traded e + of_nat (length trades) \<and> (calls = [] \<or> calls = trades)"
  using assms
proof (cases rule: engine_submit_cases)
  case (accepted b b' ts n)
  note a = assign_trade_ids_spec [OF accepted(4)]
  then have "length trades = length ts" by (metis length_map length_upt minus_nat.diff_0)
  with a accepted assms show ?thesis by (auto simp: engine_submit_def Let_def)
qed auto

text \<open>The tape never learns those identifiers. They are written to the copies that are
  returned, after \<open>pushTrade\<close> has stored its own: in every reachable state, each trade read
  from a book's tape has the identifier zero.\<close>

theorem tape_trades_have_no_id:
  assumes "reachable e" and "engine_book p e = Inr b" and "t \<in> set (book_trades limit b)"
  shows "t_id t = 0"
  using tape_zero_read [OF tapes_zeroD [OF tapes_zero_reachable [OF assms(1)] assms(2)]] assms(3)
  by (simp add: book_trades_def)

end
