(* ===== verification/Engine_Examples.thy ===== *)
theory Engine_Examples
  imports Engine_Props
begin

text \<open>
  A concrete run of the engine: a pair is listed, bob rests an ask and alice takes it. The
  witnesses of the engine's claims are stated at the states of this run.
\<close>

definition eg_listed :: engine where
  "eg_listed = fst (register_pair (ex_cfg\<lparr>pc_min_quantity := Fin False 0\<rparr>) (new_engine 0))"

definition eg_ask :: order where
  "eg_ask = ex_order 0 ''bob'' side_sell type_limit tif_gtc 10 5"

definition eg_buy :: order where
  "eg_buy = ex_order 0 ''alice'' side_buy type_market [] 0 5"

lemma tif_ne [simp]: "tif_gtc \<noteq> []" "tif_ioc \<noteq> []"
  by (simp_all add: book_strings)

lemma reachable_listed: "reachable eg_listed"
  unfolding eg_listed_def
  by (rule reachable.step [OF reachable.start engine_step.step_register]) (rule surjective_pairing)

lemma eg_listed_simps:
  "engine_book ''TGR-USDC'' eg_listed = Inr (new_book ex_cfg)" "en_next_order eg_listed = 0"
  "en_books eg_listed = [(''TGR-USDC'', new_book ex_cfg)]" "en_next_trade eg_listed = 0"
  by (simp_all add: eg_listed_def register_pair_def ex_cfg_def new_engine_def Let_def engine_book_def)

lemma new_ex_cfg [simp]: "bk_cfg (new_book ex_cfg) = ex_cfg"
  by (simp add: new_book_def with_defaults_def ex_cfg_def)

definition eg_resting :: order where
  "eg_resting = sync_public ex_cfg (eg_ask\<lparr>o_id := 1, o_qty_units := 5, o_filled_units := 0, o_price_ticks := 10\<rparr>)"

definition eg_book1 :: book where
  "eg_book1 = (new_book ex_cfg)\<lparr>bk_asks := \<lparr>sb_side = side_sell,
     sb_levels = [\<lparr>lv_price = 10, lv_orders = [eg_resting], lv_total = 5\<rparr>], sb_index = {10}\<rparr>, bk_open := 1\<rparr>"

lemma ask_valid: "validate ex_cfg (eg_ask\<lparr>o_id := 1\<rparr>) =
    (eg_ask\<lparr>o_id := 1, o_qty_units := 5, o_filled_units := 0, o_price_ticks := 10\<rparr>, None)"
  by (simp add: validate_def eg_ask_def ex_order_def)

lemma eg_resting_simps: "o_trader eg_resting = ''bob''" "leaves_units eg_resting = 5" "o_id eg_resting = 1"
  "o_price_ticks eg_resting = 10" "o_filled_units eg_resting = 0" "o_qty_units eg_resting = 5"
  by (simp_all add: eg_resting_def sync_public_def Let_def eg_ask_def ex_order_def leaves_units_def sub64_def
      status_cancelled_def status_rejected_def)

lemma ask_rests: "submit (\<lambda>_. 0) (new_book ex_cfg) (eg_ask\<lparr>o_id := 1\<rparr>) = Some (eg_book1, eg_resting, [], None)"
proof -
  let ?o = "eg_ask\<lparr>o_id := 1, o_qty_units := 5, o_filled_units := 0, o_price_ticks := 10\<rparr>"
  have c: "?o\<lparr>o_created := 0, o_updated := 0\<rparr> = ?o" by (simp add: eg_ask_def ex_order_def)
  have m: "match_book (\<lambda>_. 0) (new_book ex_cfg) ?o = Some (new_book ex_cfg, ?o, [])"
    apply (simp add: eg_ask_def ex_order_def match_book_def opposite_side_def side_for_def Let_def)
    apply (subst match_loop.simps)
    apply (simp add: new_book_def new_side_book_def set_side_def)
    done
  have f: "leaves_units ?o = 5" "o_type ?o = type_limit" "o_tif ?o = tif_gtc" "o_side ?o = side_sell"
    by (simp_all add: eg_ask_def ex_order_def leaves_units_def sub64_def)
  have r: "rest_order eg_resting (side_for side_sell (new_book ex_cfg)) = bk_asks eg_book1"
    by (simp add: rest_order_def eg_resting_simps insert_level_def side_for_def new_book_def new_side_book_def
        bin_search.simps insert_at_def update_level_def level_add_def add64_def eg_book1_def)
  show ?thesis
    using m f r unfolding submit_def by (simp add: ask_valid c eg_resting_def [symmetric] Let_def)
      (simp add: set_side_def eg_book1_def new_book_def)
qed

definition eg_resting_engine :: engine where
  "eg_resting_engine = eg_listed\<lparr>en_next_order := 1, en_books := [(''TGR-USDC'', eg_book1)],
     en_order_pair := [1 \<mapsto> ''TGR-USDC''], en_submitted := 1\<rparr>"

lemma eg_pair [simp]: "o_pair eg_ask = ''TGR-USDC''" "o_pair eg_buy = ''TGR-USDC''" "o_pair eg_resting = ''TGR-USDC''"
  by (simp_all add: eg_ask_def eg_buy_def ex_order_def eg_resting_def sync_public_def Let_def)

lemma eg_submit_ask:
  "engine_submit (\<lambda>_. 0) eg_ask eg_listed = Some (eg_resting_engine, eg_resting, [], None, [])"
  apply (simp add: engine_submit_def eg_listed_simps ask_rests Let_def eg_resting_simps)
  apply (simp add: eg_resting_engine_def eg_listed_def register_pair_def ex_cfg_def new_engine_def Let_def)
  done

lemma reachable_resting: "reachable eg_resting_engine"
  by (rule reachable.step [OF reachable_listed engine_step.step_submit [OF _ eg_submit_ask]])
     (simp add: eg_listed_simps)

lemma eg_resting_book: "engine_book ''TGR-USDC'' eg_resting_engine = Inr eg_book1"
  by (simp add: eg_resting_engine_def engine_book_def)

lemma eg_flat: "flat (bk_bids eg_book1) = []" "flat (bk_asks eg_book1) = [eg_resting]"
  by (simp_all add: eg_book1_def new_book_def new_side_book_def flat_def)

section \<open>The take\<close>

definition eg_taker :: order where
  "eg_taker = eg_buy\<lparr>o_id := 2, o_tif := tif_ioc, o_qty_units := 5, o_filled_units := 0, o_price_ticks := 0\<rparr>"

lemma buy_valid: "validate ex_cfg (eg_buy\<lparr>o_id := 2\<rparr>) = (eg_taker, None)"
  by (simp add: validate_def eg_taker_def eg_buy_def ex_order_def)

lemma eg_taker_simps: "o_side eg_taker = side_buy" "o_type eg_taker = type_market" "o_tif eg_taker = tif_ioc"
  "leaves_units eg_taker = 5" "o_trader eg_taker = ''alice''" "o_filled_units eg_taker = 0"
  by (simp_all add: eg_taker_def eg_buy_def ex_order_def leaves_units_def sub64_def)

lemma eg_take:
  assumes "r = fill_order clk cfg 10 eg_resting 5 \<lparr>ms_taker = eg_taker, ms_trades = [], ms_open = n, ms_tape = tp\<rparr>"
  shows "fst r = None" "leaves_units (ms_taker (snd r)) = 0" "o_type (ms_taker (snd r)) = type_market"
    "\<exists>t. ms_trades (snd r) = [t] \<and> ms_tape (snd r) = push_trade t tp"
proof -
  have z: "leaves_units (eg_resting\<lparr>o_filled_units := add64 (o_filled_units eg_resting) 5, o_updated := u\<rparr>) = 0" for u
    by (simp add: leaves_units_def eg_resting_simps add64_def sub64_def)
  show "fst r = None" using z by (simp add: assms fill_order_def Let_def)
  show "leaves_units (ms_taker (snd r)) = 0"
    using leaves_fill [of 5 eg_taker] by (simp add: assms eg_taker_simps)
  show "o_type (ms_taker (snd r)) = type_market" by (simp add: assms eg_taker_simps)
  show "\<exists>t. ms_trades (snd r) = [t] \<and> ms_tape (snd r) = push_trade t tp"
    by (simp add: assms fill_order_trades fill_order_tape)
qed

lemma eg_level: "match_level clk cfg s \<lparr>lv_price = 10, lv_orders = [eg_resting], lv_total = 5\<rparr>
   \<lparr>ms_taker = eg_taker, ms_trades = [], ms_open = n, ms_tape = tp\<rparr> =
   (s, \<lparr>lv_price = 10, lv_orders = [], lv_total = 0\<rparr>,
    snd (fill_order clk cfg 10 eg_resting 5 \<lparr>ms_taker = eg_taker, ms_trades = [], ms_open = n, ms_tape = tp\<rparr>))"
  apply (subst match_level.simps)
  apply (simp add: eg_taker_simps eg_resting_simps min_int_def sub64_def Let_def eg_take [OF refl])
  apply (subst match_level.simps)
  apply simp
  done

lemma buy_takes: "\<exists>b' x' t. submit (\<lambda>_. 0) eg_book1 (eg_buy\<lparr>o_id := 2\<rparr>) = Some (b', x', [t], None)
    \<and> bk_tape b' = push_trade t new_tape"
proof -
  have cfg: "bk_cfg eg_book1 = ex_cfg" by (simp add: eg_book1_def)
  have c: "eg_taker\<lparr>o_created := 0, o_updated := 0\<rparr> = eg_taker" by (simp add: eg_taker_def eg_buy_def ex_order_def)
  have "\<exists>b1 taker t. match_book (\<lambda>_. 0) eg_book1 eg_taker = Some (b1, taker, [t])
      \<and> leaves_units taker = 0 \<and> bk_tape b1 = push_trade t new_tape"
    apply (simp add: match_book_def Let_def eg_taker_simps opposite_side_def side_for_def)
    apply (simp add: eg_book1_def)
    apply (subst match_loop.simps)
    apply (simp add: eg_taker_simps crosses_def eg_level store_back_def drop_level_def)
    apply (subst match_loop.simps)
    apply (simp add: eg_take [OF refl])
    apply (use leaves_fill [of 5 eg_taker] in \<open>simp add: fill_order_trades fill_order_tape eg_taker_simps new_book_def\<close>)
    done
  then show ?thesis using c cfg
    by (auto simp: submit_def buy_valid Let_def eg_taker_simps)
qed

lemma eg_submit_buy: "\<exists>e' x' t t' calls b'. engine_submit (\<lambda>_. 0) eg_buy eg_resting_engine = Some (e', x', [t'], None, calls)
    \<and> engine_book ''TGR-USDC'' e' = Inr b' \<and> bk_tape b' = push_trade t new_tape"
proof -
  obtain b' x' t where s: "submit (\<lambda>_. 0) eg_book1 (eg_buy\<lparr>o_id := 2\<rparr>) = Some (b', x', [t], None)"
    "bk_tape b' = push_trade t new_tape" using buy_takes by blast
  have n: "en_next_order eg_resting_engine = 1" by (simp add: eg_resting_engine_def)
  from s show ?thesis
    by (simp add: engine_submit_def eg_resting_book n Let_def split: prod.splits)
       (auto simp: engine_book_def update_conv)
qed

section \<open>Witnesses\<close>

theorem reachable_engine_witness:
  "reachable eg_resting_engine \<and> book_ok eg_book1 \<and> en_order_pair eg_resting_engine 1 = Some ''TGR-USDC''"
  using reachable_resting reachable_engine_is_consistent [OF reachable_resting eg_resting_book] eg_flat
  by (simp add: eg_resting_simps)

theorem resting_order_cancelled_witness:
  "(\<exists>e' x'. engine_cancel 7 1 ''bob'' eg_resting_engine = (e', Inr x') \<and> o_status x' = status_cancelled)
    \<and> engine_cancel 7 1 ''eve'' eg_resting_engine = (eg_resting_engine, Inl ErrNotOwner)"
  using resting_order_can_be_cancelled_by_owner_only [OF reachable_resting eg_resting_book, of eg_resting 7]
  by (auto simp: eg_flat eg_resting_simps)

theorem consecutive_ids_witness:
  "\<exists>e' x' t calls. engine_submit (\<lambda>_. 0) eg_buy eg_resting_engine = Some (e', x', [t], None, calls) \<and> t_id t = 1"
proof -
  obtain e' x' t calls where s: "engine_submit (\<lambda>_. 0) eg_buy eg_resting_engine = Some (e', x', [t], None, calls)"
    using eg_submit_buy by blast
  moreover have "en_next_trade eg_resting_engine = 0" by (simp add: eg_resting_engine_def eg_listed_simps)
  ultimately show ?thesis using submitted_trades_get_consecutive_ids [OF s] by simp
qed

theorem tape_no_id_witness:
  "\<exists>e b t. reachable e \<and> engine_book ''TGR-USDC'' e = Inr b \<and> book_trades 1 b = [t] \<and> t_id t = 0"
proof -
  obtain e' x' t t' calls b' where s: "engine_submit (\<lambda>_. 0) eg_buy eg_resting_engine = Some (e', x', [t'], None, calls)"
    and b: "engine_book ''TGR-USDC'' e' = Inr b'" "bk_tape b' = push_trade t new_tape"
    using eg_submit_buy by blast
  have r: "reachable e'"
    by (rule reachable.step [OF reachable_resting engine_step.step_submit [OF _ s]]) (simp add: eg_resting_engine_def)
  have "tape_rep (bk_tape b') [t]" using tape_rep_push [OF tape_rep_new, of t] b(2) by simp
  moreover have "tp_count (bk_tape b') = 1" by (simp add: b(2) push_trade_def new_tape_def default_trade_history_def)
  ultimately have "book_trades 1 b' = [t]"
    using tape_trades_hist [of "bk_tape b'" "[t]" 1 1] by (simp add: book_trades_def)
  with tape_trades_have_no_id [OF r b(1), of t 1] r b(1) show ?thesis by auto
qed

end
