(* ===== verification/Amm.thy ===== *)
theory Amm
  imports Go_Float
begin

text \<open>
  The swap arithmetic of the pool families (\<open>go/amm/amm.go\<close>), over \<open>big.Int\<close>. A nil pointer
  is \<open>None\<close>; \<open>big.Int.Div\<close> is Euclidean and panics on zero, so the two Newton loops return an
  option whose \<open>None\<close> is the panic, and the lemmas show it does not occur. Both loops run at most
  255 times, which is the fuel the recursion counts down.

  \<open>AmountOutWeighted\<close> goes through \<open>big.Float\<close> and \<open>math.Pow\<close>; the curve itself is left out and
  its argument checks are modelled.
\<close>

section \<open>Errors and the constant product\<close>

datatype amm_error =
  Amount_not_positive | No_liquidity | Fee_invalid "32 word" | Amplification_not_set | Output_exceeds_reserves
| Weights_not_set

definition bps :: int where
  "bps = 10000"

text \<open>\<open>int64(BPS-feeBps)\<close>, with the subtraction of \<open>uint32\<close>.\<close>

definition fee_factor :: "32 word \<Rightarrow> int" where
  "fee_factor fee = uint (10000 - fee)"

fun big_positive :: "int option \<Rightarrow> bool" where
  "big_positive None = False"
| "big_positive (Some n) = (0 < n)"

definition amount_out_xy ::
  "int option \<Rightarrow> int option \<Rightarrow> int option \<Rightarrow> 32 word \<Rightarrow> amm_error + int" where
  "amount_out_xy amount_in reserve_in reserve_out fee =
     (if \<not> big_positive amount_in then Inl Amount_not_positive
      else if \<not> big_positive reserve_in \<or> \<not> big_positive reserve_out then Inl No_liquidity
      else if 10000 \<le> fee then Inl (Fee_invalid fee)
      else
        let with_fee = the amount_in * fee_factor fee;
            numerator = with_fee * the reserve_out;
            denominator = the reserve_in * bps + with_fee
        in Inr (numerator div denominator))"

section \<open>The StableSwap invariant\<close>

definition big_div :: "int \<Rightarrow> int \<Rightarrow> int option" where
  "big_div a b = (if b = 0 then None else Some (sgn b * (a div \<bar>b\<bar>)))"

text \<open>\<open>D * D/(x*n) * D/(y*n)\<close>, in the order the code divides.\<close>

definition stable_prod :: "int \<Rightarrow> int \<Rightarrow> int \<Rightarrow> int option" where
  "stable_prod x y d =
     (case big_div (d * d) (2 * x) of
        None \<Rightarrow> None
      | Some p \<Rightarrow> big_div (p * d) (2 * y))"

fun stable_loop :: "nat \<Rightarrow> int \<Rightarrow> int \<Rightarrow> int \<Rightarrow> int \<Rightarrow> int \<Rightarrow> int option" where
  "stable_loop 0 ann tot x y d = Some d"
| "stable_loop (Suc i) ann tot x y d =
     (case stable_prod x y d of
        None \<Rightarrow> None
      | Some dprod \<Rightarrow>
          (case big_div ((ann * tot + dprod * 2) * d) ((ann - 1) * d + 3 * dprod) of
             None \<Rightarrow> None
           | Some d' \<Rightarrow> if \<bar>d' - d\<bar> \<le> 1 then Some d' else stable_loop i ann tot x y d'))"

definition stable_invariant :: "int \<Rightarrow> int \<Rightarrow> int \<Rightarrow> int option" where
  "stable_invariant x y amp =
     (if x + y = 0 then Some 0 else stable_loop 255 (amp * 2) (x + y) x y (x + y))"

fun get_y_loop :: "nat \<Rightarrow> int \<Rightarrow> int \<Rightarrow> int \<Rightarrow> int \<Rightarrow> int option" where
  "get_y_loop 0 b c d y = Some y"
| "get_y_loop (Suc i) b c d y =
     (let den = 2 * y + (b - d) in
      if den \<le> 0 then Some y
      else (case big_div (y * y + c) den of
              None \<Rightarrow> None
            | Some y' \<Rightarrow> if \<bar>y' - y\<bar> \<le> 1 then Some y' else get_y_loop i b c d y'))"

text \<open>The coefficients of the quadratic, as \<open>GetY\<close> computes them.\<close>

definition get_y_c :: "int \<Rightarrow> int \<Rightarrow> int \<Rightarrow> int option" where
  "get_y_c x_in d ann =
     (case big_div (d * d) (2 * x_in) of
        None \<Rightarrow> None
      | Some c \<Rightarrow> big_div (c * d) (ann * 2))"

definition get_y_b :: "int \<Rightarrow> int \<Rightarrow> int \<Rightarrow> int option" where
  "get_y_b x_in d ann = map_option (\<lambda>q. x_in + q) (big_div d ann)"

definition get_y :: "int \<Rightarrow> int \<Rightarrow> int \<Rightarrow> int option" where
  "get_y x_in d amp =
     (case (get_y_c x_in d (amp * 2), get_y_b x_in d (amp * 2)) of
        (Some c, Some b) \<Rightarrow> get_y_loop 255 b c d d
      | _ \<Rightarrow> None)"

definition amount_out_stable ::
  "int option \<Rightarrow> int option \<Rightarrow> int option \<Rightarrow> int option \<Rightarrow> 32 word \<Rightarrow> (amm_error + int) option" where
  "amount_out_stable amount_in reserve_in reserve_out amp fee =
     (if \<not> big_positive amount_in then Some (Inl Amount_not_positive)
      else if \<not> big_positive reserve_in \<or> \<not> big_positive reserve_out then Some (Inl No_liquidity)
      else if \<not> big_positive amp then Some (Inl Amplification_not_set)
      else if 10000 \<le> fee then Some (Inl (Fee_invalid fee))
      else
        let after_fee = the amount_in * fee_factor fee div bps
        in (case stable_invariant (the reserve_in) (the reserve_out) (the amp) of
              None \<Rightarrow> None
            | Some d \<Rightarrow>
                (case get_y (the reserve_in + after_fee) d (the amp) of
                   None \<Rightarrow> None
                 | Some y \<Rightarrow>
                     if y \<le> 0 \<or> the reserve_out \<le> y then Some (Inl Output_exceeds_reserves)
                     else Some (Inr (the reserve_out - y)))))"

text \<open>The argument checks of \<open>AmountOutWeighted\<close>; \<open>None\<close> goes on to the curve.\<close>

definition weighted_guard ::
  "int option \<Rightarrow> int option \<Rightarrow> int option \<Rightarrow> int option \<Rightarrow> int option \<Rightarrow> 32 word \<Rightarrow> amm_error option" where
  "weighted_guard amount_in reserve_in reserve_out weight_in weight_out fee =
     (if \<not> big_positive amount_in then Some Amount_not_positive
      else if \<not> big_positive reserve_in \<or> \<not> big_positive reserve_out then Some No_liquidity
      else if \<not> big_positive weight_in \<or> \<not> big_positive weight_out then Some Weights_not_set
      else if 10000 \<le> fee then Some (Fee_invalid fee)
      else None)"

section \<open>Slippage\<close>

definition slippage_multiplier :: "f64 \<Rightarrow> int64" where
  "slippage_multiplier pct =
     (let p = (if f64_lt pct (Fin False 0) then Fin False 0 else pct)
      in f64_to_int64 (f64_sub (f64_of_int bps) (f64_mul p (f64_of_int 100))))"

definition apply_slippage :: "int \<Rightarrow> f64 \<Rightarrow> int" where
  "apply_slippage amount_out pct =
     (let m = slippage_multiplier pct in if m \<le> 0 then 0 else amount_out * m div bps)"

section \<open>The constant product never decreases\<close>

lemma fee_factor: "\<not> 10000 \<le> fee \<Longrightarrow> 0 < fee_factor fee \<and> fee_factor fee \<le> bps"
proof -
  assume "\<not> 10000 \<le> fee"
  then have f: "fee \<le> 10000" "uint fee < 10000" by (simp_all add: word_le_def)
  then have "uint (10000 - fee) = uint (10000 :: 32 word) - uint fee" by (simp only: uint_minus_simple_alt)
  with f show ?thesis by (simp add: fee_factor_def bps_def)
qed

lemma div_mult_le: "0 < b \<Longrightarrow> (a div b) * b \<le> (a :: int)"
  by (metis div_mult_mod_eq le_add_same_cancel1 pos_mod_sign)

lemma le_divI: "0 < b \<Longrightarrow> k * b \<le> a \<Longrightarrow> k \<le> a div (b :: int)"
  by (metis nonzero_mult_div_cancel_right order_less_irrefl zdiv_mono1)

lemma less_div_mult: "0 < b \<Longrightarrow> (a :: int) < (a div b + 1) * b"
  by (metis add.commute div_mult_mod_eq mult.commute distrib_left mult.right_neutral add_less_cancel_left pos_mod_bound)

lemma amount_out_xy_Inr:
  "amount_out_xy a r s fee = Inr out \<longleftrightarrow>
     (\<exists>x y z. a = Some x \<and> r = Some y \<and> s = Some z \<and> 0 < x \<and> 0 < y \<and> 0 < z \<and> \<not> 10000 \<le> fee
        \<and> out = x * fee_factor fee * z div (y * bps + x * fee_factor fee))"
  by (cases a; cases r; cases s) (auto simp: amount_out_xy_def Let_def)

lemma xy_output:
  assumes "0 < w" "0 < y" "0 < (z :: int)" "out = w * z div (y * bps + w)"
  shows "0 \<le> out" "out < z" "out * (y * bps + w) \<le> w * z" "y * bps * z \<le> (y * bps + w) * (z - out)"
proof -
  have den: "0 < y * bps + w" using assms by (simp add: bps_def)
  show "0 \<le> out" using assms den by (simp add: pos_imp_zdiv_nonneg_iff)
  show m: "out * (y * bps + w) \<le> w * z" using assms(4) div_mult_le [OF den] by simp
  have z: "z * (y * bps + w) = y * bps * z + w * z" by (simp add: distrib_left mult.commute)
  have "0 < y * bps * z" using assms by (simp add: bps_def)
  with m z have "out * (y * bps + w) < z * (y * bps + w)" by linarith
  then show "out < z" using den by simp
  have "(z - out) * (y * bps + w) = z * (y * bps + w) - out * (y * bps + w)" by (rule left_diff_distrib)
  with m z show "y * bps * z \<le> (y * bps + w) * (z - out)" by (simp only: mult.commute [of "y * bps + w"])
qed

lemma xy_output_mono:
  assumes "0 < w" "w \<le> w'" "0 < y" "0 < (z :: int)"
  shows "w * z div (y * bps + w) \<le> w' * z div (y * bps + w')"
proof -
  let ?out = "w * z div (y * bps + w)"
  note o = xy_output [OF assms(1,3,4) refl]
  have "?out * (w' - w) \<le> z * (w' - w)" using o(2) assms(2) by (intro mult_right_mono) auto
  then have "?out * (y * bps + w') \<le> w' * z"
    using o(3) unfolding distrib_left right_diff_distrib by (simp only: mult.commute [of w' z] mult.commute [of w z])
  then show ?thesis using assms by (intro le_divI) (auto simp: bps_def)
qed

section \<open>The Newton loops do not panic\<close>

lemma big_div_pos: "0 < b \<Longrightarrow> big_div a b = Some (a div b)"
  by (simp add: big_div_def)

lemma stable_prod_pos:
  assumes "0 < x" "0 < y" "0 < d"
  shows "\<exists>p. stable_prod x y d = Some p \<and> 0 \<le> p \<and> (d = 1 \<longrightarrow> p = 0)"
  using assms
  by (auto simp: stable_prod_def big_div_pos pos_imp_zdiv_nonneg_iff)

lemma stable_step_pos:
  assumes "2 \<le> ann" "2 \<le> tot" "0 < d" "0 \<le> p" "d = 1 \<longrightarrow> p = (0 :: int)"
  shows "0 < (ann - 1) * d + 3 * p" "0 < (ann * tot + p * 2) * d div ((ann - 1) * d + 3 * p)"
proof -
  have "1 * d \<le> (ann - 1) * d" using assms by (intro mult_right_mono) auto
  then show den: "0 < (ann - 1) * d + 3 * p" using assms by linarith
  have "ann - 1 \<le> ann * tot" using assms mult_left_mono [of 2 tot ann] by linarith
  then have "(ann - 1) * d \<le> ann * tot * d" using assms by (intro mult_right_mono) auto
  moreover have "3 * p \<le> p * 2 * d"
  proof (cases "d = 1")
    case False
    then have "p * 2 * 2 \<le> p * 2 * d" using assms by (intro mult_left_mono) auto
    then show ?thesis using assms by linarith
  qed (use assms in simp)
  ultimately have "1 * ((ann - 1) * d + 3 * p) \<le> (ann * tot + p * 2) * d" by (simp add: distrib_right)
  then have "1 \<le> (ann * tot + p * 2) * d div ((ann - 1) * d + 3 * p)" by (intro le_divI den)
  then show "0 < (ann * tot + p * 2) * d div ((ann - 1) * d + 3 * p)" by simp
qed

lemma stable_loop_pos:
  assumes "2 \<le> ann" "2 \<le> tot" "0 < x" "0 < y" "0 < d"
  shows "\<exists>r. stable_loop i ann tot x y d = Some r \<and> 0 < r"
  using assms(5)
proof (induction i arbitrary: d)
  case (Suc i)
  obtain p where p: "stable_prod x y d = Some p" "0 \<le> p" "d = 1 \<longrightarrow> p = 0"
    using stable_prod_pos [OF assms(3,4) Suc.prems] by blast
  note s = stable_step_pos [OF assms(1,2) Suc.prems p(2,3)]
  from p(1) s(1) Suc.IH [OF s(2)] s(2) show ?case by (simp add: big_div_pos)
qed simp

lemma stable_invariant_pos:
  assumes "0 < x" "0 < y" "0 < amp"
  shows "\<exists>d. stable_invariant x y amp = Some d \<and> 0 < d"
  using assms stable_loop_pos [of "amp * 2" "x + y" x y "x + y" 255] by (simp add: stable_invariant_def)

text \<open>
  One Newton step for \<open>y\<close> from any point with a positive denominator ends at most one unit
  below the root of \<open>y\<^sup>2 + (b - d) y = c\<close>: the parabola is convex and the division rounds down.
\<close>

lemma newton_above_root:
  fixes y :: int
  assumes den: "0 < 2 * y + e" and y': "y' = (y * y + c) div (2 * y + e)"
  shows "c < (y' + 1) * (y' + 1) + e * (y' + 1)"
proof -
  have "y * y + c < (y' + 1) * (2 * y + e)" using less_div_mult [OF den, of "y * y + c"] y' by simp
  then have "c < 2 * y * (y' + 1) - y * y + e * (y' + 1)" by (simp add: distrib_left distrib_right mult.commute mult.left_commute)
  moreover have "0 \<le> (y' + 1 - y) * (y' + 1 - y)" by simp
  then have "2 * y * (y' + 1) - y * y \<le> (y' + 1) * (y' + 1)"
    by (simp add: distrib_left distrib_right left_diff_distrib right_diff_distrib)
  ultimately show ?thesis by linarith
qed

lemma get_y_loop_above:
  assumes "c < (y + 1) * (y + 1) + (b - d) * (y + 1) \<or> (0 < i \<and> 0 < 2 * y + (b - d))"
  shows "\<exists>r. get_y_loop i b c d y = Some r \<and> c < (r + 1) * (r + 1) + (b - d) * (r + 1)"
  using assms
proof (induction i arbitrary: y)
  case (Suc i)
  show ?case
  proof (cases "2 * y + (b - d) \<le> 0")
    case False
    let ?y = "(y * y + c) div (2 * y + (b - d))"
    have a: "c < (?y + 1) * (?y + 1) + (b - d) * (?y + 1)"
      using False by (intro newton_above_root [OF _ refl]) simp
    with Suc.IH [of ?y] False show ?thesis by (simp add: big_div_pos Let_def)
  qed (use Suc.prems in simp)
qed simp

lemma get_y_above:
  assumes "0 < x_in" "0 < d" "0 < amp"
  shows "\<exists>b c r. get_y_b x_in d (amp * 2) = Some b \<and> get_y_c x_in d (amp * 2) = Some c
    \<and> get_y x_in d amp = Some r \<and> c < (r + 1) * (r + 1) + (b - d) * (r + 1)"
proof -
  have "0 \<le> d div (amp * 2)" using assms by (simp add: pos_imp_zdiv_nonneg_iff)
  then have pos: "0 < 2 * d + (x_in + d div (amp * 2) - d)" using assms by linarith
  then show ?thesis
    using assms get_y_loop_above [of _ d "x_in + d div (amp * 2)" d 255]
    by (auto simp: get_y_def get_y_b_def get_y_c_def big_div_pos)
qed

section \<open>Slippage only lowers the amount\<close>

lemma round_mag_le_10000: "m \<le> 10000 \<Longrightarrow> round_mag m \<le> 10000"
  using round_mag_mono [of m 10000] round_mag_of_int [of 10000] by simp

lemma slippage_fin:
  assumes "0 \<le> r" and "\<not> neg \<or> r = 0"
  shows "f64_to_int64 (f64_sub (Fin False 10000) (Fin neg r)) \<le> 10000"
proof -
  let ?x = "10000 - r"
  have e: "f64_sub (Fin False 10000) (Fin neg r) = (if ?x = 0 then Fin (neg = False \<and> False) 0 else f64_of_rat ?x)"
    using assms by (auto simp: f64_sub_def Let_def)
  show ?thesis
  proof (cases "r \<le> 10000")
    case True
    then have "round_mag ?x \<le> 10000" using assms(1) by (intro round_mag_le_10000) simp
    moreover from this have "\<not> pow2 1024 \<le> round_mag ?x" by (intro pow2_1024_gt) linarith
    moreover from calculation have "\<lfloor>round_mag ?x\<rfloor> \<le> 10000" by linarith
    ultimately show ?thesis using True e by (simp add: f64_of_rat_def f64_round_def Let_def min_int64_def)
  next
    case False
    then have "f64_of_rat ?x = Infty True \<or> f64_of_rat ?x = Fin True (round_mag (r - 10000))"
      by (simp add: f64_of_rat_def f64_round_def Let_def)
    moreover have "0 \<le> \<lfloor>round_mag (r - 10000)\<rfloor>" by simp
    ultimately show ?thesis using False e by (auto simp: Let_def min_int64_def simp del: zero_le_floor)
  qed
qed

lemma slippage_multiplier_le: "slippage_multiplier pct \<le> bps"
proof -
  define p where "p = (if f64_lt pct (Fin False 0) then Fin False 0 else pct)"
  have m: "slippage_multiplier pct = f64_to_int64 (f64_sub (Fin False 10000) (f64_mul p (Fin False 100)))"
    by (simp add: slippage_multiplier_def p_def Let_def bps_def)
  show ?thesis
  proof (cases "f64_mul p (Fin False 100)")
    case NaN
    then show ?thesis by (simp add: m f64_sub_def bps_def min_int64_def)
  next
    case (Infty s)
    then show ?thesis by (simp add: m f64_sub_def bps_def min_int64_def)
  next
    case (Fin s r)
    then obtain t q where p: "p = Fin t q" by (cases p) (auto split: if_splits)
    have "\<not> f64_val (Fin t q) < 0"
      using p by (cases pct) (auto simp: p_def split: if_splits)
    then have "\<not> t \<or> q \<le> 0" by (auto split: if_splits)
    moreover have "Fin s r = f64_round t (q * 100)" using Fin p by simp
    ultimately have "r = round_mag (q * 100)" "s = t" "t \<Longrightarrow> round_mag (q * 100) = 0"
      by (auto simp: f64_round_def Let_def round_mag_def [of "q * 100"] split: if_splits)
    then have "0 \<le> r \<and> (\<not> s \<or> r = 0)" using round_mag_ge_0 by auto
    with slippage_fin [of r s] show ?thesis using Fin by (simp add: m bps_def)
  qed
qed

section \<open>Claims\<close>

text \<open>C8: a constant-product swap pays out less than the reserve, and the product of the reserves
  does not decrease even when the whole input, fee included, is added to the pool.\<close>

theorem constant_product_never_decreases:
  assumes "amount_out_xy (Some x) (Some y) (Some z) fee = Inr out"
  shows "0 \<le> out \<and> out < z \<and> y * z \<le> (y + x) * (z - out)"
proof -
  from assms have pos: "0 < x" "0 < y" "0 < z" "\<not> 10000 \<le> fee"
    and out: "out = x * fee_factor fee * z div (y * bps + x * fee_factor fee)"
    by (simp_all add: amount_out_xy_Inr)
  note ff = fee_factor [OF pos(4)]
  have "0 < x * fee_factor fee" using pos ff by simp
  note o = xy_output [OF this pos(2,3) out]
  have "x * fee_factor fee \<le> x * bps" using pos ff by (intro mult_left_mono) auto
  then have "(y * bps + x * fee_factor fee) * (z - out) \<le> (y * bps + x * bps) * (z - out)"
    using o(2) by (intro mult_right_mono) auto
  with o(4) have "y * bps * z \<le> (y * bps + x * bps) * (z - out)" by linarith
  then have "bps * (y * z) \<le> bps * ((y + x) * (z - out))" by (simp add: algebra_simps)
  then have "y * z \<le> (y + x) * (z - out)" by (simp add: bps_def)
  with o(1,2) show ?thesis by simp
qed

text \<open>A larger input never gets a smaller constant-product output.\<close>

theorem constant_product_monotone:
  assumes "amount_out_xy (Some x) r s fee = Inr out" and "x \<le> x'"
  shows "\<exists>out'. amount_out_xy (Some x') r s fee = Inr out' \<and> out \<le> out'"
proof -
  from assms(1) obtain y z where p: "r = Some y" "s = Some z" "0 < x" "0 < y" "0 < z" "\<not> 10000 \<le> fee"
    "out = x * fee_factor fee * z div (y * bps + x * fee_factor fee)"
    by (auto simp: amount_out_xy_Inr)
  note ff = fee_factor [OF p(6)]
  have "x * fee_factor fee \<le> x' * fee_factor fee" using assms(2) ff by (intro mult_right_mono) auto
  then have "out \<le> x' * fee_factor fee * z div (y * bps + x' * fee_factor fee)"
    using xy_output_mono [of "x * fee_factor fee" "x' * fee_factor fee" y z] p ff by simp
  with p assms(2) show ?thesis by (auto simp: amount_out_xy_Inr)
qed

text \<open>The StableSwap quote never panics: for every input both Newton loops only divide by
  positive numbers.\<close>

theorem stable_quote_never_panics:
  "amount_out_stable a r s amp fee \<noteq> None"
proof (cases "big_positive a \<and> big_positive r \<and> big_positive s \<and> big_positive amp \<and> \<not> 10000 \<le> fee")
  case False
  then show ?thesis by (auto simp: amount_out_stable_def)
next
  case True
  then obtain x y z k where v: "a = Some x" "r = Some y" "s = Some z" "amp = Some k" "0 < x" "0 < y" "0 < z" "0 < k"
    by (cases a; cases r; cases s; cases amp) auto
  obtain d where d: "stable_invariant y z k = Some d" "0 < d" using stable_invariant_pos [OF v(6-8)] by blast
  have "0 \<le> x * fee_factor fee div bps"
    using v True fee_factor [of fee] by (simp add: bps_def pos_imp_zdiv_nonneg_iff)
  with v have "0 < y + x * fee_factor fee div bps" by linarith
  from get_y_above [OF this d(2) v(8)] d(1) v True show ?thesis
    by (auto simp: amount_out_stable_def Let_def)
qed

text \<open>C9: a StableSwap quote leaves the pool on its curve. The balance that stays is at most one
  unit below the root of the curve's quadratic at the invariant \<open>D\<close> of the old reserves: one unit
  more and the quadratic is above its target. The output is positive and below the reserve.\<close>

theorem stable_quote_stays_on_curve:
  assumes "amount_out_stable (Some x) (Some y) (Some z) (Some k) fee = Some (Inr out)"
  shows "0 < out \<and> out < z \<and> (\<exists>d b c. stable_invariant y z k = Some d
    \<and> get_y_b (y + x * fee_factor fee div bps) d (k * 2) = Some b
    \<and> get_y_c (y + x * fee_factor fee div bps) d (k * 2) = Some c
    \<and> c < (z - out + 1) * (z - out + 1) + (b - d) * (z - out + 1))"
proof -
  let ?x = "y + x * fee_factor fee div bps"
  have v: "0 < x" "0 < y" "0 < z" "0 < k" "\<not> 10000 \<le> fee"
    using assms by (auto simp: amount_out_stable_def split: if_splits)
  obtain d where d: "stable_invariant y z k = Some d" "0 < d" using stable_invariant_pos [OF v(2-4)] by blast
  have "0 \<le> x * fee_factor fee div bps"
    using v fee_factor [OF v(5)] by (simp add: bps_def pos_imp_zdiv_nonneg_iff)
  with v have "0 < ?x" by linarith
  from get_y_above [OF this d(2) v(4)] obtain b c q where g:
    "get_y_b ?x d (k * 2) = Some b" "get_y_c ?x d (k * 2) = Some c" "get_y ?x d k = Some q"
    "c < (q + 1) * (q + 1) + (b - d) * (q + 1)" by blast
  with assms d v have "0 < q" "q < z" "out = z - q"
    by (auto simp: amount_out_stable_def Let_def split: if_splits)
  with g d(1) show ?thesis by auto
qed

text \<open>In a balanced pool the invariant is exactly the sum of the two balances, for every
  amplification.\<close>

theorem balanced_pool_invariant:
  assumes "0 < x" and "0 < amp"
  shows "stable_invariant x x amp = Some (2 * x)"
proof -
  have p: "stable_prod x x (2 * x) = Some (2 * x)"
    using assms by (simp add: stable_prod_def big_div_pos)
  have num: "(amp * 2 * (x + x) + 2 * x * 2) * (2 * x) = (2 * x) * ((amp * 2 - 1) * (2 * x) + 3 * (2 * x))"
    by (simp add: algebra_simps)
  have "0 < (amp * 2 - 1) * (2 * x)" using assms by simp
  then have den: "0 < (amp * 2 - 1) * (2 * x) + 3 * (2 * x)" using assms by linarith
  then have "big_div ((amp * 2 * (x + x) + 2 * x * 2) * (2 * x)) ((amp * 2 - 1) * (2 * x) + 3 * (2 * x)) = Some (2 * x)"
    unfolding num by (subst big_div_pos) auto
  then show ?thesis
    using p assms by (simp add: stable_invariant_def numeral_eq_Suc)
qed

text \<open>Slippage protection never raises the amount nor makes it negative, whatever the
  percentage is, infinities and NaN included.\<close>

theorem slippage_only_lowers:
  assumes "0 \<le> amount"
  shows "0 \<le> apply_slippage amount pct \<and> apply_slippage amount pct \<le> amount"
proof (cases "slippage_multiplier pct \<le> 0")
  case False
  have "amount * slippage_multiplier pct \<le> amount * bps"
    using assms slippage_multiplier_le by (intro mult_left_mono) auto
  then have "amount * slippage_multiplier pct div bps \<le> amount * bps div bps"
    by (intro zdiv_mono1) (auto simp: bps_def)
  moreover have "0 \<le> amount * slippage_multiplier pct div bps"
    using assms False by (simp add: bps_def pos_imp_zdiv_nonneg_iff)
  ultimately show ?thesis using False by (simp add: apply_slippage_def Let_def bps_def)
qed (use assms in \<open>simp add: apply_slippage_def Let_def\<close>)

section \<open>Witnesses\<close>

theorem constant_product_witness:
  "amount_out_xy (Some 100) (Some 1000) (Some 1000) 30 = Inr 90 \<and> (1000 * 1000 :: int) \<le> 1100 * 910"
proof -
  have f: "fee_factor 30 = 9970" by (simp add: fee_factor_def)
  have "amount_out_xy (Some 100) (Some 1000) (Some 1000) 30 = Inr 90"
    by (simp add: amount_out_xy_def f bps_def word_le_def)
  from constant_product_never_decreases [OF this] this show ?thesis by simp
qed

theorem constant_product_monotone_witness:
  "\<exists>out'. amount_out_xy (Some 200) (Some 1000) (Some 1000) 30 = Inr out' \<and> 90 \<le> out'"
proof -
  have f: "fee_factor 30 = 9970" by (simp add: fee_factor_def)
  have "amount_out_xy (Some 100) (Some 1000) (Some 1000) 30 = Inr 90"
    by (simp add: amount_out_xy_def f bps_def word_le_def)
  from constant_product_monotone [OF this, of 200] show ?thesis by simp
qed

theorem stable_curve_witness:
  "amount_out_stable (Some 1000) (Some 1000000) (Some 1000000) (Some 100) 1 = Some (Inr 999) \<and> (999 :: int) < 1000000"
proof -
  have "amount_out_stable (Some 1000) (Some 1000000) (Some 1000000) (Some 100) 1 = Some (Inr 999)"
    by code_simp
  with stable_quote_stays_on_curve [OF this] show ?thesis by simp
qed

theorem balanced_pool_witness: "stable_invariant 1000000 1000000 100 = Some 2000000"
  using balanced_pool_invariant [of 1000000 100] by simp

theorem slippage_witness: "0 \<le> apply_slippage 1000 (Fin False 2) \<and> apply_slippage 1000 (Fin False 2) \<le> 1000"
  using slippage_only_lowers [of 1000 "Fin False 2"] by simp

end
