(* ===== verification/Go_Text.thy ===== *)
theory Go_Text
  imports Go_Prelude
begin

text \<open>
  The string functions of Go's library that the code calls, over strings as lists of bytes (\<open>char list\<close>),
  with the meaning they have on ASCII text: \<open>strings.TrimSpace\<close>, \<open>ToLower\<close>, \<open>TrimRight\<close>,
  \<open>SplitN(s, c, 2)\<close>, \<open>HasPrefix\<close>; \<open>EqualFold\<close> and the count of runes also outside ASCII; and
  \<open>big.Int\<close>'s \<open>SetString\<close> and \<open>String\<close> in base ten with their round trip.
\<close>

section \<open>Characters\<close>

definition is_digit :: "char \<Rightarrow> bool" where
  "is_digit c \<longleftrightarrow> 48 \<le> (of_char c :: nat) \<and> (of_char c :: nat) \<le> 57"

definition digit_val :: "char \<Rightarrow> int" where
  "digit_val c = of_char c - 48"

definition digit_char :: "nat \<Rightarrow> char" where
  "digit_char d = char_of (48 + d)"

definition is_space :: "char \<Rightarrow> bool" where
  "is_space c \<longleftrightarrow> (of_char c :: nat) \<in> {9, 10, 11, 12, 13, 32}"

definition lower_char :: "char \<Rightarrow> char" where
  "lower_char c = (if 65 \<le> (of_char c :: nat) \<and> (of_char c :: nat) \<le> 90 then char_of (of_char c + 32 :: nat) else c)"

section \<open>Strings\<close>

definition to_lower :: "string \<Rightarrow> string" where
  "to_lower s = map lower_char s"

definition trim_right :: "(char \<Rightarrow> bool) \<Rightarrow> string \<Rightarrow> string" where
  "trim_right P s = rev (dropWhile P (rev s))"

definition trim_space :: "string \<Rightarrow> string" where
  "trim_space s = trim_right is_space (dropWhile is_space s)"

text \<open>\<open>SplitN(s, c, 2)\<close> for a one-character separator: what is before it, and what is after it.\<close>

definition split_once :: "char \<Rightarrow> string \<Rightarrow> string \<times> string option" where
  "split_once c s =
     (case dropWhile (\<lambda>x. x \<noteq> c) s of
        [] \<Rightarrow> (s, None)
      | _ # rest \<Rightarrow> (takeWhile (\<lambda>x. x \<noteq> c) s, Some rest))"

text \<open>
  \<open>strings.EqualFold(s, t)\<close> for an ASCII text \<open>t\<close>. Two ASCII letters have a partner outside ASCII
  under simple folding, in UTF-8: the long s, \<open>C5 BF\<close>, and the Kelvin sign, \<open>E2 84 AA\<close>; every other
  rune outside ASCII folds to nothing in \<open>t\<close>.
\<close>

fun fold_runes :: "string \<Rightarrow> string" where
  "fold_runes [] = []"
| "fold_runes (c # s) =
     (if c = CHR 0xC5 \<and> take 1 s = [CHR 0xBF] then CHR ''s'' # fold_runes (drop 1 s)
      else if c = CHR 0xE2 \<and> take 2 s = [CHR 0x84, CHR 0xAA] then CHR ''k'' # fold_runes (drop 2 s)
      else c # fold_runes s)"

definition equal_fold :: "string \<Rightarrow> string \<Rightarrow> bool" where
  "equal_fold s t \<longleftrightarrow> to_lower (fold_runes s) = to_lower t"

text \<open>\<open>utf8.RuneCountInString\<close> of valid UTF-8: the bytes that do not continue a rune.\<close>

definition rune_count :: "string \<Rightarrow> nat" where
  "rune_count s = length (filter (\<lambda>c. \<not> (128 \<le> (of_char c :: nat) \<and> (of_char c :: nat) < 192)) s)"

section \<open>Decimal numbers\<close>

definition digits_val :: "string \<Rightarrow> int" where
  "digits_val s = foldl (\<lambda>acc c. 10 * acc + digit_val c) 0 s"

fun nat_string :: "nat \<Rightarrow> string" where
  "nat_string n = (if n < 10 then [digit_char n] else nat_string (n div 10) @ [digit_char (n mod 10)])"

declare nat_string.simps [simp del]

text \<open>\<open>SetString(s, 10)\<close>: an optional sign and at least one digit.\<close>

definition parse_int :: "string \<Rightarrow> int option" where
  "parse_int s =
     (case s of
        [] \<Rightarrow> None
      | c # rest \<Rightarrow>
          let neg = (c = CHR ''-''); ds = (if c = CHR ''-'' \<or> c = CHR ''+'' then rest else s)
          in if ds = [] \<or> \<not> list_all is_digit ds then None
             else Some (if neg then - digits_val ds else digits_val ds))"

definition int_string :: "int \<Rightarrow> string" where
  "int_string i = (if i < 0 then CHR ''-'' # nat_string (nat (- i)) else nat_string (nat i))"

section \<open>Facts\<close>

lemma digits_val_Nil [simp]: "digits_val [] = 0"
  by (simp add: digits_val_def)

lemma foldl_digits: "foldl (\<lambda>acc c. 10 * acc + digit_val c) a s = a * 10 ^ length s + digits_val s"
proof (induction s arbitrary: a)
  case (Cons c s)
  show ?case using Cons [of "10 * a + digit_val c"] Cons [of "digit_val c"]
    by (simp add: digits_val_def algebra_simps)
qed simp

lemma digits_val_append: "digits_val (s @ t) = digits_val s * 10 ^ length t + digits_val t"
  by (simp add: digits_val_def foldl_digits [symmetric, unfolded digits_val_def])

lemma digits_val_single [simp]: "digits_val [c] = digit_val c"
  by (simp add: digits_val_def)

lemma digits_val_zeros [simp]: "digits_val (replicate n (CHR ''0'')) = 0"
  by (induction n) (simp_all add: digits_val_append [of "[_]", simplified] digit_val_def)

lemma digit_char [simp]: "d < 10 \<Longrightarrow> is_digit (digit_char d)" "d < 10 \<Longrightarrow> digit_val (digit_char d) = int d"
proof -
  have m: "d < 10 \<Longrightarrow> (48 + d) mod 256 = 48 + d" by simp
  then have "d < 10 \<Longrightarrow> (of_char (char_of (48 + d) :: char) :: nat) = 48 + d" by (simp only: of_char_of)
  moreover have "(of_char c :: int) = int (of_char c)" for c :: char by (rule of_nat_of_char [symmetric])
  ultimately show "d < 10 \<Longrightarrow> is_digit (digit_char d)" "d < 10 \<Longrightarrow> digit_val (digit_char d) = int d"
    by (simp_all add: is_digit_def digit_val_def digit_char_def del: of_nat_of_char)
qed

lemma digit_val_bounds: "is_digit c \<Longrightarrow> 0 \<le> digit_val c \<and> digit_val c \<le> 9"
  by (simp add: is_digit_def digit_val_def) (metis of_nat_le_iff of_nat_numeral of_nat_of_char)

lemma digits_val_ge_0: "list_all is_digit s \<Longrightarrow> 0 \<le> digits_val s"
proof (induction s rule: rev_induct)
  case (snoc c s)
  then show ?case using digit_val_bounds [of c] by (simp add: digits_val_append)
qed simp

lemma digits_val_less: "list_all is_digit s \<Longrightarrow> digits_val s < 10 ^ length s"
proof (induction s rule: rev_induct)
  case (snoc c s)
  then show ?case using digit_val_bounds [of c] by (simp add: digits_val_append)
qed simp

lemma nat_string_digits [simp]: "list_all is_digit (nat_string n)"
  by (induction n rule: nat_string.induct) (subst nat_string.simps, auto)

lemma nat_string_neq_Nil [simp]: "nat_string n \<noteq> []"
  by (subst nat_string.simps) auto

lemma digits_val_nat_string [simp]: "digits_val (nat_string n) = int n"
proof (induction n rule: nat_string.induct)
  case (1 n)
  have "int (n div 10) * 10 + int (n mod 10) = int n" by presburger
  with 1 show ?case by (subst nat_string.simps) (auto simp: digits_val_append)
qed

lemma length_nat_string: "n < 10 ^ k \<Longrightarrow> 0 < k \<Longrightarrow> length (nat_string n) \<le> k"
proof (induction n arbitrary: k rule: nat_string.induct)
  case (1 n)
  show ?case
  proof (cases "n < 10")
    case False
    then obtain j where k: "k = Suc j" "0 < j" using "1.prems" by (cases k; cases "k - 1") auto
    then have "n div 10 < 10 ^ j" using "1.prems" by (simp add: less_mult_imp_div_less mult.commute)
    with 1 k False show ?thesis by (subst nat_string.simps) auto
  qed (use "1.prems" in \<open>subst nat_string.simps, simp\<close>)
qed

lemma digit_not_sign: "is_digit c \<Longrightarrow> c \<noteq> CHR ''-'' \<and> c \<noteq> CHR ''+'' \<and> c \<noteq> CHR ''.'' \<and> \<not> is_space c"
  by (auto simp: is_digit_def is_space_def)

lemma nat_string_Cons: obtains c cs where "nat_string n = c # cs" "is_digit c" "list_all is_digit cs"
  using nat_string_digits [of n] nat_string_neq_Nil [of n] by (cases "nat_string n") auto

lemma parse_int_digits: "ds \<noteq> [] \<Longrightarrow> list_all is_digit ds \<Longrightarrow> parse_int ds = Some (digits_val ds)"
  using digit_not_sign by (cases ds) (auto simp: parse_int_def)

lemma parse_int_string [simp]: "parse_int (int_string i) = Some i"
proof (cases "i < 0")
  case True
  then show ?thesis by (simp add: int_string_def parse_int_def)
next
  case False
  then show ?thesis by (simp add: int_string_def parse_int_digits)
qed

lemma split_once_append: "c \<notin> set s \<Longrightarrow> split_once c (s @ c # t) = (s, Some t)"
  by (auto simp: split_once_def split: list.split) (induction s; auto)+

lemma split_once_absent: "c \<notin> set s \<Longrightarrow> split_once c s = (s, None)"
proof -
  assume "c \<notin> set s"
  then have "dropWhile (\<lambda>x. x \<noteq> c) s = []" by (induction s) auto
  then show ?thesis by (simp only: split_once_def list.case)
qed

lemma digits_no_char: "list_all is_digit s \<Longrightarrow> \<not> is_digit c \<Longrightarrow> c \<notin> set s"
  by (auto simp: list_all_iff)

lemma trim_right_split: obtains n where "s = trim_right (\<lambda>c. c = z) s @ replicate n z"
proof -
  have "takeWhile (\<lambda>c. c = z) (rev s) = replicate (length (takeWhile (\<lambda>c. c = z) (rev s))) z"
    by (rule replicate_length_same [symmetric]) (auto dest: set_takeWhileD)
  then have "s = trim_right (\<lambda>c. c = z) s @ replicate (length (takeWhile (\<lambda>c. c = z) (rev s))) z"
    unfolding trim_right_def by (metis rev_append rev_replicate rev_rev_ident takeWhile_dropWhile_id)
  then show thesis by (rule that)
qed

lemma trim_space_id:
  assumes "s \<noteq> []" "\<not> is_space (hd s)" "\<not> is_space (last s)"
  shows "trim_space s = s"
proof -
  have "dropWhile is_space s = s" using assms by (cases s) auto
  moreover have "dropWhile is_space (rev s) = rev s" using assms by (cases s rule: rev_cases) auto
  ultimately show ?thesis by (simp add: trim_space_def trim_right_def)
qed

lemma to_lower_idem [simp]: "to_lower (to_lower s) = to_lower s"
proof -
  have "lower_char (lower_char c) = lower_char c" for c by (auto simp: lower_char_def)
  then show ?thesis by (simp add: to_lower_def)
qed

lemma fold_runes_ascii: "list_all (\<lambda>c. (of_char c :: nat) < 128) s \<Longrightarrow> fold_runes s = s"
  by (induction s rule: fold_runes.induct) auto

lemma equal_fold_ascii:
  "list_all (\<lambda>c. (of_char c :: nat) < 128) s \<Longrightarrow> equal_fold s t \<longleftrightarrow> to_lower s = to_lower t"
  by (simp add: equal_fold_def fold_runes_ascii)

section \<open>Codecs\<close>

text \<open>
  The contract of a textual encoding: reading back what was written gives the value. Its
  clients rely on two consequences, that different values are written differently and that
  every value can be read from some text.
\<close>

locale codec =
  fixes encode :: "'a \<Rightarrow> string"
    and decode :: "string \<Rightarrow> 'e + 'a"
  assumes round_trip: "decode (encode v) = Inr v"
begin

lemma encode_eq_iff: "encode v = encode w \<longleftrightarrow> v = w"
  by (metis round_trip sum.inject(2))

lemma decode_surj: "\<exists>s. decode s = Inr v"
  using round_trip by blast

end

text \<open>\<open>SetString\<close> and \<open>String\<close>, with the failed parse as a unit error.\<close>

definition decode_int :: "string \<Rightarrow> unit + int" where
  "decode_int s = (case parse_int s of None \<Rightarrow> Inl () | Some i \<Rightarrow> Inr i)"

interpretation int_codec: codec int_string decode_int
  by unfold_locales (simp add: decode_int_def)

end
