(* ===== verification/Option_Math.thy ===== *)
theory Option_Math
  imports Go_Text
begin

text \<open>
  The fixed-point option pricing library (\<open>services/option_math.go\<close>): logarithm, exponential,
  inverse square root, the normal density and distribution, Black-Scholes prices and Greeks,
  and the decimal codec of its 1e18 fixed point. Every value is a \<open>big.Int\<close> (\<open>int\<close>); \<open>Quo\<close>
  truncates (\<open>quo\<close>) and panics on zero, which is the error \<open>Panic_division\<close> here; where the
  code divides by a constant no such branch exists.
\<close>

section \<open>Constants and primitives\<close>

datatype opt_error =
  Ln_not_positive | Exp_negative | Exp_overflow | Exp_underflow | Inv_sqrt_not_positive
| Zero_sigma_sqrt_t | Bad_price_inputs | Panic_division

definition wad :: int where "wad = 1000000000000000000"
definition wad_sq :: int where "wad_sq = 1000000000000000000000000000000000000"
definition ln2 :: int where "ln2 = 693147180559945309"
definition inv_sqrt_2pi :: int where "inv_sqrt_2pi = 398942280401432678"
definition as_p :: int where "as_p = 2316419"
definition as_b1 :: int where "as_b1 = 319381530"
definition as_rest :: "int list" where "as_rest = [-356563782, 1781477937, -1821255978, 1330274429]"
definition as_scale :: int where "as_scale = 1000000000"
definition year_seconds :: int where "year_seconds = 31536000"

lemmas wad_defs = wad_def wad_sq_def ln2_def inv_sqrt_2pi_def as_p_def as_b1_def as_rest_def as_scale_def year_seconds_def

definition opt_mul :: "int \<Rightarrow> int \<Rightarrow> int" where
  "opt_mul a b = quo (a * b) wad"

definition opt_raw_div :: "int \<Rightarrow> int \<Rightarrow> opt_error + int" where
  "opt_raw_div a b = (if b = 0 then Inl Panic_division else Inr (quo a b))"

definition opt_div :: "int \<Rightarrow> int \<Rightarrow> opt_error + int" where
  "opt_div a b = opt_raw_div (a * wad) b"

section \<open>Logarithm\<close>

text \<open>
  The two normalisation loops, with the exponent they count. \<open>m\<close> is positive in every call, as
  \<open>optLn\<close> has checked; the first loop needs it to end.
\<close>

function ln_up :: "int \<Rightarrow> int \<Rightarrow> int \<times> int" where
  "ln_up m n = (if 0 < m \<and> m < wad then ln_up (m * 2) (n - 1) else (m, n))"
  by pat_completeness auto
termination
  by (relation "measure (\<lambda>(m, n). nat (wad - m))") auto

function ln_down :: "int \<Rightarrow> int \<Rightarrow> int \<times> int" where
  "ln_down m n = (if 2 * wad \<le> m then ln_down (quo m 2) (n + 1) else (m, n))"
  by pat_completeness auto
termination
  by (relation "measure (\<lambda>(m, n). nat m)") (auto simp: quo_nonneg wad_def)

declare ln_up.simps [simp del] ln_down.simps [simp del]

text \<open>The series over the odd \<open>i\<close> from 1 to 21.\<close>

fun ln_series :: "int list \<Rightarrow> int \<Rightarrow> int \<Rightarrow> int \<Rightarrow> int" where
  "ln_series [] z2 term series = series"
| "ln_series (i # is) z2 term series = ln_series is z2 (opt_mul term z2) (series + quo (2 * term) i)"

definition ln_mantissa :: "int \<Rightarrow> int" where
  "ln_mantissa m =
     (let z = quo ((m - wad) * wad) (m + wad)
      in ln_series [1, 3, 5, 7, 9, 11, 13, 15, 17, 19, 21] (opt_mul z z) z 0)"

definition opt_ln :: "int \<Rightarrow> opt_error + int" where
  "opt_ln x =
     (if x \<le> 0 then Inl Ln_not_positive
      else case (if x < wad then ln_up x 0 else ln_down x 0) of
             (m, n) \<Rightarrow> Inr (ln_mantissa m + n * ln2))"

section \<open>Exponential\<close>

fun exp_series :: "nat \<Rightarrow> int \<Rightarrow> int \<Rightarrow> int \<Rightarrow> int \<Rightarrow> int" where
  "exp_series 0 i rm term result = result"
| "exp_series (Suc k) i rm term result =
     (let t = quo (term * rm) (wad * i) in exp_series k (i + 1) rm t (result + t))"

definition opt_exp :: "int \<Rightarrow> opt_error + int" where
  "opt_exp x =
     (if x < 0 then Inl Exp_negative
      else
        let n = quo x ln2 in
        if 200 \<le> n then Inl Exp_overflow
        else
          let result = exp_series 24 1 (x - n * ln2) wad wad in
          if result < 0 then Inl Exp_underflow else Inr (result * 2 ^ nat n))"

definition opt_exp_neg :: "int \<Rightarrow> opt_error + int" where
  "opt_exp_neg x =
     (if x < 0 then Inl Exp_negative else and_then (opt_exp x) (\<lambda>e. opt_raw_div wad_sq e))"

section \<open>Inverse square root\<close>

function inv_sqrt_down :: "int \<Rightarrow> int \<Rightarrow> int \<times> int" where
  "inv_sqrt_down temp y = (if 4 * wad \<le> temp then inv_sqrt_down (quo temp 4) (quo y 2) else (temp, y))"
  by pat_completeness auto
termination
  by (relation "measure (\<lambda>(t, y). nat t)") (auto simp: quo_nonneg wad_def)

function inv_sqrt_up :: "int \<Rightarrow> int \<Rightarrow> int \<times> int" where
  "inv_sqrt_up temp y = (if 0 < temp \<and> temp < wad then inv_sqrt_up (temp * 4) (y * 2) else (temp, y))"
  by pat_completeness auto
termination
  by (relation "measure (\<lambda>(t, y). nat (wad - t))") auto

declare inv_sqrt_down.simps [simp del] inv_sqrt_up.simps [simp del]

fun inv_sqrt_newton :: "nat \<Rightarrow> int \<Rightarrow> int \<Rightarrow> int" where
  "inv_sqrt_newton 0 x y = y"
| "inv_sqrt_newton (Suc k) x y =
     (let step = opt_mul x (opt_mul y y) in
      if 3 * wad \<le> step then inv_sqrt_newton k x (quo y 2)
      else
        let next = quo (y * (3 * wad - step)) (2 * wad)
        in if next = y then y else inv_sqrt_newton k x next)"

definition opt_inv_sqrt :: "int \<Rightarrow> opt_error + int" where
  "opt_inv_sqrt x =
     (if x \<le> 0 then Inl Inv_sqrt_not_positive
      else case inv_sqrt_down x wad of
             (t1, y1) \<Rightarrow> (case inv_sqrt_up t1 y1 of (t2, y2) \<Rightarrow> Inr (inv_sqrt_newton 40 x y2)))"

section \<open>Normal density and distribution\<close>

definition normal_pdf :: "int \<Rightarrow> opt_error + int" where
  "normal_pdf x = and_then (opt_exp_neg (quo (opt_mul x x) 2)) (\<lambda>e. Inr (opt_mul inv_sqrt_2pi e))"

fun as_poly :: "int list \<Rightarrow> int \<Rightarrow> int \<Rightarrow> int \<Rightarrow> int" where
  "as_poly [] as_t pw poly = poly"
| "as_poly (c # cs) as_t pw poly =
     (let p = opt_mul pw as_t in as_poly cs as_t p (poly + opt_mul c p))"

definition cdf_poly :: "int \<Rightarrow> int" where
  "cdf_poly t =
     (let as_t = quo wad_sq (wad + quo (as_p * t) 10000000)
      in quo (as_poly as_rest as_t as_t (opt_mul as_b1 as_t) * wad) as_scale)"

definition clamp_upper :: "int \<Rightarrow> int" where
  "clamp_upper u = (let u1 = (if u < 0 then 0 else u) in if wad < u1 then wad else u1)"

definition normal_cdf :: "int \<Rightarrow> opt_error + int" where
  "normal_cdf x =
     (let t = \<bar>x\<bar> in
      and_then (normal_pdf t) (\<lambda>density.
        let upper = clamp_upper (wad - opt_mul density (cdf_poly t))
        in Inr (if x < 0 then wad - upper else upper)))"

section \<open>Black-Scholes\<close>

definition opt_d1d2 :: "int \<Rightarrow> int \<Rightarrow> int \<Rightarrow> int \<Rightarrow> int \<Rightarrow> opt_error + (int \<times> int \<times> int)" where
  "opt_d1d2 spot strike t rate vol =
     and_then (opt_div spot strike) (\<lambda>moneyness.
     and_then (opt_ln moneyness) (\<lambda>ln_moneyness.
       let sigma2_half = quo (vol * vol) (2 * wad);
           numerator = ln_moneyness + opt_mul (rate + sigma2_half) t in
     and_then (opt_raw_div wad_sq t) (\<lambda>inv_t.
     and_then (opt_inv_sqrt inv_t) (\<lambda>inv_sqrt_t.
       let sigma_sqrt_t = opt_mul vol inv_sqrt_t in
       if sigma_sqrt_t \<le> 0 then Inl Zero_sigma_sqrt_t
       else and_then (opt_div numerator sigma_sqrt_t) (\<lambda>d1.
         Inr (d1, d1 - sigma_sqrt_t, sigma_sqrt_t))))))"

definition intrinsic_value :: "int \<Rightarrow> int \<Rightarrow> bool \<Rightarrow> int" where
  "intrinsic_value spot strike is_call =
     (let v = (if is_call then spot - strike else strike - spot) in if v < 0 then 0 else v)"

definition years :: "int64 \<Rightarrow> int" where
  "years time_to_expiry = quo (time_to_expiry * wad) year_seconds"

text \<open>The formula, before the price is raised to the intrinsic value.\<close>

definition bs_formula :: "int \<Rightarrow> int \<Rightarrow> int \<Rightarrow> int \<Rightarrow> int \<Rightarrow> bool \<Rightarrow> int" where
  "bs_formula spot strike discount n_d1 n_d2 is_call =
     (if is_call then opt_mul spot n_d1 - opt_mul (opt_mul strike discount) n_d2
      else opt_mul (opt_mul strike discount) (wad - n_d2) - opt_mul spot (wad - n_d1))"

definition bs_live :: "int \<Rightarrow> int \<Rightarrow> int \<Rightarrow> int \<Rightarrow> int \<Rightarrow> bool \<Rightarrow> opt_error + int" where
  "bs_live spot strike t rate vol is_call =
     and_then (opt_d1d2 spot strike t rate vol) (\<lambda>(d1, d2, _).
     and_then (normal_cdf d1) (\<lambda>n_d1.
     and_then (normal_cdf d2) (\<lambda>n_d2.
     and_then (opt_exp_neg (opt_mul rate t)) (\<lambda>discount.
       Inr (bs_formula spot strike discount n_d1 n_d2 is_call)))))"

definition black_scholes :: "int \<Rightarrow> int \<Rightarrow> int64 \<Rightarrow> int \<Rightarrow> int \<Rightarrow> bool \<Rightarrow> opt_error + int" where
  "black_scholes spot strike time_to_expiry rate vol is_call =
     (if spot \<le> 0 \<or> strike \<le> 0 then Inl Bad_price_inputs
      else
        let intrinsic = intrinsic_value spot strike is_call; t = years time_to_expiry in
        if time_to_expiry = 0 \<or> vol = 0 then Inr intrinsic
        else if t \<le> 0 then Inr intrinsic
        else and_then (bs_live spot strike t rate vol is_call) (\<lambda>price.
               Inr (if price < intrinsic then intrinsic else price)))"

record option_greeks =
  gr_delta :: int
  gr_gamma :: int
  gr_vega :: int
  gr_theta :: int

definition flat_greeks :: "int \<Rightarrow> option_greeks" where
  "flat_greeks delta = \<lparr>gr_delta = delta, gr_gamma = 0, gr_vega = 0, gr_theta = 0\<rparr>"

definition expired_delta :: "int \<Rightarrow> int \<Rightarrow> bool \<Rightarrow> int" where
  "expired_delta spot strike is_call =
     (if is_call then (if strike < spot then wad else 0)
      else if spot < strike then - wad else 0)"

definition live_greeks :: "int \<Rightarrow> int \<Rightarrow> int \<Rightarrow> int \<Rightarrow> int \<Rightarrow> bool \<Rightarrow> opt_error + option_greeks" where
  "live_greeks spot strike t rate vol is_call =
     and_then (opt_d1d2 spot strike t rate vol) (\<lambda>(d1, _, sigma_sqrt_t).
     and_then (normal_cdf d1) (\<lambda>n_d1.
     and_then (normal_cdf (d1 - sigma_sqrt_t)) (\<lambda>n_d2.
     and_then (normal_pdf d1) (\<lambda>density.
     and_then (opt_raw_div (density * wad) (opt_mul spot sigma_sqrt_t)) (\<lambda>gamma.
     and_then (opt_div sigma_sqrt_t vol) (\<lambda>sqrt_t.
     and_then (opt_exp_neg (opt_mul rate t)) (\<lambda>discount.
     and_then (opt_raw_div (opt_mul (opt_mul spot density) vol) (2 * sigma_sqrt_t)) (\<lambda>first.
       let rate_strike_discount = opt_mul (opt_mul rate strike) discount;
           second = (if is_call then - opt_mul rate_strike_discount n_d2
                     else opt_mul rate_strike_discount (wad - n_d2))
       in Inr \<lparr>gr_delta = (if is_call then n_d1 else n_d1 - wad), gr_gamma = gamma,
               gr_vega = opt_mul (opt_mul spot density) sqrt_t, gr_theta = - first + second\<rparr>))))))))"

definition greeks :: "int \<Rightarrow> int \<Rightarrow> int64 \<Rightarrow> int \<Rightarrow> int \<Rightarrow> bool \<Rightarrow> opt_error + option_greeks" where
  "greeks spot strike time_to_expiry rate vol is_call =
     (if spot \<le> 0 \<or> strike \<le> 0 then Inl Bad_price_inputs
      else if time_to_expiry = 0 \<or> vol = 0 then Inr (flat_greeks (expired_delta spot strike is_call))
      else
        let t = years time_to_expiry in
        if t \<le> 0 then Inr (flat_greeks 0) else live_greeks spot strike t rate vol is_call)"

section \<open>The decimal codec\<close>

datatype wad_error = Empty_amount | No_digits | Too_many_decimals | Not_a_number

definition parse_wad_unsigned :: "string \<Rightarrow> wad_error + int" where
  "parse_wad_unsigned s =
     (case split_once (CHR ''.'') s of
        (whole, rest) \<Rightarrow>
          let fraction = (case rest of None \<Rightarrow> [] | Some f \<Rightarrow> f) in
          if whole = [] \<and> fraction = [] then Inl No_digits
          else if 18 < length fraction then Inl Too_many_decimals
          else if \<not> (list_all is_digit whole \<and> list_all is_digit fraction) then Inl Not_a_number
          else
            let w = (if whole = [] then ''0'' else whole);
                scaled = fraction @ replicate (18 - length fraction) (CHR ''0'')
            in (case parse_int (w @ scaled) of None \<Rightarrow> Inl Not_a_number | Some n \<Rightarrow> Inr n))"

definition parse_wad :: "string \<Rightarrow> wad_error + int" where
  "parse_wad value =
     (case trim_space value of
        [] \<Rightarrow> Inl Empty_amount
      | c # rest \<Rightarrow>
          let neg = (c = CHR ''-''); s = (if neg \<or> c = CHR ''+'' then rest else c # rest) in
          if s = [] then Inl No_digits
          else and_then (parse_wad_unsigned s) (\<lambda>n. Inr (if neg then - n else n)))"

definition format_wad :: "int option \<Rightarrow> string" where
  "format_wad value =
     (case value of
        None \<Rightarrow> ''0''
      | Some v \<Rightarrow>
          let whole = quo \<bar>v\<bar> wad; fraction = \<bar>v\<bar> mod wad; sign = (if v < 0 then ''-'' else []) in
          if fraction = 0 then sign @ int_string whole
          else
            let text = int_string fraction;
                padded = replicate (18 - length text) (CHR ''0'') @ text
            in sign @ int_string whole @ ''.'' @ trim_right (\<lambda>c. c = CHR ''0'') padded)"

end
