(* ===== verification/Option_Props.thy ===== *)
theory Option_Props
  imports Option_Math
begin

text \<open>
  What the option library guarantees: the functional equation of its logarithm, the bounds of
  the exponential and the distribution, the arbitrage bounds and the parity of its prices, the
  signs of the Greeks, and the round trip of the decimal codec.
\<close>

named_theorems opt_bounds "bounds of the fixed-point functions"

lemma wad_pos [simp]: "0 < wad" "0 \<le> wad" "wad \<noteq> 0" "\<not> wad \<le> 0" "0 < ln2" "ln2 \<noteq> 0"
  by (simp_all add: wad_def ln2_def)

section \<open>Multiplication and division\<close>

lemma opt_mul_nonneg: "0 \<le> a \<Longrightarrow> 0 \<le> b \<Longrightarrow> opt_mul a b = a * b div wad"
  by (simp add: opt_mul_def quo_nonneg)

lemma opt_mul_ge_0 [opt_bounds]: "0 \<le> a \<Longrightarrow> 0 \<le> b \<Longrightarrow> 0 \<le> opt_mul a b"
  by (simp add: opt_mul_nonneg pos_imp_zdiv_nonneg_iff)

lemma opt_mul_le [opt_bounds]:
  assumes "0 \<le> a" "0 \<le> b" "b \<le> wad"
  shows "opt_mul a b \<le> a"
proof -
  have "a * b \<le> a * wad" using assms by (intro mult_left_mono)
  then have "a * b div wad \<le> a * wad div wad" by (intro zdiv_mono1) simp_all
  then show ?thesis using assms by (simp add: opt_mul_nonneg)
qed

text \<open>A value split between a weight and its complement loses at most one unit.\<close>

lemma opt_mul_complement:
  assumes "0 \<le> a" "0 \<le> b" "b \<le> wad"
  shows "a - 1 \<le> opt_mul a b + opt_mul a (wad - b)" "opt_mul a b + opt_mul a (wad - b) \<le> a"
proof -
  have e: "a * b + a * (wad - b) = a * wad" by (simp add: right_diff_distrib)
  have "a * b = opt_mul a b * wad + a * b mod wad" "a * (wad - b) = opt_mul a (wad - b) * wad + a * (wad - b) mod wad"
    using assms by (simp_all add: opt_mul_nonneg)
  moreover have "0 \<le> a * b mod wad" "a * b mod wad < wad" "0 \<le> a * (wad - b) mod wad" "a * (wad - b) mod wad < wad"
    by simp_all
  ultimately have "a * wad < (opt_mul a b + opt_mul a (wad - b) + 2) * wad"
    "(opt_mul a b + opt_mul a (wad - b)) * wad \<le> a * wad"
    using e unfolding distrib_right by linarith+
  then show "a - 1 \<le> opt_mul a b + opt_mul a (wad - b)" "opt_mul a b + opt_mul a (wad - b) \<le> a"
    by simp_all
qed

section \<open>Logarithm\<close>

lemma ln_up_shift: "ln_up m (n + k) = (case ln_up m n of (m', n') \<Rightarrow> (m', n' + k))"
proof (induction m n rule: ln_up.induct)
  case (1 m n)
  show ?case
  proof (cases "0 < m \<and> m < wad")
    case True
    with 1 [OF True] show ?thesis
      by (subst (1 2) ln_up.simps) (simp add: diff_add_eq)
  qed (subst (1 2) ln_up.simps, auto)
qed

lemma ln_down_shift: "ln_down m (n + k) = (case ln_down m n of (m', n') \<Rightarrow> (m', n' + k))"
proof (induction m n rule: ln_down.induct)
  case (1 m n)
  show ?case
  proof (cases "2 * wad \<le> m")
    case True
    with 1 [OF True] show ?thesis
      by (subst (1 2) ln_down.simps) (simp add: add.assoc add.commute [of k])
  qed (subst (1 2) ln_down.simps, simp)
qed

lemma opt_ln_double:
  assumes "0 < x"
  shows "opt_ln (2 * x) = and_then (opt_ln x) (\<lambda>l. Inr (l + ln2))"
proof -
  consider "wad \<le> x" | "2 * x < wad" | "x < wad" "wad \<le> 2 * x" by linarith
  then show ?thesis
  proof cases
    case 1
    then have "ln_down (2 * x) 0 = ln_down x (0 + 1)"
      using assms by (subst ln_down.simps) (simp add: quo_nonneg)
    with 1 assms show ?thesis
      unfolding ln_down_shift by (simp add: opt_ln_def distrib_right split: prod.splits)
  next
    case 2
    have "ln_up x (0 + 1) = ln_up (2 * x) 0" using assms 2 by (subst ln_up.simps) (simp add: mult.commute)
    then have "ln_up (2 * x) 0 = (case ln_up x 0 of (m, n) \<Rightarrow> (m, n + 1))" unfolding ln_up_shift by simp
    with 2 assms show ?thesis
      by (simp add: opt_ln_def distrib_right split: prod.splits)
  next
    case 3
    have "ln_up x 0 = ln_up (2 * x) (- 1)" using assms 3 by (subst ln_up.simps) (simp add: mult.commute)
    also have "\<dots> = (2 * x, - 1)" using 3 by (subst ln_up.simps) simp
    finally have u: "ln_up x 0 = (2 * x, - 1)" .
    have "ln_down (2 * x) 0 = (2 * x, 0)" using 3 by (subst ln_down.simps) simp
    with u 3 assms show ?thesis by (simp add: opt_ln_def)
  qed
qed

section \<open>Exponential\<close>

lemma exp_series_ge: "0 \<le> rm \<Longrightarrow> 0 \<le> term \<Longrightarrow> 0 \<le> i \<Longrightarrow> result \<le> exp_series k i rm term result"
proof (induction k arbitrary: i "term" result)
  case (Suc k)
  have "0 \<le> quo (term * rm) (wad * i)" using Suc.prems by (intro quo_ge_0) simp_all
  with Suc.IH [OF Suc.prems(1) this, of "i + 1" "result + quo (term * rm) (wad * i)"] Suc.prems
  show ?case by (simp add: Let_def)
qed simp

lemma exp_remainder: "0 \<le> x \<Longrightarrow> 0 \<le> x - quo x ln2 * ln2"
  using quo_nonneg [of x ln2] minus_div_mult_eq_mod [of x ln2] by simp

lemma opt_exp_ge: "opt_exp x = Inr e \<Longrightarrow> wad \<le> e"
proof -
  assume a: "opt_exp x = Inr e"
  then have x: "0 \<le> x" by (auto simp: opt_exp_def split: if_splits)
  let ?r = "exp_series 24 1 (x - quo x ln2 * ln2) wad wad"
  have r: "wad \<le> ?r" using exp_remainder [OF x] by (intro exp_series_ge) simp_all
  have "e = ?r * 2 ^ nat (quo x ln2)" using a by (auto simp: opt_exp_def Let_def split: if_splits)
  moreover have "0 \<le> ?r" using r wad_pos(2) by linarith
  then have "?r * 1 \<le> ?r * 2 ^ nat (quo x ln2)" by (intro mult_left_mono) simp_all
  ultimately show ?thesis using r by simp
qed

lemma opt_exp_errors: "opt_exp x = Inl err \<Longrightarrow> err = (if x < 0 then Exp_negative else Exp_overflow)"
proof -
  assume a: "opt_exp x = Inl err"
  have "wad \<le> exp_series 24 1 (x - quo x ln2 * ln2) wad wad" if "0 \<le> x"
    using exp_remainder [OF that] by (intro exp_series_ge) simp_all
  then have "\<not> exp_series 24 1 (x - quo x ln2 * ln2) wad wad < 0" if "0 \<le> x"
    using that wad_pos(1) by (metis leD less_le_trans linorder_not_less order_less_imp_le)
  with a show ?thesis by (auto simp: opt_exp_def Let_def split: if_splits)
qed

lemma opt_exp_neg_bounds [opt_bounds]:
  assumes "opt_exp_neg x = Inr r"
  shows "0 \<le> r" "r \<le> wad"
proof -
  obtain e where e: "opt_exp x = Inr e" "opt_raw_div wad_sq e = Inr r"
    using assms by (auto simp: opt_exp_neg_def split: if_splits)
  note w = opt_exp_ge [OF e(1)]
  then have q: "r = wad_sq div e" using e(2) wad_pos(1)
    by (auto simp: opt_raw_div_def quo_nonneg wad_sq_def split: if_splits)
  moreover have "0 < e" using w wad_pos(1) by linarith
  ultimately show "0 \<le> r" by (simp add: pos_imp_zdiv_nonneg_iff wad_sq_def)
  have "wad_sq div e \<le> wad_sq div wad" using w by (intro zdiv_mono2) (simp_all add: wad_sq_def)
  then show "r \<le> wad" by (simp add: q wad_sq_def wad_def)
qed

lemma opt_exp_neg_errors: "opt_exp_neg x = Inl err \<Longrightarrow> err = Exp_negative \<or> err = Exp_overflow"
proof -
  assume a: "opt_exp_neg x = Inl err"
  have "opt_raw_div wad_sq e \<noteq> Inl err" if "opt_exp x = Inr e" for e
    using opt_exp_ge [OF that] wad_pos(1) by (auto simp: opt_raw_div_def)
  with a show ?thesis by (auto simp: opt_exp_neg_def dest: opt_exp_errors split: if_splits)
qed

section \<open>The distribution\<close>

lemma normal_pdf_ge_0 [opt_bounds]: "normal_pdf x = Inr d \<Longrightarrow> 0 \<le> d"
  by (auto simp: normal_pdf_def inv_sqrt_2pi_def intro!: opt_mul_ge_0 dest: opt_exp_neg_bounds(1))

lemma clamp_upper_bounds: "0 \<le> clamp_upper u" "clamp_upper u \<le> wad"
  by (auto simp: clamp_upper_def Let_def)

lemma normal_cdf_bounds [opt_bounds]:
  assumes "normal_cdf x = Inr n"
  shows "0 \<le> n" "n \<le> wad"
  using assms clamp_upper_bounds by (auto simp: normal_cdf_def Let_def)

lemma normal_pdf_errors: "normal_pdf x = Inl err \<Longrightarrow> err = Exp_negative \<or> err = Exp_overflow"
  by (auto simp: normal_pdf_def dest: opt_exp_neg_errors)

lemma normal_cdf_errors: "normal_cdf x = Inl err \<Longrightarrow> err = Exp_negative \<or> err = Exp_overflow"
  by (auto simp: normal_cdf_def Let_def dest: normal_pdf_errors)

lemma normal_cdf_mirror:
  assumes "0 < x"
  shows "normal_cdf (- x) = and_then (normal_cdf x) (\<lambda>n. Inr (wad - n))"
  using assms by (cases "normal_pdf x") (simp_all add: normal_cdf_def Let_def)

lemma exp_overflow: "200 * ln2 \<le> x \<Longrightarrow> opt_exp_neg x = Inl Exp_overflow"
proof -
  assume a: "200 * ln2 \<le> x"
  then have x: "0 \<le> x" by (simp add: ln2_def)
  have "quo (200 * ln2) ln2 \<le> quo x ln2" using a by (intro quo_mono) simp_all
  then have "200 \<le> quo x ln2" using quo_mult_cancel [of ln2 200] by simp
  then have "opt_exp x = Inl Exp_overflow" using x by (simp add: opt_exp_def Let_def)
  then show ?thesis using x by (simp add: opt_exp_neg_def)
qed

lemma normal_cdf_far:
  assumes "16660000000000000000 \<le> \<bar>x\<bar>"
  shows "normal_cdf x = Inl Exp_overflow"
proof -
  let ?t = "\<bar>x\<bar>"
  have "16660000000000000000 * 16660000000000000000 \<le> ?t * ?t" using assms by (intro mult_mono) auto
  then have "quo 277555600000000000000000000000000000000 wad \<le> opt_mul ?t ?t"
    unfolding opt_mul_def by (intro quo_mono) simp_all
  then have "277555600000000000000 \<le> opt_mul ?t ?t" by (simp add: quo_nonneg wad_def)
  then have "quo 277555600000000000000 2 \<le> quo (opt_mul ?t ?t) 2" by (intro quo_mono) simp_all
  then have "200 * ln2 \<le> quo (opt_mul ?t ?t) 2" by (simp add: quo_nonneg ln2_def)
  then have "normal_pdf ?t = Inl Exp_overflow" by (simp add: normal_pdf_def exp_overflow)
  then show ?thesis by (simp add: normal_cdf_def)
qed

section \<open>Prices\<close>

lemma opt_d1d2_sigma: "opt_d1d2 spot strike t rate vol = Inr (d1, d2, s) \<Longrightarrow> 0 < s \<and> d2 = d1 - s"
  by (auto simp: opt_d1d2_def Let_def split: if_splits)

text \<open>A live price is the formula at two probabilities and a discount factor.\<close>

lemma bs_live_formula:
  assumes "bs_live spot strike t rate vol is_call = Inr price"
  obtains n1 n2 disc where "0 \<le> n1" "n1 \<le> wad" "0 \<le> n2" "n2 \<le> wad" "0 \<le> disc" "disc \<le> wad"
    "opt_exp_neg (opt_mul rate t) = Inr disc" "price = bs_formula spot strike disc n1 n2 is_call"
    "\<And>c. bs_live spot strike t rate vol c = Inr (bs_formula spot strike disc n1 n2 c)"
proof -
  obtain d1 d2 s n1 n2 disc where r: "opt_d1d2 spot strike t rate vol = Inr (d1, d2, s)"
    "normal_cdf d1 = Inr n1" "normal_cdf d2 = Inr n2" "opt_exp_neg (opt_mul rate t) = Inr disc"
    "price = bs_formula spot strike disc n1 n2 is_call"
    using assms by (auto simp: bs_live_def)
  show thesis
    by (rule that [OF normal_cdf_bounds [OF r(2)] normal_cdf_bounds [OF r(3)] opt_exp_neg_bounds [OF r(4)] r(4,5)])
       (simp add: bs_live_def r)
qed

lemma bs_formula_le:
  assumes "0 \<le> spot" "0 \<le> strike" "0 \<le> n1" "n1 \<le> wad" "0 \<le> n2" "n2 \<le> wad" "0 \<le> disc" "disc \<le> wad"
  shows "bs_formula spot strike disc n1 n2 is_call \<le> (if is_call then spot else strike)"
proof -
  have k: "0 \<le> opt_mul strike disc" "opt_mul strike disc \<le> strike" using assms by (auto intro: opt_bounds)
  have "opt_mul spot n1 \<le> spot" "0 \<le> opt_mul (opt_mul strike disc) n2"
    "opt_mul (opt_mul strike disc) (wad - n2) \<le> opt_mul strike disc" "0 \<le> opt_mul spot (wad - n1)"
    using assms k by (auto intro: opt_bounds)
  with k show ?thesis by (simp add: bs_formula_def)
qed

lemma bs_formula_parity:
  assumes "0 \<le> spot" "0 \<le> strike" "0 \<le> n1" "n1 \<le> wad" "0 \<le> n2" "n2 \<le> wad" "0 \<le> disc"
  shows "\<bar>bs_formula spot strike disc n1 n2 True - bs_formula spot strike disc n1 n2 False
    - (spot - opt_mul strike disc)\<bar> \<le> 1"
proof -
  have k: "0 \<le> opt_mul strike disc" using assms by (auto intro: opt_bounds)
  show ?thesis
    using opt_mul_complement [OF assms(1,3,4)] opt_mul_complement [OF k assms(5,6)]
    by (simp add: bs_formula_def)
qed

lemma intrinsic_bounds:
  "0 < spot \<Longrightarrow> 0 < strike \<Longrightarrow> 0 \<le> intrinsic_value spot strike c \<and> intrinsic_value spot strike c \<le> (if c then spot else strike)"
  by (auto simp: intrinsic_value_def Let_def)

lemma bs_live_no_panic:
  assumes "0 < strike" "0 < t"
  shows "bs_live spot strike t rate vol c \<noteq> Inl Panic_division"
proof -
  have "opt_d1d2 spot strike t rate vol \<noteq> Inl Panic_division"
    using assms by (auto simp: opt_d1d2_def opt_div_def opt_raw_div_def opt_ln_def opt_inv_sqrt_def Let_def
        split: if_splits prod.splits)
  then show ?thesis
    by (auto simp: bs_live_def dest: normal_cdf_errors opt_exp_neg_errors)
qed

section \<open>The codec\<close>

lemma wad_eq: "wad = 10 ^ 18"
  by (simp add: wad_def)

lemma list_all_zeros [simp]: "list_all is_digit (replicate n (CHR ''0''))"
  by (simp add: list_all_iff is_digit_def)

lemma digits_dot: "list_all is_digit s \<Longrightarrow> CHR ''.'' \<notin> set s"
  by (rule digits_no_char) (simp_all add: is_digit_def)

lemma parse_unsigned_whole:
  assumes "list_all is_digit w" "w \<noteq> []"
  shows "parse_wad_unsigned w = Inr (digits_val w * wad)"
  using assms parse_int_digits [of "w @ replicate 18 (CHR ''0'')"]
  by (simp add: parse_wad_unsigned_def split_once_absent digits_dot digits_val_append wad_eq list_all_zeros
      is_digit_def Let_def list_all_append)

lemma parse_unsigned_frac:
  assumes "list_all is_digit w" "w \<noteq> []" "list_all is_digit f" "length f \<le> 18"
  shows "parse_wad_unsigned (w @ CHR ''.'' # f) = Inr (digits_val w * wad + digits_val f * 10 ^ (18 - length f))"
proof -
  have l: "length f + (18 - length f) = 18" using assms(4) by simp
  have "list_all is_digit (w @ f @ replicate (18 - length f) (CHR ''0''))"
    using assms by (simp add: list_all_append list_all_zeros is_digit_def)
  then have "parse_int (w @ f @ replicate (18 - length f) (CHR ''0''))
      = Some (digits_val w * 10 ^ 18 + digits_val f * 10 ^ (18 - length f))"
    using assms(2) l by (simp add: parse_int_digits digits_val_append)
  then show ?thesis
    using assms by (simp add: parse_wad_unsigned_def split_once_append digits_dot wad_eq Let_def)
qed

lemma trim_zeros_digits:
  assumes "list_all is_digit s"
  shows "list_all is_digit (trim_right (\<lambda>c. c = CHR ''0'') s)"
    "digits_val (trim_right (\<lambda>c. c = CHR ''0'') s) * 10 ^ (length s - length (trim_right (\<lambda>c. c = CHR ''0'') s)) = digits_val s"
    "length (trim_right (\<lambda>c. c = CHR ''0'') s) \<le> length s"
proof -
  obtain n where n: "s = trim_right (\<lambda>c. c = CHR ''0'') s @ replicate n (CHR ''0'')" (is "s = ?t @ _")
    by (rule trim_right_split)
  from n show l: "length ?t \<le> length s" by (metis length_append le_add1)
  from n have "length s = length ?t + n" by (metis length_append length_replicate)
  then show "digits_val ?t * 10 ^ (length s - length ?t) = digits_val s"
    using digits_val_append [of ?t "replicate n (CHR ''0'')"] n by simp
  from assms n show "list_all is_digit ?t" by (metis list_all_append)
qed

lemma int_string_nonneg: "0 \<le> i \<Longrightarrow> int_string i = nat_string (nat i)"
  by (simp add: int_string_def)

text \<open>The digits of a magnitude.\<close>

lemma format_unsigned:
  assumes "0 \<le> v"
  obtains c cs where "format_wad (Some v) = c # cs" "is_digit c" "\<not> is_space (last (c # cs))"
    "parse_wad_unsigned (c # cs) = Inr v"
proof -
  let ?w = "nat_string (nat (v div wad))"
  have q: "quo v wad = v div wad" "0 \<le> v div wad" using assms by (simp_all add: quo_nonneg pos_imp_zdiv_nonneg_iff)
  obtain c cs where w: "?w = c # cs" "is_digit c" "list_all is_digit cs" by (rule nat_string_Cons)
  have lw: "\<not> is_space (last ?w)"
    using nat_string_digits [of "nat (v div wad)"] w(1) digit_not_sign by (metis last_in_set list.discI list_all_iff)
  have vm: "v = v div wad * wad + v mod wad" by simp
  show thesis
  proof (cases "v mod wad = 0")
    case True
    have "parse_wad_unsigned ?w = Inr v" using True vm q by (simp add: parse_unsigned_whole)
    then show thesis
      using that [of c cs] w lw True q assms by (simp add: format_wad_def Let_def int_string_nonneg)
  next
    case False
    define tx where "tx = nat_string (nat (v mod wad))"
    define padded where "padded = replicate (18 - length tx) (CHR ''0'') @ tx"
    define f where "f = trim_right (\<lambda>c. c = CHR ''0'') padded"
    have "v mod wad < wad" "0 \<le> v mod wad" by simp_all
    then have "nat (v mod wad) < 10 ^ 18" by (simp add: wad_def nat_less_iff)
    then have len: "length tx \<le> 18" unfolding tx_def by (intro length_nat_string) simp_all
    have pd: "list_all is_digit padded" "length padded = 18" "digits_val padded = v mod wad"
      using len by (simp_all add: padded_def tx_def list_all_append list_all_zeros is_digit_def digits_val_append)
    note tz = trim_zeros_digits [OF pd(1), folded f_def]
    have "parse_wad_unsigned (?w @ CHR ''.'' # f) = Inr (digits_val ?w * wad + digits_val f * 10 ^ (18 - length f))"
      using tz pd by (intro parse_unsigned_frac) simp_all
    also have "\<dots> = Inr v" using tz(2) pd q vm by simp
    finally have p: "parse_wad_unsigned (?w @ CHR ''.'' # f) = Inr v" .
    have "\<not> is_space (last (?w @ CHR ''.'' # f))"
    proof (cases "f = []")
      case True
      then show ?thesis by (simp add: is_space_def)
    next
      case ne: False
      then have "last f \<in> set f" by simp
      with tz(1) have "is_digit (last f)" by (simp add: list_all_iff)
      with ne digit_not_sign show ?thesis by simp
    qed
    then have la: "\<not> is_space (last (c # (cs @ CHR ''.'' # f)))" using w(1) by simp
    have fw: "format_wad (Some v) = ?w @ CHR ''.'' # f"
      unfolding format_wad_def option.case Let_def using False assms
      by (simp add: q int_string_nonneg f_def padded_def tx_def)
    show thesis
      by (rule that [OF _ w(2) la]) (simp_all only: fw w(1) append_Cons p [unfolded w(1) append_Cons])
  qed
qed

lemma format_negative: "v < 0 \<Longrightarrow> format_wad (Some v) = CHR ''-'' # format_wad (Some (- v))"
  by (simp add: format_wad_def Let_def)

lemma parse_format_wad: "parse_wad (format_wad (Some v)) = Inr v"
proof (cases "v < 0")
  case False
  then have "0 \<le> v" by simp
  then obtain c cs where f: "format_wad (Some v) = c # cs" "is_digit c" "\<not> is_space (last (c # cs))"
    "parse_wad_unsigned (c # cs) = Inr v" by (rule format_unsigned)
  then have "trim_space (c # cs) = c # cs" using digit_not_sign by (intro trim_space_id) simp_all
  with f digit_not_sign [OF f(2)] show ?thesis by (simp add: parse_wad_def Let_def)
next
  case True
  then have "0 \<le> - v" by simp
  then obtain c cs where f: "format_wad (Some (- v)) = c # cs" "is_digit c" "\<not> is_space (last (c # cs))"
    "parse_wad_unsigned (c # cs) = Inr (- v)" by (rule format_unsigned)
  then have "trim_space (CHR ''-'' # c # cs) = CHR ''-'' # c # cs"
    by (intro trim_space_id) (simp_all add: is_space_def)
  with f True show ?thesis by (simp add: parse_wad_def Let_def format_negative)
qed

interpretation wad_codec: codec "\<lambda>v. format_wad (Some v)" parse_wad
  by unfold_locales (rule parse_format_wad)

section \<open>Evaluated examples\<close>

text \<open>
  Concrete prices, evaluated part by part: a thirty-day option at the money (spot and strike
  100, rate five percent, volatility eighty percent), a one-day option on a spot of one unit, and
  a one-day call at twice the strike with ten percent volatility.
\<close>

lemma bs_live_parts:
  "opt_d1d2 spot strike t rate vol = Inr (d1, d2, s) \<Longrightarrow> normal_cdf d1 = Inr n1 \<Longrightarrow> normal_cdf d2 = Inr n2
    \<Longrightarrow> opt_exp_neg (opt_mul rate t) = Inr disc
    \<Longrightarrow> bs_live spot strike t rate vol c = Inr (bs_formula spot strike disc n1 n2 c)"
  by (simp add: bs_live_def)

lemmas eval_simps = opt_div_def opt_raw_div_def opt_mul_def quo_def wad_defs

lemma eval_parts:
  "years 2592000 = 82191780821917808" "years 86400 = 2739726027397260"
  "opt_ln 1000000000000000000 = Inr 0" "opt_ln 2000000000000000000 = Inr 693147180559945309"
  "opt_inv_sqrt 12166666666666666699 = Inr 286691089540497942"
  "opt_inv_sqrt 365000000000000036500 = Inr 52342392259021374"
  "normal_cdf 132594628912480293 = Inr 552743044790884413"
  "normal_cdf (- 96758242719918060) = Inr 461459131962583719"
  "normal_pdf 132594628912480293 = Inr 395450680571545815"
  "normal_cdf 2617119612951010 = Inr 501044086017153863"
  "normal_cdf (- 2617119612951127) = Inr 498955913982846137"
  "normal_pdf 2617119612951010 = Inr 398940914163085822"
  "opt_exp_neg 4109589041095890 = Inr 995898843764204370" "opt_exp_neg 0 = Inr 1000000000000000000"
  by code_simp+

lemma atm_d1d2: "opt_d1d2 100000000000000000000 100000000000000000000 82191780821917808
    50000000000000000 800000000000000000 = Inr (132594628912480293, - 96758242719918060, 229352871632398353)"
  by (simp add: opt_d1d2_def eval_simps eval_parts)

lemma unit_d1d2: "opt_d1d2 1 1 2739726027397260 0 100000000000000000 =
    Inr (2617119612951010, - 2617119612951127, 5234239225902137)"
  by (simp add: opt_d1d2_def eval_simps eval_parts)

lemma deep_d1d2: "opt_d1d2 100000000000000000000 50000000000000000000 2739726027397260
    50000000000000000 100000000000000000 = Inr (132454371221819761000, 132449136982593858863, 5234239225902137)"
  by (simp add: opt_d1d2_def eval_simps eval_parts)

lemma example_call: "black_scholes 100000000000000000000 100000000000000000000 2592000
    50000000000000000 800000000000000000 True = Inr 9317642882491388274"
  using bs_live_parts [OF atm_d1d2 eval_parts(7,8), of 995898843764204370 True]
  by (simp add: black_scholes_def eval_parts Let_def intrinsic_value_def bs_formula_def opt_mul_def quo_def wad_def)

lemma example_put: "black_scholes 100000000000000000000 100000000000000000000 2592000
    50000000000000000 800000000000000000 False = Inr 8907527258911825273"
  using bs_live_parts [OF atm_d1d2 eval_parts(7,8), of 995898843764204370 False]
  by (simp add: black_scholes_def eval_parts Let_def intrinsic_value_def bs_formula_def opt_mul_def quo_def wad_def)

section \<open>Claims\<close>

text \<open>The logarithm obeys its functional equation exactly: doubling the argument adds the
  constant \<open>ln 2\<close>, however the argument is normalised.\<close>

theorem ln_of_double:
  assumes "0 < x" and "opt_ln x = Inr l"
  shows "opt_ln (2 * x) = Inr (l + ln2)"
  using opt_ln_double [OF assms(1)] assms(2) by simp

text \<open>The distribution function is between zero and one and symmetric.\<close>

theorem normal_cdf_symmetric:
  assumes "0 < x" and "normal_cdf x = Inr n"
  shows "normal_cdf (- x) = Inr (wad - n) \<and> 0 \<le> n \<and> n \<le> wad"
  using normal_cdf_mirror [OF assms(1)] normal_cdf_bounds [OF assms(2)] assms(2) by simp

text \<open>C10: no-arbitrage bounds. A price is at least the intrinsic value, and a call costs at most the
  spot, a put at most the strike.\<close>

theorem option_price_bounds:
  assumes "black_scholes spot strike tte rate vol is_call = Inr price"
  shows "0 \<le> price \<and> (if is_call then spot - strike else strike - spot) \<le> price
    \<and> price \<le> (if is_call then spot else strike)"
proof -
  let ?i = "intrinsic_value spot strike is_call"
  have pos: "0 < spot" "0 < strike" using assms by (auto simp: black_scholes_def split: if_splits)
  note i = intrinsic_bounds [OF pos, of is_call]
  have "?i \<le> price \<and> price \<le> (if is_call then spot else strike)"
  proof (cases "price = ?i")
    case False
    then obtain v where v: "bs_live spot strike (years tte) rate vol is_call = Inr v"
      "price = (if v < ?i then ?i else v)"
      using assms by (auto simp: black_scholes_def Let_def split: if_splits)
    obtain n1 n2 disc where f: "0 \<le> n1" "n1 \<le> wad" "0 \<le> n2" "n2 \<le> wad" "0 \<le> disc" "disc \<le> wad"
      "v = bs_formula spot strike disc n1 n2 is_call"
      by (rule bs_live_formula [OF v(1)])
    have "v \<le> (if is_call then spot else strike)"
      unfolding f(7) using pos f by (intro bs_formula_le) simp_all
    with v(2) i show ?thesis by (simp split: if_splits)
  qed (use i in simp)
  moreover have "(if is_call then spot - strike else strike - spot) \<le> ?i"
    by (simp add: intrinsic_value_def Let_def)
  ultimately show ?thesis using i by linarith
qed

text \<open>Put-call parity. Where neither price is raised to its intrinsic value, the call minus the
  put is the spot minus the discounted strike, to within one unit of the last place.\<close>

theorem put_call_parity:
  assumes "black_scholes spot strike tte rate vol True = Inr c" and "spot - strike < c" and "0 < c"
    and "black_scholes spot strike tte rate vol False = Inr p" and "strike - spot < p" and "0 < p"
  shows "\<exists>discount. opt_exp_neg (opt_mul rate (years tte)) = Inr discount
    \<and> \<bar>c - p - (spot - opt_mul strike discount)\<bar> \<le> 1"
proof -
  have pos: "0 < spot" "0 < strike" using assms(1) by (auto simp: black_scholes_def split: if_splits)
  have neq: "c \<noteq> intrinsic_value spot strike True" "p \<noteq> intrinsic_value spot strike False"
    using assms by (auto simp: intrinsic_value_def Let_def split: if_splits)
  have live: "bs_live spot strike (years tte) rate vol True = Inr c" "bs_live spot strike (years tte) rate vol False = Inr p"
    using assms(1,4) neq by (auto simp: black_scholes_def Let_def split: if_splits)
  obtain n1 n2 disc where f: "0 \<le> n1" "n1 \<le> wad" "0 \<le> n2" "n2 \<le> wad" "0 \<le> disc" "disc \<le> wad"
    "opt_exp_neg (opt_mul rate (years tte)) = Inr disc" "c = bs_formula spot strike disc n1 n2 True"
    "\<And>b. bs_live spot strike (years tte) rate vol b = Inr (bs_formula spot strike disc n1 n2 b)"
    by (rule bs_live_formula [OF live(1)]) blast
  have "p = bs_formula spot strike disc n1 n2 False" using live(2) f(9) by simp
  with bs_formula_parity [OF _ _ f(1-5), of spot strike] pos f(7,8) show ?thesis by auto
qed

text \<open>Pricing never divides by zero, whatever its arguments are.\<close>

theorem pricing_never_panics:
  "black_scholes spot strike tte rate vol is_call \<noteq> Inl Panic_division"
  using bs_live_no_panic [of strike "years tte" spot rate vol is_call]
  by (auto simp: black_scholes_def Let_def)

text \<open>The Greeks can divide by zero: the gamma's denominator \<open>spot * sigma * sqrt(T)\<close> is truncated
  to zero for a small spot, although spot and strike are positive and the option has a price.\<close>

theorem greeks_can_panic:
  "greeks 1 1 86400 0 100000000000000000 True = Inl Panic_division
    \<and> (\<exists>price. black_scholes 1 1 86400 0 100000000000000000 True = Inr price)"
proof -
  have "greeks 1 1 86400 0 100000000000000000 True = Inl Panic_division"
    by (simp add: greeks_def eval_parts live_greeks_def unit_d1d2)
       (simp add: eval_simps)
  moreover have "\<exists>price. black_scholes 1 1 86400 0 100000000000000000 True = Inr price"
    using bs_live_parts [OF unit_d1d2 eval_parts(10,11), of 1000000000000000000 True] eval_parts(14)
    by (simp add: black_scholes_def eval_parts Let_def opt_mul_def)
  ultimately show ?thesis by blast
qed

text \<open>The distribution fails beyond 16.66 standard deviations, in both directions, since the
  density's exponential overflows; an option that far in or out of the money has no price.\<close>

theorem far_distribution_fails:
  assumes "16660000000000000000 \<le> \<bar>x\<bar>"
  shows "normal_cdf x = Inl Exp_overflow"
  using assms by (rule normal_cdf_far)

text \<open>The signs of the Greeks: a call's delta is between zero and one, a put's between minus one
  and zero, gamma and vega are not negative.\<close>

theorem greeks_signs:
  assumes "greeks spot strike tte rate vol is_call = Inr g" and "0 < vol"
  shows "0 \<le> gr_gamma g \<and> 0 \<le> gr_vega g
    \<and> (if is_call then 0 \<le> gr_delta g \<and> gr_delta g \<le> wad else - wad \<le> gr_delta g \<and> gr_delta g \<le> 0)"
proof (cases "tte = 0 \<or> years tte \<le> 0")
  case True
  then show ?thesis using assms
    by (auto simp: greeks_def flat_greeks_def expired_delta_def Let_def split: if_splits)
next
  case False
  then have live: "live_greeks spot strike (years tte) rate vol is_call = Inr g" and spot: "0 < spot"
    using assms by (auto simp: greeks_def Let_def split: if_splits)
  from live obtain d1 d2 s n1 n2 dens gamma sq disc first where
    r: "opt_d1d2 spot strike (years tte) rate vol = Inr (d1, d2, s)" "normal_cdf d1 = Inr n1"
      "normal_pdf d1 = Inr dens" "opt_raw_div (dens * wad) (opt_mul spot s) = Inr gamma"
      "opt_div s vol = Inr sq"
    and g: "gr_delta g = (if is_call then n1 else n1 - wad)" "gr_gamma g = gamma"
      "gr_vega g = opt_mul (opt_mul spot dens) sq"
    by (auto simp: live_greeks_def Let_def)
  have s: "0 < s" using opt_d1d2_sigma [OF r(1)] by simp
  have dens: "0 \<le> dens" using normal_pdf_ge_0 [OF r(3)] .
  have "0 \<le> opt_mul spot s" using spot s by (intro opt_mul_ge_0) simp_all
  then have "0 \<le> gamma" using r(4) dens by (auto simp: opt_raw_div_def intro!: quo_ge_0 split: if_splits)
  moreover have "0 \<le> sq" using r(5) s assms(2) by (auto simp: opt_div_def opt_raw_div_def intro!: quo_ge_0)
  then have "0 \<le> opt_mul (opt_mul spot dens) sq" using spot dens by (intro opt_mul_ge_0) simp_all
  ultimately show ?thesis using g normal_cdf_bounds [OF r(2)] by simp
qed

text \<open>C11: the decimal codec round-trips: parsing a formatted fixed-point value gives it back, and
  two values never share a text.\<close>

theorem wad_text_round_trip:
  "parse_wad (format_wad (Some v)) = Inr v \<and> (format_wad (Some v) = format_wad (Some w) \<longleftrightarrow> v = w)"
  using wad_codec.round_trip wad_codec.encode_eq_iff by simp

section \<open>Witnesses\<close>

theorem ln_of_double_witness: "opt_ln (2 * 1000000000000000000) = Inr (0 + ln2)"
proof -
  have "opt_ln 1000000000000000000 = Inr 0" by code_simp
  from ln_of_double [OF _ this] show ?thesis by simp
qed

theorem normal_cdf_symmetric_witness:
  "normal_cdf (- 1000000000000000000) = Inr (wad - 841344740846523979)"
proof -
  have "normal_cdf 1000000000000000000 = Inr 841344740846523979" by code_simp
  from normal_cdf_symmetric [OF _ this] show ?thesis by simp
qed

theorem option_price_bounds_witness:
  "\<exists>price. black_scholes 100000000000000000000 100000000000000000000 2592000
      50000000000000000 800000000000000000 True = Inr price \<and> price \<le> 100000000000000000000"
  using example_call option_price_bounds [OF example_call] by simp

theorem put_call_parity_witness:
  "\<exists>discount. opt_exp_neg (opt_mul 50000000000000000 (years 2592000)) = Inr discount
    \<and> \<bar>9317642882491388274 - 8907527258911825273
        - (100000000000000000000 - opt_mul 100000000000000000000 discount)\<bar> \<le> 1"
  using put_call_parity [OF example_call _ _ example_put] by simp

theorem far_distribution_witness:
  "normal_cdf 17000000000000000000 = Inl Exp_overflow
    \<and> black_scholes 100000000000000000000 50000000000000000000 86400 50000000000000000 100000000000000000 True
        = Inl Exp_overflow"
proof -
  have "normal_cdf 132454371221819761000 = Inl Exp_overflow" by (rule normal_cdf_far) simp
  then have "black_scholes 100000000000000000000 50000000000000000000 86400 50000000000000000 100000000000000000 True
        = Inl Exp_overflow"
    by (simp add: black_scholes_def eval_parts Let_def bs_live_def deep_d1d2)
  then show ?thesis using far_distribution_fails [of 17000000000000000000] by simp
qed

theorem greeks_signs_witness:
  "\<exists>g. greeks 100000000000000000000 100000000000000000000 2592000 50000000000000000 800000000000000000 True = Inr g
    \<and> 0 \<le> gr_gamma g"
proof -
  have "\<exists>g. greeks 100000000000000000000 100000000000000000000 2592000 50000000000000000 800000000000000000 True = Inr g"
    by (simp add: greeks_def eval_parts live_greeks_def atm_d1d2 Let_def)
       (simp add: eval_simps eval_parts)
  then show ?thesis using greeks_signs by fastforce
qed

end
