(* ===== verification/Go_Tables.thy ===== *)
theory Go_Tables
  imports Go_Text "HOL-Library.AList"
begin

text \<open>
  Database tables of the services: association lists from a key (a primary key or a unique index)
  to a row. \<open>AList.update\<close> writes the columns of a row; \<open>insert_row\<close> adds a row in the order of its
  primary key, which is the order in which GORM's \<open>First\<close> looks rows up. The facts here say what a
  write does to lookups, to the set of rows and to a sum over the rows.
\<close>

named_theorems table_facts "what writing one row does to a table"

text \<open>The primary keys are UUIDs, ordered as 128-bit numbers.\<close>

type_synonym uuid = nat

definition insert_row :: "uuid \<Rightarrow> 'r \<Rightarrow> (uuid \<times> 'r) list \<Rightarrow> (uuid \<times> 'r) list" where
  "insert_row i r t = insort_key fst (i, r) t"

lemma set_insert_row [table_facts]: "set (insert_row i r t) = insert (i, r) (set t)"
  by (simp add: insert_row_def set_insort_key)

lemma distinct_insert_row [table_facts]:
  "i \<notin> fst ` set t \<Longrightarrow> distinct (map fst (insert_row i r t)) \<longleftrightarrow> distinct (map fst t)"
proof -
  have "distinct (map fst (insort_key fst x t)) \<longleftrightarrow> fst x \<notin> fst ` set t \<and> distinct (map fst t)" for x :: "uuid \<times> 'a"
    by (induction t) (auto simp: set_insort_key)
  then show "i \<notin> fst ` set t \<Longrightarrow> ?thesis" by (simp add: insert_row_def)
qed

lemma map_of_insert_row [table_facts]:
  "i \<notin> fst ` set t \<Longrightarrow> map_of (insert_row i r t) = (map_of t)(i \<mapsto> r)"
  unfolding insert_row_def by (induction t) (auto simp: fun_eq_iff)

lemma sum_insert_row [table_facts]:
  fixes f :: "uuid \<times> 'r \<Rightarrow> int"
  shows "(\<Sum>x\<leftarrow>insert_row i r t. f x) = f (i, r) + (\<Sum>x\<leftarrow>t. f x)"
  unfolding insert_row_def by (induction t) auto

lemma sum_update_known [table_facts]:
  fixes f :: "'v \<Rightarrow> int"
  assumes "distinct (map fst al)" "map_of al k = Some v"
  shows "(\<Sum>x\<leftarrow>AList.update k w al. f (snd x)) = (\<Sum>x\<leftarrow>al. f (snd x)) - f v + f w"
  using assms
proof (induction al)
  case (Cons y al)
  show ?case
  proof (cases "fst y = k")
    case True
    with Cons.prems show ?thesis by (cases y) simp
  next
    case False
    with Cons show ?thesis by (cases y) auto
  qed
qed simp

lemma sum_update_new [table_facts]:
  fixes f :: "'v \<Rightarrow> int"
  assumes "k \<notin> fst ` set al"
  shows "(\<Sum>x\<leftarrow>AList.update k w al. f (snd x)) = (\<Sum>x\<leftarrow>al. f (snd x)) + f w"
  using assms by (induction al) auto

lemma set_alist_update: "distinct (map fst al) \<Longrightarrow>
    set (AList.update k v al) = insert (k, v) {x \<in> set al. fst x \<noteq> k}"
  by (induction al) (auto simp: image_iff)

lemma update_map_same [table_facts]:
  "map_of al k = Some v \<Longrightarrow> f w = f v \<Longrightarrow> map (\<lambda>x. f (snd x)) (AList.update k w al) = map (\<lambda>x. f (snd x)) al"
  by (induction al) (auto split: if_splits)

lemma map_of_known: "map_of t k = Some v \<Longrightarrow> k \<in> fst ` set t"
  by (metis domI dom_map_of_conv_image_fst)

text \<open>The text of a column as a number; what does not parse counts as zero.\<close>

definition stored_amount :: "string \<Rightarrow> int" where
  "stored_amount s = (case parse_int s of None \<Rightarrow> 0 | Some n \<Rightarrow> n)"

lemma stored_int_string [simp]: "stored_amount (int_string n) = n"
  by (simp add: stored_amount_def)

lemma stored_zero [simp]: "stored_amount ''0'' = 0"
  by (simp add: stored_amount_def parse_int_def is_digit_def digit_val_def)

lemma stored_parse: "(case parse_int s of None \<Rightarrow> 0 | Some n \<Rightarrow> n) = stored_amount s"
  by (simp add: stored_amount_def)

text \<open>\<open>strings.ToUpper\<close> on ASCII text.\<close>

definition upper_char :: "char \<Rightarrow> char" where
  "upper_char c = (if 97 \<le> (of_char c :: nat) \<and> (of_char c :: nat) \<le> 122 then char_of (of_char c - 32 :: nat) else c)"

definition to_upper :: "string \<Rightarrow> string" where
  "to_upper s = map upper_char s"

text \<open>\<open>big.Int.Div\<close> rounds so that the remainder is not negative, whatever the signs.\<close>

definition ediv :: "int \<Rightarrow> int \<Rightarrow> int" where
  "ediv a b = (if b < 0 then - (a div (- b)) else a div b)"

lemma ediv_pos [simp]: "0 \<le> b \<Longrightarrow> ediv a b = a div b"
  by (simp add: ediv_def)

lemma ediv_remainder: "b \<noteq> 0 \<Longrightarrow> 0 \<le> a - b * ediv a b \<and> a - b * ediv a b < \<bar>b\<bar>"
  using pos_mod_bound [of b a] pos_mod_sign [of b a] pos_mod_bound [of "- b" a] pos_mod_sign [of "- b" a]
  by (auto simp: ediv_def minus_div_mult_eq_mod [symmetric] algebra_simps)

end
