(* ===== verification/Rate_Limit.thy ===== *)
theory Rate_Limit
  imports Go_Tables
begin

text \<open>
  The rate limiters. Two services keep a log of request times per key and admit a request while
  fewer than the limit fall into the sliding window: the matching service
  (\<open>go/order_matching/main.go\<close>) and the distributed cache (\<open>go/distributed/cache/main.go\<close>). The API
  process (\<open>middleware/rate_limit.go\<close>) counts tokens per fixed window, and keeps a list of banned
  addresses. The promise of the sliding windows is the locale \<open>sliding_window\<close>, and both
  implementations are interpretations of it. The clock is an argument of each operation.
\<close>

section \<open>State\<close>

record limiter =
  lm_requests :: "(string \<times> time list) list"
  lm_limit :: int
  lm_window :: int64

text \<open>A missing key of the map reads as the empty slice.\<close>

definition request_times :: "limiter \<Rightarrow> string \<Rightarrow> time list" where
  "request_times l key = (case map_of (lm_requests l) key of None \<Rightarrow> [] | Some ts \<Rightarrow> ts)"

text \<open>A sweep over the map that drops the keys left without a time.\<close>

definition sweep_map :: "(time \<Rightarrow> bool) \<Rightarrow> (string \<times> time list) list \<Rightarrow> (string \<times> time list) list" where
  "sweep_map keep m = filter (\<lambda>(_, ts). ts \<noteq> []) (map (\<lambda>(k, ts). (k, filter keep ts)) m)"

section \<open>The matching service\<close>

text \<open>\<open>now.Sub(t)\<close> saturates at the ends of the duration range.\<close>

definition duration_between :: "time \<Rightarrow> time \<Rightarrow> int64" where
  "duration_between now t = max min_int64 (min max_int64 (now - t))"

definition om_new_limiter :: "int \<Rightarrow> int64 \<Rightarrow> limiter" where
  "om_new_limiter limit window = \<lparr>lm_requests = [], lm_limit = limit, lm_window = window\<rparr>"

definition om_allow :: "time \<Rightarrow> string \<Rightarrow> limiter \<Rightarrow> bool \<times> limiter" where
  "om_allow now key l =
     (let valid = filter (\<lambda>t. duration_between now t < lm_window l) (request_times l key) in
      if lm_limit l \<le> int (length valid)
        then (False, l\<lparr>lm_requests := AList.update key valid (lm_requests l)\<rparr>)
      else (True, l\<lparr>lm_requests := AList.update key (valid @ [now]) (lm_requests l)\<rparr>))"

definition om_cleanup :: "time \<Rightarrow> limiter \<Rightarrow> limiter" where
  "om_cleanup now l = l\<lparr>lm_requests := sweep_map (\<lambda>t. duration_between now t < lm_window l) (lm_requests l)\<rparr>"

section \<open>The cache service\<close>

definition cache_new_limiter :: "int \<Rightarrow> int64 \<Rightarrow> limiter" where
  "cache_new_limiter rate window = \<lparr>lm_requests = [], lm_limit = rate, lm_window = window\<rparr>"

definition cache_allow :: "time \<Rightarrow> string \<Rightarrow> limiter \<Rightarrow> bool \<times> limiter" where
  "cache_allow now key l =
     (let cutoff = now + wrap64 (- lm_window l);
          valid = filter (\<lambda>t. cutoff < t) (request_times l key) in
      if lm_limit l \<le> int (length valid)
        then (False, l\<lparr>lm_requests := AList.update key valid (lm_requests l)\<rparr>)
      else (True, l\<lparr>lm_requests := AList.update key (valid @ [now]) (lm_requests l)\<rparr>))"

definition cache_cleanup :: "time \<Rightarrow> limiter \<Rightarrow> limiter" where
  "cache_cleanup now l =
     (let cutoff = now + wrap64 (wrap64 (- lm_window l) * 2)
      in l\<lparr>lm_requests := sweep_map (\<lambda>t. cutoff < t) (lm_requests l)\<rparr>)"

section \<open>The API process: fixed windows\<close>

record bucket =
  bu_tokens :: int
  bu_last_fill :: time

record bucket_limiter =
  bl_requests :: "(string \<times> bucket) list"
  bl_rate :: int
  bl_window :: int64

definition new_bucket_limiter :: "int \<Rightarrow> int64 \<Rightarrow> bucket_limiter" where
  "new_bucket_limiter rate window = \<lparr>bl_requests = [], bl_rate = rate, bl_window = window\<rparr>"

definition bucket_allow :: "time \<Rightarrow> string \<Rightarrow> bucket_limiter \<Rightarrow> bool \<times> bucket_limiter" where
  "bucket_allow now key l =
     (let fresh = (True, l\<lparr>bl_requests := AList.update key \<lparr>bu_tokens = bl_rate l - 1, bu_last_fill = now\<rparr> (bl_requests l)\<rparr>) in
      case map_of (bl_requests l) key of
        None \<Rightarrow> fresh
      | Some b \<Rightarrow>
          if bl_window l < duration_between now (bu_last_fill b) then fresh
          else if 0 < bu_tokens b
            then (True, l\<lparr>bl_requests := AList.update key (b\<lparr>bu_tokens := bu_tokens b - 1\<rparr>) (bl_requests l)\<rparr>)
          else (False, l))"

definition bucket_cleanup :: "time \<Rightarrow> bucket_limiter \<Rightarrow> bucket_limiter" where
  "bucket_cleanup now l =
     l\<lparr>bl_requests := filter (\<lambda>(_, b). \<not> wrap64 (bl_window l * 2) < duration_between now (bu_last_fill b)) (bl_requests l)\<rparr>"

text \<open>The middleware: the key is the user when the session has one, else the client's address.\<close>

definition rate_limit_middleware :: "time \<Rightarrow> string \<Rightarrow> string option \<Rightarrow> bucket_limiter \<Rightarrow> unit reply option \<times> bucket_limiter" where
  "rate_limit_middleware now ip user l =
     (let key = (case user of None \<Rightarrow> ip | Some u \<Rightarrow> u) in
      case bucket_allow now key l of
        (True, l') \<Rightarrow> (None, l')
      | (False, l') \<Rightarrow> (Some (Error_reply 429 ''Rate limit exceeded. Please try again later.''), l'))"

section \<open>Banned addresses\<close>

type_synonym ban_list = "(string \<times> time) list"

definition ban_duration :: int64 where
  "ban_duration = 86400000000000"

definition ban_ip :: "time \<Rightarrow> string \<Rightarrow> ban_list \<Rightarrow> ban_list" where
  "ban_ip now ip bans = AList.update ip now bans"

definition is_banned :: "time \<Rightarrow> string \<Rightarrow> ban_list \<Rightarrow> bool \<times> ban_list" where
  "is_banned now ip bans =
     (case map_of bans ip of
        None \<Rightarrow> (False, bans)
      | Some t \<Rightarrow>
          if duration_between now t < ban_duration then (True, bans)
          else (False, AList.delete ip bans))"

definition ban_check_middleware :: "time \<Rightarrow> string \<Rightarrow> ban_list \<Rightarrow> unit reply option \<times> ban_list" where
  "ban_check_middleware now ip bans =
     (case is_banned now ip bans of
        (True, bans') \<Rightarrow> (Some (Error_reply 403 ''Your IP has been banned''), bans')
      | (False, bans') \<Rightarrow> (None, bans'))"

section \<open>The contract of a sliding window\<close>

text \<open>A history of one limiter: requests of keys and sweeps of the clean-up loop.\<close>

datatype limiter_event = Request time string | Sweep time

fun event_time :: "limiter_event \<Rightarrow> time" where
  "event_time (Request t _) = t"
| "event_time (Sweep t) = t"

text \<open>The state after a history, and the times at which the requests of a key were admitted.\<close>

fun limiter_run ::
  "(time \<Rightarrow> string \<Rightarrow> 'm \<Rightarrow> bool \<times> 'm) \<Rightarrow> (time \<Rightarrow> 'm \<Rightarrow> 'm) \<Rightarrow> limiter_event list \<Rightarrow> 'm \<Rightarrow> (string \<times> time) list \<times> 'm" where
  "limiter_run al sw [] m = ([], m)"
| "limiter_run al sw (Request now k # es) m =
     (case al now k m of (ok, m1) \<Rightarrow>
      (case limiter_run al sw es m1 of (adm, m2) \<Rightarrow> ((if ok then [(k, now)] else []) @ adm, m2)))"
| "limiter_run al sw (Sweep now # es) m = limiter_run al sw es (sw now m)"

definition admitted :: "string \<Rightarrow> (string \<times> time) list \<Rightarrow> time list" where
  "admitted k adm = map snd (filter (\<lambda>x. fst x = k) adm)"

lemma admitted_simps [simp]: "admitted k [] = []" "admitted k (xs @ ys) = admitted k xs @ admitted k ys"
  "admitted k ((j, t) # xs) = (if j = k then [t] else []) @ admitted k xs"
  by (simp_all add: admitted_def)

definition in_window :: "int \<Rightarrow> time \<Rightarrow> time list \<Rightarrow> time list" where
  "in_window w t ts = filter (\<lambda>x. t - w < x \<and> x \<le> t) ts"

text \<open>
  What the clients rely on: a request is admitted while fewer than \<open>limit\<close> logged times are younger
  than the window, an admitted request is logged, other keys are not touched, and a sweep forgets
  nothing that is younger than the window.
\<close>

locale sliding_window =
  fixes log :: "'m \<Rightarrow> string \<Rightarrow> time list"
    and lim :: "'m \<Rightarrow> int"
    and win :: "'m \<Rightarrow> int"
    and good :: "'m \<Rightarrow> bool"
    and al :: "time \<Rightarrow> string \<Rightarrow> 'm \<Rightarrow> bool \<times> 'm"
    and sw :: "time \<Rightarrow> 'm \<Rightarrow> 'm"
  assumes al_law: "good m \<Longrightarrow> al now k m = (ok, m') \<Longrightarrow>
      good m' \<and> lim m' = lim m \<and> win m' = win m
      \<and> (ok \<longleftrightarrow> int (length (filter (\<lambda>t. now - win m < t) (log m k))) < lim m)
      \<and> log m' = (log m)(k := filter (\<lambda>t. now - win m < t) (log m k) @ (if ok then [now] else []))"
    and sw_law: "good m \<Longrightarrow> good (sw now m) \<and> lim (sw now m) = lim m \<and> win (sw now m) = win m
      \<and> filter (\<lambda>t. now - win m < t) (log (sw now m) k) = filter (\<lambda>t. now - win m < t) (log m k)"
begin

text \<open>\<open>acc\<close> is what was admitted for a key before; the log still holds all of it that is recent.\<close>

definition tracks :: "time \<Rightarrow> (string \<Rightarrow> time list) \<Rightarrow> 'm \<Rightarrow> bool" where
  "tracks now acc m \<longleftrightarrow> good m
     \<and> (\<forall>k. filter (\<lambda>t. now - win m < t) (log m k) = filter (\<lambda>t. now - win m < t) (acc k))
     \<and> (\<forall>k. \<forall>t \<in> set (acc k). t \<le> now)
     \<and> (\<forall>k t. int (length (in_window (win m) t (acc k))) \<le> max 0 (lim m))"

lemma filter_later:
  assumes "filter (\<lambda>t. now - w < t) xs = filter (\<lambda>t. now - w < t) ys" "now \<le> (later :: int)"
  shows "filter (\<lambda>t. later - w < t) xs = filter (\<lambda>t. later - w < t) ys"
proof -
  have "filter (\<lambda>t. later - w < t) zs = filter (\<lambda>t. later - w < t) (filter (\<lambda>t. now - w < t) zs)" for zs :: "int list"
    using assms(2) by (auto intro: filter_cong)
  then show ?thesis using assms(1) by metis
qed

lemma tracks_later: "tracks now acc m \<Longrightarrow> now \<le> later \<Longrightarrow> tracks later acc m"
  unfolding tracks_def using filter_later by (meson order_trans)

lemma tracks_sweep:
  assumes t: "tracks now acc m" and l: "now \<le> later"
  shows "tracks later acc (sw later m)"
  using tracks_later [OF t l] sw_law [of m later] by (simp add: tracks_def)

lemma window_grows:
  assumes "\<forall>t \<in> set ts. t \<le> (now :: int)" "now \<le> later"
    and new: "int (length (filter (\<lambda>t. later - w < t) ts)) < limit"
    and old: "\<forall>t. int (length (in_window w t ts)) \<le> max 0 limit"
  shows "int (length (in_window w t (ts @ [later]))) \<le> max 0 limit"
proof (cases "t - w < later \<and> later \<le> t")
  case False
  then have "in_window w t (ts @ [later]) = in_window w t ts" by (auto simp: in_window_def)
  with old show ?thesis by simp
next
  case True
  have "filter (\<lambda>x. t - w < x \<and> x \<le> t) ts = filter (\<lambda>x. t - w < x) (filter (\<lambda>x. later - w < x) ts)"
    using True assms(1,2) by (auto intro!: filter_cong)
  then have "length (in_window w t ts) \<le> length (filter (\<lambda>x. later - w < x) ts)"
    by (simp add: in_window_def del: filter_filter)
  with new True show ?thesis by (simp add: in_window_def)
qed

lemma tracks_request:
  assumes t: "tracks now acc m" and l: "now \<le> later" and a: "al later k m = (ok, m')"
  shows "tracks later (acc(k := acc k @ (if ok then [later] else []))) m'"
proof -
  have tl: "tracks later acc m" by (rule tracks_later [OF t l])
  have g: "good m" and same: "\<And>j. filter (\<lambda>t. later - win m < t) (log m j) = filter (\<lambda>t. later - win m < t) (acc j)"
    and le: "\<And>j. \<forall>t \<in> set (acc j). t \<le> later"
    and wd: "\<And>j. \<forall>t. int (length (in_window (win m) t (acc j))) \<le> max 0 (lim m)"
    using tl unfolding tracks_def by blast+
  note law = al_law [OF g a]
  have "int (length (in_window (win m) t (acc k @ (if ok then [later] else [])))) \<le> max 0 (lim m)" for t
    using window_grows [OF le order_refl _ wd] wd law same by (cases ok) (auto simp: in_window_def)
  then show ?thesis using law same le wd unfolding tracks_def by (auto simp: filter_empty_conv)
qed

lemma run_tracks:
  assumes "tracks now acc m" "limiter_run al sw es m = (adm, m')" "sorted (now # map event_time es)"
  shows "tracks (last (now # map event_time es)) (\<lambda>k. acc k @ admitted k adm) m' \<and> lim m' = lim m \<and> win m' = win m"
  using assms
proof (induction es arbitrary: now acc m adm)
  case Nil
  then show ?case by auto
next
  case (Cons e es)
  show ?case
  proof (cases e)
    case (Request t k)
    obtain ok m1 where a: "al t k m = (ok, m1)" by (cases "al t k m")
    obtain adm2 where r: "limiter_run al sw es m1 = (adm2, m')" and adm: "adm = (if ok then [(k, t)] else []) @ adm2"
      using Cons.prems(2) Request a by (auto split: prod.splits)
    have so: "now \<le> t" "sorted (t # map event_time es)" using Cons.prems(3) Request by auto
    note st = tracks_request [OF Cons.prems(1) so(1) a]
    have g: "good m" using Cons.prems(1) by (simp add: tracks_def)
    have eq: "(\<lambda>j. (acc(k := acc k @ (if ok then [t] else []))) j @ admitted j adm2) = (\<lambda>j. acc j @ admitted j adm)"
      by (auto simp: adm fun_eq_iff)
    from Cons.IH [OF st r so(2)] al_law [OF g a] show ?thesis unfolding eq by (simp add: Request)
  next
    case (Sweep t)
    have so: "now \<le> t" "sorted (t # map event_time es)" using Cons.prems(3) Sweep by auto
    have g: "good m" using Cons.prems(1) by (simp add: tracks_def)
    from Cons.IH [OF tracks_sweep [OF Cons.prems(1) so(1)] _ so(2)] Cons.prems(2) Sweep sw_law [OF g, of t]
    show ?thesis by simp
  qed
qed

lemma run_from_empty:
  assumes "good m" "\<And>k. log m k = []" "limiter_run al sw es m = (adm, m')" "sorted (map event_time es @ [now])"
  shows "tracks now (\<lambda>k. admitted k adm) m' \<and> lim m' = lim m \<and> win m' = win m"
proof (cases es)
  case Nil
  with assms show ?thesis by (simp add: tracks_def in_window_def)
next
  case (Cons e es')
  have z: "tracks (event_time e) (\<lambda>_. []) m" using assms(1,2) by (simp add: tracks_def in_window_def)
  have so: "sorted (event_time e # map event_time es)" and "\<forall>x \<in> set (event_time e # map event_time es). x \<le> now"
    using assms(4) Cons by (auto simp: sorted_append)
  then have l: "last (event_time e # map event_time es) \<le> now" 
    using last_in_set [of "event_time e # map event_time es", OF list.distinct(2)] by blast
  from run_tracks [OF z assms(3) so] tracks_later [OF _ l] show ?thesis by simp
qed

text \<open>At most \<open>lim\<close> requests of a key are admitted in any window.\<close>

lemma run_within_limit:
  assumes "good m" "\<And>k. log m k = []" "limiter_run al sw es m = (adm, m')" "sorted (map event_time es)"
  shows "int (length (in_window (win m) t (admitted k adm))) \<le> max 0 (lim m)"
proof -
  define now where "now = Max (insert 0 (set (map event_time es)))"
  have "sorted (map event_time es @ [now])" using assms(4) by (auto simp: sorted_append now_def)
  from run_from_empty [OF assms(1-3) this] show ?thesis unfolding tracks_def by metis
qed

text \<open>The verdict on the next request is exact: it counts what was admitted within the window.\<close>

lemma verdict_is_exact:
  assumes "good m" "\<And>k. log m k = []" "limiter_run al sw es m = (adm, m1)" "sorted (map event_time es @ [now])"
  shows "fst (al now k m1) \<longleftrightarrow> int (length (in_window (win m) now (admitted k adm))) < lim m"
proof -
  have t: "tracks now (\<lambda>k. admitted k adm) m1" "lim m1 = lim m" "win m1 = win m"
    using run_from_empty [OF assms] by simp_all
  have g: "good m1" and same: "filter (\<lambda>t. now - win m < t) (log m1 k) = filter (\<lambda>t. now - win m < t) (admitted k adm)"
    and le: "\<forall>x \<in> set (admitted k adm). x \<le> now"
    using t unfolding tracks_def by (simp_all add: t(3))
  have "in_window (win m) now (admitted k adm) = filter (\<lambda>t. now - win m < t) (admitted k adm)"
    using le by (auto simp: in_window_def intro: filter_cong)
  then show ?thesis using al_law [OF g, of now k "fst (al now k m1)" "snd (al now k m1)"] same t(2,3) by simp
qed

end

section \<open>Both services keep it\<close>

definition limiter_ok :: "limiter \<Rightarrow> bool" where
  "limiter_ok l \<longleftrightarrow> 0 < lm_window l \<and> 2 * lm_window l \<le> max_int64 \<and> distinct (map fst (lm_requests l))"

lemma request_times_update:
  "request_times (l\<lparr>lm_requests := AList.update k ts (lm_requests l)\<rparr>) = (request_times l)(k := ts)"
  by (auto simp: request_times_def update_conv fun_eq_iff)

lemma sweep_keys: "fst ` set (sweep_map keep m) \<subseteq> fst ` set m"
  by (auto simp: sweep_map_def image_iff) force

lemma map_of_sweep: "distinct (map fst m) \<Longrightarrow>
    map_of (sweep_map keep m) k = (case map_of m k of None \<Rightarrow> None | Some ts \<Rightarrow>
      if filter keep ts = [] then None else Some (filter keep ts))"
proof (induction m)
  case (Cons y m)
  have "map_of (sweep_map keep m) (fst y) = None"
    using Cons.prems sweep_keys [of keep m] by (auto simp: map_of_eq_None_iff)
  with Cons show ?case by (cases y) (auto simp: sweep_map_def)
qed (simp add: sweep_map_def)

lemma request_times_sweep: "distinct (map fst (lm_requests l)) \<Longrightarrow>
    request_times (l\<lparr>lm_requests := sweep_map keep (lm_requests l)\<rparr>) k = filter keep (request_times l k)"
  by (simp add: request_times_def map_of_sweep split: option.split)

lemma sweep_distinct: "distinct (map fst m) \<Longrightarrow> distinct (map fst (sweep_map keep m))"
proof (induction m)
  case (Cons y m)
  then show ?case using sweep_keys [of keep m] by (cases y) (auto simp: sweep_map_def)
qed (simp add: sweep_map_def)

lemma younger_iff:
  "0 < w \<Longrightarrow> w \<le> max_int64 \<Longrightarrow> duration_between now t < w \<longleftrightarrow> now - w < t"
  by (auto simp: duration_between_def max_int64_def min_int64_def)

lemma wrap_window: "0 < w \<Longrightarrow> 2 * w \<le> max_int64 \<Longrightarrow> wrap64 (- w) = - w"
  "0 < w \<Longrightarrow> 2 * w \<le> max_int64 \<Longrightarrow> wrap64 (- w * 2) = - w * 2"
  by (simp_all add: in_int64_def min_int64_def max_int64_def)

interpretation om: sliding_window request_times lm_limit lm_window limiter_ok om_allow om_cleanup
proof
  fix m now k ok m'
  assume g: "limiter_ok m" and a: "om_allow now k m = (ok, m')"
  have y: "duration_between now t < lm_window m \<longleftrightarrow> now - lm_window m < t" for t
    using g by (intro younger_iff) (simp_all add: limiter_ok_def)
  show "limiter_ok m' \<and> lm_limit m' = lm_limit m \<and> lm_window m' = lm_window m
      \<and> (ok \<longleftrightarrow> int (length (filter (\<lambda>t. now - lm_window m < t) (request_times m k))) < lm_limit m)
      \<and> request_times m' = (request_times m)(k := filter (\<lambda>t. now - lm_window m < t) (request_times m k) @ (if ok then [now] else []))"
    using a g by (auto simp: om_allow_def y Let_def limiter_ok_def distinct_update request_times_update split: if_splits)
next
  fix m now k
  assume g: "limiter_ok m"
  have y: "duration_between now t < lm_window m \<longleftrightarrow> now - lm_window m < t" for t
    using g by (intro younger_iff) (simp_all add: limiter_ok_def)
  show "limiter_ok (om_cleanup now m) \<and> lm_limit (om_cleanup now m) = lm_limit m \<and> lm_window (om_cleanup now m) = lm_window m
      \<and> filter (\<lambda>t. now - lm_window m < t) (request_times (om_cleanup now m) k) = filter (\<lambda>t. now - lm_window m < t) (request_times m k)"
    using g by (simp add: om_cleanup_def y limiter_ok_def sweep_distinct request_times_sweep)
qed

interpretation cs: sliding_window request_times lm_limit lm_window limiter_ok cache_allow cache_cleanup
proof
  fix m now k ok m'
  assume g: "limiter_ok m" and a: "cache_allow now k m = (ok, m')"
  have w: "wrap64 (- lm_window m) = - lm_window m" using g by (intro wrap_window) (simp_all add: limiter_ok_def)
  show "limiter_ok m' \<and> lm_limit m' = lm_limit m \<and> lm_window m' = lm_window m
      \<and> (ok \<longleftrightarrow> int (length (filter (\<lambda>t. now - lm_window m < t) (request_times m k))) < lm_limit m)
      \<and> request_times m' = (request_times m)(k := filter (\<lambda>t. now - lm_window m < t) (request_times m k) @ (if ok then [now] else []))"
    using a g by (auto simp: cache_allow_def w Let_def limiter_ok_def distinct_update request_times_update split: if_splits)
next
  fix m now k
  assume g: "limiter_ok m"
  have w: "wrap64 (- lm_window m) = - lm_window m" "wrap64 (- lm_window m * 2) = - lm_window m * 2"
    using g wrap_window [of "lm_window m"] by (simp_all add: limiter_ok_def)
  have "filter (\<lambda>t. now - lm_window m < t) (filter (\<lambda>t. now - lm_window m * 2 < t) ts) = filter (\<lambda>t. now - lm_window m < t) ts" for ts
    using g by (auto simp: limiter_ok_def intro!: filter_cong)
  then show "limiter_ok (cache_cleanup now m) \<and> lm_limit (cache_cleanup now m) = lm_limit m \<and> lm_window (cache_cleanup now m) = lm_window m
      \<and> filter (\<lambda>t. now - lm_window m < t) (request_times (cache_cleanup now m) k) = filter (\<lambda>t. now - lm_window m < t) (request_times m k)"
    using g w by (simp add: cache_cleanup_def Let_def limiter_ok_def sweep_distinct request_times_sweep)
qed

section \<open>Claims\<close>

text \<open>C18: both sliding windows are exact. From an empty log and in the order of time, whatever clean-ups
  run in between, at most the limit of a key's requests is admitted in any window, and a request
  is refused only when that many were admitted in the window that ends with it.\<close>

theorem sliding_windows_are_exact:
  assumes "0 < w" and "2 * w \<le> max_int64" and "sorted (map event_time es @ [now])"
    and "limiter_run om_allow om_cleanup es (om_new_limiter n w) = (adm1, l1)"
    and "limiter_run cache_allow cache_cleanup es (cache_new_limiter n w) = (adm2, l2)"
  shows "int (length (in_window w t (admitted k adm1))) \<le> max 0 n
    \<and> int (length (in_window w t (admitted k adm2))) \<le> max 0 n
    \<and> (fst (om_allow now k l1) \<longleftrightarrow> int (length (in_window w now (admitted k adm1))) < n)
    \<and> (fst (cache_allow now k l2) \<longleftrightarrow> int (length (in_window w now (admitted k adm2))) < n)"
proof -
  let ?m = "om_new_limiter n w"
  have m: "limiter_ok ?m" "\<And>k. request_times ?m k = []" "lm_window ?m = w" "lm_limit ?m = n" "cache_new_limiter n w = ?m"
    using assms(1,2) by (simp_all add: limiter_ok_def om_new_limiter_def cache_new_limiter_def request_times_def)
  have so: "sorted (map event_time es)" using assms(3) by (simp add: sorted_append)
  have b1: "int (length (in_window w t (admitted k adm1))) \<le> max 0 n" for t
    using om.run_within_limit [OF m(1,2) assms(4) so, of t k] m by simp
  have b2: "int (length (in_window w t (admitted k adm2))) \<le> max 0 n" for t
    using cs.run_within_limit [OF m(1,2) assms(5) [unfolded m(5)] so, of t k] m by simp
  have a1: "fst (om_allow now k l1) \<longleftrightarrow> int (length (in_window w now (admitted k adm1))) < n"
    using om.verdict_is_exact [OF m(1,2) assms(4,3), of k] m by simp
  have a2: "fst (cache_allow now k l2) \<longleftrightarrow> int (length (in_window w now (admitted k adm2))) < n"
    using cs.verdict_is_exact [OF m(1,2) assms(5) [unfolded m(5)] assms(3), of k] m by simp
  from b1 b2 a1 a2 show ?thesis by blast
qed

text \<open>The fixed windows of the API process are not. With two requests per second allowed, three are
  admitted within a hundredth of a second: one window's last token and the next window's tokens.\<close>

theorem fixed_windows_admit_bursts:
  "limiter_run bucket_allow bucket_cleanup
      [Request 0 ''ip'', Request 999000000 ''ip'', Request 1000000001 ''ip'', Request 1000000002 ''ip'']
      (new_bucket_limiter 2 1000000000)
    = ([(''ip'', 0), (''ip'', 999000000), (''ip'', 1000000001), (''ip'', 1000000002)],
       \<lparr>bl_requests = [(''ip'', \<lparr>bu_tokens = 0, bu_last_fill = 1000000001\<rparr>)], bl_rate = 2, bl_window = 1000000000\<rparr>)
    \<and> length (in_window 10000000 1000000002 [0, 999000000, 1000000001, 1000000002]) = 3"
  by (simp add: bucket_allow_def new_bucket_limiter_def duration_between_def max_int64_def min_int64_def in_window_def)

text \<open>A ban lasts its whole duration, for the banned address alone.\<close>

lemma ban_lasts: "t \<le> now \<Longrightarrow> now - t < ban_duration \<Longrightarrow> fst (is_banned now ip (ban_ip t ip bans))"
  by (simp add: is_banned_def ban_ip_def update_conv duration_between_def ban_duration_def max_int64_def min_int64_def)

lemma ban_is_personal: "j \<noteq> ip \<Longrightarrow> fst (is_banned now j (ban_ip t ip bans)) = fst (is_banned now j bans)"
proof -
  assume "j \<noteq> ip"
  then have "map_of (ban_ip t ip bans) j = map_of bans j" by (simp add: ban_ip_def update_conv)
  then show ?thesis by (simp add: is_banned_def split: option.split)
qed

theorem sliding_windows_witness:
  "\<exists>adm1 l1 adm2 l2. limiter_run om_allow om_cleanup [Request 0 ''ip'', Request 1 ''ip'', Sweep 2] (om_new_limiter 1 10) = (adm1, l1)
    \<and> limiter_run cache_allow cache_cleanup [Request 0 ''ip'', Request 1 ''ip'', Sweep 2] (cache_new_limiter 1 10) = (adm2, l2)
    \<and> int (length (in_window 10 5 (admitted ''ip'' adm1))) \<le> 1 \<and> int (length (in_window 10 5 (admitted ''ip'' adm2))) \<le> 1"
proof -
  let ?es = "[Request 0 ''ip'', Request 1 ''ip'', Sweep 2]"
  obtain adm1 l1 where r1: "limiter_run om_allow om_cleanup ?es (om_new_limiter 1 10) = (adm1, l1)" by (meson surj_pair)
  obtain adm2 l2 where r2: "limiter_run cache_allow cache_cleanup ?es (cache_new_limiter 1 10) = (adm2, l2)" by (meson surj_pair)
  have so: "sorted (map event_time ?es @ [3])" by simp
  have w: "(0::int) < 10" "2 * 10 \<le> max_int64" by (simp_all add: max_int64_def)
  from sliding_windows_are_exact [OF w so r1 r2, of 5 "''ip''"] r1 r2 show ?thesis by auto
qed

end
