(* ===== verification/Order_Service.thy ===== *)
theory Order_Service
  imports Engine_Examples Go_Text Rate_Limit
begin

text \<open>
  The HTTP layer of the matching service (\<open>order_matching/main.go\<close>): the handlers as steps on
  the engine that answer with a status and a body, the admin gate, the operator's pair list and
  the small parsers. A JSON body is the decoded request, \<open>None\<close> when decoding fails; the
  \<open>binding:"required"\<close> checks of zero values are explicit. JSON decoding of the pair list is the
  parameter \<open>decode\<close>. The rate limiter of the process stands in front of
  every route. The WebSocket route \<open>/ws\<close>, the fan-out of trades and the Redis client are I/O and not
  modelled.
\<close>

section \<open>Small parsers\<close>

text \<open>\<open>fmt.Sscanf(s, "%d", &x)\<close>: leading blanks, the digits, and anything after them.\<close>

definition scan_blank :: "char \<Rightarrow> bool" where
  "scan_blank c \<longleftrightarrow> is_space c \<and> (of_char c :: nat) \<noteq> 10"

definition scan_uint :: "string \<Rightarrow> int option" where
  "scan_uint s =
     (let ds = takeWhile is_digit (dropWhile scan_blank s)
      in if ds = [] then None
         else if digits_val ds \<le> 18446744073709551615 then Some (digits_val ds) else None)"

definition scan_int :: "string \<Rightarrow> int option" where
  "scan_int s =
     (let s1 = dropWhile scan_blank s;
          neg = (s1 \<noteq> [] \<and> hd s1 = CHR ''-'');
          s2 = (if s1 \<noteq> [] \<and> (hd s1 = CHR ''-'' \<or> hd s1 = CHR ''+'') then tl s1 else s1);
          ds = takeWhile is_digit s2;
          v = (if neg then - digits_val ds else digits_val ds)
      in if ds = [] then None else if in_int64 v then Some v else None)"

definition parse_order_id :: "string \<Rightarrow> uint64 option" where
  "parse_order_id raw =
     (case scan_uint raw of
        None \<Rightarrow> None
      | Some n \<Rightarrow> if n = 0 then None else Some (word_of_int n))"

text \<open>The \<open>limit\<close> query parameter: an unreadable number leaves the default.\<close>

definition limit_param :: "int \<Rightarrow> string \<Rightarrow> int" where
  "limit_param dflt s =
     (if s = [] then dflt else (case scan_int s of None \<Rightarrow> dflt | Some n \<Rightarrow> n))"

fun xor_diff :: "8 word list \<Rightarrow> 8 word list \<Rightarrow> 8 word \<Rightarrow> 8 word" where
  "xor_diff (a # as) (b # bs) diff = xor_diff as bs (or diff (xor a b))"
| "xor_diff _ _ diff = diff"

definition string_bytes :: "string \<Rightarrow> 8 word list" where
  "string_bytes s = map (\<lambda>c. word_of_nat (of_char c)) s"

definition subtle_compare :: "string \<Rightarrow> string \<Rightarrow> bool" where
  "subtle_compare a b =
     (if length a \<noteq> length b then False else xor_diff (string_bytes a) (string_bytes b) 0 = 0)"

definition trim_prefix :: "string \<Rightarrow> string \<Rightarrow> string" where
  "trim_prefix p s = (if take (length p) s = p then drop (length p) s else s)"

definition trim_suffix_char :: "char \<Rightarrow> string \<Rightarrow> string" where
  "trim_suffix_char c s = (if s \<noteq> [] \<and> last s = c then butlast s else s)"

definition same_host :: "string \<Rightarrow> string \<Rightarrow> bool" where
  "same_host origin host =
     (let o1 = trim_prefix ''https://'' (trim_prefix ''http://'' origin)
      in equal_fold (trim_suffix_char (CHR ''/'') o1) host)"

fun split_all :: "char \<Rightarrow> string \<Rightarrow> string list" where
  "split_all c [] = [[]]"
| "split_all c (x # xs) =
     (if x = c then [] # split_all c xs
      else (case split_all c xs of [] \<Rightarrow> [[x]] | p # ps \<Rightarrow> (x # p) # ps))"

definition split_csv :: "string \<Rightarrow> string list" where
  "split_csv raw =
     (if trim_space raw = [] then []
      else filter (\<lambda>p. p \<noteq> []) (map trim_space (split_all (CHR '','') raw)))"

definition check_origin :: "string list \<Rightarrow> string \<Rightarrow> string \<Rightarrow> bool" where
  "check_origin allowed origin host =
     (if allowed = [] then (if origin = [] then True else same_host origin host)
      else origin \<in> set allowed)"

section \<open>The pair list\<close>

record pair_spec =
  ps_pair :: string
  ps_maker_fee_bps :: int64
  ps_taker_fee_bps :: int64
  ps_min_quantity :: f64
  ps_max_quantity :: f64

datatype spec_error =
  Pairs_not_set | Pairs_bad_json | Pairs_empty | Pair_no_name nat | Pair_twice string
| Pair_negative_fee nat | Pair_bad_range nat

fun check_specs :: "nat \<Rightarrow> string set \<Rightarrow> pair_spec list \<Rightarrow> spec_error option" where
  "check_specs i seen [] = None"
| "check_specs i seen (s # ss) =
     (if trim_space (ps_pair s) = [] then Some (Pair_no_name i)
      else if ps_pair s \<in> seen then Some (Pair_twice (ps_pair s))
      else if ps_maker_fee_bps s < 0 \<or> ps_taker_fee_bps s < 0 then Some (Pair_negative_fee i)
      else if f64_lt (ps_min_quantity s) f64_zero
           \<or> (f64_lt f64_zero (ps_max_quantity s) \<and> f64_lt (ps_max_quantity s) (ps_min_quantity s))
        then Some (Pair_bad_range i)
      else check_specs (Suc i) (insert (ps_pair s) seen) ss)"

definition load_pair_specs ::
  "(string \<Rightarrow> pair_spec list option) \<Rightarrow> string \<Rightarrow> spec_error + pair_spec list" where
  "load_pair_specs decode raw =
     (if trim_space raw = [] then Inl Pairs_not_set
      else (case decode raw of
              None \<Rightarrow> Inl Pairs_bad_json
            | Some specs \<Rightarrow>
                if specs = [] then Inl Pairs_empty
                else (case check_specs 0 {} specs of Some e \<Rightarrow> Inl e | None \<Rightarrow> Inr specs)))"

definition spec_config :: "pair_spec \<Rightarrow> pair_config" where
  "spec_config s = \<lparr>pc_pair = ps_pair s, pc_price_scale = 0, pc_qty_scale = 0,
     pc_maker_fee_bps = ps_maker_fee_bps s, pc_taker_fee_bps = ps_taker_fee_bps s,
     pc_min_quantity = ps_min_quantity s, pc_max_quantity = ps_max_quantity s\<rparr>"

text \<open>The start-up loop of \<open>main\<close>: it exits at the first pair that cannot be registered.\<close>

fun register_specs :: "pair_spec list \<Rightarrow> engine \<Rightarrow> engine option" where
  "register_specs [] e = Some e"
| "register_specs (s # ss) e =
     (case register_pair (spec_config s) e of
        (e', None) \<Rightarrow> register_specs ss e'
      | (e', Some err) \<Rightarrow> None)"

section \<open>Handlers\<close>

fun err_text :: "book_error \<Rightarrow> string" where
  "err_text ErrUnknownPair = ''pair is not listed''"
| "err_text ErrBadSide = ''side must be buy or sell''"
| "err_text ErrBadType = ''type must be limit or market''"
| "err_text ErrBadTIF = ''time in force must be GTC, IOC or FOK''"
| "err_text ErrBadPrice = ''limit orders require a positive price''"
| "err_text ErrBadQuantity = ''quantity must be positive''"
| "err_text ErrQtyRange = ''quantity is outside the listed range''"
| "err_text ErrUnknownOrder = ''order not found''"
| "err_text ErrNotOwner = ''order belongs to another trader''"
| "err_text ErrNoLiquidity = ''no liquidity to fill the order''"
| "err_text ErrPairRequired = ''pair is required''"

record submit_req =
  sr_trader :: string
  sr_pair :: string
  sr_side :: string
  sr_type :: string
  sr_tif :: string
  sr_price :: f64
  sr_quantity :: f64

definition bind_submit :: "submit_req option \<Rightarrow> submit_req option" where
  "bind_submit body =
     (case body of
        None \<Rightarrow> None
      | Some r \<Rightarrow>
          if sr_trader r = [] \<or> sr_pair r = [] \<or> sr_side r = [] \<or> sr_type r = []
             \<or> (f64_le (sr_quantity r) f64_zero \<and> f64_le f64_zero (sr_quantity r))
          then None else Some r)"

definition request_order :: "submit_req \<Rightarrow> order" where
  "request_order r =
     \<lparr>o_id = 0, o_trader = sr_trader r, o_pair = sr_pair r, o_side = sr_side r, o_type = sr_type r,
      o_tif = sr_tif r, o_price = sr_price r, o_quantity = sr_quantity r, o_filled = f64_zero,
      o_leaves = f64_zero, o_status = [], o_created = 0, o_updated = 0, o_price_ticks = 0,
      o_qty_units = 0, o_filled_units = 0\<rparr>"

text \<open>\<open>None\<close> stands for a handler that does not return.\<close>

definition submit_handler ::
  "(nat \<Rightarrow> time) \<Rightarrow> submit_req option \<Rightarrow> engine \<Rightarrow> (engine \<times> (order \<times> trade list) reply) option" where
  "submit_handler clk body e =
     (case bind_submit body of
        None \<Rightarrow> Some (e, Error_reply 400 ''invalid order request'')
      | Some r \<Rightarrow>
          (case engine_submit clk (request_order r) e of
             None \<Rightarrow> None
           | Some (e', placed, trades, Some err, _) \<Rightarrow>
               Some (e', Error_reply (if err = ErrUnknownPair then 404 else 400) (err_text err))
           | Some (e', placed, trades, None, _) \<Rightarrow> Some (e', Ok_reply 201 (placed, trades))))"

definition cancel_handler ::
  "time \<Rightarrow> string \<Rightarrow> string option \<Rightarrow> engine \<Rightarrow> engine \<times> order reply" where
  "cancel_handler now raw_id body e =
     (case parse_order_id raw_id of
        None \<Rightarrow> (e, Error_reply 400 ''invalid order id'')
      | Some i \<Rightarrow>
          (case body of
             None \<Rightarrow> (e, Error_reply 400 ''trader is required to cancel an order'')
           | Some trader \<Rightarrow>
               if trader = [] then (e, Error_reply 400 ''trader is required to cancel an order'')
               else (case engine_cancel now i trader e of
                       (e', Inl err) \<Rightarrow>
                         (e', Error_reply (if err = ErrUnknownOrder then 404 else if err = ErrNotOwner then 403 else 400)
                                (err_text err))
                     | (e', Inr cancelled) \<Rightarrow> (e', Ok_reply 200 cancelled))))"

definition get_order_handler :: "string \<Rightarrow> engine \<Rightarrow> order reply" where
  "get_order_handler raw_id e =
     (case parse_order_id raw_id of
        None \<Rightarrow> Error_reply 400 ''invalid order id''
      | Some i \<Rightarrow> (case engine_get_order i e of
                      Inl err \<Rightarrow> Error_reply 404 (err_text err)
                    | Inr x \<Rightarrow> Ok_reply 200 x))"

definition trader_orders_handler :: "string \<Rightarrow> engine \<Rightarrow> order list reply" where
  "trader_orders_handler trader e =
     Ok_reply 200 (concat (map (\<lambda>pair. case engine_book pair e of
                                          Inl _ \<Rightarrow> [] | Inr b \<Rightarrow> orders_by_trader trader b) (listed_pairs e)))"

definition require_pair :: "string \<Rightarrow> string option" where
  "require_pair query = (let p = trim_space query in if p = [] then None else Some p)"

text \<open>The handlers of one listed pair share their shape.\<close>

definition on_pair :: "string \<Rightarrow> engine \<Rightarrow> (book \<Rightarrow> 'a) \<Rightarrow> 'a reply" where
  "on_pair query e answer =
     (case require_pair query of
        None \<Rightarrow> Error_reply 400 ''pair query parameter is required''
      | Some pair \<Rightarrow> (case engine_book pair e of
                        Inl err \<Rightarrow> Error_reply 404 (err_text err)
                      | Inr b \<Rightarrow> Ok_reply 200 (answer b)))"

record market_data =
  md_bids :: "depth_level list"
  md_asks :: "depth_level list"
  md_last_price :: f64
  md_best_bid :: f64
  md_best_ask :: f64
  md_open_orders :: int

definition market_data_handler :: "string \<Rightarrow> engine \<Rightarrow> market_data reply" where
  "market_data_handler query e =
     on_pair query e (\<lambda>b. \<lparr>md_bids = fst (depth 20 b), md_asks = snd (depth 20 b), md_last_price = last_price b,
       md_best_bid = best_bid b, md_best_ask = best_ask b, md_open_orders = bk_open b\<rparr>)"

definition depth_handler :: "string \<Rightarrow> string \<Rightarrow> engine \<Rightarrow> (depth_level list \<times> depth_level list) reply" where
  "depth_handler query limit e = on_pair query e (depth (limit_param 20 limit))"

definition trades_handler :: "string \<Rightarrow> string \<Rightarrow> engine \<Rightarrow> trade list reply" where
  "trades_handler query limit e = on_pair query e (book_trades (limit_param 100 limit))"

definition stats_handler :: "time \<Rightarrow> engine \<Rightarrow> engine_stats reply" where
  "stats_handler now e = Ok_reply 200 (stats now e)"

definition health_handler :: "engine \<Rightarrow> nat reply" where
  "health_handler e = Ok_reply 200 (length (listed_pairs e))"

definition list_pairs_handler :: "engine \<Rightarrow> string list reply" where
  "list_pairs_handler e = Ok_reply 200 (listed_pairs e)"

section \<open>Administration\<close>

text \<open>\<open>adminAuth\<close>: \<open>None\<close> lets the request through.\<close>

definition admin_auth :: "string \<Rightarrow> string \<Rightarrow> string \<Rightarrow> (nat \<times> string) option" where
  "admin_auth admin_key x_admin_key authorization =
     (if admin_key = [] then Some (503, ''admin API is disabled: ORDER_MATCHING_ADMIN_KEY is not set'')
      else
        let provided = (if x_admin_key = [] then trim_prefix ''Bearer '' authorization else x_admin_key)
        in if \<not> subtle_compare provided admin_key then Some (401, ''invalid admin key'') else None)"

definition register_pair_handler :: "pair_spec option \<Rightarrow> engine \<Rightarrow> engine \<times> string reply" where
  "register_pair_handler body e =
     (case body of
        None \<Rightarrow> (e, Error_reply 400 ''invalid pair spec'')
      | Some spec \<Rightarrow>
          (case register_pair (spec_config spec) e of
             (e', Some err) \<Rightarrow> (e', Error_reply 400 (err_text err))
           | (e', None) \<Rightarrow> (e', Ok_reply 200 (ps_pair spec))))"

definition unregister_pair_handler :: "string \<Rightarrow> engine \<Rightarrow> engine \<times> string reply" where
  "unregister_pair_handler query e =
     (case require_pair query of
        None \<Rightarrow> (e, Error_reply 400 ''pair query parameter is required'')
      | Some pair \<Rightarrow>
          (case unregister_pair pair e of
             (e', False) \<Rightarrow> (e', Error_reply 404 ''pair is not listed'')
           | (e', True) \<Rightarrow> (e', Ok_reply 200 pair)))"

text \<open>The route table under \<open>/api/v1\<close>: a request of a client, as the router dispatches it.\<close>

datatype admin_call = Register "pair_spec option" | Unregister string

datatype api_call =
  Submit_order "submit_req option"
| Cancel_order string "string option"
| Get_order string
| Get_trader_orders string
| Get_market string
| Get_depth string string
| Get_trades string string
| Get_pairs
| Get_stats
| Get_health
| Admin string string admin_call

definition serve :: "string \<Rightarrow> (nat \<Rightarrow> time) \<Rightarrow> api_call \<Rightarrow> engine \<Rightarrow> (engine \<times> nat) option" where
  "serve admin_key clk call e =
     (case call of
        Submit_order body \<Rightarrow> map_option (\<lambda>(e', r). (e', reply_code r)) (submit_handler clk body e)
      | Cancel_order i body \<Rightarrow> (case cancel_handler (clk 0) i body e of (e', r) \<Rightarrow> Some (e', reply_code r))
      | Get_order i \<Rightarrow> Some (e, reply_code (get_order_handler i e))
      | Get_trader_orders trader \<Rightarrow> Some (e, reply_code (trader_orders_handler trader e))
      | Get_market q \<Rightarrow> Some (e, reply_code (market_data_handler q e))
      | Get_depth q limit \<Rightarrow> Some (e, reply_code (depth_handler q limit e))
      | Get_trades q limit \<Rightarrow> Some (e, reply_code (trades_handler q limit e))
      | Get_pairs \<Rightarrow> Some (e, reply_code (list_pairs_handler e))
      | Get_stats \<Rightarrow> Some (e, reply_code (stats_handler (clk 0) e))
      | Get_health \<Rightarrow> Some (e, reply_code (health_handler e))
      | Admin x_key auth ac \<Rightarrow>
          (case admin_auth admin_key x_key auth of
             Some (code, _) \<Rightarrow> Some (e, code)
           | None \<Rightarrow>
               (case ac of
                  Register body \<Rightarrow> (case register_pair_handler body e of (e', r) \<Rightarrow> Some (e', reply_code r))
                | Unregister q \<Rightarrow> (case unregister_pair_handler q e of (e', r) \<Rightarrow> Some (e', reply_code r)))))"

text \<open>The process: the engine, and the rate limiter that every request passes first.\<close>

record order_server =
  os_engine :: engine
  os_limiter :: limiter

text \<open>\<open>rate\<close> is \<open>RATE_LIMIT_PER_SECOND\<close>; the window is one second.\<close>

definition start_server :: "int \<Rightarrow> engine \<Rightarrow> order_server" where
  "start_server rate e = \<lparr>os_engine = e, os_limiter = om_new_limiter rate 1000000000\<rparr>"

definition serve_request ::
  "string \<Rightarrow> (nat \<Rightarrow> time) \<Rightarrow> time \<Rightarrow> string \<Rightarrow> api_call \<Rightarrow> order_server \<Rightarrow> (order_server \<times> nat) option" where
  "serve_request admin_key clk now ip call s =
     (case om_allow now ip (os_limiter s) of
        (False, l) \<Rightarrow> Some (s\<lparr>os_limiter := l\<rparr>, 429)
      | (True, l) \<Rightarrow>
          map_option (\<lambda>(e', code). (s\<lparr>os_engine := e', os_limiter := l\<rparr>, code))
            (serve admin_key clk call (os_engine s)))"

end
