(* ===== verification/Order_Service_Props.thy ===== *)
theory Order_Service_Props
  imports Order_Service
begin

text \<open>
  What the HTTP layer keeps of the engine's guarantees: every request is answered, a refused one
  changes no book and no index entry, the read routes change nothing, the admin routes are closed
  without the key, and the start-up loop lists exactly the configured pairs.
\<close>

section \<open>Comparing secrets\<close>

lemma or_eq_0: "or a b = (0 :: 8 word) \<longleftrightarrow> a = 0 \<and> b = 0"
  by (metis bit.disj_zero_right or_eq_0_iff)

lemma xor_diff_0: "length as = length bs \<Longrightarrow> xor_diff as bs d = 0 \<longleftrightarrow> d = 0 \<and> as = bs"
proof (induction as bs arbitrary: d rule: list_induct2)
  case (Cons a as b bs)
  have "xor a b = 0 \<longleftrightarrow> a = b" by (metis bit.xor_self xor.right_neutral xor.left_commute)
  then show ?case by (auto simp: Cons.IH or_eq_0)
qed simp

lemma string_bytes_inj: "string_bytes s = string_bytes t \<longleftrightarrow> s = t"
proof -
  have "inj (\<lambda>c :: char. word_of_nat (of_char c) :: 8 word)"
  proof (rule injI)
    fix c d :: char
    assume "(word_of_nat (of_char c) :: 8 word) = word_of_nat (of_char d)"
    then have "unat (word_of_nat (of_char c) :: 8 word) = unat (word_of_nat (of_char d) :: 8 word)" by simp
    then have "(of_char c :: nat) = of_char d" by (simp add: unat_of_nat of_char_mod_256)
    then show "c = d" by (simp add: of_char_eq_iff)
  qed
  then show ?thesis by (simp add: string_bytes_def inj_map_eq_map)
qed

lemma subtle_compare_iff: "subtle_compare a b \<longleftrightarrow> a = b"
proof (cases "length a = length b")
  case True
  then have "length (string_bytes a) = length (string_bytes b)" by (simp add: string_bytes_def)
  with True show ?thesis by (simp add: subtle_compare_def xor_diff_0 string_bytes_inj)
qed (auto simp: subtle_compare_def)

section \<open>Requests and the engine\<close>

lemma engine_submit_total:
  assumes "engine_ok e"
  shows "\<exists>e' x' trades err calls. engine_submit clk ord e = Some (e', x', trades, err, calls)"
proof (cases "engine_book (o_pair ord) e")
  case (Inl f)
  then show ?thesis by (simp add: engine_submit_def)
next
  case (Inr b)
  obtain b' x' trades err where s: "submit clk b (ord\<lparr>o_id := en_next_order e + 1\<rparr>) = Some (b', x', trades, err)"
    using submit_total [OF engine_ok_bookD(1) [OF assms Inr]] by (metis prod_cases4)
  show ?thesis by (cases err) (auto simp: engine_submit_def Inr s Let_def split: prod.splits)
qed

text \<open>
  What a refused request may leave behind: the identifier it used up and its place in the count of
  rejections. The books, the order index, the trades and the other counters stay.
\<close>

definition only_counted :: "engine \<Rightarrow> engine \<Rightarrow> bool" where
  "only_counted e e' \<longleftrightarrow> (\<exists>i n. e' = e\<lparr>en_next_order := i, en_rejected := n\<rparr>)"

lemma only_counted_refl [simp]: "only_counted e e"
  unfolding only_counted_def by (intro exI [of _ "en_next_order e"] exI [of _ "en_rejected e"]) simp

lemma engine_submit_refused:
  assumes "engine_submit clk ord e = Some (e', x', trades, Some err, calls)"
  shows "only_counted e e'"
  using assms
proof (cases "engine_book (o_pair ord) e")
  case (Inl f)
  with assms show ?thesis unfolding only_counted_def
    by (intro exI [of _ "en_next_order e"] exI [of _ "en_rejected e + 1"]) (auto simp: engine_submit_def)
next
  case (Inr b)
  from assms Inr obtain b' snap ts where
    s: "submit clk b (ord\<lparr>o_id := en_next_order e + 1\<rparr>) = Some (b', snap, ts, Some err)" and
    e': "e' = e\<lparr>en_next_order := en_next_order e + 1, en_books := AList.update (o_pair ord) b' (en_books e),
           en_rejected := en_rejected e + 1\<rparr>"
    by (auto simp: engine_submit_def Let_def split: option.splits prod.splits)
  from s have "b' = b" by (auto elim: submit_outcome)
  moreover have "map_of (en_books e) (o_pair ord) = Some b"
    using Inr by (auto simp: engine_book_def split: option.splits)
  ultimately have "AList.update (o_pair ord) b' (en_books e) = en_books e" by (simp add: update_triv)
  with e' show ?thesis unfolding only_counted_def
    by (intro exI [of _ "en_next_order e + 1"] exI [of _ "en_rejected e + 1"]) simp
qed

lemma engine_cancel_refused:
  assumes "engine_cancel now i trader e = (e', Inl err)"
  shows "e' = e"
  using assms
  by (auto simp: engine_cancel_def engine_book_def update_triv dest: cancel_refused split: option.splits prod.splits)


lemma register_refused: "register_pair cfg e = (e', Some err) \<Longrightarrow> e' = e"
  by (auto simp: register_pair_def split: if_splits option.splits)

lemma unregister_refused: "unregister_pair pair e = (e', False) \<Longrightarrow> e' = e"
  by (auto simp: unregister_pair_def split: option.splits)

lemma admin_auth_None:
  "admin_auth key x_key auth = None \<longleftrightarrow>
     key \<noteq> [] \<and> (if x_key = [] then trim_prefix ''Bearer '' auth else x_key) = key"
  by (simp add: admin_auth_def Let_def subtle_compare_iff)

section \<open>The start-up loop\<close>

lemma check_specs_None:
  "check_specs i seen specs = None \<Longrightarrow>
     distinct (map ps_pair specs) \<and> set (map ps_pair specs) \<inter> seen = {} \<and> (\<forall>s \<in> set specs. trim_space (ps_pair s) \<noteq> [])"
  by (induction i seen specs rule: check_specs.induct) (auto split: if_splits)

lemma trim_space_Nil [simp]: "trim_space [] = []"
  by (simp add: trim_space_def trim_right_def)

lemma register_new:
  assumes "pc_pair cfg \<noteq> []" "pc_pair cfg \<notin> set (listed_pairs e)"
  shows "\<exists>e'. register_pair cfg e = (e', None) \<and> listed_pairs e' = listed_pairs e @ [pc_pair cfg]
    \<and> engine_step e e'"
proof -
  have u: "map fst (AList.update k v al) = map fst al @ [k]" if "k \<notin> set (map fst al)" for k and v :: book and al
    using that by (induction al) auto
  have "map_of (en_books e) (pc_pair cfg) = None" using assms by (simp add: listed_pairs_def map_of_eq_None_iff)
  then have r: "register_pair cfg e
      = (e\<lparr>en_books := AList.update (pc_pair cfg) (new_book cfg) (en_books e)\<rparr>, None)" (is "_ = (?e, None)")
    using assms by (simp add: register_pair_def)
  moreover have "listed_pairs ?e = listed_pairs e @ [pc_pair cfg]"
    using u [of "pc_pair cfg" "en_books e"] assms by (simp add: listed_pairs_def)
  ultimately show ?thesis using engine_step.step_register [OF r] by blast
qed

lemma register_specs_lists:
  "distinct (map ps_pair specs) \<Longrightarrow> \<forall>s \<in> set specs. ps_pair s \<noteq> [] \<and> ps_pair s \<notin> set (listed_pairs e) \<Longrightarrow>
     reachable e \<Longrightarrow>
     \<exists>e'. register_specs specs e = Some e' \<and> listed_pairs e' = listed_pairs e @ map ps_pair specs \<and> reachable e'"
proof (induction specs arbitrary: e)
  case (Cons s ss)
  have "pc_pair (spec_config s) = ps_pair s" by (simp add: spec_config_def)
  with Cons.prems(2) obtain e1 where e1: "register_pair (spec_config s) e = (e1, None)"
    "listed_pairs e1 = listed_pairs e @ [ps_pair s]" "engine_step e e1"
    using register_new [of "spec_config s" e] by auto
  have "\<exists>e'. register_specs ss e1 = Some e' \<and> listed_pairs e' = listed_pairs e1 @ map ps_pair ss \<and> reachable e'"
    using Cons.prems e1(2) reachable.step [OF Cons.prems(3) e1(3)] by (intro Cons.IH) (auto simp: image_iff)
  with e1 show ?case by auto
qed simp

section \<open>Claims\<close>

lemma serve_total:
  assumes "engine_ok e"
  shows "\<exists>e' code. serve key clk call e = Some (e', code)"
proof (cases call)
  case (Submit_order body)
  show ?thesis
  proof (cases "bind_submit body")
    case None
    with Submit_order show ?thesis by (simp add: serve_def submit_handler_def)
  next
    case (Some r)
    obtain e' x' trades err calls where s: "engine_submit clk (request_order r) e = Some (e', x', trades, err, calls)"
      using engine_submit_total [OF assms] by blast
    with Submit_order Some show ?thesis by (cases err) (simp_all add: serve_def submit_handler_def)
  qed
next
  case (Admin x_key auth ac)
  then show ?thesis by (cases ac) (auto simp: serve_def split: option.split prod.split)
qed (auto simp: serve_def split: prod.split)

lemma serve_refused:
  assumes "serve key clk call e = Some (e', code)" and "400 \<le> code"
  shows "only_counted e e'"
proof (cases call)
  case (Submit_order body)
  with assms show ?thesis
    by (auto simp: serve_def submit_handler_def dest: engine_submit_refused split: option.splits prod.splits)
next
  case (Cancel_order i body)
  with assms show ?thesis
    by (auto simp: serve_def cancel_handler_def dest: engine_cancel_refused split: option.splits prod.splits sum.splits if_splits)
next
  case (Admin x_key auth ac)
  with assms show ?thesis
    by (cases ac) (auto simp: serve_def register_pair_handler_def unregister_pair_handler_def
        dest: register_refused unregister_refused split: option.splits prod.splits bool.splits)
qed (use assms in \<open>auto simp: serve_def\<close>)

lemma serve_codes: "serve key clk call e \<noteq> Some (e', 429)"
proof (cases call)
  case (Admin x_key auth ac)
  then show ?thesis
    by (cases ac) (auto simp: serve_def register_pair_handler_def unregister_pair_handler_def admin_auth_def Let_def
        split: option.splits prod.splits bool.splits if_splits)
qed (auto simp: serve_def submit_handler_def cancel_handler_def get_order_handler_def trader_orders_handler_def
    market_data_handler_def depth_handler_def trades_handler_def list_pairs_handler_def stats_handler_def
    health_handler_def on_pair_def split: option.splits prod.splits sum.splits if_splits)

text \<open>Reachable engines stay reachable while the counter of orders does not wrap around.\<close>

lemma serve_reachable:
  assumes "reachable e" and "en_next_order e \<noteq> - 1" and "serve key clk call e = Some (e', code)"
  shows "reachable e'"
proof (cases call)
  case (Submit_order body)
  have "reachable e1" if "engine_submit clk r e = Some (e1, x', trades, err, calls)" for r e1 x' trades err calls
    by (rule reachable.step [OF assms(1) engine_step.step_submit [OF assms(2) that]])
  with Submit_order assms show ?thesis
    by (auto simp: serve_def submit_handler_def split: option.splits prod.splits)
next
  case (Cancel_order i body)
  have "reachable e1" if "engine_cancel now j t e = (e1, r)" for now j t e1 r
    by (rule reachable.step [OF assms(1) engine_step.step_cancel [OF that]])
  with Cancel_order assms show ?thesis
    by (auto simp: serve_def cancel_handler_def split: option.splits prod.splits sum.splits if_splits)
next
  case (Admin x_key auth ac)
  have "reachable e1" if "register_pair cfg e = (e1, r)" for cfg e1 r
    by (rule reachable.step [OF assms(1) engine_step.step_register [OF that]])
  moreover have "reachable e1" if "unregister_pair p e = (e1, r)" for p e1 r
    by (rule reachable.step [OF assms(1) engine_step.step_unregister [OF that]])
  ultimately show ?thesis using Admin assms
    by (cases ac) (auto simp: serve_def register_pair_handler_def unregister_pair_handler_def
        split: option.splits prod.splits bool.splits)
qed (use assms in \<open>auto simp: serve_def\<close>)

text \<open>C12: every request under \<open>/api/v1\<close> to a server whose engine is well-formed is answered; and when the
  answer is an error, be it the rate limiter's, the admin gate's, a handler's or the engine's, the books,
  the order index, the trades and the counters of accepted work are what they were: only an order
  identifier and a place in the count of rejections may be used up, and neither by a request that the
  limiter turned away. A request that only reads changes nothing whatever the answer is.\<close>

theorem refused_request_changes_no_book:
  assumes "engine_ok (os_engine s)"
  shows "\<exists>s' code. serve_request key clk now ip call s = Some (s', code)
    \<and> (400 \<le> code \<longrightarrow> (\<exists>i n. os_engine s' = (os_engine s)\<lparr>en_next_order := i, en_rejected := n\<rparr>))
    \<and> (code = 429 \<or> (case call of Submit_order _ \<Rightarrow> False | Cancel_order _ _ \<Rightarrow> False | Admin _ _ _ \<Rightarrow> False | _ \<Rightarrow> True)
         \<longrightarrow> os_engine s' = os_engine s)"
proof -
  obtain ok l where l: "om_allow now ip (os_limiter s) = (ok, l)" by fastforce
  show ?thesis
  proof (cases ok)
    case False
    with l show ?thesis
      using only_counted_refl [of "os_engine s", unfolded only_counted_def] by (simp add: serve_request_def)
  next
    case True
    obtain e' code where s: "serve key clk call (os_engine s) = Some (e', code)" using serve_total [OF assms] by blast
    have n: "code \<noteq> 429" using s serve_codes by blast
    have "e' = os_engine s" if "case call of Submit_order _ \<Rightarrow> False | Cancel_order _ _ \<Rightarrow> False | Admin _ _ _ \<Rightarrow> False | _ \<Rightarrow> True"
      using s that by (cases call) (auto simp: serve_def)
    with l True s n serve_refused [OF s] show ?thesis by (auto simp: serve_request_def only_counted_def)
  qed
qed

text \<open>C13: the admin routes change the engine only for a caller that presents the configured key, in
  either header, and never when no key is configured.\<close>

theorem admin_routes_need_the_key:
  assumes "serve key clk (Admin x_key auth ac) e = Some (e', code)" and "e' \<noteq> e"
  shows "key \<noteq> [] \<and> (x_key = key \<or> x_key = [] \<and> trim_prefix ''Bearer '' auth = key)"
proof (cases "admin_auth key x_key auth")
  case None
  then show ?thesis by (auto simp: admin_auth_None split: if_splits)
next
  case (Some p)
  with assms show ?thesis by (cases p) (simp add: serve_def)
qed

text \<open>Cancelling needs nothing that is not public. The lookup of any resting order answers with
  the trader's name, and a cancel request that carries this name is accepted: the route has no
  authentication, so whoever can read an order can cancel it.\<close>

theorem anyone_can_cancel:
  assumes "reachable e" and "engine_book p e = Inr b" and "x \<in> set (flat (bk_bids b) @ flat (bk_asks b))"
    and "parse_order_id raw = Some (o_id x)" and "o_trader x \<noteq> []"
  shows "get_order_handler raw e = Ok_reply 200 x
    \<and> (\<exists>e'. serve key clk (Cancel_order raw (Some (o_trader x))) e = Some (e', 200)
         \<and> get_order_handler raw e' = Error_reply 404 (err_text ErrUnknownOrder))"
proof -
  note r = resting_order_lookup_and_cancel [OF assms(1-3), of "clk 0"]
  then obtain e' x' where c: "engine_cancel (clk 0) (o_id x) (o_trader x) e = (e', Inr x')"
    "engine_get_order (o_id x) e' = Inl ErrUnknownOrder" by blast
  have "engine_get_order (o_id x) e = Inr x" using r by blast
  then have "get_order_handler raw e = Ok_reply 200 x" using assms(4) by (simp add: get_order_handler_def)
  moreover have "serve key clk (Cancel_order raw (Some (o_trader x))) e = Some (e', 200)"
    using c(1) assms(4,5) by (simp add: serve_def cancel_handler_def)
  moreover have "get_order_handler raw e' = Error_reply 404 (err_text ErrUnknownOrder)"
    using c(2) assms(4) by (simp add: get_order_handler_def)
  ultimately show ?thesis by blast
qed

text \<open>The service starts with exactly the configured pairs: an accepted pair list has pairwise
  different, non-blank names, and registering it on a fresh engine lists them all, in order.\<close>

theorem startup_lists_configured_pairs:
  assumes "load_pair_specs decode raw = Inr specs"
  shows "\<exists>e. register_specs specs (new_engine now) = Some e \<and> listed_pairs e = map ps_pair specs \<and> reachable e"
proof -
  have c: "check_specs 0 {} specs = None" using assms by (auto simp: load_pair_specs_def split: if_splits option.splits)
  then have "\<forall>s \<in> set specs. ps_pair s \<noteq> []" using check_specs_None [OF c] by (metis trim_space_Nil)
  moreover have "listed_pairs (new_engine now) = []" by (simp add: listed_pairs_def new_engine_def Let_def)
  ultimately show ?thesis
    using register_specs_lists [of specs "new_engine now"] check_specs_None [OF c] reachable.start by auto
qed

section \<open>Witnesses\<close>

definition eg_spec :: pair_spec where
  "eg_spec = \<lparr>ps_pair = ''TGR-USDC'', ps_maker_fee_bps = 10, ps_taker_fee_bps = 30,
     ps_min_quantity = f64_zero, ps_max_quantity = f64_zero\<rparr>"

definition eg_server :: order_server where
  "eg_server = start_server 2 eg_resting_engine"

theorem refused_request_witness:
  "\<exists>s'. serve_request ''k'' (\<lambda>_. 0) 5 ''10.0.0.1'' (Cancel_order ''x'' (Some ''bob'')) eg_server = Some (s', 400)
    \<and> en_books (os_engine s') = en_books eg_resting_engine"
proof -
  have "parse_order_id ''x'' = None"
    by (simp add: parse_order_id_def scan_uint_def scan_blank_def is_space_def is_digit_def)
  then obtain s' where s: "serve_request ''k'' (\<lambda>_. 0) 5 ''10.0.0.1'' (Cancel_order ''x'' (Some ''bob'')) eg_server = Some (s', 400)"
    by (simp add: serve_request_def serve_def cancel_handler_def eg_server_def start_server_def om_allow_def
        om_new_limiter_def request_times_def)
  have "engine_ok (os_engine eg_server)"
    using engine_ok_reachable [OF reachable_resting] by (simp add: eg_server_def start_server_def)
  from refused_request_changes_no_book [OF this, of "''k''" "\<lambda>_. 0" 5 "''10.0.0.1''" "Cancel_order ''x'' (Some ''bob'')"] s
  have "\<exists>i n. os_engine s' = (os_engine eg_server)\<lparr>en_next_order := i, en_rejected := n\<rparr>" by simp
  then have "en_books (os_engine s') = en_books eg_resting_engine" by (auto simp: eg_server_def start_server_def)
  with s show ?thesis by blast
qed

theorem admin_routes_witness:
  "\<exists>e' code. serve ''k'' (\<lambda>_. 0) (Admin ''k'' [] (Register (Some eg_spec))) (new_engine 0) = Some (e', code)
    \<and> e' \<noteq> new_engine 0 \<and> (''k'' = ''k'' \<or> trim_prefix ''Bearer '' [] = ''k'')"
proof -
  let ?new = "new_engine 0"
  have l: "listed_pairs ?new = []" by (simp add: listed_pairs_def new_engine_def Let_def)
  then obtain e' where r: "register_pair (spec_config eg_spec) ?new = (e', None)" "listed_pairs e' = [''TGR-USDC'']"
    using register_new [of "spec_config eg_spec" ?new] by (auto simp: spec_config_def eg_spec_def)
  then have ne: "e' \<noteq> ?new" using l by auto
  have "admin_auth ''k'' ''k'' [] = None" by (simp add: admin_auth_None)
  then have s: "serve ''k'' (\<lambda>_. 0) (Admin ''k'' [] (Register (Some eg_spec))) ?new = Some (e', 200)"
    using r(1) by (simp add: serve_def register_pair_handler_def)
  from admin_routes_need_the_key [OF s ne] s ne show ?thesis by blast
qed

theorem anyone_can_cancel_witness:
  "\<exists>e'. serve ''k'' (\<lambda>_. 0) (Cancel_order ''1'' (Some ''bob'')) eg_resting_engine = Some (e', 200)"
proof -
  have "parse_order_id ''1'' = Some (o_id eg_resting)"
    by (simp add: parse_order_id_def scan_uint_def scan_blank_def is_space_def is_digit_def digit_val_def eg_resting_simps)
  from anyone_can_cancel [OF reachable_resting eg_resting_book _ this] show ?thesis
    by (simp add: eg_flat eg_resting_simps) blast
qed

theorem startup_witness:
  "\<exists>e. register_specs [eg_spec] (new_engine 0) = Some e \<and> listed_pairs e = [''TGR-USDC'']"
proof -
  have "load_pair_specs (\<lambda>_. Some [eg_spec]) ''json'' = Inr [eg_spec]"
    by (simp add: load_pair_specs_def eg_spec_def trim_space_def trim_right_def is_space_def f64_zero_def)
  from startup_lists_configured_pairs [OF this, of 0] show ?thesis by (auto simp: eg_spec_def)
qed

end
