(* ===== verification/Ledger.thy ===== *)
theory Ledger
  imports Go_Tables
begin

text \<open>
  The platform's internal accounting (\<open>services/ledger_service.go\<close>). The table
  \<open>account_balances\<close> is an association list keyed by its unique index (user, chain, token);
  amounts are stored as decimal text, exactly as the column is. Each database call can fail: the
  parameter \<open>fault\<close> says which, and a failed call rolls the whole transaction back, so a
  mutation either returns the new table or an error with no table. Row locks serialise the
  mutations of one row, which is why a mutation is one step.

  The contract the other services rely on is the locale \<open>ledger_ops\<close>; its interpretation
  discharges the laws for this model.
\<close>

section \<open>The table\<close>

type_synonym account_key = "string \<times> int64 \<times> string"

record account =
  ac_symbol :: string
  ac_decimals :: int
  ac_available :: string
  ac_locked :: string

type_synonym accounts = "(account_key \<times> account) list"

datatype ledger_call = Read_balance | Create_balance | Reread_balance | Write_balance | Commit_balance

datatype ledger_error = Credit_not_positive | Debit_not_positive | Insufficient_balance | Ledger_db_error

definition native_token :: string where
  "native_token = ''native''"

definition normalize_token :: "string \<Rightarrow> string" where
  "normalize_token address = (if address = [] then native_token else to_lower address)"

section \<open>Operations\<close>

text \<open>
  \<open>mutateWithin\<close>. The symbol and decimals of an existing row are assigned in memory only: the
  update writes the \<open>available\<close> column and nothing else.
\<close>

definition mutate_within ::
  "(ledger_call \<Rightarrow> bool) \<Rightarrow> string \<Rightarrow> int64 \<Rightarrow> string \<Rightarrow> string \<Rightarrow> int \<Rightarrow>
     (int \<Rightarrow> ledger_error + int) \<Rightarrow> accounts \<Rightarrow> ledger_error + accounts" where
  "mutate_within fault user chain token symbol decimals fn t =
     (let key = (user, chain, normalize_token token) in
      if fault Read_balance then Inl Ledger_db_error
      else
        and_then
          (case map_of t key of
             Some row \<Rightarrow> Inr row
           | None \<Rightarrow>
               if fault Create_balance \<or> fault Reread_balance then Inl Ledger_db_error
               else Inr \<lparr>ac_symbol = symbol, ac_decimals = decimals, ac_available = ''0'', ac_locked = ''0''\<rparr>)
          (\<lambda>row. and_then (fn (stored_amount (ac_available row)))
             (\<lambda>next. if fault Write_balance then Inl Ledger_db_error
                     else Inr (AList.update key (row\<lparr>ac_available := int_string next\<rparr>) t))))"

definition credit_within ::
  "(ledger_call \<Rightarrow> bool) \<Rightarrow> string \<Rightarrow> int64 \<Rightarrow> string \<Rightarrow> string \<Rightarrow> int \<Rightarrow> int option \<Rightarrow>
     accounts \<Rightarrow> ledger_error + accounts" where
  "credit_within fault user chain token symbol decimals amount t =
     (case amount of
        None \<Rightarrow> Inl Credit_not_positive
      | Some a \<Rightarrow>
          if a \<le> 0 then Inl Credit_not_positive
          else mutate_within fault user chain token symbol decimals (\<lambda>available. Inr (available + a)) t)"

definition debit_within ::
  "(ledger_call \<Rightarrow> bool) \<Rightarrow> string \<Rightarrow> int64 \<Rightarrow> string \<Rightarrow> int option \<Rightarrow> accounts \<Rightarrow> ledger_error + accounts" where
  "debit_within fault user chain token amount t =
     (case amount of
        None \<Rightarrow> Inl Debit_not_positive
      | Some a \<Rightarrow>
          if a \<le> 0 then Inl Debit_not_positive
          else mutate_within fault user chain token [] 0
                 (\<lambda>available. if available < a then Inl Insufficient_balance else Inr (available - a)) t)"

text \<open>The public operations run one mutation in a transaction of its own.\<close>

definition in_transaction :: "bool \<Rightarrow> (ledger_error + accounts) \<Rightarrow> accounts \<Rightarrow> accounts \<times> ledger_error option" where
  "in_transaction commit_fails r t =
     (case r of
        Inl e \<Rightarrow> (t, Some e)
      | Inr t' \<Rightarrow> if commit_fails then (t, Some Ledger_db_error) else (t', None))"

definition credit ::
  "(ledger_call \<Rightarrow> bool) \<Rightarrow> string \<Rightarrow> int64 \<Rightarrow> string \<Rightarrow> string \<Rightarrow> int \<Rightarrow> int option \<Rightarrow>
     accounts \<Rightarrow> accounts \<times> ledger_error option" where
  "credit fault user chain token symbol decimals amount t =
     in_transaction (fault Commit_balance) (credit_within fault user chain token symbol decimals amount t) t"

definition debit ::
  "(ledger_call \<Rightarrow> bool) \<Rightarrow> string \<Rightarrow> int64 \<Rightarrow> string \<Rightarrow> int option \<Rightarrow>
     accounts \<Rightarrow> accounts \<times> ledger_error option" where
  "debit fault user chain token amount t =
     in_transaction (fault Commit_balance) (debit_within fault user chain token amount t) t"

definition available :: "(ledger_call \<Rightarrow> bool) \<Rightarrow> string \<Rightarrow> int64 \<Rightarrow> string \<Rightarrow> accounts \<Rightarrow> ledger_error + int" where
  "available fault user chain token t =
     (if fault Read_balance then Inl Ledger_db_error
      else case map_of t (user, chain, normalize_token token) of
             None \<Rightarrow> Inr 0
           | Some row \<Rightarrow> Inr (stored_amount (ac_available row)))"

definition balances :: "string \<Rightarrow> accounts \<Rightarrow> (account_key \<times> account) list" where
  "balances user t = filter (\<lambda>((u, _), _). u = user) t"

section \<open>The contract\<close>

definition balance :: "accounts \<Rightarrow> account_key \<Rightarrow> int" where
  "balance t k = (case map_of t k of None \<Rightarrow> 0 | Some row \<Rightarrow> stored_amount (ac_available row))"

locale ledger_ops =
  fixes bal :: "'t \<Rightarrow> 'k \<Rightarrow> int"
    and key :: "'x \<Rightarrow> 'k"
    and cr :: "'m \<Rightarrow> 'x \<Rightarrow> int \<Rightarrow> 't \<Rightarrow> 'e + 't"
    and db :: "'m \<Rightarrow> 'x \<Rightarrow> int \<Rightarrow> 't \<Rightarrow> 'e + 't"
  assumes cr_law: "cr m x a t = Inr t' \<Longrightarrow> 0 < a \<and> bal t' = (bal t)(key x := bal t (key x) + a)"
    and db_law: "db m x a t = Inr t' \<Longrightarrow> 0 < a \<and> a \<le> bal t (key x) \<and> bal t' = (bal t)(key x := bal t (key x) - a)"
begin

lemma cr_total:
  "cr m x a t = Inr t' \<Longrightarrow> finite K \<Longrightarrow> key x \<in> K \<Longrightarrow> (\<Sum>k\<in>K. bal t' k) = (\<Sum>k\<in>K. bal t k) + a"
  using cr_law [of m x a t t'] by (simp add: sum.remove [of K "key x"])

lemma db_total:
  "db m x a t = Inr t' \<Longrightarrow> finite K \<Longrightarrow> key x \<in> K \<Longrightarrow> (\<Sum>k\<in>K. bal t' k) = (\<Sum>k\<in>K. bal t k) - a"
  using db_law [of m x a t t'] by (simp add: sum.remove [of K "key x"])

lemma cr_nonneg: "cr m x a t = Inr t' \<Longrightarrow> \<forall>j. 0 \<le> bal t j \<Longrightarrow> 0 \<le> bal t' j"
  using cr_law [of m x a t t'] by (simp add: add_nonneg_nonneg)

lemma db_nonneg: "db m x a t = Inr t' \<Longrightarrow> \<forall>j. 0 \<le> bal t j \<Longrightarrow> 0 \<le> bal t' j"
  using db_law [of m x a t t'] by simp

text \<open>A transfer: a debit of one account and a credit of another, in one transaction.\<close>

lemma transfer_total:
  assumes "db m x a t = Inr t1" "cr n y a t1 = Inr t2" "finite K" "key x \<in> K" "key y \<in> K"
  shows "(\<Sum>k\<in>K. bal t2 k) = (\<Sum>k\<in>K. bal t k)"
  using db_total [OF assms(1,3,4)] cr_total [OF assms(2,3,5)] by simp

end

lemma balance_update:
  "balance (AList.update k row t) = (balance t)(k := stored_amount (ac_available row))"
  by (auto simp: balance_def update_conv fun_eq_iff)

lemma mutate_within_Inr:
  assumes "mutate_within fault user chain token symbol decimals fn t = Inr t'"
  shows "\<exists>n. fn (balance t (user, chain, normalize_token token)) = Inr n
    \<and> balance t' = (balance t)((user, chain, normalize_token token) := n)"
proof -
  have z: "stored_amount ''0'' = 0" by (simp add: stored_amount_def parse_int_def is_digit_def digit_val_def)
  show ?thesis using assms
    by (cases "map_of t (user, chain, normalize_token token)")
       (auto simp: mutate_within_def Let_def balance_update balance_def z split: if_splits)
qed

definition account_of :: "string \<times> int64 \<times> string \<Rightarrow> account_key" where
  "account_of x = (case x of (user, chain, token) \<Rightarrow> (user, chain, normalize_token token))"

definition credit_op ::
  "(ledger_call \<Rightarrow> bool) \<times> string \<times> int \<Rightarrow> string \<times> int64 \<times> string \<Rightarrow> int \<Rightarrow> accounts \<Rightarrow> ledger_error + accounts" where
  "credit_op m x a t = (case m of (fault, symbol, decimals) \<Rightarrow>
     credit_within fault (fst x) (fst (snd x)) (snd (snd x)) symbol decimals (Some a) t)"

definition debit_op ::
  "(ledger_call \<Rightarrow> bool) \<times> string \<times> int \<Rightarrow> string \<times> int64 \<times> string \<Rightarrow> int \<Rightarrow> accounts \<Rightarrow> ledger_error + accounts" where
  "debit_op m x a t = debit_within (fst m) (fst x) (fst (snd x)) (snd (snd x)) (Some a) t"

interpretation ledger: ledger_ops balance account_of credit_op debit_op
proof
  fix m x a t t'
  assume "credit_op m x a t = Inr t'"
  then show "0 < a \<and> balance t' = (balance t)(account_of x := balance t (account_of x) + a)"
    by (auto simp: credit_op_def credit_within_def account_of_def dest!: mutate_within_Inr split: if_splits prod.splits)
next
  fix m x a t t'
  assume "debit_op m x a t = Inr t'"
  then show "0 < a \<and> a \<le> balance t (account_of x)
      \<and> balance t' = (balance t)(account_of x := balance t (account_of x) - a)"
    by (auto simp: debit_op_def debit_within_def account_of_def dest!: mutate_within_Inr split: if_splits prod.splits)
qed

lemma credit_within_op:
  "credit_within fault user chain token symbol decimals (Some a) t
     = credit_op (fault, symbol, decimals) (user, chain, token) a t"
  by (simp add: credit_op_def)

lemma debit_within_op:
  "debit_within fault user chain token (Some a) t = debit_op (fault, [], 0) (user, chain, token) a t"
  by (simp add: debit_op_def)

lemma in_transaction_None: "in_transaction c r t = (t', None) \<longleftrightarrow> r = Inr t' \<and> \<not> c"
  by (cases r) (auto simp: in_transaction_def)

lemma in_transaction_Some: "in_transaction c r t = (t', Some e) \<Longrightarrow> t' = t"
  by (cases r) (auto simp: in_transaction_def split: if_splits)

section \<open>Claims\<close>

text \<open>C14: a debit takes exactly its amount from exactly one balance, and only if the balance covers
  it, so no sequence of debits and credits makes a balance negative.\<close>

theorem debit_never_overdraws:
  assumes "debit fault user chain token (Some a) t = (t', None)"
  shows "0 < a \<and> a \<le> balance t (user, chain, normalize_token token)
    \<and> balance t' = (balance t)((user, chain, normalize_token token) := balance t (user, chain, normalize_token token) - a)"
  using ledger.db_law [of "(fault, [], 0)" "(user, chain, token)" a t t'] assms
  by (simp add: debit_def in_transaction_None debit_within_op account_of_def)

text \<open>A credit adds exactly its amount to exactly one balance, which \<open>Available\<close> then reports,
  whatever casing of the token's address the caller uses.\<close>

theorem credit_is_available:
  assumes "credit fault user chain token symbol decimals (Some a) t = (t', None)"
    and "to_lower token' = to_lower token" and "\<not> fault' Read_balance"
  shows "available fault' user chain token' t' = Inr (balance t (user, chain, normalize_token token) + a)"
proof -
  have n: "normalize_token token' = normalize_token token"
    using assms(2) by (auto simp: normalize_token_def to_lower_def)
  have "balance t' = (balance t)((user, chain, normalize_token token) := balance t (user, chain, normalize_token token) + a)"
    using ledger.cr_law [of "(fault, symbol, decimals)" "(user, chain, token)" a t t'] assms(1)
    by (simp add: credit_def in_transaction_None credit_within_op account_of_def)
  then have "balance t' (user, chain, normalize_token token') = balance t (user, chain, normalize_token token) + a"
    by (simp add: n)
  then show ?thesis using assms(3) by (auto simp: available_def balance_def split: option.splits)
qed

text \<open>A mutation that fails, for whatever reason and at whichever database call, leaves the table
  as it was.\<close>

theorem failed_mutation_changes_nothing:
  assumes "credit fault user chain token symbol decimals amount t = (t', Some e)
    \<or> debit fault user chain token amount t = (t', Some e)"
  shows "t' = t"
  using assms in_transaction_Some by (auto simp: credit_def debit_def)

section \<open>Witnesses\<close>

definition eg_accounts :: accounts where
  "eg_accounts = [((''alice'', 1, ''native''), \<lparr>ac_symbol = ''TGR'', ac_decimals = 18, ac_available = ''70'', ac_locked = ''0''\<rparr>)]"

theorem debit_never_overdraws_witness:
  "\<exists>t'. debit (\<lambda>_. False) ''alice'' 1 [] (Some 30) eg_accounts = (t', None)
    \<and> balance t' (''alice'', 1, ''native'') = balance eg_accounts (''alice'', 1, ''native'') - 30"
proof -
  have "\<exists>t'. debit (\<lambda>_. False) ''alice'' 1 [] (Some 30) eg_accounts = (t', None)"
    by (rule exI, code_simp)
  then obtain t' where d: "debit (\<lambda>_. False) ''alice'' 1 [] (Some 30) eg_accounts = (t', None)" by blast
  from debit_never_overdraws [OF this] d show ?thesis by (simp add: normalize_token_def native_token_def)
qed

theorem credit_is_available_witness:
  "\<exists>t'. credit (\<lambda>_. False) ''bob'' 1 ''0xAB'' ''TGR'' 18 (Some 5) eg_accounts = (t', None)
    \<and> available (\<lambda>_. False) ''bob'' 1 ''0xab'' t' = Inr (balance eg_accounts (''bob'', 1, ''0xab'') + 5)"
proof -
  have "\<exists>t'. credit (\<lambda>_. False) ''bob'' 1 ''0xAB'' ''TGR'' 18 (Some 5) eg_accounts = (t', None)"
    by (rule exI, code_simp)
  then obtain t' where d: "credit (\<lambda>_. False) ''bob'' 1 ''0xAB'' ''TGR'' 18 (Some 5) eg_accounts = (t', None)" by blast
  have "to_lower ''0xab'' = to_lower ''0xAB''" "normalize_token ''0xAB'' = ''0xab''" by code_simp+
  from credit_is_available [OF d this(1), of "\<lambda>_. False"] d this(2) show ?thesis by simp
qed

theorem failed_mutation_witness:
  "\<exists>t'. debit (\<lambda>_. False) ''alice'' 1 [] (Some 300) eg_accounts = (t', Some Insufficient_balance) \<and> t' = eg_accounts"
proof -
  have "\<exists>t'. debit (\<lambda>_. False) ''alice'' 1 [] (Some 300) eg_accounts = (t', Some Insufficient_balance)"
    by (rule exI, code_simp)
  then show ?thesis using failed_mutation_changes_nothing by blast
qed

end
