(* ===== verification/Airdrop.thy ===== *)
theory Airdrop
  imports Ledger
begin

text \<open>
  Token distributions (\<open>services/airdrop_service.go\<close>): campaigns with an escrow that is funded
  from the ledger, per-user allocations, and claims that pay out of the escrow. Each handler
  reads what it checks first in one state, \<open>d0\<close>, and writes in a later one, \<open>d\<close>: other requests
  may run in between, and only what the transaction re-reads under a row lock is of the later
  state. \<open>fault\<close> says which of its database calls fail, and a failed transaction leaves the
  tables as they were. Campaigns are keyed by their id, with the soft-delete
  mark as a field; allocations by their unique index (campaign, user). \<open>uuid.Parse\<close>,
  \<open>time.Parse\<close> of RFC3339 and go-ethereum's address parsing are parameters; \<open>now\<close> and the id of
  a new row are arguments. Audit-log writes are not part of the state.
\<close>

section \<open>Tables\<close>

record campaign =
  cp_key :: string
  cp_name :: string
  cp_chain :: int64
  cp_token :: string
  cp_symbol :: string
  cp_decimals :: int
  cp_total_allocated :: string
  cp_funded :: string
  cp_total_claimed :: string
  cp_start :: time
  cp_end :: time
  cp_status :: string
  cp_created_by :: string
  cp_deleted :: bool

record allocation =
  al_amount :: string
  al_claimed :: bool

record airdrop_db =
  ad_campaigns :: "(string \<times> campaign) list"
  ad_allocations :: "((string \<times> string) \<times> allocation) list"
  ad_accounts :: accounts

definition airdrop_active :: string where "airdrop_active = ''active''"
definition airdrop_paused :: string where "airdrop_paused = ''paused''"
definition airdrop_closed :: string where "airdrop_closed = ''closed''"

definition allowed_airdrop_status :: "string \<Rightarrow> bool" where
  "allowed_airdrop_status s \<longleftrightarrow> s \<in> {airdrop_active, airdrop_paused, airdrop_closed}"

datatype airdrop_call =
  Load_campaign | Count_keys | Create_campaign | Update_campaign | Reload_campaign | Count_claimed
| Delete_allocations | Create_allocation nat | Write_total_allocated | Lock_campaign | Write_funded
| Lock_allocation | Write_claimed_flag | Write_total_claimed | Close_campaign | Delete_campaign
| Commit_airdrop | List_rows | Load_campaign_of string | Balance_call ledger_call

section \<open>Parsing\<close>

datatype amount_error = Amount_required | Amount_not_integer | Amount_negative

definition parse_token_amount :: "string \<Rightarrow> amount_error + int" where
  "parse_token_amount raw =
     (let s = trim_space raw in
      if s = [] then Inl Amount_required
      else (case parse_int s of
              None \<Rightarrow> Inl Amount_not_integer
            | Some n \<Rightarrow> if n < 0 then Inl Amount_negative else Inr n))"

text \<open>\<open>parseTokenAmount\<close> followed by the callers' test for a positive amount.\<close>

definition positive_token_amount :: "string \<Rightarrow> int option" where
  "positive_token_amount raw =
     (case parse_token_amount raw of Inl _ \<Rightarrow> None | Inr n \<Rightarrow> if n \<le> 0 then None else Some n)"

text \<open>\<open>hex_address s\<close> is the lower-case form of a valid hex address.\<close>

definition token_key_or_native :: "(string \<Rightarrow> string option) \<Rightarrow> string \<Rightarrow> string option" where
  "token_key_or_native hex_address raw =
     (let s = trim_space raw in
      if s = [] \<or> to_lower s = native_token then Some native_token else hex_address s)"

section \<open>Loading a campaign\<close>

datatype load_error = Campaign_not_found | Campaign_load_failed

definition find_campaign :: "string \<Rightarrow> airdrop_db \<Rightarrow> campaign option" where
  "find_campaign i d =
     (case map_of (ad_campaigns d) i of
        None \<Rightarrow> None
      | Some c \<Rightarrow> if cp_deleted c then None else Some c)"

definition load_campaign :: "(airdrop_call \<Rightarrow> bool) \<Rightarrow> string \<Rightarrow> airdrop_db \<Rightarrow> load_error + campaign" where
  "load_campaign fault i d =
     (if fault Load_campaign then Inl Campaign_load_failed
      else case find_campaign i d of None \<Rightarrow> Inl Campaign_not_found | Some c \<Rightarrow> Inr c)"

fun load_error_reply :: "load_error \<Rightarrow> 'a reply" where
  "load_error_reply Campaign_not_found = Error_reply 404 ''airdrop campaign not found''"
| "load_error_reply Campaign_load_failed = Error_reply 500 ''failed to load campaign''"

definition put_campaign :: "string \<Rightarrow> campaign \<Rightarrow> airdrop_db \<Rightarrow> airdrop_db" where
  "put_campaign i c d = d\<lparr>ad_campaigns := AList.update i c (ad_campaigns d)\<rparr>"

text \<open>A column update by id; it reaches no soft-deleted row.\<close>

definition modify_campaign :: "string \<Rightarrow> (campaign \<Rightarrow> campaign) \<Rightarrow> airdrop_db \<Rightarrow> airdrop_db" where
  "modify_campaign i f d = (case find_campaign i d of None \<Rightarrow> d | Some c \<Rightarrow> put_campaign i (f c) d)"

text \<open>The frame of the handlers on one campaign: the id is parsed and the campaign loaded.\<close>

definition with_campaign ::
  "(string \<Rightarrow> string option) \<Rightarrow> (airdrop_call \<Rightarrow> bool) \<Rightarrow> string \<Rightarrow>
     (string \<Rightarrow> campaign \<Rightarrow> airdrop_db \<times> 'a reply) \<Rightarrow> airdrop_db \<Rightarrow> airdrop_db \<Rightarrow> airdrop_db \<times> 'a reply" where
  "with_campaign parse_uuid fault raw_id k d0 d =
     (case parse_uuid raw_id of
        None \<Rightarrow> (d, Error_reply 400 ''invalid campaign id'')
      | Some i \<Rightarrow>
          (case load_campaign fault i d0 of
             Inl e \<Rightarrow> (d, load_error_reply e)
           | Inr c \<Rightarrow> k i c))"

section \<open>Creating and editing\<close>

record create_campaign_req =
  cc_key :: string
  cc_name :: string
  cc_chain :: int64
  cc_token :: string
  cc_symbol :: string
  cc_decimals :: int
  cc_start :: string
  cc_end :: string

definition bind_create :: "create_campaign_req option \<Rightarrow> create_campaign_req option" where
  "bind_create body =
     (case body of
        None \<Rightarrow> None
      | Some r \<Rightarrow> if cc_key r = [] \<or> cc_name r = [] \<or> cc_chain r = 0 \<or> cc_token r = [] \<or> cc_symbol r = []
                    \<or> cc_start r = [] \<or> cc_end r = [] then None else Some r)"

definition create_campaign ::
  "(string \<Rightarrow> string option) \<Rightarrow> (string \<Rightarrow> time option) \<Rightarrow> (airdrop_call \<Rightarrow> bool) \<Rightarrow> string \<Rightarrow> string \<Rightarrow>
     create_campaign_req option \<Rightarrow> airdrop_db \<Rightarrow> airdrop_db \<Rightarrow> airdrop_db \<times> string reply" where
  "create_campaign hex_address parse_time fault new_id user body d0 d =
     (case bind_create body of
        None \<Rightarrow> (d, Bad_binding)
      | Some r \<Rightarrow>
          let key = to_lower (trim_space (cc_key r)); name = trim_space (cc_name r);
              symbol = to_upper (trim_space (cc_symbol r)) in
          if key = [] \<or> 120 < length key then (d, Error_reply 400 ''key must be 1 to 120 characters'')
          else if name = [] then (d, Error_reply 400 ''name is required'')
          else if cc_decimals r < 0 \<or> 36 < cc_decimals r
            then (d, Error_reply 400 ''token_decimals must be between 0 and 36'')
          else (case token_key_or_native hex_address (cc_token r) of
            None \<Rightarrow> (d, Error_reply 400 ''token address is not a valid address'')
          | Some token \<Rightarrow>
              if symbol = [] then (d, Error_reply 400 ''token_symbol is required'')
              else (case parse_time (trim_space (cc_start r)) of
                None \<Rightarrow> (d, Error_reply 400 ''start_time: must be an RFC3339 timestamp'')
              | Some start \<Rightarrow>
                (case parse_time (trim_space (cc_end r)) of
                  None \<Rightarrow> (d, Error_reply 400 ''end_time: must be an RFC3339 timestamp'')
                | Some stop \<Rightarrow>
                    if stop \<le> start then (d, Error_reply 400 ''end_time must be after start_time'')
                    else if \<not> fault Count_keys
                         \<and> (\<exists>(i, c) \<in> set (ad_campaigns d0). cp_key c = key \<and> \<not> cp_deleted c)
                      then (d, Error_reply 409 ''an airdrop campaign with this key already exists'')
                    else if fault Create_campaign
                         \<or> (\<exists>(i, c) \<in> set (ad_campaigns d). cp_key c = key \<or> i = new_id)
                      then (d, Error_reply 500 ''failed to create airdrop campaign'')
                    else
                      (put_campaign new_id
                         \<lparr>cp_key = key, cp_name = name, cp_chain = cc_chain r, cp_token = token,
                          cp_symbol = symbol, cp_decimals = cc_decimals r, cp_total_allocated = ''0'',
                          cp_funded = ''0'', cp_total_claimed = ''0'', cp_start = start, cp_end = stop,
                          cp_status = airdrop_paused, cp_created_by = user, cp_deleted = False\<rparr> d,
                       Ok_reply 201 new_id)))))"

record update_campaign_req =
  uc_name :: "string option"
  uc_start :: "string option"
  uc_end :: "string option"
  uc_status :: "string option"

text \<open>An optional time field: absent, unreadable or the new value.\<close>

definition optional_time :: "(string \<Rightarrow> time option) \<Rightarrow> time \<Rightarrow> string option \<Rightarrow> time option" where
  "optional_time parse_time old raw =
     (case raw of None \<Rightarrow> Some old | Some s \<Rightarrow> parse_time (trim_space s))"

definition update_campaign ::
  "(string \<Rightarrow> string option) \<Rightarrow> (string \<Rightarrow> time option) \<Rightarrow> (airdrop_call \<Rightarrow> bool) \<Rightarrow> string \<Rightarrow>
     update_campaign_req option \<Rightarrow> airdrop_db \<Rightarrow> airdrop_db \<Rightarrow> airdrop_db \<times> string reply" where
  "update_campaign parse_uuid parse_time fault raw_id body d0 d =
     (case parse_uuid raw_id of
        None \<Rightarrow> (d, Error_reply 400 ''invalid campaign id'')
      | Some _ \<Rightarrow>
     (case body of
        None \<Rightarrow> (d, Bad_binding)
      | Some r \<Rightarrow> with_campaign parse_uuid fault raw_id (\<lambda>i c.
          let name = map_option trim_space (uc_name r); status = map_option (\<lambda>s. to_lower (trim_space s)) (uc_status r) in
          if name = Some [] then (d, Error_reply 400 ''name must not be empty'')
          else (case optional_time parse_time (cp_start c) (uc_start r) of
            None \<Rightarrow> (d, Error_reply 400 ''start_time: must be an RFC3339 timestamp'')
          | Some start \<Rightarrow>
            (case optional_time parse_time (cp_end c) (uc_end r) of
              None \<Rightarrow> (d, Error_reply 400 ''end_time: must be an RFC3339 timestamp'')
            | Some stop \<Rightarrow>
                if stop \<le> start then (d, Error_reply 400 ''end_time must be after start_time'')
                else if \<not> (case status of None \<Rightarrow> True | Some s \<Rightarrow> allowed_airdrop_status s)
                  then (d, Error_reply 400 ''status must be active, paused or closed'')
                else if name = None \<and> uc_start r = None \<and> uc_end r = None \<and> status = None
                  then (d, Error_reply 400 ''no updatable fields were provided'')
                else if fault Update_campaign then (d, Error_reply 500 ''failed to update campaign'')
                else
                  let d' = modify_campaign i (\<lambda>row. row\<lparr>
                             cp_name := (case name of None \<Rightarrow> cp_name row | Some n \<Rightarrow> n),
                             cp_start := (if uc_start r = None then cp_start row else start),
                             cp_end := (if uc_end r = None then cp_end row else stop),
                             cp_status := (case status of None \<Rightarrow> cp_status row | Some s \<Rightarrow> s)\<rparr>) d
                  in (d', if fault Reload_campaign then Error_reply 500 ''failed to reload campaign''
                          else Ok_reply 200 i)))) d0 d))"

section \<open>Allocations\<close>

fun parse_entries :: "string set \<Rightarrow> (string \<times> string) list \<Rightarrow> string + (string \<times> int) list" where
  "parse_entries seen [] = Inr []"
| "parse_entries seen ((raw_user, raw_amount) # items) =
     (let user = trim_space raw_user in
      if user = [] \<or> 100 < length user then Inl ''each allocation needs a user_id of at most 100 characters''
      else if user \<in> seen then Inl (''duplicate allocation for user '' @ user)
      else (case positive_token_amount raw_amount of
              None \<Rightarrow> Inl (''allocation for '' @ user @ '' must be a positive integer'')
            | Some n \<Rightarrow> and_then (parse_entries (insert user seen) items) (\<lambda>es. Inr ((user, n) # es))))"

definition campaign_allocations :: "string \<Rightarrow> airdrop_db \<Rightarrow> ((string \<times> string) \<times> allocation) list" where
  "campaign_allocations i d = filter (\<lambda>((j, _), _). j = i) (ad_allocations d)"

definition any_claimed :: "string \<Rightarrow> airdrop_db \<Rightarrow> bool" where
  "any_claimed i d \<longleftrightarrow> (\<exists>(k, a) \<in> set (campaign_allocations i d). al_claimed a)"

definition set_allocations ::
  "(string \<Rightarrow> string option) \<Rightarrow> (airdrop_call \<Rightarrow> bool) \<Rightarrow> string \<Rightarrow> (string \<times> string) list option \<Rightarrow>
     airdrop_db \<Rightarrow> airdrop_db \<Rightarrow> airdrop_db \<times> int reply" where
  "set_allocations parse_uuid fault raw_id body d0 d =
     (case parse_uuid raw_id of
        None \<Rightarrow> (d, Error_reply 400 ''invalid campaign id'')
      | Some _ \<Rightarrow>
     (case body of
        None \<Rightarrow> (d, Bad_binding)
      | Some items \<Rightarrow>
          if items = [] then (d, Error_reply 400 ''at least one allocation is required'')
          else with_campaign parse_uuid fault raw_id (\<lambda>i c.
            if \<not> fault Count_claimed \<and> any_claimed i d0
            then (d, Error_reply 409 ''allocations cannot be replaced after a claim has been made'')
            else (case parse_entries {} items of
              Inl e \<Rightarrow> (d, Error_reply 400 e)
            | Inr es \<Rightarrow>
                if fault Delete_allocations \<or> (\<exists>n \<in> set [0..<length es]. fault (Create_allocation n))
                   \<or> fault Write_total_allocated \<or> fault Commit_airdrop
                then (d, Error_reply 500 ''failed to record allocations'')
                else
                  let tot = (\<Sum>(u, n)\<leftarrow>es. n) in
                  (modify_campaign i (\<lambda>row. row\<lparr>cp_total_allocated := int_string tot\<rparr>)
                     (d\<lparr>ad_allocations := filter (\<lambda>((j, _), _). j \<noteq> i) (ad_allocations d)
                          @ map (\<lambda>(u, n). ((i, u), \<lparr>al_amount = int_string n, al_claimed = False\<rparr>)) es\<rparr>),
                   Ok_reply 200 tot))) d0 d))"

section \<open>Funding\<close>

definition ledger_fault :: "(airdrop_call \<Rightarrow> bool) \<Rightarrow> ledger_call \<Rightarrow> bool" where
  "ledger_fault fault c = fault (Balance_call c)"

text \<open>The transaction of \<open>FundCampaign\<close>, on the campaign re-read under lock.\<close>

definition fund_tx ::
  "(airdrop_call \<Rightarrow> bool) \<Rightarrow> string \<Rightarrow> string \<Rightarrow> int \<Rightarrow> airdrop_db \<Rightarrow> ledger_error + airdrop_db" where
  "fund_tx fault i user amount d =
     (if fault Lock_campaign then Inl Ledger_db_error
      else case find_campaign i d of
        None \<Rightarrow> Inl Ledger_db_error
      | Some c \<Rightarrow>
          and_then (debit_within (ledger_fault fault) user (cp_chain c) (cp_token c) (Some amount) (ad_accounts d))
            (\<lambda>t. if fault Write_funded \<or> fault Commit_airdrop then Inl Ledger_db_error
                 else Inr (put_campaign i (c\<lparr>cp_funded := int_string (stored_amount (cp_funded c) + amount)\<rparr>)
                             (d\<lparr>ad_accounts := t\<rparr>))))"

definition fund_campaign ::
  "(string \<Rightarrow> string option) \<Rightarrow> bool \<Rightarrow> (airdrop_call \<Rightarrow> bool) \<Rightarrow> string \<Rightarrow> string \<Rightarrow> string option \<Rightarrow>
     airdrop_db \<Rightarrow> airdrop_db \<Rightarrow> airdrop_db \<times> int reply" where
  "fund_campaign parse_uuid ledger_on fault user raw_id body d0 d =
     (case parse_uuid raw_id of
        None \<Rightarrow> (d, Error_reply 400 ''invalid campaign id'')
      | Some _ \<Rightarrow>
     (case body of
        None \<Rightarrow> (d, Bad_binding)
      | Some raw \<Rightarrow>
          if raw = [] then (d, Bad_binding)
          else if user = [] then (d, Error_reply 401 ''Authenticated session required'')
          else if \<not> ledger_on then (d, Error_reply 503 ''ledger is not configured'')
          else (case positive_token_amount raw of
            None \<Rightarrow> (d, Error_reply 400 ''amount must be a positive integer'')
          | Some amount \<Rightarrow> with_campaign parse_uuid fault raw_id (\<lambda>i c.
              (case fund_tx fault i user amount d of
                 Inl Insufficient_balance \<Rightarrow> (d, Error_reply 409 ''insufficient balance to fund this campaign'')
               | Inl _ \<Rightarrow> (d, Error_reply 500 ''failed to record the funding'')
               | Inr d' \<Rightarrow> (d', Ok_reply 200 amount))) d0 d)))"

section \<open>Claiming\<close>

datatype claim_error =
  Already_claimed | No_allocation | Insufficient_escrow | Campaign_not_open | Record_not_found | Claim_db_error

definition campaign_open :: "time \<Rightarrow> campaign \<Rightarrow> bool" where
  "campaign_open now c \<longleftrightarrow> cp_status c = airdrop_active \<and> cp_start c \<le> now \<and> now < cp_end c"

definition claim_tx ::
  "(airdrop_call \<Rightarrow> bool) \<Rightarrow> time \<Rightarrow> string \<Rightarrow> string \<Rightarrow> airdrop_db \<Rightarrow> claim_error + (airdrop_db \<times> int)" where
  "claim_tx fault now i user d =
     (if fault Lock_campaign then Inl Claim_db_error
      else case find_campaign i d of
        None \<Rightarrow> Inl Record_not_found
      | Some c \<Rightarrow>
          if \<not> campaign_open now c then Inl Campaign_not_open
          else if fault Lock_allocation then Inl Claim_db_error
          else (case map_of (ad_allocations d) (i, user) of
            None \<Rightarrow> Inl Record_not_found
          | Some a \<Rightarrow>
              if al_claimed a then Inl Already_claimed
              else
                let amount = stored_amount (al_amount a); funded = stored_amount (cp_funded c);
                    claimed = stored_amount (cp_total_claimed c) in
                if amount \<le> 0 then Inl No_allocation
                else if funded - claimed < amount then Inl Insufficient_escrow
                else if fault Write_claimed_flag \<or> fault Write_total_claimed then Inl Claim_db_error
                else (case credit_within (ledger_fault fault) user (cp_chain c) (cp_token c)
                             (cp_symbol c) (cp_decimals c) (Some amount) (ad_accounts d) of
                        Inl _ \<Rightarrow> Inl Claim_db_error
                      | Inr t \<Rightarrow>
                          if fault Commit_airdrop then Inl Claim_db_error
                          else Inr (put_campaign i (c\<lparr>cp_total_claimed := int_string (claimed + amount)\<rparr>)
                                 (d\<lparr>ad_allocations := AList.update (i, user) (a\<lparr>al_claimed := True\<rparr>) (ad_allocations d),
                                    ad_accounts := t\<rparr>), amount))))"

fun claim_error_reply :: "claim_error \<Rightarrow> 'a reply" where
  "claim_error_reply Already_claimed = Error_reply 409 ''allocation has already been claimed''"
| "claim_error_reply No_allocation = Error_reply 404 ''no allocation found for this campaign''"
| "claim_error_reply Insufficient_escrow = Error_reply 409 ''campaign escrow is insufficient for this allocation''"
| "claim_error_reply Campaign_not_open = Error_reply 409 ''airdrop campaign is not open for claims''"
| "claim_error_reply Record_not_found = Error_reply 404 ''no allocation found for this campaign''"
| "claim_error_reply Claim_db_error = Error_reply 500 ''failed to settle the airdrop claim''"

definition claim_airdrop ::
  "(string \<Rightarrow> string option) \<Rightarrow> bool \<Rightarrow> (airdrop_call \<Rightarrow> bool) \<Rightarrow> time \<Rightarrow> string \<Rightarrow> string \<Rightarrow>
     airdrop_db \<Rightarrow> airdrop_db \<Rightarrow> airdrop_db \<times> int reply" where
  "claim_airdrop parse_uuid ledger_on fault now user raw_id d0 d =
     (case parse_uuid raw_id of
        None \<Rightarrow> (d, Error_reply 400 ''invalid campaign id'')
      | Some _ \<Rightarrow>
          if user = [] then (d, Error_reply 401 ''Authenticated session required'')
          else if \<not> ledger_on then (d, Error_reply 503 ''ledger is not configured'')
          else with_campaign parse_uuid fault raw_id (\<lambda>i c.
            if cp_status c \<noteq> airdrop_active then (d, Error_reply 409 ''airdrop campaign is not active'')
            else if now < cp_start c then (d, Error_reply 409 ''airdrop claim window has not opened'')
            else if cp_end c \<le> now then (d, Error_reply 409 ''airdrop claim window has closed'')
            else (case claim_tx fault now i user d of
                    Inl e \<Rightarrow> (d, claim_error_reply e)
                  | Inr (d', amount) \<Rightarrow> (d', Ok_reply 200 amount))) d0 d)"

section \<open>Deleting and listing\<close>

definition delete_campaign ::
  "(string \<Rightarrow> string option) \<Rightarrow> (airdrop_call \<Rightarrow> bool) \<Rightarrow> string \<Rightarrow>
     airdrop_db \<Rightarrow> airdrop_db \<Rightarrow> airdrop_db \<times> string reply" where
  "delete_campaign parse_uuid fault raw_id d0 d =
     with_campaign parse_uuid fault raw_id (\<lambda>i c.
       if 0 < stored_amount (cp_total_claimed c) then
         (if fault Close_campaign then (d, Error_reply 500 ''failed to close campaign'')
          else (modify_campaign i (\<lambda>row. row\<lparr>cp_status := airdrop_closed\<rparr>) d, Ok_reply 200 airdrop_closed))
       else if fault Delete_allocations \<or> fault Delete_campaign \<or> fault Commit_airdrop
         then (d, Error_reply 500 ''failed to delete campaign'')
       else (modify_campaign i (\<lambda>row. row\<lparr>cp_deleted := True\<rparr>)
               (d\<lparr>ad_allocations := filter (\<lambda>((j, _), _). j \<noteq> i) (ad_allocations d)\<rparr>),
             Ok_reply 200 ''deleted'')) d0 d"

definition get_campaigns :: "(airdrop_call \<Rightarrow> bool) \<Rightarrow> airdrop_db \<Rightarrow> (string \<times> campaign) list reply" where
  "get_campaigns fault d =
     (if fault List_rows then Error_reply 500 ''failed to list airdrop campaigns''
      else Ok_reply 200 (filter (\<lambda>(_, c). \<not> cp_deleted c) (ad_campaigns d)))"

definition get_active_campaigns ::
  "(airdrop_call \<Rightarrow> bool) \<Rightarrow> time \<Rightarrow> airdrop_db \<Rightarrow> (string \<times> campaign) list reply" where
  "get_active_campaigns fault now d =
     (if fault List_rows then Error_reply 500 ''failed to list airdrop campaigns''
      else Ok_reply 200 (filter (\<lambda>(_, c). \<not> cp_deleted c \<and> campaign_open now c) (ad_campaigns d)))"

text \<open>A campaign that cannot be loaded is left out of the caller's list.\<close>

definition get_my_allocations ::
  "(airdrop_call \<Rightarrow> bool) \<Rightarrow> string \<Rightarrow> airdrop_db \<Rightarrow> (campaign \<times> allocation) list reply" where
  "get_my_allocations fault user d =
     (if user = [] then Error_reply 401 ''Authenticated session required''
      else if fault List_rows then Error_reply 500 ''failed to load allocations''
      else Ok_reply 200
        (List.map_filter (\<lambda>((i, u), a).
            if u \<noteq> user \<or> fault (Load_campaign_of i) then None
            else map_option (\<lambda>c. (c, a)) (find_campaign i d))
          (ad_allocations d)))"

definition get_campaign_allocations ::
  "(string \<Rightarrow> string option) \<Rightarrow> (airdrop_call \<Rightarrow> bool) \<Rightarrow> string \<Rightarrow> airdrop_db \<Rightarrow>
     (campaign \<times> ((string \<times> string) \<times> allocation) list) reply" where
  "get_campaign_allocations parse_uuid fault raw_id d =
     snd (with_campaign parse_uuid fault raw_id
       (\<lambda>i c. (d, if fault List_rows then Error_reply 500 ''failed to load allocations''
                  else Ok_reply 200 (c, campaign_allocations i d))) d d)"

end
