(* ===== verification/Custody.thy ===== *)
theory Custody
  imports Ledger
begin

text \<open>
  Services that hold tokens in custody. A service debits users' ledger accounts into a pool of its
  own and credits them from it. The law of such a service, the locale \<open>custody\<close>: a step moves tokens
  between one user's accounts and the pools of the same assets, and touches no other balance. What follows once and for all is that tokens are conserved over every run.
\<close>

definition holdings_of :: "string set \<Rightarrow> int64 \<times> string \<Rightarrow> accounts \<Rightarrow> int" where
  "holdings_of U asset t = (\<Sum>u\<in>U. balance t (u, fst asset, snd asset))"

text \<open>The amount \<open>a\<close> of \<open>asset\<close> goes from the pool to the user, or, when negative, the other way.\<close>

definition moved ::
  "string \<Rightarrow> int64 \<times> string \<Rightarrow> int \<Rightarrow> accounts \<Rightarrow> accounts \<Rightarrow> (int64 \<times> string \<Rightarrow> int) \<Rightarrow> (int64 \<times> string \<Rightarrow> int) \<Rightarrow> bool" where
  "moved user asset a t t' held held' \<longleftrightarrow>
     balance t' = (balance t)((user, fst asset, snd asset) := balance t (user, fst asset, snd asset) + a)
     \<and> (\<forall>x. held' x = held x - (if x = asset then a else 0))"

lemma moved_refl [simp, intro]: "moved user asset 0 t t held held"
  by (simp add: moved_def)

lemma moved_same: "held' = held \<Longrightarrow> moved user asset 0 t t held held'"
  by simp

text \<open>What several moves between one user and the pools add up to.\<close>

definition trade ::
  "string \<Rightarrow> accounts \<Rightarrow> accounts \<Rightarrow> (int64 \<times> string \<Rightarrow> int) \<Rightarrow> (int64 \<times> string \<Rightarrow> int) \<Rightarrow> bool" where
  "trade user t t' held held' \<longleftrightarrow>
     (\<forall>v x. v \<noteq> user \<longrightarrow> balance t' (v, x) = balance t (v, x))
     \<and> (\<forall>x. balance t' (user, x) + held' x = balance t (user, x) + held x)"

lemma trade_refl [simp, intro]: "trade user t t held held"
  by (simp add: trade_def)

lemma trade_trans: "trade user t t1 held held1 \<Longrightarrow> trade user t1 t2 held1 held2 \<Longrightarrow> trade user t t2 held held2"
  unfolding trade_def by metis

lemma moved_trade: "moved user asset a t t' held held' \<Longrightarrow> trade user t t' held held'"
  by (cases asset) (auto simp: moved_def trade_def)

lemma trade_conserves:
  assumes "trade user t t' held held'" "finite U" "user \<in> U"
  shows "holdings_of U x t' + held' x = holdings_of U x t + held x"
proof -
  have "(\<Sum>u \<in> U - {user}. balance t' (u, fst x, snd x)) = (\<Sum>u \<in> U - {user}. balance t (u, fst x, snd x))"
    using assms(1) by (cases x) (auto simp: trade_def intro!: sum.cong)
  moreover have "balance t' (user, fst x, snd x) + held' x = balance t (user, fst x, snd x) + held x"
    using assms(1) by (cases x) (auto simp: trade_def)
  ultimately show ?thesis using assms(2,3) by (simp add: holdings_of_def sum.remove [of U user])
qed

text \<open>What a move of \<open>a\<close> tokens to a user does to a pool of that asset alone.\<close>

definition drift :: "int64 \<times> string \<Rightarrow> int \<Rightarrow> int64 \<times> string \<Rightarrow> int" where
  "drift asset a = (\<lambda>x. if x = asset then - a else 0)"

definition paid :: "string \<Rightarrow> int64 \<times> string \<Rightarrow> int \<Rightarrow> accounts \<Rightarrow> accounts \<Rightarrow> bool" where
  "paid user asset a t t' \<longleftrightarrow>
     balance t' = (balance t)((user, fst asset, snd asset) := balance t (user, fst asset, snd asset) + a)"

lemma moved_paid:
  "paid user asset a t t' \<Longrightarrow> (\<And>x. held' x = held x + drift asset a x) \<Longrightarrow> moved user asset a t t' held held'"
  by (auto simp: paid_def moved_def drift_def)

lemma debit_paid:
  assumes "debit_within fault user chain token (Some a) t = Inr t'"
  shows "0 < a" "paid user (chain, normalize_token token) (- a) t t'"
proof -
  have "debit_op (fault, [], 0) (user, chain, token) a t = Inr t'" using assms by (simp add: debit_within_op)
  from ledger.db_law [OF this] show "0 < a" "paid user (chain, normalize_token token) (- a) t t'"
    by (simp_all add: paid_def account_of_def)
qed

lemma credit_paid:
  assumes "credit_within fault user chain token symbol decimals (Some a) t = Inr t'"
  shows "0 < a" "paid user (chain, normalize_token token) a t t'"
proof -
  have "credit_op (fault, symbol, decimals) (user, chain, token) a t = Inr t'" using assms by (simp add: credit_within_op)
  from ledger.cr_law [OF this] show "0 < a" "paid user (chain, normalize_token token) a t t'"
    by (simp_all add: paid_def account_of_def)
qed

locale custody =
  fixes accts :: "'d \<Rightarrow> accounts"
    and held :: "'d \<Rightarrow> int64 \<times> string \<Rightarrow> int"
    and ok :: "'d \<Rightarrow> bool"
    and step :: "'d \<Rightarrow> 'd \<Rightarrow> bool"
  assumes step_law: "step d d' \<Longrightarrow> ok d \<Longrightarrow>
    ok d' \<and> (\<exists>user. trade user (accts d) (accts d') (held d) (held d'))"
begin

lemma run_ok: "step\<^sup>*\<^sup>* d d' \<Longrightarrow> ok d \<Longrightarrow> ok d'"
  by (induction rule: rtranclp_induct) (use step_law in blast)+

lemma step_conserves:
  assumes "step d d'" "ok d"
  shows "\<exists>user. \<forall>U x. finite U \<longrightarrow> user \<in> U \<longrightarrow>
    holdings_of U x (accts d') + held d' x = holdings_of U x (accts d) + held d x"
  using step_law [OF assms] trade_conserves by blast

text \<open>Over a run: finitely many users take part, and what they hold plus the pool never changes.\<close>

lemma run_conserves:
  assumes "step\<^sup>*\<^sup>* d d'" "ok d"
  shows "\<exists>V. finite V \<and> (\<forall>U x. finite U \<longrightarrow> V \<subseteq> U \<longrightarrow>
    holdings_of U x (accts d') + held d' x = holdings_of U x (accts d) + held d x)"
  using assms(1)
proof (induction rule: rtranclp_induct)
  case base
  show ?case by (intro exI [of _ "{}"]) simp
next
  case (step y z)
  then obtain V where V: "finite V" "\<And>U x. finite U \<Longrightarrow> V \<subseteq> U \<Longrightarrow>
      holdings_of U x (accts y) + held y x = holdings_of U x (accts d) + held d x" by blast
  have "ok y" using run_ok [OF step.hyps(1) assms(2)] .
  then obtain u where u: "\<And>U x. finite U \<Longrightarrow> u \<in> U \<Longrightarrow>
      holdings_of U x (accts z) + held z x = holdings_of U x (accts y) + held y x"
    using step_conserves [OF step.hyps(2)] by blast
  show ?case using V u by (intro exI [of _ "insert u V"]) simp
qed

end

end
