(* ===== verification/Airdrop_Props.thy ===== *)
theory Airdrop_Props
  imports Airdrop Custody
begin

text \<open>
  What the airdrop handlers guarantee, as a transition system over interleaved requests: no
  campaign pays out more than was funded, every token debited from the ledger is in an escrow or
  has been credited back, and a claim is paid once. Two runs show where the code falls short:
  replacing allocations races with a claim, and deleting a funded campaign strands its escrow.
\<close>

section \<open>Steps\<close>

text \<open>\<open>d0\<close> is any earlier state that the handler's first reads saw.\<close>

inductive airdrop_step :: "airdrop_db \<Rightarrow> airdrop_db \<Rightarrow> bool" where
  create: "create_campaign hex pt fault i user body d0 d = (d', r) \<Longrightarrow> airdrop_step d d'"
| update: "update_campaign pu pt fault raw body' d0 d = (d', r) \<Longrightarrow> airdrop_step d d'"
| allocate: "set_allocations pu fault raw items d0 d = (d', n) \<Longrightarrow> airdrop_step d d'"
| fund: "fund_campaign pu on fault user raw amount d0 d = (d', n) \<Longrightarrow> airdrop_step d d'"
| claim: "claim_airdrop pu on fault now user raw d0 d = (d', n) \<Longrightarrow> airdrop_step d d'"
| delete: "delete_campaign pu fault raw d0 d = (d', r) \<Longrightarrow> airdrop_step d d'"

inductive_cases airdrop_stepE: "airdrop_step d d'"

section \<open>Escrow\<close>

definition campaign_funded :: "campaign \<Rightarrow> int" where
  "campaign_funded c = stored_amount (cp_funded c)"

definition campaign_claimed :: "campaign \<Rightarrow> int" where
  "campaign_claimed c = stored_amount (cp_total_claimed c)"

definition campaign_asset :: "campaign \<Rightarrow> int64 \<times> string" where
  "campaign_asset c = (cp_chain c, normalize_token (cp_token c))"

definition escrow_part :: "int64 \<times> string \<Rightarrow> campaign \<Rightarrow> int" where
  "escrow_part asset c = (if campaign_asset c = asset then campaign_funded c - campaign_claimed c else 0)"

definition escrow_of :: "int64 \<times> string \<Rightarrow> airdrop_db \<Rightarrow> int" where
  "escrow_of asset d = (\<Sum>x\<leftarrow>ad_campaigns d. escrow_part asset (snd x))"

definition airdrop_ok :: "airdrop_db \<Rightarrow> bool" where
  "airdrop_ok d \<longleftrightarrow> distinct (map fst (ad_campaigns d))
     \<and> (\<forall>(i, c) \<in> set (ad_campaigns d). 0 \<le> campaign_claimed c \<and> campaign_claimed c \<le> campaign_funded c)"

text \<open>A step moves nothing, moves \<open>a\<close> tokens from a user into escrow, or the other way.\<close>

definition moves :: "string \<Rightarrow> int64 \<times> string \<Rightarrow> int \<Rightarrow> airdrop_db \<Rightarrow> airdrop_db \<Rightarrow> bool" where
  "moves user asset a d d' \<longleftrightarrow>
     balance (ad_accounts d') = (balance (ad_accounts d))((user, fst asset, snd asset) :=
       balance (ad_accounts d) (user, fst asset, snd asset) + a)
     \<and> (\<forall>x. escrow_of x d' = escrow_of x d - (if x = asset then a else 0))
     \<and> airdrop_ok d'"

lemma moves_refl: "airdrop_ok d \<Longrightarrow> moves user asset 0 d d"
  by (simp add: moves_def)

lemma moves_moved:
  "moves user asset a d d' \<Longrightarrow>
    moved user asset a (ad_accounts d) (ad_accounts d') (\<lambda>x. escrow_of x d) (\<lambda>x. escrow_of x d') \<and> airdrop_ok d'"
  by (simp add: moves_def moved_def)

lemma find_campaign_Some: "find_campaign i d = Some c \<Longrightarrow> map_of (ad_campaigns d) i = Some c \<and> \<not> cp_deleted c"
  by (auto simp: find_campaign_def split: option.splits if_splits)

text \<open>Replacing one known campaign.\<close>

lemma put_campaign_effect:
  assumes ok: "airdrop_ok d" and c: "map_of (ad_campaigns d) i = Some c"
    and c': "0 \<le> campaign_claimed c'" "campaign_claimed c' \<le> campaign_funded c'"
    and d': "ad_campaigns d' = AList.update i c' (ad_campaigns d)"
  shows "airdrop_ok d'" "escrow_of x d' = escrow_of x d - escrow_part x c + escrow_part x c'"
proof -
  have dist: "distinct (map fst (ad_campaigns d))" using ok by (simp add: airdrop_ok_def)
  show "airdrop_ok d'"
    using ok c' d' dist unfolding airdrop_ok_def
    by (auto simp: set_alist_update [OF dist] distinct_update)
  show "escrow_of x d' = escrow_of x d - escrow_part x c + escrow_part x c'"
    unfolding escrow_of_def d' by (rule sum_update_known [OF dist c])
qed

lemma airdrop_ok_campaign:
  "airdrop_ok d \<Longrightarrow> map_of (ad_campaigns d) i = Some c \<Longrightarrow> 0 \<le> campaign_claimed c \<and> campaign_claimed c \<le> campaign_funded c"
  by (auto simp: airdrop_ok_def dest!: map_of_SomeD)

text \<open>An edit that leaves the accounting columns alone moves nothing.\<close>

lemma modify_moves:
  assumes ok: "airdrop_ok d"
    and f: "\<And>c. cp_funded (f c) = cp_funded c \<and> cp_total_claimed (f c) = cp_total_claimed c
      \<and> cp_chain (f c) = cp_chain c \<and> cp_token (f c) = cp_token c"
    and e: "ad_campaigns e = ad_campaigns d" "ad_accounts e = ad_accounts d"
  shows "moves user asset 0 d (modify_campaign i f e)"
proof (cases "find_campaign i e")
  case None
  then show ?thesis using ok e by (simp add: modify_campaign_def moves_def airdrop_ok_def escrow_of_def)
next
  case (Some c)
  note fc = find_campaign_Some [OF Some]
  have m: "map_of (ad_campaigns d) i = Some c" using fc e by simp
  have same: "campaign_claimed (f c) = campaign_claimed c" "campaign_funded (f c) = campaign_funded c"
    "escrow_part x (f c) = escrow_part x c" for x
    using f [of c] by (simp_all add: campaign_claimed_def campaign_funded_def escrow_part_def campaign_asset_def)
  note r = put_campaign_effect [OF ok m, of "f c" "modify_campaign i f e"]
  show ?thesis
    using r airdrop_ok_campaign [OF ok m] same e Some
    by (simp add: moves_def modify_campaign_def put_campaign_def)
qed

section \<open>The money-moving transactions\<close>

lemma fund_tx_moves:
  assumes ok: "airdrop_ok d" and r: "fund_tx fault i user a d = Inr d'"
  shows "\<exists>c. find_campaign i d = Some c \<and> 0 < a \<and> moves user (campaign_asset c) (- a) d d'"
proof -
  obtain c t where c: "find_campaign i d = Some c"
    and t: "debit_op (ledger_fault fault, [], 0) (user, cp_chain c, cp_token c) a (ad_accounts d) = Inr t"
    and d': "d' = put_campaign i (c\<lparr>cp_funded := int_string (stored_amount (cp_funded c) + a)\<rparr>) (d\<lparr>ad_accounts := t\<rparr>)"
    using r by (auto simp: fund_tx_def debit_within_op split: if_splits option.splits)
  note m = conjunct1 [OF find_campaign_Some [OF c]]
  note law = ledger.db_law [OF t]
  let ?c = "c\<lparr>cp_funded := int_string (stored_amount (cp_funded c) + a)\<rparr>"
  have parts: "campaign_claimed ?c = campaign_claimed c" "campaign_funded ?c = campaign_funded c + a"
    "campaign_asset ?c = campaign_asset c"
    by (simp_all add: campaign_claimed_def campaign_funded_def campaign_asset_def)
  have e: "escrow_part x ?c = escrow_part x c + (if x = campaign_asset c then a else 0)" for x
    using parts by (auto simp: escrow_part_def)
  have eff: "airdrop_ok d'" "escrow_of x d' = escrow_of x d - escrow_part x c + escrow_part x ?c" for x
    using put_campaign_effect [OF ok m, of ?c d'] airdrop_ok_campaign [OF ok m] law parts d'
    by (simp_all add: put_campaign_def)
  have bal: "balance (ad_accounts d') = (balance (ad_accounts d))
      ((user, fst (campaign_asset c), snd (campaign_asset c)) :=
        balance (ad_accounts d) (user, fst (campaign_asset c), snd (campaign_asset c)) + - a)"
    using law d' by (simp add: put_campaign_def account_of_def campaign_asset_def)
  have "moves user (campaign_asset c) (- a) d d'"
    unfolding moves_def using eff e bal by auto
  with c law show ?thesis by blast
qed

lemma claim_tx_moves:
  assumes ok: "airdrop_ok d" and r: "claim_tx fault now i user d = Inr (d', a)"
  shows "\<exists>c al. find_campaign i d = Some c \<and> campaign_open now c \<and> moves user (campaign_asset c) a d d'
    \<and> map_of (ad_allocations d) (i, user) = Some al \<and> \<not> al_claimed al \<and> a = stored_amount (al_amount al) \<and> 0 < a
    \<and> map_of (ad_allocations d') (i, user) = Some (al\<lparr>al_claimed := True\<rparr>)"
proof -
  obtain c al t where c: "find_campaign i d = Some c" "campaign_open now c"
    and al: "map_of (ad_allocations d) (i, user) = Some al" "\<not> al_claimed al" "a = stored_amount (al_amount al)" "0 < a"
    and room: "a \<le> stored_amount (cp_funded c) - stored_amount (cp_total_claimed c)"
    and t: "credit_op (ledger_fault fault, cp_symbol c, cp_decimals c) (user, cp_chain c, cp_token c) a (ad_accounts d) = Inr t"
    and d': "d' = put_campaign i (c\<lparr>cp_total_claimed := int_string (stored_amount (cp_total_claimed c) + a)\<rparr>)
      (d\<lparr>ad_allocations := AList.update (i, user) (al\<lparr>al_claimed := True\<rparr>) (ad_allocations d), ad_accounts := t\<rparr>)"
    using r by (auto simp: claim_tx_def credit_within_op Let_def split: if_splits option.splits sum.splits)
  note m = conjunct1 [OF find_campaign_Some [OF c(1)]]
  note law = ledger.cr_law [OF t]
  let ?c = "c\<lparr>cp_total_claimed := int_string (stored_amount (cp_total_claimed c) + a)\<rparr>"
  have parts: "campaign_claimed ?c = campaign_claimed c + a" "campaign_funded ?c = campaign_funded c"
    "campaign_asset ?c = campaign_asset c"
    by (simp_all add: campaign_claimed_def campaign_funded_def campaign_asset_def)
  have e: "escrow_part x ?c = escrow_part x c - (if x = campaign_asset c then a else 0)" for x
    using parts by (auto simp: escrow_part_def)
  have "campaign_claimed c + a \<le> campaign_funded c"
    using room by (simp add: campaign_claimed_def campaign_funded_def)
  then have eff: "airdrop_ok d'" "escrow_of x d' = escrow_of x d - escrow_part x c + escrow_part x ?c" for x
    using put_campaign_effect [OF ok m, of ?c d'] airdrop_ok_campaign [OF ok m] al(4) parts d'
    by (simp_all add: put_campaign_def)
  have bal: "balance (ad_accounts d') = (balance (ad_accounts d))
      ((user, fst (campaign_asset c), snd (campaign_asset c)) :=
        balance (ad_accounts d) (user, fst (campaign_asset c), snd (campaign_asset c)) + a)"
    using law d' by (simp add: put_campaign_def account_of_def campaign_asset_def)
  have "moves user (campaign_asset c) a d d'"
    unfolding moves_def using eff e bal by auto
  moreover have "map_of (ad_allocations d') (i, user) = Some (al\<lparr>al_claimed := True\<rparr>)"
    by (simp add: d' put_campaign_def update_conv)
  ultimately show ?thesis using c al by blast
qed

section \<open>Every handler\<close>

lemma with_campaign_cases:
  assumes "with_campaign pu fault raw k d0 d = (d', r)"
  shows "d' = d \<or> (\<exists>i c. k i c = (d', r) \<and> find_campaign i d0 = Some c)"
  using assms by (auto simp: with_campaign_def load_campaign_def split: option.splits sum.splits if_splits)

lemma create_moves:
  assumes ok: "airdrop_ok d" and h: "create_campaign hex pt fault i user body d0 d = (d', r)"
  shows "moves user asset 0 d d'"
proof -
  have "d' = d \<or> (\<exists>c. i \<notin> fst ` set (ad_campaigns d) \<and> d' = put_campaign i c d
      \<and> cp_funded c = ''0'' \<and> cp_total_claimed c = ''0'')"
    using h unfolding create_campaign_def Let_def by (auto split: option.splits if_splits)
  then show ?thesis
  proof
    assume "d' = d"
    with ok show ?thesis by (simp add: moves_refl)
  next
    assume "\<exists>c. i \<notin> fst ` set (ad_campaigns d) \<and> d' = put_campaign i c d \<and> cp_funded c = ''0'' \<and> cp_total_claimed c = ''0''"
    then obtain c where c: "i \<notin> fst ` set (ad_campaigns d)" "d' = put_campaign i c d"
      "cp_funded c = ''0''" "cp_total_claimed c = ''0''" by blast
    have "stored_amount ''0'' = 0" by code_simp
    then have z: "campaign_funded c = 0" "campaign_claimed c = 0" "escrow_part x c = 0" for x
      using c by (simp_all add: campaign_funded_def campaign_claimed_def escrow_part_def)
    have dist: "distinct (map fst (ad_campaigns d))" using ok by (simp add: airdrop_ok_def)
    have "airdrop_ok d'"
      using ok z c(2) unfolding airdrop_ok_def put_campaign_def
      by (auto simp: set_alist_update [OF dist] distinct_update)
    moreover have "escrow_of x d' = escrow_of x d" for x
      using sum_update_new [OF c(1), of "escrow_part x" c] z c(2) by (simp add: escrow_of_def put_campaign_def)
    ultimately show ?thesis using c(2) by (simp add: moves_def put_campaign_def)
  qed
qed

lemma update_moves:
  assumes ok: "airdrop_ok d" and h: "update_campaign pu pt fault raw body d0 d = (d', r)"
  shows "moves user asset 0 d d'"
proof (cases "d' = d")
  case False
  then obtain i f where "d' = modify_campaign i f d"
    "\<And>c. cp_funded (f c) = cp_funded c \<and> cp_total_claimed (f c) = cp_total_claimed c
      \<and> cp_chain (f c) = cp_chain c \<and> cp_token (f c) = cp_token c"
    using h unfolding update_campaign_def Let_def
    by (auto dest!: with_campaign_cases split: option.split_asm if_split_asm)
  then show ?thesis using modify_moves [OF ok] by simp
qed (use ok in \<open>simp add: moves_refl\<close>)

lemma allocate_moves:
  assumes ok: "airdrop_ok d" and h: "set_allocations pu fault raw items d0 d = (d', r)"
  shows "moves user asset 0 d d'"
proof (cases "d' = d")
  case False
  then obtain i f e where "d' = modify_campaign i f e" "ad_campaigns e = ad_campaigns d" "ad_accounts e = ad_accounts d"
    "\<And>c. cp_funded (f c) = cp_funded c \<and> cp_total_claimed (f c) = cp_total_claimed c
      \<and> cp_chain (f c) = cp_chain c \<and> cp_token (f c) = cp_token c"
    using h unfolding set_allocations_def Let_def
    by (auto dest!: with_campaign_cases split: option.splits if_splits sum.splits)
  then show ?thesis using modify_moves [OF ok] by simp
qed (use ok in \<open>simp add: moves_refl\<close>)

lemma delete_moves:
  assumes ok: "airdrop_ok d" and h: "delete_campaign pu fault raw d0 d = (d', r)"
  shows "moves user asset 0 d d'"
proof (cases "d' = d")
  case False
  then obtain i f e where "d' = modify_campaign i f e" "ad_campaigns e = ad_campaigns d" "ad_accounts e = ad_accounts d"
    "\<And>c. cp_funded (f c) = cp_funded c \<and> cp_total_claimed (f c) = cp_total_claimed c
      \<and> cp_chain (f c) = cp_chain c \<and> cp_token (f c) = cp_token c"
    using h unfolding delete_campaign_def
    by (auto dest!: with_campaign_cases split: if_splits)
  then show ?thesis using modify_moves [OF ok] by simp
qed (use ok in \<open>simp add: moves_refl\<close>)

lemma fund_moves:
  assumes ok: "airdrop_ok d" and h: "fund_campaign pu on fault user raw amount d0 d = (d', r)"
  shows "\<exists>asset a. a \<le> 0 \<and> moves user asset a d d'"
proof (cases "d' = d")
  case False
  then obtain i a where "fund_tx fault i user a d = Inr d'"
    using h unfolding fund_campaign_def
    by (auto dest!: with_campaign_cases split: option.splits if_splits sum.splits ledger_error.splits)
  from fund_tx_moves [OF ok this] show ?thesis by (metis neg_le_0_iff_le order_less_imp_le)
qed (use ok moves_refl in blast)

lemma claim_moves:
  assumes ok: "airdrop_ok d" and h: "claim_airdrop pu on fault now user raw d0 d = (d', r)"
  shows "\<exists>asset a. moves user asset a d d'"
proof (cases "d' = d")
  case False
  then obtain i a where "claim_tx fault now i user d = Inr (d', a)"
    using h unfolding claim_airdrop_def
    by (auto dest!: with_campaign_cases split: option.splits if_splits sum.splits)
  from claim_tx_moves [OF ok this] show ?thesis by blast
qed (use ok moves_refl in blast)

lemma step_moves:
  assumes st: "airdrop_step d d'" and ok: "airdrop_ok d"
  shows "\<exists>user asset a. moves user asset a d d'"
  using st
proof (cases rule: airdrop_step.cases)
  case create
  from create_moves [OF ok this] show ?thesis by blast
next
  case update
  from update_moves [OF ok this] show ?thesis by blast
next
  case allocate
  from allocate_moves [OF ok this] show ?thesis by blast
next
  case fund
  from fund_moves [OF ok this] show ?thesis by blast
next
  case claim
  from claim_moves [OF ok this] show ?thesis by blast
next
  case delete
  from delete_moves [OF ok this] show ?thesis by blast
qed

interpretation airdrops: custody ad_accounts "\<lambda>d x. escrow_of x d" airdrop_ok airdrop_step
proof
  fix d d'
  assume "airdrop_step d d'" "airdrop_ok d"
  from step_moves [OF this] show "airdrop_ok d' \<and> (\<exists>user. trade user (ad_accounts d) (ad_accounts d') (\<lambda>x. escrow_of x d) (\<lambda>x. escrow_of x d'))"
    using moves_moved moved_trade by blast
qed

section \<open>Claims\<close>

text \<open>C15: no campaign ever pays out more than was funded. Whatever requests are served, in whatever
  interleaving and with whatever database failures, the amount claimed of every campaign stays
  between zero and the amount funded.\<close>

theorem airdrop_never_overpays:
  assumes "airdrop_step\<^sup>*\<^sup>* d d'" and "airdrop_ok d" and "(i, c) \<in> set (ad_campaigns d')"
  shows "0 \<le> campaign_claimed c \<and> campaign_claimed c \<le> campaign_funded c"
proof -
  have "airdrop_ok d'" by (rule airdrops.run_ok [OF assms(1,2)])
  with assms(3) show ?thesis by (auto simp: airdrop_ok_def)
qed

text \<open>C16: Tokens are conserved over every run of interleaved requests. Finitely many users take part, and
  for every asset what they hold plus the escrow of the campaigns of that asset never changes: a
  token is either on the ledger or in an escrow.\<close>

theorem airdrop_conserves_tokens:
  assumes "airdrop_step\<^sup>*\<^sup>* d d'" and "airdrop_ok d"
  shows "\<exists>V. finite V \<and> (\<forall>U asset. finite U \<longrightarrow> V \<subseteq> U \<longrightarrow>
    holdings_of U asset (ad_accounts d') + escrow_of asset d' = holdings_of U asset (ad_accounts d) + escrow_of asset d)"
  by (rule airdrops.run_conserves [OF assms])

text \<open>A claim pays exactly the allocation, to the caller, and it pays once: any later claim for the
  same campaign and user, at any time, is refused and changes nothing until the allocations are
  replaced.\<close>

theorem claim_pays_once:
  assumes "airdrop_ok d" and "claim_tx fault now i user d = Inr (d', a)"
  shows "(\<exists>c al. find_campaign i d = Some c \<and> map_of (ad_allocations d) (i, user) = Some al
      \<and> a = stored_amount (al_amount al) \<and> 0 < a
      \<and> balance (ad_accounts d') = (balance (ad_accounts d))((user, fst (campaign_asset c), snd (campaign_asset c)) :=
          balance (ad_accounts d) (user, fst (campaign_asset c), snd (campaign_asset c)) + a))
    \<and> (\<forall>fault' now'. \<exists>e. claim_tx fault' now' i user d' = Inl e)"
proof -
  obtain c al where r: "find_campaign i d = Some c" "moves user (campaign_asset c) a d d'"
    "map_of (ad_allocations d) (i, user) = Some al" "a = stored_amount (al_amount al)" "0 < a"
    "map_of (ad_allocations d') (i, user) = Some (al\<lparr>al_claimed := True\<rparr>)"
    using claim_tx_moves [OF assms] by blast
  have "\<exists>e. claim_tx fault' now' i user d' = Inl e" for fault' now'
    using r(6) by (auto simp: claim_tx_def split: option.splits)
  with r show ?thesis unfolding moves_def by blast
qed

section \<open>Deleted campaigns\<close>

lemma put_other: "map_of (ad_campaigns (put_campaign j c d)) i = (if i = j then Some c else map_of (ad_campaigns d) i)"
  by (simp add: put_campaign_def update_conv)

lemma modify_keeps_deleted:
  assumes "map_of (ad_campaigns d) i = Some c" "cp_deleted c"
  shows "map_of (ad_campaigns (modify_campaign j f d)) i = Some c"
  using assms by (auto simp: modify_campaign_def find_campaign_def put_other split: option.splits)

lemma deleted_stays:
  assumes st: "airdrop_step d d'" and c: "map_of (ad_campaigns d) i = Some c" and del: "cp_deleted c"
  shows "map_of (ad_campaigns d') i = Some c"
  using st
proof (cases rule: airdrop_step.cases)
  case (create hex pt fault j user body d0 r)
  have "i \<in> fst ` set (ad_campaigns d)" using map_of_known [OF c] .
  with create c show ?thesis
    unfolding create_campaign_def Let_def by (auto simp: put_other split: option.splits if_splits)
next
  case update
  then show ?thesis using modify_keeps_deleted [OF c del] c unfolding update_campaign_def Let_def
    by (auto dest!: with_campaign_cases split: option.split_asm if_split_asm)
next
  case allocate
  then show ?thesis using modify_keeps_deleted [where d = "d\<lparr>ad_allocations := _\<rparr>", OF _ del] c
    unfolding set_allocations_def Let_def
    by (auto dest!: with_campaign_cases split: option.splits if_splits sum.splits)
next
  case (fund pu on fault user raw amount d0 n)
  then show ?thesis using c del unfolding fund_campaign_def
    by (auto dest!: with_campaign_cases simp: fund_tx_def find_campaign_def put_other
        split: option.splits if_splits sum.splits ledger_error.splits)
next
  case (claim pu on fault now user raw d0 n)
  show ?thesis
  proof (cases "d' = d")
    case False
    then obtain j a where "claim_tx fault now j user d = Inr (d', a)"
      using claim unfolding claim_airdrop_def
      by (auto dest!: with_campaign_cases split: option.splits if_splits sum.splits)
    then show ?thesis using c del
      by (auto simp: claim_tx_def find_campaign_def put_other Let_def split: option.splits if_splits sum.splits)
  qed (use c in simp)
next
  case delete
  then show ?thesis
    using modify_keeps_deleted [where d = "d\<lparr>ad_allocations := _\<rparr>", OF _ del] modify_keeps_deleted [OF c del] c
    unfolding delete_campaign_def by (auto dest!: with_campaign_cases split: if_splits)
qed

lemma load_error_not_ok [simp]: "load_error_reply e \<noteq> Ok_reply n x"
  by (cases e) simp_all

text \<open>Deleting a campaign that was funded but not yet claimed strands its escrow. The row keeps
  its funded amount, and in every later state, whatever requests are served, it can be neither
  funded, claimed nor found: no handler moves these tokens again.\<close>

theorem deleted_escrow_is_stranded:
  assumes "delete_campaign Some fault i d0 d = (d1, Ok_reply 200 ''deleted'')"
    and "map_of (ad_campaigns d) i = Some c" and "\<not> cp_deleted c"
    and "airdrop_step\<^sup>*\<^sup>* d1 d2"
  shows "\<exists>c'. map_of (ad_campaigns d2) i = Some c'
    \<and> campaign_funded c' - campaign_claimed c' = campaign_funded c - campaign_claimed c
    \<and> (\<forall>f now user a. (\<exists>e. claim_tx f now i user d2 = Inl e) \<and> (\<exists>e. fund_tx f i user a d2 = Inl e))"
proof -
  let ?c = "c\<lparr>cp_deleted := True\<rparr>"
  have "map_of (ad_campaigns d1) i = Some ?c"
    using assms(1,2,3) unfolding delete_campaign_def
    by (auto dest!: with_campaign_cases simp: modify_campaign_def find_campaign_def put_other airdrop_closed_def
        with_campaign_def split: if_splits sum.splits option.splits)
  with assms(4) have m: "map_of (ad_campaigns d2) i = Some ?c"
    by (induction rule: rtranclp_induct) (auto intro: deleted_stays)
  then have "find_campaign i d2 = None" by (simp add: find_campaign_def)
  then have "(\<exists>e. claim_tx f now i user d2 = Inl e) \<and> (\<exists>e. fund_tx f i user a d2 = Inl e)" for f now user a
    by (simp add: claim_tx_def fund_tx_def)
  with m show ?thesis by (simp add: campaign_funded_def campaign_claimed_def)
qed

section \<open>Runs\<close>

definition eg_campaign :: campaign where
  "eg_campaign = \<lparr>cp_key = ''genesis'', cp_name = ''Genesis'', cp_chain = 1, cp_token = ''native'',
     cp_symbol = ''TGR'', cp_decimals = 18, cp_total_allocated = ''60'', cp_funded = ''200'',
     cp_total_claimed = ''0'', cp_start = 0, cp_end = 1000, cp_status = ''active'',
     cp_created_by = ''root'', cp_deleted = False\<rparr>"

definition eg_airdrop :: airdrop_db where
  "eg_airdrop = \<lparr>ad_campaigns = [(''c1'', eg_campaign)],
     ad_allocations = [((''c1'', ''alice''), \<lparr>al_amount = ''60'', al_claimed = False\<rparr>)], ad_accounts = []\<rparr>"

definition eg_claimed :: airdrop_db where
  "eg_claimed = fst (claim_airdrop Some True (\<lambda>_. False) 10 ''alice'' ''c1'' eg_airdrop eg_airdrop)"

definition eg_deleted :: airdrop_db where
  "eg_deleted = fst (delete_campaign Some (\<lambda>_. False) ''c1'' eg_airdrop eg_airdrop)"

definition eg_replaced :: airdrop_db where
  "eg_replaced = fst (set_allocations Some (\<lambda>_. False) ''c1'' (Some [(''alice'', ''60'')]) eg_airdrop eg_claimed)"

definition eg_paid_twice :: airdrop_db where
  "eg_paid_twice = fst (claim_airdrop Some True (\<lambda>_. False) 20 ''alice'' ''c1'' eg_replaced eg_replaced)"

lemma eg_airdrop_ok: "airdrop_ok eg_airdrop"
  by code_simp

lemma eg_claim_step: "airdrop_step eg_airdrop eg_claimed"
  unfolding eg_claimed_def by (rule airdrop_step.claim [OF surjective_pairing])

theorem airdrop_never_overpays_witness:
  "\<exists>c. (''c1'', c) \<in> set (ad_campaigns eg_claimed) \<and> campaign_claimed c = 60 \<and> campaign_claimed c \<le> campaign_funded c"
proof -
  have "map_of (ad_campaigns eg_claimed) ''c1'' = Some (eg_campaign\<lparr>cp_total_claimed := ''60''\<rparr>)" by code_simp
  then have m: "(''c1'', eg_campaign\<lparr>cp_total_claimed := ''60''\<rparr>) \<in> set (ad_campaigns eg_claimed)" by (rule map_of_SomeD)
  have "campaign_claimed (eg_campaign\<lparr>cp_total_claimed := ''60''\<rparr>) = 60" by code_simp
  with airdrop_never_overpays [OF r_into_rtranclp [of airdrop_step, OF eg_claim_step] eg_airdrop_ok m] m
  show ?thesis by blast
qed

theorem airdrop_conserves_tokens_witness:
  "\<exists>V. finite V \<and> (\<forall>U asset. finite U \<longrightarrow> V \<subseteq> U \<longrightarrow>
    holdings_of U asset (ad_accounts eg_claimed) + escrow_of asset eg_claimed
      = holdings_of U asset (ad_accounts eg_airdrop) + escrow_of asset eg_airdrop)"
  by (rule airdrop_conserves_tokens [OF r_into_rtranclp [of airdrop_step, OF eg_claim_step] eg_airdrop_ok])

theorem claim_pays_once_witness:
  "\<exists>d' a. claim_tx (\<lambda>_. False) 10 ''c1'' ''alice'' eg_airdrop = Inr (d', a)
    \<and> (\<forall>fault' now'. \<exists>e. claim_tx fault' now' ''c1'' ''alice'' d' = Inl e)"
proof -
  have "\<exists>x. claim_tx (\<lambda>_. False) 10 ''c1'' ''alice'' eg_airdrop = Inr x" by (rule exI, code_simp)
  then obtain d' a where h: "claim_tx (\<lambda>_. False) 10 ''c1'' ''alice'' eg_airdrop = Inr (d', a)" by (metis surj_pair)
  from claim_pays_once [OF eg_airdrop_ok h] h show ?thesis by blast
qed

theorem deleted_escrow_witness:
  "\<exists>c'. map_of (ad_campaigns eg_deleted) ''c1'' = Some c' \<and> campaign_funded c' - campaign_claimed c' = 200"
proof -
  have d: "delete_campaign Some (\<lambda>_. False) ''c1'' eg_airdrop eg_airdrop = (eg_deleted, Ok_reply 200 ''deleted'')"
    by code_simp
  have m: "map_of (ad_campaigns eg_airdrop) ''c1'' = Some eg_campaign" "\<not> cp_deleted eg_campaign"
    "campaign_funded eg_campaign - campaign_claimed eg_campaign = 200" by code_simp+
  from deleted_escrow_is_stranded [OF d m(1,2) rtranclp.rtrancl_refl] m(3) show ?thesis by auto
qed

text \<open>A claim can be paid twice. The test that no allocation was claimed runs before the
  transaction that replaces the allocations; when a claim commits in between, the replacement
  clears its mark, and the same user is paid the same allocation of 60 again.\<close>

theorem stale_replacement_pays_twice:
  "set_allocations Some (\<lambda>_. False) ''c1'' (Some [(''alice'', ''60'')]) eg_airdrop eg_claimed = (eg_replaced, Ok_reply 200 60)
    \<and> claim_airdrop Some True (\<lambda>_. False) 20 ''alice'' ''c1'' eg_replaced eg_replaced = (eg_paid_twice, Ok_reply 200 60)
    \<and> balance (ad_accounts eg_airdrop) (''alice'', 1, ''native'') = 0
    \<and> balance (ad_accounts eg_paid_twice) (''alice'', 1, ''native'') = 120"
  by (intro conjI; code_simp)

end
