(* ===== verification/Governance.thy ===== *)
theory Governance
  imports Go_Tables Go_Float
begin

text \<open>
  Vote-escrow locks, gauge voting and bribes (\<open>services/governance_service.go\<close>). A handler reads
  what it checks in an earlier state \<open>d0\<close> and writes in \<open>d\<close>; \<open>fault\<close> says which database calls
  fail. Every reply is an option: \<open>None\<close> is a panic (an integer division by zero in the voting
  power), which the writes before it survive. Rows are kept in the order of their ids; the
  creation order of the listings is not modelled. The parsing of UUIDs is a parameter, and the
  times and the ids of new rows are arguments.
\<close>

section \<open>Tables\<close>

record ve_lock =
  vl_user :: string
  vl_amount :: string
  vl_start :: time
  vl_unlock :: time
  vl_withdrawn :: bool

record gauge =
  ga_name :: string
  ga_type :: string
  ga_reference :: string
  ga_weight :: string
  ga_total_voted :: string
  ga_active :: bool

record gauge_vote =
  gv_user :: string
  gv_gauge :: uuid
  gv_weight :: string

record bribe =
  br_gauge :: uuid
  br_epoch :: int64
  br_token :: string
  br_amount :: string
  br_total_weight :: string
  br_funder :: string

record gov_db =
  gd_locks :: "(uuid \<times> ve_lock) list"
  gd_gauges :: "(uuid \<times> gauge) list"
  gd_votes :: "(uuid \<times> gauge_vote) list"
  gd_bribes :: "(uuid \<times> bribe) list"
  gd_claims :: "((uuid \<times> string) \<times> string) list"

datatype gov_call =
  Count_locks | Create_lock | Load_locks | Sum_locks | Load_lock | Save_lock | Create_gauge | List_gauges
| Load_gauge | Load_votes | Reload_gauge | Write_total | Lookup_vote | Save_vote | Create_vote | Commit_vote
| Snapshot_votes | Create_bribe | List_bribes | Load_bribe | Load_vote | Create_claim | Update_gauge

definition week_seconds :: int where "week_seconds = 7 * 24 * 60 * 60"
definition max_lock_seconds :: int where "max_lock_seconds = 4 * 365 * 24 * 60 * 60"
definition min_lock_seconds :: int where "min_lock_seconds = week_seconds"
definition min_boost_bps :: int where "min_boost_bps = 10000"
definition max_boost_bps :: int where "max_boost_bps = 25000"

section \<open>Parsing\<close>

datatype parse_error = Empty_number | Not_integer | Not_positive | Negative_number

definition parse_amount :: "string \<Rightarrow> parse_error + int" where
  "parse_amount raw =
     (let s = trim_space raw in
      if s = [] then Inl Empty_number
      else (case parse_int s of
              None \<Rightarrow> Inl Not_integer
            | Some n \<Rightarrow> if n \<le> 0 then Inl Not_positive else Inr n))"

fun parse_amount_message :: "parse_error \<Rightarrow> string" where
  "parse_amount_message Empty_number = ''amount is required''"
| "parse_amount_message Not_integer = ''amount must be a base-10 integer''"
| "parse_amount_message _ = ''amount must be positive''"

definition parse_amount_or_zero :: "string \<Rightarrow> parse_error + int" where
  "parse_amount_or_zero raw =
     (let s = trim_space raw in
      if s = [] then Inl Empty_number
      else (case parse_int s of
              None \<Rightarrow> Inl Not_integer
            | Some n \<Rightarrow> if n < 0 then Inl Negative_number else Inr n))"

fun parse_weight_message :: "parse_error \<Rightarrow> string" where
  "parse_weight_message Empty_number = ''weight is required''"
| "parse_weight_message Not_integer = ''weight must be a base-10 integer''"
| "parse_weight_message _ = ''weight must not be negative''"

section \<open>Voting power\<close>

text \<open>\<open>Unix()\<close> of a time in nanoseconds is its floor in seconds; the quotient truncates.\<close>

definition current_epoch :: "time \<Rightarrow> int64" where
  "current_epoch t = quo (t div 1000000000) week_seconds"

definition voting_power :: "ve_lock \<Rightarrow> time \<Rightarrow> int option" where
  "voting_power l now =
     (if vl_withdrawn l \<or> vl_unlock l \<le> now then Some 0
      else
        let span = duration_seconds (time_sub (vl_unlock l) (vl_start l)) in
        if f64_le span (f64_of_int 0) then Some 0
        else
          let remaining = duration_seconds (time_sub (vl_unlock l) now) in
          (case parse_int (vl_amount l) of
             None \<Rightarrow> Some 0
           | Some amount \<Rightarrow>
               if f64_to_int64 span = 0 then None
               else Some (ediv (amount * f64_to_int64 remaining) (f64_to_int64 span))))"

fun sum_power :: "time \<Rightarrow> (uuid \<times> ve_lock) list \<Rightarrow> int option" where
  "sum_power now [] = Some 0"
| "sum_power now ((_, l) # ls) =
     (case voting_power l now of
        None \<Rightarrow> None
      | Some p \<Rightarrow> map_option (\<lambda>q. p + q) (sum_power now ls))"

definition open_locks_of :: "string \<Rightarrow> gov_db \<Rightarrow> (uuid \<times> ve_lock) list" where
  "open_locks_of user d = filter (\<lambda>(_, l). vl_user l = user \<and> \<not> vl_withdrawn l) (gd_locks d)"

definition total_voting_power :: "(gov_call \<Rightarrow> bool) \<Rightarrow> string \<Rightarrow> time \<Rightarrow> gov_db \<Rightarrow> int option" where
  "total_voting_power fault user now d = (if fault Sum_locks then Some 0 else sum_power now (open_locks_of user d))"

section \<open>Locks\<close>

definition new_lock :: "string \<Rightarrow> int \<Rightarrow> int64 \<Rightarrow> time \<Rightarrow> ve_lock" where
  "new_lock user amount secs now =
     \<lparr>vl_user = user, vl_amount = int_string amount, vl_start = now,
      vl_unlock = now + wrap64 (secs * 1000000000), vl_withdrawn = False\<rparr>"

definition create_lock ::
  "(gov_call \<Rightarrow> bool) \<Rightarrow> uuid \<Rightarrow> time \<Rightarrow> time \<Rightarrow> string \<Rightarrow> (string \<times> int64) option \<Rightarrow>
     gov_db \<Rightarrow> gov_db \<Rightarrow> gov_db \<times> (ve_lock \<times> int) reply option" where
  "create_lock fault new_id now0 now user body d0 d =
     (if user = [] then (d, Some (Error_reply 401 ''Authenticated session required''))
      else (case body of
        None \<Rightarrow> (d, Some Bad_binding)
      | Some (raw, secs) \<Rightarrow>
          if raw = [] \<or> secs = 0 then (d, Some Bad_binding)
          else (case parse_amount raw of
            Inl e \<Rightarrow> (d, Some (Error_reply 400 (parse_amount_message e)))
          | Inr amount \<Rightarrow>
              if secs < min_lock_seconds
                then (d, Some (Error_reply 400 ''lock duration is below the one week minimum''))
              else if max_lock_seconds < secs
                then (d, Some (Error_reply 400 ''lock duration exceeds the four year maximum''))
              else if fault Count_locks then (d, Some (Error_reply 500 ''failed to check existing locks''))
              else if \<exists>(_, l) \<in> set (gd_locks d0). vl_user l = user \<and> \<not> vl_withdrawn l \<and> now0 < vl_unlock l
                then (d, Some (Error_reply 409 ''an active lock already exists''))
              else
                let l = new_lock user amount secs now in
                if fault Create_lock \<or> new_id \<in> fst ` set (gd_locks d)
                  then (d, Some (Error_reply 500 ''failed to create lock''))
                else (d\<lparr>gd_locks := insert_row new_id l (gd_locks d)\<rparr>,
                      map_option (\<lambda>p. Ok_reply 201 (l, p)) (voting_power l now)))))"

fun lock_views :: "time \<Rightarrow> (uuid \<times> ve_lock) list \<Rightarrow> (uuid \<times> ve_lock \<times> int) list option" where
  "lock_views now [] = Some []"
| "lock_views now ((i, l) # ls) =
     (case voting_power l now of
        None \<Rightarrow> None
      | Some p \<Rightarrow> map_option (\<lambda>vs. (i, l, p) # vs) (lock_views now ls))"

definition get_locks ::
  "(gov_call \<Rightarrow> bool) \<Rightarrow> time \<Rightarrow> string \<Rightarrow> gov_db \<Rightarrow> ((uuid \<times> ve_lock \<times> int) list \<times> int) reply option" where
  "get_locks fault now user d =
     (if user = [] then Some (Error_reply 401 ''Authenticated session required'')
      else if fault Load_locks then Some (Error_reply 500 ''failed to load locks'')
      else (case lock_views now (filter (\<lambda>(_, l). vl_user l = user) (gd_locks d)) of
              None \<Rightarrow> None
            | Some views \<Rightarrow> map_option (\<lambda>p. Ok_reply 200 (views, p)) (total_voting_power fault user now d)))"

text \<open>\<open>Save\<close> writes every column of the row that was read.\<close>

definition withdraw_lock ::
  "(string \<Rightarrow> uuid option) \<Rightarrow> (gov_call \<Rightarrow> bool) \<Rightarrow> time \<Rightarrow> string \<Rightarrow> string \<Rightarrow>
     gov_db \<Rightarrow> gov_db \<Rightarrow> gov_db \<times> string reply option" where
  "withdraw_lock parse_uuid fault now user raw_id d0 d =
     (if user = [] then (d, Some (Error_reply 401 ''Authenticated session required''))
      else (case parse_uuid raw_id of
        None \<Rightarrow> (d, Some (Error_reply 400 ''invalid lock id''))
      | Some i \<Rightarrow>
          if fault Load_lock then (d, Some (Error_reply 500 ''failed to load lock''))
          else (case map_of (gd_locks d0) i of
            None \<Rightarrow> (d, Some (Error_reply 404 ''lock not found''))
          | Some l \<Rightarrow>
              if vl_user l \<noteq> user then (d, Some (Error_reply 404 ''lock not found''))
              else if vl_withdrawn l then (d, Some (Error_reply 409 ''lock already withdrawn''))
              else if now < vl_unlock l then (d, Some (Error_reply 400 ''lock has not expired''))
              else if fault Save_lock then (d, Some (Error_reply 500 ''failed to withdraw lock''))
              else (d\<lparr>gd_locks := AList.update i (l\<lparr>vl_withdrawn := True\<rparr>) (gd_locks d)\<rparr>,
                    Some (Ok_reply 200 (vl_amount l))))))"

section \<open>Gauges\<close>

definition allowed_gauge_types :: "string list" where
  "allowed_gauge_types = [''pool'', ''vault'', ''lending'', ''perps'', ''external'']"

definition create_gauge ::
  "(gov_call \<Rightarrow> bool) \<Rightarrow> uuid \<Rightarrow> (string \<times> string \<times> string) option \<Rightarrow> gov_db \<Rightarrow> gov_db \<times> gauge reply option" where
  "create_gauge fault new_id body d =
     (case body of
        None \<Rightarrow> (d, Some Bad_binding)
      | Some (raw_name, raw_type, reference) \<Rightarrow>
          if raw_name = [] \<or> raw_type = [] then (d, Some Bad_binding)
          else
            let name = trim_space raw_name; gtype = to_lower (trim_space raw_type) in
            if name = [] then (d, Some (Error_reply 400 ''gauge name is required''))
            else if gtype \<notin> set allowed_gauge_types then (d, Some (Error_reply 400 ''unsupported gauge type''))
            else if fault Create_gauge \<or> new_id \<in> fst ` set (gd_gauges d)
              then (d, Some (Error_reply 500 ''failed to create gauge''))
            else
              let g = \<lparr>ga_name = name, ga_type = gtype, ga_reference = trim_space reference, ga_weight = ''0'',
                       ga_total_voted = ''0'', ga_active = True\<rparr>
              in (d\<lparr>gd_gauges := insert_row new_id g (gd_gauges d)\<rparr>, Some (Ok_reply 201 g)))"

definition get_gauges :: "(gov_call \<Rightarrow> bool) \<Rightarrow> string \<Rightarrow> gov_db \<Rightarrow> (uuid \<times> gauge) list reply" where
  "get_gauges fault active_param d =
     (if fault List_gauges then Error_reply 500 ''failed to load gauges''
      else Ok_reply 200 (filter (\<lambda>(_, g). active_param = ''true'' \<longrightarrow> ga_active g) (gd_gauges d)))"

definition set_gauge_weight ::
  "(string \<Rightarrow> uuid option) \<Rightarrow> (gov_call \<Rightarrow> bool) \<Rightarrow> string \<Rightarrow> (string \<times> bool option) option \<Rightarrow>
     gov_db \<Rightarrow> gov_db \<times> unit reply option" where
  "set_gauge_weight parse_uuid fault raw_id body d =
     (case parse_uuid raw_id of
        None \<Rightarrow> (d, Some (Error_reply 400 ''invalid gauge id''))
      | Some i \<Rightarrow>
     (case body of
        None \<Rightarrow> (d, Some Bad_binding)
      | Some (raw, active) \<Rightarrow>
          if raw = [] then (d, Some Bad_binding)
          else (case parse_amount_or_zero raw of
            Inl e \<Rightarrow> (d, Some (Error_reply 400 (parse_weight_message e)))
          | Inr w \<Rightarrow>
              if fault Update_gauge then (d, Some (Error_reply 500 ''failed to update gauge''))
              else (case map_of (gd_gauges d) i of
                None \<Rightarrow> (d, Some (Error_reply 404 ''gauge not found''))
              | Some g \<Rightarrow>
                  (d\<lparr>gd_gauges := AList.update i
                       (g\<lparr>ga_weight := int_string w,
                          ga_active := (case active of None \<Rightarrow> ga_active g | Some a \<Rightarrow> a)\<rparr>) (gd_gauges d)\<rparr>,
                   Some (Ok_reply 200 ()))))))"

section \<open>Voting\<close>

definition find_vote :: "string \<Rightarrow> uuid \<Rightarrow> gov_db \<Rightarrow> (uuid \<times> gauge_vote) option" where
  "find_vote user g d = find (\<lambda>(_, v). gv_user v = user \<and> gv_gauge v = g) (gd_votes d)"

definition active_gauge :: "uuid \<Rightarrow> gov_db \<Rightarrow> gauge option" where
  "active_gauge g d = (case map_of (gd_gauges d) g of None \<Rightarrow> None | Some x \<Rightarrow> if ga_active x then Some x else None)"

text \<open>The weight on the other gauges, and the last weight recorded for this one.\<close>

fun tally_votes :: "uuid \<Rightarrow> (uuid \<times> gauge_vote) list \<Rightarrow> int \<times> int option \<Rightarrow> int \<times> int option" where
  "tally_votes g [] acc = acc"
| "tally_votes g ((_, v) # vs) (new_total, previous) =
     tally_votes g vs
       (case parse_int (gv_weight v) of
          None \<Rightarrow> (new_total, previous)
        | Some w \<Rightarrow> if gv_gauge v = g then (new_total, Some w) else (new_total + w, previous))"

definition vote_tx ::
  "(gov_call \<Rightarrow> bool) \<Rightarrow> uuid \<Rightarrow> string \<Rightarrow> uuid \<Rightarrow> int \<Rightarrow> int option \<Rightarrow> gov_db \<Rightarrow> gov_db option" where
  "vote_tx fault new_id user g w previous d =
     (if fault Reload_gauge then None
      else (case map_of (gd_gauges d) g of
        None \<Rightarrow> None
      | Some current \<Rightarrow>
          let base = (case parse_int (ga_total_voted current) of None \<Rightarrow> 0 | Some n \<Rightarrow> n);
              rest = (case previous of None \<Rightarrow> base | Some p \<Rightarrow> base - p);
              tot = (if rest + w < 0 then 0 else rest + w);
              d1 = d\<lparr>gd_gauges := AList.update g (current\<lparr>ga_total_voted := int_string tot\<rparr>) (gd_gauges d)\<rparr> in
          if fault Write_total \<or> fault Lookup_vote \<or> fault Commit_vote then None
          else (case find_vote user g d1 of
            Some (i, v) \<Rightarrow>
              if fault Save_vote then None
              else Some (d1\<lparr>gd_votes := AList.update i (v\<lparr>gv_weight := int_string w\<rparr>) (gd_votes d1)\<rparr>)
          | None \<Rightarrow>
              if fault Create_vote \<or> new_id \<in> fst ` set (gd_votes d1) then None
              else Some (d1\<lparr>gd_votes := insert_row new_id
                          \<lparr>gv_user = user, gv_gauge = g, gv_weight = int_string w\<rparr> (gd_votes d1)\<rparr>))))"

definition vote ::
  "(string \<Rightarrow> uuid option) \<Rightarrow> (gov_call \<Rightarrow> bool) \<Rightarrow> uuid \<Rightarrow> time \<Rightarrow> string \<Rightarrow> (string \<times> string) option \<Rightarrow>
     gov_db \<Rightarrow> gov_db \<Rightarrow> gov_db \<times> (int \<times> int64 \<times> int) reply option" where
  "vote parse_uuid fault new_id now user body d0 d =
     (if user = [] then (d, Some (Error_reply 401 ''Authenticated session required''))
      else (case body of
        None \<Rightarrow> (d, Some Bad_binding)
      | Some (raw_gauge, raw_weight) \<Rightarrow>
          if raw_gauge = [] \<or> raw_weight = [] then (d, Some Bad_binding)
          else (case parse_uuid raw_gauge of
            None \<Rightarrow> (d, Some (Error_reply 400 ''invalid gauge id''))
          | Some g \<Rightarrow>
         (case parse_amount_or_zero raw_weight of
            Inl e \<Rightarrow> (d, Some (Error_reply 400 (parse_weight_message e)))
          | Inr w \<Rightarrow>
              if fault Load_gauge \<or> active_gauge g d0 = None then (d, Some (Error_reply 404 ''gauge not found''))
              else (case total_voting_power fault user now d0 of
                None \<Rightarrow> (d, None)
              | Some vp \<Rightarrow>
                  if fault Load_votes then (d, Some (Error_reply 500 ''failed to load votes''))
                  else
                    let (new_total, previous) = tally_votes g (filter (\<lambda>(_, v). gv_user v = user) (gd_votes d0)) (w, None) in
                    if vp < new_total
                      then (d, Some (Error_reply 400 ''weight exceeds available voting power''))
                    else (case vote_tx fault new_id user g w previous d of
                            None \<Rightarrow> (d, Some (Error_reply 500 ''failed to record vote''))
                          | Some d' \<Rightarrow> (d', Some (Ok_reply 200 (w, current_epoch now, vp)))))))))"

section \<open>Bribes\<close>

definition allowed_settlement_assets :: "string list" where
  "allowed_settlement_assets = [''RUSD'', ''USDT'', ''USDC'', ''RYUSD'', ''BTC'', ''ETH'', ''TGR'', ''USD'']"

definition gauge_weight_snapshot :: "uuid \<Rightarrow> gov_db \<Rightarrow> int" where
  "gauge_weight_snapshot g d =
     (\<Sum>(_, v)\<leftarrow>filter (\<lambda>(_, v). gv_gauge v = g) (gd_votes d).
        (case parse_int (gv_weight v) of None \<Rightarrow> 0 | Some w \<Rightarrow> w))"

definition add_bribe ::
  "(string \<Rightarrow> uuid option) \<Rightarrow> (gov_call \<Rightarrow> bool) \<Rightarrow> uuid \<Rightarrow> time \<Rightarrow> string \<Rightarrow> (string \<times> string \<times> string) option \<Rightarrow>
     gov_db \<Rightarrow> gov_db \<Rightarrow> gov_db \<times> bribe reply option" where
  "add_bribe parse_uuid fault new_id now user body d0 d =
     (if user = [] then (d, Some (Error_reply 401 ''Authenticated session required''))
      else (case body of
        None \<Rightarrow> (d, Some Bad_binding)
      | Some (raw_gauge, raw_token, raw_amount) \<Rightarrow>
          if raw_gauge = [] \<or> raw_token = [] \<or> raw_amount = [] then (d, Some Bad_binding)
          else (case parse_uuid raw_gauge of
            None \<Rightarrow> (d, Some (Error_reply 400 ''invalid gauge id''))
          | Some g \<Rightarrow>
         (case parse_amount raw_amount of
            Inl e \<Rightarrow> (d, Some (Error_reply 400 (parse_amount_message e)))
          | Inr amount \<Rightarrow>
              let token = to_upper (trim_space raw_token) in
              if token \<notin> set allowed_settlement_assets then (d, Some (Error_reply 400 ''unsupported bribe token''))
              else if fault Load_gauge \<or> active_gauge g d0 = None then (d, Some (Error_reply 404 ''gauge not found''))
              else if fault Snapshot_votes then (d, Some (Error_reply 500 ''failed to load votes''))
              else if fault Create_bribe \<or> new_id \<in> fst ` set (gd_bribes d)
                then (d, Some (Error_reply 500 ''failed to record bribe''))
              else
                let b = \<lparr>br_gauge = g, br_epoch = current_epoch now, br_token = token, br_amount = int_string amount,
                         br_total_weight = int_string (gauge_weight_snapshot g d0), br_funder = user\<rparr>
                in (d\<lparr>gd_bribes := insert_row new_id b (gd_bribes d)\<rparr>, Some (Ok_reply 201 b))))))"

definition get_bribes ::
  "(string \<Rightarrow> uuid option) \<Rightarrow> (gov_call \<Rightarrow> bool) \<Rightarrow> string \<Rightarrow> gov_db \<Rightarrow> (uuid \<times> bribe) list reply" where
  "get_bribes parse_uuid fault raw_gauge d =
     (case parse_uuid raw_gauge of
        None \<Rightarrow> Error_reply 400 ''invalid gauge id''
      | Some g \<Rightarrow>
          if fault List_bribes then Error_reply 500 ''failed to load bribes''
          else Ok_reply 200 (filter (\<lambda>(_, b). br_gauge b = g) (gd_bribes d)))"

text \<open>The share of a bribe that a vote is worth; \<open>None\<close> when it cannot be computed.\<close>

definition bribe_share :: "bribe \<Rightarrow> gauge_vote \<Rightarrow> int option" where
  "bribe_share b v =
     (case (parse_int (br_total_weight b), parse_int (gv_weight v), parse_int (br_amount b)) of
        (Some tot, Some w, Some amount) \<Rightarrow> if tot = 0 then None else Some (ediv (amount * w) tot)
      | _ \<Rightarrow> None)"

definition claim_bribe ::
  "(string \<Rightarrow> uuid option) \<Rightarrow> (gov_call \<Rightarrow> bool) \<Rightarrow> string \<Rightarrow> string \<Rightarrow>
     gov_db \<Rightarrow> gov_db \<Rightarrow> gov_db \<times> (string \<times> int) reply option" where
  "claim_bribe parse_uuid fault user raw_id d0 d =
     (if user = [] then (d, Some (Error_reply 401 ''Authenticated session required''))
      else (case parse_uuid raw_id of
        None \<Rightarrow> (d, Some (Error_reply 400 ''invalid bribe id''))
      | Some i \<Rightarrow>
          if fault Load_bribe then (d, Some (Error_reply 500 ''failed to load bribe''))
          else (case map_of (gd_bribes d0) i of
            None \<Rightarrow> (d, Some (Error_reply 404 ''bribe not found''))
          | Some b \<Rightarrow>
          (case (if fault Load_vote then None else find_vote user (br_gauge b) d0) of
            None \<Rightarrow> (d, Some (Error_reply 400 ''no vote recorded for this gauge''))
          | Some (_, v) \<Rightarrow>
          (case bribe_share b v of
            None \<Rightarrow> (d, Some (Error_reply 400 ''bribe has no distributable weight''))
          | Some share \<Rightarrow>
              if share = 0 then (d, Some (Error_reply 400 ''computed share is zero''))
              else if fault Create_claim \<or> (i, user) \<in> fst ` set (gd_claims d)
                then (d, Some (Error_reply 409 ''bribe already claimed''))
              else (d\<lparr>gd_claims := gd_claims d @ [((i, user), int_string share)]\<rparr>,
                    Some (Ok_reply 200 (br_token b, share))))))))"

section \<open>Boost\<close>

definition boost_bps :: "(gov_call \<Rightarrow> bool) \<Rightarrow> time \<Rightarrow> string \<Rightarrow> int option \<Rightarrow> gov_db \<Rightarrow> int option" where
  "boost_bps fault now user staked d =
     (case staked of
        None \<Rightarrow> Some min_boost_bps
      | Some n \<Rightarrow>
          if n \<le> 0 then Some min_boost_bps
          else (case total_voting_power fault user now d of
            None \<Rightarrow> None
          | Some vp \<Rightarrow>
              let bonus = ediv (15000 * vp) n; tot = min_boost_bps + bonus in
              if max_boost_bps < tot then Some max_boost_bps else Some tot))"

definition pad_zeros :: "nat \<Rightarrow> string \<Rightarrow> string" where
  "pad_zeros n s = replicate (n - length s) (CHR ''0'') @ s"

definition format_bps :: "int \<Rightarrow> string" where
  "format_bps bps =
     (let whole = bps div 10000; frac = bps mod 10000 in
      if frac = 0 then int_string whole
      else int_string whole @ ''.'' @ trim_right (\<lambda>c. c = CHR ''0'') (pad_zeros 4 (int_string frac)))"

definition get_boost ::
  "(gov_call \<Rightarrow> bool) \<Rightarrow> time \<Rightarrow> string \<Rightarrow> string \<Rightarrow> gov_db \<Rightarrow> (int \<times> int \<times> int \<times> string) reply option" where
  "get_boost fault now user raw d =
     (if user = [] then Some (Error_reply 401 ''Authenticated session required'')
      else (case parse_amount raw of
        Inl e \<Rightarrow> Some (Error_reply 400 (parse_amount_message e))
      | Inr staked \<Rightarrow>
          (case total_voting_power fault user now d of
             None \<Rightarrow> None
           | Some vp \<Rightarrow>
               let bonus = ediv (15000 * vp) staked;
                   tot = min_boost_bps + bonus;
                   capped = (if max_boost_bps < tot then max_boost_bps else tot)
               in Some (Ok_reply 200 (vp, staked, capped, format_bps capped)))))"

end
