(* ===== verification/Launchpad.thy ===== *)
theory Launchpad
  imports Governance
begin

text \<open>
  Token sales (\<open>services/launchpad.go\<close>). Projects and allocations live in memory behind one mutex,
  so an operation is one step; the Go maps are association lists, and the order in which a map is
  ranged over is a parameter. Amounts are decimal text and exact rationals. The database is only
  read: the user table finds the owner of a wallet, the lock table its voting power. A reply of
  \<open>None\<close> is a panic in the voting power. \<open>time.Parse\<close> of RFC3339, go-ethereum's \<open>IsHexAddress\<close>
  and the text of a UUID are parameters. An error message that wraps another one keeps its own part.
\<close>

section \<open>Decimals\<close>

text \<open>At most one decimal point, digits otherwise; \<open>Rat.SetString\<close> then reads it exactly.\<close>

definition parse_decimal :: "string \<Rightarrow> rat option" where
  "parse_decimal raw =
     (let s = trim_space raw in
      if s = [] then None
      else if hd s = CHR ''-'' \<or> hd s = CHR ''+'' then None
      else if 1 < length (filter (\<lambda>c. c = CHR ''.'') s) then None
      else
        let (whole, frac) = split_once (CHR ''.'') s;
            fraction = (case frac of None \<Rightarrow> [] | Some f \<Rightarrow> f);
            digits = whole @ fraction in
        if digits = [] \<or> \<not> list_all is_digit digits then None
        else Some (of_int (digits_val digits) / 10 ^ length fraction))"

definition format_decimal :: "rat \<Rightarrow> nat \<Rightarrow> string" where
  "format_decimal v places =
     (let (num, denom) = quotient_of (v * 10 ^ places);
          floored = quo num denom;
          raw = int_string \<bar>floored\<bar>;
          digits = (if length raw \<le> places then replicate (places - length raw + 1) (CHR ''0'') @ raw else raw);
          out = take (length digits - places) digits @ ''.'' @ drop (length digits - places) digits
      in if floored < 0 then CHR ''-'' # out else out)"

section \<open>State\<close>

record lp_project =
  pj_name :: string
  pj_description :: string
  pj_token :: string
  pj_symbol :: string
  pj_token_name :: string
  pj_decimals :: int
  pj_total_supply :: string
  pj_price :: string
  pj_payment_token :: string
  pj_min :: string
  pj_max :: string
  pj_soft_cap :: string
  pj_hard_cap :: string
  pj_start :: time
  pj_end :: time
  pj_status :: string
  pj_raised :: string
  pj_participants :: int
  pj_website :: string
  pj_whitepaper :: string
  pj_logo :: string
  pj_created_by :: string
  pj_created_at :: time

record lp_allocation =
  la_user :: string
  la_amount :: string
  la_claimed_amount :: string
  la_claimed_at :: "time option"
  la_tier :: string
  la_status :: string

record lp_tier =
  lt_name :: string
  lt_min_stake :: string
  lt_allocation :: string
  lt_max_allocation :: string

record launchpad =
  lp_projects :: "(string \<times> lp_project) list"
  lp_allocations :: "(string \<times> lp_allocation list) list"

definition default_tiers :: "(string \<times> lp_tier) list" where
  "default_tiers =
     [(''diamond'', \<lparr>lt_name = ''Diamond'', lt_min_stake = ''100000'', lt_allocation = ''5000'', lt_max_allocation = ''50000''\<rparr>),
      (''platinum'', \<lparr>lt_name = ''Platinum'', lt_min_stake = ''50000'', lt_allocation = ''2500'', lt_max_allocation = ''25000''\<rparr>),
      (''gold'', \<lparr>lt_name = ''Gold'', lt_min_stake = ''10000'', lt_allocation = ''1000'', lt_max_allocation = ''10000''\<rparr>),
      (''silver'', \<lparr>lt_name = ''Silver'', lt_min_stake = ''1000'', lt_allocation = ''500'', lt_max_allocation = ''5000''\<rparr>),
      (''bronze'', \<lparr>lt_name = ''Bronze'', lt_min_stake = ''0'', lt_allocation = ''100'', lt_max_allocation = ''1000''\<rparr>)]"

definition empty_launchpad :: launchpad where
  "empty_launchpad = \<lparr>lp_projects = [], lp_allocations = []\<rparr>"

text \<open>What the service reads of the database: the users' wallets by id, and the locks.\<close>

record lp_db =
  ld_users :: "(uuid \<times> string) list"
  ld_gov :: gov_db

datatype lp_call = Find_wallet | Find_locks | Find_caller

section \<open>Tiers\<close>

fun best_tier :: "int \<Rightarrow> (string \<times> lp_tier) list \<Rightarrow> string \<times> int \<Rightarrow> string \<times> int" where
  "best_tier vp [] best = best"
| "best_tier vp ((name, t) # ts) (best, threshold) =
     best_tier vp ts
       (case parse_int (lt_min_stake t) of
          None \<Rightarrow> (best, threshold)
        | Some n \<Rightarrow> if n \<le> vp \<and> threshold < n then (name, n) else (best, threshold))"

definition tier_for_power :: "(string \<times> lp_tier) list \<Rightarrow> int \<Rightarrow> string" where
  "tier_for_power tiers vp = (if vp \<le> 0 then ''bronze'' else fst (best_tier vp tiers (''bronze'', - 1)))"

definition staked_power ::
  "(uuid \<Rightarrow> string) \<Rightarrow> (lp_call \<Rightarrow> bool) \<Rightarrow> time \<Rightarrow> lp_db option \<Rightarrow> string \<Rightarrow> int option" where
  "staked_power uuid_text fault now db address =
     (case db of
        None \<Rightarrow> Some 0
      | Some d \<Rightarrow>
          if trim_space address = [] \<or> fault Find_wallet then Some 0
          else (case find (\<lambda>(_, wallet). to_lower wallet = to_lower (trim_space address)) (ld_users d) of
                  None \<Rightarrow> Some 0
                | Some (i, _) \<Rightarrow>
                    if fault Find_locks then Some 0 else sum_power now (open_locks_of (uuid_text i) (ld_gov d))))"

definition determine_tier ::
  "(uuid \<Rightarrow> string) \<Rightarrow> (lp_call \<Rightarrow> bool) \<Rightarrow> (string \<times> lp_tier) list \<Rightarrow> time \<Rightarrow> lp_db option \<Rightarrow> string \<Rightarrow> string option" where
  "determine_tier uuid_text fault tiers now db address =
     map_option (tier_for_power tiers) (staked_power uuid_text fault now db address)"

section \<open>Projects\<close>

record create_project_req =
  cq_name :: string
  cq_description :: string
  cq_token :: string
  cq_symbol :: string
  cq_token_name :: string
  cq_total_supply :: string
  cq_price :: string
  cq_payment_token :: string
  cq_min :: string
  cq_max :: string
  cq_soft_cap :: string
  cq_hard_cap :: string
  cq_start :: string
  cq_end :: string
  cq_website :: string
  cq_whitepaper :: string
  cq_logo :: string

definition create_project ::
  "string \<Rightarrow> time \<Rightarrow> string \<Rightarrow> create_project_req \<Rightarrow> time \<Rightarrow> time \<Rightarrow> launchpad \<Rightarrow> launchpad \<times> (string + lp_project)" where
  "create_project new_id now creator r start stop s =
     (if stop < start then (s, Inl ''end time must be after start time'')
      else
        let p = \<lparr>pj_name = cq_name r, pj_description = cq_description r, pj_token = cq_token r, pj_symbol = cq_symbol r,
                 pj_token_name = cq_token_name r, pj_decimals = 18, pj_total_supply = cq_total_supply r,
                 pj_price = cq_price r, pj_payment_token = cq_payment_token r, pj_min = cq_min r, pj_max = cq_max r,
                 pj_soft_cap = cq_soft_cap r, pj_hard_cap = cq_hard_cap r, pj_start = start, pj_end = stop,
                 pj_status = ''upcoming'', pj_raised = ''0'', pj_participants = 0, pj_website = cq_website r,
                 pj_whitepaper = cq_whitepaper r, pj_logo = cq_logo r, pj_created_by = creator, pj_created_at = now\<rparr>
        in (s\<lparr>lp_projects := AList.update new_id p (lp_projects s),
              lp_allocations := AList.update new_id [] (lp_allocations s)\<rparr>, Inr p))"

definition update_project_status :: "string \<Rightarrow> string \<Rightarrow> launchpad \<Rightarrow> launchpad \<times> (string + unit)" where
  "update_project_status i status s =
     (case map_of (lp_projects s) i of
        None \<Rightarrow> (s, Inl ''project not found'')
      | Some p \<Rightarrow> (s\<lparr>lp_projects := AList.update i (p\<lparr>pj_status := status\<rparr>) (lp_projects s)\<rparr>, Inr ()))"

definition project_allocations :: "string \<Rightarrow> launchpad \<Rightarrow> lp_allocation list" where
  "project_allocations i s = (case map_of (lp_allocations s) i of None \<Rightarrow> [] | Some as \<Rightarrow> as)"

text \<open>The checks of \<open>Participate\<close> before anything is written: the amount as a rational.\<close>

definition check_purchase :: "time \<Rightarrow> lp_project \<Rightarrow> string \<Rightarrow> string + rat" where
  "check_purchase now p amount =
     (if pj_status p \<noteq> ''active'' then Inl ''project is not active''
      else if now < pj_start p then Inl ''project has not started yet''
      else if pj_end p < now then Inl ''project has ended''
      else (case parse_decimal amount of
        None \<Rightarrow> Inl ''invalid amount''
      | Some v \<Rightarrow>
          if v \<le> 0 then Inl ''amount must be positive''
          else (case parse_decimal (pj_min p) of
            None \<Rightarrow> Inl ''project minimum purchase is invalid''
          | Some lo \<Rightarrow>
          (case parse_decimal (pj_max p) of
            None \<Rightarrow> Inl ''project maximum purchase is invalid''
          | Some hi \<Rightarrow>
              if v < lo then Inl ''amount below minimum purchase''
              else if hi < v then Inl ''amount exceeds maximum purchase''
              else Inr v))))"

text \<open>The writes, in their order: each later error leaves the earlier writes in place.\<close>

definition record_purchase :: "string \<Rightarrow> lp_project \<Rightarrow> lp_allocation \<Rightarrow> rat \<Rightarrow> launchpad \<Rightarrow> launchpad \<times> (string + lp_allocation)" where
  "record_purchase i p a v s =
     (let s1 = s\<lparr>lp_allocations := AList.update i (project_allocations i s @ [a]) (lp_allocations s)\<rparr> in
      case parse_decimal (pj_raised p) of
        None \<Rightarrow> (s1, Inl ''project raised amount is invalid'')
      | Some raised \<Rightarrow>
          let p1 = p\<lparr>pj_raised := format_decimal (raised + v) 8, pj_participants := pj_participants p + 1\<rparr> in
          (case parse_decimal (pj_hard_cap p) of
             None \<Rightarrow> (s1\<lparr>lp_projects := AList.update i p1 (lp_projects s)\<rparr>, Inl ''project hard cap is invalid'')
           | Some cap \<Rightarrow>
               let p2 = (if cap \<le> raised + v then p1\<lparr>pj_status := ''completed''\<rparr> else p1)
               in (s1\<lparr>lp_projects := AList.update i p2 (lp_projects s)\<rparr>, Inr a)))"

definition participate ::
  "(uuid \<Rightarrow> string) \<Rightarrow> (lp_call \<Rightarrow> bool) \<Rightarrow> (string \<times> lp_tier) list \<Rightarrow> time \<Rightarrow> time \<Rightarrow> lp_db option \<Rightarrow>
     string \<Rightarrow> string \<Rightarrow> string \<Rightarrow> launchpad \<Rightarrow> launchpad \<times> (string + lp_allocation) option" where
  "participate uuid_text fault tiers now now' db user i amount s =
     (case map_of (lp_projects s) i of
        None \<Rightarrow> (s, Some (Inl ''project not found''))
      | Some p \<Rightarrow>
     (case check_purchase now p amount of
        Inl e \<Rightarrow> (s, Some (Inl e))
      | Inr v \<Rightarrow>
     (case determine_tier uuid_text fault tiers now' db user of
        None \<Rightarrow> (s, None)
      | Some tier \<Rightarrow>
          let a = \<lparr>la_user = user, la_amount = amount, la_claimed_amount = ''0'', la_claimed_at = None,
                   la_tier = tier, la_status = ''pending''\<rparr>;
              (s', r) = record_purchase i p a v s
          in (s', Some r))))"

fun update_first :: "('a \<Rightarrow> bool) \<Rightarrow> ('a \<Rightarrow> 'a) \<Rightarrow> 'a list \<Rightarrow> 'a list" where
  "update_first P f [] = []"
| "update_first P f (x # xs) = (if P x then f x # xs else x # update_first P f xs)"

text \<open>\<open>ClaimTokens\<close> looks at the caller's first allocation only.\<close>

definition claim_tokens :: "time \<Rightarrow> time \<Rightarrow> string \<Rightarrow> string \<Rightarrow> launchpad \<Rightarrow> launchpad \<times> (string + string)" where
  "claim_tokens now now' user i s =
     (case map_of (lp_projects s) i of
        None \<Rightarrow> (s, Inl ''project not found'')
      | Some p \<Rightarrow>
     (case find (\<lambda>a. la_user a = user) (project_allocations i s) of
        None \<Rightarrow> (s, Inl ''no allocation found'')
      | Some a \<Rightarrow>
          if la_status a = ''claimed'' then (s, Inl ''tokens already claimed'')
          else if now < pj_end p then (s, Inl ''claim not available yet'')
          else (case parse_decimal (pj_price p) of
            None \<Rightarrow> (s, Inl ''project token price is invalid'')
          | Some price \<Rightarrow>
              if price \<le> 0 then (s, Inl ''project token price must be positive'')
              else (case parse_decimal (la_amount a) of
                None \<Rightarrow> (s, Inl ''allocation amount is invalid'')
              | Some payment \<Rightarrow>
                  let claimed = format_decimal (payment / price) 8 in
                  (s\<lparr>lp_allocations := AList.update i
                       (update_first (\<lambda>b. la_user b = user)
                          (\<lambda>b. b\<lparr>la_claimed_amount := claimed, la_claimed_at := Some now', la_status := ''claimed''\<rparr>)
                          (project_allocations i s)) (lp_allocations s)\<rparr>, Inr claimed)))))"

definition get_project :: "string \<Rightarrow> launchpad \<Rightarrow> string + lp_project" where
  "get_project i s = (case map_of (lp_projects s) i of None \<Rightarrow> Inl ''project not found'' | Some p \<Rightarrow> Inr p)"

definition get_projects :: "string \<Rightarrow> launchpad \<Rightarrow> lp_project list" where
  "get_projects status s = filter (\<lambda>p. status = [] \<or> pj_status p = status) (map snd (lp_projects s))"

definition get_user_allocation :: "string \<Rightarrow> string \<Rightarrow> launchpad \<Rightarrow> string + lp_allocation" where
  "get_user_allocation user i s =
     (case find (\<lambda>a. la_user a = user) (project_allocations i s) of
        None \<Rightarrow> Inl ''no allocation found''
      | Some a \<Rightarrow> Inr a)"

section \<open>Handlers\<close>

definition caller_wallet ::
  "(string \<Rightarrow> bool) \<Rightarrow> (uuid \<Rightarrow> string) \<Rightarrow> (lp_call \<Rightarrow> bool) \<Rightarrow> string \<Rightarrow> lp_db option \<Rightarrow> (nat \<times> string) + string" where
  "caller_wallet is_hex uuid_text fault user db =
     (if user = [] then Inl (401, ''Authenticated session required'')
      else (case db of
        None \<Rightarrow> Inl (503, ''launchpad store not configured'')
      | Some d \<Rightarrow>
          (case (if fault Find_caller then None else find (\<lambda>(i, _). uuid_text i = user) (ld_users d)) of
             None \<Rightarrow> Inl (403, ''no wallet is bound to this account'')
           | Some (_, wallet) \<Rightarrow>
               if \<not> is_hex wallet then Inl (403, ''account has no usable wallet address'')
               else Inr (to_lower wallet))))"

definition bind_project :: "create_project_req option \<Rightarrow> create_project_req option" where
  "bind_project body =
     (case body of
        None \<Rightarrow> None
      | Some r \<Rightarrow> if cq_name r = [] \<or> cq_token r = [] \<or> cq_symbol r = [] \<or> cq_token_name r = [] \<or> cq_total_supply r = []
                    \<or> cq_price r = [] \<or> cq_payment_token r = [] \<or> cq_start r = [] \<or> cq_end r = [] then None else Some r)"

definition create_project_handler ::
  "(string \<Rightarrow> time option) \<Rightarrow> (string \<Rightarrow> bool) \<Rightarrow> (uuid \<Rightarrow> string) \<Rightarrow> (lp_call \<Rightarrow> bool) \<Rightarrow> string \<Rightarrow> time \<Rightarrow>
     lp_db option \<Rightarrow> string \<Rightarrow> create_project_req option \<Rightarrow> launchpad \<Rightarrow> launchpad \<times> lp_project reply" where
  "create_project_handler parse_time is_hex uuid_text fault new_id now db user body s =
     (case bind_project body of
        None \<Rightarrow> (s, Bad_binding)
      | Some r \<Rightarrow>
     (case caller_wallet is_hex uuid_text fault user db of
        Inl (n, e) \<Rightarrow> (s, Error_reply n e)
      | Inr creator \<Rightarrow>
     (case parse_time (cq_start r) of
        None \<Rightarrow> (s, Error_reply 400 ''start_time must be RFC3339'')
      | Some start \<Rightarrow>
     (case parse_time (cq_end r) of
        None \<Rightarrow> (s, Error_reply 400 ''end_time must be RFC3339'')
      | Some stop \<Rightarrow>
     (case create_project new_id now creator r start stop s of
        (s', Inl e) \<Rightarrow> (s', Error_reply 500 e)
      | (s', Inr p) \<Rightarrow> (s', Ok_reply 200 p))))))"

definition valid_launchpad_statuses :: "string list" where
  "valid_launchpad_statuses = [''upcoming'', ''active'', ''completed'', ''cancelled'']"

definition update_status_handler :: "string \<Rightarrow> string option \<Rightarrow> launchpad \<Rightarrow> launchpad \<times> string reply" where
  "update_status_handler i body s =
     (case body of
        None \<Rightarrow> (s, Bad_binding)
      | Some status \<Rightarrow>
          if status = [] then (s, Bad_binding)
          else if status \<notin> set valid_launchpad_statuses then (s, Error_reply 400 ''unsupported launchpad status'')
          else (case update_project_status i status s of
                  (s', Inl e) \<Rightarrow> (s', Error_reply 404 e)
                | (s', Inr _) \<Rightarrow> (s', Ok_reply 200 status)))"

definition get_projects_handler :: "string \<Rightarrow> launchpad \<Rightarrow> (lp_project list \<times> nat) reply" where
  "get_projects_handler status s = Ok_reply 200 (get_projects status s, length (get_projects status s))"

definition get_project_handler :: "string \<Rightarrow> launchpad \<Rightarrow> lp_project reply" where
  "get_project_handler i s = (case get_project i s of Inl e \<Rightarrow> Error_reply 404 e | Inr p \<Rightarrow> Ok_reply 200 p)"

definition participate_handler ::
  "(string \<Rightarrow> bool) \<Rightarrow> (uuid \<Rightarrow> string) \<Rightarrow> (lp_call \<Rightarrow> bool) \<Rightarrow> (string \<times> lp_tier) list \<Rightarrow> time \<Rightarrow> time \<Rightarrow> lp_db option \<Rightarrow>
     string \<Rightarrow> string \<Rightarrow> string option \<Rightarrow> launchpad \<Rightarrow> launchpad \<times> lp_allocation reply option" where
  "participate_handler is_hex uuid_text fault tiers now now' db user i body s =
     (case body of
        None \<Rightarrow> (s, Some Bad_binding)
      | Some amount \<Rightarrow>
          if amount = [] then (s, Some Bad_binding)
          else (case caller_wallet is_hex uuid_text fault user db of
            Inl (n, e) \<Rightarrow> (s, Some (Error_reply n e))
          | Inr wallet \<Rightarrow>
              (case participate uuid_text fault tiers now now' db wallet i amount s of
                 (s', None) \<Rightarrow> (s', None)
               | (s', Some (Inl e)) \<Rightarrow> (s', Some (Error_reply 500 e))
               | (s', Some (Inr a)) \<Rightarrow> (s', Some (Ok_reply 200 a)))))"

definition claim_tokens_handler ::
  "(string \<Rightarrow> bool) \<Rightarrow> (uuid \<Rightarrow> string) \<Rightarrow> (lp_call \<Rightarrow> bool) \<Rightarrow> time \<Rightarrow> time \<Rightarrow> lp_db option \<Rightarrow>
     string \<Rightarrow> string \<Rightarrow> launchpad \<Rightarrow> launchpad \<times> string reply" where
  "claim_tokens_handler is_hex uuid_text fault now now' db user i s =
     (case caller_wallet is_hex uuid_text fault user db of
        Inl (n, e) \<Rightarrow> (s, Error_reply n e)
      | Inr wallet \<Rightarrow>
          (case claim_tokens now now' wallet i s of
             (s', Inl e) \<Rightarrow> (s', Error_reply 500 e)
           | (s', Inr claimed) \<Rightarrow> (s', Ok_reply 200 claimed)))"

end
