(* ===== verification/Go_Duration.thy ===== *)
theory Go_Duration
  imports Go_Float
begin

text \<open>
  Durations in seconds. \<open>Duration.Seconds\<close> goes through two roundings of \<open>float64\<close>; the integer part of
  its result is the number of whole seconds or, after rounding up, one more, and it is exact and
  monotone where the services rely on it.
\<close>

definition seconds_rat :: "int64 \<Rightarrow> rat" where
  "seconds_rat d = round_mag (of_int (d div 1000000000) + round_mag (of_int (d mod 1000000000) / 1000000000))"

lemma fraction_bounds: "round_mag (of_int (d mod 1000000000) / 1000000000) \<le> 1"
proof -
  have "d mod 1000000000 \<le> (1000000000 :: int)" by (simp add: order_less_imp_le)
  then have "(of_int (d mod 1000000000) :: rat) \<le> of_int 1000000000" by (simp only: of_int_le_iff)
  then have "of_int (d mod 1000000000) / 1000000000 \<le> (of_int 1 :: rat)" by simp
  from round_mag_mono [OF this] show ?thesis using round_mag_of_int [of 1] by simp
qed

lemma seconds_rat_mono:
  assumes "d \<le> d'"
  shows "seconds_rat d \<le> seconds_rat d'"
proof -
  have "d div 1000000000 \<le> d' div 1000000000" using assms by (simp add: zdiv_mono1)
  then consider "d div 1000000000 = d' div 1000000000" | "d div 1000000000 + 1 \<le> d' div 1000000000" by linarith
  then show ?thesis
  proof cases
    case 1
    then have "d mod 1000000000 \<le> d' mod 1000000000"
      using assms div_mult_mod_eq [of d 1000000000] div_mult_mod_eq [of d' 1000000000] by linarith
    then have "(of_int (d mod 1000000000) :: rat) / 1000000000 \<le> of_int (d' mod 1000000000) / 1000000000"
      by (simp add: divide_right_mono)
    from round_mag_mono [OF this] show ?thesis unfolding seconds_rat_def 1 by (intro round_mag_mono) simp
  next
    case 2
    then have "(of_int (d div 1000000000) :: rat) + 1 \<le> of_int (d' div 1000000000)" by (metis of_int_1 of_int_add of_int_le_iff)
    then show ?thesis unfolding seconds_rat_def
      using fraction_bounds [of d] round_mag_ge_0 [of "of_int (d' mod 1000000000) / 1000000000"]
      by (intro round_mag_mono) linarith
  qed
qed

lemma seconds_rat_bounds:
  assumes "0 \<le> d" "d \<le> max_int64"
  shows "of_int (d div 1000000000) \<le> seconds_rat d" "seconds_rat d \<le> of_int (d div 1000000000 + 1)"
proof -
  have s: "0 \<le> d div 1000000000" "d div 1000000000 + 1 \<le> 2 ^ 53"
    using assms by (simp_all add: pos_imp_zdiv_nonneg_iff max_int64_def)
  have "round_mag (of_int (d div 1000000000)) \<le> seconds_rat d"
    unfolding seconds_rat_def by (rule round_mag_mono) simp
  then show "of_int (d div 1000000000) \<le> seconds_rat d" using round_mag_of_int [of "d div 1000000000"] s by simp
  have "seconds_rat d \<le> round_mag (of_int (d div 1000000000 + 1))"
    unfolding seconds_rat_def by (rule round_mag_mono) (use fraction_bounds in simp)
  then show "seconds_rat d \<le> of_int (d div 1000000000 + 1)"
    using round_mag_of_int [of "d div 1000000000 + 1"] s by simp
qed

lemma duration_seconds_nonneg:
  assumes d: "0 \<le> d" "d \<le> max_int64"
  shows "duration_seconds d = Fin False (seconds_rat d)"
proof -
  have s: "0 \<le> d div 1000000000" "d div 1000000000 + 1 \<le> 2 ^ 53"
    using d by (simp_all add: pos_imp_zdiv_nonneg_iff max_int64_def)
  have m: "0 \<le> d mod 1000000000" "d mod 1000000000 \<le> 2 ^ 53"
    using pos_mod_bound [of 1000000000 d] pos_mod_sign [of 1000000000 d] by simp_all
  have q: "quo d 1000000000 = d div 1000000000" "rem_trunc d 1000000000 = d mod 1000000000"
    using d by (simp_all add: quo_nonneg rem_trunc_def minus_mult_div_eq_mod)
  let ?f = "round_mag (of_int (d mod 1000000000) / 1000000000)"
  have big: "\<not> pow2 1024 \<le> (x :: rat)" if "x \<le> 18446744073709551616" for x using pow2_1024_gt [OF that] .
  have f: "f64_div (f64_of_int (d mod 1000000000)) (f64_of_int 1000000000) = Fin False ?f"
    using big [of ?f] fraction_bounds [of d] by (simp add: f64_of_int_exact [OF m] f64_round_def Let_def)
  have "seconds_rat d \<le> of_int (2 ^ 53)"
    using seconds_rat_bounds(2) [OF d] s(2) by (meson of_int_le_iff order_trans)
  then have r: "\<not> pow2 1024 \<le> seconds_rat d" by (intro big) (simp add: order_trans)
  have nn: "0 \<le> of_int (d div 1000000000) + ?f" using s(1) by simp
  have sx: "f64_of_int (d div 1000000000) = Fin False (of_int (d div 1000000000))"
    using s by (intro f64_of_int_exact) simp_all
  show ?thesis
  proof (cases "of_int (d div 1000000000) + ?f = 0")
    case True
    then show ?thesis by (simp add: duration_seconds_def q f sx seconds_rat_def del: f64_of_int_numeral)
  next
    case False
    with nn r show ?thesis
      by (simp add: duration_seconds_def q f sx f64_of_rat_def f64_round_def Let_def seconds_rat_def
          del: f64_of_int_numeral)
  qed
qed

definition whole_seconds :: "int64 \<Rightarrow> int" where
  "whole_seconds d = f64_to_int64 (duration_seconds d)"

lemma whole_seconds_floor:
  assumes "0 \<le> d" "d \<le> max_int64"
  shows "whole_seconds d = \<lfloor>seconds_rat d\<rfloor>" "d div 1000000000 \<le> whole_seconds d"
    "whole_seconds d \<le> d div 1000000000 + 1"
proof -
  have b: "d div 1000000000 \<le> \<lfloor>seconds_rat d\<rfloor>" "\<lfloor>seconds_rat d\<rfloor> \<le> d div 1000000000 + 1"
    using seconds_rat_bounds [OF assms] by (simp_all add: le_floor_iff floor_le_iff)
  have "0 \<le> d div 1000000000" "d div 1000000000 + 1 \<le> max_int64"
    using assms by (simp_all add: pos_imp_zdiv_nonneg_iff max_int64_def)
  with b have l: "0 \<le> \<lfloor>seconds_rat d\<rfloor>" "\<lfloor>seconds_rat d\<rfloor> \<le> max_int64" by linarith+
  have "in_int64 \<lfloor>seconds_rat d\<rfloor>"
    by (rule in_int64_between [OF _ _ l]) (simp_all add: in_int64_def min_int64_def max_int64_def)
  then show w: "whole_seconds d = \<lfloor>seconds_rat d\<rfloor>"
    by (simp add: whole_seconds_def duration_seconds_nonneg [OF assms])
  with b show "d div 1000000000 \<le> whole_seconds d" "whole_seconds d \<le> d div 1000000000 + 1" by simp_all
qed

lemma whole_seconds_mono: "0 \<le> d \<Longrightarrow> d \<le> d' \<Longrightarrow> d' \<le> max_int64 \<Longrightarrow> whole_seconds d \<le> whole_seconds d'"
  using whole_seconds_floor(1) [of d] whole_seconds_floor(1) [of d'] seconds_rat_mono [of d d'] by (simp add: floor_mono)

lemma time_sub_id: "in_int64 (t - u) \<Longrightarrow> time_sub t u = t - u"
  by (simp add: time_sub_def in_int64_def)

lemma whole_seconds_exact:
  assumes "0 \<le> n" "n * 1000000000 \<le> max_int64"
  shows "f64_to_int64 (duration_seconds (n * 1000000000)) = n"
proof -
  have "n \<le> 2 ^ 53" using assms by (simp add: max_int64_def)
  then have "seconds_rat (n * 1000000000) = of_int n"
    using assms(1) by (simp add: seconds_rat_def round_mag_of_int)
  then show ?thesis using whole_seconds_floor(1) [of "n * 1000000000"] assms by (simp add: whole_seconds_def)
qed

end
