(* ===== verification/Governance_Votes.thy ===== *)
theory Governance_Votes
  imports Governance_Props
begin

text \<open>
  Gauge totals as an invariant of the governance service: for requests served one at a time every
  gauge's recorded total is the sum of the votes for it, a user has at most one vote per gauge,
  every lock is proper, and no handler panics. The runs at the end show what concurrency and the
  bribe's snapshot do to these promises.
\<close>

section \<open>Requests served one at a time\<close>

inductive gov_step :: "gov_db \<Rightarrow> gov_db \<Rightarrow> bool" where
  lock: "create_lock fault i now0 now user body d d = (d', r) \<Longrightarrow> gov_step d d'"
| withdraw: "withdraw_lock pu fault now user raw d d = (d', r') \<Longrightarrow> gov_step d d'"
| gauge: "create_gauge fault i gbody d = (d', gr) \<Longrightarrow> gov_step d d'"
| weigh: "set_gauge_weight pu fault raw wbody d = (d', wr) \<Longrightarrow> gov_step d d'"
| vote: "vote pu fault i now user vbody d d = (d', vr) \<Longrightarrow> gov_step d d'"
| bribe: "add_bribe pu fault i now user bbody d d = (d', br) \<Longrightarrow> gov_step d d'"
| claim: "claim_bribe pu fault user raw d d = (d', cr) \<Longrightarrow> gov_step d d'"

section \<open>The invariant\<close>

definition vote_key :: "gauge_vote \<Rightarrow> string \<times> uuid" where
  "vote_key v = (gv_user v, gv_gauge v)"

definition vote_on :: "uuid \<Rightarrow> gauge_vote \<Rightarrow> int" where
  "vote_on g v = (if gv_gauge v = g then stored_amount (gv_weight v) else 0)"

definition votes_on :: "uuid \<Rightarrow> gov_db \<Rightarrow> int" where
  "votes_on g d = (\<Sum>x\<leftarrow>gd_votes d. vote_on g (snd x))"

definition vote_of :: "string \<Rightarrow> gauge_vote \<Rightarrow> int" where
  "vote_of user v = (if gv_user v = user then stored_amount (gv_weight v) else 0)"

definition votes_of :: "string \<Rightarrow> gov_db \<Rightarrow> int" where
  "votes_of user d = (\<Sum>x\<leftarrow>gd_votes d. vote_of user (snd x))"

definition votes_ok :: "gov_db \<Rightarrow> bool" where
  "votes_ok d \<longleftrightarrow> distinct (map fst (gd_votes d)) \<and> distinct (map (\<lambda>x. vote_key (snd x)) (gd_votes d))
     \<and> (\<forall>x \<in> set (gd_votes d). gv_gauge (snd x) \<in> fst ` set (gd_gauges d)
          \<and> (\<exists>w. parse_int (gv_weight (snd x)) = Some w \<and> 0 \<le> w))"

definition totals_ok :: "gov_db \<Rightarrow> bool" where
  "totals_ok d \<longleftrightarrow> distinct (map fst (gd_gauges d))
     \<and> (\<forall>x \<in> set (gd_gauges d). stored_amount (ga_total_voted (snd x)) = votes_on (fst x) d)"

definition locks_ok :: "gov_db \<Rightarrow> bool" where
  "locks_ok d \<longleftrightarrow> distinct (map fst (gd_locks d)) \<and> (\<forall>x \<in> set (gd_locks d). proper_lock (snd x))"

definition gov_ok :: "gov_db \<Rightarrow> bool" where
  "gov_ok d \<longleftrightarrow> votes_ok d \<and> totals_ok d \<and> locks_ok d"

section \<open>The tally\<close>

lemma tally_total:
  "fst (tally_votes g vs (t, p)) = t + (\<Sum>x\<leftarrow>vs. if gv_gauge (snd x) = g then 0 else stored_amount (gv_weight (snd x)))"
  by (induction vs arbitrary: t p) (auto simp: stored_amount_def split: option.split)

lemma tally_none: "\<forall>x \<in> set vs. gv_gauge (snd x) \<noteq> g \<Longrightarrow> snd (tally_votes g vs (t, p)) = p"
  by (induction vs arbitrary: t p) (auto split: option.split)

lemma tally_previous:
  assumes "(i, v) \<in> set vs" "gv_gauge v = g" "parse_int (gv_weight v) = Some w"
    and "distinct (map (\<lambda>x. gv_gauge (snd x)) vs)"
  shows "snd (tally_votes g vs (t, p)) = Some w"
  using assms
proof (induction vs arbitrary: t p)
  case (Cons y vs)
  show ?case
  proof (cases "y = (i, v)")
    case True
    with Cons.prems have "\<forall>x \<in> set vs. gv_gauge (snd x) \<noteq> g" by force
    with True Cons.prems show ?thesis by (simp add: tally_none)
  next
    case False
    with Cons.prems have m: "(i, v) \<in> set vs" by auto
    have d: "distinct (map (\<lambda>x. gv_gauge (snd x)) vs)" using Cons.prems(4) by simp
    show ?thesis using Cons.IH [OF m Cons.prems(2,3) d] by (cases y) (auto split: option.split)
  qed
qed simp

lemma own_votes_distinct:
  assumes "distinct (map (\<lambda>x. vote_key (snd x)) vs)"
  shows "distinct (map (\<lambda>x. gv_gauge (snd x)) (filter (\<lambda>(_, v). gv_user v = user) vs))"
  using assms by (induction vs) (auto simp: vote_key_def image_iff)

lemma find_vote_Some:
  "find_vote user g d = Some (i, v) \<Longrightarrow> (i, v) \<in> set (gd_votes d) \<and> gv_user v = user \<and> gv_gauge v = g"
  by (auto simp: find_vote_def dest: find_SomeD)

lemma find_vote_None:
  "find_vote user g d = None \<Longrightarrow> (i, v) \<in> set (gd_votes d) \<Longrightarrow> gv_user v = user \<Longrightarrow> gv_gauge v \<noteq> g"
  using find_NoneD [of _ "gd_votes d" "(i, v)"] by (auto simp: find_vote_def)

text \<open>What the tally finds for the gauge is the user's recorded vote.\<close>

lemma tally_find:
  assumes ok: "votes_ok d" and p: "tally_votes g (filter (\<lambda>(_, v). gv_user v = user) (gd_votes d)) (w, None) = (tot, previous)"
  shows "previous = (case find_vote user g d of None \<Rightarrow> None | Some (_, v) \<Rightarrow> Some (stored_amount (gv_weight v)))"
proof -
  have prev: "previous = snd (tally_votes g (filter (\<lambda>(_, v). gv_user v = user) (gd_votes d)) (w, None))" by (simp add: p)
  show ?thesis
  proof (cases "find_vote user g d")
    case None
    then show ?thesis unfolding prev using find_vote_None [OF None] by (subst tally_none) auto
  next
    case (Some x)
    obtain i v where x: "x = (i, v)" by (cases x)
    note f = find_vote_Some [OF Some [unfolded x]]
    obtain u where u: "parse_int (gv_weight v) = Some u" using ok f by (force simp: votes_ok_def)
    have "previous = Some u" unfolding prev
      by (rule tally_previous [of i v]) (use f u ok in \<open>auto simp: votes_ok_def own_votes_distinct\<close>)
    with u Some x show ?thesis by (simp add: stored_amount_def)
  qed
qed

section \<open>A vote\<close>

lemma distinct_key_insert:
  "distinct (map (\<lambda>x. h (snd x)) (insert_row i r t)) \<longleftrightarrow> h r \<notin> (\<lambda>x. h (snd x)) ` set t \<and> distinct (map (\<lambda>x. h (snd x)) t)"
  unfolding insert_row_def by (induction t) (auto simp: set_insort_key)

lemma update_row_distinct: "distinct (map fst t) \<Longrightarrow> distinct (map fst (AList.update k v t))"
  by (rule distinct_update)

lemma gauges_fst: "map_of t g = Some c \<Longrightarrow> fst ` set (AList.update g c' t) = fst ` set t"
  using map_of_known [of t g c] by (simp add: dom_update insert_absorb)

text \<open>The row that the transaction writes, as an update or as an insertion.\<close>

lemma vote_tx_cases:
  assumes r: "vote_tx fault new_id user g w previous d = Some d'"
  obtains c where "map_of (gd_gauges d) g = Some c"
    and "gd_gauges d' = AList.update g (c\<lparr>ga_total_voted := int_string (max 0
          (stored_amount (ga_total_voted c) - (case previous of None \<Rightarrow> 0 | Some p \<Rightarrow> p) + w))\<rparr>) (gd_gauges d)"
    and "gd_locks d' = gd_locks d"
    and "(\<exists>i v. find_vote user g d = Some (i, v)
            \<and> gd_votes d' = AList.update i (v\<lparr>gv_weight := int_string w\<rparr>) (gd_votes d))
       \<or> (find_vote user g d = None \<and> new_id \<notin> fst ` set (gd_votes d)
            \<and> gd_votes d' = insert_row new_id \<lparr>gv_user = user, gv_gauge = g, gv_weight = int_string w\<rparr> (gd_votes d))"
proof -
  obtain c where c: "map_of (gd_gauges d) g = Some c"
    using r by (auto simp: vote_tx_def split: if_splits option.splits)
  have f: "find_vote user g (d\<lparr>gd_gauges := x\<rparr>) = find_vote user g d" for x by (simp add: find_vote_def)
  let ?t = "stored_amount (ga_total_voted c) - (case previous of None \<Rightarrow> 0 | Some p \<Rightarrow> p) + w"
  have t: "(if (case previous of None \<Rightarrow> stored_amount (ga_total_voted c) | Some p \<Rightarrow> stored_amount (ga_total_voted c) - p) + w < 0
      then 0 else (case previous of None \<Rightarrow> stored_amount (ga_total_voted c) | Some p \<Rightarrow> stored_amount (ga_total_voted c) - p) + w)
    = max 0 ?t" by (auto split: option.split)
  show thesis
  proof (rule that [OF c])
    show "gd_gauges d' = AList.update g (c\<lparr>ga_total_voted := int_string (max 0 ?t)\<rparr>) (gd_gauges d)"
      using r c by (auto simp: vote_tx_def Let_def stored_parse t f split: if_split_asm option.split_asm)
    show "gd_locks d' = gd_locks d"
      using r c by (auto simp: vote_tx_def Let_def split: if_split_asm option.split_asm)
    show "(\<exists>i v. find_vote user g d = Some (i, v)
            \<and> gd_votes d' = AList.update i (v\<lparr>gv_weight := int_string w\<rparr>) (gd_votes d))
       \<or> (find_vote user g d = None \<and> new_id \<notin> fst ` set (gd_votes d)
            \<and> gd_votes d' = insert_row new_id \<lparr>gv_user = user, gv_gauge = g, gv_weight = int_string w\<rparr> (gd_votes d))"
      using r c by (auto simp: vote_tx_def Let_def f split: if_split_asm option.split_asm)
  qed
qed

text \<open>The effect of that row on every sum of votes.\<close>

lemma vote_tx_effect:
  assumes ok: "votes_ok d" and r: "vote_tx fault new_id user g w previous d = Some d'" and w: "0 \<le> w"
    and prev: "previous = (case find_vote user g d of None \<Rightarrow> None | Some (_, v) \<Rightarrow> Some (stored_amount (gv_weight v)))"
  shows "votes_ok d'"
    and "votes_on h d' = votes_on h d + (if h = g then w - (case previous of None \<Rightarrow> 0 | Some p \<Rightarrow> p) else 0)"
    and "votes_of u d' = votes_of u d + (if u = user then w - (case previous of None \<Rightarrow> 0 | Some p \<Rightarrow> p) else 0)"
proof -
  obtain c where c: "map_of (gd_gauges d) g = Some c"
    and g': "gd_gauges d' = AList.update g (c\<lparr>ga_total_voted := int_string (max 0
          (stored_amount (ga_total_voted c) - (case previous of None \<Rightarrow> 0 | Some p \<Rightarrow> p) + w))\<rparr>) (gd_gauges d)"
    and v': "(\<exists>i v. find_vote user g d = Some (i, v)
            \<and> gd_votes d' = AList.update i (v\<lparr>gv_weight := int_string w\<rparr>) (gd_votes d))
       \<or> (find_vote user g d = None \<and> new_id \<notin> fst ` set (gd_votes d)
            \<and> gd_votes d' = insert_row new_id \<lparr>gv_user = user, gv_gauge = g, gv_weight = int_string w\<rparr> (gd_votes d))"
    by (rule vote_tx_cases [OF r])
  have ids: "fst ` set (gd_gauges d') = fst ` set (gd_gauges d)" unfolding g' by (rule gauges_fst [OF c])
  have dist: "distinct (map fst (gd_votes d))" and keys: "distinct (map (\<lambda>x. vote_key (snd x)) (gd_votes d))"
    and rows: "\<And>x. x \<in> set (gd_votes d) \<Longrightarrow> gv_gauge (snd x) \<in> fst ` set (gd_gauges d)
          \<and> (\<exists>w. parse_int (gv_weight (snd x)) = Some w \<and> 0 \<le> w)"
    using ok unfolding votes_ok_def by blast+
  have g: "g \<in> fst ` set (gd_gauges d)" by (rule map_of_known [OF c])
  have "votes_ok d' \<and> votes_on h d' = votes_on h d + (if h = g then w - (case previous of None \<Rightarrow> 0 | Some p \<Rightarrow> p) else 0)
    \<and> votes_of u d' = votes_of u d + (if u = user then w - (case previous of None \<Rightarrow> 0 | Some p \<Rightarrow> p) else 0)"
    using v'
  proof (elim disjE exE conjE)
    fix i v
    assume f: "find_vote user g d = Some (i, v)" and v: "gd_votes d' = AList.update i (v\<lparr>gv_weight := int_string w\<rparr>) (gd_votes d)"
    note m = find_vote_Some [OF f]
    have mo: "map_of (gd_votes d) i = Some v" using m dist by simp
    have pr: "(case previous of None \<Rightarrow> 0 | Some p \<Rightarrow> p) = stored_amount (gv_weight v)" by (simp add: prev f)
    have "votes_ok d'" unfolding votes_ok_def ids
      using dist keys rows g w update_map_same [OF mo, of vote_key "v\<lparr>gv_weight := int_string w\<rparr>"] m
      by (auto simp: v distinct_update set_alist_update [OF dist] vote_key_def)
    moreover have "votes_on h d' = votes_on h d - vote_on h v + vote_on h (v\<lparr>gv_weight := int_string w\<rparr>)"
      "votes_of u d' = votes_of u d - vote_of u v + vote_of u (v\<lparr>gv_weight := int_string w\<rparr>)"
      unfolding votes_on_def votes_of_def v by (rule sum_update_known [OF dist mo])+
    ultimately show ?thesis using m pr by (auto simp: vote_on_def vote_of_def)
  next
    assume f: "find_vote user g d = None" and new: "new_id \<notin> fst ` set (gd_votes d)"
      and v: "gd_votes d' = insert_row new_id \<lparr>gv_user = user, gv_gauge = g, gv_weight = int_string w\<rparr> (gd_votes d)"
    have pr: "(case previous of None \<Rightarrow> 0 | Some p \<Rightarrow> p) = 0" by (simp add: prev f)
    have fresh: "(user, g) \<notin> (\<lambda>x. vote_key (snd x)) ` set (gd_votes d)"
      using find_vote_None [OF f] by (force simp: vote_key_def)
    have "distinct (map (\<lambda>x. vote_key (snd x)) (gd_votes d'))"
      unfolding v distinct_key_insert [of vote_key] using keys fresh by (simp add: vote_key_def)
    then have "votes_ok d'" unfolding votes_ok_def ids
      using dist rows g w new by (auto simp: v distinct_insert_row set_insert_row)
    then show ?thesis
      unfolding votes_on_def votes_of_def v sum_insert_row pr by (auto simp: vote_on_def vote_of_def)
  qed
  then show "votes_ok d'"
    and "votes_on h d' = votes_on h d + (if h = g then w - (case previous of None \<Rightarrow> 0 | Some p \<Rightarrow> p) else 0)"
    and "votes_of u d' = votes_of u d + (if u = user then w - (case previous of None \<Rightarrow> 0 | Some p \<Rightarrow> p) else 0)"
    by blast+
qed

section \<open>Every handler\<close>

lemma vote_success:
  assumes ok: "votes_ok d" and v: "vote pu fault i now user body d d = (d', r)" and ne: "d' \<noteq> d"
  obtains g w previous vp tot where
    "r = Some (Ok_reply 200 (w, current_epoch now, vp))" "0 \<le> w"
    "vote_tx fault i user g w previous d = Some d'"
    "tally_votes g (filter (\<lambda>(_, v). gv_user v = user) (gd_votes d)) (w, None) = (tot, previous)" "tot \<le> vp"
    "previous = (case find_vote user g d of None \<Rightarrow> None | Some (_, v) \<Rightarrow> Some (stored_amount (gv_weight v)))"
proof -
  obtain g w previous vp tot where p: "r = Some (Ok_reply 200 (w, current_epoch now, vp))"
    "0 \<le> w" "vote_tx fault i user g w previous d = Some d'"
    "tally_votes g (filter (\<lambda>(_, v). gv_user v = user) (gd_votes d)) (w, None) = (tot, previous)" "tot \<le> vp"
    using v ne unfolding vote_def
    by (auto simp: parse_amount_or_zero_def Let_def
        split: if_split_asm option.split_asm sum.split_asm prod.split_asm)
  from that [OF p tally_find [OF ok p(4)]] show thesis .
qed

lemma vote_keeps:
  assumes ok: "gov_ok d" and v: "vote pu fault i now user body d d = (d', r)"
  shows "gov_ok d'"
proof (cases "d' = d")
  case False
  have vok: "votes_ok d" and tok: "totals_ok d" and lok: "locks_ok d" using ok by (simp_all add: gov_ok_def)
  obtain g w previous where w: "0 \<le> w" and tx: "vote_tx fault i user g w previous d = Some d'"
    and prev: "previous = (case find_vote user g d of None \<Rightarrow> None | Some (_, v) \<Rightarrow> Some (stored_amount (gv_weight v)))"
    by (rule vote_success [OF vok v False]) blast
  note e = vote_tx_effect [OF vok tx w prev]
  let ?p = "case previous of None \<Rightarrow> 0 | Some p \<Rightarrow> p"
  obtain c where c: "map_of (gd_gauges d) g = Some c"
    and g': "gd_gauges d' = AList.update g (c\<lparr>ga_total_voted := int_string (max 0 (stored_amount (ga_total_voted c) - ?p + w))\<rparr>) (gd_gauges d)"
    and l': "gd_locks d' = gd_locks d"
    by (rule vote_tx_cases [OF tx]) blast
  have dg: "distinct (map fst (gd_gauges d))" using tok by (simp add: totals_ok_def)
  have tc: "stored_amount (ga_total_voted c) = votes_on g d"
    using tok map_of_SomeD [OF c] by (force simp: totals_ok_def)
  have "0 \<le> vote_on g (snd x)" if x: "x \<in> set (gd_votes d')" for x
  proof -
    obtain u where "parse_int (gv_weight (snd x)) = Some u" "0 \<le> u" using e(1) x unfolding votes_ok_def by blast
    then show ?thesis by (simp add: vote_on_def stored_amount_def)
  qed
  then have "0 \<le> votes_on g d'" unfolding votes_on_def by (rule sum_list_ge_0_int)
  then have mx: "max 0 (stored_amount (ga_total_voted c) - ?p + w) = votes_on g d'"
    using e(2) [of g] tc by simp
  have "stored_amount (ga_total_voted (snd x)) = votes_on (fst x) d'" if x: "x \<in> set (gd_gauges d')" for x
  proof (cases "fst x = g")
    case True
    with x mx show ?thesis by (auto simp: g' set_alist_update [OF dg])
  next
    case False
    then have "x \<in> set (gd_gauges d)" using x by (auto simp: g' set_alist_update [OF dg])
    then show ?thesis using tok False e(2) [of "fst x"] by (simp add: totals_ok_def)
  qed
  then have "totals_ok d'" using dg by (simp add: totals_ok_def g' distinct_update)
  with e(1) lok l' show ?thesis by (simp add: gov_ok_def locks_ok_def)
qed (use ok in simp)

lemma votes_on_cong: "gd_votes d' = gd_votes d \<Longrightarrow> votes_on g d' = votes_on g d"
  by (simp add: votes_on_def)

lemma gov_ok_same:
  "gov_ok d \<Longrightarrow> gd_votes d' = gd_votes d \<Longrightarrow> gd_gauges d' = gd_gauges d \<Longrightarrow> locks_ok d' \<Longrightarrow> gov_ok d'"
  by (simp add: gov_ok_def votes_ok_def totals_ok_def votes_on_def)

lemma new_lock_proper:
  assumes "0 < amount" "min_lock_seconds \<le> secs" "secs \<le> max_lock_seconds"
  shows "proper_lock (new_lock user amount secs now)"
proof -
  have "wrap64 (secs * 1000000000) = secs * 1000000000"
    using assms by (intro wrap64_id) (simp add: in_int64_def min_int64_def max_int64_def
        min_lock_seconds_def max_lock_seconds_def week_seconds_def)
  then show ?thesis using assms by (simp add: proper_lock_def new_lock_def)
qed

lemma create_lock_proper:
  assumes "create_lock fault i now0 now user body d0 d = (d', r)" and "d' \<noteq> d"
  shows "\<exists>amount secs. d' = d\<lparr>gd_locks := insert_row i (new_lock user amount secs now) (gd_locks d)\<rparr>
    \<and> r = map_option (\<lambda>p. Ok_reply 201 (new_lock user amount secs now, p)) (voting_power (new_lock user amount secs now) now)
    \<and> proper_lock (new_lock user amount secs now) \<and> i \<notin> fst ` set (gd_locks d)"
  using assms unfolding create_lock_def
  by (auto simp: parse_amount_def Let_def not_le not_less
      split: if_split_asm option.split_asm sum.split_asm prod.split_asm)
    (intro exI conjI, rule refl, rule refl, simp add: new_lock_proper)

lemma locks_ok_insert: "locks_ok d \<Longrightarrow> proper_lock l \<Longrightarrow> i \<notin> fst ` set (gd_locks d)
    \<Longrightarrow> locks_ok (d\<lparr>gd_locks := insert_row i l (gd_locks d)\<rparr>)"
  by (auto simp: locks_ok_def distinct_insert_row set_insert_row)

lemma proper_withdrawn: "proper_lock l \<Longrightarrow> proper_lock (l\<lparr>vl_withdrawn := True\<rparr>)"
  by (simp add: proper_lock_def)

lemma withdraw_keeps:
  assumes ok: "gov_ok d" and w: "withdraw_lock pu fault now user raw d d = (d', r)"
  shows "gov_ok d'"
proof (cases "d' = d")
  case False
  then obtain i l where l: "map_of (gd_locks d) i = Some l"
    and d': "d' = d\<lparr>gd_locks := AList.update i (l\<lparr>vl_withdrawn := True\<rparr>) (gd_locks d)\<rparr>"
    using w unfolding withdraw_lock_def by (auto split: if_split_asm option.split_asm)
  have dl: "distinct (map fst (gd_locks d))" and "proper_lock l"
    using ok map_of_SomeD [OF l] by (auto simp: gov_ok_def locks_ok_def)
  then have "locks_ok d'" using ok
    by (auto simp: d' gov_ok_def locks_ok_def distinct_update set_alist_update [OF dl] proper_withdrawn)
  then show ?thesis by (rule gov_ok_same [OF ok, rotated 2]) (simp_all add: d')
qed (use ok in simp)

text \<open>A gauge row whose recorded total is kept, or a new one with total zero.\<close>

lemma create_gauge_keeps:
  assumes ok: "gov_ok d" and c: "create_gauge fault i body d = (d', r)"
  shows "gov_ok d'"
proof (cases "d' = d")
  case False
  then have "\<exists>g. d' = d\<lparr>gd_gauges := insert_row i g (gd_gauges d)\<rparr> \<and> ga_total_voted g = ''0'' \<and> i \<notin> fst ` set (gd_gauges d)"
    using c unfolding create_gauge_def
    by (auto simp: Let_def split: if_split_asm option.split_asm prod.split_asm)
  then obtain g where i: "i \<notin> fst ` set (gd_gauges d)" and z: "ga_total_voted g = ''0''"
    and d': "d' = d\<lparr>gd_gauges := insert_row i g (gd_gauges d)\<rparr>" by blast
  have vok: "votes_ok d" and tok: "totals_ok d" and lok: "locks_ok d" using ok by (simp_all add: gov_ok_def)
  have "vote_on i (snd x) = 0" if "x \<in> set (gd_votes d)" for x
    using vok i that by (auto simp: votes_ok_def vote_on_def)
  then have "votes_on i d = 0" unfolding votes_on_def by (simp add: sum_list_eq_0_iff cong: map_cong)
  moreover have v: "votes_on h d' = votes_on h d" for h by (rule votes_on_cong) (simp add: d')
  ultimately have "totals_ok d'"
    using tok i z by (auto simp: totals_ok_def v) (auto simp: d' distinct_insert_row set_insert_row)
  moreover have "votes_ok d'" using vok by (auto simp: votes_ok_def d' set_insert_row)
  ultimately show ?thesis using lok by (simp add: gov_ok_def locks_ok_def d')
qed (use ok in simp)

lemma weigh_keeps:
  assumes ok: "gov_ok d" and c: "set_gauge_weight pu fault raw body d = (d', r)"
  shows "gov_ok d'"
proof (cases "d' = d")
  case False
  then have "\<exists>i g g'. d' = d\<lparr>gd_gauges := AList.update i g' (gd_gauges d)\<rparr>
      \<and> map_of (gd_gauges d) i = Some g \<and> ga_total_voted g' = ga_total_voted g"
    using c unfolding set_gauge_weight_def
    by (auto split: if_split_asm option.split_asm prod.split_asm sum.split_asm)
      (intro exI conjI, rule refl, assumption, simp)+
  then obtain i g g' where g: "map_of (gd_gauges d) i = Some g" "ga_total_voted g' = ga_total_voted g"
    and d': "d' = d\<lparr>gd_gauges := AList.update i g' (gd_gauges d)\<rparr>" by blast
  have vok: "votes_ok d" and tok: "totals_ok d" and lok: "locks_ok d" using ok by (simp_all add: gov_ok_def)
  have dg: "distinct (map fst (gd_gauges d))" using tok by (simp add: totals_ok_def)
  have v: "votes_on h d' = votes_on h d" for h by (rule votes_on_cong) (simp add: d')
  have "totals_ok d'" using tok g map_of_SomeD [OF g(1)]
    by (auto simp: totals_ok_def v) (auto simp: d' distinct_update set_alist_update [OF dg])
  moreover have "votes_ok d'" using vok gauges_fst [OF g(1), of g'] by (simp add: votes_ok_def d')
  ultimately show ?thesis using lok by (simp add: gov_ok_def locks_ok_def d')
qed (use ok in simp)

lemma gov_ok_frame:
  "gov_ok d \<Longrightarrow> gd_votes d' = gd_votes d \<and> gd_gauges d' = gd_gauges d \<and> gd_locks d' = gd_locks d \<Longrightarrow> gov_ok d'"
  by (rule gov_ok_same) (auto simp: gov_ok_def locks_ok_def)

lemma add_bribe_frame: "add_bribe pu fault i now user body d0 d = (d', r)
    \<Longrightarrow> gd_votes d' = gd_votes d \<and> gd_gauges d' = gd_gauges d \<and> gd_locks d' = gd_locks d"
  unfolding add_bribe_def by (auto simp: Let_def split: if_split_asm option.split_asm prod.split_asm sum.split_asm)

lemma claim_bribe_frame: "claim_bribe pu fault user raw d0 d = (d', r)
    \<Longrightarrow> gd_votes d' = gd_votes d \<and> gd_gauges d' = gd_gauges d \<and> gd_locks d' = gd_locks d"
  unfolding claim_bribe_def by (auto split: if_split_asm option.split_asm prod.split_asm)

lemma gov_step_keeps:
  assumes "gov_step d d'" and ok: "gov_ok d"
  shows "gov_ok d'"
  using assms(1)
proof (cases rule: gov_step.cases)
  case (lock fault i now0 now user body r)
  show ?thesis
  proof (cases "d' = d")
    case False
    from create_lock_proper [OF lock False] obtain l
      where l: "d' = d\<lparr>gd_locks := insert_row i l (gd_locks d)\<rparr>" "proper_lock l" "i \<notin> fst ` set (gd_locks d)" by blast
    have "locks_ok d'" unfolding l(1) using ok l by (intro locks_ok_insert) (simp_all add: gov_ok_def)
    then show ?thesis by (rule gov_ok_same [OF ok, rotated 2]) (simp_all add: l(1))
  qed (use ok in simp)
next
  case withdraw
  from withdraw_keeps [OF ok this] show ?thesis .
next
  case gauge
  from create_gauge_keeps [OF ok this] show ?thesis .
next
  case weigh
  from weigh_keeps [OF ok this] show ?thesis .
next
  case vote
  from vote_keeps [OF ok this] show ?thesis .
next
  case bribe
  from gov_ok_frame [OF ok add_bribe_frame [OF this]] show ?thesis .
next
  case claim
  from gov_ok_frame [OF ok claim_bribe_frame [OF this]] show ?thesis .
qed

section \<open>Claims\<close>

lemma gov_steps_keep: "gov_step\<^sup>*\<^sup>* d d' \<Longrightarrow> gov_ok d \<Longrightarrow> gov_ok d'"
  by (induction rule: rtranclp_induct) (auto intro: gov_step_keeps)

text \<open>C17: gauge totals are exact. Requests served one at a time, in any order and with any database
  failures, keep every gauge's recorded total equal to the sum of the votes for it, and a user has
  at most one vote per gauge.\<close>

theorem gauge_totals_are_exact:
  assumes "gov_step\<^sup>*\<^sup>* d d'" and "gov_ok d"
  shows "(\<forall>(g, x) \<in> set (gd_gauges d'). stored_amount (ga_total_voted x) = votes_on g d')
    \<and> distinct (map (\<lambda>x. vote_key (snd x)) (gd_votes d'))"
  using gov_steps_keep [OF assms] by (auto simp: gov_ok_def totals_ok_def votes_ok_def)

lemma find_filter: "find P (filter Q xs) = find (\<lambda>x. Q x \<and> P x) xs"
  by (induction xs) auto

lemma sum_one_gauge:
  assumes "distinct (map (\<lambda>x. gv_gauge (snd x)) vs)"
  shows "(\<Sum>x\<leftarrow>vs. vote_on g (snd x))
    = (case find (\<lambda>(_, v). gv_gauge v = g) vs of None \<Rightarrow> 0 | Some (_, v) \<Rightarrow> stored_amount (gv_weight v))"
  using assms
proof (induction vs)
  case (Cons y vs)
  have "vote_on (gv_gauge (snd y)) (snd x) = 0" if "x \<in> set vs" for x
    using Cons.prems that by (auto simp: vote_on_def dest: image_eqI [OF sym])
  then have z: "(\<Sum>x\<leftarrow>vs. vote_on (gv_gauge (snd y)) (snd x)) = 0" by (simp cong: map_cong)
  show ?case
  proof (cases "gv_gauge (snd y) = g")
    case True
    with z show ?thesis by (cases y) (auto simp: vote_on_def)
  next
    case False
    with Cons show ?thesis by (cases y) (simp add: vote_on_def)
  qed
qed simp

lemma votes_of_split:
  assumes "votes_ok d"
  shows "votes_of user d = (\<Sum>x\<leftarrow>filter (\<lambda>(_, v). gv_user v = user) (gd_votes d).
      if gv_gauge (snd x) = g then 0 else stored_amount (gv_weight (snd x)))
    + (case find_vote user g d of None \<Rightarrow> 0 | Some (_, v) \<Rightarrow> stored_amount (gv_weight v))"
proof -
  let ?vs = "filter (\<lambda>(_, v). gv_user v = user) (gd_votes d)"
  have "(\<Sum>x\<leftarrow>xs. vote_of user (snd x)) = (\<Sum>x\<leftarrow>filter (\<lambda>(_, v). gv_user v = user) xs.
      (if gv_gauge (snd x) = g then 0 else stored_amount (gv_weight (snd x))) + vote_on g (snd x))" for xs
    by (induction xs) (auto simp: vote_of_def vote_on_def)
  then have "votes_of user d = (\<Sum>x\<leftarrow>?vs. (if gv_gauge (snd x) = g then 0 else stored_amount (gv_weight (snd x))) + vote_on g (snd x))"
    by (simp add: votes_of_def)
  also have "\<dots> = (\<Sum>x\<leftarrow>?vs. if gv_gauge (snd x) = g then 0 else stored_amount (gv_weight (snd x))) + (\<Sum>x\<leftarrow>?vs. vote_on g (snd x))"
    by (rule sum_list_addf)
  also have "(\<Sum>x\<leftarrow>?vs. vote_on g (snd x)) = (case find_vote user g d of None \<Rightarrow> 0 | Some (_, v) \<Rightarrow> stored_amount (gv_weight v))"
    using assms sum_one_gauge [OF own_votes_distinct, of "gd_votes d" g user]
    by (simp add: votes_ok_def find_filter find_vote_def case_prod_unfold)
  finally show ?thesis .
qed

text \<open>A vote that is recorded leaves the caller's weights, summed over all gauges, within the
  voting power computed for the request, and nobody else's votes change.\<close>

theorem vote_stays_within_power:
  assumes "gov_ok d" and "vote pu fault i now user body d d = (d', Some (Ok_reply n (w, ep, vp)))" and "d' \<noteq> d"
  shows "votes_of user d' \<le> vp \<and> (\<forall>u. u \<noteq> user \<longrightarrow> votes_of u d' = votes_of u d)"
proof -
  have ok: "votes_ok d" using assms(1) by (simp add: gov_ok_def)
  obtain g previous tot where p: "0 \<le> w" "vote_tx fault i user g w previous d = Some d'"
    "tally_votes g (filter (\<lambda>(_, v). gv_user v = user) (gd_votes d)) (w, None) = (tot, previous)" "tot \<le> vp"
    "previous = (case find_vote user g d of None \<Rightarrow> None | Some (_, v) \<Rightarrow> Some (stored_amount (gv_weight v)))"
    by (rule vote_success [OF ok assms(2,3)]) auto
  note e = vote_tx_effect(3) [OF ok p(2,1,5)]
  have pv: "(case previous of None \<Rightarrow> 0 | Some p \<Rightarrow> p)
      = (case find_vote user g d of None \<Rightarrow> 0 | Some (_, v) \<Rightarrow> stored_amount (gv_weight v))"
    by (auto simp: p(5) split: option.split)
  have "tot = w + (\<Sum>x\<leftarrow>filter (\<lambda>(_, v). gv_user v = user) (gd_votes d).
      if gv_gauge (snd x) = g then 0 else stored_amount (gv_weight (snd x)))"
    using tally_total [of g "filter (\<lambda>(_, v). gv_user v = user) (gd_votes d)" w None] p(3) by simp
  then have "votes_of user d' = tot" using e [of user] votes_of_split [OF ok, of user g] pv by simp
  with p(4) e show ?thesis by simp
qed

lemma sum_power_total: "\<forall>x \<in> set ls. proper_lock (snd x) \<Longrightarrow> sum_power now ls \<noteq> None"
  using voting_power_total by (induction now ls rule: sum_power.induct) (auto split: option.split)

lemma lock_views_total: "\<forall>x \<in> set ls. proper_lock (snd x) \<Longrightarrow> lock_views now ls \<noteq> None"
  using voting_power_total by (induction now ls rule: lock_views.induct) (auto split: option.split)

lemma total_power_total: "gov_ok d \<Longrightarrow> total_voting_power fault user now d \<noteq> None"
  by (auto simp: total_voting_power_def gov_ok_def locks_ok_def open_locks_of_def simp del: not_None_eq
      intro!: sum_power_total)

text \<open>No handler panics. In every state of a service that started consistent, each request gets
  a reply: the division of the voting power never has a zero divisor.\<close>

theorem governance_never_panics:
  assumes "gov_ok d"
  shows "snd (create_lock fault i now0 now user lbody d d) \<noteq> None
    \<and> get_locks fault now user d \<noteq> None
    \<and> snd (vote pu fault i now user vbody d d) \<noteq> None
    \<and> get_boost fault now user raw d \<noteq> None
    \<and> boost_bps fault now user staked d \<noteq> None"
proof (intro conjI)
  note tp = total_power_total [OF assms, of fault user now]
  show "snd (create_lock fault i now0 now user lbody d d) \<noteq> None"
    using voting_power_total [OF new_lock_proper]
    by (auto simp: create_lock_def parse_amount_def Let_def not_le not_less split: option.split sum.split prod.split)
  show "get_locks fault now user d \<noteq> None"
  proof -
    have "\<forall>x \<in> set (filter (\<lambda>(_, l). vl_user l = user) (gd_locks d)). proper_lock (snd x)"
      using assms by (auto simp: gov_ok_def locks_ok_def)
    from lock_views_total [OF this, of now] tp show ?thesis by (auto simp: get_locks_def split: option.split)
  qed
  show "snd (vote pu fault i now user vbody d d) \<noteq> None"
    using tp by (auto simp: vote_def split: option.split sum.split prod.split)
  show "get_boost fault now user raw d \<noteq> None" "boost_bps fault now user staked d \<noteq> None"
    using tp by (auto simp: get_boost_def boost_bps_def Let_def split: option.split sum.split)
qed

lemma sum_power_nonneg:
  assumes "\<forall>x \<in> set ls. proper_lock (snd x) \<and> vl_start (snd x) \<le> now" and "sum_power now ls = Some p"
  shows "0 \<le> p"
  using assms
proof (induction now ls arbitrary: p rule: sum_power.induct)
  case (2 now i l ls)
  have "\<exists>q. voting_power l now = Some q \<and> 0 \<le> q"
    using 2(2) voting_power_formula [of l now] proper_lock_span [of l] whole_seconds_floor(2) [of "vl_unlock l - now"]
      whole_seconds_floor(2) [of "vl_unlock l - vl_start l"]
    by (auto simp: proper_lock_def stored_amount_def pos_imp_zdiv_nonneg_iff)
  then show ?case using 2 by (auto split: option.splits)
qed simp

text \<open>The handler and its library form compute the same boost. For a positive staked amount
  \<open>GetBoost\<close> answers exactly the basis points of \<open>BoostBps\<close>, between one and two and a half times.\<close>

theorem boost_handler_agrees:
  assumes "gov_ok d" and "\<forall>(i, l) \<in> set (gd_locks d). vl_start l \<le> now"
    and "user \<noteq> []" and "parse_amount raw = Inr n"
  shows "\<exists>vp b. total_voting_power fault user now d = Some vp \<and> boost_bps fault now user (Some n) d = Some b
    \<and> get_boost fault now user raw d = Some (Ok_reply 200 (vp, n, b, format_bps b))
    \<and> min_boost_bps \<le> b \<and> b \<le> max_boost_bps"
proof -
  obtain vp where vp: "total_voting_power fault user now d = Some vp" using total_power_total [OF assms(1)] by blast
  have n: "0 < n" using assms(4) by (auto simp: parse_amount_def Let_def split: if_splits option.splits)
  have "\<forall>x \<in> set (open_locks_of user d). proper_lock (snd x) \<and> vl_start (snd x) \<le> now"
    using assms(1,2) by (auto simp: open_locks_of_def gov_ok_def locks_ok_def)
  from sum_power_nonneg [OF this] vp have "0 \<le> vp" by (simp add: total_voting_power_def split: if_splits)
  then have "0 \<le> ediv (15000 * vp) n" using n by (simp add: pos_imp_zdiv_nonneg_iff)
  with vp n assms(3,4) show ?thesis
    by (simp add: boost_bps_def get_boost_def Let_def min_boost_bps_def max_boost_bps_def)
qed

section \<open>Runs\<close>

definition eg_pool :: "string \<Rightarrow> gauge" where
  "eg_pool voted = \<lparr>ga_name = ''TGR-USDT'', ga_type = ''pool'', ga_reference = [], ga_weight = ''0'',
     ga_total_voted = voted, ga_active = True\<rparr>"

definition eg_uuid :: "string \<Rightarrow> uuid option" where
  "eg_uuid s = map_option nat (parse_int s)"

text \<open>Alice has locked 1000 for one week at time zero, and voted 10 for gauge 7.\<close>

definition eg_gov :: gov_db where
  "eg_gov = \<lparr>gd_locks = [(1, new_lock ''alice'' 1000 604800 0)],
     gd_gauges = [(7, eg_pool ''10''), (8, eg_pool ''0'')],
     gd_votes = [(3, \<lparr>gv_user = ''alice'', gv_gauge = 7, gv_weight = ''10''\<rparr>)], gd_bribes = [], gd_claims = []\<rparr>"

lemma eg_texts [simp]: "eg_uuid ''7'' = Some 7" "eg_uuid ''8'' = Some 8" "eg_uuid ''5'' = Some 5"
  "parse_amount_or_zero ''20'' = Inr 20" "parse_amount_or_zero ''1000'' = Inr 1000" "parse_amount_or_zero ''990'' = Inr 990"
  "parse_amount ''500'' = Inr 500" "parse_int ''10'' = Some 10" "parse_int ''20'' = Some 20" "parse_int ''0'' = Some 0"
  "parse_int ''1000'' = Some 1000" "parse_int ''100'' = Some 100"
  "int_string 20 = ''20''" "int_string 1000 = ''1000''" "int_string 10 = ''10''" "int_string 100 = ''100''"
  "int_string 30 = ''30''" "int_string 990 = ''990''"
  by code_simp+

lemma eg_lock_proper: "proper_lock (new_lock ''alice'' 1000 604800 0)"
  by (rule new_lock_proper) (simp_all add: min_lock_seconds_def week_seconds_def max_lock_seconds_def)

lemma eg_power: "voting_power (new_lock ''alice'' 1000 604800 0) 0 = Some 1000"
  using voting_power_formula [OF eg_lock_proper, of 0] proper_lock_span [OF eg_lock_proper]
  by (simp add: new_lock_def stored_amount_def)

lemma eg_gov_ok: "gov_ok eg_gov"
  using eg_lock_proper
  by (simp add: gov_ok_def locks_ok_def votes_ok_def totals_ok_def votes_on_def vote_on_def vote_key_def
      stored_amount_def eg_gov_def eg_pool_def)

lemma eg_total_power: "total_voting_power (\<lambda>_. False) ''alice'' 0 eg_gov = Some 1000"
proof -
  have "open_locks_of ''alice'' eg_gov = [(1, new_lock ''alice'' 1000 604800 0)]"
    by (simp add: open_locks_of_def eg_gov_def new_lock_def)
  then show ?thesis by (simp add: total_voting_power_def eg_power)
qed

definition eg_voted :: gov_db where
  "eg_voted = eg_gov\<lparr>gd_gauges := [(7, eg_pool ''10''), (8, eg_pool ''990'')],
     gd_votes := [(3, \<lparr>gv_user = ''alice'', gv_gauge = 7, gv_weight = ''10''\<rparr>),
                  (9, \<lparr>gv_user = ''alice'', gv_gauge = 8, gv_weight = ''990''\<rparr>)]\<rparr>"

lemma eg_vote: "vote eg_uuid (\<lambda>_. False) 9 0 ''alice'' (Some (''8'', ''990'')) eg_gov eg_gov
    = (eg_voted, Some (Ok_reply 200 (990, 0, 1000)))"
  unfolding vote_def
  by (simp add: eg_total_power)
    (simp add: eg_gov_def eg_voted_def eg_pool_def active_gauge_def vote_tx_def find_vote_def insert_row_def
      current_epoch_def week_seconds_def)

theorem voting_power_decays_witness:
  "\<exists>q. voting_power (new_lock ''alice'' 1000 604800 0) 604800000000000 = Some q \<and> q = 0"
  using voting_power_decays [OF eg_lock_proper, of 0 604800000000000] by (auto simp: new_lock_def)

theorem gauge_totals_witness:
  "(8, eg_pool ''990'') \<in> set (gd_gauges eg_voted) \<and> stored_amount (ga_total_voted (eg_pool ''990'')) = votes_on 8 eg_voted"
proof -
  have m: "(8, eg_pool ''990'') \<in> set (gd_gauges eg_voted)" by (simp add: eg_voted_def)
  from gauge_totals_are_exact [OF r_into_rtranclp [of gov_step, OF gov_step.vote [OF eg_vote]] eg_gov_ok] m
  show ?thesis by blast
qed

theorem vote_stays_within_power_witness: "votes_of ''alice'' eg_voted \<le> 1000"
proof -
  have "eg_voted \<noteq> eg_gov" by (simp add: eg_voted_def eg_gov_def)
  from vote_stays_within_power [OF eg_gov_ok eg_vote this] show ?thesis by blast
qed

theorem governance_never_panics_witness:
  "snd (vote eg_uuid (\<lambda>_. False) 9 0 ''alice'' (Some (''8'', ''990'')) eg_gov eg_gov) \<noteq> None"
  using governance_never_panics [OF eg_gov_ok] by blast

theorem boost_handler_agrees_witness:
  "\<exists>vp b. get_boost (\<lambda>_. False) 0 ''alice'' ''500'' eg_gov = Some (Ok_reply 200 (vp, 500, b, format_bps b)) \<and> b \<le> max_boost_bps"
proof -
  have "\<forall>(i, l) \<in> set (gd_locks eg_gov). vl_start l \<le> 0" by (simp add: eg_gov_def new_lock_def)
  from boost_handler_agrees [OF eg_gov_ok this, of "''alice''" "''500''" 500 "\<lambda>_. False"] show ?thesis by auto
qed

definition eg_state :: "string \<Rightarrow> string \<Rightarrow> string \<Rightarrow> gov_db" where
  "eg_state voted7 weight7 voted8 = \<lparr>gd_locks = [(1, new_lock ''alice'' 1000 604800 0)],
     gd_gauges = [(7, eg_pool voted7), (8, eg_pool voted8)],
     gd_votes = (3, \<lparr>gv_user = ''alice'', gv_gauge = 7, gv_weight = weight7\<rparr>) #
       (if voted8 = ''0'' then [] else [(9, \<lparr>gv_user = ''alice'', gv_gauge = 8, gv_weight = voted8\<rparr>)]),
     gd_bribes = [], gd_claims = []\<rparr>"

lemma eg_states: "eg_gov = eg_state ''10'' ''10'' ''0''" "eg_voted = eg_state ''10'' ''10'' ''990''"
  by (simp_all add: eg_gov_def eg_voted_def eg_state_def)

lemmas eg_vote_defs = eg_gov_def eg_voted_def eg_state_def eg_pool_def active_gauge_def vote_tx_def find_vote_def
  insert_row_def current_epoch_def week_seconds_def

text \<open>Concurrent votes break both promises. Alice, whose power is 1000, sends two votes that both
  read the database before either writes: both are recorded, and her weights add up to 1990. When
  she changes one vote from 10 to 20 twice concurrently, the recorded total is 30 for votes of 20.\<close>

theorem concurrent_votes_break_the_totals:
  "vote eg_uuid (\<lambda>_. False) 9 0 ''alice'' (Some (''8'', ''990'')) eg_gov eg_gov
      = (eg_state ''10'' ''10'' ''990'', Some (Ok_reply 200 (990, 0, 1000)))
    \<and> vote eg_uuid (\<lambda>_. False) 4 0 ''alice'' (Some (''7'', ''1000'')) eg_gov (eg_state ''10'' ''10'' ''990'')
      = (eg_state ''1000'' ''1000'' ''990'', Some (Ok_reply 200 (1000, 0, 1000)))
    \<and> votes_of ''alice'' (eg_state ''1000'' ''1000'' ''990'') = 1990
    \<and> vote eg_uuid (\<lambda>_. False) 4 0 ''alice'' (Some (''7'', ''20'')) eg_gov eg_gov
      = (eg_state ''20'' ''20'' ''0'', Some (Ok_reply 200 (20, 0, 1000)))
    \<and> vote eg_uuid (\<lambda>_. False) 4 0 ''alice'' (Some (''7'', ''20'')) eg_gov (eg_state ''20'' ''20'' ''0'')
      = (eg_state ''30'' ''20'' ''0'', Some (Ok_reply 200 (20, 0, 1000)))
    \<and> votes_on 7 (eg_state ''30'' ''20'' ''0'') = 20"
proof (intro conjI)
  show "votes_of ''alice'' (eg_state ''1000'' ''1000'' ''990'') = 1990" "votes_on 7 (eg_state ''30'' ''20'' ''0'') = 20"
    by (code_simp, code_simp)
qed (unfold vote_def, simp_all add: eg_total_power, simp_all add: eg_vote_defs)

text \<open>C36: a bribe can pay out more than was funded. The share divides the caller's live vote by the
  weight recorded at funding time: after a bribe of 100 on a gauge with 10 votes, Alice raises her
  own vote to 1000 and one claim is granted 10000.\<close>

definition eg_bribe :: bribe where
  "eg_bribe = \<lparr>br_gauge = 7, br_epoch = 0, br_token = ''TGR'', br_amount = ''100'', br_total_weight = ''10'', br_funder = ''bob''\<rparr>"

theorem bribe_pays_more_than_funded:
  "add_bribe eg_uuid (\<lambda>_. False) 5 0 ''bob'' (Some (''7'', ''tgr'', ''100'')) eg_gov eg_gov
      = (eg_gov\<lparr>gd_bribes := [(5, eg_bribe)]\<rparr>, Some (Ok_reply 201 eg_bribe))
    \<and> vote eg_uuid (\<lambda>_. False) 4 0 ''alice'' (Some (''7'', ''1000'')) (eg_gov\<lparr>gd_bribes := [(5, eg_bribe)]\<rparr>) (eg_gov\<lparr>gd_bribes := [(5, eg_bribe)]\<rparr>)
      = ((eg_state ''1000'' ''1000'' ''0'')\<lparr>gd_bribes := [(5, eg_bribe)]\<rparr>, Some (Ok_reply 200 (1000, 0, 1000)))
    \<and> snd (claim_bribe eg_uuid (\<lambda>_. False) ''alice'' ''5''
        ((eg_state ''1000'' ''1000'' ''0'')\<lparr>gd_bribes := [(5, eg_bribe)]\<rparr>)
        ((eg_state ''1000'' ''1000'' ''0'')\<lparr>gd_bribes := [(5, eg_bribe)]\<rparr>))
      = Some (Ok_reply 200 (''TGR'', 10000))"
proof (intro conjI)
  have tp: "total_voting_power (\<lambda>_. False) ''alice'' 0 (eg_gov\<lparr>gd_bribes := b\<rparr>) = Some 1000" for b
    using eg_total_power by (simp add: total_voting_power_def open_locks_of_def)
  show "add_bribe eg_uuid (\<lambda>_. False) 5 0 ''bob'' (Some (''7'', ''tgr'', ''100'')) eg_gov eg_gov
      = (eg_gov\<lparr>gd_bribes := [(5, eg_bribe)]\<rparr>, Some (Ok_reply 201 eg_bribe))"
    by code_simp
  show "vote eg_uuid (\<lambda>_. False) 4 0 ''alice'' (Some (''7'', ''1000'')) (eg_gov\<lparr>gd_bribes := [(5, eg_bribe)]\<rparr>) (eg_gov\<lparr>gd_bribes := [(5, eg_bribe)]\<rparr>)
      = ((eg_state ''1000'' ''1000'' ''0'')\<lparr>gd_bribes := [(5, eg_bribe)]\<rparr>, Some (Ok_reply 200 (1000, 0, 1000)))"
    unfolding vote_def by (simp add: tp) (simp add: eg_vote_defs)
  show "snd (claim_bribe eg_uuid (\<lambda>_. False) ''alice'' ''5''
        ((eg_state ''1000'' ''1000'' ''0'')\<lparr>gd_bribes := [(5, eg_bribe)]\<rparr>)
        ((eg_state ''1000'' ''1000'' ''0'')\<lparr>gd_bribes := [(5, eg_bribe)]\<rparr>))
      = Some (Ok_reply 200 (''TGR'', 10000))"
    by (simp add: claim_bribe_def eg_vote_defs eg_bribe_def bribe_share_def)
qed

end
