(* ===== verification/Launchpad_Props.thy ===== *)
theory Launchpad_Props
  imports Launchpad Governance_Votes
begin

text \<open>
  What the token sales guarantee: amounts written as text read back exactly to the written
  precision; a tier does not depend on the order in which Go ranges over the tier map; the
  recorded raise never exceeds the purchases and lags behind them by less than one unit of the
  eighth decimal per purchase; a claim is paid once. Two more results record where the code falls
  short of that: an invalid hard cap fails a purchase after it was recorded, and a second purchase
  of the same user can never be claimed.
\<close>

section \<open>Decimal text\<close>

lemma quo_quotient:
  assumes "quotient_of x = (n, d)" and "0 \<le> x"
  shows "quo n d = \<lfloor>x\<rfloor>"
proof -
  have d: "0 < d" using assms(1) by (rule quotient_of_denom_pos)
  have x: "x = of_int n / of_int d" using assms(1) by (rule quotient_of_div)
  with assms(2) d have "0 \<le> n" by (simp add: zero_le_divide_iff)
  with d show ?thesis by (simp add: quo_nonneg x floor_divide_of_int_eq)
qed

lemma digits_pad: "digits_val (replicate n (CHR ''0'') @ s) = digits_val s"
  by (simp add: digits_val_append)

lemma parse_decimal_parts:
  assumes w: "w \<noteq> []" "list_all is_digit w" and f: "f \<noteq> []" "list_all is_digit f"
  shows "parse_decimal (w @ ''.'' @ f) = Some (of_int (digits_val (w @ f)) / 10 ^ length f)"
proof -
  let ?s = "w @ CHR ''.'' # f"
  have hd: "is_digit (hd ?s)" using w by (cases w) simp_all
  have last: "is_digit (last ?s)" using f by (simp add: list_all_iff)
  have t: "trim_space ?s = ?s"
    by (rule trim_space_id) (use digit_not_sign [OF hd] digit_not_sign [OF last] in auto)
  have nd: "CHR ''.'' \<notin> set w" "CHR ''.'' \<notin> set f"
    using digits_no_char [of w "CHR ''.''"] digits_no_char [of f "CHR ''.''"] w f digit_not_sign by blast+
  then have "filter (\<lambda>c. c = CHR ''.'') w = []" "filter (\<lambda>c. c = CHR ''.'') f = []"
    by (auto simp: filter_empty_conv)
  then have "filter (\<lambda>c. c = CHR ''.'') ?s = [CHR ''.'']" by simp
  with t nd show ?thesis
    using digit_not_sign [OF hd] w f by (simp add: parse_decimal_def split_once_append)
qed

lemma parse_format_decimal:
  assumes v: "0 \<le> v" and p: "0 < places"
  shows "parse_decimal (format_decimal v places) = Some (of_int \<lfloor>v * 10 ^ places\<rfloor> / 10 ^ places)"
proof -
  let ?n = "\<lfloor>v * 10 ^ places\<rfloor>"
  obtain a b where q: "quotient_of (v * 10 ^ places) = (a, b)" by fastforce
  have n: "quo a b = ?n" using quo_quotient [OF q] v by simp
  have n0: "0 \<le> ?n" using v by simp
  let ?raw = "nat_string (nat ?n)"
  define ds where "ds = (if length ?raw \<le> places then replicate (places - length ?raw + 1) (CHR ''0'') @ ?raw else ?raw)"
  have zero: "is_digit (CHR ''0'')" by (simp add: is_digit_def)
  have raw: "\<forall>c \<in> set ?raw. is_digit c" using nat_string_digits [of "nat ?n"] by (simp only: list_all_iff)
  have "digits_val ds = digits_val ?raw" unfolding ds_def by (simp only: digits_pad split: if_split) simp
  then have ds: "list_all is_digit ds" "digits_val ds = ?n" "places < length ds"
    using zero n0 raw by (auto simp: list_all_iff ds_def)
  let ?w = "take (length ds - places) ds" and ?f = "drop (length ds - places) ds"
  have fmt: "format_decimal v places = ?w @ ''.'' @ ?f"
    using n n0 by (simp add: format_decimal_def q Let_def int_string_def ds_def)
  have "list_all is_digit ?w" "list_all is_digit ?f" "?w \<noteq> []" "?f \<noteq> []" "length ?f = places"
    using ds p by (auto simp: list_all_iff dest: in_set_takeD in_set_dropD)
  then have "parse_decimal (?w @ ''.'' @ ?f) = Some (of_int (digits_val (?w @ ?f)) / 10 ^ places)"
    using parse_decimal_parts [of ?w ?f] by metis
  then show ?thesis unfolding fmt using ds(2) by (simp only: append_take_drop_id)
qed

text \<open>What is written is never more than the value, and less than one last unit below it.\<close>

lemma written_bounds:
  fixes v :: rat
  shows "of_int \<lfloor>v * 10 ^ p\<rfloor> / 10 ^ p \<le> v" and "v - of_int \<lfloor>v * 10 ^ p\<rfloor> / 10 ^ p \<le> 1 / 10 ^ p"
proof -
  have "of_int \<lfloor>v * 10 ^ p\<rfloor> \<le> v * 10 ^ p" by (rule of_int_floor_le)
  then show "of_int \<lfloor>v * 10 ^ p\<rfloor> / 10 ^ p \<le> v" by (simp add: divide_le_eq)
  have "v * 10 ^ p \<le> of_int \<lfloor>v * 10 ^ p\<rfloor> + 1" by linarith
  then have "v * 10 ^ p / 10 ^ p \<le> (of_int \<lfloor>v * 10 ^ p\<rfloor> + 1) / 10 ^ p" by (rule divide_right_mono) simp
  then show "v - of_int \<lfloor>v * 10 ^ p\<rfloor> / 10 ^ p \<le> 1 / 10 ^ p" by (simp add: add_divide_distrib)
qed

section \<open>Tiers\<close>

lemma best_tier_max:
  assumes "best_tier vp ts (b, th) = (nm, n)"
  shows "th \<le> n"
    and "\<And>k t m. (k, t) \<in> set ts \<Longrightarrow> parse_int (lt_min_stake t) = Some m \<Longrightarrow> m \<le> vp \<Longrightarrow> m \<le> n"
    and "(nm, n) = (b, th) \<or> (\<exists>t. (nm, t) \<in> set ts \<and> parse_int (lt_min_stake t) = Some n \<and> n \<le> vp)"
proof -
  have "th \<le> n
    \<and> (\<forall>k t m. (k, t) \<in> set ts \<longrightarrow> parse_int (lt_min_stake t) = Some m \<longrightarrow> m \<le> vp \<longrightarrow> m \<le> n)
    \<and> ((nm, n) = (b, th) \<or> (\<exists>t. (nm, t) \<in> set ts \<and> parse_int (lt_min_stake t) = Some n \<and> n \<le> vp))"
    using assms
  proof (induction ts arbitrary: b th)
    case (Cons y ts)
    obtain k t where y: "y = (k, t)" by (cases y)
    show ?case
    proof (cases "\<exists>m. parse_int (lt_min_stake t) = Some m \<and> m \<le> vp \<and> th < m")
      case True
      then obtain m where m: "parse_int (lt_min_stake t) = Some m" "m \<le> vp" "th < m" by blast
      with Cons.prems y have "best_tier vp ts (k, m) = (nm, n)" by simp
      note ih = Cons.IH [OF this]
      have "th \<le> n" "m \<le> n" using ih m(3) by auto
      with ih m y show ?thesis by auto
    next
      case False
      with Cons.prems y have "best_tier vp ts (b, th) = (nm, n)" by (auto split: option.splits if_splits)
      note ih = Cons.IH [OF this]
      have "\<And>m. parse_int (lt_min_stake t) = Some m \<Longrightarrow> m \<le> vp \<Longrightarrow> m \<le> n" using False ih by force
      with ih y show ?thesis by auto
    qed
  qed simp
  then show "th \<le> n" and "\<And>k t m. (k, t) \<in> set ts \<Longrightarrow> parse_int (lt_min_stake t) = Some m \<Longrightarrow> m \<le> vp \<Longrightarrow> m \<le> n"
    and "(nm, n) = (b, th) \<or> (\<exists>t. (nm, t) \<in> set ts \<and> parse_int (lt_min_stake t) = Some n \<and> n \<le> vp)" by blast+
qed

definition tier_thresholds :: "(string \<times> int) set" where
  "tier_thresholds = {(''diamond'', 100000), (''platinum'', 50000), (''gold'', 10000), (''silver'', 1000), (''bronze'', 0)}"

lemma default_thresholds:
  "(\<exists>t. (nm, t) \<in> set default_tiers \<and> parse_int (lt_min_stake t) = Some n) \<longleftrightarrow>
     (nm, n) \<in> tier_thresholds"
proof -
  have "parse_int ''100000'' = Some 100000" "parse_int ''50000'' = Some 50000" "parse_int ''10000'' = Some 10000"
    "parse_int ''1000'' = Some 1000" "parse_int ''0'' = Some 0" by code_simp+
  then show ?thesis by (simp add: default_tiers_def tier_thresholds_def conj_disj_distribR ex_disj_distrib)
qed

text \<open>A tier does not depend on the order in which Go ranges over the tier map: whatever the order,
  it is the highest tier whose threshold the voting power reaches.\<close>

theorem tier_ignores_map_order:
  assumes "set ts = set default_tiers"
  shows "tier_for_power ts vp =
    (if 100000 \<le> vp then ''diamond'' else if 50000 \<le> vp then ''platinum'' else if 10000 \<le> vp then ''gold''
     else if 1000 \<le> vp then ''silver'' else ''bronze'')"
proof (cases "vp \<le> 0")
  case False
  obtain nm n where b: "best_tier vp ts (''bronze'', - 1) = (nm, n)" by fastforce
  have up: "m \<le> n" if "(k, m) \<in> tier_thresholds"
    "m \<le> vp" for k m
    using best_tier_max(2) [OF b, of k _ m] default_thresholds [of k m] assms that by blast
  have h: "100000 \<le> vp \<Longrightarrow> 100000 \<le> n" "50000 \<le> vp \<Longrightarrow> 50000 \<le> n" "10000 \<le> vp \<Longrightarrow> 10000 \<le> n"
    "1000 \<le> vp \<Longrightarrow> 1000 \<le> n" "0 \<le> n"
    using up [of "''diamond''" 100000] up [of "''platinum''" 50000] up [of "''gold''" 10000] up [of "''silver''" 1000]
      up [of "''bronze''" 0] False by (simp_all add: tier_thresholds_def)
  then have "(nm, n) \<noteq> (''bronze'', - 1)" by simp
  with best_tier_max(3) [OF b] assms obtain t where "(nm, t) \<in> set default_tiers" "parse_int (lt_min_stake t) = Some n" and n: "n \<le> vp"
    by blast
  then have "(nm, n) \<in> tier_thresholds"
    using default_thresholds [of nm n] by blast
  then have "nm = ''diamond'' \<and> n = 100000 \<or> nm = ''platinum'' \<and> n = 50000 \<or> nm = ''gold'' \<and> n = 10000
    \<or> nm = ''silver'' \<and> n = 1000 \<or> nm = ''bronze'' \<and> n = 0" by (simp add: tier_thresholds_def)
  then consider "nm = ''diamond''" "n = 100000" | "nm = ''platinum''" "n = 50000" | "nm = ''gold''" "n = 10000"
    | "nm = ''silver''" "n = 1000" | "nm = ''bronze''" "n = 0" by metis
  then show ?thesis using n h False by cases (auto simp: tier_for_power_def b)
qed (simp add: tier_for_power_def)

section \<open>The raise\<close>

definition purchase_value :: "lp_allocation \<Rightarrow> rat" where
  "purchase_value a = (case parse_decimal (la_amount a) of None \<Rightarrow> 0 | Some v \<Rightarrow> v)"

definition purchases :: "lp_allocation list \<Rightarrow> rat" where
  "purchases as = (\<Sum>a\<leftarrow>as. purchase_value a)"

definition raise_ok :: "lp_project \<Rightarrow> lp_allocation list \<Rightarrow> bool" where
  "raise_ok p as \<longleftrightarrow> (\<exists>r. parse_decimal (pj_raised p) = Some r \<and> 0 \<le> r \<and> r \<le> purchases as
     \<and> purchases as - r \<le> of_nat (length as) / 10 ^ 8 \<and> pj_participants p = int (length as))"

definition launchpad_ok :: "launchpad \<Rightarrow> bool" where
  "launchpad_ok s \<longleftrightarrow> (\<forall>i p. map_of (lp_projects s) i = Some p \<longrightarrow> raise_ok p (project_allocations i s))"

inductive launchpad_step :: "launchpad \<Rightarrow> launchpad \<Rightarrow> bool" where
  create: "create_project_handler pt hex ut fault i now db user cbody s = (s', cr) \<Longrightarrow> launchpad_step s s'"
| status: "update_status_handler i sbody s = (s', sr) \<Longrightarrow> launchpad_step s s'"
| participate: "participate_handler hex ut fault tiers now now' db user i pbody s = (s', pr) \<Longrightarrow> launchpad_step s s'"
| claim: "claim_tokens_handler hex ut fault now now' db user i s = (s', cr') \<Longrightarrow> launchpad_step s s'"

lemma allocations_update:
  "lp_allocations s' = AList.update i as (lp_allocations s) \<Longrightarrow>
     project_allocations j s' = (if j = i then as else project_allocations j s)"
  by (simp add: project_allocations_def update_conv)

lemma allocations_same: "lp_allocations s' = lp_allocations s \<Longrightarrow> project_allocations j s' = project_allocations j s"
  by (simp add: project_allocations_def)

lemma check_purchase_Inr: "check_purchase now p amount = Inr v \<Longrightarrow> parse_decimal amount = Some v \<and> 0 < v"
  by (auto simp: check_purchase_def split: if_splits option.splits)

text \<open>One purchase, recorded with or without an error, keeps the raise in step with the purchases.\<close>

lemma raise_ok_purchase:
  assumes ok: "raise_ok p as" and a: "parse_decimal (la_amount a) = Some v" "0 < v"
    and r: "parse_decimal (pj_raised p) = Some raised"
    and p': "pj_raised p' = format_decimal (raised + v) 8" "pj_participants p' = pj_participants p + 1"
  shows "raise_ok p' (as @ [a])"
proof -
  have ok': "0 \<le> raised" "raised \<le> purchases as" "purchases as - raised \<le> of_nat (length as) / 10 ^ 8"
    "pj_participants p = int (length as)"
    using ok r by (auto simp: raise_ok_def)
  let ?r = "of_int \<lfloor>(raised + v) * 10 ^ 8\<rfloor> / 10 ^ 8 :: rat"
  have parse: "parse_decimal (pj_raised p') = Some ?r"
    unfolding p'(1) by (rule parse_format_decimal) (use ok' a in auto)
  have nn: "0 \<le> ?r" using ok' a by simp
  have sum: "purchases (as @ [a]) = purchases as + v" using a by (simp add: purchases_def purchase_value_def)
  note w = written_bounds [of "raised + v" 8]
  have "of_nat (length (as @ [a])) / 10 ^ 8 = (of_nat (length as) / 10 ^ 8 + 1 / 10 ^ 8 :: rat)"
    by (simp add: add_divide_distrib)
  then have "?r \<le> purchases (as @ [a])" "purchases (as @ [a]) - ?r \<le> of_nat (length (as @ [a])) / 10 ^ 8"
    using w ok' sum by linarith+
  moreover have "pj_participants p' = int (length (as @ [a]))" using p'(2) ok'(4) by simp
  ultimately show ?thesis unfolding raise_ok_def using parse nn by blast
qed

lemma record_purchase_ok:
  assumes ok: "launchpad_ok s" and p: "map_of (lp_projects s) i = Some p"
    and a: "parse_decimal (la_amount a) = Some v" "0 < v" and r: "record_purchase i p a v s = (s', res)"
  shows "launchpad_ok s'"
proof -
  have okp: "raise_ok p (project_allocations i s)" using ok p by (simp add: launchpad_ok_def)
  then obtain raised where raised: "parse_decimal (pj_raised p) = Some raised" by (auto simp: raise_ok_def)
  have "\<exists>p'. lp_projects s' = AList.update i p' (lp_projects s)
      \<and> lp_allocations s' = AList.update i (project_allocations i s @ [a]) (lp_allocations s)
      \<and> pj_raised p' = format_decimal (raised + v) 8 \<and> pj_participants p' = pj_participants p + 1"
    using r raised by (auto simp: record_purchase_def Let_def split: option.splits if_splits)
  then obtain p' where s': "lp_projects s' = AList.update i p' (lp_projects s)"
      "lp_allocations s' = AList.update i (project_allocations i s @ [a]) (lp_allocations s)"
    and p': "pj_raised p' = format_decimal (raised + v) 8" "pj_participants p' = pj_participants p + 1" by blast
  note step = raise_ok_purchase [OF okp a raised p']
  show ?thesis using ok step
    by (simp add: launchpad_ok_def s'(1) update_conv allocations_update [OF s'(2)])
qed

lemma update_first_map: "(\<And>x. g (f x) = g x) \<Longrightarrow> map g (update_first P f xs) = map g xs"
  by (induction xs) auto

lemma raise_ok_same_amounts:
  "raise_ok p as \<Longrightarrow> map la_amount as' = map la_amount as \<Longrightarrow> raise_ok p as'"
proof -
  assume ok: "raise_ok p as" and eq: "map la_amount as' = map la_amount as"
  have "map purchase_value as' = map purchase_value as"
    using arg_cong [OF eq, of "map (\<lambda>x. case parse_decimal x of None \<Rightarrow> 0 | Some v \<Rightarrow> v)"]
    by (simp add: purchase_value_def [abs_def] o_def)
  moreover have "length as' = length as" using map_eq_imp_length_eq [OF eq] .
  ultimately show ?thesis using ok by (simp add: raise_ok_def purchases_def)
qed

lemma launchpad_step_ok:
  assumes st: "launchpad_step s s'" and ok: "launchpad_ok s"
  shows "launchpad_ok s'"
  using st
proof (cases rule: launchpad_step.cases)
  case (create pt hex ut fault i now db user cbody cr)
  have z: "parse_decimal ''0'' = Some 0" by code_simp
  show ?thesis
  proof (cases "s' = s")
    case False
    then have "\<exists>p. lp_projects s' = AList.update i p (lp_projects s) \<and> lp_allocations s' = AList.update i [] (lp_allocations s)
        \<and> pj_raised p = ''0'' \<and> pj_participants p = 0"
      using create by (auto simp: create_project_handler_def create_project_def Let_def
          split: option.splits sum.splits if_splits prod.splits)
    then obtain p where p: "lp_projects s' = AList.update i p (lp_projects s)"
      "lp_allocations s' = AList.update i [] (lp_allocations s)" "pj_raised p = ''0''" "pj_participants p = 0" by blast
    then show ?thesis using ok z
      by (simp add: launchpad_ok_def update_conv allocations_update [OF p(2)]) (simp add: raise_ok_def purchases_def)
  qed (use ok in simp)
next
  case (status i sbody sr)
  show ?thesis
  proof (cases "s' = s")
    case False
    then obtain p t where p: "map_of (lp_projects s) i = Some p"
      and s': "s' = s\<lparr>lp_projects := AList.update i (p\<lparr>pj_status := t\<rparr>) (lp_projects s)\<rparr>"
      using status by (auto simp: update_status_handler_def update_project_status_def
          split: option.splits sum.splits if_splits prod.splits)
    have "raise_ok (p\<lparr>pj_status := t\<rparr>) (project_allocations i s)" using ok p by (simp add: launchpad_ok_def raise_ok_def)
    then show ?thesis using ok
      by (auto simp: launchpad_ok_def s' update_conv project_allocations_def)
  qed (use ok in simp)
next
  case (participate hex ut fault tiers now now' db user i pbody pr)
  show ?thesis
  proof (cases "s' = s")
    case False
    then obtain p a v res where "map_of (lp_projects s) i = Some p" "record_purchase i p a v s = (s', res)"
      "parse_decimal (la_amount a) = Some v" "0 < v"
      using participate by (auto simp: participate_handler_def participate_def Let_def
          split: option.splits sum.splits if_splits prod.splits dest!: check_purchase_Inr)
    then show ?thesis using record_purchase_ok [OF ok] by blast
  qed (use ok in simp)
next
  case (claim hex ut fault now now' db user i cr)
  show ?thesis
  proof (cases "s' = s")
    case False
    then obtain as where s': "lp_projects s' = lp_projects s" "lp_allocations s' = AList.update i as (lp_allocations s)"
      and as: "map la_amount as = map la_amount (project_allocations i s)"
      using claim by (auto simp: claim_tokens_handler_def claim_tokens_def Let_def update_first_map
          split: option.splits sum.splits if_splits prod.splits)
    show ?thesis using ok raise_ok_same_amounts [OF _ as]
      by (auto simp: launchpad_ok_def s'(1) allocations_update [OF s'(2)])
  qed (use ok in simp)
qed

text \<open>The recorded raise follows the purchases. After any sequence of requests the raised amount of a
  project is a number that never exceeds the sum of its recorded purchases, lags behind it by at
  most one unit of the eighth decimal per purchase, and the participant count is exact.\<close>

theorem raise_tracks_purchases:
  assumes "launchpad_step\<^sup>*\<^sup>* empty_launchpad s" and "map_of (lp_projects s) i = Some p"
  shows "\<exists>r. parse_decimal (pj_raised p) = Some r \<and> r \<le> purchases (project_allocations i s)
    \<and> purchases (project_allocations i s) - r \<le> of_nat (length (project_allocations i s)) / 10 ^ 8
    \<and> pj_participants p = int (length (project_allocations i s))"
proof -
  have "launchpad_ok empty_launchpad" by (simp add: launchpad_ok_def empty_launchpad_def)
  with assms(1) have "launchpad_ok s" by (induction rule: rtranclp_induct) (auto intro: launchpad_step_ok)
  with assms(2) show ?thesis unfolding launchpad_ok_def raise_ok_def by blast
qed

text \<open>A purchase can fail and be recorded. The hard cap is read after the writes, so when it is not
  a number, which creating a project allows, every acceptable purchase is answered with an error
  although its allocation, the raised amount and the participant are all recorded.\<close>

theorem invalid_hard_cap_records_failed_purchase:
  assumes "map_of (lp_projects s) i = Some p" and "check_purchase now p amount = Inr v"
    and "determine_tier ut fault tiers now' db user = Some tier"
    and "parse_decimal (pj_raised p) = Some r" and "parse_decimal (pj_hard_cap p) = None"
  shows "\<exists>s' a p'. participate ut fault tiers now now' db user i amount s = (s', Some (Inl ''project hard cap is invalid''))
    \<and> project_allocations i s' = project_allocations i s @ [a] \<and> la_user a = user \<and> la_amount a = amount
    \<and> map_of (lp_projects s') i = Some p' \<and> pj_participants p' = pj_participants p + 1"
  using assms
  by (simp add: participate_def record_purchase_def Let_def project_allocations_def update_conv)

lemma find_update_first:
  "find P xs = Some a \<Longrightarrow> (\<And>x. P (f x) = P x) \<Longrightarrow> find P (update_first P f xs) = Some (f a)"
  by (induction xs) (auto split: if_splits)

text \<open>A claim pays the first purchase of the caller, once. The amount is the payment divided by the
  price, cut to eight decimals, and any later claim of the same user is refused; only the first
  purchase counts, so a second one of the same user is never paid.\<close>

theorem claim_pays_first_purchase_once:
  assumes "claim_tokens now now' user i s = (s', Inr claimed)"
  shows "(\<exists>p a price payment. map_of (lp_projects s) i = Some p
      \<and> find (\<lambda>a. la_user a = user) (project_allocations i s) = Some a
      \<and> parse_decimal (pj_price p) = Some price \<and> 0 < price \<and> parse_decimal (la_amount a) = Some payment
      \<and> claimed = format_decimal (payment / price) 8)
    \<and> claim_tokens later later' user i s' = (s', Inl ''tokens already claimed'')"
proof -
  obtain p a price payment where p: "map_of (lp_projects s) i = Some p"
    and a: "find (\<lambda>a. la_user a = user) (project_allocations i s) = Some a"
    and v: "parse_decimal (pj_price p) = Some price" "0 < price" "parse_decimal (la_amount a) = Some payment"
      "claimed = format_decimal (payment / price) 8"
    and s': "s' = s\<lparr>lp_allocations := AList.update i
        (update_first (\<lambda>b. la_user b = user)
          (\<lambda>b. b\<lparr>la_claimed_amount := claimed, la_claimed_at := Some now', la_status := ''claimed''\<rparr>)
          (project_allocations i s)) (lp_allocations s)\<rparr>"
    using assms by (auto simp: claim_tokens_def Let_def not_le split: option.splits if_splits)
  have al: "lp_allocations s' = AList.update i
        (update_first (\<lambda>b. la_user b = user)
          (\<lambda>b. b\<lparr>la_claimed_amount := claimed, la_claimed_at := Some now', la_status := ''claimed''\<rparr>)
          (project_allocations i s)) (lp_allocations s)" by (simp add: s')
  have "find (\<lambda>a. la_user a = user) (project_allocations i s')
      = Some (a\<lparr>la_claimed_amount := claimed, la_claimed_at := Some now', la_status := ''claimed''\<rparr>)"
    using find_update_first [OF a, of "\<lambda>b. b\<lparr>la_claimed_amount := claimed, la_claimed_at := Some now', la_status := ''claimed''\<rparr>"]
    by (simp add: allocations_update [OF al])
  moreover have "map_of (lp_projects s') i = Some p" using p by (simp add: s')
  ultimately have "claim_tokens later later' user i s' = (s', Inl ''tokens already claimed'')"
    by (simp add: claim_tokens_def)
  with p a v show ?thesis by blast
qed

section \<open>Runs\<close>

text \<open>A sale at price 2 whose project has no hard cap, and one with a cap; Alice is the owner of one wallet.\<close>

definition eg_request :: "string \<Rightarrow> create_project_req" where
  "eg_request cap = \<lparr>cq_name = ''P'', cq_description = [], cq_token = ''0xT'', cq_symbol = ''PRJ'',
     cq_token_name = ''Project'', cq_total_supply = ''1000000'', cq_price = ''2'', cq_payment_token = ''RUSD'',
     cq_min = ''1'', cq_max = ''50'', cq_soft_cap = ''10'', cq_hard_cap = cap, cq_start = ''0'', cq_end = ''100'',
     cq_website = [], cq_whitepaper = [], cq_logo = []\<rparr>"

definition eg_lp_db :: "lp_db option" where
  "eg_lp_db = Some \<lparr>ld_users = [(1, ''0xA'')], ld_gov = eg_gov\<rparr>"

definition eg_id :: "uuid \<Rightarrow> string" where
  "eg_id i = int_string (int i)"

definition eg_created :: "string \<Rightarrow> launchpad" where
  "eg_created cap = fst (create_project_handler parse_int (\<lambda>_. True) eg_id (\<lambda>_. False) ''p'' 0 eg_lp_db ''1''
     (Some (eg_request cap)) empty_launchpad)"

definition eg_active :: "string \<Rightarrow> launchpad" where
  "eg_active cap = fst (update_status_handler ''p'' (Some ''active'') (eg_created cap))"

lemma eg_decimals [simp]: "parse_decimal ''10.5'' = Some (21 / 2)" "parse_decimal ''1'' = Some 1" "parse_decimal ''50'' = Some 50"
  "parse_decimal ''0'' = Some 0" "parse_decimal ''2'' = Some 2" "parse_decimal ''1000'' = Some 1000" "parse_decimal [] = None"
  by code_simp+

lemma eg_formats [simp]: "format_decimal (21 / 2) 8 = ''10.50000000''" "format_decimal (21 / 4) 8 = ''5.25000000''"
proof -
  have d: "digit_char 0 = CHR ''0''" "digit_char (Suc 0) = CHR ''1''" "digit_char 2 = CHR ''2''" "digit_char 5 = CHR ''5''" by code_simp+
  have "int_string 1050000000 = ''1050000000''" "int_string 525000000 = ''525000000''"
    by (simp_all add: int_string_def nat_string.simps d)
  then show "format_decimal (21 / 2) 8 = ''10.50000000''" "format_decimal (21 / 4) 8 = ''5.25000000''"
    by (simp_all add: format_decimal_def quo_nonneg)
qed

lemma eg_bronze: "determine_tier eg_id (\<lambda>_. False) default_tiers 10 eg_lp_db ''0xa'' = Some ''bronze''"
proof -
  have t: "eg_id (Suc 0) = ''1''" "trim_space ''0xa'' = ''0xa''" "to_lower ''0xa'' = ''0xa''" "to_lower ''0xA'' = ''0xa''" by code_simp+
  have "staked_power eg_id (\<lambda>_. False) 10 eg_lp_db ''0xa'' = Some 0"
    by (simp add: staked_power_def eg_lp_db_def t open_locks_of_def eg_gov_def new_lock_def)
  then show ?thesis by (simp add: determine_tier_def tier_for_power_def)
qed

lemma eg_wallet: "caller_wallet (\<lambda>_. True) eg_id (\<lambda>_. False) ''1'' eg_lp_db = Inr ''0xa''"
  by code_simp

definition eg_project :: "string \<Rightarrow> string \<Rightarrow> int \<Rightarrow> lp_project" where
  "eg_project cap raised n = \<lparr>pj_name = ''P'', pj_description = [], pj_token = ''0xT'', pj_symbol = ''PRJ'',
     pj_token_name = ''Project'', pj_decimals = 18, pj_total_supply = ''1000000'', pj_price = ''2'',
     pj_payment_token = ''RUSD'', pj_min = ''1'', pj_max = ''50'', pj_soft_cap = ''10'', pj_hard_cap = cap,
     pj_start = 0, pj_end = 100, pj_status = ''active'', pj_raised = raised, pj_participants = n,
     pj_website = [], pj_whitepaper = [], pj_logo = [], pj_created_by = ''0xa'', pj_created_at = 0\<rparr>"

definition eg_purchase :: lp_allocation where
  "eg_purchase = \<lparr>la_user = ''0xa'', la_amount = ''10.5'', la_claimed_amount = ''0'', la_claimed_at = None,
     la_tier = ''bronze'', la_status = ''pending''\<rparr>"

definition eg_sale :: "string \<Rightarrow> string \<Rightarrow> lp_allocation list \<Rightarrow> launchpad" where
  "eg_sale cap raised as =
     \<lparr>lp_projects = [(''p'', eg_project cap raised (int (length as)))], lp_allocations = [(''p'', as)]\<rparr>"

lemma eg_active: "eg_active cap = eg_sale cap ''0'' []"
proof -
  have t: "parse_int ''0'' = Some 0" "parse_int ''100'' = Some 100" by code_simp+
  have "eg_created cap = \<lparr>lp_projects = [(''p'', (eg_project cap ''0'' 0)\<lparr>pj_status := ''upcoming''\<rparr>)], lp_allocations = [(''p'', [])]\<rparr>"
    by (simp add: eg_created_def create_project_handler_def eg_wallet bind_project_def eg_request_def create_project_def t empty_launchpad_def eg_project_def Let_def)
  then show ?thesis
    by (simp add: eg_active_def update_status_handler_def update_project_status_def valid_launchpad_statuses_def
        eg_sale_def eg_project_def)
qed

lemmas eg_sale_defs = eg_sale_def eg_project_def eg_purchase_def check_purchase_def record_purchase_def
  project_allocations_def Let_def

lemma eg_buy: "participate_handler (\<lambda>_. True) eg_id (\<lambda>_. False) default_tiers 10 10 eg_lp_db ''1'' ''p'' (Some ''10.5'')
    (eg_sale ''1000'' ''0'' []) = (eg_sale ''1000'' ''10.50000000'' [eg_purchase], Some (Ok_reply 200 eg_purchase))"
  by (simp add: participate_handler_def eg_wallet participate_def)
    (simp add: eg_sale_defs eg_bronze)

lemma eg_sale_reachable: "launchpad_step\<^sup>*\<^sup>* empty_launchpad (eg_sale ''1000'' ''10.50000000'' [eg_purchase])"
proof -
  have "launchpad_step empty_launchpad (eg_created ''1000'')"
    unfolding eg_created_def by (rule launchpad_step.create [OF surjective_pairing])
  moreover have "launchpad_step (eg_created ''1000'') (eg_sale ''1000'' ''0'' [])"
    unfolding eg_active [symmetric] eg_active_def by (rule launchpad_step.status [OF surjective_pairing])
  ultimately show ?thesis using launchpad_step.participate [OF eg_buy] by (meson r_into_rtranclp rtranclp_trans)
qed

theorem tier_ignores_map_order_witness: "tier_for_power (rev default_tiers) 12000 = ''gold''"
  using tier_ignores_map_order [of "rev default_tiers" 12000] by simp

theorem raise_tracks_purchases_witness:
  "\<exists>r. parse_decimal ''10.50000000'' = Some r \<and> r \<le> purchases [eg_purchase]"
proof -
  have p: "map_of (lp_projects (eg_sale ''1000'' ''10.50000000'' [eg_purchase])) ''p'' = Some (eg_project ''1000'' ''10.50000000'' 1)"
    "project_allocations ''p'' (eg_sale ''1000'' ''10.50000000'' [eg_purchase]) = [eg_purchase]"
    by (simp_all add: eg_sale_def project_allocations_def)
  from raise_tracks_purchases [OF eg_sale_reachable p(1)] p(2) show ?thesis by (auto simp: eg_project_def)
qed

theorem invalid_hard_cap_witness:
  "\<exists>s' a. participate eg_id (\<lambda>_. False) default_tiers 10 10 eg_lp_db ''0xa'' ''p'' ''10.5'' (eg_sale [] ''0'' [])
      = (s', Some (Inl ''project hard cap is invalid''))
    \<and> project_allocations ''p'' s' = [a]"
proof -
  have p: "map_of (lp_projects (eg_sale [] ''0'' [])) ''p'' = Some (eg_project [] ''0'' 0)" by (simp add: eg_sale_def)
  have c: "check_purchase 10 (eg_project [] ''0'' 0) ''10.5'' = Inr (21 / 2)"
    "parse_decimal (pj_raised (eg_project [] ''0'' 0)) = Some 0" "parse_decimal (pj_hard_cap (eg_project [] ''0'' 0)) = None"
    by (simp_all add: eg_sale_defs)
  have e: "project_allocations ''p'' (eg_sale [] ''0'' []) = []" by (simp add: eg_sale_def project_allocations_def)
  from invalid_hard_cap_records_failed_purchase [OF p c(1) eg_bronze c(2,3)] e show ?thesis by auto
qed

theorem claim_pays_first_purchase_witness:
  "\<exists>s'. claim_tokens 200 200 ''0xa'' ''p'' (eg_sale ''1000'' ''10.50000000'' [eg_purchase]) = (s', Inr ''5.25000000'')
    \<and> claim_tokens 300 300 ''0xa'' ''p'' s' = (s', Inl ''tokens already claimed'')"
proof -
  have "\<exists>s'. claim_tokens 200 200 ''0xa'' ''p'' (eg_sale ''1000'' ''10.50000000'' [eg_purchase]) = (s', Inr ''5.25000000'')"
    by (simp add: claim_tokens_def eg_sale_defs)
  then obtain s' where c: "claim_tokens 200 200 ''0xa'' ''p'' (eg_sale ''1000'' ''10.50000000'' [eg_purchase]) = (s', Inr ''5.25000000'')"
    by blast
  from claim_pays_first_purchase_once [OF c] c show ?thesis by blast
qed

end
