(* ===== verification/Cache.thy ===== *)
theory Cache
  imports Rate_Limit "HOL-Library.Word"
begin

unbundle bit_operations_syntax

text \<open>
  The distributed caches: the least-recently-used cache of \<open>go/distributed/cache_server/main.go\<close>,
  and the consistent-hash ring and sharded store of \<open>go/distributed/cache/main.go\<close>. The values are
  of any type. The linked list of the LRU cache is a list of elements with identities, most recent
  first, and its map names the element of a key. Redis, and the JSON that values take on the way
  there, are parameters: \<open>remote k\<close> is what a read of the key brings back.
\<close>

section \<open>The LRU cache\<close>

record 'v lru =
  lc_items :: "(string \<times> nat) list"
  lc_list :: "(nat \<times> string \<times> 'v) list"
  lc_next :: nat
  lc_capacity :: int
  lc_hits :: int64
  lc_misses :: int64

definition new_lru :: "int \<Rightarrow> 'v lru" where
  "new_lru capacity = \<lparr>lc_items = [], lc_list = [], lc_next = 0, lc_capacity = capacity, lc_hits = 0, lc_misses = 0\<rparr>"

text \<open>\<open>MoveToFront\<close>, with the element's value changed on the way.\<close>

definition move_to_front :: "nat \<Rightarrow> (string \<times> 'v \<Rightarrow> string \<times> 'v) \<Rightarrow> (nat \<times> string \<times> 'v) list \<Rightarrow> (nat \<times> string \<times> 'v) list" where
  "move_to_front e f xs =
     (case map_of xs e of None \<Rightarrow> xs | Some kv \<Rightarrow> (e, f kv) # AList.delete e xs)"

definition lru_get :: "string \<Rightarrow> 'v lru \<Rightarrow> 'v option \<times> 'v lru" where
  "lru_get key c =
     (case map_of (lc_items c) key of
        None \<Rightarrow> (None, c\<lparr>lc_misses := add64 (lc_misses c) 1\<rparr>)
      | Some e \<Rightarrow>
          (map_option snd (map_of (lc_list c) e),
           c\<lparr>lc_list := move_to_front e (\<lambda>kv. kv) (lc_list c), lc_hits := add64 (lc_hits c) 1\<rparr>))"

definition lru_set :: "string \<Rightarrow> 'v \<Rightarrow> 'v lru \<Rightarrow> 'v lru" where
  "lru_set key v c =
     (case map_of (lc_items c) key of
        Some e \<Rightarrow> c\<lparr>lc_list := move_to_front e (\<lambda>(k, _). (k, v)) (lc_list c)\<rparr>
      | None \<Rightarrow>
          let e = lc_next c;
              xs = (e, key, v) # lc_list c;
              items = AList.update key e (lc_items c);
              c1 = c\<lparr>lc_next := e + 1\<rparr> in
          if lc_capacity c < int (length xs)
            then (case last xs of (_, k, _) \<Rightarrow>
                    c1\<lparr>lc_list := butlast xs, lc_items := AList.delete k items\<rparr>)
          else c1\<lparr>lc_list := xs, lc_items := items\<rparr>)"

definition cache_get_handler :: "string \<Rightarrow> 'v lru \<Rightarrow> (string \<times> 'v) reply \<times> 'v lru" where
  "cache_get_handler key c =
     (case lru_get key c of
        (Some v, c') \<Rightarrow> (Ok_reply 200 (key, v), c')
      | (None, c') \<Rightarrow> (Error_reply 404 ''not found'', c'))"

definition cache_set_handler :: "string \<Rightarrow> 'v option \<Rightarrow> 'v lru \<Rightarrow> unit reply \<times> 'v lru" where
  "cache_set_handler key body c =
     (case body of None \<Rightarrow> (Bad_binding, c) | Some v \<Rightarrow> (Ok_reply 200 (), lru_set key v c))"

section \<open>Hashing\<close>

text \<open>FNV-1a, 32 bits.\<close>

definition fnv32a :: "string \<Rightarrow> 32 word" where
  "fnv32a s = foldl (\<lambda>h c. (h XOR word_of_int (of_char c)) * 16777619) 2166136261 s"

text \<open>\<open>sort.Search(n, f)\<close>, started as \<open>sort_search f 0 n\<close>.\<close>

function sort_search :: "(nat \<Rightarrow> bool) \<Rightarrow> nat \<Rightarrow> nat \<Rightarrow> nat" where
  "sort_search f i j =
     (if i < j then
        let h = (i + j) div 2
        in if f h then sort_search f i h else sort_search f (h + 1) j
      else i)"
  by pat_completeness auto
termination
  by (relation "measure (\<lambda>(f, i, j). j - i)") auto

declare sort_search.simps [simp del]

record cache_node =
  nd_host :: string
  nd_port :: int
  nd_id :: string

record hash_ring =
  rg_ring :: "(32 word \<times> string list) list"
  rg_nodes :: "(string \<times> cache_node) list"
  rg_replicas :: int
  rg_keys :: "32 word list"

definition new_ring :: "int \<Rightarrow> hash_ring" where
  "new_ring replicas = \<lparr>rg_ring = [], rg_nodes = [], rg_replicas = replicas, rg_keys = []\<rparr>"

definition replica_key :: "cache_node \<Rightarrow> nat \<Rightarrow> string" where
  "replica_key nd i = nd_id nd @ ''-'' @ int_string (int i) @ ''-'' @ nd_host nd"

definition ring_search :: "32 word \<Rightarrow> 32 word list \<Rightarrow> nat" where
  "ring_search h keys = sort_search (\<lambda>i. h \<le> keys ! i) 0 (length keys)"

definition add_point :: "string \<Rightarrow> 32 word \<Rightarrow> hash_ring \<Rightarrow> hash_ring" where
  "add_point node_id h r =
     (let ids = (case map_of (rg_ring r) h of None \<Rightarrow> [] | Some ids \<Rightarrow> ids);
          pos = ring_search h (rg_keys r) in
      r\<lparr>rg_ring := AList.update h (ids @ [node_id]) (rg_ring r),
        rg_keys := take pos (rg_keys r) @ h # drop pos (rg_keys r)\<rparr>)"

definition ring_add :: "cache_node \<Rightarrow> hash_ring \<Rightarrow> hash_ring" where
  "ring_add nd r =
     foldl (\<lambda>r i. add_point (nd_id nd) (fnv32a (replica_key nd i)) r)
       (r\<lparr>rg_nodes := AList.update (nd_id nd) nd (rg_nodes r)\<rparr>) [0..<nat (rg_replicas r)]"

text \<open>The outer option is a panic: an index into a ring without points.\<close>

definition ring_get :: "string \<Rightarrow> hash_ring \<Rightarrow> cache_node option option" where
  "ring_get key r =
     (if rg_nodes r = [] then Some None
      else
        let h = fnv32a key;
            found = ring_search h (rg_keys r);
            pos = (if length (rg_keys r) \<le> found then 0 else found) in
        if rg_keys r = [] then None
        else (case map_of (rg_ring r) (rg_keys r ! pos) of
                None \<Rightarrow> Some None
              | Some [] \<Rightarrow> Some None
              | Some (i # _) \<Rightarrow> Some (map_of (rg_nodes r) i)))"

section \<open>The sharded store\<close>

type_synonym 'v shards = "(string \<times> 'v) list list"

definition new_shards :: "nat \<Rightarrow> 'v shards" where
  "new_shards n = replicate n []"

definition shard_index :: "string \<Rightarrow> 'v shards \<Rightarrow> nat" where
  "shard_index key s = unat (fnv32a key mod word_of_nat (length s))"

definition shard_get :: "(string \<Rightarrow> 'v option) \<Rightarrow> string \<Rightarrow> 'v shards \<Rightarrow> 'v option \<times> 'v shards" where
  "shard_get remote key s =
     (let i = shard_index key s in
      case map_of (s ! i) key of
        Some v \<Rightarrow> (Some v, s)
      | None \<Rightarrow>
          (case remote key of
             None \<Rightarrow> (None, s)
           | Some v \<Rightarrow> (Some v, s[i := AList.update key v (s ! i)])))"

definition shard_set :: "string \<Rightarrow> 'v \<Rightarrow> 'v shards \<Rightarrow> 'v shards" where
  "shard_set key v s = (let i = shard_index key s in s[i := AList.update key v (s ! i)])"

definition shard_delete :: "string \<Rightarrow> 'v shards \<Rightarrow> 'v shards" where
  "shard_delete key s = (let i = shard_index key s in s[i := AList.delete key (s ! i)])"

section \<open>The handlers of the distributed cache\<close>

text \<open>Reads are rate limited by the client's address; writes and deletions are not.\<close>

record 'v cache_service =
  cv_limiter :: limiter
  cv_shards :: "'v shards"

definition shards_get_handler :: "(string \<Rightarrow> 'v option) \<Rightarrow> time \<Rightarrow> string \<Rightarrow> string \<Rightarrow> 'v cache_service \<Rightarrow> (string \<times> 'v) reply \<times> 'v cache_service" where
  "shards_get_handler remote now ip key c =
     (case cache_allow now ip (cv_limiter c) of
        (False, l) \<Rightarrow> (Error_reply 429 ''Rate limit exceeded'', c\<lparr>cv_limiter := l\<rparr>)
      | (True, l) \<Rightarrow>
          (case shard_get remote key (cv_shards c) of
             (None, s) \<Rightarrow> (Error_reply 404 ''Not found'', c\<lparr>cv_limiter := l, cv_shards := s\<rparr>)
           | (Some v, s) \<Rightarrow> (Ok_reply 200 (key, v), c\<lparr>cv_limiter := l, cv_shards := s\<rparr>)))"

definition shards_set_handler :: "string \<Rightarrow> 'v option \<Rightarrow> 'v cache_service \<Rightarrow> unit reply \<times> 'v cache_service" where
  "shards_set_handler key body c =
     (case body of
        None \<Rightarrow> (Bad_binding, c)
      | Some v \<Rightarrow> (Ok_reply 200 (), c\<lparr>cv_shards := shard_set key v (cv_shards c)\<rparr>))"

definition shards_delete_handler :: "string \<Rightarrow> 'v cache_service \<Rightarrow> unit reply \<times> 'v cache_service" where
  "shards_delete_handler key c = (Ok_reply 200 (), c\<lparr>cv_shards := shard_delete key (cv_shards c)\<rparr>)"

end
