(* ===== verification/Cache_Props.thy ===== *)
theory Cache_Props
  imports Cache
begin

text \<open>
  What the caches promise: the LRU cache with its map and linked list refines the list of the most
  recently used entries and never holds more than its capacity; a key of the ring belongs to the
  first point clockwise from its hash, which is a node that was added; and a value that was set is
  read back from its shard.
\<close>

section \<open>The LRU cache refines a recency list\<close>

definition recency :: "'v lru \<Rightarrow> (string \<times> 'v) list" where
  "recency c = map snd (lc_list c)"

definition touch :: "string \<Rightarrow> 'v \<Rightarrow> (string \<times> 'v) list \<Rightarrow> (string \<times> 'v) list" where
  "touch k v xs = (k, v) # AList.delete k xs"

definition lru_ok :: "'v lru \<Rightarrow> bool" where
  "lru_ok c \<longleftrightarrow> distinct (map fst (lc_list c)) \<and> distinct (map fst (recency c))
     \<and> (\<forall>x \<in> set (lc_list c). fst x < lc_next c)
     \<and> (\<forall>k e. map_of (lc_items c) k = Some e \<longleftrightarrow> (\<exists>v. (e, k, v) \<in> set (lc_list c)))
     \<and> int (length (lc_list c)) \<le> max 0 (lc_capacity c)"

lemma new_lru_simps [simp]: "recency (new_lru cap) = []" "lc_capacity (new_lru cap) = cap"
  by (simp_all add: new_lru_def recency_def)

lemma new_lru_ok: "lru_ok (new_lru cap)"
  by (simp add: lru_ok_def new_lru_def recency_def)

lemma delete_element:
  assumes "distinct (map fst xs)" "distinct (map (\<lambda>x. fst (snd x)) xs)" "(e, k, v) \<in> set xs"
  shows "map snd (AList.delete e xs) = AList.delete k (map snd xs)"
  using assms
proof (induction xs)
  case (Cons y xs)
  show ?case
  proof (cases "y = (e, k, v)")
    case True
    then have "e \<notin> fst ` set xs" using Cons.prems by auto
    moreover have "k \<notin> fst ` set (map snd xs)" using Cons.prems True by (force simp: image_iff)
    ultimately show ?thesis using True by (simp add: delete_id del: set_map)
  next
    case False
    with Cons show ?thesis by (cases y) (force simp: image_iff)
  qed
qed simp

lemma lru_find:
  assumes "lru_ok c"
  shows "map_of (lc_items c) k = None \<longleftrightarrow> map_of (recency c) k = None"
    and "map_of (lc_items c) k = Some e \<Longrightarrow> \<exists>v. (e, k, v) \<in> set (lc_list c) \<and> map_of (lc_list c) e = Some (k, v)
      \<and> map_of (recency c) k = Some v"
proof -
  show s: "map_of (lc_items c) k = Some e \<Longrightarrow> \<exists>v. (e, k, v) \<in> set (lc_list c) \<and> map_of (lc_list c) e = Some (k, v)
      \<and> map_of (recency c) k = Some v" for e
  proof -
    assume "map_of (lc_items c) k = Some e"
    then obtain v where v: "(e, k, v) \<in> set (lc_list c)" using assms by (auto simp: lru_ok_def)
    then have "(k, v) \<in> set (recency c)" by (force simp: recency_def)
    with v assms show ?thesis by (auto simp: lru_ok_def)
  qed
  show "map_of (lc_items c) k = None \<longleftrightarrow> map_of (recency c) k = None"
  proof
    assume n: "map_of (lc_items c) k = None"
    show "map_of (recency c) k = None"
    proof (rule ccontr)
      assume "map_of (recency c) k \<noteq> None"
      then obtain v e where "(e, k, v) \<in> set (lc_list c)" by (auto simp: recency_def dest!: map_of_SomeD)
      then have "map_of (lc_items c) k = Some e" using assms unfolding lru_ok_def by blast
      with n show False by simp
    qed
  next
    assume n: "map_of (recency c) k = None"
    show "map_of (lc_items c) k = None"
      using s n by (cases "map_of (lc_items c) k") auto
  qed
qed


lemma length_delete: "distinct (map fst xs) \<Longrightarrow> e \<in> fst ` set xs \<Longrightarrow> Suc (length (AList.delete e xs)) = length xs"
proof (induction xs)
  case (Cons y xs)
  then show ?case by (cases "fst y = e") (auto simp: delete_id)
qed simp

lemma set_delete: "set (AList.delete e xs) = {x \<in> set xs. fst x \<noteq> e}"
  by (induction xs) auto

text \<open>An element of the list with its value replaced and moved to the front.\<close>

lemma moved_ok:
  assumes ok: "lru_ok c" and m: "(e, k, v) \<in> set (lc_list c)"
    and c': "lc_list c' = (e, k, w) # AList.delete e (lc_list c)" "lc_items c' = lc_items c" "lc_next c' = lc_next c"
      "lc_capacity c' = lc_capacity c"
  shows "lru_ok c'" and "recency c' = touch k w (recency c)"
proof -
  have d: "distinct (map fst (lc_list c))" "distinct (map (\<lambda>x. fst (snd x)) (lc_list c))"
    using ok by (simp_all add: lru_ok_def recency_def o_def)
  show r: "recency c' = touch k w (recency c)"
    using delete_element [OF d m] by (simp add: recency_def touch_def c')
  have same: "(\<exists>u. (i, j, u) \<in> set (lc_list c')) \<longleftrightarrow> (\<exists>u. (i, j, u) \<in> set (lc_list c))" for i j
  proof (cases "i = e")
    case True
    have "j = k" if "(e, j, u) \<in> set (lc_list c)" for u using eq_key_imp_eq_value [OF d(1) that m] by simp
    with True m show ?thesis by (auto simp: c' set_delete)
  qed (auto simp: c' set_delete)
  have "distinct (map fst (lc_list c'))" using d by (simp add: c' distinct_delete) (auto simp: set_delete)
  moreover have "distinct (map fst (recency c'))"
    using ok by (simp add: r touch_def lru_ok_def distinct_delete) (auto simp: set_delete)
  moreover have "\<forall>x \<in> set (lc_list c'). fst x < lc_next c'" using ok m by (auto simp: c' set_delete lru_ok_def)
  moreover have "length (lc_list c') = length (lc_list c)"
    using length_delete [OF d(1), of e] m by (force simp: c')
  ultimately show "lru_ok c'" using ok same by (simp add: lru_ok_def c'(2,4))
qed

lemma lru_get_refines:
  assumes ok: "lru_ok c" and g: "lru_get k c = (r, c')"
  shows "lru_ok c' \<and> r = map_of (recency c) k
    \<and> recency c' = (case r of None \<Rightarrow> recency c | Some v \<Rightarrow> touch k v (recency c))"
proof (cases "map_of (lc_items c) k")
  case None
  then have "map_of (recency c) k = None" using lru_find(1) [OF ok] by blast
  moreover have "r = None" "c' = c\<lparr>lc_misses := add64 (lc_misses c) 1\<rparr>" using g None by (simp_all add: lru_get_def)
  ultimately show ?thesis using ok by (simp add: lru_ok_def recency_def)
next
  case (Some e)
  then obtain v where v: "(e, k, v) \<in> set (lc_list c)" "map_of (lc_list c) e = Some (k, v)" "map_of (recency c) k = Some v"
    using lru_find(2) [OF ok Some] by blast
  have r: "r = Some v" and c': "c' = c\<lparr>lc_list := (e, k, v) # AList.delete e (lc_list c), lc_hits := add64 (lc_hits c) 1\<rparr>"
    using g Some v by (auto simp: lru_get_def move_to_front_def)
  have "lru_ok c'" "recency c' = touch k v (recency c)" by (rule moved_ok [OF ok v(1)]; simp add: c')+
  with r v show ?thesis by simp
qed

lemma lru_set_refines:
  assumes ok: "lru_ok c"
  shows "lru_ok (lru_set k v c) \<and> recency (lru_set k v c) =
    (let xs = touch k v (recency c) in
     if map_of (recency c) k = None \<and> lc_capacity c < int (length xs) then butlast xs else xs)"
proof (cases "map_of (lc_items c) k")
  case (Some e)
  then obtain u where u: "(e, k, u) \<in> set (lc_list c)" "map_of (lc_list c) e = Some (k, u)" "map_of (recency c) k = Some u"
    using lru_find(2) [OF ok Some] by blast
  have c': "lru_set k v c = c\<lparr>lc_list := (e, k, v) # AList.delete e (lc_list c)\<rparr>"
    using Some u by (simp add: lru_set_def move_to_front_def)
  have "lru_ok (lru_set k v c)" "recency (lru_set k v c) = touch k v (recency c)"
    by (rule moved_ok [OF ok u(1)]; simp add: c')+
  with u show ?thesis by simp
next
  case None
  let ?e = "lc_next c" let ?xs = "(?e, k, v) # lc_list c"
  have n: "map_of (recency c) k = None" using None lru_find(1) [OF ok] by blast
  then have fresh: "k \<notin> fst ` set (recency c)" by (simp add: map_of_eq_None_iff)
  have t: "touch k v (recency c) = (k, v) # recency c" using fresh by (simp add: touch_def delete_id)
  have d: "distinct (map fst ?xs)" "distinct (map (\<lambda>x. fst (snd x)) ?xs)" "\<forall>x \<in> set ?xs. fst x < ?e + 1"
    using ok fresh by (auto simp: lru_ok_def recency_def o_def)
  have it: "map_of (AList.update k ?e (lc_items c)) j = Some i \<longleftrightarrow> (\<exists>u. (i, j, u) \<in> set ?xs)" for i j
  proof (cases "j = k")
    case True
    have "\<not> (\<exists>u. (i, k, u) \<in> set (lc_list c))" using fresh by (force simp: recency_def)
    with True show ?thesis by (auto simp: update_conv)
  next
    case False
    then show ?thesis using ok by (auto simp: update_conv lru_ok_def)
  qed
  show ?thesis
  proof (cases "lc_capacity c < int (length ?xs)")
    case False
    have c': "lru_set k v c = c\<lparr>lc_next := ?e + 1, lc_list := ?xs, lc_items := AList.update k ?e (lc_items c)\<rparr>"
      using None False by (simp add: lru_set_def Let_def)
    have "lru_ok (lru_set k v c)"
      using d it False unfolding lru_ok_def recency_def by (simp add: c' o_def)
    then show ?thesis using False t by (simp add: c' recency_def)
  next
    case True
    obtain el kl vl where l: "last ?xs = (el, kl, vl)" by (cases "last ?xs") auto
    have xs: "?xs = butlast ?xs @ [(el, kl, vl)]" using l by (metis append_butlast_last_id list.distinct(1))
    have c': "lru_set k v c = c\<lparr>lc_next := ?e + 1, lc_list := butlast ?xs,
        lc_items := AList.delete kl (AList.update k ?e (lc_items c))\<rparr>"
      using None True l by (simp add: lru_set_def Let_def)
    have db: "distinct (map fst (butlast ?xs))" "distinct (map (\<lambda>x. fst (snd x)) (butlast ?xs))"
      using d(1,2) distinct_butlast unfolding map_butlast by blast+
    have kl: "kl \<notin> (\<lambda>x. fst (snd x)) ` set (butlast ?xs)"
    proof -
      have "distinct (map (\<lambda>x. fst (snd x)) (butlast ?xs @ [(el, kl, vl)]))" using d(2) xs by metis
      then show ?thesis by simp
    qed
    have "map_of (AList.delete kl (AList.update k ?e (lc_items c))) j = Some i \<longleftrightarrow> (\<exists>u. (i, j, u) \<in> set (butlast ?xs))" for i j
    proof (cases "j = kl")
      case True
      then show ?thesis using kl by (force simp: delete_conv)
    next
      case False
      have "(i, j, u) \<in> set ?xs \<longleftrightarrow> (i, j, u) \<in> set (butlast ?xs @ [(el, kl, vl)])" for u using xs by metis
      then show ?thesis using it [of j i] False by (simp add: delete_conv)
    qed
    moreover have "\<forall>x \<in> set (butlast ?xs). fst x < ?e + 1" using d(3) by (meson in_set_butlastD)
    moreover have "int (length (butlast ?xs)) \<le> max 0 (lc_capacity c)" using ok by (simp add: lru_ok_def)
    ultimately have "lru_ok (lru_set k v c)"
      using db unfolding lru_ok_def recency_def by (simp add: c' o_def)
    then show ?thesis using True t n by (simp add: c' recency_def map_butlast)
  qed
qed

text \<open>Whole histories of the cache, and of the list of recent entries it stands for.\<close>

datatype 'v lru_op = Lookup string | Store string 'v

fun lru_run :: "'v lru_op list \<Rightarrow> 'v lru \<Rightarrow> 'v option list \<times> 'v lru" where
  "lru_run [] c = ([], c)"
| "lru_run (Lookup k # ops) c =
     (case lru_get k c of (r, c1) \<Rightarrow> (case lru_run ops c1 of (rs, c2) \<Rightarrow> (r # rs, c2)))"
| "lru_run (Store k v # ops) c = lru_run ops (lru_set k v c)"

fun recency_run :: "int \<Rightarrow> 'v lru_op list \<Rightarrow> (string \<times> 'v) list \<Rightarrow> 'v option list \<times> (string \<times> 'v) list" where
  "recency_run cap [] xs = ([], xs)"
| "recency_run cap (Lookup k # ops) xs =
     (case recency_run cap ops (case map_of xs k of None \<Rightarrow> xs | Some v \<Rightarrow> touch k v xs) of
        (rs, ys) \<Rightarrow> (map_of xs k # rs, ys))"
| "recency_run cap (Store k v # ops) xs =
     (let ys = touch k v xs
      in recency_run cap ops (if map_of xs k = None \<and> cap < int (length ys) then butlast ys else ys))"

lemma lru_capacity [simp]: "lc_capacity (snd (lru_get k c)) = lc_capacity c" "lc_capacity (lru_set k v c) = lc_capacity c"
  by (simp_all add: lru_get_def lru_set_def Let_def split: option.splits prod.splits)

lemma lru_run_refines:
  "lru_ok c \<Longrightarrow> lru_run ops c = (rs, c') \<Longrightarrow>
   lru_ok c' \<and> lc_capacity c' = lc_capacity c \<and> recency_run (lc_capacity c) ops (recency c) = (rs, recency c')"
proof (induction ops arbitrary: c rs)
  case (Cons op ops)
  show ?case
  proof (cases op)
    case (Lookup k)
    obtain r c1 where g: "lru_get k c = (r, c1)" by fastforce
    obtain qs where rs: "rs = r # qs" "lru_run ops c1 = (qs, c')" using Cons.prems(2) by (auto simp: Lookup g split: prod.splits)
    note ref = lru_get_refines [OF Cons.prems(1) g]
    have cap: "lc_capacity c1 = lc_capacity c" using lru_capacity(1) [of k c] by (simp add: g)
    show ?thesis using ref Cons.IH [of c1 qs] rs cap
      by (cases "map_of (recency c) k") (simp_all add: Lookup)
  next
    case (Store k v)
    note ref = lru_set_refines [OF Cons.prems(1), of k v]
    then show ?thesis using Cons.IH [of "lru_set k v c" rs] Cons.prems(2) by (simp add: Store Let_def)
  qed
qed simp

text \<open>C19: The LRU cache is what its name says: whatever the sequence of reads and writes since it was
  made, with its map of elements and its linked list it answers every read as a plain list of entries
  does that moves what is read or written to the front and drops its last entry when a new key makes
  it longer than the capacity; and it never holds more entries than the capacity.\<close>

theorem lru_implements_recency_list:
  "case lru_run ops (new_lru cap) of (rs, c) \<Rightarrow>
     recency_run cap ops [] = (rs, recency c) \<and> int (length (lc_list c)) \<le> max 0 cap
     \<and> distinct (map fst (recency c))"
proof -
  obtain rs c where run: "lru_run ops (new_lru cap) = (rs, c)" by fastforce
  show ?thesis using lru_run_refines [OF new_lru_ok run] unfolding lru_ok_def by (auto simp: run)
qed

section \<open>Binary search\<close>

lemma sort_search_least:
  assumes mono: "\<And>a b. a \<le> b \<Longrightarrow> b < n \<Longrightarrow> f a \<Longrightarrow> f b"
  shows "i \<le> j \<Longrightarrow> j \<le> n \<Longrightarrow> (\<forall>k<i. \<not> f k) \<Longrightarrow> (\<forall>k. j \<le> k \<and> k < n \<longrightarrow> f k) \<Longrightarrow>
    sort_search f i j \<le> j \<and> (\<forall>k < sort_search f i j. \<not> f k) \<and> (\<forall>k. sort_search f i j \<le> k \<and> k < n \<longrightarrow> f k)"
proof (induction "j - i" arbitrary: i j rule: less_induct)
  case less
  show ?case
  proof (cases "i < j")
    case False
    with less.prems show ?thesis by (auto simp: sort_search.simps [of f j j])
  next
    case True
    let ?h = "(i + j) div 2"
    have h: "i \<le> ?h" "?h < j" using True by auto
    show ?thesis
    proof (cases "f ?h")
      case fh: True
      have "\<forall>k. ?h \<le> k \<and> k < n \<longrightarrow> f k" using mono [of ?h] fh by blast
      with less.hyps [of ?h i] less.prems h have "sort_search f i ?h \<le> ?h \<and> (\<forall>k < sort_search f i ?h. \<not> f k)
          \<and> (\<forall>k. sort_search f i ?h \<le> k \<and> k < n \<longrightarrow> f k)" by simp
      with True fh h show ?thesis by (simp add: sort_search.simps [of f i j] Let_def)
    next
      case fh: False
      have "\<not> f k" if "k < ?h + 1" for k using mono [of k ?h] fh h that less.prems by auto
      with less.hyps [of j "?h + 1"] less.prems h have "sort_search f (?h + 1) j \<le> j \<and> (\<forall>k < sort_search f (?h + 1) j. \<not> f k)
          \<and> (\<forall>k. sort_search f (?h + 1) j \<le> k \<and> k < n \<longrightarrow> f k)" by simp
      with True fh h show ?thesis by (simp add: sort_search.simps [of f i j] Let_def)
    qed
  qed
qed

text \<open>On sorted keys the search splits the list into the smaller keys and the others.\<close>

lemma ring_search_splits:
  assumes "sorted keys"
  shows "ring_search h keys \<le> length keys"
    and "\<forall>x \<in> set (take (ring_search h keys) keys). x < h"
    and "\<forall>x \<in> set (drop (ring_search h keys) keys). h \<le> x"
proof -
  have m: "h \<le> keys ! a \<Longrightarrow> a \<le> b \<Longrightarrow> b < length keys \<Longrightarrow> h \<le> keys ! b" for a b
    using sorted_nth_mono [OF assms, of a b] by simp
  have s: "ring_search h keys \<le> length keys \<and> (\<forall>k < ring_search h keys. \<not> h \<le> keys ! k)
    \<and> (\<forall>k. ring_search h keys \<le> k \<and> k < length keys \<longrightarrow> h \<le> keys ! k)"
    unfolding ring_search_def by (rule sort_search_least [of "length keys"]) (auto intro: m)
  then show "ring_search h keys \<le> length keys" by blast
  show "\<forall>x \<in> set (take (ring_search h keys) keys). x < h"
  proof
    fix x assume "x \<in> set (take (ring_search h keys) keys)"
    then obtain i where "i < ring_search h keys" "x = keys ! i" by (auto simp: in_set_conv_nth)
    then have "\<not> h \<le> x" using s by blast
    then show "x < h" by (rule not_le_imp_less)
  qed
  show "\<forall>x \<in> set (drop (ring_search h keys) keys). h \<le> x" using s by (auto simp: in_set_conv_nth)
qed

section \<open>The ring\<close>

text \<open>The reference: the first point at or after a hash, or the first of all.\<close>

definition clockwise :: "32 word \<Rightarrow> 32 word set \<Rightarrow> 32 word" where
  "clockwise h ps = (if \<exists>p \<in> ps. h \<le> p then Min {p \<in> ps. h \<le> p} else Min ps)"

lemma sorted_first:
  assumes "sorted (xs @ ys)" "\<forall>x \<in> set xs. x < h" "\<forall>y \<in> set ys. h \<le> y" "xs @ ys \<noteq> []"
  shows "(if ys = [] then hd xs else hd ys) = clockwise h (set (xs @ ys))"
proof (cases ys)
  case Nil
  then have "\<not> (\<exists>p \<in> set (xs @ ys). h \<le> p)" using assms(2) by (auto simp: not_le)
  then show ?thesis using assms Nil by (cases xs) (auto simp: clockwise_def intro!: Min_eqI [symmetric])
next
  case (Cons y zs)
  have e: "{p \<in> set (xs @ ys). h \<le> p} = set ys" using assms(2,3) by (auto simp: not_le [symmetric])
  have "Min (set ys) = y" using assms(1) Cons by (intro Min_eqI) (auto simp: sorted_append)
  moreover have "\<exists>p \<in> set (xs @ ys). h \<le> p" using assms(3) Cons by auto
  ultimately show ?thesis unfolding clockwise_def e using Cons by simp
qed

lemma ring_index_clockwise:
  assumes "sorted keys" "keys \<noteq> []"
  shows "keys ! (if length keys \<le> ring_search h keys then 0 else ring_search h keys) = clockwise h (set keys)"
proof -
  let ?n = "ring_search h keys"
  note s = ring_search_splits [OF assms(1), of h]
  have "(if drop ?n keys = [] then hd (take ?n keys) else hd (drop ?n keys)) = clockwise h (set keys)"
    using sorted_first [of "take ?n keys" "drop ?n keys" h] s assms by simp
  moreover have "hd (take ?n keys) = keys ! 0" if "length keys \<le> ?n" using that assms(2) by (cases keys) auto
  moreover have "hd (drop ?n keys) = keys ! ?n" if "?n < length keys" using that by (simp add: hd_drop_conv_nth)
  ultimately show ?thesis by (auto split: if_splits)
qed

text \<open>Sorted keys, each with a list of the identifiers of nodes that are known.\<close>

definition ring_ok :: "hash_ring \<Rightarrow> bool" where
  "ring_ok r \<longleftrightarrow> sorted (rg_keys r) \<and> set (rg_keys r) = fst ` set (rg_ring r)
     \<and> (\<forall>h ids. map_of (rg_ring r) h = Some ids \<longrightarrow> ids \<noteq> [] \<and> set ids \<subseteq> fst ` set (rg_nodes r))"

lemma new_ring_ok: "ring_ok (new_ring n)"
  by (simp add: ring_ok_def new_ring_def)

lemma sorted_keys_insert:
  assumes "sorted keys"
  shows "sorted (take (ring_search h keys) keys @ h # drop (ring_search h keys) keys)"
    and "set (take (ring_search h keys) keys @ h # drop (ring_search h keys) keys) = insert h (set keys)"
proof -
  let ?n = "ring_search h keys"
  note s = ring_search_splits [OF assms, of h]
  show "sorted (take ?n keys @ h # drop ?n keys)"
  proof -
    have "x \<le> y" if "x \<in> set (take ?n keys)" "y \<in> set (drop ?n keys)" for x y
      using s(2,3) that by (meson less_imp_le order_trans)
    then show ?thesis using s(2,3) assms by (simp add: sorted_append sorted_wrt_take sorted_wrt_drop less_imp_le)
  qed
  have "set (take ?n keys @ drop ?n keys) = set keys" by simp
  then show "set (take ?n keys @ h # drop ?n keys) = insert h (set keys)" by (simp del: append_take_drop_id)
qed

lemma add_point_ok:
  assumes "ring_ok r" "node_id \<in> fst ` set (rg_nodes r)"
  shows "ring_ok (add_point node_id h r)" and "rg_nodes (add_point node_id h r) = rg_nodes r"
    and "set (rg_keys (add_point node_id h r)) = insert h (set (rg_keys r))"
    and "p \<noteq> h \<Longrightarrow> map_of (rg_ring (add_point node_id h r)) p = map_of (rg_ring r) p"
    and "map_of (rg_ring (add_point node_id h r)) h = Some ((case map_of (rg_ring r) h of None \<Rightarrow> [] | Some ids \<Rightarrow> ids) @ [node_id])"
proof -
  let ?ids = "(case map_of (rg_ring r) h of None \<Rightarrow> [] | Some ids \<Rightarrow> ids) @ [node_id]"
  have k: "sorted (rg_keys r)" using assms by (simp add: ring_ok_def)
  show n: "rg_nodes (add_point node_id h r) = rg_nodes r" by (simp add: add_point_def Let_def)
  show ks: "set (rg_keys (add_point node_id h r)) = insert h (set (rg_keys r))"
    using sorted_keys_insert(2) [OF k] by (simp add: add_point_def Let_def)
  show o: "map_of (rg_ring (add_point node_id h r)) p = map_of (rg_ring r) p" if "p \<noteq> h" for p
    using that by (simp add: add_point_def Let_def update_conv)
  show m: "map_of (rg_ring (add_point node_id h r)) h = Some ?ids"
    by (simp add: add_point_def Let_def update_conv)
  have "set ?ids \<subseteq> fst ` set (rg_nodes r)" using assms by (cases "map_of (rg_ring r) h") (auto simp: ring_ok_def)
  moreover have "fst ` set (rg_ring (add_point node_id h r)) = insert h (fst ` set (rg_ring r))"
    by (simp add: add_point_def Let_def dom_update)
  moreover have "sorted (rg_keys (add_point node_id h r))"
    using sorted_keys_insert(1) [OF k] by (simp add: add_point_def Let_def)
  ultimately show "ring_ok (add_point node_id h r)"
    using assms(1) n ks o m unfolding ring_ok_def by (metis Nil_is_append_conv not_Cons_self2 option.inject)
qed

text \<open>The points of a node.\<close>

definition node_points :: "int \<Rightarrow> cache_node \<Rightarrow> 32 word set" where
  "node_points n nd = (\<lambda>i. fnv32a (replica_key nd i)) ` {0..<nat n}"

definition add_points :: "string \<Rightarrow> 32 word list \<Rightarrow> hash_ring \<Rightarrow> hash_ring" where
  "add_points i hs r = foldl (\<lambda>r h. add_point i h r) r hs"

lemma add_points_simps [simp]: "add_points i [] r = r" "add_points i (h # hs) r = add_points i hs (add_point i h r)"
  by (simp_all add: add_points_def)

lemma ring_add_points:
  "ring_add nd r = add_points (nd_id nd) (map (\<lambda>i. fnv32a (replica_key nd i)) [0..<nat (rg_replicas r)])
     (r\<lparr>rg_nodes := AList.update (nd_id nd) nd (rg_nodes r)\<rparr>)"
  by (simp add: ring_add_def add_points_def foldl_map)

text \<open>The node a point belongs to.\<close>

definition first_id :: "hash_ring \<Rightarrow> 32 word \<Rightarrow> string option" where
  "first_id r p = map_option hd (map_of (rg_ring r) p)"

text \<open>Points that were there keep their first node; new points get the new node.\<close>

definition grown :: "string \<Rightarrow> 32 word set \<Rightarrow> hash_ring \<Rightarrow> hash_ring \<Rightarrow> bool" where
  "grown i ps r r' \<longleftrightarrow> ring_ok r' \<and> rg_nodes r' = rg_nodes r \<and> set (rg_keys r') = set (rg_keys r) \<union> ps
    \<and> rg_replicas r' = rg_replicas r
    \<and> (\<forall>p \<in> set (rg_keys r). first_id r' p = first_id r p)
    \<and> (\<forall>p \<in> ps. p \<notin> set (rg_keys r) \<longrightarrow> first_id r' p = Some i)"

lemma grown_trans: "grown i ps r r1 \<Longrightarrow> grown i qs r1 r2 \<Longrightarrow> grown i (ps \<union> qs) r r2"
  unfolding grown_def by auto

lemma add_point_grown:
  assumes "ring_ok r" "i \<in> fst ` set (rg_nodes r)"
  shows "grown i {h} r (add_point i h r)"
proof -
  note a = add_point_ok [OF assms, where h = h]
  have rep: "rg_replicas (add_point i h r) = rg_replicas r" by (simp add: add_point_def Let_def)
  have old: "first_id (add_point i h r) p = first_id r p" if "p \<in> set (rg_keys r)" for p
  proof (cases "p = h")
    case True
    have "p \<in> fst ` set (rg_ring r)" using that assms(1) by (simp add: ring_ok_def)
    then obtain ids where ids: "map_of (rg_ring r) p = Some ids" by (metis map_of_eq_None_iff not_None_eq)
    moreover have "ids \<noteq> []" using ids assms(1) by (auto simp: ring_ok_def)
    ultimately show ?thesis using a(5) True by (simp add: first_id_def)
  next
    case False
    then show ?thesis using a(4) [OF False] by (simp add: first_id_def)
  qed
  have "first_id (add_point i h r) h = Some i" if "h \<notin> set (rg_keys r)"
  proof -
    have "h \<notin> fst ` set (rg_ring r)" using that assms(1) by (simp add: ring_ok_def)
    then have "map_of (rg_ring r) h = None" by (simp add: map_of_eq_None_iff)
    then show ?thesis using a(5) by (simp add: first_id_def)
  qed
  then show ?thesis using a(1,2,3) rep old by (simp add: grown_def)
qed

lemma add_points_grown: "ring_ok r \<Longrightarrow> i \<in> fst ` set (rg_nodes r) \<Longrightarrow> grown i (set hs) r (add_points i hs r)"
proof (induction hs arbitrary: r)
  case (Cons h hs)
  note g = add_point_grown [OF Cons.prems, of h]
  then have "grown i (set hs) (add_point i h r) (add_points i hs (add_point i h r))"
    using Cons.IH Cons.prems by (simp add: grown_def)
  with g show ?case using grown_trans [of i "{h}" r _ "set hs"] by simp
qed (simp add: grown_def)

lemma ring_add_grown:
  assumes "ring_ok r"
  shows "grown (nd_id nd) (node_points (rg_replicas r) nd) (r\<lparr>rg_nodes := AList.update (nd_id nd) nd (rg_nodes r)\<rparr>) (ring_add nd r)"
proof -
  let ?r = "r\<lparr>rg_nodes := AList.update (nd_id nd) nd (rg_nodes r)\<rparr>"
  have "ring_ok ?r" using assms unfolding ring_ok_def by (simp add: dom_update) blast
  moreover have "nd_id nd \<in> fst ` set (rg_nodes ?r)" by (simp add: dom_update)
  ultimately show ?thesis
    using add_points_grown [of ?r "nd_id nd" "map (\<lambda>i. fnv32a (replica_key nd i)) [0..<nat (rg_replicas r)]"]
    by (simp add: ring_add_points node_points_def)
qed

lemma ring_get_eq:
  assumes ok: "ring_ok r" and k: "rg_keys r \<noteq> []"
  shows "ring_get key r = Some (Option.bind (first_id r (clockwise (fnv32a key) (set (rg_keys r)))) (map_of (rg_nodes r)))"
proof -
  let ?p = "clockwise (fnv32a key) (set (rg_keys r))"
  have s: "sorted (rg_keys r)" using ok by (simp add: ring_ok_def)
  note c = ring_index_clockwise [OF s k, of "fnv32a key"]
  have "?p \<in> set (rg_keys r)"
    unfolding c [symmetric] using k by (auto intro: nth_mem)
  then have "?p \<in> fst ` set (rg_ring r)" using ok by (simp add: ring_ok_def)
  then obtain ids where m: "map_of (rg_ring r) ?p = Some ids" by (metis map_of_eq_None_iff not_None_eq)
  then have i: "ids \<noteq> []" "set ids \<subseteq> fst ` set (rg_nodes r)" using ok by (auto simp: ring_ok_def)
  then obtain a as where a: "ids = a # as" by (cases ids) auto
  then have "rg_nodes r \<noteq> []" using i by auto
  then show ?thesis using k m a by (simp add: ring_get_def Let_def c first_id_def)
qed

text \<open>Rings built by adding nodes one after the other.\<close>

definition ring_of :: "int \<Rightarrow> cache_node list \<Rightarrow> hash_ring" where
  "ring_of n nds = foldl (\<lambda>r nd. ring_add nd r) (new_ring n) nds"

lemma ring_of_simps [simp]: "ring_of n [] = new_ring n" "ring_of n (nds @ [nd]) = ring_add nd (ring_of n nds)"
  by (simp_all add: ring_of_def)

lemma ring_of_ok:
  "ring_ok (ring_of n nds) \<and> rg_replicas (ring_of n nds) = n \<and> set (rg_keys (ring_of n nds)) = (\<Union>nd \<in> set nds. node_points n nd)
   \<and> fst ` set (rg_nodes (ring_of n nds)) = nd_id ` set nds
   \<and> (\<forall>i nd. map_of (rg_nodes (ring_of n nds)) i = Some nd \<longrightarrow> nd \<in> set nds \<and> nd_id nd = i)
   \<and> (\<forall>p \<in> set (rg_keys (ring_of n nds)). \<exists>nd \<in> set nds. first_id (ring_of n nds) p = Some (nd_id nd) \<and> p \<in> node_points n nd)"
proof (induction nds rule: rev_induct)
  case Nil
  then show ?case by (simp add: new_ring_ok) (simp add: new_ring_def)
next
  case (snoc nd nds)
  let ?r = "ring_of n nds"
  have g: "grown (nd_id nd) (node_points n nd) (?r\<lparr>rg_nodes := AList.update (nd_id nd) nd (rg_nodes ?r)\<rparr>) (ring_add nd ?r)"
    using ring_add_grown [of ?r nd] snoc.IH by simp
  then have keys: "set (rg_keys (ring_add nd ?r)) = set (rg_keys ?r) \<union> node_points n nd"
    and nodes: "rg_nodes (ring_add nd ?r) = AList.update (nd_id nd) nd (rg_nodes ?r)"
    by (simp_all add: grown_def)
  have fi: "\<exists>m \<in> set (nds @ [nd]). first_id (ring_add nd ?r) p = Some (nd_id m) \<and> p \<in> node_points n m"
    if "p \<in> set (rg_keys (ring_add nd ?r))" for p
  proof (cases "p \<in> set (rg_keys ?r)")
    case True
    then have "first_id (ring_add nd ?r) p = first_id ?r p" using g by (simp add: grown_def first_id_def)
    then show ?thesis using snoc.IH True by auto
  next
    case False
    then have "p \<in> node_points n nd" using that keys by blast
    then show ?thesis using g False by (auto simp: grown_def)
  qed
  have "map_of (rg_nodes (ring_add nd ?r)) i = Some m \<Longrightarrow> m \<in> set (nds @ [nd]) \<and> nd_id m = i" for i m
    using snoc.IH by (auto simp: nodes update_conv split: if_splits)
  moreover have "fst ` set (rg_nodes (ring_add nd ?r)) = nd_id ` set (nds @ [nd])"
    using snoc.IH by (simp add: nodes dom_update)
  moreover have "ring_ok (ring_add nd ?r) \<and> rg_replicas (ring_add nd ?r) = n"
    using g snoc.IH by (simp add: grown_def)
  moreover have "set (rg_keys (ring_add nd ?r)) = (\<Union>m \<in> set (nds @ [nd]). node_points n m)"
    using keys snoc.IH by auto
  ultimately show ?case using fi unfolding ring_of_simps by blast
qed

lemma node_points_nonempty: "0 < n \<Longrightarrow> node_points n nd \<noteq> {}"
  by (simp add: node_points_def)

lemma clockwise_in: "finite ps \<Longrightarrow> ps \<noteq> {} \<Longrightarrow> clockwise h ps \<in> ps"
proof -
  assume ps: "finite ps" "ps \<noteq> {}"
  show ?thesis
  proof (cases "\<exists>p \<in> ps. h \<le> p")
    case True
    then have "Min {p \<in> ps. h \<le> p} \<in> {p \<in> ps. h \<le> p}" using ps by (intro Min_in) auto
    with True show ?thesis by (simp add: clockwise_def)
  qed (use ps in \<open>simp add: clockwise_def\<close>)
qed

lemma clockwise_subset:
  assumes "finite qs" "ps \<subseteq> qs" "clockwise h qs \<in> ps"
  shows "clockwise h qs = clockwise h ps"
proof (cases "\<exists>p \<in> qs. h \<le> p")
  case True
  let ?m = "Min {p \<in> qs. h \<le> p}"
  have m: "?m \<in> {p \<in> qs. h \<le> p}" using True assms(1) by (intro Min_in) auto
  have c: "clockwise h qs = ?m" using True by (simp add: clockwise_def)
  have "?m \<le> x" if "x \<in> ps" "h \<le> x" for x using that assms(1,2) by (intro Min_le) auto
  then have "Min {p \<in> ps. h \<le> p} = ?m"
    using m assms c finite_subset [OF assms(2,1)] by (intro Min_eqI) auto
  then show ?thesis using m assms(3) c by (auto simp: clockwise_def)
next
  case False
  then have c: "clockwise h qs = Min qs" "clockwise h ps = Min ps" using assms(2) by (auto simp: clockwise_def)
  have "Min ps = Min qs"
    using assms c finite_subset [OF assms(2,1)] by (intro Min_eqI) auto
  then show ?thesis by (simp add: c)
qed

text \<open>On a ring with at least one replica per node and at least one node, a key belongs to a node that
  was added, and that node's identifier is the one of a node with a point at the place where a walk
  clockwise from the key's hash first meets a point: the binary search over the sorted points and the
  wrap-around agree with the least point at or after the hash, or else the least of all.\<close>

theorem ring_get_walks_clockwise:
  assumes "0 < n" "nds \<noteq> []"
  shows "\<exists>nd \<in> set nds. \<exists>m \<in> set nds. ring_get key (ring_of n nds) = Some (Some nd) \<and> nd_id nd = nd_id m
    \<and> clockwise (fnv32a key) (\<Union>x \<in> set nds. node_points n x) \<in> node_points n m"
proof -
  let ?r = "ring_of n nds" let ?ps = "\<Union>x \<in> set nds. node_points n x"
  note ok = ring_of_ok [of n nds]
  have ne: "?ps \<noteq> {}" using assms node_points_nonempty by (cases nds) auto
  then have k: "rg_keys ?r \<noteq> []" using ok by (metis set_empty)
  let ?p = "clockwise (fnv32a key) ?ps"
  have p: "?p \<in> set (rg_keys ?r)" using clockwise_in [of ?ps "fnv32a key"] ne ok by (simp add: node_points_def)
  then obtain m where m: "m \<in> set nds" "first_id ?r ?p = Some (nd_id m)" "?p \<in> node_points n m" using ok by blast
  have "nd_id m \<in> fst ` set (rg_nodes ?r)" using ok m by simp
  then obtain nd where nd: "map_of (rg_nodes ?r) (nd_id m) = Some nd" by (metis map_of_eq_None_iff not_None_eq)
  then have "nd \<in> set nds \<and> nd_id nd = nd_id m" using ok by blast
  moreover have "ring_get key ?r = Some (Some nd)" using ring_get_eq [OF _ k, of key] ok m nd by simp
  ultimately show ?thesis using m by blast
qed

text \<open>Adding a node to such a ring moves keys to the new node only: every key that does not now belong
  to the new node belongs to the node it belonged to before.\<close>

theorem new_node_takes_keys_only_for_itself:
  assumes "0 < n" "nds \<noteq> []" "nd_id nd \<notin> nd_id ` set nds"
  shows "ring_get key (ring_of n (nds @ [nd])) \<in> {Some (Some nd), ring_get key (ring_of n nds)}"
proof -
  let ?r = "ring_of n nds" let ?s = "ring_of n (nds @ [nd])" let ?h = "fnv32a key"
  note okr = ring_of_ok [of n nds] and oks = ring_of_ok [of n "nds @ [nd]"]
  have ne: "set (rg_keys ?r) \<noteq> {}" using okr assms node_points_nonempty by (cases nds) auto
  have g: "grown (nd_id nd) (node_points n nd) (?r\<lparr>rg_nodes := AList.update (nd_id nd) nd (rg_nodes ?r)\<rparr>) ?s"
    using ring_add_grown [of ?r nd] okr by simp
  then have keys: "set (rg_keys ?s) = set (rg_keys ?r) \<union> node_points n nd"
    and nodes: "rg_nodes ?s = AList.update (nd_id nd) nd (rg_nodes ?r)" by (simp_all add: grown_def)
  let ?p = "clockwise ?h (set (rg_keys ?s))"
  have kr: "rg_keys ?r \<noteq> []" and ks: "rg_keys ?s \<noteq> []" using ne keys by auto
  have gs: "ring_get key ?s = Some (Option.bind (first_id ?s ?p) (map_of (rg_nodes ?s)))"
    and gr: "ring_get key ?r = Some (Option.bind (first_id ?r (clockwise ?h (set (rg_keys ?r)))) (map_of (rg_nodes ?r)))"
    by (rule ring_get_eq [OF _ ks] ring_get_eq [OF _ kr]; use oks okr in blast)+
  have pin: "?p \<in> set (rg_keys ?s)" using clockwise_in [of "set (rg_keys ?s)"] ks by simp
  show ?thesis
  proof (cases "?p \<in> set (rg_keys ?r)")
    case False
    then have "first_id ?s ?p = Some (nd_id nd)" using g pin keys by (auto simp: grown_def)
    then have "ring_get key ?s = Some (Some nd)" unfolding gs nodes by (simp add: update_conv)
    then show ?thesis by simp
  next
    case True
    have same: "?p = clockwise ?h (set (rg_keys ?r))"
      by (rule clockwise_subset [OF _ _ True]) (use keys in auto)
    obtain m where m: "m \<in> set nds" "first_id ?r ?p = Some (nd_id m)" using okr True by blast
    have ne': "nd_id m \<noteq> nd_id nd" using m assms(3) by (metis imageI)
    have "first_id ?s ?p = first_id ?r ?p" using g True by (simp add: grown_def first_id_def)
    then have "ring_get key ?s = ring_get key ?r"
      using m ne' unfolding gs gr same [symmetric] nodes by (simp add: update_conv)
    then show ?thesis by simp
  qed
qed

text \<open>With no replicas per node the ring has nodes and no points, and a read panics.\<close>

lemma ring_without_replicas_panics: "n \<le> 0 \<Longrightarrow> ring_get key (ring_of n [nd]) = None"
proof -
  assume n: "n \<le> 0"
  have "ring_of n [nd] = ring_add nd (new_ring n)" by (simp add: ring_of_def)
  then show ?thesis using n by (simp add: ring_add_def new_ring_def ring_get_def)
qed

section \<open>The sharded store\<close>

text \<open>A value that was set is what the store reads for its key, and setting it changes the answer for no
  other key, whether the shards hold it in memory or it comes from behind them.\<close>

theorem shards_read_their_writes:
  assumes "s \<noteq> []" "length s < 2 ^ 32"
  shows "fst (shard_get remote key (shard_set k v s)) = (if key = k then Some v else fst (shard_get remote key s))"
proof -
  have l: "length (shard_set k v s) = length s" by (simp add: shard_set_def Let_def)
  have i: "shard_index k s < length s"
    using assms by (simp add: shard_index_def unat_mod unat_of_nat)
  have same: "shard_index j (shard_set k v s) = shard_index j s" for j by (simp add: shard_index_def l)
  have "shard_set k v s ! shard_index key s
      = (if shard_index key s = shard_index k s then AList.update k v (s ! shard_index key s) else s ! shard_index key s)"
    using i by (simp add: shard_set_def Let_def)
  moreover have "shard_index key s = shard_index k s" if "key = k" using that by simp
  ultimately show ?thesis by (auto simp: shard_get_def Let_def same update_conv split: option.splits)
qed

section \<open>Witnesses\<close>

definition node_a :: cache_node where
  "node_a = \<lparr>nd_host = ''10.0.0.1'', nd_port = 7000, nd_id = ''a''\<rparr>"

definition node_b :: cache_node where
  "node_b = \<lparr>nd_host = ''10.0.0.2'', nd_port = 7000, nd_id = ''b''\<rparr>"

lemma ring_get_witness: "ring_get ''ETH'' (ring_of 150 [node_a]) = Some (Some node_a)"
  using ring_get_walks_clockwise [of 150 "[node_a]" "''ETH''"] by simp

lemma new_node_witness:
  "ring_get ''ETH'' (ring_of 150 [node_a, node_b]) \<in> {Some (Some node_b), ring_get ''ETH'' (ring_of 150 [node_a])}"
  using new_node_takes_keys_only_for_itself [of 150 "[node_a]" node_b "''ETH''"] by (simp add: node_a_def node_b_def)

lemma length_new_shards [simp]: "length (new_shards n) = n" "new_shards n = [] \<longleftrightarrow> n = 0"
  by (simp_all add: new_shards_def)

lemma shards_witness:
  "fst (shard_get (\<lambda>_. None) ''ETH'' (shard_set ''ETH'' (3200 :: int) (new_shards 16))) = Some 3200"
  using shards_read_their_writes [of "new_shards 16" "\<lambda>_. None" "''ETH''" "''ETH''" "3200 :: int"] by simp

end
