(* ===== verification/Option_Service.thy ===== *)
theory Option_Service
  imports Airdrop Option_Math Go_Float
begin

text \<open>
  The option market (\<open>services/option_service.go\<close>): series of European options that are written
  against a pool of collateral. Liquidity providers deposit, buyers pay the premium of
  \<open>option_math.go\<close> into the pool, holders exercise after the settlement. As in the airdrops, a
  handler reads its early checks in \<open>d0\<close> and runs its transaction in a later state \<open>d\<close>, on the series
  re-read under a row lock; \<open>fault\<close> says which database calls fail. The row lock serialises the
  transactions of a series, so positions and deposits are keyed by (series, user). The text of an
  error that is passed through to the client is the parameter \<open>msg\<close>. A handler whose reply is
  decorated with the Greeks may panic: its result is then \<open>None\<close> in place of a reply.
\<close>

section \<open>Tables\<close>

record option_series =
  sr_key :: string
  sr_name :: string
  sr_chain :: int64
  sr_underlying :: string
  sr_token :: string
  sr_symbol :: string
  sr_decimals :: int
  sr_strike :: string
  sr_base_iv :: string
  sr_expiry :: time
  sr_is_call :: bool
  sr_mark_price :: string
  sr_collateral :: string
  sr_locked :: string
  sr_premium :: string
  sr_long_size :: string
  sr_settlement :: "string option"
  sr_status :: string
  sr_created_by :: string

record option_position =
  op_size :: string
  op_premium :: string
  op_payout :: string

record option_db =
  os_series :: "(string \<times> option_series) list"
  os_positions :: "((string \<times> string) \<times> option_position) list"
  os_liquidity :: "((string \<times> string) \<times> string) list"
  os_accounts :: accounts

definition option_active :: string where "option_active = ''active''"
definition option_paused :: string where "option_paused = ''paused''"
definition option_expired :: string where "option_expired = ''expired''"
definition option_settled :: string where "option_settled = ''settled''"

definition allowed_option_status :: "string \<Rightarrow> bool" where
  "allowed_option_status s \<longleftrightarrow> s \<in> {option_active, option_paused, option_expired, option_settled}"

definition option_collateral_symbol :: "string \<Rightarrow> bool" where
  "option_collateral_symbol s \<longleftrightarrow> s \<in> {''RUSD'', ''USDT'', ''USDC'', ''RYUSD''}"

definition risk_free_rate :: int where "risk_free_rate = 50000000000000000"
definition max_iv :: int where "max_iv = 5000000000000000000"
definition iv_skew :: int where "iv_skew = 2000000000000000000"

datatype option_call =
  Load_series | Check_key | Create_series | Update_series | Reload_series | List_series | Lock_series
| Write_series | Read_liquidity | Write_liquidity | Read_position | Write_position | List_positions
| Load_series_of string | Commit_option | Option_balance ledger_call

section \<open>Pricing a series\<close>

datatype price_error =
  Series_settled | Not_settled | Mark_error wad_error | Strike_error wad_error | Iv_error wad_error
| Settlement_error wad_error | Pricing_error opt_error

definition series_amount :: "string \<Rightarrow> int" where
  "series_amount raw = stored_amount (trim_space raw)"

definition implied_volatility :: "option_series \<Rightarrow> price_error + int" where
  "implied_volatility s =
     and_then (map_error Iv_error (parse_wad (sr_base_iv s))) (\<lambda>base.
       let collateral = series_amount (sr_collateral s) in
       if collateral = 0 then Inr base
       else
         let locked = series_amount (sr_locked s);
             used = quo (locked * wad) collateral;
             utilization = (if wad < used then wad else used);
             iv = base + quo (iv_skew * utilization) wad
         in Inr (if max_iv < iv then max_iv else iv))"

definition seconds_to_expiry :: "option_series \<Rightarrow> time \<Rightarrow> int64" where
  "seconds_to_expiry s now = f64_to_int64 (duration_seconds (time_sub (sr_expiry s) now))"

definition option_premium :: "option_series \<Rightarrow> int \<Rightarrow> time \<Rightarrow> price_error + int" where
  "option_premium s qty now =
     (if sr_status s = option_settled then Inl Series_settled
      else if sr_expiry s \<le> now then Inr 0
      else
        and_then (map_error Mark_error (parse_wad (sr_mark_price s))) (\<lambda>mark.
        and_then (map_error Strike_error (parse_wad (sr_strike s))) (\<lambda>strike.
        and_then (implied_volatility s) (\<lambda>iv.
        and_then (map_error Pricing_error
                    (black_scholes mark strike (seconds_to_expiry s now) risk_free_rate iv (sr_is_call s)))
          (\<lambda>unit_price. Inr (opt_mul unit_price qty))))))"

definition required_collateral :: "option_series \<Rightarrow> int \<Rightarrow> price_error + int" where
  "required_collateral s qty =
     and_then (if sr_is_call s then map_error Mark_error (parse_wad (sr_mark_price s))
               else map_error Strike_error (parse_wad (sr_strike s)))
       (\<lambda>per_unit. Inr (opt_mul per_unit qty))"

definition payout_at :: "option_series \<Rightarrow> int \<Rightarrow> price_error + int" where
  "payout_at s qty =
     (case sr_settlement s of
        None \<Rightarrow> Inl Not_settled
      | Some text \<Rightarrow>
          and_then (map_error Settlement_error (parse_wad text)) (\<lambda>price.
          and_then (map_error Strike_error (parse_wad (sr_strike s))) (\<lambda>strike.
            Inr (opt_mul (intrinsic_value price strike (sr_is_call s)) qty))))"

record series_view =
  vw_series :: option_series
  vw_iv :: string
  vw_delta :: string
  vw_gamma :: string
  vw_vega :: string
  vw_theta :: string
  vw_premium :: string
  vw_expired :: bool

definition build_series_view :: "option_series \<Rightarrow> time \<Rightarrow> series_view option" where
  "build_series_view s now =
     (let v0 = \<lparr>vw_series = s, vw_iv = ''0'', vw_delta = ''0'', vw_gamma = ''0'', vw_vega = ''0'',
                vw_theta = ''0'', vw_premium = ''0'', vw_expired = (sr_expiry s \<le> now)\<rparr> in
      case implied_volatility s of
        Inl _ \<Rightarrow> Some v0
      | Inr iv \<Rightarrow>
          let v1 = v0\<lparr>vw_iv := format_wad (Some iv)\<rparr> in
          (case (parse_wad (sr_mark_price s), parse_wad (sr_strike s)) of
             (Inr mark, Inr strike) \<Rightarrow>
               let priced = (\<lambda>v. case option_premium s wad now of
                               Inl _ \<Rightarrow> v
                             | Inr p \<Rightarrow> v\<lparr>vw_premium := format_wad (Some p)\<rparr>) in
               (case greeks mark strike (seconds_to_expiry s now) risk_free_rate iv (sr_is_call s) of
                  Inl Panic_division \<Rightarrow> None
                | Inl _ \<Rightarrow> Some (priced v1)
                | Inr g \<Rightarrow>
                    Some (priced (v1\<lparr>vw_delta := format_wad (Some (gr_delta g)), vw_gamma := format_wad (Some (gr_gamma g)),
                                     vw_vega := format_wad (Some (gr_vega g)), vw_theta := format_wad (Some (gr_theta g))\<rparr>)))
           | _ \<Rightarrow> Some v1))"

text \<open>The views of a list, one after the other; one panic ends them all.\<close>

fun build_series_views :: "option_series list \<Rightarrow> time \<Rightarrow> series_view list option" where
  "build_series_views [] now = Some []"
| "build_series_views (s # ss) now =
     (case build_series_view s now of
        None \<Rightarrow> None
      | Some v \<Rightarrow> map_option ((#) v) (build_series_views ss now))"

section \<open>Series management\<close>

definition load_series :: "(option_call \<Rightarrow> bool) \<Rightarrow> string \<Rightarrow> option_db \<Rightarrow> load_error + option_series" where
  "load_series fault i d =
     (if fault Load_series then Inl Campaign_load_failed
      else case map_of (os_series d) i of None \<Rightarrow> Inl Campaign_not_found | Some s \<Rightarrow> Inr s)"

fun series_load_reply :: "load_error \<Rightarrow> 'a reply" where
  "series_load_reply Campaign_not_found = Error_reply 404 ''series not found''"
| "series_load_reply Campaign_load_failed = Error_reply 500 ''failed to load series''"

definition modify_series :: "string \<Rightarrow> (option_series \<Rightarrow> option_series) \<Rightarrow> option_db \<Rightarrow> option_db" where
  "modify_series i f d =
     (case map_of (os_series d) i of
        None \<Rightarrow> d
      | Some s \<Rightarrow> d\<lparr>os_series := AList.update i (f s) (os_series d)\<rparr>)"

definition positive_wad :: "string \<Rightarrow> int option" where
  "positive_wad raw = (case parse_wad raw of Inl _ \<Rightarrow> None | Inr n \<Rightarrow> if n \<le> 0 then None else Some n)"

definition valid_iv :: "string \<Rightarrow> int option" where
  "valid_iv raw =
     (case parse_wad raw of Inl _ \<Rightarrow> None | Inr n \<Rightarrow> if n \<le> 0 \<or> max_iv < n then None else Some n)"

text \<open>The reply that shows one series, with the code of success.\<close>

definition view_reply :: "nat \<Rightarrow> option_series \<Rightarrow> time \<Rightarrow> series_view reply option" where
  "view_reply ok s now = map_option (Ok_reply ok) (build_series_view s now)"

record create_series_req =
  cs_key :: string
  cs_name :: string
  cs_chain :: int64
  cs_underlying :: string
  cs_token :: string
  cs_symbol :: string
  cs_decimals :: "int option"
  cs_strike :: string
  cs_base_iv :: string
  cs_expiry :: string
  cs_is_call :: "bool option"
  cs_mark_price :: string
  cs_status :: string

definition bind_series :: "create_series_req option \<Rightarrow> create_series_req option" where
  "bind_series body =
     (case body of
        None \<Rightarrow> None
      | Some r \<Rightarrow>
          if cs_key r = [] \<or> cs_name r = [] \<or> cs_chain r = 0 \<or> cs_underlying r = [] \<or> cs_symbol r = []
             \<or> cs_strike r = [] \<or> cs_base_iv r = [] \<or> cs_expiry r = [] \<or> cs_is_call r = None \<or> cs_mark_price r = []
          then None else Some r)"

text \<open>The row that a valid request creates: without collateral, and paused unless it asks otherwise.\<close>

definition new_series ::
  "create_series_req \<Rightarrow> string \<Rightarrow> string \<Rightarrow> int \<Rightarrow> int \<Rightarrow> int \<Rightarrow> time \<Rightarrow> option_series" where
  "new_series r user token strike iv mark expiry =
     (let raw_status = to_lower (trim_space (cs_status r)) in
      \<lparr>sr_key = trim_space (cs_key r), sr_name = trim_space (cs_name r), sr_chain = cs_chain r,
       sr_underlying = to_upper (trim_space (cs_underlying r)), sr_token = token,
       sr_symbol = to_upper (trim_space (cs_symbol r)),
       sr_decimals = (case cs_decimals r of None \<Rightarrow> 18 | Some n \<Rightarrow> n),
       sr_strike = format_wad (Some strike), sr_base_iv = format_wad (Some iv), sr_expiry = expiry,
       sr_is_call = the (cs_is_call r), sr_mark_price = format_wad (Some mark),
       sr_collateral = ''0'', sr_locked = ''0'', sr_premium = ''0'', sr_long_size = ''0'', sr_settlement = None,
       sr_status = (if raw_status = [] then option_paused else raw_status), sr_created_by = user\<rparr>)"

text \<open>The checks of a request, in their order: the text of the refusal, or what was parsed.\<close>

definition check_series ::
  "(string \<Rightarrow> string option) \<Rightarrow> (string \<Rightarrow> time option) \<Rightarrow> time \<Rightarrow> create_series_req \<Rightarrow>
     string + string \<times> int \<times> int \<times> int \<times> time" where
  "check_series hex_address parse_time now r =
     (let decimals = (case cs_decimals r of None \<Rightarrow> 18 | Some n \<Rightarrow> n);
          raw_status = to_lower (trim_space (cs_status r)) in
      if trim_space (cs_key r) = [] \<or> trim_space (cs_name r) = [] then Inl ''key and name are required''
      else if cs_chain r \<le> 0 then Inl ''chain_id must be positive''
      else if trim_space (cs_underlying r) = [] then Inl ''underlying_symbol is required''
      else if \<not> option_collateral_symbol (to_upper (trim_space (cs_symbol r)))
        then Inl ''collateral_token_symbol must be RUSD, USDT, USDC or RYUSD''
      else (case token_key_or_native hex_address (cs_token r) of
        None \<Rightarrow> Inl ''token address is not a valid address''
      | Some token \<Rightarrow>
          if decimals < 0 \<or> 36 < decimals then Inl ''collateral_token_decimals must be between 0 and 36''
          else (case positive_wad (cs_strike r) of
            None \<Rightarrow> Inl ''strike must be a positive number''
          | Some strike \<Rightarrow>
            (case valid_iv (cs_base_iv r) of
              None \<Rightarrow> Inl ''base_iv must be positive and at most 5''
            | Some iv \<Rightarrow>
              (case positive_wad (cs_mark_price r) of
                None \<Rightarrow> Inl ''mark_price must be a positive number''
              | Some mark \<Rightarrow>
                (case parse_time (trim_space (cs_expiry r)) of
                  None \<Rightarrow> Inl ''expiry must be an RFC3339 timestamp''
                | Some expiry \<Rightarrow>
                    if expiry \<le> now then Inl ''expiry must be in the future''
                    else if raw_status \<noteq> [] \<and> \<not> allowed_option_status raw_status
                      then Inl ''status must be active, paused, expired or settled''
                    else Inr (token, strike, iv, mark, expiry)))))))"

definition create_series ::
  "(string \<Rightarrow> string option) \<Rightarrow> (string \<Rightarrow> time option) \<Rightarrow> (option_call \<Rightarrow> bool) \<Rightarrow> time \<Rightarrow> string \<Rightarrow> string \<Rightarrow>
     create_series_req option \<Rightarrow> option_db \<Rightarrow> option_db \<Rightarrow> option_db \<times> series_view reply option" where
  "create_series hex_address parse_time fault now new_id user body d0 d =
     (case bind_series body of
        None \<Rightarrow> (d, Some Bad_binding)
      | Some r \<Rightarrow>
          (case check_series hex_address parse_time now r of
             Inl text \<Rightarrow> (d, Some (Error_reply 400 text))
           | Inr (token, strike, iv, mark, expiry) \<Rightarrow>
               if fault Check_key then (d, Some (Error_reply 500 ''failed to check for an existing series''))
               else if \<exists>(i, s) \<in> set (os_series d0). sr_key s = trim_space (cs_key r)
                 then (d, Some (Error_reply 409 ''a series with that key already exists''))
               else if fault Create_series \<or> (\<exists>(i, s) \<in> set (os_series d). sr_key s = trim_space (cs_key r) \<or> i = new_id)
                 then (d, Some (Error_reply 500 ''failed to create series''))
               else
                 let s = new_series r user token strike iv mark expiry
                 in (d\<lparr>os_series := AList.update new_id s (os_series d)\<rparr>, view_reply 201 s now)))"

text \<open>The frame of the handlers on one series; \<open>pre\<close> is checked between the identifier and the load.\<close>

definition with_series ::
  "(string \<Rightarrow> string option) \<Rightarrow> (option_call \<Rightarrow> bool) \<Rightarrow> string \<Rightarrow> 'a reply option \<Rightarrow>
     (string \<Rightarrow> option_series \<Rightarrow> option_db \<times> 'a reply) \<Rightarrow> option_db \<Rightarrow> option_db \<Rightarrow> option_db \<times> 'a reply" where
  "with_series parse_uuid fault raw_id pre k d0 d =
     (case parse_uuid raw_id of
        None \<Rightarrow> (d, Error_reply 400 ''invalid series id'')
      | Some i \<Rightarrow>
          (case pre of
             Some r \<Rightarrow> (d, r)
           | None \<Rightarrow>
               (case load_series fault i d0 of
                  Inl e \<Rightarrow> (d, series_load_reply e)
                | Inr s \<Rightarrow> k i s)))"

text \<open>A handler that answers with the view of the row it wrote. The view may panic.\<close>

definition show_series ::
  "(option_call \<Rightarrow> bool) \<Rightarrow> string \<Rightarrow> time \<Rightarrow> option_db \<times> unit reply \<Rightarrow> option_db \<times> series_view reply option" where
  "show_series fault i now x =
     (case x of
        (d', Ok_reply n _) \<Rightarrow>
          (d', if fault Reload_series then Some (Error_reply 500 ''failed to reload series'')
               else (case map_of (os_series d') i of
                       None \<Rightarrow> Some (Error_reply 500 ''failed to reload series'')
                     | Some s \<Rightarrow> view_reply n s now))
      | (d', Error_reply n text) \<Rightarrow> (d', Some (Error_reply n text))
      | (d', Bad_binding) \<Rightarrow> (d', Some Bad_binding))"

record update_series_req =
  us_name :: "string option"
  us_base_iv :: "string option"
  us_mark_price :: "string option"
  us_expiry :: "string option"
  us_status :: "string option"

definition update_series_tx ::
  "(string \<Rightarrow> time option) \<Rightarrow> (option_call \<Rightarrow> bool) \<Rightarrow> time \<Rightarrow> update_series_req \<Rightarrow> string \<Rightarrow> option_series \<Rightarrow>
     option_db \<Rightarrow> option_db \<times> unit reply" where
  "update_series_tx parse_time fault now r i s d =
     (let bad = (\<lambda>text. (d, Error_reply 400 text));
          name = map_option trim_space (us_name r); iv = map_option valid_iv (us_base_iv r);
          mark = map_option positive_wad (us_mark_price r);
          expiry = map_option (\<lambda>t. parse_time (trim_space t)) (us_expiry r);
          status = map_option (\<lambda>t. to_lower (trim_space t)) (us_status r) in
      if sr_status s = option_settled then (d, Error_reply 409 ''a settled series cannot be edited'')
      else if name = Some [] then bad ''name must not be empty''
      else if iv = Some None then bad ''base_iv must be positive and at most 5''
      else if mark = Some None then bad ''mark_price must be a positive number''
      else if expiry = Some None then bad ''expiry must be an RFC3339 timestamp''
      else if (case expiry of Some (Some t) \<Rightarrow> t \<le> now | _ \<Rightarrow> False) then bad ''expiry must be in the future''
      else if (case status of Some t \<Rightarrow> \<not> allowed_option_status t | None \<Rightarrow> False)
        then bad ''status must be active, paused, expired or settled''
      else if status = Some option_settled then bad ''use the settle endpoint to settle a series''
      else if name = None \<and> iv = None \<and> mark = None \<and> expiry = None \<and> status = None
        then bad ''no updatable fields were provided''
      else if fault Update_series then (d, Error_reply 500 ''failed to update series'')
      else
        (modify_series i (\<lambda>row. row\<lparr>
            sr_name := (case name of None \<Rightarrow> sr_name row | Some n \<Rightarrow> n),
            sr_base_iv := (case iv of Some (Some v) \<Rightarrow> format_wad (Some v) | _ \<Rightarrow> sr_base_iv row),
            sr_mark_price := (case mark of Some (Some v) \<Rightarrow> format_wad (Some v) | _ \<Rightarrow> sr_mark_price row),
            sr_expiry := (case expiry of Some (Some t) \<Rightarrow> t | _ \<Rightarrow> sr_expiry row),
            sr_status := (case status of None \<Rightarrow> sr_status row | Some t \<Rightarrow> t)\<rparr>) d,
         Ok_reply 200 ()))"

definition series_of :: "(string \<Rightarrow> string option) \<Rightarrow> string \<Rightarrow> string" where
  "series_of parse_uuid raw_id = (case parse_uuid raw_id of None \<Rightarrow> [] | Some i \<Rightarrow> i)"

definition update_series ::
  "(string \<Rightarrow> string option) \<Rightarrow> (string \<Rightarrow> time option) \<Rightarrow> (option_call \<Rightarrow> bool) \<Rightarrow> time \<Rightarrow> string \<Rightarrow>
     update_series_req option \<Rightarrow> option_db \<Rightarrow> option_db \<Rightarrow> option_db \<times> series_view reply option" where
  "update_series parse_uuid parse_time fault now raw_id body d0 d =
     show_series fault (series_of parse_uuid raw_id) now
       (with_series parse_uuid fault raw_id (if body = None then Some Bad_binding else None)
          (\<lambda>i s. update_series_tx parse_time fault now (the body) i s d) d0 d)"

definition delete_series ::
  "(string \<Rightarrow> string option) \<Rightarrow> (option_call \<Rightarrow> bool) \<Rightarrow> string \<Rightarrow> option_db \<Rightarrow> option_db \<Rightarrow> option_db \<times> string reply" where
  "delete_series parse_uuid fault raw_id d0 d =
     with_series parse_uuid fault raw_id None (\<lambda>i s.
       if 0 < series_amount (sr_long_size s) then (d, Error_reply 409 ''series still has open positions'')
       else if 0 < series_amount (sr_collateral s)
         then (d, Error_reply 409 ''series still holds collateral; LPs must withdraw first'')
       else if fault Update_series then (d, Error_reply 500 ''failed to close series'')
       else (modify_series i (\<lambda>row. row\<lparr>sr_status := option_expired\<rparr>) d, Ok_reply 200 option_expired)) d0 d"

definition series_list_reply :: "(option_call \<Rightarrow> bool) \<Rightarrow> option_series list \<Rightarrow> time \<Rightarrow> series_view list reply option" where
  "series_list_reply fault ss now =
     (if fault List_series then Some (Error_reply 500 ''failed to list series'')
      else map_option (Ok_reply 200) (build_series_views ss now))"

definition get_series :: "(option_call \<Rightarrow> bool) \<Rightarrow> time \<Rightarrow> option_db \<Rightarrow> series_view list reply option" where
  "get_series fault now d = series_list_reply fault (map snd (os_series d)) now"

definition get_active_series :: "(option_call \<Rightarrow> bool) \<Rightarrow> time \<Rightarrow> option_db \<Rightarrow> series_view list reply option" where
  "get_active_series fault now d =
     series_list_reply fault
       (sort_key sr_expiry (filter (\<lambda>s. sr_status s = option_active \<and> now < sr_expiry s) (map snd (os_series d)))) now"

definition get_series_detail ::
  "(string \<Rightarrow> string option) \<Rightarrow> (option_call \<Rightarrow> bool) \<Rightarrow> time \<Rightarrow> string \<Rightarrow> option_db \<Rightarrow> series_view reply option" where
  "get_series_detail parse_uuid fault now raw_id d =
     (case parse_uuid raw_id of
        None \<Rightarrow> Some (Error_reply 400 ''invalid series id'')
      | Some i \<Rightarrow>
          (case load_series fault i d of
             Inl e \<Rightarrow> Some (series_load_reply e)
           | Inr s \<Rightarrow> view_reply 200 s now))"

section \<open>Settlement and the mark price\<close>

definition settle_series ::
  "(string \<Rightarrow> string option) \<Rightarrow> (option_call \<Rightarrow> bool) \<Rightarrow> time \<Rightarrow> string \<Rightarrow> string option \<Rightarrow>
     option_db \<Rightarrow> option_db \<Rightarrow> option_db \<times> series_view reply option" where
  "settle_series parse_uuid fault now raw_id body d0 d =
     (let price = (case body of None \<Rightarrow> None | Some raw \<Rightarrow> positive_wad raw);
          pre = (if body = None \<or> body = Some [] then Some Bad_binding
                 else if price = None then Some (Error_reply 400 ''settlement_price must be a positive number'')
                 else None) in
      show_series fault (series_of parse_uuid raw_id) now
        (with_series parse_uuid fault raw_id pre (\<lambda>i s.
           if sr_status s = option_settled then (d, Error_reply 409 ''series is already settled'')
           else if now < sr_expiry s then (d, Error_reply 409 ''series has not expired'')
           else if fault Update_series then (d, Error_reply 500 ''failed to settle series'')
           else (modify_series i (\<lambda>row. row\<lparr>sr_settlement := Some (format_wad price), sr_status := option_settled\<rparr>) d,
                 Ok_reply 200 ())) d0 d))"

text \<open>\<open>strconv.FormatFloat(x, 'f', 18, 64)\<close>: the exact value rounded to 18 decimals, ties to even.\<close>

definition fixed_18 :: "f64 \<Rightarrow> string" where
  "fixed_18 x =
     (case x of
        NaN \<Rightarrow> ''NaN''
      | Infty neg \<Rightarrow> (if neg then ''-Inf'' else ''+Inf'')
      | Fin neg m \<Rightarrow>
          let n = round_even (m * of_int wad); frac = int_string (n mod wad) in
          (if neg then ''-'' else []) @ int_string (n div wad) @ ''.''
            @ replicate (18 - length frac) (CHR ''0'') @ frac)"

text \<open>
  The price source is absent, or a function of the symbol that fails (\<open>None\<close>), returns no price
  (\<open>Some None\<close>) or a price in dollars.
\<close>

definition refresh_mark_price ::
  "(string \<Rightarrow> string option) \<Rightarrow> (string \<Rightarrow> f64 option option) option \<Rightarrow> (option_call \<Rightarrow> bool) \<Rightarrow> time \<Rightarrow> string \<Rightarrow>
     option_db \<Rightarrow> option_db \<Rightarrow> option_db \<times> series_view reply option" where
  "refresh_mark_price parse_uuid prices fault now raw_id d0 d =
     show_series fault (series_of parse_uuid raw_id) now
       (with_series parse_uuid fault raw_id None (\<lambda>i s.
          case prices of
            None \<Rightarrow> (d, Error_reply 503 ''no price source is configured'')
          | Some source \<Rightarrow>
              (case source (sr_underlying s) of
                 None \<Rightarrow> (d, Error_reply 502 ''the price source returned an error'')
               | Some None \<Rightarrow> (d, Error_reply 502 ''the price source returned no usable price'')
               | Some (Some usd) \<Rightarrow>
                   if f64_le usd (f64_of_int 0) then (d, Error_reply 502 ''the price source returned no usable price'')
                   else (case positive_wad (fixed_18 usd) of
                           None \<Rightarrow> (d, Error_reply 502 ''the price source returned an unusable price'')
                         | Some mark \<Rightarrow>
                             if fault Update_series then (d, Error_reply 500 ''failed to update mark price'')
                             else (modify_series i (\<lambda>row. row\<lparr>sr_mark_price := format_wad (Some mark)\<rparr>) d, Ok_reply 200 ())))) d0 d)"

section \<open>Liquidity\<close>

datatype option_error =
  Option_insufficient_balance | Series_not_open | Insufficient_pool | Collateral_locked | Collateral_reserved
| Exceeds_principal | No_liquidity | No_position | Pool_cannot_cover | Option_db_error

definition option_ledger_fault :: "(option_call \<Rightarrow> bool) \<Rightarrow> ledger_call \<Rightarrow> bool" where
  "option_ledger_fault fault c = fault (Option_balance c)"

fun option_ledger_error :: "ledger_error \<Rightarrow> option_error" where
  "option_ledger_error Insufficient_balance = Option_insufficient_balance"
| "option_ledger_error _ = Option_db_error"

text \<open>The series re-read under lock, and the end of a transaction.\<close>

definition lock_series :: "(option_call \<Rightarrow> bool) \<Rightarrow> string \<Rightarrow> option_db \<Rightarrow> option_error + option_series" where
  "lock_series fault i d =
     (if fault Lock_series then Inl Option_db_error
      else case map_of (os_series d) i of None \<Rightarrow> Inl Option_db_error | Some s \<Rightarrow> Inr s)"

definition commit_option :: "(option_call \<Rightarrow> bool) \<Rightarrow> option_db \<Rightarrow> option_error + option_db" where
  "commit_option fault d = (if fault Commit_option then Inl Option_db_error else Inr d)"

definition write_series :: "(option_call \<Rightarrow> bool) \<Rightarrow> string \<Rightarrow> option_series \<Rightarrow> option_db \<Rightarrow> option_error + option_db" where
  "write_series fault i s d =
     (if fault Write_series then Inl Option_db_error else Inr (d\<lparr>os_series := AList.update i s (os_series d)\<rparr>))"

definition debit_option ::
  "(option_call \<Rightarrow> bool) \<Rightarrow> string \<Rightarrow> option_series \<Rightarrow> int \<Rightarrow> option_db \<Rightarrow> option_error + option_db" where
  "debit_option fault user s amount d =
     map_error option_ledger_error
       (and_then (debit_within (option_ledger_fault fault) user (sr_chain s) (sr_token s) (Some amount) (os_accounts d))
         (\<lambda>t. Inr (d\<lparr>os_accounts := t\<rparr>)))"

definition credit_option ::
  "(option_call \<Rightarrow> bool) \<Rightarrow> string \<Rightarrow> option_series \<Rightarrow> int \<Rightarrow> option_db \<Rightarrow> option_error + option_db" where
  "credit_option fault user s amount d =
     map_error option_ledger_error
       (and_then (credit_within (option_ledger_fault fault) user (sr_chain s) (sr_token s) (sr_symbol s) (sr_decimals s)
                    (Some amount) (os_accounts d))
         (\<lambda>t. Inr (d\<lparr>os_accounts := t\<rparr>)))"

definition upsert_liquidity ::
  "(option_call \<Rightarrow> bool) \<Rightarrow> string \<Rightarrow> string \<Rightarrow> int \<Rightarrow> option_db \<Rightarrow> option_error + option_db" where
  "upsert_liquidity fault i user amount d =
     (if fault Read_liquidity \<or> fault Write_liquidity then Inl Option_db_error
      else
        let principal = (case map_of (os_liquidity d) (i, user) of
                           None \<Rightarrow> int_string amount
                         | Some p \<Rightarrow> int_string (series_amount p + amount))
        in Inr (d\<lparr>os_liquidity := AList.update (i, user) principal (os_liquidity d)\<rparr>))"

text \<open>\<open>parseOptionAmount\<close> is \<open>parse_token_amount\<close> again; its callers ask for a positive amount.\<close>

definition parse_option_amount :: "string \<Rightarrow> int option" where
  "parse_option_amount raw = positive_token_amount raw"

text \<open>The checks of the handlers that move money, before the series is loaded.\<close>

definition option_pre :: "string \<Rightarrow> bool \<Rightarrow> 'b option \<Rightarrow> 'a reply option \<Rightarrow> 'a reply option" where
  "option_pre user ledger_on body bad =
     (if body = None then Some Bad_binding
      else if user = [] then Some (Error_reply 401 ''Authenticated session required'')
      else if \<not> ledger_on then Some (Error_reply 503 ''ledger is not configured'')
      else bad)"

text \<open>A JSON body with one required string field.\<close>

definition required_field :: "string option \<Rightarrow> string option" where
  "required_field body = (case body of None \<Rightarrow> None | Some raw \<Rightarrow> if raw = [] then None else Some raw)"

definition bad_amount :: "string option \<Rightarrow> 'a reply option" where
  "bad_amount body =
     (case body of
        None \<Rightarrow> None
      | Some raw \<Rightarrow> if parse_option_amount raw = None then Some (Error_reply 400 ''amount must be a positive integer'') else None)"

definition body_amount :: "string option \<Rightarrow> int" where
  "body_amount body = the (parse_option_amount (the body))"

definition add_collateral_tx ::
  "(option_call \<Rightarrow> bool) \<Rightarrow> string \<Rightarrow> string \<Rightarrow> int \<Rightarrow> option_db \<Rightarrow> option_error + option_db" where
  "add_collateral_tx fault i user amount d =
     and_then (lock_series fault i d) (\<lambda>s.
       if sr_status s = option_settled then Inl Series_not_open
       else
         and_then (debit_option fault user s amount d) (\<lambda>d1.
         and_then (write_series fault i (s\<lparr>sr_collateral := int_string (series_amount (sr_collateral s) + amount)\<rparr>) d1) (\<lambda>d2.
         and_then (upsert_liquidity fault i user amount d2) (commit_option fault))))"

fun add_collateral_reply :: "option_error \<Rightarrow> 'a reply" where
  "add_collateral_reply Option_insufficient_balance = Error_reply 409 ''insufficient balance to add collateral''"
| "add_collateral_reply Series_not_open = Error_reply 409 ''series already settled''"
| "add_collateral_reply _ = Error_reply 500 ''failed to add collateral''"

definition add_collateral ::
  "(string \<Rightarrow> string option) \<Rightarrow> bool \<Rightarrow> (option_call \<Rightarrow> bool) \<Rightarrow> string \<Rightarrow> string \<Rightarrow> string option \<Rightarrow>
     option_db \<Rightarrow> option_db \<Rightarrow> option_db \<times> int reply" where
  "add_collateral parse_uuid ledger_on fault user raw_id body d0 d =
     (let body = required_field body; amount = body_amount body in
      with_series parse_uuid fault raw_id (option_pre user ledger_on body (bad_amount body)) (\<lambda>i s.
        if sr_status s = option_settled then (d, Error_reply 409 ''series already settled'')
        else (case add_collateral_tx fault i user amount d of
                Inl e \<Rightarrow> (d, add_collateral_reply e)
              | Inr d' \<Rightarrow> (d', Ok_reply 200 amount))) d0 d)"

text \<open>What a provider takes out: bounded by \<open>free\<close>, by the provider's principal and by nothing else.\<close>

definition take_liquidity ::
  "(option_call \<Rightarrow> bool) \<Rightarrow> string \<Rightarrow> string \<Rightarrow> int \<Rightarrow> option_series \<Rightarrow> option_db \<Rightarrow> option_error + option_db" where
  "take_liquidity fault i user amount s d =
     (if fault Read_liquidity then Inl Option_db_error
      else case map_of (os_liquidity d) (i, user) of
        None \<Rightarrow> Inl No_liquidity
      | Some p \<Rightarrow>
          if series_amount p < amount then Inl Exceeds_principal
          else
            and_then (write_series fault i (s\<lparr>sr_collateral := int_string (series_amount (sr_collateral s) - amount)\<rparr>) d) (\<lambda>d1.
              if fault Write_liquidity then Inl Option_db_error
              else
                and_then (credit_option fault user s amount
                    (d1\<lparr>os_liquidity := AList.update (i, user) (int_string (series_amount p - amount)) (os_liquidity d1)\<rparr>))
                  (commit_option fault)))"

definition remove_collateral_tx ::
  "(option_call \<Rightarrow> bool) \<Rightarrow> string \<Rightarrow> string \<Rightarrow> int \<Rightarrow> option_db \<Rightarrow> option_error + option_db" where
  "remove_collateral_tx fault i user amount d =
     and_then (lock_series fault i d) (\<lambda>s.
       let free = series_amount (sr_collateral s) - series_amount (sr_locked s) in
       if (if free < 0 then 0 else free) < amount then Inl Collateral_locked
       else take_liquidity fault i user amount s d)"

fun remove_collateral_reply :: "option_error \<Rightarrow> 'a reply" where
  "remove_collateral_reply Collateral_locked = Error_reply 409 ''collateral is locked by open positions''"
| "remove_collateral_reply Exceeds_principal = Error_reply 409 ''amount exceeds your deposited principal''"
| "remove_collateral_reply No_liquidity = Error_reply 409 ''you have no liquidity in this series''"
| "remove_collateral_reply _ = Error_reply 500 ''failed to remove collateral''"

definition remove_collateral ::
  "(string \<Rightarrow> string option) \<Rightarrow> bool \<Rightarrow> (option_call \<Rightarrow> bool) \<Rightarrow> string \<Rightarrow> string \<Rightarrow> string option \<Rightarrow>
     option_db \<Rightarrow> option_db \<Rightarrow> option_db \<times> int reply" where
  "remove_collateral parse_uuid ledger_on fault user raw_id body d0 d =
     (let body = required_field body; amount = body_amount body in
      with_series parse_uuid fault raw_id (option_pre user ledger_on body (bad_amount body)) (\<lambda>i s.
        if sr_status s = option_settled then (d, Error_reply 409 ''series already settled; use the withdraw endpoint'')
        else (case remove_collateral_tx fault i user amount d of
                Inl e \<Rightarrow> (d, remove_collateral_reply e)
              | Inr d' \<Rightarrow> (d', Ok_reply 200 amount))) d0 d)"

section \<open>Trading\<close>

definition upsert_position ::
  "(option_call \<Rightarrow> bool) \<Rightarrow> string \<Rightarrow> string \<Rightarrow> int \<Rightarrow> int \<Rightarrow> option_db \<Rightarrow> option_error + option_db" where
  "upsert_position fault i user qty premium d =
     (if fault Read_position \<or> fault Write_position then Inl Option_db_error
      else
        let pos = (case map_of (os_positions d) (i, user) of
                     None \<Rightarrow> \<lparr>op_size = int_string qty, op_premium = int_string premium, op_payout = ''0''\<rparr>
                   | Some p \<Rightarrow> p\<lparr>op_size := int_string (series_amount (op_size p) + qty),
                                 op_premium := int_string (series_amount (op_premium p) + premium)\<rparr>)
        in Inr (d\<lparr>os_positions := AList.update (i, user) pos (os_positions d)\<rparr>))"

definition buy_tx ::
  "(option_call \<Rightarrow> bool) \<Rightarrow> time \<Rightarrow> string \<Rightarrow> string \<Rightarrow> int \<Rightarrow> int \<Rightarrow> int \<Rightarrow> option_db \<Rightarrow> option_error + option_db" where
  "buy_tx fault now i user qty premium lock d =
     and_then (lock_series fault i d) (\<lambda>s.
       if sr_status s \<noteq> option_active \<or> sr_expiry s \<le> now then Inl Series_not_open
       else if series_amount (sr_collateral s) < series_amount (sr_locked s) + lock then Inl Insufficient_pool
       else
         and_then (debit_option fault user s premium d) (\<lambda>d1.
         and_then (write_series fault i
             (s\<lparr>sr_collateral := int_string (series_amount (sr_collateral s) + premium),
                sr_locked := int_string (series_amount (sr_locked s) + lock),
                sr_premium := int_string (series_amount (sr_premium s) + premium),
                sr_long_size := int_string (series_amount (sr_long_size s) + qty)\<rparr>) d1) (\<lambda>d2.
         and_then (upsert_position fault i user qty premium d2) (commit_option fault))))"

fun buy_reply :: "option_error \<Rightarrow> 'a reply" where
  "buy_reply Option_insufficient_balance = Error_reply 409 ''insufficient balance to pay the premium''"
| "buy_reply Series_not_open = Error_reply 409 ''series is not open for trading''"
| "buy_reply Insufficient_pool = Error_reply 409 ''the pool has insufficient collateral to underwrite this size''"
| "buy_reply _ = Error_reply 500 ''failed to buy option''"

record buy_req =
  br_size :: string
  br_max_premium :: string

definition bind_buy :: "buy_req option \<Rightarrow> buy_req option" where
  "bind_buy body =
     (case body of None \<Rightarrow> None | Some r \<Rightarrow> if br_size r = [] \<or> br_max_premium r = [] then None else Some r)"

definition bad_buy :: "buy_req option \<Rightarrow> 'a reply option" where
  "bad_buy body =
     (case body of
        None \<Rightarrow> None
      | Some r \<Rightarrow>
          if positive_wad (br_size r) = None then Some (Error_reply 400 ''size must be a positive number'')
          else if parse_option_amount (br_max_premium r) = None
            then Some (Error_reply 400 ''max_premium must be a positive integer'')
          else None)"

text \<open>
  The premium and the collateral to lock are computed on the series of the early read, at \<open>now0\<close>; the
  transaction reads the clock again, \<open>now\<close>. By \<open>pricing_never_panics\<close> the pricing returns.
\<close>

definition buy_on_series ::
  "(price_error \<Rightarrow> string) \<Rightarrow> (option_call \<Rightarrow> bool) \<Rightarrow> time \<Rightarrow> time \<Rightarrow> string \<Rightarrow> int \<Rightarrow> int \<Rightarrow> string \<Rightarrow> option_series \<Rightarrow>
     option_db \<Rightarrow> option_db \<times> (int \<times> string) reply" where
  "buy_on_series msg fault now0 now user qty limit i s d =
     (if sr_status s \<noteq> option_active then (d, Error_reply 409 ''series is not active'')
      else if sr_expiry s \<le> now0 then (d, Error_reply 409 ''series has expired'')
      else (case option_premium s qty now0 of
              Inl e \<Rightarrow> (d, Error_reply 400 (msg e))
            | Inr premium \<Rightarrow>
                if premium \<le> 0 then (d, Error_reply 409 ''premium is zero'')
                else if limit < premium then (d, Error_reply 409 ''premium above the limit you set'')
                else (case required_collateral s qty of
                        Inl e \<Rightarrow> (d, Error_reply 400 (msg e))
                      | Inr lock \<Rightarrow>
                          (case buy_tx fault now i user qty premium lock d of
                             Inl e \<Rightarrow> (d, buy_reply e)
                           | Inr d' \<Rightarrow> (d', Ok_reply 200 (premium, format_wad (Some qty)))))))"

definition buy_option ::
  "(string \<Rightarrow> string option) \<Rightarrow> (price_error \<Rightarrow> string) \<Rightarrow> bool \<Rightarrow> (option_call \<Rightarrow> bool) \<Rightarrow> time \<Rightarrow> time \<Rightarrow>
     string \<Rightarrow> string \<Rightarrow> buy_req option \<Rightarrow> option_db \<Rightarrow> option_db \<Rightarrow> option_db \<times> (int \<times> string) reply" where
  "buy_option parse_uuid msg ledger_on fault now0 now user raw_id body d0 d =
     (let body = bind_buy body; qty = the (positive_wad (br_size (the body)));
          limit = the (parse_option_amount (br_max_premium (the body))) in
      with_series parse_uuid fault raw_id (option_pre user ledger_on body (bad_buy body))
        (\<lambda>i s. buy_on_series msg fault now0 now user qty limit i s d) d0 d)"

section \<open>Exercise and withdrawal\<close>

definition exercise_tx :: "(option_call \<Rightarrow> bool) \<Rightarrow> string \<Rightarrow> string \<Rightarrow> option_db \<Rightarrow> option_error + (option_db \<times> int)" where
  "exercise_tx fault i user d =
     and_then (lock_series fault i d) (\<lambda>s.
       if sr_status s \<noteq> option_settled then Inl Series_not_open
       else if fault Read_position then Inl Option_db_error
       else (case map_of (os_positions d) (i, user) of
         None \<Rightarrow> Inl No_position
       | Some p \<Rightarrow>
           let qty = series_amount (op_size p) in
           if qty \<le> 0 then Inl No_position
           else
             and_then (map_error (\<lambda>_. Option_db_error) (payout_at s qty)) (\<lambda>payout.
               let collateral = series_amount (sr_collateral s) in
               if collateral < payout then Inl Pool_cannot_cover
               else if fault Write_position then Inl Option_db_error
               else
                 and_then (map_error (\<lambda>_. Option_db_error) (required_collateral s qty)) (\<lambda>lock.
                   let unlocked = series_amount (sr_locked s) - lock;
                       locked1 = (if unlocked < 0 then 0 else unlocked);
                       rest = collateral - payout;
                       locked = (if rest < locked1 then rest else locked1);
                       long = series_amount (sr_long_size s) - qty in
                   and_then (write_series fault i
                       (s\<lparr>sr_collateral := int_string rest, sr_locked := int_string locked,
                          sr_long_size := int_string (if long < 0 then 0 else long)\<rparr>)
                       (d\<lparr>os_positions := AList.update (i, user) (p\<lparr>op_size := ''0'', op_payout := int_string payout\<rparr>) (os_positions d)\<rparr>))
                     (\<lambda>d1. and_then (if 0 < payout then credit_option fault user s payout d1 else Inr d1)
                       (\<lambda>d2. and_then (commit_option fault d2) (\<lambda>d3. Inr (d3, payout))))))))"

fun exercise_reply :: "option_error \<Rightarrow> 'a reply" where
  "exercise_reply Series_not_open = Error_reply 409 ''series not settled''"
| "exercise_reply No_position = Error_reply 409 ''no position to exercise''"
| "exercise_reply Pool_cannot_cover = Error_reply 409 ''the pool cannot cover this payout''"
| "exercise_reply _ = Error_reply 500 ''failed to exercise''"

definition exercise ::
  "(string \<Rightarrow> string option) \<Rightarrow> bool \<Rightarrow> (option_call \<Rightarrow> bool) \<Rightarrow> string \<Rightarrow> string \<Rightarrow>
     option_db \<Rightarrow> option_db \<Rightarrow> option_db \<times> int reply" where
  "exercise parse_uuid ledger_on fault user raw_id d0 d =
     with_series parse_uuid fault raw_id (option_pre user ledger_on (Some ()) None) (\<lambda>i s.
       if sr_status s \<noteq> option_settled then (d, Error_reply 409 ''series not settled'')
       else (case exercise_tx fault i user d of
               Inl e \<Rightarrow> (d, exercise_reply e)
             | Inr (d', payout) \<Rightarrow> (d', Ok_reply 200 payout))) d0 d"

definition withdraw_tx ::
  "(option_call \<Rightarrow> bool) \<Rightarrow> string \<Rightarrow> string \<Rightarrow> int \<Rightarrow> option_db \<Rightarrow> option_error + option_db" where
  "withdraw_tx fault i user amount d =
     and_then (lock_series fault i d) (\<lambda>s.
       if sr_status s \<noteq> option_settled then Inl Series_not_open
       else
         let claimable = series_amount (sr_collateral s); locked = series_amount (sr_locked s);
             reserved = (if claimable < locked then claimable else locked) in
         if claimable - reserved < amount then Inl Collateral_reserved
         else take_liquidity fault i user amount s d)"

fun withdraw_reply :: "option_error \<Rightarrow> 'a reply" where
  "withdraw_reply Series_not_open = Error_reply 409 ''series not settled''"
| "withdraw_reply Collateral_reserved = Error_reply 409 ''collateral is reserved for open positions''"
| "withdraw_reply Exceeds_principal = Error_reply 409 ''amount exceeds your deposited principal''"
| "withdraw_reply No_liquidity = Error_reply 409 ''you have no liquidity in this series''"
| "withdraw_reply _ = Error_reply 500 ''failed to withdraw liquidity''"

definition withdraw_liquidity ::
  "(string \<Rightarrow> string option) \<Rightarrow> bool \<Rightarrow> (option_call \<Rightarrow> bool) \<Rightarrow> string \<Rightarrow> string \<Rightarrow> string option \<Rightarrow>
     option_db \<Rightarrow> option_db \<Rightarrow> option_db \<times> int reply" where
  "withdraw_liquidity parse_uuid ledger_on fault user raw_id body d0 d =
     (let body = required_field body; amount = body_amount body in
      with_series parse_uuid fault raw_id (option_pre user ledger_on body (bad_amount body)) (\<lambda>i s.
        if sr_status s \<noteq> option_settled then (d, Error_reply 409 ''series not settled'')
        else (case withdraw_tx fault i user amount d of
                Inl e \<Rightarrow> (d, withdraw_reply e)
              | Inr d' \<Rightarrow> (d', Ok_reply 200 amount))) d0 d)"

section \<open>Positions\<close>

record position_view =
  pv_position :: option_position
  pv_series :: option_series
  pv_premium :: string
  pv_payout :: string

definition build_position_view :: "time \<Rightarrow> option_position \<Rightarrow> option_series \<Rightarrow> position_view" where
  "build_position_view now p s =
     (let qty = series_amount (op_size p) in
      \<lparr>pv_position = p, pv_series = s,
       pv_premium = (case option_premium s qty now of Inl _ \<Rightarrow> ''0'' | Inr v \<Rightarrow> format_wad (Some v)),
       pv_payout = (if sr_status s = option_settled
                    then (case payout_at s qty of Inl _ \<Rightarrow> ''0'' | Inr v \<Rightarrow> format_wad (Some v)) else ''0'')\<rparr>)"

definition get_my_positions :: "(option_call \<Rightarrow> bool) \<Rightarrow> time \<Rightarrow> string \<Rightarrow> option_db \<Rightarrow> position_view list reply" where
  "get_my_positions fault now user d =
     (if user = [] then Error_reply 401 ''Authenticated session required''
      else if fault List_positions then Error_reply 500 ''failed to list positions''
      else Ok_reply 200
        (List.map_filter (\<lambda>((i, u), p).
            if u \<noteq> user \<or> op_size p = ''0'' \<or> fault (Load_series_of i) then None
            else map_option (build_position_view now p) (map_of (os_series d) i))
          (os_positions d)))"

end
