(* ===== verification/Option_Service_Props.thy ===== *)
theory Option_Service_Props
  imports Option_Service Custody Option_Props Go_Duration
begin

text \<open>
  What the option market guarantees over interleaved requests: every column of a series stays
  readable and in range, the collateral always covers what is locked, tokens are conserved, and a
  position is paid its intrinsic value once. And where it falls short: the premiums of options that
  are not exercised can never be paid out, exercising after a move of the mark price releases
  collateral that other holders need, and one series with a tiny price breaks every listing.
\<close>

section \<open>Well-formed tables\<close>

text \<open>An amount column holds the decimal text of a number that is not negative.\<close>

definition numeric :: "string \<Rightarrow> bool" where
  "numeric t \<longleftrightarrow> (\<exists>n \<ge> 0. t = int_string n)"

definition positive_decimal :: "string \<Rightarrow> bool" where
  "positive_decimal t \<longleftrightarrow> (\<exists>n > 0. parse_wad t = Inr n)"

definition series_typed :: "option_series \<Rightarrow> bool" where
  "series_typed s \<longleftrightarrow> positive_decimal (sr_strike s) \<and> positive_decimal (sr_mark_price s)
     \<and> (\<exists>v. 0 < v \<and> v \<le> max_iv \<and> parse_wad (sr_base_iv s) = Inr v)
     \<and> (case sr_settlement s of None \<Rightarrow> True | Some t \<Rightarrow> positive_decimal t)
     \<and> allowed_option_status (sr_status s) \<and> option_collateral_symbol (sr_symbol s)
     \<and> 0 \<le> sr_decimals s \<and> sr_decimals s \<le> 36
     \<and> numeric (sr_collateral s) \<and> numeric (sr_locked s) \<and> numeric (sr_premium s) \<and> numeric (sr_long_size s)"

definition collateral_of :: "option_series \<Rightarrow> int" where "collateral_of s = series_amount (sr_collateral s)"
definition locked_of :: "option_series \<Rightarrow> int" where "locked_of s = series_amount (sr_locked s)"

definition series_ok :: "option_series \<Rightarrow> bool" where
  "series_ok s \<longleftrightarrow> series_typed s \<and> locked_of s \<le> collateral_of s"

definition option_ok :: "option_db \<Rightarrow> bool" where
  "option_ok d \<longleftrightarrow> distinct (map fst (os_series d)) \<and> distinct (map fst (os_liquidity d))
     \<and> (\<forall>x \<in> set (os_series d). series_ok (snd x))
     \<and> (\<forall>x \<in> set (os_liquidity d). numeric (snd x))
     \<and> (\<forall>x \<in> set (os_positions d). numeric (op_size (snd x)) \<and> numeric (op_premium (snd x)) \<and> numeric (op_payout (snd x)))"

definition series_asset :: "option_series \<Rightarrow> int64 \<times> string" where
  "series_asset s = (sr_chain s, normalize_token (sr_token s))"

definition pool_part :: "int64 \<times> string \<Rightarrow> option_series \<Rightarrow> int" where
  "pool_part asset s = (if series_asset s = asset then collateral_of s else 0)"

definition pool_of :: "option_db \<Rightarrow> int64 \<times> string \<Rightarrow> int" where
  "pool_of d asset = (\<Sum>x\<leftarrow>os_series d. pool_part asset (snd x))"

lemma trim_int_string [simp]: "trim_space (int_string n) = int_string n"
proof (rule trim_space_id)
  have d: "\<And>c. is_digit c \<Longrightarrow> \<not> is_space c" by (auto simp: is_digit_def is_space_def)
  have l: "last (nat_string m) \<in> set (nat_string m)" "hd (nat_string m) \<in> set (nat_string m)" for m by simp_all
  have "is_digit c" if "c \<in> set (nat_string m)" for c m
    using nat_string_digits [of m] that by (simp add: list_all_iff)
  with l have h: "is_digit (hd (nat_string m))" "is_digit (last (nat_string m))" for m by blast+
  show "\<not> is_space (hd (int_string n))" "\<not> is_space (last (int_string n))" "int_string n \<noteq> []"
    using h d by (auto simp: int_string_def) (simp_all add: is_space_def)
qed

lemma series_int_string [simp]: "series_amount (int_string n) = n"
  by (simp add: series_amount_def)

lemma int_string_0: "''0'' = int_string 0"
  by code_simp

lemma numeric_int_string [simp]: "numeric (int_string n) \<longleftrightarrow> 0 \<le> n"
proof
  assume "numeric (int_string n)"
  then obtain m where m: "0 \<le> m" "int_string n = int_string m" by (auto simp: numeric_def)
  then have "series_amount (int_string n) = series_amount (int_string m)" by simp
  with m(1) show "0 \<le> n" by simp
qed (auto simp: numeric_def)

lemma numeric_0 [simp]: "numeric ''0''" "series_amount ''0'' = 0"
  unfolding int_string_0 by simp_all

lemma numeric_nonneg: "numeric t \<Longrightarrow> 0 \<le> series_amount t"
  by (auto simp: numeric_def)

lemma positive_decimal_format: "0 < n \<Longrightarrow> positive_decimal (format_wad (Some n))"
  by (simp add: positive_decimal_def parse_format_wad)

lemma positive_wad_Some: "positive_wad raw = Some n \<Longrightarrow> 0 < n"
  by (auto simp: positive_wad_def split: sum.splits if_splits)

lemma valid_iv_Some: "valid_iv raw = Some n \<Longrightarrow> 0 < n \<and> n \<le> max_iv"
  by (auto simp: valid_iv_def split: sum.splits if_splits)

lemma option_okD: "option_ok d \<Longrightarrow> map_of (os_series d) i = Some s \<Longrightarrow> series_ok s"
  by (auto simp: option_ok_def dest!: map_of_SomeD)

section \<open>Writing one series\<close>

lemma put_series_ok:
  assumes ok: "option_ok d" and s': "series_ok s'" and e: "os_series e = AList.update i s' (os_series d)"
    "os_liquidity e = os_liquidity d" "os_positions e = os_positions d"
  shows "option_ok e"
proof -
  have dist: "distinct (map fst (os_series d))" using ok by (simp add: option_ok_def)
  show ?thesis using ok s' unfolding option_ok_def e
    by (auto simp: set_alist_update [OF dist] distinct_update)
qed

lemma put_series_pool:
  assumes ok: "option_ok d" and s: "map_of (os_series d) i = Some s"
    and e: "os_series e = AList.update i s' (os_series d)"
  shows "pool_of e x = pool_of d x - pool_part x s + pool_part x s'"
proof -
  have dist: "distinct (map fst (os_series d))" using ok by (simp add: option_ok_def)
  show ?thesis unfolding pool_of_def e by (rule sum_update_known [OF dist s])
qed

text \<open>An edit keeps a row well-formed and leaves its amounts and its asset alone.\<close>

definition edits :: "(option_series \<Rightarrow> option_series) \<Rightarrow> bool" where
  "edits f \<longleftrightarrow> (\<forall>s. series_ok s \<longrightarrow> series_ok (f s)) \<and> (\<forall>s. sr_chain (f s) = sr_chain s \<and> sr_token (f s) = sr_token s
     \<and> sr_collateral (f s) = sr_collateral s \<and> sr_locked (f s) = sr_locked s)"

lemma modify_series_effect:
  assumes ok: "option_ok d" and f: "edits f"
  shows "option_ok (modify_series i f d)" and "pool_of (modify_series i f d) = pool_of d"
    and "os_accounts (modify_series i f d) = os_accounts d"
proof -
  have part: "pool_part x (f s) = pool_part x s" for x s
    using f by (simp add: edits_def pool_part_def series_asset_def collateral_of_def)
  show "os_accounts (modify_series i f d) = os_accounts d" by (simp add: modify_series_def split: option.split)
  show "option_ok (modify_series i f d)"
  proof (cases "map_of (os_series d) i")
    case (Some s)
    then have "series_ok (f s)" using option_okD [OF ok] f by (simp add: edits_def)
    from put_series_ok [OF ok this] Some show ?thesis by (simp add: modify_series_def)
  qed (use ok in \<open>simp add: modify_series_def\<close>)
  show "pool_of (modify_series i f d) = pool_of d"
  proof (cases "map_of (os_series d) i")
    case (Some s)
    have "pool_of (modify_series i f d) x = pool_of d x" for x
      using put_series_pool [OF ok Some, of "modify_series i f d" "f s" x] Some part by (simp add: modify_series_def)
    then show ?thesis by blast
  qed (simp add: modify_series_def)
qed

section \<open>The money-moving transactions\<close>

lemma map_error_Inr [simp]: "map_error f x = Inr y \<longleftrightarrow> x = Inr y"
  by (cases x) auto

lemma write_series_Inr [simp]:
  "write_series fault i s d = Inr d' \<longleftrightarrow> \<not> fault Write_series \<and> d' = d\<lparr>os_series := AList.update i s (os_series d)\<rparr>"
  by (auto simp: write_series_def)

lemma commit_option_Inr [simp]: "commit_option fault d = Inr d' \<longleftrightarrow> \<not> fault Commit_option \<and> d' = d"
  by (auto simp: commit_option_def)

lemma lock_series_Inr [simp]: "lock_series fault i d = Inr s \<longleftrightarrow> \<not> fault Lock_series \<and> map_of (os_series d) i = Some s"
  by (auto simp: lock_series_def split: option.splits)

lemma debit_option_Inr [simp]:
  "debit_option fault user s a d = Inr d' \<longleftrightarrow>
   (\<exists>t. debit_within (option_ledger_fault fault) user (sr_chain s) (sr_token s) (Some a) (os_accounts d) = Inr t
     \<and> d' = d\<lparr>os_accounts := t\<rparr>)"
  by (auto simp: debit_option_def)

lemma credit_option_Inr [simp]:
  "credit_option fault user s a d = Inr d' \<longleftrightarrow>
   (\<exists>t. credit_within (option_ledger_fault fault) user (sr_chain s) (sr_token s) (sr_symbol s) (sr_decimals s) (Some a) (os_accounts d) = Inr t
     \<and> d' = d\<lparr>os_accounts := t\<rparr>)"
  by (auto simp: credit_option_def)

lemma set_update_subset: "x \<in> set (AList.update k v al) \<Longrightarrow> x = (k, v) \<or> x \<in> set al"
  by (induction al) (auto split: if_splits)

text \<open>
  A transaction on one series that moves \<open>a\<close> tokens (into the pool when negative) and leaves a
  well-formed row whose collateral changed by as much. Positions and deposits stay well-formed.
\<close>

lemma pool_tx:
  assumes ok: "option_ok d" and s: "map_of (os_series d) i = Some s" and s': "series_ok s'"
    and same: "sr_chain s' = sr_chain s" "sr_token s' = sr_token s" and c: "collateral_of s' = collateral_of s - a"
    and d': "os_series d' = AList.update i s' (os_series d)"
    and t: "paid user (series_asset s) a (os_accounts d) (os_accounts d')"
    and lp: "os_liquidity d' = os_liquidity d \<or> (\<exists>p. numeric p \<and> os_liquidity d' = AList.update (i, user) p (os_liquidity d))"
    and pos: "os_positions d' = os_positions d
      \<or> (\<exists>p. numeric (op_size p) \<and> numeric (op_premium p) \<and> numeric (op_payout p) \<and> os_positions d' = AList.update (i, user) p (os_positions d))"
  shows "option_ok d' \<and> moved user (series_asset s) a (os_accounts d) (os_accounts d') (pool_of d) (pool_of d')"
proof
  have dist: "distinct (map fst (os_series d))" and ldist: "distinct (map fst (os_liquidity d))"
    using ok by (simp_all add: option_ok_def)
  have "pool_part x s' = pool_part x s - (if x = series_asset s then a else 0)" for x
    using same c by (auto simp: pool_part_def series_asset_def)
  then have "pool_of d' x = pool_of d x + drift (series_asset s) a x" for x
    using put_series_pool [OF ok s d', of x] by (simp add: drift_def)
  with t show "moved user (series_asset s) a (os_accounts d) (os_accounts d') (pool_of d) (pool_of d')"
    by (rule moved_paid)
  have "\<forall>x \<in> set (os_series d'). series_ok (snd x)"
    using ok s' by (auto simp: d' option_ok_def set_alist_update [OF dist])
  moreover have "distinct (map fst (os_series d'))" using dist by (simp add: d' distinct_update)
  moreover have "distinct (map fst (os_liquidity d')) \<and> (\<forall>x \<in> set (os_liquidity d'). numeric (snd x))"
    using lp ok ldist by (auto simp: option_ok_def set_alist_update [OF ldist] distinct_update)
  moreover have "\<forall>x \<in> set (os_positions d'). numeric (op_size (snd x)) \<and> numeric (op_premium (snd x)) \<and> numeric (op_payout (snd x))"
    using pos ok unfolding option_ok_def by (auto dest!: set_update_subset)
  ultimately show "option_ok d'" by (simp add: option_ok_def)
qed

text \<open>The row of a series with new amounts.\<close>

lemma series_ok_amounts:
  assumes "series_ok s" "0 \<le> l" "l \<le> c" "0 \<le> p" "0 \<le> n"
  shows "series_ok (s\<lparr>sr_collateral := int_string c, sr_locked := int_string l, sr_premium := int_string p, sr_long_size := int_string n\<rparr>)"
  using assms by (simp add: series_ok_def series_typed_def collateral_of_def locked_of_def)

lemma series_ok_collateral:
  "series_ok s \<Longrightarrow> locked_of s \<le> c \<Longrightarrow> series_ok (s\<lparr>sr_collateral := int_string c\<rparr>)"
  using numeric_nonneg [of "sr_locked s"]
  by (auto simp: series_ok_def series_typed_def collateral_of_def locked_of_def)

lemma series_ok_bounds: "series_ok s \<Longrightarrow> 0 \<le> locked_of s \<and> locked_of s \<le> collateral_of s"
  using numeric_nonneg by (simp add: series_ok_def series_typed_def locked_of_def)

lemma add_collateral_moves:
  assumes ok: "option_ok d" and r: "add_collateral_tx fault i user a d = Inr d'"
  shows "\<exists>s. map_of (os_series d) i = Some s \<and> option_ok d'
    \<and> moved user (series_asset s) (- a) (os_accounts d) (os_accounts d') (pool_of d) (pool_of d')"
proof -
  obtain s t p where s: "map_of (os_series d) i = Some s"
    and t: "debit_within (option_ledger_fault fault) user (sr_chain s) (sr_token s) (Some a) (os_accounts d) = Inr t"
    and p: "p = (case map_of (os_liquidity d) (i, user) of None \<Rightarrow> int_string a | Some p \<Rightarrow> int_string (series_amount p + a))"
    and d': "d' = d\<lparr>os_accounts := t, os_series := AList.update i (s\<lparr>sr_collateral := int_string (series_amount (sr_collateral s) + a)\<rparr>) (os_series d),
      os_liquidity := AList.update (i, user) p (os_liquidity d)\<rparr>"
    using r by (auto simp: add_collateral_tx_def upsert_liquidity_def Let_def split: if_splits)
  note m = debit_paid [OF t] and a = debit_paid(1) [OF t]
  have so: "series_ok s" by (rule option_okD [OF ok s])
  then have "series_ok (s\<lparr>sr_collateral := int_string (series_amount (sr_collateral s) + a)\<rparr>)"
    using series_ok_bounds [OF so] a by (intro series_ok_collateral) (auto simp: collateral_of_def)
  moreover have "numeric p"
    using ok a unfolding p option_ok_def
    by (auto split: option.split dest!: map_of_SomeD bspec simp: numeric_nonneg add_nonneg_nonneg)
  ultimately have "option_ok d' \<and> moved user (series_asset s) (- a) (os_accounts d) (os_accounts d') (pool_of d) (pool_of d')"
    using m by (intro pool_tx [OF ok s]) (auto simp: d' series_asset_def collateral_of_def)
  with s show ?thesis by blast
qed

lemma take_liquidity_effect:
  assumes "take_liquidity fault i user a s d = Inr d'"
  obtains t p where "map_of (os_liquidity d) (i, user) = Some p" "a \<le> series_amount p"
    "credit_within (option_ledger_fault fault) user (sr_chain s) (sr_token s) (sr_symbol s) (sr_decimals s) (Some a) (os_accounts d) = Inr t"
    "d' = d\<lparr>os_accounts := t, os_series := AList.update i (s\<lparr>sr_collateral := int_string (series_amount (sr_collateral s) - a)\<rparr>) (os_series d),
      os_liquidity := AList.update (i, user) (int_string (series_amount p - a)) (os_liquidity d)\<rparr>"
  using assms by (auto simp: take_liquidity_def split: if_splits option.splits)

lemma take_liquidity_moves:
  assumes ok: "option_ok d" and s: "map_of (os_series d) i = Some s" and room: "a \<le> collateral_of s - locked_of s"
    and r: "take_liquidity fault i user a s d = Inr d'"
  shows "option_ok d' \<and> moved user (series_asset s) a (os_accounts d) (os_accounts d') (pool_of d) (pool_of d')"
proof -
  obtain t p where p: "map_of (os_liquidity d) (i, user) = Some p" "a \<le> series_amount p"
    and t: "credit_within (option_ledger_fault fault) user (sr_chain s) (sr_token s) (sr_symbol s) (sr_decimals s) (Some a) (os_accounts d) = Inr t"
    and d': "d' = d\<lparr>os_accounts := t, os_series := AList.update i (s\<lparr>sr_collateral := int_string (series_amount (sr_collateral s) - a)\<rparr>) (os_series d),
      os_liquidity := AList.update (i, user) (int_string (series_amount p - a)) (os_liquidity d)\<rparr>"
    using r by (rule take_liquidity_effect)
  note m = credit_paid [OF t]
  have so: "series_ok (s\<lparr>sr_collateral := int_string (series_amount (sr_collateral s) - a)\<rparr>)"
    using room option_okD [OF ok s] by (intro series_ok_collateral) (auto simp: collateral_of_def)
  show ?thesis
  proof (rule pool_tx [OF ok s so])
    show "os_liquidity d' = os_liquidity d \<or> (\<exists>q. numeric q \<and> os_liquidity d' = AList.update (i, user) q (os_liquidity d))"
      using p by (intro disjI2 exI [of _ "int_string (series_amount p - a)"]) (simp add: d')
  qed (use m in \<open>simp_all add: d' series_asset_def collateral_of_def\<close>)
qed

lemma remove_collateral_moves:
  assumes ok: "option_ok d" and r: "remove_collateral_tx fault i user a d = Inr d'"
  shows "\<exists>s. map_of (os_series d) i = Some s \<and> option_ok d'
    \<and> moved user (series_asset s) a (os_accounts d) (os_accounts d') (pool_of d) (pool_of d')"
proof -
  obtain s where s: "map_of (os_series d) i = Some s" and tk: "take_liquidity fault i user a s d = Inr d'"
    and room: "a \<le> max 0 (collateral_of s - locked_of s)"
    using r by (auto simp: remove_collateral_tx_def Let_def collateral_of_def locked_of_def split: if_splits)
  have "a \<le> collateral_of s - locked_of s" using room series_ok_bounds [OF option_okD [OF ok s]] by simp
  from take_liquidity_moves [OF ok s this tk] s show ?thesis by blast
qed

lemma withdraw_moves:
  assumes ok: "option_ok d" and r: "withdraw_tx fault i user a d = Inr d'"
  shows "\<exists>s. map_of (os_series d) i = Some s \<and> sr_status s = option_settled \<and> option_ok d'
    \<and> moved user (series_asset s) a (os_accounts d) (os_accounts d') (pool_of d) (pool_of d')"
proof -
  obtain s where s: "map_of (os_series d) i = Some s" "sr_status s = option_settled" and tk: "take_liquidity fault i user a s d = Inr d'"
    and room: "a \<le> collateral_of s - min (collateral_of s) (locked_of s)"
    using r by (auto simp: withdraw_tx_def Let_def collateral_of_def locked_of_def split: if_splits)
  have "a \<le> collateral_of s - locked_of s" using room series_ok_bounds [OF option_okD [OF ok s(1)]] by simp
  from take_liquidity_moves [OF ok s(1) this tk] s show ?thesis by blast
qed

lemma quo_nonneg_div: "0 \<le> a \<Longrightarrow> 0 \<le> b \<Longrightarrow> 0 \<le> opt_mul a b"
  by (rule opt_mul_ge_0)

lemma required_nonneg:
  assumes "series_ok s" "required_collateral s qty = Inr l" "0 \<le> qty"
  shows "0 \<le> l"
  using assms by (auto simp: required_collateral_def series_ok_def series_typed_def positive_decimal_def split: if_splits intro!: opt_mul_ge_0)

lemma payout_nonneg: "payout_at s qty = Inr a \<Longrightarrow> 0 \<le> qty \<Longrightarrow> 0 \<le> a"
  by (auto simp: payout_at_def intrinsic_value_def Let_def split: option.splits intro!: opt_mul_ge_0)

lemma buy_moves:
  assumes ok: "option_ok d" and r: "buy_tx fault now i user qty a lock d = Inr d'" and nn: "0 \<le> qty" "0 \<le> lock"
  shows "\<exists>s. map_of (os_series d) i = Some s \<and> option_ok d'
    \<and> moved user (series_asset s) (- a) (os_accounts d) (os_accounts d') (pool_of d) (pool_of d')"
proof -
  define pos where "pos = (case map_of (os_positions d) (i, user) of
      None \<Rightarrow> \<lparr>op_size = int_string qty, op_premium = int_string a, op_payout = ''0''\<rparr>
    | Some p \<Rightarrow> p\<lparr>op_size := int_string (series_amount (op_size p) + qty), op_premium := int_string (series_amount (op_premium p) + a)\<rparr>)"
  obtain s t where s: "map_of (os_series d) i = Some s" and room: "locked_of s + lock \<le> collateral_of s"
    and t: "debit_within (option_ledger_fault fault) user (sr_chain s) (sr_token s) (Some a) (os_accounts d) = Inr t"
    and d': "d' = d\<lparr>os_accounts := t, os_series := AList.update i
        (s\<lparr>sr_collateral := int_string (collateral_of s + a), sr_locked := int_string (locked_of s + lock),
           sr_premium := int_string (series_amount (sr_premium s) + a),
           sr_long_size := int_string (series_amount (sr_long_size s) + qty)\<rparr>) (os_series d),
      os_positions := AList.update (i, user) pos (os_positions d)\<rparr>"
    using r by (auto simp: buy_tx_def upsert_position_def Let_def pos_def collateral_of_def locked_of_def split: if_splits)
  note m = debit_paid [OF t]
  have so: "series_ok s" by (rule option_okD [OF ok s])
  then have p0: "0 \<le> series_amount (sr_premium s)" "0 \<le> series_amount (sr_long_size s)"
    by (simp_all add: series_ok_def series_typed_def numeric_nonneg)
  have so': "series_ok (s\<lparr>sr_collateral := int_string (collateral_of s + a), sr_locked := int_string (locked_of s + lock),
           sr_premium := int_string (series_amount (sr_premium s) + a),
           sr_long_size := int_string (series_amount (sr_long_size s) + qty)\<rparr>)"
    using series_ok_bounds [OF so] m(1) room nn p0 by (intro series_ok_amounts [OF so]) auto
  have "numeric (op_size pos) \<and> numeric (op_premium pos) \<and> numeric (op_payout pos)"
    using ok nn m(1) unfolding pos_def option_ok_def
    by (auto split: option.split dest!: map_of_SomeD bspec simp: numeric_nonneg add_nonneg_nonneg)
  then have pp: "os_positions d' = os_positions d
      \<or> (\<exists>p. numeric (op_size p) \<and> numeric (op_premium p) \<and> numeric (op_payout p) \<and> os_positions d' = AList.update (i, user) p (os_positions d))"
    by (intro disjI2 exI [of _ pos]) (simp add: d')
  have "option_ok d' \<and> moved user (series_asset s) (- a) (os_accounts d) (os_accounts d') (pool_of d) (pool_of d')"
    by (rule pool_tx [OF ok s so' _ _ _ _ _ _ pp]) (use m in \<open>simp_all add: d' series_asset_def collateral_of_def\<close>)
  with s show ?thesis by blast
qed

lemma clip_simps: "(if x < 0 then 0 else x) = max 0 (x :: int)" "(if a < b then a else b) = min a (b :: int)"
  by simp_all

text \<open>What an exercise writes, in one equation.\<close>

lemma exercise_effect:
  assumes r: "exercise_tx fault i user d = Inr (d', a)"
  obtains s p lock t where "map_of (os_series d) i = Some s" "sr_status s = option_settled"
    "map_of (os_positions d) (i, user) = Some p" "0 < series_amount (op_size p)"
    "payout_at s (series_amount (op_size p)) = Inr a" "a \<le> collateral_of s"
    "required_collateral s (series_amount (op_size p)) = Inr lock"
    "d' = d\<lparr>os_accounts := t,
      os_series := AList.update i (s\<lparr>sr_collateral := int_string (collateral_of s - a),
        sr_locked := int_string (min (collateral_of s - a) (max 0 (locked_of s - lock))),
        sr_long_size := int_string (max 0 (series_amount (sr_long_size s) - series_amount (op_size p)))\<rparr>) (os_series d),
      os_positions := AList.update (i, user) (p\<lparr>op_size := ''0'', op_payout := int_string a\<rparr>) (os_positions d)\<rparr>"
    "if 0 < a then paid user (series_asset s) a (os_accounts d) t else t = os_accounts d"
proof -
  obtain s p lock where h: "map_of (os_series d) i = Some s" "sr_status s = option_settled"
    "map_of (os_positions d) (i, user) = Some p" "0 < series_amount (op_size p)"
    "payout_at s (series_amount (op_size p)) = Inr a" "a \<le> collateral_of s"
    "required_collateral s (series_amount (op_size p)) = Inr lock"
    and w: "(if 0 < a then credit_option fault user s a
        (d\<lparr>os_positions := AList.update (i, user) (p\<lparr>op_size := ''0'', op_payout := int_string a\<rparr>) (os_positions d),
           os_series := AList.update i (s\<lparr>sr_collateral := int_string (collateral_of s - a),
             sr_locked := int_string (min (collateral_of s - a) (max 0 (locked_of s - lock))),
             sr_long_size := int_string (max 0 (series_amount (sr_long_size s) - series_amount (op_size p)))\<rparr>) (os_series d)\<rparr>)
      else Inr (d\<lparr>os_positions := AList.update (i, user) (p\<lparr>op_size := ''0'', op_payout := int_string a\<rparr>) (os_positions d),
           os_series := AList.update i (s\<lparr>sr_collateral := int_string (collateral_of s - a),
             sr_locked := int_string (min (collateral_of s - a) (max 0 (locked_of s - lock))),
             sr_long_size := int_string (max 0 (series_amount (sr_long_size s) - series_amount (op_size p)))\<rparr>) (os_series d)\<rparr>)) = Inr d'"
    using r unfolding exercise_tx_def Let_def clip_simps collateral_of_def [symmetric] locked_of_def [symmetric]
    by (auto simp: not_less split: if_split_asm option.splits)
  show thesis
  proof (cases "0 < a")
    case True
    then obtain t where t: "credit_within (option_ledger_fault fault) user (sr_chain s) (sr_token s) (sr_symbol s) (sr_decimals s)
        (Some a) (os_accounts d) = Inr t" and d': "d' = d\<lparr>os_accounts := t,
      os_series := AList.update i (s\<lparr>sr_collateral := int_string (collateral_of s - a),
        sr_locked := int_string (min (collateral_of s - a) (max 0 (locked_of s - lock))),
        sr_long_size := int_string (max 0 (series_amount (sr_long_size s) - series_amount (op_size p)))\<rparr>) (os_series d),
      os_positions := AList.update (i, user) (p\<lparr>op_size := ''0'', op_payout := int_string a\<rparr>) (os_positions d)\<rparr>"
      using w by auto
    show thesis by (rule that [OF h d']) (use True credit_paid(2) [OF t] in \<open>simp add: series_asset_def\<close>)
  next
    case False
    then show thesis using w by (intro that [OF h, of "os_accounts d"]) auto
  qed
qed

lemma exercise_moves:
  assumes ok: "option_ok d" and r: "exercise_tx fault i user d = Inr (d', a)"
  shows "\<exists>s. map_of (os_series d) i = Some s \<and> option_ok d'
    \<and> moved user (series_asset s) a (os_accounts d) (os_accounts d') (pool_of d) (pool_of d')"
proof -
  from r show ?thesis
  proof (rule exercise_effect)
    fix s p lock t
    assume s: "map_of (os_series d) i = Some s" and p: "map_of (os_positions d) (i, user) = Some p" "0 < series_amount (op_size p)"
      and a: "payout_at s (series_amount (op_size p)) = Inr a" "a \<le> collateral_of s"
      and d': "d' = d\<lparr>os_accounts := t,
        os_series := AList.update i (s\<lparr>sr_collateral := int_string (collateral_of s - a),
          sr_locked := int_string (min (collateral_of s - a) (max 0 (locked_of s - lock))),
          sr_long_size := int_string (max 0 (series_amount (sr_long_size s) - series_amount (op_size p)))\<rparr>) (os_series d),
        os_positions := AList.update (i, user) (p\<lparr>op_size := ''0'', op_payout := int_string a\<rparr>) (os_positions d)\<rparr>"
      and t: "if 0 < a then paid user (series_asset s) a (os_accounts d) t else t = os_accounts d"
    have a0: "0 \<le> a" using payout_nonneg [OF a(1)] p(2) by simp
    have so: "series_ok s" by (rule option_okD [OF ok s])
    have so': "series_ok (s\<lparr>sr_collateral := int_string (collateral_of s - a),
          sr_locked := int_string (min (collateral_of s - a) (max 0 (locked_of s - lock))),
          sr_long_size := int_string (max 0 (series_amount (sr_long_size s) - series_amount (op_size p)))\<rparr>)"
      using so a by (simp add: series_ok_def series_typed_def collateral_of_def locked_of_def)
    have pn: "numeric (op_premium p)" using ok p(1) by (auto simp: option_ok_def dest!: map_of_SomeD)
    have pp: "os_positions d' = os_positions d
        \<or> (\<exists>p. numeric (op_size p) \<and> numeric (op_premium p) \<and> numeric (op_payout p) \<and> os_positions d' = AList.update (i, user) p (os_positions d))"
      using pn a0 by (intro disjI2 exI [of _ "p\<lparr>op_size := ''0'', op_payout := int_string a\<rparr>"]) (simp add: d')
    have tt: "paid user (series_asset s) a (os_accounts d) (os_accounts d')"
      using t a0 by (auto simp: d' paid_def split: if_splits)
    have "option_ok d' \<and> moved user (series_asset s) a (os_accounts d) (os_accounts d') (pool_of d) (pool_of d')"
      by (rule pool_tx [OF ok s so' _ _ _ _ tt _ pp]) (simp_all add: d' collateral_of_def)
    with s show ?thesis by blast
  qed
qed

section \<open>Every handler\<close>

lemma with_series_cases:
  assumes "with_series pu fault raw pre k d0 d = (d', r)"
  shows "d' = d \<or> (\<exists>i s. k i s = (d', r) \<and> map_of (os_series d0) i = Some s \<and> pre = None \<and> pu raw = Some i)"
  using assms by (auto simp: with_series_def load_series_def split: option.splits sum.splits if_splits)

lemma show_series_fst [simp]: "fst (show_series fault i now x) = fst x"
  by (auto simp: show_series_def split: prod.splits reply.splits)

lemma show_series_cases: "show_series fault i now x = (d', r) \<Longrightarrow> \<exists>q. x = (d', q)"
  by (metis fst_conv show_series_fst surj_pair)

text \<open>A request that moves no tokens: it leaves the tables well-formed, the pools and the accounts alone.\<close>

definition quiet :: "option_db \<Rightarrow> option_db \<Rightarrow> bool" where
  "quiet d d' \<longleftrightarrow> option_ok d' \<and> pool_of d' = pool_of d \<and> os_accounts d' = os_accounts d"

lemma quiet_refl: "option_ok d \<Longrightarrow> quiet d d"
  by (simp add: quiet_def)

lemma quiet_edit: "option_ok d \<Longrightarrow> edits f \<Longrightarrow> quiet d (modify_series i f d)"
  by (simp add: quiet_def modify_series_effect)

definition new_series_valid :: "create_series_req \<Rightarrow> bool" where
  "new_series_valid r \<longleftrightarrow> option_collateral_symbol (to_upper (trim_space (cs_symbol r)))
     \<and> (case cs_decimals r of None \<Rightarrow> True | Some n \<Rightarrow> 0 \<le> n \<and> n \<le> 36)
     \<and> (to_lower (trim_space (cs_status r)) = [] \<or> allowed_option_status (to_lower (trim_space (cs_status r))))"

lemma new_series_ok:
  assumes "new_series_valid r" "positive_wad (cs_strike r) = Some strike" "valid_iv (cs_base_iv r) = Some iv"
    "positive_wad (cs_mark_price r) = Some mark"
  shows "series_ok (new_series r user token strike iv mark expiry)"
    and "sr_collateral (new_series r user token strike iv mark expiry) = ''0''"
  using assms positive_wad_Some [OF assms(2)] positive_wad_Some [OF assms(4)] valid_iv_Some [OF assms(3)]
  by (auto simp: new_series_def Let_def new_series_valid_def series_ok_def series_typed_def collateral_of_def locked_of_def
      positive_decimal_format parse_format_wad allowed_option_status_def split: option.splits)

lemma check_series_Inr:
  "check_series hex pt now r = Inr (token, strike, iv, mark, expiry) \<Longrightarrow>
   new_series_valid r \<and> positive_wad (cs_strike r) = Some strike \<and> valid_iv (cs_base_iv r) = Some iv
   \<and> positive_wad (cs_mark_price r) = Some mark"
  unfolding check_series_def Let_def new_series_valid_def
  by (cases "cs_decimals r") (simp_all split: option.split_asm if_split_asm)

lemma create_series_quiet:
  assumes ok: "option_ok d" and h: "create_series hex pt fault now i user body d0 d = (d', r)"
  shows "quiet d d'"
proof (cases "d' = d")
  case False
  then obtain r0 token strike iv mark expiry where c: "check_series hex pt now r0 = Inr (token, strike, iv, mark, expiry)"
    and fresh: "\<forall>x \<in> set (os_series d). fst x \<noteq> i"
    and d': "d' = d\<lparr>os_series := AList.update i (new_series r0 user token strike iv mark expiry) (os_series d)\<rparr>"
    using h unfolding create_series_def Let_def
    by (auto simp: split_beta split: option.split_asm if_split_asm sum.split_asm)
  let ?s = "new_series r0 user token strike iv mark expiry"
  note v = check_series_Inr [OF c]
  have s: "series_ok ?s" "sr_collateral ?s = ''0''" using new_series_ok v by blast+
  have f: "i \<notin> fst ` set (os_series d)" using fresh by auto
  have "pool_of d' x = pool_of d x" for x
    using sum_update_new [OF f, of "pool_part x" ?s] s(2) by (simp add: d' pool_of_def pool_part_def collateral_of_def)
  then have "pool_of d' = pool_of d" by blast
  moreover have "option_ok d'" using put_series_ok [OF ok s(1), of d' i] by (simp add: d')
  ultimately show ?thesis by (simp add: d' quiet_def)
qed (use ok quiet_refl in blast)

lemma update_series_tx_edits:
  assumes "update_series_tx pt fault now r i s d = (d', q)"
  shows "d' = d \<or> (\<exists>f. d' = modify_series i f d \<and> edits f)"
proof -
  let ?f = "\<lambda>row. row\<lparr>
      sr_name := (case map_option trim_space (us_name r) of None \<Rightarrow> sr_name row | Some n \<Rightarrow> n),
      sr_base_iv := (case map_option valid_iv (us_base_iv r) of Some (Some v) \<Rightarrow> format_wad (Some v) | _ \<Rightarrow> sr_base_iv row),
      sr_mark_price := (case map_option positive_wad (us_mark_price r) of Some (Some v) \<Rightarrow> format_wad (Some v) | _ \<Rightarrow> sr_mark_price row),
      sr_expiry := (case map_option (\<lambda>t. pt (trim_space t)) (us_expiry r) of Some (Some t) \<Rightarrow> t | _ \<Rightarrow> sr_expiry row),
      sr_status := (case map_option (\<lambda>t. to_lower (trim_space t)) (us_status r) of None \<Rightarrow> sr_status row | Some t \<Rightarrow> t)\<rparr>"
  define f :: "option_series \<Rightarrow> option_series" where "f = ?f"
  have d': "d' = d \<or> d' = modify_series i f d
      \<and> (case map_option (\<lambda>t. to_lower (trim_space t)) (us_status r) of Some t \<Rightarrow> allowed_option_status t | None \<Rightarrow> True)"
    using assms unfolding update_series_tx_def Let_def f_def [symmetric]
    by (cases "map_option (\<lambda>t. to_lower (trim_space t)) (us_status r)") (simp_all split: if_split_asm)
  moreover have "edits f"
    if "case map_option (\<lambda>t. to_lower (trim_space t)) (us_status r) of Some t \<Rightarrow> allowed_option_status t | None \<Rightarrow> True"
  proof -
    have "series_ok (?f s)" if "series_ok s" for s
    proof -
      have "positive_decimal (sr_mark_price (?f s))"
        using that by (auto simp: series_ok_def series_typed_def positive_decimal_format split: option.split dest: positive_wad_Some)
      moreover have "\<exists>v. 0 < v \<and> v \<le> max_iv \<and> parse_wad (sr_base_iv (?f s)) = Inr v"
        using that by (auto simp: series_ok_def series_typed_def parse_format_wad split: option.split dest: valid_iv_Some)
      moreover have "allowed_option_status (sr_status (?f s))"
        using that \<open>case map_option (\<lambda>t. to_lower (trim_space t)) (us_status r) of Some t \<Rightarrow> allowed_option_status t | None \<Rightarrow> True\<close>
        by (auto simp: series_ok_def series_typed_def split: option.splits)
      ultimately show ?thesis using that by (simp add: series_ok_def series_typed_def collateral_of_def locked_of_def)
    qed
    then show ?thesis unfolding f_def by (simp add: edits_def)
  qed
  ultimately show ?thesis by blast
qed

lemma status_edit: "allowed_option_status t \<Longrightarrow> edits (\<lambda>row. row\<lparr>sr_status := t\<rparr>)"
  by (simp add: edits_def series_ok_def series_typed_def collateral_of_def locked_of_def)

definition settle_row :: "int option \<Rightarrow> option_series \<Rightarrow> option_series" where
  "settle_row n = (\<lambda>row. row\<lparr>sr_settlement := Some (format_wad n), sr_status := option_settled\<rparr>)"

definition mark_row :: "int \<Rightarrow> option_series \<Rightarrow> option_series" where
  "mark_row n = (\<lambda>row. row\<lparr>sr_mark_price := format_wad (Some n)\<rparr>)"

lemma settle_edit: "0 < n \<Longrightarrow> edits (settle_row (Some n))"
  by (simp add: settle_row_def edits_def series_ok_def series_typed_def collateral_of_def locked_of_def
      positive_decimal_format allowed_option_status_def)

lemma mark_edit: "0 < n \<Longrightarrow> edits (mark_row n)"
  by (simp add: mark_row_def edits_def series_ok_def series_typed_def collateral_of_def locked_of_def positive_decimal_format)

lemma update_series_quiet:
  assumes ok: "option_ok d" and h: "update_series pu pt fault now raw body d0 d = (d', r)"
  shows "quiet d d'"
proof -
  from h obtain q where "with_series pu fault raw (if body = None then Some Bad_binding else None)
      (\<lambda>i s. update_series_tx pt fault now (the body) i s d) d0 d = (d', q)"
    unfolding update_series_def by (blast dest: show_series_cases)
  then show ?thesis using ok quiet_refl quiet_edit
    by (blast dest: with_series_cases update_series_tx_edits)
qed

lemma delete_series_quiet:
  assumes ok: "option_ok d" and h: "delete_series pu fault raw d0 d = (d', r)"
  shows "quiet d d'"
proof -
  have "d' = d \<or> (\<exists>i. d' = modify_series i (\<lambda>row. row\<lparr>sr_status := option_expired\<rparr>) d)"
    using h unfolding delete_series_def by (auto dest!: with_series_cases split: if_splits)
  then show ?thesis using ok quiet_refl quiet_edit [OF ok status_edit] by (auto simp: allowed_option_status_def)
qed

lemma settle_series_quiet:
  assumes ok: "option_ok d" and h: "settle_series pu fault now raw body d0 d = (d', r)"
  shows "quiet d d'"
proof (cases "d' = d")
  case False
  then obtain i n t where p: "positive_wad t = Some n" and "d' = modify_series i (settle_row (Some n)) d"
    using h unfolding settle_series_def Let_def settle_row_def [symmetric]
    by (auto dest!: show_series_cases with_series_cases split: if_split_asm option.split_asm)
  then show ?thesis using quiet_edit [OF ok settle_edit [OF positive_wad_Some [OF p]]] by simp
qed (use ok quiet_refl in blast)

lemma refresh_quiet:
  assumes ok: "option_ok d" and h: "refresh_mark_price pu prices fault now raw d0 d = (d', r)"
  shows "quiet d d'"
proof (cases "d' = d")
  case False
  then obtain i n t where p: "positive_wad t = Some n" and "d' = modify_series i (mark_row n) d"
    using h unfolding refresh_mark_price_def mark_row_def [symmetric]
    by (auto dest!: show_series_cases with_series_cases split: if_split_asm option.split_asm)
  then show ?thesis using quiet_edit [OF ok mark_edit [OF positive_wad_Some [OF p]]] by simp
qed (use ok quiet_refl in blast)

section \<open>Histories\<close>

text \<open>
  The states that the market went through, the latest first. A request is served in the latest
  state; its early reads may have seen any state of the history.
\<close>

inductive option_step :: "option_db list \<Rightarrow> option_db list \<Rightarrow> bool" where
  create: "d0 \<in> set h \<Longrightarrow> create_series hex pt fault now i user body d0 (hd h) = (d', r) \<Longrightarrow> option_step h (d' # h)"
| update: "d0 \<in> set h \<Longrightarrow> update_series pu pt fault now raw edit d0 (hd h) = (d', r) \<Longrightarrow> option_step h (d' # h)"
| delete: "d0 \<in> set h \<Longrightarrow> delete_series pu fault raw d0 (hd h) = (d', t) \<Longrightarrow> option_step h (d' # h)"
| settle: "d0 \<in> set h \<Longrightarrow> settle_series pu fault now raw price d0 (hd h) = (d', r) \<Longrightarrow> option_step h (d' # h)"
| refresh: "d0 \<in> set h \<Longrightarrow> refresh_mark_price pu prices fault now raw d0 (hd h) = (d', r) \<Longrightarrow> option_step h (d' # h)"
| add: "d0 \<in> set h \<Longrightarrow> add_collateral pu on fault user raw amount d0 (hd h) = (d', n) \<Longrightarrow> option_step h (d' # h)"
| remove: "d0 \<in> set h \<Longrightarrow> remove_collateral pu on fault user raw amount d0 (hd h) = (d', n) \<Longrightarrow> option_step h (d' # h)"
| buy: "d0 \<in> set h \<Longrightarrow> buy_option pu msg on fault now0 now user raw order d0 (hd h) = (d', b) \<Longrightarrow> option_step h (d' # h)"
| exercise: "d0 \<in> set h \<Longrightarrow> exercise pu on fault user raw d0 (hd h) = (d', n) \<Longrightarrow> option_step h (d' # h)"
| withdraw: "d0 \<in> set h \<Longrightarrow> withdraw_liquidity pu on fault user raw amount d0 (hd h) = (d', n) \<Longrightarrow> option_step h (d' # h)"

definition history_ok :: "option_db list \<Rightarrow> bool" where
  "history_ok h \<longleftrightarrow> h \<noteq> [] \<and> (\<forall>d \<in> set h. option_ok d)"

text \<open>What every request does: nothing, an edit, or one transaction on the pool of one series.\<close>

definition settles :: "option_db \<Rightarrow> option_db \<Rightarrow> bool" where
  "settles d d' \<longleftrightarrow> option_ok d' \<and> (\<exists>user asset a. moved user asset a (os_accounts d) (os_accounts d') (pool_of d) (pool_of d'))"

lemma quiet_settles: "quiet d d' \<Longrightarrow> settles d d'"
  unfolding quiet_def settles_def by (metis moved_refl)

lemma moves_settle:
  assumes "option_ok d"
  shows "d' = d \<or> (\<exists>i user a fault. add_collateral_tx fault i user a d = Inr d') \<Longrightarrow> settles d d'"
    and "d' = d \<or> (\<exists>i user a fault. remove_collateral_tx fault i user a d = Inr d') \<Longrightarrow> settles d d'"
    and "d' = d \<or> (\<exists>i user a fault. withdraw_tx fault i user a d = Inr d') \<Longrightarrow> settles d d'"
    and "d' = d \<or> (\<exists>i user a fault. exercise_tx fault i user d = Inr (d', a)) \<Longrightarrow> settles d d'"
    and "d' = d \<or> (\<exists>i user fault now qty a lock. 0 \<le> qty \<and> 0 \<le> lock \<and> buy_tx fault now i user qty a lock d = Inr d') \<Longrightarrow> settles d d'"
  using assms quiet_settles [OF quiet_refl [OF assms]] add_collateral_moves [OF assms] remove_collateral_moves [OF assms]
    withdraw_moves [OF assms] exercise_moves [OF assms] buy_moves [OF assms]
  unfolding settles_def by metis+

lemma add_collateral_tx_only:
  "add_collateral pu on fault user raw body d0 d = (d', r) \<Longrightarrow> d' = d \<or> (\<exists>i user a fault. add_collateral_tx fault i user a d = Inr d')"
  unfolding add_collateral_def Let_def by (auto dest!: with_series_cases split: if_split_asm sum.split_asm)

lemma remove_collateral_tx_only:
  "remove_collateral pu on fault user raw body d0 d = (d', r) \<Longrightarrow> d' = d \<or> (\<exists>i user a fault. remove_collateral_tx fault i user a d = Inr d')"
  unfolding remove_collateral_def Let_def by (auto dest!: with_series_cases split: if_split_asm sum.split_asm)

lemma withdraw_tx_only:
  "withdraw_liquidity pu on fault user raw body d0 d = (d', r) \<Longrightarrow> d' = d \<or> (\<exists>i user a fault. withdraw_tx fault i user a d = Inr d')"
  unfolding withdraw_liquidity_def Let_def by (auto dest!: with_series_cases split: if_split_asm sum.split_asm)

lemma exercise_tx_only:
  "exercise pu on fault user raw d0 d = (d', r) \<Longrightarrow> d' = d \<or> (\<exists>i user a fault. exercise_tx fault i user d = Inr (d', a))"
  unfolding exercise_def by (auto dest!: with_series_cases split: if_split_asm sum.split_asm prod.split_asm)

lemma with_series_done:
  assumes "with_series pu fault raw pre k d0 d = (d', r)" "d' \<noteq> d \<or> is_ok r" "\<And>q. pre = Some q \<Longrightarrow> \<not> is_ok q"
  shows "\<exists>i s. k i s = (d', r) \<and> map_of (os_series d0) i = Some s \<and> pre = None \<and> pu raw = Some i"
proof -
  have "\<not> is_ok (series_load_reply e)" for e by (cases e) simp_all
  then show ?thesis using assms
    by (auto simp: with_series_def load_series_def split: option.split_asm sum.split_asm if_split_asm)
qed

lemma bad_buy_not_ok: "option_pre user on b (bad_buy b) = Some q \<Longrightarrow> \<not> is_ok q"
  by (auto simp: option_pre_def bad_buy_def split: option.splits if_split_asm)

lemma buy_reply_not_ok [simp]: "\<not> is_ok (buy_reply e)"
  by (cases e) simp_all

lemma buy_request:
  assumes ok0: "option_ok d0" and h: "buy_option pu msg on fault now0 now user raw body d0 d = (d', r)" and did: "d' \<noteq> d \<or> is_ok r"
  obtains i s qty limit premium lock where "map_of (os_series d0) i = Some s" "0 < qty" "0 < premium" "premium \<le> limit"
    "body \<noteq> None" "parse_option_amount (br_max_premium (the body)) = Some limit"
    "option_premium s qty now0 = Inr premium" "required_collateral s qty = Inr lock" "0 \<le> lock"
    "buy_tx fault now i user qty premium lock d = Inr d'" "r = Ok_reply 200 (premium, format_wad (Some qty))"
proof -
  obtain i s where c: "map_of (os_series d0) i = Some s"
    and pre: "option_pre user on (bind_buy body) (bad_buy (bind_buy body)) = (None :: (int \<times> string) reply option)"
    and k: "buy_on_series msg fault now0 now user (the (positive_wad (br_size (the (bind_buy body)))))
      (the (parse_option_amount (br_max_premium (the (bind_buy body))))) i s d = (d', r)"
    using with_series_done [OF h [unfolded buy_option_def Let_def] did] bad_buy_not_ok by blast
  obtain b qty limit where b: "bind_buy body = Some b" "body = Some b" "positive_wad (br_size b) = Some qty"
      "parse_option_amount (br_max_premium b) = Some limit"
    using pre by (auto simp: option_pre_def bad_buy_def bind_buy_def split: if_split_asm option.split_asm)
  have "buy_on_series msg fault now0 now user qty limit i s d = (d', r)" using k b by simp
  then obtain premium lock where q: "option_premium s qty now0 = Inr premium" "0 < premium" "premium \<le> limit"
      "required_collateral s qty = Inr lock" "buy_tx fault now i user qty premium lock d = Inr d'"
      "r = Ok_reply 200 (premium, format_wad (Some qty))"
    using did by (auto simp: buy_on_series_def split: if_split_asm sum.split_asm)
  have "0 < qty" by (rule positive_wad_Some [OF b(3)])
  moreover have "0 \<le> lock" using required_nonneg [OF option_okD [OF ok0 c] q(4)] \<open>0 < qty\<close> by simp
  ultimately show thesis using that c q b by simp
qed

lemma option_step_settles:
  assumes st: "option_step h h'" and ok: "history_ok h"
  shows "\<exists>d'. h' = d' # h \<and> settles (hd h) d'"
proof -
  have d: "option_ok (hd h)" using ok by (simp add: history_ok_def)
  have d0: "option_ok d0" if "d0 \<in> set h" for d0 using ok that by (simp add: history_ok_def)
  from st show ?thesis
  proof cases
    case create with create_series_quiet [OF d] show ?thesis by (blast intro: quiet_settles)
  next
    case update with update_series_quiet [OF d] show ?thesis by (blast intro: quiet_settles)
  next
    case delete with delete_series_quiet [OF d] show ?thesis by (blast intro: quiet_settles)
  next
    case settle with settle_series_quiet [OF d] show ?thesis by (blast intro: quiet_settles)
  next
    case refresh with refresh_quiet [OF d] show ?thesis by (blast intro: quiet_settles)
  next
    case add
    with moves_settle(1) [OF d add_collateral_tx_only [OF add(3)]] show ?thesis by blast
  next
    case remove
    with moves_settle(2) [OF d remove_collateral_tx_only [OF remove(3)]] show ?thesis by blast
  next
    case withdraw
    with moves_settle(3) [OF d withdraw_tx_only [OF withdraw(3)]] show ?thesis by blast
  next
    case exercise
    with moves_settle(4) [OF d exercise_tx_only [OF exercise(3)]] show ?thesis by blast
  next
    case (buy d0 pu msg on fault now0 now user raw order d' b)
    have "settles (hd h) d'"
    proof (cases "d' = hd h")
      case True
      then show ?thesis using quiet_settles [OF quiet_refl [OF d]] by simp
    next
      case False
      from buy_request [OF d0 [OF buy(2)] buy(3) disjI1 [OF this]] moves_settle(5) [OF d, of d'] show ?thesis
        by (metis order_less_imp_le)
    qed
    with buy show ?thesis by blast
  qed
qed

interpretation options: custody "\<lambda>h. os_accounts (hd h)" "\<lambda>h. pool_of (hd h)" history_ok option_step
proof
  fix h h'
  assume st: "option_step h h'" and ok: "history_ok h"
  from option_step_settles [OF this] obtain d' where d': "h' = d' # h" "settles (hd h) d'" by blast
  with ok have "history_ok h'" by (simp add: history_ok_def settles_def)
  with d' show "history_ok h' \<and> (\<exists>user. trade user (os_accounts (hd h)) (os_accounts (hd h')) (pool_of (hd h)) (pool_of (hd h')))"
    by (auto simp: settles_def intro: moved_trade)
qed

section \<open>What stays in the pool of a settled series\<close>

definition principals :: "string \<Rightarrow> option_db \<Rightarrow> int" where
  "principals i d = (\<Sum>x\<leftarrow>filter (\<lambda>x. fst (fst x) = i) (os_liquidity d). series_amount (snd x))"

lemma filter_update:
  "filter (\<lambda>x. P (fst x)) (AList.update k v al)
     = (if P k then AList.update k v (filter (\<lambda>x. P (fst x)) al) else filter (\<lambda>x. P (fst x)) al)"
  by (induction al) auto

lemma map_of_filter_key: "P k \<Longrightarrow> map_of (filter (\<lambda>x. P (fst x)) al) k = map_of al k"
  by (induction al) auto

lemma principals_update:
  assumes "option_ok d" "map_of (os_liquidity d) (j, user) = Some p" "os_liquidity d' = AList.update (j, user) (int_string n) (os_liquidity d)"
  shows "principals i d' = principals i d + (if i = j then n - series_amount p else 0)"
proof -
  have dist: "distinct (map fst (filter (\<lambda>x. fst (fst x) = i) (os_liquidity d)))"
    using assms(1) by (simp add: option_ok_def distinct_map_filter)
  show ?thesis
  proof (cases "i = j")
    case True
    have m: "map_of (filter (\<lambda>x. fst (fst x) = i) (os_liquidity d)) (j, user) = Some p"
      using map_of_filter_key [of "\<lambda>k. fst k = i" "(j, user)" "os_liquidity d"] assms(2) True by simp
    have "filter (\<lambda>x. fst (fst x) = i) (os_liquidity d') = AList.update (j, user) (int_string n) (filter (\<lambda>x. fst (fst x) = i) (os_liquidity d))"
      using filter_update [of "\<lambda>k. fst k = i" "(j, user)" "int_string n" "os_liquidity d"] True by (simp add: assms(3))
    then show ?thesis using sum_update_known [OF dist m, of series_amount "int_string n"] True by (simp add: principals_def)
  next
    case False
    have "filter (\<lambda>x. fst (fst x) = i) (os_liquidity d') = filter (\<lambda>x. fst (fst x) = i) (os_liquidity d)"
      using filter_update [of "\<lambda>k. fst k = i" "(j, user)" "int_string n" "os_liquidity d"] False by (simp add: assms(3))
    with False show ?thesis by (simp add: principals_def)
  qed
qed

lemma principals_nonneg:
  assumes "option_ok d"
  shows "0 \<le> principals i d"
proof -
  have "\<forall>x \<in> set (os_liquidity d). 0 \<le> series_amount (snd x)" using assms by (simp add: option_ok_def numeric_nonneg)
  then show ?thesis by (auto simp: principals_def intro!: sum_list_nonneg)
qed

text \<open>Requests served one at a time: the early reads see the state that is served.\<close>

definition option_serve :: "option_db \<Rightarrow> option_db \<Rightarrow> bool" where
  "option_serve d d' \<longleftrightarrow> option_step [d] [d', d]"

definition no_holder :: "string \<Rightarrow> option_db \<Rightarrow> bool" where
  "no_holder i d \<longleftrightarrow> (\<forall>user p. map_of (os_positions d) (i, user) = Some p \<longrightarrow> series_amount (op_size p) \<le> 0)"

text \<open>A settled series without holders, whose pool exceeds the providers' principals by \<open>c\<close>.\<close>

definition stranded :: "string \<Rightarrow> int \<Rightarrow> option_db \<Rightarrow> bool" where
  "stranded i c d \<longleftrightarrow> option_ok d \<and> no_holder i d
     \<and> (\<exists>s. map_of (os_series d) i = Some s \<and> sr_status s = option_settled \<and> collateral_of s - principals i d = c)"

lemma stranded_other:
  assumes "stranded i c d" "option_ok d'" "map_of (os_series d') i = map_of (os_series d) i"
    "principals i d' = principals i d" "\<And>user. map_of (os_positions d') (i, user) = map_of (os_positions d) (i, user)"
  shows "stranded i c d'"
  using assms unfolding stranded_def no_holder_def by simp

lemma stranded_edit:
  assumes st: "stranded i c d" and ok: "option_ok (modify_series j f d)"
    and f: "i = j \<Longrightarrow> \<forall>s. sr_status (f s) = sr_status s \<and> sr_collateral (f s) = sr_collateral s"
  shows "stranded i c (modify_series j f d)"
proof (cases "map_of (os_series d) j")
  case None
  then show ?thesis using st by (simp add: modify_series_def)
next
  case (Some s)
  have p: "principals i (modify_series j f d) = principals i d" "os_positions (modify_series j f d) = os_positions d"
    by (simp_all add: modify_series_def principals_def Some)
  have m: "map_of (os_series (modify_series j f d)) i = (if i = j then Some (f s) else map_of (os_series d) i)"
    by (simp add: modify_series_def Some update_conv)
  show ?thesis using st ok p m f Some unfolding stranded_def no_holder_def collateral_of_def by (cases "i = j") auto
qed

lemma stranded_take:
  assumes st: "stranded i c d" and s: "map_of (os_series d) j = Some s" and ok: "option_ok d'"
    and r: "take_liquidity fault j user a s d = Inr d'"
  shows "stranded i c d'"
proof -
  have okd: "option_ok d" using st by (simp add: stranded_def)
  obtain t p where p: "map_of (os_liquidity d) (j, user) = Some p"
    and d': "d' = d\<lparr>os_accounts := t, os_series := AList.update j (s\<lparr>sr_collateral := int_string (series_amount (sr_collateral s) - a)\<rparr>) (os_series d),
      os_liquidity := AList.update (j, user) (int_string (series_amount p - a)) (os_liquidity d)\<rparr>"
    using r by (rule take_liquidity_effect)
  have pr: "principals i d' = principals i d + (if i = j then - a else 0)"
    using principals_update [OF okd p, of d' "series_amount p - a" i] by (simp add: d')
  show ?thesis using st ok pr s unfolding stranded_def no_holder_def collateral_of_def
    by (cases "i = j") (auto simp: d' update_conv)
qed

lemma stranded_create:
  assumes st: "stranded i c d" and ok: "option_ok d'" and h: "create_series hex pt fault now j user body d d = (d', r)"
  shows "stranded i c d'"
proof (cases "d' = d")
  case False
  then obtain s where fresh: "\<forall>x \<in> set (os_series d). fst x \<noteq> j" and d': "d' = d\<lparr>os_series := AList.update j s (os_series d)\<rparr>"
    using h unfolding create_series_def Let_def
    by (auto simp: split_beta split: option.split_asm if_split_asm sum.split_asm)
  have "i \<in> fst ` set (os_series d)" using st map_of_known unfolding stranded_def by fast
  then have "i \<noteq> j" using fresh by auto
  then show ?thesis using ok by (intro stranded_other [OF st]) (simp_all add: d' update_conv principals_def)
qed (use st in simp)

lemma stranded_update:
  assumes st: "stranded i c d" and ok: "option_ok d'" and h: "update_series pu pt fault now raw body d d = (d', r)"
  shows "stranded i c d'"
proof (cases "d' = d")
  case False
  obtain q where "with_series pu fault raw (if body = None then Some Bad_binding else None)
      (\<lambda>i s. update_series_tx pt fault now (the body) i s d) d d = (d', q)"
    using h unfolding update_series_def by (blast dest: show_series_cases)
  with False obtain j s where k: "update_series_tx pt fault now (the body) j s d = (d', q)" and s: "map_of (os_series d) j = Some s"
    by (blast dest: with_series_cases)
  have "sr_status s \<noteq> option_settled" using k False by (auto simp: update_series_tx_def Let_def)
  then have "i \<noteq> j" using s st by (auto simp: stranded_def)
  moreover obtain f where "d' = modify_series j f d" using update_series_tx_edits [OF k] False by blast
  ultimately show ?thesis using stranded_edit [OF st, of j f] ok by simp
qed (use st in simp)

lemma stranded_delete:
  assumes st: "stranded i c d" and pos: "0 < c" and ok: "option_ok d'" and h: "delete_series pu fault raw d d = (d', r)"
  shows "stranded i c d'"
proof (cases "d' = d")
  case False
  then obtain j s where s: "map_of (os_series d) j = Some s" and z: "collateral_of s \<le> 0"
    and d': "d' = modify_series j (\<lambda>row. row\<lparr>sr_status := option_expired\<rparr>) d"
    using h unfolding delete_series_def collateral_of_def by (auto dest!: with_series_cases split: if_splits)
  have "i \<noteq> j" using st pos s z principals_nonneg [of d i] by (auto simp: stranded_def)
  then show ?thesis unfolding d' using ok d' by (intro stranded_edit [OF st]) simp_all
qed (use st in simp)

lemma stranded_settle:
  assumes st: "stranded i c d" and ok: "option_ok d'" and h: "settle_series pu fault now raw body d d = (d', r)"
  shows "stranded i c d'"
proof (cases "d' = d")
  case False
  then obtain j s n where s: "map_of (os_series d) j = Some s" "sr_status s \<noteq> option_settled" and d': "d' = modify_series j (settle_row n) d"
    using h unfolding settle_series_def Let_def settle_row_def [symmetric]
    by (auto dest!: show_series_cases with_series_cases split: if_split_asm option.split_asm)
  have "i \<noteq> j" using st s by (auto simp: stranded_def)
  then show ?thesis unfolding d' using ok d' by (intro stranded_edit [OF st]) simp_all
qed (use st in simp)

lemma stranded_refresh:
  assumes st: "stranded i c d" and ok: "option_ok d'" and h: "refresh_mark_price pu prices fault now raw d d = (d', r)"
  shows "stranded i c d'"
proof (cases "d' = d")
  case False
  then obtain j n where d': "d' = modify_series j (mark_row n) d"
    using h unfolding refresh_mark_price_def mark_row_def [symmetric]
    by (auto dest!: show_series_cases with_series_cases split: if_split_asm option.split_asm)
  show ?thesis unfolding d' by (rule stranded_edit [OF st]) (use ok d' in \<open>simp_all add: mark_row_def\<close>)
qed (use st in simp)

lemma stranded_add:
  assumes st: "stranded i c d" and ok: "option_ok d'" and h: "add_collateral pu on fault user raw body d d = (d', r)"
  shows "stranded i c d'"
proof (cases "d' = d")
  case False
  then obtain j u a where t: "add_collateral_tx fault j u a d = Inr d'"
    using h unfolding add_collateral_def Let_def by (auto dest!: with_series_cases split: if_split_asm sum.split_asm)
  then obtain s s' p t where s: "map_of (os_series d) j = Some s" "sr_status s \<noteq> option_settled"
    and d': "d' = d\<lparr>os_accounts := t, os_series := AList.update j s' (os_series d), os_liquidity := AList.update (j, u) p (os_liquidity d)\<rparr>"
    unfolding add_collateral_tx_def upsert_liquidity_def Let_def by (auto split: if_split_asm)
  have "i \<noteq> j" using st s by (auto simp: stranded_def)
  moreover from this have "principals i d' = principals i d"
    using filter_update [of "\<lambda>k. fst k = i" "(j, u)" p "os_liquidity d"] by (simp add: d' principals_def)
  ultimately show ?thesis using ok by (intro stranded_other [OF st]) (simp_all add: d' update_conv)
qed (use st in simp)

lemma stranded_remove:
  assumes st: "stranded i c d" and ok: "option_ok d'" and h: "remove_collateral pu on fault user raw body d d = (d', r)"
  shows "stranded i c d'"
proof (cases "d' = d")
  case False
  then obtain j a s where "map_of (os_series d) j = Some s" "take_liquidity fault j user a s d = Inr d'"
    using h unfolding remove_collateral_def Let_def
    by (auto simp: remove_collateral_tx_def Let_def dest!: with_series_cases split: if_split_asm sum.split_asm)
  then show ?thesis using stranded_take [OF st _ ok] by blast
qed (use st in simp)

lemma stranded_withdraw:
  assumes st: "stranded i c d" and ok: "option_ok d'" and h: "withdraw_liquidity pu on fault user raw body d d = (d', r)"
  shows "stranded i c d'"
proof (cases "d' = d")
  case False
  then obtain j a s where "map_of (os_series d) j = Some s" "take_liquidity fault j user a s d = Inr d'"
    using h unfolding withdraw_liquidity_def Let_def
    by (auto simp: withdraw_tx_def Let_def dest!: with_series_cases split: if_split_asm sum.split_asm)
  then show ?thesis using stranded_take [OF st _ ok] by blast
qed (use st in simp)

lemma stranded_buy:
  assumes st: "stranded i c d" and ok: "option_ok d'" and h: "buy_option pu msg on fault now0 now user raw body d d = (d', r)"
  shows "stranded i c d'"
proof (cases "d' = d")
  case False
  then obtain j s qty premium lock where s: "map_of (os_series d) j = Some s" and t: "buy_tx fault now j user qty premium lock d = Inr d'"
    using buy_request [OF _ h disjI1 [OF False]] st unfolding stranded_def by metis
  then obtain s' p t where d': "d' = d\<lparr>os_accounts := t, os_series := AList.update j s' (os_series d), os_positions := AList.update (j, user) p (os_positions d)\<rparr>"
    and "sr_status s = option_active"
    unfolding buy_tx_def upsert_position_def Let_def by (auto split: if_split_asm)
  then have "i \<noteq> j" using st s by (auto simp: stranded_def option_active_def option_settled_def)
  then show ?thesis using ok by (intro stranded_other [OF st]) (simp_all add: d' update_conv principals_def)
qed (use st in simp)

lemma stranded_exercise:
  assumes st: "stranded i c d" and ok: "option_ok d'" and h: "exercise pu on fault user raw d d = (d', r)"
  shows "stranded i c d'"
proof (cases "d' = d")
  case False
  then obtain j a where t: "exercise_tx fault j user d = Inr (d', a)"
    using h unfolding exercise_def by (auto dest!: with_series_cases split: if_split_asm sum.split_asm prod.split_asm)
  from t show ?thesis
  proof (rule exercise_effect)
    fix s p lock t
    assume p: "map_of (os_positions d) (j, user) = Some p" "0 < series_amount (op_size p)"
      and d': "d' = d\<lparr>os_accounts := t,
        os_series := AList.update j (s\<lparr>sr_collateral := int_string (collateral_of s - a),
          sr_locked := int_string (min (collateral_of s - a) (max 0 (locked_of s - lock))),
          sr_long_size := int_string (max 0 (series_amount (sr_long_size s) - series_amount (op_size p)))\<rparr>) (os_series d),
        os_positions := AList.update (j, user) (p\<lparr>op_size := ''0'', op_payout := int_string a\<rparr>) (os_positions d)\<rparr>"
    have "i \<noteq> j" using st p unfolding stranded_def no_holder_def by fastforce
    then show ?thesis using ok by (intro stranded_other [OF st]) (simp_all add: d' update_conv principals_def)
  qed
qed (use st in simp)

lemma stranded_serve:
  assumes st: "stranded i c d" and pos: "0 < c" and sv: "option_serve d d'"
  shows "stranded i c d'"
proof -
  have step: "option_step [d] [d', d]" using sv by (simp add: option_serve_def)
  have "history_ok [d]" using st by (simp add: history_ok_def stranded_def)
  then have ok: "option_ok d'" using options.step_law [OF step] by (simp add: history_ok_def)
  from step show ?thesis
  proof cases
    case create with stranded_create [OF st ok] show ?thesis by simp
  next
    case update with stranded_update [OF st ok] show ?thesis by simp
  next
    case delete with stranded_delete [OF st pos ok] show ?thesis by simp
  next
    case settle with stranded_settle [OF st ok] show ?thesis by simp
  next
    case refresh with stranded_refresh [OF st ok] show ?thesis by simp
  next
    case add with stranded_add [OF st ok] show ?thesis by simp
  next
    case remove with stranded_remove [OF st ok] show ?thesis by simp
  next
    case buy with stranded_buy [OF st ok] show ?thesis by simp
  next
    case exercise with stranded_exercise [OF st ok] show ?thesis by simp
  next
    case withdraw with stranded_withdraw [OF st ok] show ?thesis by simp
  qed
qed

section \<open>Claims\<close>

text \<open>C20: Every column stays readable. Whatever requests are served, in whatever interleaving and with
  whatever database failures, the strike, the mark price and a settlement price of every series parse
  as positive decimals, its volatility as one of at most 500 percent, its amounts as numbers that are
  not negative, its status and its collateral symbol are allowed ones.\<close>

theorem series_columns_stay_typed:
  assumes "option_step\<^sup>*\<^sup>* [d] h" and "option_ok d" and "d' \<in> set h" and "(i, s) \<in> set (os_series d')"
  shows "series_typed s"
proof -
  have "history_ok h" using options.run_ok [OF assms(1)] assms(2) by (simp add: history_ok_def)
  then have "series_ok s" using assms(3,4) unfolding history_ok_def option_ok_def by fastforce
  then show ?thesis by (simp add: series_ok_def)
qed

text \<open>C21: The pool of a series is always at least what is locked for its holders, and what is locked is
  never negative, in every state that any interleaving of requests reaches.\<close>

theorem collateral_covers_locked:
  assumes "option_step\<^sup>*\<^sup>* [d] h" and "option_ok d" and "d' \<in> set h" and "(i, s) \<in> set (os_series d')"
  shows "0 \<le> locked_of s \<and> locked_of s \<le> collateral_of s"
proof -
  have "history_ok h" using options.run_ok [OF assms(1)] assms(2) by (simp add: history_ok_def)
  then have "series_ok s" using assms(3,4) unfolding history_ok_def option_ok_def by fastforce
  then show ?thesis by (rule series_ok_bounds)
qed

text \<open>C22: Tokens are conserved. Over every run finitely many users take part, and for every asset and
  every finite set of users that includes them, what they hold in the ledger plus the pools of that
  asset is the same before and after: every premium, deposit, payout and withdrawal is a transfer.\<close>

theorem option_market_conserves_tokens:
  assumes "option_step\<^sup>*\<^sup>* [d] (d' # h)" and "option_ok d"
  shows "\<exists>V. finite V \<and> (\<forall>U asset. finite U \<longrightarrow> V \<subseteq> U \<longrightarrow>
    holdings_of U asset (os_accounts d') + pool_of d' asset = holdings_of U asset (os_accounts d) + pool_of d asset)"
  using options.run_conserves [OF assms(1)] assms(2) by (simp add: history_ok_def)

text \<open>C23: An exercise that is accepted pays exactly the intrinsic value at the settlement price times the
  size of the position, out of a pool that holds it, and it pays once: in the state it leaves the same
  request is refused, whatever the database does.\<close>

theorem exercise_pays_intrinsic_value_once:
  assumes "option_ok d" and "exercise_tx fault i user d = Inr (d', payout)"
  shows "(\<exists>s p price strike st. map_of (os_series d) i = Some s \<and> map_of (os_positions d) (i, user) = Some p
      \<and> sr_status s = option_settled \<and> sr_settlement s = Some st \<and> parse_wad st = Inr price \<and> parse_wad (sr_strike s) = Inr strike
      \<and> payout = opt_mul (intrinsic_value price strike (sr_is_call s)) (series_amount (op_size p))
      \<and> 0 \<le> payout \<and> payout \<le> collateral_of s
      \<and> paid user (series_asset s) payout (os_accounts d) (os_accounts d'))
    \<and> (\<forall>fault'. \<exists>e. exercise_tx fault' i user d' = Inl e)"
proof -
  from assms(2) show ?thesis
  proof (rule exercise_effect)
    fix s p lock t
    assume h: "map_of (os_series d) i = Some s" "sr_status s = option_settled" "map_of (os_positions d) (i, user) = Some p"
      "0 < series_amount (op_size p)" "payout_at s (series_amount (op_size p)) = Inr payout" "payout \<le> collateral_of s"
      and d': "d' = d\<lparr>os_accounts := t,
        os_series := AList.update i (s\<lparr>sr_collateral := int_string (collateral_of s - payout),
          sr_locked := int_string (min (collateral_of s - payout) (max 0 (locked_of s - lock))),
          sr_long_size := int_string (max 0 (series_amount (sr_long_size s) - series_amount (op_size p)))\<rparr>) (os_series d),
        os_positions := AList.update (i, user) (p\<lparr>op_size := ''0'', op_payout := int_string payout\<rparr>) (os_positions d)\<rparr>"
      and t: "if 0 < payout then paid user (series_asset s) payout (os_accounts d) t else t = os_accounts d"
    have nn: "0 \<le> payout" using payout_nonneg [OF h(5)] h(4) by simp
    then have "paid user (series_asset s) payout (os_accounts d) (os_accounts d')"
      using t by (auto simp: d' paid_def split: if_splits)
    moreover obtain st price strike where "sr_settlement s = Some st" "parse_wad st = Inr price" "parse_wad (sr_strike s) = Inr strike"
      "payout = opt_mul (intrinsic_value price strike (sr_is_call s)) (series_amount (op_size p))"
      using h(5) by (auto simp: payout_at_def split: option.splits)
    moreover have "map_of (os_positions d') (i, user) = Some (p\<lparr>op_size := ''0'', op_payout := int_string payout\<rparr>)"
      by (simp add: d' update_conv)
    then have "\<exists>e. exercise_tx fault' i user d' = Inl e" for fault'
      by (cases "exercise_tx fault' i user d'") (auto simp: exercise_tx_def split: if_splits)
    ultimately show ?thesis using h nn by blast
  qed
qed

text \<open>A purchase takes from the buyer exactly the premium that the pricing of the series quotes for
  the size, and no more than the limit of the request.\<close>

theorem buy_charges_quoted_premium:
  assumes "option_ok d0" and "option_ok d"
    and "buy_option pu msg on fault now0 now user raw (Some b) d0 d = (d', Ok_reply 200 (premium, sz))"
  shows "\<exists>i s0 s qty limit. map_of (os_series d0) i = Some s0 \<and> map_of (os_series d) i = Some s
    \<and> sz = format_wad (Some qty) \<and> option_premium s0 qty now0 = Inr premium
    \<and> parse_option_amount (br_max_premium b) = Some limit \<and> 0 < premium \<and> premium \<le> limit
    \<and> paid user (series_asset s) (- premium) (os_accounts d) (os_accounts d')"
proof -
  obtain i s0 qty limit lock where q: "map_of (os_series d0) i = Some s0" "option_premium s0 qty now0 = Inr premium" "0 < premium"
    "premium \<le> limit" "parse_option_amount (br_max_premium b) = Some limit" "sz = format_wad (Some qty)"
    and t: "buy_tx fault now i user qty premium lock d = Inr d'"
    by (rule buy_request [OF assms(1,3)]) auto
  obtain s t where s: "map_of (os_series d) i = Some s"
    and t: "debit_within (option_ledger_fault fault) user (sr_chain s) (sr_token s) (Some premium) (os_accounts d) = Inr t"
    "os_accounts d' = t"
    using t by (auto simp: buy_tx_def upsert_position_def Let_def split: if_split_asm)
  from debit_paid(2) [OF t(1)] have "paid user (series_asset s) (- premium) (os_accounts d) (os_accounts d')"
    by (simp add: series_asset_def t(2))
  with q s show ?thesis by blast
qed

text \<open>The premiums of options that end out of the money are stranded. Once a series is settled and
  nobody holds a position in it, what its pool holds beyond the providers' principals stays there
  through every request that is served afterwards: withdrawals are bounded by the principals, and no
  other operation pays out of the pool.\<close>

theorem unclaimed_premium_is_stranded:
  assumes "option_serve\<^sup>*\<^sup>* d d'" and "option_ok d" and "map_of (os_series d) i = Some s" and "sr_status s = option_settled"
    and "no_holder i d" and "principals i d < collateral_of s"
  shows "\<exists>s'. map_of (os_series d') i = Some s' \<and> collateral_of s' - principals i d' = collateral_of s - principals i d
    \<and> collateral_of s - principals i d \<le> collateral_of s'"
proof -
  let ?c = "collateral_of s - principals i d"
  have "stranded i ?c d" using assms(2-5) by (simp add: stranded_def)
  with assms(1) have "stranded i ?c d'"
    by (induction rule: rtranclp_induct) (use assms(6) stranded_serve in auto)
  then show ?thesis using principals_nonneg [of d' i] by (auto simp: stranded_def)
qed

section \<open>Runs\<close>

text \<open>
  Two holders bought one unit each when the mark price was 100, which locked 200; the mark price has
  moved to 200 since, and the series was settled at 150.
\<close>

definition eg_series :: option_series where
  "eg_series = \<lparr>sr_key = ''eth-100c'', sr_name = ''ETH 100 call'', sr_chain = 1, sr_underlying = ''ETH'', sr_token = ''native'',
     sr_symbol = ''USDC'', sr_decimals = 6, sr_strike = ''100'', sr_base_iv = ''0.8'', sr_expiry = 1000, sr_is_call = True,
     sr_mark_price = ''200'', sr_collateral = ''220'', sr_locked = ''200'', sr_premium = ''20'', sr_long_size = ''2'',
     sr_settlement = Some ''150'', sr_status = ''settled'', sr_created_by = ''root''\<rparr>"

definition eg_holder :: option_position where
  "eg_holder = \<lparr>op_size = ''1'', op_premium = ''10'', op_payout = ''0''\<rparr>"

definition eg_market :: option_db where
  "eg_market = \<lparr>os_series = [(''s1'', eg_series)], os_positions = [((''s1'', ''ann''), eg_holder), ((''s1'', ''bob''), eg_holder)],
     os_liquidity = [((''s1'', ''lp''), ''200'')], os_accounts = []\<rparr>"

definition eg_exercised :: option_db where
  "eg_exercised = eg_market\<lparr>os_series := [(''s1'', eg_series\<lparr>sr_collateral := ''170'', sr_locked := ''0'', sr_long_size := ''1''\<rparr>)],
     os_positions := [((''s1'', ''ann''), eg_holder\<lparr>op_size := ''0'', op_payout := ''50''\<rparr>), ((''s1'', ''bob''), eg_holder)],
     os_accounts := [((''ann'', 1, ''native''), \<lparr>ac_symbol = ''USDC'', ac_decimals = 6, ac_available = ''50'', ac_locked = ''0''\<rparr>)]\<rparr>"

definition eg_drained :: option_db where
  "eg_drained = eg_exercised\<lparr>os_series := [(''s1'', eg_series\<lparr>sr_collateral := ''0'', sr_locked := ''0'', sr_long_size := ''1''\<rparr>)],
     os_liquidity := [((''s1'', ''lp''), ''30'')],
     os_accounts := [((''ann'', 1, ''native''), \<lparr>ac_symbol = ''USDC'', ac_decimals = 6, ac_available = ''50'', ac_locked = ''0''\<rparr>),
       ((''lp'', 1, ''native''), \<lparr>ac_symbol = ''USDC'', ac_decimals = 6, ac_available = ''170'', ac_locked = ''0''\<rparr>)]\<rparr>"

definition eg_idle :: option_db where
  "eg_idle = eg_market\<lparr>os_positions := []\<rparr>"

lemma eg_first_exercise: "exercise Some True (\<lambda>_. False) ''ann'' ''s1'' eg_market eg_market = (eg_exercised, Ok_reply 200 50)"
  by code_simp

lemma eg_second_exercise: "snd (exercise Some True (\<lambda>_. False) ''bob'' ''s1'' eg_exercised eg_exercised) = Ok_reply 200 50"
  by code_simp

lemma eg_withdrawal:
  "withdraw_liquidity Some True (\<lambda>_. False) ''lp'' ''s1'' (Some ''170'') eg_exercised eg_exercised = (eg_drained, Ok_reply 200 170)"
  by code_simp

lemma eg_refusal:
  "snd (exercise Some True (\<lambda>_. False) ''bob'' ''s1'' eg_drained eg_drained) = Error_reply 409 ''the pool cannot cover this payout''"
  by code_simp

text \<open>Providers can take what holders are owed. The collateral that an exercise releases is computed
  from the mark price of the moment, not from what the purchase locked: here the first exercise, paid
  50, releases all 200, the provider withdraws the remaining 170, and the second holder's exercise is
  refused although the pool would have covered it.\<close>

theorem exercise_releases_too_much:
  "exercise Some True (\<lambda>_. False) ''ann'' ''s1'' eg_market eg_market = (eg_exercised, Ok_reply 200 50)
    \<and> snd (exercise Some True (\<lambda>_. False) ''bob'' ''s1'' eg_exercised eg_exercised) = Ok_reply 200 50
    \<and> withdraw_liquidity Some True (\<lambda>_. False) ''lp'' ''s1'' (Some ''170'') eg_exercised eg_exercised = (eg_drained, Ok_reply 200 170)
    \<and> snd (exercise Some True (\<lambda>_. False) ''bob'' ''s1'' eg_drained eg_drained) = Error_reply 409 ''the pool cannot cover this payout''"
  by (intro conjI eg_first_exercise eg_second_exercise eg_withdrawal eg_refusal)

lemma eg_option_texts: "''220'' = int_string 220" "''200'' = int_string 200" "''20'' = int_string 20" "''2'' = int_string 2"
    "''1'' = int_string 1" "''10'' = int_string 10"
    "parse_wad ''100'' = Inr 100000000000000000000" "parse_wad ''200'' = Inr 200000000000000000000"
    "parse_wad ''150'' = Inr 150000000000000000000" "parse_wad ''0.8'' = Inr 800000000000000000"
  by code_simp+

lemma eg_series_ok: "series_ok eg_series"
proof -
  have n: "numeric ''220''" "numeric ''200''" "numeric ''20''" "numeric ''2''"
    by (subst eg_option_texts, simp)+
  have a: "series_amount ''220'' = 220" "series_amount ''200'' = 200" by (subst eg_option_texts, simp)+
  show ?thesis
    by (simp add: series_ok_def series_typed_def eg_series_def n a positive_decimal_def eg_option_texts(7-10) max_iv_def
        collateral_of_def locked_of_def allowed_option_status_def option_settled_def option_collateral_symbol_def)
qed

lemma eg_market_ok: "option_ok eg_market" "option_ok eg_idle"
proof -
  have n: "numeric ''200''" "numeric ''1''" "numeric ''10''" by (subst eg_option_texts, simp)+
  show "option_ok eg_market" "option_ok eg_idle"
    by (simp_all add: option_ok_def eg_market_def eg_idle_def eg_series_ok eg_holder_def n)
qed

lemma eg_exercise_step: "option_step [eg_market] (eg_exercised # [eg_market])"
  using option_step.exercise [of eg_market "[eg_market]"] eg_first_exercise by simp

lemma eg_exercise_run: "option_step\<^sup>*\<^sup>* [eg_market] [eg_exercised, eg_market]"
  using eg_exercise_step by blast

lemma eg_exercised_series:
  "map_of (os_series eg_exercised) ''s1'' = Some (eg_series\<lparr>sr_collateral := ''170'', sr_locked := ''0'', sr_long_size := ''1''\<rparr>)"
  by (simp add: eg_exercised_def)

theorem series_columns_witness:
  "series_typed (eg_series\<lparr>sr_collateral := ''170'', sr_locked := ''0'', sr_long_size := ''1''\<rparr>)"
  by (rule series_columns_stay_typed [OF eg_exercise_run eg_market_ok(1) _ map_of_SomeD [OF eg_exercised_series]]) simp

theorem collateral_covers_witness:
  "0 \<le> locked_of (eg_series\<lparr>sr_collateral := ''170'', sr_locked := ''0'', sr_long_size := ''1''\<rparr>)"
  using collateral_covers_locked [OF eg_exercise_run eg_market_ok(1) _ map_of_SomeD [OF eg_exercised_series]] by simp

theorem option_market_conserves_witness:
  "\<exists>V. finite V \<and> (\<forall>U asset. finite U \<longrightarrow> V \<subseteq> U \<longrightarrow>
    holdings_of U asset (os_accounts eg_exercised) + pool_of eg_exercised asset
      = holdings_of U asset (os_accounts eg_market) + pool_of eg_market asset)"
  by (rule option_market_conserves_tokens [OF eg_exercise_run eg_market_ok(1)])

theorem exercise_pays_witness:
  "\<exists>d'. exercise_tx (\<lambda>_. False) ''s1'' ''ann'' eg_market = Inr (d', 50)
    \<and> (\<forall>fault'. \<exists>e. exercise_tx fault' ''s1'' ''ann'' d' = Inl e)"
proof -
  have "map_error (\<lambda>_. ()) (map_error (\<lambda>e. e) (and_then (exercise_tx (\<lambda>_. False) ''s1'' ''ann'' eg_market) (\<lambda>x. Inr (snd x)))) = Inr 50"
    by code_simp
  then obtain d' where h: "exercise_tx (\<lambda>_. False) ''s1'' ''ann'' eg_market = Inr (d', 50)" by auto
  from exercise_pays_intrinsic_value_once [OF eg_market_ok(1) h] h show ?thesis by blast
qed

theorem stranded_premium_witness:
  "\<exists>s'. map_of (os_series eg_idle) ''s1'' = Some s' \<and> 20 \<le> collateral_of s'"
proof -
  have m: "map_of (os_series eg_idle) ''s1'' = Some eg_series" "sr_status eg_series = option_settled" by code_simp+
  have v: "principals ''s1'' eg_idle = 200" "collateral_of eg_series = 220" by code_simp+
  have "no_holder ''s1'' eg_idle" by (simp add: no_holder_def eg_idle_def)
  from unclaimed_premium_is_stranded [OF rtranclp.rtrancl_refl eg_market_ok(2) m this] v show ?thesis by auto
qed

text \<open>A purchase of one smallest unit of the thirty-day call at the money.\<close>

definition eg_open :: option_series where
  "eg_open = eg_series\<lparr>sr_expiry := 2592000000000000, sr_mark_price := ''100'', sr_collateral := ''200'', sr_locked := ''0'',
     sr_premium := ''0'', sr_long_size := ''0'', sr_settlement := None, sr_status := ''active''\<rparr>"

definition eg_open_market :: option_db where
  "eg_open_market = \<lparr>os_series = [(''s1'', eg_open)], os_positions = [], os_liquidity = [((''s1'', ''lp''), ''200'')],
     os_accounts = [((''ann'', 1, ''native''), \<lparr>ac_symbol = ''ETH'', ac_decimals = 18, ac_available = ''50'', ac_locked = ''0''\<rparr>)]\<rparr>"

definition eg_order :: buy_req where
  "eg_order = \<lparr>br_size = ''0.000000000000000001'', br_max_premium = ''10''\<rparr>"

lemma eg_open_texts:
  "parse_wad ''0.000000000000000001'' = Inr 1" "parse_option_amount ''10'' = Some 10"
  by code_simp+

lemma eg_open_ok: "option_ok eg_open_market"
proof -
  have n: "numeric ''200''" by (subst eg_option_texts, simp)
  have a: "series_amount ''200'' = 200" by (subst eg_option_texts, simp)
  show ?thesis
    by (simp add: option_ok_def eg_open_market_def series_ok_def series_typed_def eg_open_def eg_series_def n a positive_decimal_def
        eg_option_texts(7-10) max_iv_def collateral_of_def locked_of_def allowed_option_status_def option_active_def
        option_collateral_symbol_def)
qed

lemma eg_open_premium: "option_premium eg_open 1 0 = Inr 9" "required_collateral eg_open 1 = Inr 100"
proof -
  have a: "series_amount ''200'' = 200" by (subst eg_option_texts, simp)
  have "f64_to_int64 (duration_seconds 2592000000000000) = 2592000"
    using whole_seconds_exact [of 2592000] by (simp add: max_int64_def)
  then have t: "seconds_to_expiry eg_open 0 = 2592000"
    by (simp add: seconds_to_expiry_def eg_open_def eg_series_def time_sub_def min_int64_def max_int64_def)
  have iv: "implied_volatility eg_open = Inr 800000000000000000"
    by (simp add: implied_volatility_def eg_open_def eg_series_def eg_option_texts(10) a max_iv_def quo_def wad_def iv_skew_def)
  show "option_premium eg_open 1 0 = Inr 9" "required_collateral eg_open 1 = Inr 100"
    using example_call
    by (simp_all add: option_premium_def required_collateral_def t iv risk_free_rate_def opt_mul_def quo_def wad_def)
       (simp_all add: eg_open_def eg_series_def eg_option_texts(7) option_settled_def quo_def)
qed

lemma eg_order_fills: "\<exists>d'. buy_tx (\<lambda>_. False) 0 ''s1'' ''ann'' 1 9 100 eg_open_market = Inr d'"
  by (rule exI, code_simp)

theorem buy_charges_witness:
  "\<exists>d' s. buy_option Some (\<lambda>_. []) True (\<lambda>_. False) 0 0 ''ann'' ''s1'' (Some eg_order) eg_open_market eg_open_market
      = (d', Ok_reply 200 (9, format_wad (Some 1)))
    \<and> paid ''ann'' (series_asset s) (- 9) (os_accounts eg_open_market) (os_accounts d')"
proof -
  obtain d' where d': "buy_tx (\<lambda>_. False) 0 ''s1'' ''ann'' 1 9 100 eg_open_market = Inr d'" using eg_order_fills by blast
  have m: "map_of (os_series eg_open_market) ''s1'' = Some eg_open" by (simp add: eg_open_market_def)
  have st: "sr_status eg_open = option_active" "0 < sr_expiry eg_open" by (simp_all add: eg_open_def eg_series_def option_active_def)
  have b: "bind_buy (Some eg_order) = Some eg_order" "positive_wad (br_size eg_order) = Some 1"
    "parse_option_amount (br_max_premium eg_order) = Some 10"
    by (simp_all add: bind_buy_def eg_order_def positive_wad_def eg_open_texts)
  have "buy_option Some (\<lambda>_. []) True (\<lambda>_. False) 0 0 ''ann'' ''s1'' (Some eg_order) eg_open_market eg_open_market
      = (d', Ok_reply 200 (9, format_wad (Some 1)))"
    using st by (simp add: buy_option_def b option_pre_def bad_buy_def with_series_def load_series_def m buy_on_series_def
        eg_open_premium d' Let_def)
  from this buy_charges_quoted_premium [OF eg_open_ok eg_open_ok this] show ?thesis by blast
qed

section \<open>One series breaks the listings\<close>

definition tiny_request :: create_series_req where
  "tiny_request = \<lparr>cs_key = ''tiny'', cs_name = ''tiny'', cs_chain = 1, cs_underlying = ''ETH'', cs_token = [],
     cs_symbol = ''USDC'', cs_decimals = None, cs_strike = ''0.000000000000000001'', cs_base_iv = ''0.1'', cs_expiry = ''t'',
     cs_is_call = Some True, cs_mark_price = ''0.000000000000000001'', cs_status = ''active''\<rparr>"

definition tiny_series :: option_series where
  "tiny_series = new_series tiny_request ''root'' ''native'' 1 100000000000000000 1 86400000000000"

lemma tiny_texts:
  "parse_wad ''0.000000000000000001'' = Inr 1" "parse_wad ''0.1'' = Inr 100000000000000000"
  "trim_space ''tiny'' = ''tiny''" "trim_space ''ETH'' = ''ETH''" "to_upper (trim_space ''USDC'') = ''USDC''"
  "to_lower (trim_space ''active'') = ''active''" "token_key_or_native hex [] = Some ''native''"
  by (code_simp | simp add: token_key_or_native_def native_token_def trim_space_def trim_right_def)+

lemma tiny_checked: "check_series hex (\<lambda>_. Some 86400000000000) 0 tiny_request
    = Inr (''native'', 1, 100000000000000000, 1, 86400000000000)"
  by (simp add: check_series_def Let_def tiny_request_def tiny_texts positive_wad_def valid_iv_def max_iv_def
      option_collateral_symbol_def allowed_option_status_def option_active_def)

lemma tiny_greeks: "greeks 1 1 86400 risk_free_rate 100000000000000000 True = Inl Panic_division"
proof -
  have c: "normal_cdf 28788315742461693 = Inr 511483342671873359" "normal_cdf 23554076516559556 = Inr 509395893885370617"
    "normal_pdf 28788315742461693 = Inr 398776999525593704"
    by code_simp+
  have d: "opt_d1d2 1 1 2739726027397260 50000000000000000 100000000000000000 = Inr (28788315742461693, 23554076516559556, 5234239225902137)"
    by (simp add: opt_d1d2_def eval_simps eval_parts)
  show ?thesis
    by (simp add: greeks_def eval_parts live_greeks_def risk_free_rate_def d c) (simp add: eval_simps)
qed

lemma tiny_view: "build_series_view tiny_series 0 = None"
proof -
  have "f64_to_int64 (duration_seconds 86400000000000) = 86400"
    using whole_seconds_exact [of 86400] by (simp add: max_int64_def)
  then have t: "seconds_to_expiry tiny_series 0 = 86400"
    by (simp add: seconds_to_expiry_def tiny_series_def new_series_def Let_def time_sub_def min_int64_def max_int64_def)
  have iv: "implied_volatility tiny_series = Inr 100000000000000000"
    by (simp add: implied_volatility_def tiny_series_def new_series_def Let_def parse_format_wad)
  have p: "parse_wad (sr_mark_price tiny_series) = Inr 1" "parse_wad (sr_strike tiny_series) = Inr 1" "sr_is_call tiny_series"
    by (simp_all add: tiny_series_def new_series_def Let_def parse_format_wad tiny_request_def)
  show ?thesis by (simp add: build_series_view_def Let_def iv t p tiny_greeks)
qed

lemma views_break: "s \<in> set ss \<Longrightarrow> build_series_view s now = None \<Longrightarrow> build_series_views ss now = None"
  by (induction ss) (auto split: option.splits)

text \<open>One request can break every listing. A series whose price and strike are the smallest
  positive decimals is accepted and stored; then its gamma divides by zero, so the creation itself
  and from then on the listing of all series and of the active ones end in a panic, whatever other
  series there are.\<close>

theorem one_series_breaks_every_listing:
  assumes "\<forall>x \<in> set (os_series d). sr_key (snd x) \<noteq> ''tiny'' \<and> fst x \<noteq> ''t1''"
  shows "\<exists>d'. create_series hex (\<lambda>_. Some 86400000000000) (\<lambda>_. False) 0 ''t1'' ''root'' (Some tiny_request) d d = (d', None)
    \<and> get_series (\<lambda>_. False) 0 d' = None \<and> get_active_series (\<lambda>_. False) 0 d' = None"
proof -
  let ?d = "d\<lparr>os_series := AList.update ''t1'' tiny_series (os_series d)\<rparr>"
  have b: "bind_series (Some tiny_request) = Some tiny_request" by (simp add: bind_series_def tiny_request_def)
  have k: "trim_space (cs_key tiny_request) = ''tiny''" by (simp add: tiny_request_def tiny_texts)
  have "create_series hex (\<lambda>_. Some 86400000000000) (\<lambda>_. False) 0 ''t1'' ''root'' (Some tiny_request) d d = (?d, None)"
    using assms tiny_view
    by (auto simp: create_series_def b tiny_checked k Let_def view_reply_def tiny_series_def [symmetric])
  moreover have m: "tiny_series \<in> set (map snd (os_series ?d))"
    using update_conv [of "''t1''" tiny_series "os_series d"] map_of_SomeD [of "os_series ?d" "''t1''" tiny_series] by force
  then have "get_series (\<lambda>_. False) 0 ?d = None"
    using views_break [OF m tiny_view] by (simp add: get_series_def series_list_reply_def del: set_map)
  moreover have "sr_status tiny_series = option_active" "0 < sr_expiry tiny_series"
    by (simp_all add: tiny_series_def new_series_def Let_def tiny_request_def tiny_texts option_active_def)
  with m have "tiny_series \<in> set (sort_key sr_expiry (filter (\<lambda>s. sr_status s = option_active \<and> 0 < sr_expiry s) (map snd (os_series ?d))))"
    by simp
  then have "get_active_series (\<lambda>_. False) 0 ?d = None"
    using views_break [OF _ tiny_view] unfolding get_active_series_def series_list_reply_def by simp
  ultimately show ?thesis by blast
qed

theorem one_series_breaks_witness:
  "\<exists>d'. create_series (\<lambda>_. None) (\<lambda>_. Some 86400000000000) (\<lambda>_. False) 0 ''t1'' ''root'' (Some tiny_request) eg_market eg_market = (d', None)
    \<and> get_series (\<lambda>_. False) 0 d' = None"
  using one_series_breaks_every_listing [of eg_market "\<lambda>_. None"] by (auto simp: eg_market_def eg_series_def)

end
