(* ===== verification/Farm.thy ===== *)
theory Farm
  imports Airdrop Go_Float
begin

text \<open>
  Liquidity mining (\<open>services/farm_service.go\<close>): farms take a staking token into escrow and pay one or
  more reward streams through a MasterChef accumulator; a boost scales a staker's share. As in the
  airdrops, a handler makes its early reads in a state \<open>d0\<close> and runs its transaction in a later state
  \<open>d\<close>, on rows re-read under lock; the lock of the farm's row serialises the transactions of a farm.
  \<open>fault\<close> says which database calls fail. A stake is keyed by its unique index (farm, user), and a
  reward checkpoint by the stake and the stream; the streams of a farm stand in the order of their
  creation. The boost source is an argument: what it answers for a user and an amount, \<open>None\<close> for an
  error; it is asked anew by each request. No operation sets the soft-delete mark of a farm.
\<close>

section \<open>Tables\<close>

record farm =
  fp_key :: string
  fp_name :: string
  fp_type :: string
  fp_chain :: int64
  fp_token :: string
  fp_symbol :: string
  fp_decimals :: int
  fp_gauge :: "string option"
  fp_total :: string
  fp_start :: time
  fp_end :: time
  fp_status :: string
  fp_created_by :: string

record stream =
  rw_farm :: string
  rw_token :: string
  rw_symbol :: string
  rw_decimals :: int
  rw_rate :: string
  rw_acc :: string
  rw_last :: time
  rw_funded :: string
  rw_distributed :: string

record checkpoint =
  ck_debt :: string
  ck_accrued :: string
  ck_claimed :: string

record farm_db =
  fd_farms :: "(string \<times> farm) list"
  fd_streams :: "(string \<times> stream) list"
  fd_stakes :: "((string \<times> string) \<times> string) list"
  fd_checks :: "(((string \<times> string) \<times> string) \<times> checkpoint) list"
  fd_accounts :: accounts

definition farm_lp :: string where "farm_lp = ''lp''"
definition farm_single :: string where "farm_single = ''single''"
definition farm_stable :: string where "farm_stable = ''stable''"

definition farm_active :: string where "farm_active = ''active''"
definition farm_paused :: string where "farm_paused = ''paused''"
definition farm_closed :: string where "farm_closed = ''closed''"

definition allowed_farm_type :: "string \<Rightarrow> bool" where
  "allowed_farm_type s \<longleftrightarrow> s \<in> {farm_lp, farm_single, farm_stable}"

definition allowed_farm_status :: "string \<Rightarrow> bool" where
  "allowed_farm_status s \<longleftrightarrow> s \<in> {farm_active, farm_paused, farm_closed}"

definition acc_scale :: int where "acc_scale = 1000000000000000000"
definition max_reward_rate :: int where "max_reward_rate = 10 ^ 36"

text \<open>The zero value of \<open>time.Time\<close>, the first of January of year one, in nanoseconds of the Unix epoch.\<close>

definition zero_time :: time where "zero_time = - 62135596800000000000"

datatype farm_call =
  Load_farm | Count_farms | Create_farm | Create_stream nat | Update_farm | Reload_farm | List_farms | List_streams string
| Find_stream | Lock_stream | Write_funded_total | Lock_farm | Read_stake | Create_stake | Write_stake | Write_staked_total
| List_locked_streams | Advance string | Read_check string | Create_check string | Write_check string | List_checks
| Load_stream string | Settle_check string | Pay_check string ledger_call | List_stakes | Load_farm_of string
| List_checks_of string | Commit_farm | Farm_balance ledger_call

datatype farm_error = Farm_gone | Farm_not_open | Farm_short | No_stake | Farm_db_error

fun farm_ledger_error :: "ledger_error \<Rightarrow> farm_error" where
  "farm_ledger_error Insufficient_balance = Farm_short"
| "farm_ledger_error _ = Farm_db_error"

section \<open>Loading a farm\<close>

definition load_farm :: "(farm_call \<Rightarrow> bool) \<Rightarrow> string \<Rightarrow> farm_db \<Rightarrow> load_error + farm" where
  "load_farm fault i d =
     (if fault Load_farm then Inl Campaign_load_failed
      else case map_of (fd_farms d) i of None \<Rightarrow> Inl Campaign_not_found | Some f \<Rightarrow> Inr f)"

fun farm_load_reply :: "load_error \<Rightarrow> 'a reply" where
  "farm_load_reply Campaign_not_found = Error_reply 404 ''farm not found''"
| "farm_load_reply Campaign_load_failed = Error_reply 500 ''failed to load farm''"

definition with_farm ::
  "(string \<Rightarrow> string option) \<Rightarrow> (farm_call \<Rightarrow> bool) \<Rightarrow> string \<Rightarrow> 'a reply option \<Rightarrow>
     (string \<Rightarrow> farm \<Rightarrow> farm_db \<times> 'a reply) \<Rightarrow> farm_db \<Rightarrow> farm_db \<Rightarrow> farm_db \<times> 'a reply" where
  "with_farm parse_uuid fault raw_id pre k d0 d =
     (case parse_uuid raw_id of
        None \<Rightarrow> (d, Error_reply 400 ''invalid farm id'')
      | Some i \<Rightarrow>
          (case pre of
             Some r \<Rightarrow> (d, r)
           | None \<Rightarrow>
               (case load_farm fault i d0 of
                  Inl e \<Rightarrow> (d, farm_load_reply e)
                | Inr f \<Rightarrow> k i f)))"

definition modify_farm :: "string \<Rightarrow> (farm \<Rightarrow> farm) \<Rightarrow> farm_db \<Rightarrow> farm_db" where
  "modify_farm i g d =
     (case map_of (fd_farms d) i of
        None \<Rightarrow> d
      | Some f \<Rightarrow> d\<lparr>fd_farms := AList.update i (g f) (fd_farms d)\<rparr>)"

section \<open>Creating a farm\<close>

record stream_req =
  sq_token :: string
  sq_symbol :: string
  sq_decimals :: int
  sq_rate :: string

record create_farm_req =
  cf_key :: string
  cf_name :: string
  cf_type :: string
  cf_chain :: int64
  cf_token :: string
  cf_symbol :: string
  cf_decimals :: int
  cf_gauge :: string
  cf_start :: string
  cf_end :: string
  cf_rewards :: "stream_req list option"

text \<open>The binding checks the fields of the request, not those of the streams inside the list.\<close>

definition bind_farm :: "create_farm_req option \<Rightarrow> create_farm_req option" where
  "bind_farm body =
     (case body of
        None \<Rightarrow> None
      | Some r \<Rightarrow>
          if cf_key r = [] \<or> cf_name r = [] \<or> cf_chain r = 0 \<or> cf_token r = [] \<or> cf_symbol r = []
             \<or> cf_start r = [] \<or> cf_end r = [] \<or> cf_rewards r = None
          then None else Some r)"

definition time_error :: "string \<Rightarrow> string" where
  "time_error field = field @ '': must be an RFC3339 timestamp''"

fun amount_error_text :: "amount_error \<Rightarrow> string" where
  "amount_error_text Amount_required = ''amount is required''"
| "amount_error_text Amount_not_integer = ''amount must be a base-10 integer''"
| "amount_error_text Amount_negative = ''amount must not be negative''"

text \<open>The streams, one after the other; the result is the rows to create. The text of a bad address leaves out
  the address that the code quotes.\<close>

fun check_streams ::
  "(string \<Rightarrow> string option) \<Rightarrow> string \<Rightarrow> time \<Rightarrow> string list \<Rightarrow> stream_req list \<Rightarrow> string + stream list" where
  "check_streams hex_address i start seen [] = Inr []"
| "check_streams hex_address i start seen (q # qs) =
     (case token_key_or_native hex_address (sq_token q) of
        None \<Rightarrow> Inl ''token address is not a valid address''
      | Some key \<Rightarrow>
          if key \<in> set seen then Inl (''duplicate reward token '' @ key)
          else
            let symbol = to_upper (trim_space (sq_symbol q)) in
            if symbol = [] then Inl ''reward token_symbol is required''
            else if sq_decimals q < 0 \<or> 36 < sq_decimals q then Inl ''reward token_decimals must be between 0 and 36''
            else (case parse_token_amount (sq_rate q) of
              Inl e \<Rightarrow> Inl (''rate_per_second: '' @ amount_error_text e)
            | Inr rate \<Rightarrow>
                if max_reward_rate < rate then Inl ''rate_per_second exceeds the maximum''
                else and_then (check_streams hex_address i start (key # seen) qs)
                  (\<lambda>rs. Inr (\<lparr>rw_farm = i, rw_token = key, rw_symbol = symbol, rw_decimals = sq_decimals q,
                               rw_rate = int_string rate, rw_acc = ''0'', rw_last = start, rw_funded = ''0'',
                               rw_distributed = ''0''\<rparr> # rs))))"

definition check_gauge :: "(string \<Rightarrow> string option) \<Rightarrow> (string \<Rightarrow> bool) \<Rightarrow> string \<Rightarrow> string + string option" where
  "check_gauge parse_uuid gauge_exists text =
     (let raw = trim_space text in
      if raw = [] then Inr None
      else (case parse_uuid raw of
              None \<Rightarrow> Inl ''boost_gauge_id is not a valid id''
            | Some g \<Rightarrow> if gauge_exists g then Inr (Some g) else Inl ''boost_gauge_id does not match an existing gauge''))"

text \<open>The checks of a request in their order: the text of the refusal, or the rows to create.\<close>

definition check_farm ::
  "(string \<Rightarrow> string option) \<Rightarrow> (string \<Rightarrow> string option) \<Rightarrow> (string \<Rightarrow> time option) \<Rightarrow> (string \<Rightarrow> bool) \<Rightarrow>
     string \<Rightarrow> string \<Rightarrow> create_farm_req \<Rightarrow> string + farm \<times> stream list" where
  "check_farm parse_uuid hex_address parse_time gauge_exists new_id user r =
     (let key = to_lower (trim_space (cf_key r)); raw_type = to_lower (trim_space (cf_type r));
          farm_type = (if raw_type = [] then farm_lp else raw_type) in
      if key = [] \<or> 120 < length key then Inl ''key must be 1 to 120 characters''
      else if trim_space (cf_name r) = [] then Inl ''name is required''
      else if \<not> allowed_farm_type farm_type then Inl ''farm_type must be lp, single or stable''
      else if cf_decimals r < 0 \<or> 36 < cf_decimals r then Inl ''staking_token_decimals must be between 0 and 36''
      else (case token_key_or_native hex_address (cf_token r) of
        None \<Rightarrow> Inl ''token address is not a valid address''
      | Some token \<Rightarrow>
        (case parse_time (trim_space (cf_start r)) of
          None \<Rightarrow> Inl (time_error ''start_time'')
        | Some start \<Rightarrow>
          (case parse_time (trim_space (cf_end r)) of
            None \<Rightarrow> Inl (time_error ''end_time'')
          | Some finish \<Rightarrow>
              if finish \<le> start then Inl ''end_time must be after start_time''
              else if the (cf_rewards r) = [] then Inl ''at least one reward stream is required''
              else and_then (check_gauge parse_uuid gauge_exists (cf_gauge r)) (\<lambda>gauge.
                and_then (check_streams hex_address new_id start [] (the (cf_rewards r))) (\<lambda>streams.
                  Inr (\<lparr>fp_key = key, fp_name = trim_space (cf_name r), fp_type = farm_type, fp_chain = cf_chain r,
                        fp_token = token, fp_symbol = to_upper (trim_space (cf_symbol r)), fp_decimals = cf_decimals r,
                        fp_gauge = gauge, fp_total = ''0'', fp_start = start, fp_end = finish, fp_status = farm_paused,
                        fp_created_by = user\<rparr>, streams)))))))"

fun add_streams :: "(farm_call \<Rightarrow> bool) \<Rightarrow> (nat \<Rightarrow> string) \<Rightarrow> nat \<Rightarrow> stream list \<Rightarrow> farm_db \<Rightarrow> farm_db option" where
  "add_streams fault new_ids n [] d = Some d"
| "add_streams fault new_ids n (r # rs) d =
     (if fault (Create_stream n) \<or> map_of (fd_streams d) (new_ids n) \<noteq> None then None
      else add_streams fault new_ids (Suc n) rs (d\<lparr>fd_streams := AList.update (new_ids n) r (fd_streams d)\<rparr>))"

text \<open>The transaction; a failed insert, among them one that breaks the unique index of the keys, undoes it.\<close>

definition create_farm_tx ::
  "(farm_call \<Rightarrow> bool) \<Rightarrow> string \<Rightarrow> (nat \<Rightarrow> string) \<Rightarrow> farm \<Rightarrow> stream list \<Rightarrow> farm_db \<Rightarrow> farm_db option" where
  "create_farm_tx fault new_id new_ids f streams d =
     (if fault Create_farm \<or> fault Commit_farm \<or> (\<exists>(i, g) \<in> set (fd_farms d). i = new_id \<or> fp_key g = fp_key f) then None
      else add_streams fault new_ids 0 streams (d\<lparr>fd_farms := AList.update new_id f (fd_farms d)\<rparr>))"

definition create_farm ::
  "(string \<Rightarrow> string option) \<Rightarrow> (string \<Rightarrow> string option) \<Rightarrow> (string \<Rightarrow> time option) \<Rightarrow> (string \<Rightarrow> bool) \<Rightarrow>
     (farm_call \<Rightarrow> bool) \<Rightarrow> string \<Rightarrow> (nat \<Rightarrow> string) \<Rightarrow> string \<Rightarrow> create_farm_req option \<Rightarrow>
     farm_db \<Rightarrow> farm_db \<Rightarrow> farm_db \<times> farm reply" where
  "create_farm parse_uuid hex_address parse_time gauge_exists fault new_id new_ids user body d0 d =
     (case bind_farm body of
        None \<Rightarrow> (d, Bad_binding)
      | Some r \<Rightarrow>
          (case check_farm parse_uuid hex_address parse_time gauge_exists new_id user r of
             Inl text \<Rightarrow> (d, Error_reply 400 text)
           | Inr (f, streams) \<Rightarrow>
               if \<not> fault Count_farms \<and> (\<exists>(i, g) \<in> set (fd_farms d0). fp_key g = fp_key f)
                 then (d, Error_reply 409 ''a farm with this key already exists'')
               else (case create_farm_tx fault new_id new_ids f streams d of
                 None \<Rightarrow> (d, Error_reply 500 ''failed to create farm'')
               | Some d' \<Rightarrow> (d', Ok_reply 201 f))))"

section \<open>Editing and closing\<close>

record update_farm_req =
  uf_name :: "string option"
  uf_type :: "string option"
  uf_start :: "string option"
  uf_end :: "string option"
  uf_status :: "string option"
  uf_gauge :: "string option"

text \<open>A field that was given but does not parse, and the time that the farm will have.\<close>

definition bad_time :: "(string \<Rightarrow> time option) \<Rightarrow> string option \<Rightarrow> bool" where
  "bad_time parse_time field = (case field of None \<Rightarrow> False | Some t \<Rightarrow> parse_time (trim_space t) = None)"

definition new_time :: "(string \<Rightarrow> time option) \<Rightarrow> string option \<Rightarrow> time \<Rightarrow> time" where
  "new_time parse_time field old = (case field of None \<Rightarrow> old | Some t \<Rightarrow> the (parse_time (trim_space t)))"

text \<open>The checks are made against the farm as loaded; the columns that were given are written.\<close>

definition check_farm_update ::
  "(string \<Rightarrow> string option) \<Rightarrow> (string \<Rightarrow> time option) \<Rightarrow> (string \<Rightarrow> bool) \<Rightarrow> update_farm_req \<Rightarrow> farm \<Rightarrow>
     string + (farm \<Rightarrow> farm)" where
  "check_farm_update parse_uuid parse_time gauge_exists r f =
     (let name = map_option trim_space (uf_name r);
          farm_type = map_option (\<lambda>t. to_lower (trim_space t)) (uf_type r);
          status = map_option (\<lambda>t. to_lower (trim_space t)) (uf_status r) in
      if name = Some [] then Inl ''name must not be empty''
      else if (case farm_type of None \<Rightarrow> False | Some t \<Rightarrow> \<not> allowed_farm_type t)
        then Inl ''farm_type must be lp, single or stable''
      else if bad_time parse_time (uf_start r) then Inl (time_error ''start_time'')
      else if bad_time parse_time (uf_end r) then Inl (time_error ''end_time'')
      else if new_time parse_time (uf_end r) (fp_end f) \<le> new_time parse_time (uf_start r) (fp_start f)
        then Inl ''end_time must be after start_time''
      else if (case status of None \<Rightarrow> False | Some t \<Rightarrow> \<not> allowed_farm_status t)
        then Inl ''status must be active, paused or closed''
      else and_then (case uf_gauge r of None \<Rightarrow> Inr None | Some g \<Rightarrow> and_then (check_gauge parse_uuid gauge_exists g) (\<lambda>x. Inr (Some x)))
        (\<lambda>gauge.
          if name = None \<and> farm_type = None \<and> uf_start r = None \<and> uf_end r = None \<and> status = None \<and> gauge = None
            then Inl ''no updatable fields were provided''
          else Inr (\<lambda>row. row\<lparr>
            fp_name := (case name of None \<Rightarrow> fp_name row | Some n \<Rightarrow> n),
            fp_type := (case farm_type of None \<Rightarrow> fp_type row | Some t \<Rightarrow> t),
            fp_start := new_time parse_time (uf_start r) (fp_start row),
            fp_end := new_time parse_time (uf_end r) (fp_end row),
            fp_status := (case status of None \<Rightarrow> fp_status row | Some t \<Rightarrow> t),
            fp_gauge := (case gauge of None \<Rightarrow> fp_gauge row | Some g \<Rightarrow> g)\<rparr>)))"

definition update_farm ::
  "(string \<Rightarrow> string option) \<Rightarrow> (string \<Rightarrow> time option) \<Rightarrow> (string \<Rightarrow> bool) \<Rightarrow> (farm_call \<Rightarrow> bool) \<Rightarrow> string \<Rightarrow>
     update_farm_req option \<Rightarrow> farm_db \<Rightarrow> farm_db \<Rightarrow> farm_db \<times> farm reply" where
  "update_farm parse_uuid parse_time gauge_exists fault raw_id body d0 d =
     with_farm parse_uuid fault raw_id (if body = None then Some Bad_binding else None) (\<lambda>i f.
       (case check_farm_update parse_uuid parse_time gauge_exists (the body) f of
          Inl text \<Rightarrow> (d, Error_reply 400 text)
        | Inr edit \<Rightarrow>
            if fault Update_farm then (d, Error_reply 500 ''failed to update farm'')
            else
              let d' = modify_farm i edit d
              in (d', if fault Reload_farm then Error_reply 500 ''failed to reload farm''
                      else (case map_of (fd_farms d') i of
                              None \<Rightarrow> Error_reply 500 ''failed to reload farm''
                            | Some row \<Rightarrow> Ok_reply 200 row)))) d0 d"

definition delete_farm ::
  "(string \<Rightarrow> string option) \<Rightarrow> (farm_call \<Rightarrow> bool) \<Rightarrow> string \<Rightarrow> farm_db \<Rightarrow> farm_db \<Rightarrow> farm_db \<times> string reply" where
  "delete_farm parse_uuid fault raw_id d0 d =
     with_farm parse_uuid fault raw_id None (\<lambda>i f.
       if 0 < stored_amount (fp_total f)
         then (d, Error_reply 409 ''farm still has stake; it can only be closed, not deleted'')
       else if fault Update_farm then (d, Error_reply 500 ''failed to close farm'')
       else (modify_farm i (\<lambda>row. row\<lparr>fp_status := farm_closed\<rparr>) d, Ok_reply 200 farm_closed)) d0 d"

section \<open>Views\<close>

definition scale_amount :: "int \<Rightarrow> int \<Rightarrow> rat" where
  "scale_amount amount decimals = (if decimals \<le> 0 then of_int amount else of_int amount / of_int (10 ^ nat decimals))"

text \<open>What the reward streams pay in a year, in dollars; \<open>None\<close> when a price is missing.\<close>

fun reward_usd :: "(string \<Rightarrow> f64 option) \<Rightarrow> f64 \<Rightarrow> stream list \<Rightarrow> f64 option" where
  "reward_usd price usd [] = Some usd"
| "reward_usd price usd (r # rs) =
     (if stored_amount (rw_rate r) \<le> 0 then reward_usd price usd rs
      else (case price (to_upper (rw_symbol r)) of
        None \<Rightarrow> None
      | Some p \<Rightarrow>
          if f64_le p (f64_of_int 0) then None
          else reward_usd price
            (f64_add usd (f64_mul (f64_mul (f64_of_rat (scale_amount (stored_amount (rw_rate r)) (rw_decimals r)))
                                           (f64_of_int (365 * 24 * 60 * 60))) p)) rs))"

definition farm_apr :: "(string \<Rightarrow> f64 option) option \<Rightarrow> farm \<Rightarrow> stream list \<Rightarrow> f64 option" where
  "farm_apr prices f rs =
     (case prices of
        None \<Rightarrow> None
      | Some price \<Rightarrow>
          let staked = stored_amount (fp_total f) in
          if staked \<le> 0 then None
          else (case price (to_upper (fp_symbol f)) of
            None \<Rightarrow> None
          | Some p \<Rightarrow>
              if f64_le p (f64_of_int 0) then None
              else
                let staked_usd = f64_mul (f64_of_rat (scale_amount staked (fp_decimals f))) p in
                if f64_le staked_usd (f64_of_int 0) then None
                else (case reward_usd price (f64_of_int 0) rs of
                  None \<Rightarrow> None
                | Some usd \<Rightarrow>
                    let apr = f64_div usd staked_usd
                    in Some (if f64_lt apr (f64_of_int 0) then f64_of_int 0 else apr))))"

definition streams_of :: "string \<Rightarrow> farm_db \<Rightarrow> (string \<times> stream) list" where
  "streams_of i d = filter (\<lambda>x. rw_farm (snd x) = i) (fd_streams d)"

record farm_view =
  fv_farm :: farm
  fv_rewards :: "stream list"
  fv_apr :: "f64 option"

definition build_farm_view :: "(string \<Rightarrow> f64 option) option \<Rightarrow> (farm_call \<Rightarrow> bool) \<Rightarrow> farm_db \<Rightarrow> string \<times> farm \<Rightarrow> farm_view" where
  "build_farm_view prices fault d x =
     (case x of (i, f) \<Rightarrow>
        let rs = (if fault (List_streams i) then [] else map snd (streams_of i d))
        in \<lparr>fv_farm = f, fv_rewards = rs, fv_apr = farm_apr prices f rs\<rparr>)"

text \<open>The latest farm first.\<close>

definition get_farms :: "(string \<Rightarrow> f64 option) option \<Rightarrow> (farm_call \<Rightarrow> bool) \<Rightarrow> farm_db \<Rightarrow> farm_view list reply" where
  "get_farms prices fault d =
     (if fault List_farms then Error_reply 500 ''failed to list farms''
      else Ok_reply 200 (map (build_farm_view prices fault d) (rev (fd_farms d))))"

definition get_active_farms ::
  "(string \<Rightarrow> f64 option) option \<Rightarrow> (farm_call \<Rightarrow> bool) \<Rightarrow> time \<Rightarrow> farm_db \<Rightarrow> farm_view list reply" where
  "get_active_farms prices fault now d =
     (if fault List_farms then Error_reply 500 ''failed to list farms''
      else Ok_reply 200 (map (build_farm_view prices fault d)
        (filter (\<lambda>x. fp_status (snd x) = farm_active \<and> fp_start (snd x) \<le> now \<and> now < fp_end (snd x)) (rev (fd_farms d)))))"

definition get_farm ::
  "(string \<Rightarrow> string option) \<Rightarrow> (string \<Rightarrow> f64 option) option \<Rightarrow> (farm_call \<Rightarrow> bool) \<Rightarrow> string \<Rightarrow> farm_db \<Rightarrow> farm_view reply" where
  "get_farm parse_uuid prices fault raw_id d =
     snd (with_farm parse_uuid fault raw_id None
       (\<lambda>i f. (d, Ok_reply 200 (build_farm_view prices fault d (i, f)))) d d)"

section \<open>Funding a stream\<close>

definition farm_pre :: "string \<Rightarrow> bool \<Rightarrow> 'a reply option \<Rightarrow> 'a reply option" where
  "farm_pre user ledger_on bad =
     (if user = [] then Some (Error_reply 401 ''Authenticated session required'')
      else if \<not> ledger_on then Some (Error_reply 503 ''ledger is not configured'')
      else bad)"

definition fund_stream_tx ::
  "(farm_call \<Rightarrow> bool) \<Rightarrow> string \<Rightarrow> int64 \<Rightarrow> string \<Rightarrow> string \<Rightarrow> int \<Rightarrow> farm_db \<Rightarrow> farm_error + farm_db" where
  "fund_stream_tx fault user chain token rid amount d =
     (if fault Lock_stream then Inl Farm_db_error
      else (case map_of (fd_streams d) rid of
        None \<Rightarrow> Inl Farm_db_error
      | Some r \<Rightarrow>
          and_then (map_error farm_ledger_error
              (debit_within (\<lambda>c. fault (Farm_balance c)) user chain token (Some amount) (fd_accounts d))) (\<lambda>t.
            if fault Write_funded_total \<or> fault Commit_farm then Inl Farm_db_error
            else Inr (d\<lparr>fd_accounts := t,
              fd_streams := AList.update rid (r\<lparr>rw_funded := int_string (stored_amount (rw_funded r) + amount)\<rparr>) (fd_streams d)\<rparr>))))"

text \<open>The body of the request, when it binds, is a token address and an amount.\<close>

definition fund_farm_reward ::
  "(string \<Rightarrow> string option) \<Rightarrow> (string \<Rightarrow> string option) \<Rightarrow> bool \<Rightarrow> (farm_call \<Rightarrow> bool) \<Rightarrow> string \<Rightarrow> string \<Rightarrow>
     (string \<times> string) option \<Rightarrow> farm_db \<Rightarrow> farm_db \<Rightarrow> farm_db \<times> (string \<times> int) reply" where
  "fund_farm_reward parse_uuid hex_address ledger_on fault user raw_id body d0 d =
     (let pre = (case body of None \<Rightarrow> Some Bad_binding
                 | Some (t, a) \<Rightarrow> if t = [] \<or> a = [] then Some Bad_binding else farm_pre user ledger_on None) in
      with_farm parse_uuid fault raw_id pre (\<lambda>i f.
        (case token_key_or_native hex_address (fst (the body)) of
           None \<Rightarrow> (d, Error_reply 400 ''token address is not a valid address'')
         | Some token \<Rightarrow>
             (case positive_token_amount (snd (the body)) of
                None \<Rightarrow> (d, Error_reply 400 ''amount must be a positive integer'')
              | Some amount \<Rightarrow>
                  (case (if fault Find_stream then None else find (\<lambda>x. rw_token (snd x) = token) (streams_of i d0)) of
                     None \<Rightarrow> (d, Error_reply 404 ''this farm has no reward stream for that token'')
                   | Some (rid, r) \<Rightarrow>
                       (case fund_stream_tx fault user (fp_chain f) token rid amount d of
                          Inr d' \<Rightarrow> (d', Ok_reply 200 (token, amount))
                        | Inl Farm_short \<Rightarrow> (d, Error_reply 409 ''insufficient balance to fund this reward stream'')
                        | Inl _ \<Rightarrow> (d, Error_reply 500 ''failed to record the funding'')))))) d0 d)"

section \<open>The accumulator\<close>

definition boost_bps_for :: "(string \<Rightarrow> int \<Rightarrow> int option) option \<Rightarrow> string \<Rightarrow> int \<Rightarrow> int" where
  "boost_bps_for boost user amount =
     (case boost of
        None \<Rightarrow> 10000
      | Some source \<Rightarrow>
          (case source user amount of
             None \<Rightarrow> 10000
           | Some bps \<Rightarrow> if bps \<le> 0 then 10000 else if bps < 10000 then 10000 else bps))"

definition effective_amount :: "int \<Rightarrow> int \<Rightarrow> int" where
  "effective_amount amount bps = ediv (amount * bps) 10000"

definition pending_for :: "int \<Rightarrow> int \<Rightarrow> int \<Rightarrow> int" where
  "pending_for effective acc debt =
     (let pending = ediv (effective * acc) acc_scale - debt in if pending < 0 then 0 else pending)"

definition reward_step :: "stream \<Rightarrow> int \<Rightarrow> time \<Rightarrow> time \<Rightarrow> int \<times> int \<times> int64" where
  "reward_step r staked now finish =
     (let acc = stored_amount (rw_acc r); distributed = stored_amount (rw_distributed r);
          now = (if finish < now then finish else now) in
      if rw_last r = zero_time then (acc, distributed, 0)
      else
        let elapsed = f64_to_int64 (duration_seconds (time_sub now (rw_last r))) in
        if elapsed \<le> 0 \<or> staked \<le> 0 then (acc, distributed, 0)
        else
          let rate = stored_amount (rw_rate r) in
          if rate \<le> 0 then (acc, distributed, 0)
          else
            let budget = stored_amount (rw_funded r) - distributed in
            if budget \<le> 0 then (acc, distributed, 0)
            else
              let full = rate * elapsed; emission = (if budget < full then budget else full)
              in (acc + ediv (emission * acc_scale) staked, distributed + emission, elapsed))"

text \<open>The row that \<open>advanceReward\<close> leaves in the table and in memory.\<close>

definition advanced :: "stream \<Rightarrow> int \<Rightarrow> time \<Rightarrow> time \<Rightarrow> stream" where
  "advanced r staked now finish =
     (let now = (if finish < now then finish else now);
          mark = (if now < rw_last r then rw_last r else now) in
      if rw_last r = zero_time \<or> mark = rw_last r then r\<lparr>rw_last := mark\<rparr>
      else (case reward_step r staked mark finish of
        (acc, distributed, _) \<Rightarrow>
          r\<lparr>rw_acc := int_string acc, rw_distributed := int_string distributed, rw_last := mark\<rparr>))"

definition advance_reward ::
  "(farm_call \<Rightarrow> bool) \<Rightarrow> string \<Rightarrow> stream \<Rightarrow> int \<Rightarrow> time \<Rightarrow> time \<Rightarrow> farm_db \<Rightarrow> farm_error + stream \<times> farm_db" where
  "advance_reward fault rid r staked now finish d =
     (if fault (Advance rid) then Inl Farm_db_error
      else
        let r' = advanced r staked now finish
        in Inr (r', d\<lparr>fd_streams := AList.update rid r' (fd_streams d)\<rparr>))"

text \<open>
  One stream of \<open>accrueStake\<close> after it was advanced: a checkpoint that is new takes the debt of the
  new share; one that exists accrues what is pending and takes the debt of the new share.
\<close>

definition settle_check ::
  "(farm_call \<Rightarrow> bool) \<Rightarrow> string \<Rightarrow> string \<Rightarrow> string \<Rightarrow> stream \<Rightarrow> int \<Rightarrow> int \<Rightarrow> farm_db \<Rightarrow> farm_error + farm_db" where
  "settle_check fault i user rid r old_effective new_effective d =
     (let key = ((i, user), rid); acc = stored_amount (rw_acc r);
          next_debt = ediv (new_effective * acc) acc_scale in
      if fault (Read_check rid) then Inl Farm_db_error
      else (case map_of (fd_checks d) key of
        None \<Rightarrow>
          if fault (Create_check rid) \<or> fault (Write_check rid) then Inl Farm_db_error
          else Inr (d\<lparr>fd_checks := AList.update key
                 \<lparr>ck_debt = int_string next_debt, ck_accrued = ''0'', ck_claimed = ''0''\<rparr> (fd_checks d)\<rparr>)
      | Some c \<Rightarrow>
          let pending = pending_for old_effective acc (stored_amount (ck_debt c)) in
          if fault (Write_check rid) then Inl Farm_db_error
          else Inr (d\<lparr>fd_checks := AList.update key
                 (c\<lparr>ck_accrued := int_string (stored_amount (ck_accrued c) + pending), ck_debt := int_string next_debt\<rparr>)
                 (fd_checks d)\<rparr>)))"

fun accrue_streams ::
  "(farm_call \<Rightarrow> bool) \<Rightarrow> string \<Rightarrow> farm \<Rightarrow> string \<Rightarrow> int \<Rightarrow> int \<Rightarrow> time \<Rightarrow> (string \<times> stream) list \<Rightarrow>
     farm_db \<Rightarrow> farm_error + farm_db" where
  "accrue_streams fault i f user old_effective new_effective now [] d = Inr d"
| "accrue_streams fault i f user old_effective new_effective now ((rid, r) # rs) d =
     and_then (advance_reward fault rid r (stored_amount (fp_total f)) now (fp_end f) d) (\<lambda>(r', d1).
     and_then (settle_check fault i user rid r' old_effective new_effective d1) (\<lambda>d2.
       accrue_streams fault i f user old_effective new_effective now rs d2))"

definition accrue_stake ::
  "(farm_call \<Rightarrow> bool) \<Rightarrow> string \<Rightarrow> farm \<Rightarrow> string \<Rightarrow> int \<Rightarrow> int \<Rightarrow> time \<Rightarrow> farm_db \<Rightarrow> farm_error + farm_db" where
  "accrue_stake fault i f user old_effective new_effective now d =
     (if fault List_locked_streams then Inl Farm_db_error
      else accrue_streams fault i f user old_effective new_effective now (streams_of i d) d)"

section \<open>Stakes\<close>

definition load_or_create_stake :: "(farm_call \<Rightarrow> bool) \<Rightarrow> string \<Rightarrow> string \<Rightarrow> farm_db \<Rightarrow> farm_error + int \<times> farm_db" where
  "load_or_create_stake fault i user d =
     (if fault Read_stake then Inl Farm_db_error
      else (case map_of (fd_stakes d) (i, user) of
        Some text \<Rightarrow> Inr (stored_amount text, d)
      | None \<Rightarrow>
          if fault Create_stake then Inl Farm_db_error
          else Inr (0, d\<lparr>fd_stakes := AList.update (i, user) ''0'' (fd_stakes d)\<rparr>)))"

text \<open>The settlement and the writes that \<open>Stake\<close> and \<open>Unstake\<close> share: a stake goes from \<open>old\<close> to \<open>new\<close>.\<close>

definition change_stake ::
  "(string \<Rightarrow> int \<Rightarrow> int option) option \<Rightarrow> (farm_call \<Rightarrow> bool) \<Rightarrow> time \<Rightarrow> string \<Rightarrow> farm \<Rightarrow> string \<Rightarrow>
     int \<Rightarrow> int \<Rightarrow> int \<Rightarrow> farm_db \<Rightarrow> farm_error + farm_db" where
  "change_stake boost fault now i f user old new staked d =
     and_then (accrue_stake fault i f user
                 (effective_amount old (boost_bps_for boost user old))
                 (effective_amount new (boost_bps_for boost user new)) now d) (\<lambda>d1.
       if fault Write_stake \<or> fault Write_staked_total then Inl Farm_db_error
       else Inr (d1\<lparr>fd_stakes := AList.update (i, user) (int_string new) (fd_stakes d1),
                    fd_farms := AList.update i (f\<lparr>fp_total := int_string staked\<rparr>) (fd_farms d1)\<rparr>))"

definition farm_open :: "time \<Rightarrow> farm \<Rightarrow> bool" where
  "farm_open now f \<longleftrightarrow> fp_status f = farm_active \<and> fp_start f \<le> now \<and> now < fp_end f"

definition stake_tx ::
  "(string \<Rightarrow> int \<Rightarrow> int option) option \<Rightarrow> (farm_call \<Rightarrow> bool) \<Rightarrow> time \<Rightarrow> string \<Rightarrow> string \<Rightarrow> int \<Rightarrow> farm_db \<Rightarrow> farm_error + farm_db" where
  "stake_tx boost fault now i user amount d =
     (if fault Lock_farm then Inl Farm_db_error
      else (case map_of (fd_farms d) i of
        None \<Rightarrow> Inl Farm_gone
      | Some f \<Rightarrow>
          if \<not> farm_open now f then Inl Farm_not_open
          else
            and_then (map_error farm_ledger_error
                (debit_within (\<lambda>c. fault (Farm_balance c)) user (fp_chain f) (fp_token f) (Some amount) (fd_accounts d))) (\<lambda>t.
            and_then (load_or_create_stake fault i user (d\<lparr>fd_accounts := t\<rparr>)) (\<lambda>(old, d1).
            and_then (change_stake boost fault now i f user old (old + amount) (stored_amount (fp_total f) + amount) d1) (\<lambda>d2.
              if fault Commit_farm then Inl Farm_db_error else Inr d2)))))"

text \<open>The early checks of \<open>Stake\<close>, on the farm as first loaded.\<close>

definition stake_refusal :: "time \<Rightarrow> farm \<Rightarrow> string option" where
  "stake_refusal now f =
     (if fp_status f \<noteq> farm_active then Some ''farm is not active''
      else if now < fp_start f then Some ''farm has not started''
      else if fp_end f \<le> now then Some ''farm has ended''
      else None)"

fun stake_reply :: "farm_error \<Rightarrow> 'a reply" where
  "stake_reply Farm_short = Error_reply 409 ''insufficient staking token balance''"
| "stake_reply Farm_not_open = Error_reply 409 ''farm is not open for staking''"
| "stake_reply _ = Error_reply 500 ''failed to record the stake''"

definition amount_pre :: "string \<Rightarrow> bool \<Rightarrow> string option \<Rightarrow> 'a reply option" where
  "amount_pre user ledger_on body =
     (if body = None \<or> body = Some [] then Some Bad_binding
      else farm_pre user ledger_on
        (if positive_token_amount (the body) = None then Some (Error_reply 400 ''amount must be a positive integer'') else None))"

definition stake ::
  "(string \<Rightarrow> string option) \<Rightarrow> (string \<Rightarrow> int \<Rightarrow> int option) option \<Rightarrow> bool \<Rightarrow> (farm_call \<Rightarrow> bool) \<Rightarrow> time \<Rightarrow> string \<Rightarrow>
     string \<Rightarrow> string option \<Rightarrow> farm_db \<Rightarrow> farm_db \<Rightarrow> farm_db \<times> int reply" where
  "stake parse_uuid boost ledger_on fault now user raw_id body d0 d =
     with_farm parse_uuid fault raw_id (amount_pre user ledger_on body) (\<lambda>i f.
       let amount = the (positive_token_amount (the body)) in
       (case stake_refusal now f of
          Some text \<Rightarrow> (d, Error_reply 409 text)
        | None \<Rightarrow>
            (case stake_tx boost fault now i user amount d of
               Inl e \<Rightarrow> (d, stake_reply e)
             | Inr d' \<Rightarrow> (d', Ok_reply 200 amount)))) d0 d"

definition unstake_tx ::
  "(string \<Rightarrow> int \<Rightarrow> int option) option \<Rightarrow> (farm_call \<Rightarrow> bool) \<Rightarrow> time \<Rightarrow> string \<Rightarrow> string \<Rightarrow> int \<Rightarrow> farm_db \<Rightarrow> farm_error + farm_db" where
  "unstake_tx boost fault now i user amount d =
     (if fault Lock_farm then Inl Farm_db_error
      else (case map_of (fd_farms d) i of
        None \<Rightarrow> Inl Farm_gone
      | Some f \<Rightarrow>
          if fault Read_stake then Inl Farm_db_error
          else (case map_of (fd_stakes d) (i, user) of
            None \<Rightarrow> Inl No_stake
          | Some text \<Rightarrow>
              let current = stored_amount text; rest = stored_amount (fp_total f) - amount in
              if current < amount then Inl Farm_short
              else
                and_then (change_stake boost fault now i f user current (current - amount) (if rest < 0 then 0 else rest) d) (\<lambda>d1.
                and_then (map_error (\<lambda>_. Farm_db_error)
                    (credit_within (\<lambda>c. fault (Farm_balance c)) user (fp_chain f) (fp_token f) (fp_symbol f) (fp_decimals f)
                      (Some amount) (fd_accounts d1))) (\<lambda>t.
                  if fault Commit_farm then Inl Farm_db_error else Inr (d1\<lparr>fd_accounts := t\<rparr>))))))"

fun unstake_reply :: "farm_error \<Rightarrow> 'a reply" where
  "unstake_reply Farm_short = Error_reply 409 ''unstake amount exceeds the staked balance''"
| "unstake_reply Farm_gone = Error_reply 404 ''no stake found in this farm''"
| "unstake_reply No_stake = Error_reply 404 ''no stake found in this farm''"
| "unstake_reply _ = Error_reply 500 ''failed to unstake''"

definition unstake ::
  "(string \<Rightarrow> string option) \<Rightarrow> (string \<Rightarrow> int \<Rightarrow> int option) option \<Rightarrow> bool \<Rightarrow> (farm_call \<Rightarrow> bool) \<Rightarrow> time \<Rightarrow> string \<Rightarrow>
     string \<Rightarrow> string option \<Rightarrow> farm_db \<Rightarrow> farm_db \<Rightarrow> farm_db \<times> int reply" where
  "unstake parse_uuid boost ledger_on fault now user raw_id body d0 d =
     with_farm parse_uuid fault raw_id (amount_pre user ledger_on body) (\<lambda>i f.
       let amount = the (positive_token_amount (the body)) in
       (case unstake_tx boost fault now i user amount d of
          Inl e \<Rightarrow> (d, unstake_reply e)
        | Inr d' \<Rightarrow> (d', Ok_reply 200 amount))) d0 d"

section \<open>Claims\<close>

type_synonym payout = "string \<times> string \<times> int"

text \<open>
  The rows of a stake, one after the other, restricted to one token unless the filter is empty. The
  row is settled, then its amount is credited; the payouts are collected.
\<close>

definition pay_check ::
  "(farm_call \<Rightarrow> bool) \<Rightarrow> string \<Rightarrow> farm \<Rightarrow> string \<Rightarrow> string \<Rightarrow> string \<Rightarrow> checkpoint \<Rightarrow> farm_db \<Rightarrow>
     farm_error + payout list \<times> farm_db" where
  "pay_check fault i f user token_filter rid c d =
     (if fault (Load_stream rid) then Inl Farm_db_error
      else (case map_of (fd_streams d) rid of
        None \<Rightarrow> Inl Farm_gone
      | Some r \<Rightarrow>
          let accrued = stored_amount (ck_accrued c) in
          if token_filter \<noteq> [] \<and> rw_token r \<noteq> token_filter then Inr ([], d)
          else if accrued \<le> 0 then Inr ([], d)
          else if fault (Settle_check rid) then Inl Farm_db_error
          else
            and_then (map_error (\<lambda>_. Farm_db_error)
                (credit_within (\<lambda>b. fault (Pay_check rid b)) user (fp_chain f) (rw_token r) (rw_symbol r) (rw_decimals r)
                  (Some accrued) (fd_accounts d))) (\<lambda>t.
              Inr ([(rw_token r, rw_symbol r, accrued)],
                d\<lparr>fd_accounts := t,
                  fd_checks := AList.update ((i, user), rid)
                    (c\<lparr>ck_accrued := ''0'', ck_claimed := int_string (stored_amount (ck_claimed c) + accrued)\<rparr>) (fd_checks d)\<rparr>))))"

fun pay_checks ::
  "(farm_call \<Rightarrow> bool) \<Rightarrow> string \<Rightarrow> farm \<Rightarrow> string \<Rightarrow> string \<Rightarrow> (string \<times> checkpoint) list \<Rightarrow> farm_db \<Rightarrow>
     farm_error + payout list \<times> farm_db" where
  "pay_checks fault i f user token_filter [] d = Inr ([], d)"
| "pay_checks fault i f user token_filter ((rid, c) # rows) d =
     and_then (pay_check fault i f user token_filter rid c d) (\<lambda>(ps, d1).
     and_then (pay_checks fault i f user token_filter rows d1) (\<lambda>(qs, d2). Inr (ps @ qs, d2)))"

definition checks_of :: "string \<times> string \<Rightarrow> farm_db \<Rightarrow> (string \<times> checkpoint) list" where
  "checks_of k d = map (\<lambda>x. (snd (fst x), snd x)) (filter (\<lambda>x. fst (fst x) = k) (fd_checks d))"

definition claim_rewards_tx ::
  "(string \<Rightarrow> int \<Rightarrow> int option) option \<Rightarrow> (farm_call \<Rightarrow> bool) \<Rightarrow> time \<Rightarrow> string \<Rightarrow> string \<Rightarrow> string \<Rightarrow> farm_db \<Rightarrow>
     farm_error + payout list \<times> farm_db" where
  "claim_rewards_tx boost fault now i user token_filter d =
     (if fault Lock_farm then Inl Farm_db_error
      else (case map_of (fd_farms d) i of
        None \<Rightarrow> Inl Farm_gone
      | Some f \<Rightarrow>
          if fault Read_stake then Inl Farm_db_error
          else (case map_of (fd_stakes d) (i, user) of
            None \<Rightarrow> Inl No_stake
          | Some text \<Rightarrow>
              let amount = stored_amount text; effective = effective_amount amount (boost_bps_for boost user amount) in
              and_then (accrue_stake fault i f user effective effective now d) (\<lambda>d1.
                if fault List_checks then Inl Farm_db_error
                else and_then (pay_checks fault i f user token_filter (checks_of (i, user) d1) d1) (\<lambda>x.
                  if fault Commit_farm then Inl Farm_db_error else Inr x)))))"

fun claim_rewards_reply :: "farm_error \<Rightarrow> 'a reply" where
  "claim_rewards_reply Farm_gone = Error_reply 404 ''no stake found in this farm''"
| "claim_rewards_reply No_stake = Error_reply 404 ''no stake found in this farm''"
| "claim_rewards_reply _ = Error_reply 500 ''failed to settle rewards''"

text \<open>The body is the token address; one that does not bind counts as empty.\<close>

definition claim_rewards ::
  "(string \<Rightarrow> string option) \<Rightarrow> (string \<Rightarrow> string option) \<Rightarrow> (string \<Rightarrow> int \<Rightarrow> int option) option \<Rightarrow> bool \<Rightarrow>
     (farm_call \<Rightarrow> bool) \<Rightarrow> time \<Rightarrow> string \<Rightarrow> string \<Rightarrow> string option \<Rightarrow> farm_db \<Rightarrow> farm_db \<Rightarrow> farm_db \<times> payout list reply" where
  "claim_rewards parse_uuid hex_address boost ledger_on fault now user raw_id body d0 d =
     with_farm parse_uuid fault raw_id (farm_pre user ledger_on None) (\<lambda>i f.
       let raw = trim_space (case body of None \<Rightarrow> [] | Some t \<Rightarrow> t) in
       (case (if raw = [] then Some [] else token_key_or_native hex_address raw) of
          None \<Rightarrow> (d, Error_reply 400 ''token address is not a valid address'')
        | Some token_filter \<Rightarrow>
            (case claim_rewards_tx boost fault now i user token_filter d of
               Inl e \<Rightarrow> (d, claim_rewards_reply e)
             | Inr (payouts, d') \<Rightarrow> (d', Ok_reply 200 payouts)))) d0 d"

section \<open>The positions of a user\<close>

record stake_view =
  sv_farm_id :: string
  sv_farm :: farm
  sv_staked :: int
  sv_pending :: "(string \<times> string \<times> int \<times> int) list"

definition pending_view ::
  "(farm_call \<Rightarrow> bool) \<Rightarrow> time \<Rightarrow> farm \<Rightarrow> int \<Rightarrow> farm_db \<Rightarrow> string \<times> checkpoint \<Rightarrow> (string \<times> string \<times> int \<times> int) option" where
  "pending_view fault now f effective d x =
     (case x of (rid, c) \<Rightarrow>
        if fault (Load_stream rid) then None
        else map_option (\<lambda>r.
          (rw_token r, rw_symbol r, rw_decimals r,
           stored_amount (ck_accrued c)
             + pending_for effective (fst (reward_step r (stored_amount (fp_total f)) now (fp_end f))) (stored_amount (ck_debt c))))
          (map_of (fd_streams d) rid))"

text \<open>A stake whose farm cannot be read is left out; a failure to list its rows ends the request.\<close>

fun stake_views ::
  "(string \<Rightarrow> int \<Rightarrow> int option) option \<Rightarrow> (farm_call \<Rightarrow> bool) \<Rightarrow> time \<Rightarrow> farm_db \<Rightarrow>
     ((string \<times> string) \<times> string) list \<Rightarrow> stake_view list option" where
  "stake_views boost fault now d [] = Some []"
| "stake_views boost fault now d (((i, user), text) # ss) =
     (case (if fault (Load_farm_of i) then None else map_of (fd_farms d) i) of
        None \<Rightarrow> stake_views boost fault now d ss
      | Some f \<Rightarrow>
          let amount = stored_amount text; effective = effective_amount amount (boost_bps_for boost user amount) in
          if fault (List_checks_of i) then None
          else map_option ((#)
            \<lparr>sv_farm_id = i, sv_farm = f, sv_staked = amount,
             sv_pending = List.map_filter (pending_view fault now f effective d) (checks_of (i, user) d)\<rparr>)
            (stake_views boost fault now d ss))"

definition get_stakes ::
  "(string \<Rightarrow> int \<Rightarrow> int option) option \<Rightarrow> (farm_call \<Rightarrow> bool) \<Rightarrow> time \<Rightarrow> string \<Rightarrow> farm_db \<Rightarrow> stake_view list reply" where
  "get_stakes boost fault now user d =
     (if user = [] then Error_reply 401 ''Authenticated session required''
      else if fault List_stakes then Error_reply 500 ''failed to load stakes''
      else (case stake_views boost fault now d (filter (\<lambda>x. snd (fst x) = user) (fd_stakes d)) of
        None \<Rightarrow> Error_reply 500 ''failed to load stake rewards''
      | Some vs \<Rightarrow> Ok_reply 200 vs))"

end
