(* ===== verification/Table_Sums.thy ===== *)
theory Table_Sums
  imports Go_Tables
begin

text \<open>
  Sums over the rows of a table, by key. The sum ranges over the keys that the table knows, so that
  one fact says what writing a row does to it, whatever order the rows stand in.
\<close>

definition tsum :: "('k \<Rightarrow> 'v \<Rightarrow> int) \<Rightarrow> ('k \<times> 'v) list \<Rightarrow> int" where
  "tsum f t = (\<Sum>k \<in> dom (map_of t). f k (the (map_of t k)))"

definition tpart :: "('k \<Rightarrow> 'v \<Rightarrow> int) \<Rightarrow> ('k \<times> 'v) list \<Rightarrow> 'k \<Rightarrow> int" where
  "tpart f t k = (case map_of t k of None \<Rightarrow> 0 | Some v \<Rightarrow> f k v)"

lemma tsum_Nil [simp]: "tsum f [] = 0"
  by (simp add: tsum_def)

lemma tsum_Cons [simp]:
  assumes "map_of t k = None"
  shows "tsum f ((k, v) # t) = f k v + tsum f t"
proof -
  have "k \<notin> dom (map_of t)" using assms by auto
  moreover from this have "(\<Sum>j \<in> dom (map_of t). f j (the (((map_of t)(k \<mapsto> v)) j))) = (\<Sum>j \<in> dom (map_of t). f j (the (map_of t j)))"
    by (intro sum.cong) auto
  ultimately show ?thesis by (simp add: tsum_def finite_dom_map_of)
qed

lemma map_of_alist_update [simp]: "map_of (AList.update k v t) = (map_of t)(k \<mapsto> v)"
  by (simp add: update_conv')

lemma tsum_update: "tsum f (AList.update k v t) = tsum f t - tpart f t k + f k v"
proof -
  have fin: "finite (dom (map_of t))" by (rule finite_dom_map_of)
  have "(\<Sum>j \<in> dom (map_of t) - {k}. f j (the (((map_of t)(k \<mapsto> v)) j))) = (\<Sum>j \<in> dom (map_of t) - {k}. f j (the (map_of t j)))"
    by (intro sum.cong) auto
  moreover have "tsum f t = tpart f t k + (\<Sum>j \<in> dom (map_of t) - {k}. f j (the (map_of t j)))"
    using fin by (cases "map_of t k") (auto simp: tsum_def tpart_def domIff sum.remove [of _ k])
  ultimately show ?thesis using fin by (simp add: tsum_def sum.insert_remove)
qed

lemma tsum_upd_known: "map_of t k = Some w \<Longrightarrow> tsum f (AList.update k v t) = tsum f t - f k w + f k v"
  by (simp add: tsum_update tpart_def)

lemma tsum_upd_new: "map_of t k = None \<Longrightarrow> tsum f (AList.update k v t) = tsum f t + f k v"
  by (simp add: tsum_update tpart_def)

lemma tsum_cong:
  assumes "\<And>k. map_of t' k = map_of t k \<or> tpart f' t' k = tpart f t k" "\<And>k v. map_of t k = Some v \<Longrightarrow> f' k v = f k v"
  shows "tsum f' t' = tsum f t"
proof -
  have s: "tsum g u = (\<Sum>k \<in> dom (map_of t) \<union> dom (map_of t'). tpart g u k)" if "u = t \<or> u = t'" for g u
    unfolding tsum_def using that
    by (intro sum.mono_neutral_cong_left) (auto simp: tpart_def finite_dom_map_of domIff split: option.splits)
  have "tpart f' t' k = tpart f t k" for k
    using assms(1) [of k] assms(2) by (auto simp: tpart_def split: option.splits)
  then show ?thesis by (simp add: s)
qed

lemma tsum_same: "(\<And>k v. map_of t k = Some v \<Longrightarrow> f' k v = f k v) \<Longrightarrow> tsum f' t = tsum f t"
  by (rule tsum_cong) simp_all

lemma tsum_mono: "(\<And>k v. map_of t k = Some v \<Longrightarrow> f k v \<le> g k v) \<Longrightarrow> tsum f t \<le> tsum g t"
  unfolding tsum_def by (rule sum_mono) auto

lemma tsum_nonneg: "(\<And>k v. map_of t k = Some v \<Longrightarrow> 0 \<le> f k v) \<Longrightarrow> 0 \<le> tsum f t"
  unfolding tsum_def by (rule sum_nonneg) auto

lemma tsum_add: "tsum (\<lambda>k v. f k v + g k v) t = tsum f t + tsum g t"
  by (simp add: tsum_def sum.distrib)

lemma tsum_scale: "tsum (\<lambda>k v. c * f k v) t = c * tsum f t"
  by (simp add: tsum_def sum_distrib_left)

text \<open>The rows of one table whose keys lie, one to one, among the keys of another.\<close>

lemma tsum_into:
  assumes "inj_on g {k. tpart f t k \<noteq> 0}"
    and "\<And>k. tpart f t k \<noteq> 0 \<Longrightarrow> tpart f t k \<le> tpart h u (g k)" "\<And>j v. map_of u j = Some v \<Longrightarrow> 0 \<le> h j v"
  shows "tsum f t \<le> tsum h u"
proof -
  let ?K = "{k. tpart f t k \<noteq> 0}"
  have sub: "?K \<subseteq> dom (map_of t)" by (auto simp: tpart_def split: option.splits)
  then have fin: "finite ?K" by (rule finite_subset) (rule finite_dom_map_of)
  have h0: "0 \<le> tpart h u j" for j using assms(3) by (auto simp: tpart_def split: option.splits)
  have fa: "tsum f t = (\<Sum>k \<in> dom (map_of t). tpart f t k)" "tsum h u = (\<Sum>k \<in> dom (map_of u). tpart h u k)"
    unfolding tsum_def by (intro sum.cong; auto simp: tpart_def)+
  have "tsum f t = (\<Sum>k \<in> ?K. tpart f t k)"
    unfolding fa(1) using sub by (intro sum.mono_neutral_right) (auto simp: finite_dom_map_of)
  also have "\<dots> \<le> (\<Sum>k \<in> ?K. tpart h u (g k))" using assms(2) by (intro sum_mono) simp
  also have "\<dots> = (\<Sum>j \<in> g ` ?K. tpart h u j)" using assms(1) by (simp add: sum.reindex)
  also have "\<dots> = (\<Sum>j \<in> g ` ?K \<inter> dom (map_of u). tpart h u j)"
    using fin by (intro sum.mono_neutral_right) (auto simp: tpart_def domIff split: option.splits)
  also have "\<dots> \<le> tsum h u" unfolding fa(2)
    by (rule sum_mono2) (auto simp: finite_dom_map_of h0)
  finally show ?thesis .
qed

end
