(* ===== verification/Farm_Props.thy ===== *)
theory Farm_Props
  imports Farm Custody Table_Sums
begin

text \<open>
  What the farms guarantee. The accumulator: an interval emits at most what is left of the funds, and
  what it adds to the shares is backed by what it counts as distributed. The service: stakes and
  totals agree, tokens are conserved over every run, and without a boost what the stakers of a stream
  were paid and can claim exceeds what was distributed by at most one smallest unit per change of a
  stake. With a boost that changes between two settlements the last bound fails.
\<close>

section \<open>One interval of a stream\<close>

definition acc_of :: "stream \<Rightarrow> int" where "acc_of r = stored_amount (rw_acc r)"
definition distributed_of :: "stream \<Rightarrow> int" where "distributed_of r = stored_amount (rw_distributed r)"
definition funded_of :: "stream \<Rightarrow> int" where "funded_of r = stored_amount (rw_funded r)"

definition stream_ok :: "stream \<Rightarrow> bool" where
  "stream_ok r \<longleftrightarrow> 0 \<le> acc_of r \<and> 0 \<le> distributed_of r \<and> distributed_of r \<le> funded_of r"

lemma acc_scale_pos [simp]: "0 < acc_scale" "acc_scale \<noteq> 0" "0 \<le> acc_scale"
  by (simp_all add: acc_scale_def)

lemma div_mult_bounds: "0 < (b :: int) \<Longrightarrow> b * (a div b) \<le> a \<and> a < b * (a div b) + b"
  using pos_mod_bound [of b a] pos_mod_sign [of b a] by (simp add: minus_mult_div_eq_mod [symmetric])

lemma emission_backed:
  assumes "0 < (staked :: int)" "0 \<le> e"
  shows "0 \<le> ediv (e * acc_scale) staked" "staked * ediv (e * acc_scale) staked \<le> acc_scale * e"
  using assms div_mult_bounds [of staked "e * acc_scale"] by (simp_all add: pos_imp_zdiv_nonneg_iff mult.commute)

lemma reward_step_backed:
  assumes ok: "stream_ok r" and st: "0 \<le> staked" and s: "reward_step r staked now finish = (acc, distributed, e)"
  shows "acc_of r \<le> acc" "distributed_of r \<le> distributed" "distributed \<le> funded_of r"
    "staked * (acc - acc_of r) \<le> acc_scale * (distributed - distributed_of r)"
proof -
  consider "acc = acc_of r" "distributed = distributed_of r"
    | em where "0 < staked" "0 \<le> em" "em \<le> funded_of r - distributed_of r"
      "acc = acc_of r + ediv (em * acc_scale) staked" "distributed = distributed_of r + em"
  proof (cases "acc = acc_of r \<and> distributed = distributed_of r")
    case False
    define n where "n = (if finish < now then finish else now)"
    define secs where "secs = f64_to_int64 (duration_seconds (time_sub n (rw_last r)))"
    define em where "em = (if funded_of r - distributed_of r < stored_amount (rw_rate r) * secs
      then funded_of r - distributed_of r else stored_amount (rw_rate r) * secs)"
    have "0 < staked" "0 < secs" "0 < stored_amount (rw_rate r)" "0 < funded_of r - distributed_of r"
      "acc = acc_of r + ediv (em * acc_scale) staked" "distributed = distributed_of r + em"
      using s False unfolding reward_step_def n_def [symmetric] Let_def secs_def [symmetric] acc_of_def [symmetric]
        distributed_of_def [symmetric] funded_of_def [symmetric] em_def [symmetric]
      by (auto split: if_split_asm)
    moreover from this have "0 \<le> em" "em \<le> funded_of r - distributed_of r" by (auto simp: em_def)
    ultimately show thesis by (rule_tac that(2)) auto
  qed (use that in blast)
  then have "acc_of r \<le> acc \<and> distributed_of r \<le> distributed \<and> distributed \<le> funded_of r
      \<and> staked * (acc - acc_of r) \<le> acc_scale * (distributed - distributed_of r)"
    using ok emission_backed [of staked] by cases (simp_all add: stream_ok_def)
  then show "acc_of r \<le> acc" "distributed_of r \<le> distributed" "distributed \<le> funded_of r"
    "staked * (acc - acc_of r) \<le> acc_scale * (distributed - distributed_of r)" by simp_all
qed

lemma advanced_fields [simp]:
  "rw_farm (advanced r staked now finish) = rw_farm r" "rw_token (advanced r staked now finish) = rw_token r"
  "rw_symbol (advanced r staked now finish) = rw_symbol r" "rw_funded (advanced r staked now finish) = rw_funded r"
  "rw_rate (advanced r staked now finish) = rw_rate r" "rw_decimals (advanced r staked now finish) = rw_decimals r"
  by (simp_all add: advanced_def Let_def split: prod.split)

lemma funded_advanced [simp]: "funded_of (advanced r staked now finish) = funded_of r"
  by (simp add: funded_of_def)

lemma advanced_backed:
  assumes ok: "stream_ok r" and st: "0 \<le> staked"
  shows "stream_ok (advanced r staked now finish)" "acc_of r \<le> acc_of (advanced r staked now finish)"
    "distributed_of r \<le> distributed_of (advanced r staked now finish)"
    "staked * (acc_of (advanced r staked now finish) - acc_of r)
      \<le> acc_scale * (distributed_of (advanced r staked now finish) - distributed_of r)"
proof -
  let ?r = "advanced r staked now finish"
  have f: "funded_of ?r = funded_of r" by (simp add: funded_of_def)
  define n where "n = (if finish < now then finish else now)"
  define mark where "mark = (if n < rw_last r then rw_last r else n)"
  obtain acc distributed e where step: "reward_step r staked mark finish = (acc, distributed, e)" by (metis prod_cases3)
  have "?r = r\<lparr>rw_last := mark\<rparr> \<or> acc_of ?r = acc \<and> distributed_of ?r = distributed"
    unfolding advanced_def n_def [symmetric] Let_def mark_def [symmetric] step by (simp add: acc_of_def distributed_of_def)
  then have "acc_of r \<le> acc_of ?r \<and> distributed_of r \<le> distributed_of ?r \<and> distributed_of ?r \<le> funded_of r
      \<and> staked * (acc_of ?r - acc_of r) \<le> acc_scale * (distributed_of ?r - distributed_of r)"
    using reward_step_backed [OF ok st step] ok by (auto simp: stream_ok_def acc_of_def distributed_of_def)
  with ok f show "stream_ok ?r" "acc_of r \<le> acc_of ?r" "distributed_of r \<le> distributed_of ?r"
    "staked * (acc_of ?r - acc_of r) \<le> acc_scale * (distributed_of ?r - distributed_of r)"
    by (auto simp: stream_ok_def)
qed

section \<open>What a settlement does to the tables\<close>

definition next_check :: "checkpoint option \<Rightarrow> int \<Rightarrow> int \<Rightarrow> int \<Rightarrow> checkpoint" where
  "next_check c acc old_effective new_effective =
     (let debt = int_string (ediv (new_effective * acc) acc_scale) in
      case c of
        None \<Rightarrow> \<lparr>ck_debt = debt, ck_accrued = ''0'', ck_claimed = ''0''\<rparr>
      | Some c \<Rightarrow> c\<lparr>ck_accrued := int_string (stored_amount (ck_accrued c) + pending_for old_effective acc (stored_amount (ck_debt c))),
                   ck_debt := debt\<rparr>)"

text \<open>The streams \<open>J\<close> are advanced, and the checkpoints of one stake in them settled.\<close>

definition accrued_to ::
  "string \<Rightarrow> farm \<Rightarrow> string \<Rightarrow> int \<Rightarrow> int \<Rightarrow> time \<Rightarrow> string set \<Rightarrow> farm_db \<Rightarrow> farm_db \<Rightarrow> bool" where
  "accrued_to i f user old_effective new_effective now J d d' \<longleftrightarrow>
     fd_farms d' = fd_farms d \<and> fd_stakes d' = fd_stakes d \<and> fd_accounts d' = fd_accounts d
     \<and> (\<forall>j. map_of (fd_streams d') j =
          (if j \<in> J then map_option (\<lambda>r. advanced r (stored_amount (fp_total f)) now (fp_end f)) (map_of (fd_streams d) j)
           else map_of (fd_streams d) j))
     \<and> (\<forall>k j. map_of (fd_checks d') (k, j) =
          (if k = (i, user) \<and> j \<in> J
           then Some (next_check (map_of (fd_checks d) (k, j)) (acc_of (the (map_of (fd_streams d') j))) old_effective new_effective)
           else map_of (fd_checks d) (k, j)))
     \<and> (distinct (map fst (fd_streams d)) \<longrightarrow> distinct (map fst (fd_streams d')))
     \<and> (distinct (map fst (fd_checks d)) \<longrightarrow> distinct (map fst (fd_checks d')))"

lemma accrued_toD:
  assumes "accrued_to i f user old_effective new_effective now J d d'"
  shows "fd_farms d' = fd_farms d" "fd_stakes d' = fd_stakes d" "fd_accounts d' = fd_accounts d"
    "j \<in> J \<Longrightarrow> map_of (fd_streams d') j = map_option (\<lambda>r. advanced r (stored_amount (fp_total f)) now (fp_end f)) (map_of (fd_streams d) j)"
    "j \<notin> J \<Longrightarrow> map_of (fd_streams d') j = map_of (fd_streams d) j"
    "j \<in> J \<Longrightarrow> map_of (fd_checks d') ((i, user), j)
      = Some (next_check (map_of (fd_checks d) ((i, user), j)) (acc_of (the (map_of (fd_streams d') j))) old_effective new_effective)"
    "k \<noteq> (i, user) \<or> j \<notin> J \<Longrightarrow> map_of (fd_checks d') (k, j) = map_of (fd_checks d) (k, j)"
    "distinct (map fst (fd_streams d)) \<Longrightarrow> distinct (map fst (fd_streams d'))"
    "distinct (map fst (fd_checks d)) \<Longrightarrow> distinct (map fst (fd_checks d'))"
  using assms unfolding accrued_to_def by (cases k; auto)+

lemma settle_check_spec:
  "settle_check fault i user rid r old_effective new_effective d = Inr d' \<Longrightarrow>
    d' = d\<lparr>fd_checks := AList.update ((i, user), rid)
      (next_check (map_of (fd_checks d) ((i, user), rid)) (acc_of r) old_effective new_effective) (fd_checks d)\<rparr>"
  by (auto simp: settle_check_def next_check_def acc_of_def Let_def split: if_split_asm option.split_asm)

lemma accrue_streams_spec:
  assumes "accrue_streams fault i f user old_effective new_effective now rs d = Inr d'"
    "distinct (map fst rs)" "\<And>x. x \<in> set rs \<Longrightarrow> map_of (fd_streams d) (fst x) = Some (snd x)"
  shows "accrued_to i f user old_effective new_effective now (fst ` set rs) d d'"
  using assms
proof (induction rs arbitrary: d)
  case Nil
  then show ?case by (simp add: accrued_to_def)
next
  case (Cons x rs)
  obtain rid r where x: "x = (rid, r)" by (cases x)
  let ?r = "advanced r (stored_amount (fp_total f)) now (fp_end f)"
  let ?d1 = "d\<lparr>fd_streams := AList.update rid ?r (fd_streams d)\<rparr>"
  let ?c = "next_check (map_of (fd_checks d) ((i, user), rid)) (acc_of ?r) old_effective new_effective"
  let ?d2 = "?d1\<lparr>fd_checks := AList.update ((i, user), rid) ?c (fd_checks d)\<rparr>"
  obtain d2 where d2: "settle_check fault i user rid ?r old_effective new_effective ?d1 = Inr d2"
    "accrue_streams fault i f user old_effective new_effective now rs d2 = Inr d'"
    using Cons.prems(1) by (auto simp: x advance_reward_def Let_def split: if_split_asm)
  have e: "d2 = ?d2" using settle_check_spec [OF d2(1)] by simp
  have m: "map_of (fd_streams d) rid = Some r" "rid \<notin> fst ` set rs" using Cons.prems(2,3) by (auto simp: x)
  have "map_of (fd_streams d2) (fst y) = Some (snd y)" if "y \<in> set rs" for y
    using Cons.prems(2,3) that m(2) by (auto simp: e)
  from Cons.IH [OF d2(2) _ this] Cons.prems(2) have "accrued_to i f user old_effective new_effective now (fst ` set rs) d2 d'"
    by simp
  then show ?case using m unfolding accrued_to_def by (auto simp: e x distinct_update)
qed

lemma streams_of_map:
  assumes "distinct (map fst (fd_streams d))"
  shows "distinct (map fst (streams_of i d))"
    and "x \<in> set (streams_of i d) \<longleftrightarrow> map_of (fd_streams d) (fst x) = Some (snd x) \<and> rw_farm (snd x) = i"
  using assms by (cases x; auto simp: streams_of_def distinct_map_filter dest: map_of_SomeD)+

definition streams_in :: "string \<Rightarrow> farm_db \<Rightarrow> string set" where
  "streams_in i d = {j. \<exists>r. map_of (fd_streams d) j = Some r \<and> rw_farm r = i}"

lemma accrue_stake_spec:
  assumes "accrue_stake fault i f user old_effective new_effective now d = Inr d'" "distinct (map fst (fd_streams d))"
  shows "accrued_to i f user old_effective new_effective now (streams_in i d) d d'"
proof -
  have "fst ` set (streams_of i d) = streams_in i d"
    using streams_of_map(2) [OF assms(2), of _ i] by (force simp: streams_in_def image_iff)
  then show ?thesis
    using accrue_streams_spec [of fault i f user old_effective new_effective now "streams_of i d" d d'] assms streams_of_map [OF assms(2), where i = i]
    by (auto simp: accrue_stake_def split: if_split_asm)
qed

section \<open>The invariant and the pool\<close>

definition stake_of :: "farm_db \<Rightarrow> string \<times> string \<Rightarrow> int" where
  "stake_of d = tpart (\<lambda>_ t. stored_amount t) (fd_stakes d)"

definition staked_in :: "string \<Rightarrow> farm_db \<Rightarrow> int" where
  "staked_in i d = tsum (\<lambda>k t. if fst k = i then stored_amount t else 0) (fd_stakes d)"

definition total_of :: "farm \<Rightarrow> int" where "total_of f = stored_amount (fp_total f)"
definition claimed_of :: "checkpoint \<Rightarrow> int" where "claimed_of c = stored_amount (ck_claimed c)"
definition accrued_of :: "checkpoint \<Rightarrow> int" where "accrued_of c = stored_amount (ck_accrued c)"
definition debt_of :: "checkpoint \<Rightarrow> int" where "debt_of c = stored_amount (ck_debt c)"

definition farm_ok :: "farm_db \<Rightarrow> bool" where
  "farm_ok d \<longleftrightarrow> distinct (map fst (fd_streams d)) \<and> distinct (map fst (fd_checks d))
     \<and> (\<forall>i f. map_of (fd_farms d) i = Some f \<longrightarrow> total_of f = staked_in i d)
     \<and> (\<forall>k t. map_of (fd_stakes d) k = Some t \<longrightarrow> 0 \<le> stored_amount t \<and> map_of (fd_farms d) (fst k) \<noteq> None)
     \<and> (\<forall>j r. map_of (fd_streams d) j = Some r \<longrightarrow> stream_ok r \<and> map_of (fd_farms d) (rw_farm r) \<noteq> None)
     \<and> (\<forall>k j c. map_of (fd_checks d) (k, j) = Some c \<longrightarrow> j \<in> streams_in (fst k) d \<and> 0 \<le> accrued_of c \<and> 0 \<le> claimed_of c)"

lemma farm_okD:
  assumes "farm_ok d"
  shows "distinct (map fst (fd_streams d))" "distinct (map fst (fd_checks d))"
    "map_of (fd_farms d) i = Some f \<Longrightarrow> total_of f = staked_in i d"
    "map_of (fd_stakes d) k = Some t \<Longrightarrow> 0 \<le> stored_amount t \<and> map_of (fd_farms d) (fst k) \<noteq> None"
    "map_of (fd_streams d) j = Some r \<Longrightarrow> stream_ok r \<and> map_of (fd_farms d) (rw_farm r) \<noteq> None"
    "map_of (fd_checks d) (k, j) = Some c \<Longrightarrow> j \<in> streams_in (fst k) d \<and> 0 \<le> accrued_of c \<and> 0 \<le> claimed_of c"
  using assms unfolding farm_ok_def by blast+

definition chain_of :: "farm_db \<Rightarrow> string \<Rightarrow> int64" where
  "chain_of d i = (case map_of (fd_farms d) i of None \<Rightarrow> 0 | Some f \<Rightarrow> fp_chain f)"

definition farm_asset :: "farm \<Rightarrow> int64 \<times> string" where
  "farm_asset f = (fp_chain f, normalize_token (fp_token f))"

definition stream_asset :: "farm_db \<Rightarrow> stream \<Rightarrow> int64 \<times> string" where
  "stream_asset d r = (chain_of d (rw_farm r), normalize_token (rw_token r))"

definition check_asset :: "farm_db \<Rightarrow> string \<Rightarrow> (int64 \<times> string) option" where
  "check_asset d j = map_option (stream_asset d) (map_of (fd_streams d) j)"

text \<open>What the service holds of an asset: the stakes, and the funds of the streams less what was claimed.\<close>

definition farm_pool :: "farm_db \<Rightarrow> int64 \<times> string \<Rightarrow> int" where
  "farm_pool d x =
     tsum (\<lambda>_ f. if farm_asset f = x then total_of f else 0) (fd_farms d)
     + tsum (\<lambda>_ r. if stream_asset d r = x then funded_of r else 0) (fd_streams d)
     - tsum (\<lambda>k c. if check_asset d (snd k) = Some x then claimed_of c else 0) (fd_checks d)"

lemma stream_asset_advanced [simp]: "stream_asset d (advanced r staked now finish) = stream_asset d r"
  by (simp add: stream_asset_def)

text \<open>What never changes in a farm and in a stream.\<close>

definition farm_key :: "farm_db \<Rightarrow> string \<Rightarrow> (int64 \<times> string) option" where
  "farm_key d i = map_option (\<lambda>f. (fp_chain f, fp_token f)) (map_of (fd_farms d) i)"

definition stream_key :: "farm_db \<Rightarrow> string \<Rightarrow> (string \<times> string) option" where
  "stream_key d j = map_option (\<lambda>r. (rw_farm r, rw_token r)) (map_of (fd_streams d) j)"

definition keeps :: "farm_db \<Rightarrow> farm_db \<Rightarrow> bool" where
  "keeps d d' \<longleftrightarrow> (\<forall>i p. farm_key d i = Some p \<longrightarrow> farm_key d' i = Some p) \<and> (\<forall>j p. stream_key d j = Some p \<longrightarrow> stream_key d' j = Some p)"

lemma keeps_refl [simp, intro]: "keeps d d"
  by (simp add: keeps_def)

lemma keeps_trans: "keeps d d1 \<Longrightarrow> keeps d1 d2 \<Longrightarrow> keeps d d2"
  by (simp add: keeps_def)

lemma keeps_same: "fd_farms d' = fd_farms d \<Longrightarrow> fd_streams d' = fd_streams d \<Longrightarrow> keeps d d'"
  by (simp add: keeps_def farm_key_def stream_key_def)

lemma stake_of_nonneg: "farm_ok d \<Longrightarrow> 0 \<le> stake_of d k"
  using farm_okD(4) [of d k] by (auto simp: stake_of_def tpart_def split: option.split)

lemma staked_in_nonneg: "farm_ok d \<Longrightarrow> 0 \<le> staked_in i d"
  unfolding staked_in_def by (rule tsum_nonneg) (use farm_okD(4) in auto)

text \<open>Accruing moves nothing, and keeps the invariant.\<close>

lemma accrued_streams_in:
  assumes "accrued_to i f user old_effective new_effective now J d d'"
  shows "streams_in k d' = streams_in k d"
  using assms by (auto simp: streams_in_def accrued_to_def split: if_split_asm)

lemma accrued_keeps:
  assumes "accrued_to i f user old_effective new_effective now J d d'"
  shows "keeps d d'"
  using assms by (auto simp: keeps_def accrued_to_def farm_key_def stream_key_def)

lemma next_check_facts:
  "claimed_of (next_check None acc o' n) = 0" "accrued_of (next_check None acc o' n) = 0"
  "claimed_of (next_check (Some c) acc o' n) = claimed_of c" "accrued_of c \<le> accrued_of (next_check (Some c) acc o' n)"
  "debt_of (next_check oc acc o' n) = ediv (n * acc) acc_scale"
  "accrued_of (next_check (Some c) acc o' n) = accrued_of c + pending_for o' acc (debt_of c)"
  by (simp_all add: next_check_def claimed_of_def accrued_of_def debt_of_def pending_for_def Let_def split: option.split)

lemma accrued_ok:
  assumes ok: "farm_ok d" and f: "map_of (fd_farms d) i = Some f"
    and a: "accrued_to i f user old_effective new_effective now (streams_in i d) d d'"
  shows "farm_ok d'"
proof -
  have tot: "0 \<le> stored_amount (fp_total f)"
    using farm_okD(3) [OF ok f] staked_in_nonneg [OF ok, of i] by (simp add: total_of_def)
  have s: "fd_farms d' = fd_farms d" "fd_stakes d' = fd_stakes d" "\<And>k. staked_in k d' = staked_in k d"
    "\<And>k. streams_in k d' = streams_in k d"
    using a accrued_streams_in [OF a] by (simp_all add: accrued_to_def staked_in_def)
  have str: "stream_ok r' \<and> map_of (fd_farms d) (rw_farm r') \<noteq> None" if "map_of (fd_streams d') j = Some r'" for j r'
  proof -
    have "map_of (fd_streams d') j = (if j \<in> streams_in i d
      then map_option (\<lambda>r. advanced r (stored_amount (fp_total f)) now (fp_end f)) (map_of (fd_streams d) j)
      else map_of (fd_streams d) j)" using a by (simp add: accrued_to_def)
    with that obtain r where "map_of (fd_streams d) j = Some r"
      "r' = r \<or> r' = advanced r (stored_amount (fp_total f)) now (fp_end f)" by (auto split: if_split_asm)
    with farm_okD(5) [OF ok, of j r] show ?thesis using advanced_backed(1) [OF _ tot] by auto
  qed
  have chk: "j \<in> streams_in (fst k) d \<and> 0 \<le> accrued_of c \<and> 0 \<le> claimed_of c" if "map_of (fd_checks d') (k, j) = Some c" for k j c
  proof (cases "k = (i, user) \<and> j \<in> streams_in i d")
    case True
    then have "c = next_check (map_of (fd_checks d) (k, j)) (acc_of (the (map_of (fd_streams d') j))) old_effective new_effective"
      using a that by (simp add: accrued_to_def)
    with True show ?thesis
    proof (cases "map_of (fd_checks d) (k, j)")
      case (Some c0)
      with \<open>c = _\<close> farm_okD(6) [OF ok Some] show ?thesis by (auto simp: next_check_facts pending_for_def Let_def)
    qed (simp add: next_check_facts)
  next
    case False
    then have "map_of (fd_checks d) (k, j) = Some c" using accrued_toD(7) [OF a, of k j] that by auto
    from farm_okD(6) [OF ok this] show ?thesis .
  qed
  show ?thesis
    using farm_okD [OF ok] a str chk unfolding farm_ok_def s by (auto simp: accrued_to_def)
qed

lemma accrued_pool:
  assumes ok: "farm_ok d" and a: "accrued_to i f user old_effective new_effective now (streams_in i d) d d'"
  shows "farm_pool d' x = farm_pool d x"
proof -
  have s: "fd_farms d' = fd_farms d" using a by (simp add: accrued_to_def)
  have as: "stream_asset d' r = stream_asset d r" for r by (simp add: stream_asset_def chain_of_def s)
  have m: "map_of (fd_streams d') j = map_of (fd_streams d) j
    \<or> (\<exists>r. map_of (fd_streams d) j = Some r \<and> map_of (fd_streams d') j = Some (advanced r (stored_amount (fp_total f)) now (fp_end f)))" for j
    using a by (cases "map_of (fd_streams d) j") (auto simp: accrued_to_def)
  have ca: "check_asset d' j = check_asset d j" for j
    using m [of j] by (auto simp: check_asset_def as cong: option.map_cong)
  have "tsum (\<lambda>_ r. if stream_asset d' r = x then funded_of r else 0) (fd_streams d')
      = tsum (\<lambda>_ r. if stream_asset d r = x then funded_of r else 0) (fd_streams d)"
  proof (rule tsum_cong)
    fix j show "map_of (fd_streams d') j = map_of (fd_streams d) j
      \<or> tpart (\<lambda>_ r. if stream_asset d' r = x then funded_of r else 0) (fd_streams d') j
        = tpart (\<lambda>_ r. if stream_asset d r = x then funded_of r else 0) (fd_streams d) j"
      using m [of j] by (elim disjE exE conjE) (simp_all add: tpart_def as)
  qed (simp add: as)
  moreover have "tsum (\<lambda>k c. if check_asset d' (snd k) = Some x then claimed_of c else 0) (fd_checks d')
      = tsum (\<lambda>k c. if check_asset d (snd k) = Some x then claimed_of c else 0) (fd_checks d)"
  proof (rule tsum_cong)
    fix k :: "(string \<times> string) \<times> string"
    obtain k' j where k: "k = (k', j)" by (cases k)
    have "map_of (fd_checks d') (k', j) = map_of (fd_checks d) (k', j) \<or> map_of (fd_checks d') (k', j)
        = Some (next_check (map_of (fd_checks d) (k', j)) (acc_of (the (map_of (fd_streams d') j))) old_effective new_effective)"
      using accrued_toD(6) [OF a, of j] accrued_toD(7) [OF a, of k' j] by metis
    then show "map_of (fd_checks d') k = map_of (fd_checks d) k
      \<or> tpart (\<lambda>k c. if check_asset d' (snd k) = Some x then claimed_of c else 0) (fd_checks d') k
        = tpart (\<lambda>k c. if check_asset d (snd k) = Some x then claimed_of c else 0) (fd_checks d) k"
      by (cases "map_of (fd_checks d) (k', j)") (elim disjE; simp add: k tpart_def ca next_check_facts)+
  qed (simp add: ca)
  ultimately show ?thesis by (simp add: farm_pool_def s)
qed

section \<open>Writing a stake\<close>

text \<open>The two writes of a stake that goes from what it was to \<open>new\<close>.\<close>

definition put_stake :: "string \<Rightarrow> farm \<Rightarrow> string \<Rightarrow> int \<Rightarrow> int \<Rightarrow> farm_db \<Rightarrow> farm_db" where
  "put_stake i f user new staked d =
     d\<lparr>fd_stakes := AList.update (i, user) (int_string new) (fd_stakes d),
       fd_farms := AList.update i (f\<lparr>fp_total := int_string staked\<rparr>) (fd_farms d)\<rparr>"

lemma staked_in_update:
  "tsum (\<lambda>k t. if fst k = j then stored_amount t else 0) (AList.update (i, user) (int_string n) (fd_stakes d))
     = staked_in j d + (if j = i then n - stake_of d (i, user) else 0)"
  by (simp add: tsum_update staked_in_def stake_of_def tpart_def split: option.split)

lemma put_stake_streams_in [simp]: "streams_in j (put_stake i f user new staked d) = streams_in j d"
  by (simp add: streams_in_def put_stake_def)

lemma put_stake_ok:
  assumes ok: "farm_ok d" and f: "map_of (fd_farms d) i = Some f" and n: "0 \<le> new"
    and st: "staked = total_of f + (new - stake_of d (i, user))"
  shows "farm_ok (put_stake i f user new staked d)" "keeps d (put_stake i f user new staked d)"
    "farm_pool (put_stake i f user new staked d) x = farm_pool d x + (if farm_asset f = x then new - stake_of d (i, user) else 0)"
proof -
  let ?d = "put_stake i f user new staked d"
  have s: "staked_in j ?d = staked_in j d + (if j = i then new - stake_of d (i, user) else 0)" for j
    unfolding staked_in_update [symmetric] by (simp add: put_stake_def staked_in_def)
  show "farm_ok ?d"
    using farm_okD [OF ok] f n st unfolding farm_ok_def s put_stake_streams_in
    by (auto simp: put_stake_def total_of_def)
  show "keeps d ?d" using f by (auto simp: keeps_def put_stake_def farm_key_def stream_key_def)
  have as: "stream_asset ?d = stream_asset d" using f by (intro ext) (simp add: stream_asset_def chain_of_def put_stake_def)
  then have ca: "check_asset ?d = check_asset d" by (intro ext) (simp add: check_asset_def put_stake_def)
  have "tsum (\<lambda>_ f. if farm_asset f = x then total_of f else 0) (fd_farms ?d)
      = tsum (\<lambda>_ f. if farm_asset f = x then total_of f else 0) (fd_farms d) + (if farm_asset f = x then new - stake_of d (i, user) else 0)"
    using f st by (simp add: put_stake_def tsum_upd_known farm_asset_def total_of_def)
  then show "farm_pool ?d x = farm_pool d x + (if farm_asset f = x then new - stake_of d (i, user) else 0)"
    unfolding farm_pool_def as ca by (simp add: put_stake_def)
qed

lemma change_stake_spec:
  assumes "change_stake boost fault now i f user old new staked d = Inr d'" "distinct (map fst (fd_streams d))"
  obtains d1 where "accrued_to i f user (effective_amount old (boost_bps_for boost user old))
      (effective_amount new (boost_bps_for boost user new)) now (streams_in i d) d d1"
    "d' = put_stake i f user new staked d1"
proof -
  from assms(1) obtain d1 where "accrue_stake fault i f user (effective_amount old (boost_bps_for boost user old))
      (effective_amount new (boost_bps_for boost user new)) now d = Inr d1" "d' = put_stake i f user new staked d1"
    by (auto simp: change_stake_def put_stake_def split: if_split_asm)
  then show thesis using that accrue_stake_spec assms(2) by blast
qed

lemma stake_of_accrued: "accrued_to i f user oe ne now J d d' \<Longrightarrow> stake_of d' = stake_of d"
  by (simp add: stake_of_def accrued_toD(2))

lemma change_stake_effect:
  assumes ok: "farm_ok d" and f: "map_of (fd_farms d) i = Some f" and n: "0 \<le> new"
    and st: "staked = total_of f + (new - stake_of d (i, user))"
    and c: "change_stake boost fault now i f user old new staked d = Inr d'"
  shows "farm_ok d'" "keeps d d'" "fd_accounts d' = fd_accounts d"
    "farm_pool d' x = farm_pool d x + (if farm_asset f = x then new - stake_of d (i, user) else 0)"
proof -
  obtain d1 where a: "accrued_to i f user (effective_amount old (boost_bps_for boost user old))
      (effective_amount new (boost_bps_for boost user new)) now (streams_in i d) d d1" and d': "d' = put_stake i f user new staked d1"
    by (rule change_stake_spec [OF c farm_okD(1) [OF ok]])
  have f1: "map_of (fd_farms d1) i = Some f" "stake_of d1 = stake_of d"
    using f stake_of_accrued [OF a] by (simp_all add: accrued_toD(1) [OF a])
  note p = put_stake_ok [OF accrued_ok [OF ok f a] f1(1) n, of staked user]
  show "farm_ok d'" "farm_pool d' x = farm_pool d x + (if farm_asset f = x then new - stake_of d (i, user) else 0)"
    using p st f1(2) accrued_pool [OF ok a] by (simp_all add: d')
  show "keeps d d'" using p(2) st f1(2) accrued_keeps [OF a] by (simp add: d' keeps_trans)
  show "fd_accounts d' = fd_accounts d" using accrued_toD(3) [OF a] by (simp add: d' put_stake_def)
qed

section \<open>Requests on a stake\<close>

lemma accounts_irrelevant [simp]:
  "farm_ok (d\<lparr>fd_accounts := t\<rparr>) = farm_ok d" "farm_pool (d\<lparr>fd_accounts := t\<rparr>) = farm_pool d"
  "stake_of (d\<lparr>fd_accounts := t\<rparr>) = stake_of d" "streams_in i (d\<lparr>fd_accounts := t\<rparr>) = streams_in i d"
  "keeps d (d\<lparr>fd_accounts := t\<rparr>)"
  by (simp_all add: farm_ok_def farm_pool_def stake_of_def streams_in_def staked_in_def stream_asset_def chain_of_def check_asset_def
      keeps_def farm_key_def stream_key_def fun_eq_iff)

definition with_row :: "string \<times> string \<Rightarrow> farm_db \<Rightarrow> farm_db" where
  "with_row k d = (if map_of (fd_stakes d) k = None then d\<lparr>fd_stakes := AList.update k ''0'' (fd_stakes d)\<rparr> else d)"

lemma load_or_create_spec:
  "load_or_create_stake fault i user d = Inr (old, d') \<Longrightarrow> d' = with_row (i, user) d \<and> old = stake_of d (i, user)"
  by (auto simp: load_or_create_stake_def with_row_def stake_of_def tpart_def split: if_split_asm option.split_asm)

lemma with_row_stake_of [simp]: "stake_of (with_row k d) = stake_of d"
  by (auto simp: with_row_def stake_of_def tpart_def fun_eq_iff split: option.split)

lemma with_row_same [simp]:
  "fd_farms (with_row k d) = fd_farms d" "fd_streams (with_row k d) = fd_streams d" "fd_checks (with_row k d) = fd_checks d"
  "fd_accounts (with_row k d) = fd_accounts d"
  by (simp_all add: with_row_def)

lemma with_row_pool [simp]: "farm_pool (with_row k d) = farm_pool d"
  by (simp add: farm_pool_def stream_asset_def chain_of_def check_asset_def fun_eq_iff)

lemma with_row_ok:
  assumes "farm_ok d" "map_of (fd_farms d) (fst k) \<noteq> None"
  shows "farm_ok (with_row k d)"
proof -
  have "staked_in j (with_row k d) = staked_in j d" for j
    by (auto simp: with_row_def staked_in_def tsum_update tpart_def)
  moreover have "streams_in j (with_row k d) = streams_in j d" for j by (simp add: streams_in_def)
  ultimately show ?thesis
    using farm_okD [OF assms(1)] assms(2) unfolding farm_ok_def by (auto simp: with_row_def split: if_split_asm)
qed

lemma ledger_left: "map_error g r = Inr t \<longleftrightarrow> r = Inr t"
  by (cases r) simp_all

lemma stake_tx_split:
  assumes h: "stake_tx boost fault now i user amount d = Inr d'"
  obtains f t where "map_of (fd_farms d) i = Some f" "farm_open now f" "0 < amount" "paid user (farm_asset f) (- amount) (fd_accounts d) t"
    "change_stake boost fault now i f user (stake_of d (i, user)) (stake_of d (i, user) + amount) (total_of f + amount)
      (with_row (i, user) (d\<lparr>fd_accounts := t\<rparr>)) = Inr d'"
proof -
  from h obtain f t old d1 where f: "map_of (fd_farms d) i = Some f" "farm_open now f"
    and t: "debit_within (\<lambda>c. fault (Farm_balance c)) user (fp_chain f) (fp_token f) (Some amount) (fd_accounts d) = Inr t"
    and d1: "load_or_create_stake fault i user (d\<lparr>fd_accounts := t\<rparr>) = Inr (old, d1)"
    and c: "change_stake boost fault now i f user old (old + amount) (total_of f + amount) d1 = Inr d'"
    by (auto simp: stake_tx_def ledger_left total_of_def split: if_split_asm option.split_asm)
  from debit_paid [OF t] have "0 < amount" "paid user (farm_asset f) (- amount) (fd_accounts d) t" by (simp_all add: farm_asset_def)
  with that [OF f] c load_or_create_spec [OF d1] show thesis by simp
qed

lemma stake_tx_trades:
  assumes ok: "farm_ok d" and h: "stake_tx boost fault now i user amount d = Inr d'"
  shows "farm_ok d' \<and> keeps d d' \<and> moved user (farm_asset (the (map_of (fd_farms d) i))) (- amount) (fd_accounts d) (fd_accounts d') (farm_pool d) (farm_pool d')"
proof -
  obtain f t where f: "map_of (fd_farms d) i = Some f" and p: "0 < amount" "paid user (farm_asset f) (- amount) (fd_accounts d) t"
    and c: "change_stake boost fault now i f user (stake_of d (i, user)) (stake_of d (i, user) + amount) (total_of f + amount)
      (with_row (i, user) (d\<lparr>fd_accounts := t\<rparr>)) = Inr d'"
    by (rule stake_tx_split [OF h]) auto
  let ?d = "with_row (i, user) (d\<lparr>fd_accounts := t\<rparr>)"
  have ok1: "farm_ok ?d" using ok f by (intro with_row_ok) simp_all
  have f1: "map_of (fd_farms ?d) i = Some f" "0 \<le> stake_of d (i, user) + amount" using f p(1) stake_of_nonneg [OF ok] by (simp_all add: add_nonneg_nonneg)
  note e = change_stake_effect [OF ok1 f1 _ c]
  have "keeps d ?d" by (simp add: keeps_same)
  then have k: "farm_ok d'" "keeps d d'" "fd_accounts d' = t" using e(1-3) keeps_trans by auto
  have "farm_pool d' x = farm_pool d x + drift (farm_asset f) (- amount) x" for x
    using e(4) [of x] by (simp add: drift_def)
  from moved_paid [OF p(2) this] k f show ?thesis by simp
qed

lemma unstake_tx_split:
  assumes h: "unstake_tx boost fault now i user amount d = Inr d'" and ok: "farm_ok d" and p: "0 < amount"
  obtains f d1 where "map_of (fd_farms d) i = Some f" "map_of (fd_stakes d) (i, user) \<noteq> None" "amount \<le> stake_of d (i, user)"
    "change_stake boost fault now i f user (stake_of d (i, user)) (stake_of d (i, user) - amount) (total_of f - amount) d = Inr d1"
    "paid user (farm_asset f) amount (fd_accounts d1) (fd_accounts d')" "d' = d1\<lparr>fd_accounts := fd_accounts d'\<rparr>"
proof -
  from h obtain f row d1 t where f: "map_of (fd_farms d) i = Some f" and s: "map_of (fd_stakes d) (i, user) = Some row"
    and le: "amount \<le> stored_amount row"
    and c: "change_stake boost fault now i f user (stored_amount row) (stored_amount row - amount)
      (if total_of f - amount < 0 then 0 else total_of f - amount) d = Inr d1"
    and t: "credit_within (\<lambda>c. fault (Farm_balance c)) user (fp_chain f) (fp_token f) (fp_symbol f) (fp_decimals f)
      (Some amount) (fd_accounts d1) = Inr t" and d': "d' = d1\<lparr>fd_accounts := t\<rparr>"
    by (auto simp: unstake_tx_def ledger_left total_of_def Let_def split: if_split_asm option.split_asm)
  have st: "stake_of d (i, user) = stored_amount row" using s by (simp add: stake_of_def tpart_def)
  have "tsum (\<lambda>k t. if k = (i, user) then stored_amount t else 0) (fd_stakes d) \<le> staked_in i d"
    unfolding staked_in_def by (rule tsum_mono) (use farm_okD(4) [OF ok] in auto)
  moreover have "tsum (\<lambda>k t. if k = (i, user) then stored_amount t else 0) (fd_stakes d) = stake_of d (i, user)"
    using finite_dom_map_of [of "fd_stakes d"] s by (simp add: tsum_def st domIff sum.If_cases if_distrib sum.delta cong: if_cong)
  ultimately have "amount \<le> total_of f" using farm_okD(3) [OF ok f] le st by simp
  with that [OF f _ _ _ _ ] c credit_paid(2) [OF t] d' s le st show thesis by (simp add: farm_asset_def)
qed

lemma unstake_tx_trades:
  assumes ok: "farm_ok d" and h: "unstake_tx boost fault now i user amount d = Inr d'" and p: "0 < amount"
  shows "farm_ok d' \<and> keeps d d' \<and> moved user (farm_asset (the (map_of (fd_farms d) i))) amount (fd_accounts d) (fd_accounts d') (farm_pool d) (farm_pool d')"
proof -
  obtain f d1 where f: "map_of (fd_farms d) i = Some f" and le: "amount \<le> stake_of d (i, user)"
    and c: "change_stake boost fault now i f user (stake_of d (i, user)) (stake_of d (i, user) - amount) (total_of f - amount) d = Inr d1"
    and t: "paid user (farm_asset f) amount (fd_accounts d1) (fd_accounts d')" and d': "d' = d1\<lparr>fd_accounts := fd_accounts d'\<rparr>"
    by (rule unstake_tx_split [OF h ok p]) auto
  have le': "0 \<le> stake_of d (i, user) - amount" using le by simp
  note e = change_stake_effect [OF ok f le' _ c]
  have k: "farm_ok d1" "keeps d d1" "fd_accounts d1 = fd_accounts d" using e(1-3) by auto
  have "farm_ok d'" "keeps d d'" "farm_pool d' = farm_pool d1"
    using k(1) keeps_trans [OF k(2)] accounts_irrelevant [where d = d1 and t = "fd_accounts d'"] unfolding d' [symmetric] by auto
  moreover have "farm_pool d1 x = farm_pool d x + drift (farm_asset f) amount x" for x
    using e(4) [of x] by (simp add: drift_def)
  ultimately show ?thesis using moved_paid [of user "farm_asset f" amount "fd_accounts d" "fd_accounts d'" "farm_pool d'" "farm_pool d"] t k(3) f
    by simp
qed

section \<open>Claims\<close>

definition check_settled :: "checkpoint \<Rightarrow> checkpoint \<Rightarrow> bool" where
  "check_settled c c' \<longleftrightarrow> debt_of c' = debt_of c \<and> accrued_of c' + claimed_of c' = accrued_of c + claimed_of c
     \<and> claimed_of c \<le> claimed_of c' \<and> (0 \<le> accrued_of c \<longrightarrow> 0 \<le> accrued_of c')"

text \<open>Only checkpoints changed, and what they owe and paid together did not.\<close>

definition settled_like :: "farm_db \<Rightarrow> farm_db \<Rightarrow> bool" where
  "settled_like d d' \<longleftrightarrow>
     fd_farms d' = fd_farms d \<and> fd_streams d' = fd_streams d \<and> fd_stakes d' = fd_stakes d
     \<and> (distinct (map fst (fd_checks d)) \<longrightarrow> distinct (map fst (fd_checks d')))
     \<and> (\<forall>k. rel_option check_settled (map_of (fd_checks d) k) (map_of (fd_checks d') k))"

lemma check_settled_refl [simp, intro]: "check_settled c c"
  by (simp add: check_settled_def)

lemma check_settled_trans: "check_settled c c1 \<Longrightarrow> check_settled c1 c2 \<Longrightarrow> check_settled c c2"
  by (auto simp: check_settled_def)

lemma settled_like_refl [simp, intro]: "settled_like d d"
  by (auto simp: settled_like_def option.rel_refl)

lemma settled_like_trans:
  assumes "settled_like d d1" "settled_like d1 d2"
  shows "settled_like d d2"
proof -
  have "rel_option check_settled (map_of (fd_checks d) k) (map_of (fd_checks d2) k)" for k
  proof -
    have "rel_option check_settled (map_of (fd_checks d) k) (map_of (fd_checks d1) k)"
      "rel_option check_settled (map_of (fd_checks d1) k) (map_of (fd_checks d2) k)"
      using assms unfolding settled_like_def by blast+
    then show ?thesis using check_settled_trans by (auto simp: option_rel_Some1 option_rel_Some2 elim!: option.rel_cases)
  qed
  then show ?thesis using assms by (simp add: settled_like_def)
qed

lemma settled_like_ok:
  assumes "settled_like d d'" "farm_ok d"
  shows "farm_ok d'" "keeps d d'"
proof -
  have s: "fd_farms d' = fd_farms d" "fd_streams d' = fd_streams d" "fd_stakes d' = fd_stakes d"
    using assms(1) by (simp_all add: settled_like_def)
  then show "keeps d d'" by (intro keeps_same)
  have t: "staked_in i d' = staked_in i d" "streams_in i d' = streams_in i d" for i
    by (simp_all add: staked_in_def streams_in_def s)
  have "j \<in> streams_in (fst k) d \<and> 0 \<le> accrued_of c' \<and> 0 \<le> claimed_of c'" if "map_of (fd_checks d') (k, j) = Some c'" for k j c'
  proof -
    have "rel_option check_settled (map_of (fd_checks d) (k, j)) (map_of (fd_checks d') (k, j))"
      using assms(1) unfolding settled_like_def by blast
    with that obtain c where c: "map_of (fd_checks d) (k, j) = Some c" "check_settled c c'" by (auto simp: option_rel_Some2)
    with farm_okD(6) [OF assms(2) c(1)] show ?thesis by (auto simp: check_settled_def)
  qed
  with farm_okD [OF assms(2)] assms(1) show "farm_ok d'"
    unfolding farm_ok_def t s by (simp add: settled_like_def)
qed

lemma pay_check_effect:
  assumes ok: "farm_ok d" and f: "map_of (fd_farms d) i = Some f" and c: "map_of (fd_checks d) ((i, user), rid) = Some c"
    and h: "pay_check fault i f user token_filter rid c d = Inr (ps, d')"
  shows "settled_like d d'" "trade user (fd_accounts d) (fd_accounts d') (farm_pool d) (farm_pool d')"
    "j \<noteq> rid \<Longrightarrow> map_of (fd_checks d') (k, j) = map_of (fd_checks d) (k, j)"
proof -
  from h obtain r where r: "map_of (fd_streams d) rid = Some r" by (auto simp: pay_check_def split: if_split_asm option.split_asm)
  let ?n = "accrued_of c"
  let ?c = "c\<lparr>ck_accrued := ''0'', ck_claimed := int_string (claimed_of c + ?n)\<rparr>"
  have cases: "d' = d \<or> (\<exists>t. 0 < ?n \<and> paid user (stream_asset d r) ?n (fd_accounts d) t
      \<and> d' = d\<lparr>fd_accounts := t, fd_checks := AList.update ((i, user), rid) ?c (fd_checks d)\<rparr>)"
  proof (cases "d' = d")
    case False
    then obtain t where t: "credit_within (\<lambda>b. fault (Pay_check rid b)) user (fp_chain f) (rw_token r) (rw_symbol r) (rw_decimals r)
        (Some ?n) (fd_accounts d) = Inr t"
      and d': "d' = d\<lparr>fd_accounts := t, fd_checks := AList.update ((i, user), rid) ?c (fd_checks d)\<rparr>"
      using h r by (auto simp: pay_check_def Let_def ledger_left accrued_of_def claimed_of_def split: if_split_asm)
    have "rw_farm r = i" using farm_okD(6) [OF ok c] r by (simp add: streams_in_def)
    then have "stream_asset d r = (fp_chain f, normalize_token (rw_token r))" using f by (simp add: stream_asset_def chain_of_def)
    with credit_paid [OF t] d' show ?thesis by auto
  qed simp
  show "settled_like d d'"
    using cases
  proof
    assume "\<exists>t. 0 < ?n \<and> paid user (stream_asset d r) ?n (fd_accounts d) t
      \<and> d' = d\<lparr>fd_accounts := t, fd_checks := AList.update ((i, user), rid) ?c (fd_checks d)\<rparr>"
    then show ?thesis using c by (auto simp: settled_like_def option.rel_refl distinct_update check_settled_def accrued_of_def claimed_of_def debt_of_def)
  qed simp
  show "j \<noteq> rid \<Longrightarrow> map_of (fd_checks d') (k, j) = map_of (fd_checks d) (k, j)" using cases by auto
  show "trade user (fd_accounts d) (fd_accounts d') (farm_pool d) (farm_pool d')"
    using cases
  proof
    assume "\<exists>t. 0 < ?n \<and> paid user (stream_asset d r) ?n (fd_accounts d) t
      \<and> d' = d\<lparr>fd_accounts := t, fd_checks := AList.update ((i, user), rid) ?c (fd_checks d)\<rparr>"
    then obtain t where t: "paid user (stream_asset d r) ?n (fd_accounts d) t"
      "d' = d\<lparr>fd_accounts := t, fd_checks := AList.update ((i, user), rid) ?c (fd_checks d)\<rparr>" by blast
    have s: "stream_asset d' = stream_asset d" "check_asset d' = check_asset d"
      by (auto simp: fun_eq_iff check_asset_def stream_asset_def chain_of_def t(2) cong: option.map_cong)
    have "check_asset d rid = Some (stream_asset d r)" using r by (simp add: check_asset_def)
    then have "farm_pool d' x = farm_pool d x + drift (stream_asset d r) ?n x" for x
      unfolding farm_pool_def s using c
      by (simp add: t(2) tsum_upd_known drift_def) (simp add: claimed_of_def)
    from moved_trade [OF moved_paid [OF t(1) this]] show ?thesis by (simp add: t(2))
  qed simp
qed

lemma checks_of_map:
  assumes "distinct (map fst (fd_checks d))"
  shows "distinct (map fst (checks_of k d))" "(j, c) \<in> set (checks_of k d) \<longleftrightarrow> map_of (fd_checks d) (k, j) = Some c"
proof -
  have "inj_on (\<lambda>x. snd (fst x)) (set (filter (\<lambda>x. fst (fst x) = k) (fd_checks d)))"
  proof (rule inj_onI)
    fix x y assume h: "x \<in> set (filter (\<lambda>x. fst (fst x) = k) (fd_checks d))" "y \<in> set (filter (\<lambda>x. fst (fst x) = k) (fd_checks d))"
      "snd (fst x) = snd (fst y)"
    then have "fst x = fst y" by (auto simp: prod_eq_iff)
    moreover have "map_of (fd_checks d) (fst x) = Some (snd x)" "map_of (fd_checks d) (fst y) = Some (snd y)"
      using h assms by simp_all
    ultimately show "x = y" by (metis option.inject prod_eqI)
  qed
  moreover have "distinct (filter (\<lambda>x. fst (fst x) = k) (fd_checks d))" using assms by (simp add: distinct_map)
  ultimately show "distinct (map fst (checks_of k d))" by (simp add: checks_of_def distinct_map comp_def)
  show "(j, c) \<in> set (checks_of k d) \<longleftrightarrow> map_of (fd_checks d) (k, j) = Some c"
    unfolding map_of_eq_Some_iff [OF assms] by (cases k) (auto simp: checks_of_def image_iff)
qed

lemma pay_checks_effect:
  assumes "pay_checks fault i f user token_filter rows d = Inr (ps, d')" "farm_ok d" "map_of (fd_farms d) i = Some f"
    "distinct (map fst rows)" "\<And>x. x \<in> set rows \<Longrightarrow> map_of (fd_checks d) ((i, user), fst x) = Some (snd x)"
  shows "settled_like d d' \<and> trade user (fd_accounts d) (fd_accounts d') (farm_pool d) (farm_pool d')"
  using assms
proof (induction rows arbitrary: d ps)
  case (Cons x rows)
  obtain rid c where x: "x = (rid, c)" by (cases x)
  from Cons.prems(1) obtain qs d1 rs where p: "pay_check fault i f user token_filter rid c d = Inr (qs, d1)"
    and r: "pay_checks fault i f user token_filter rows d1 = Inr (rs, d')" by (auto simp: x)
  have c: "map_of (fd_checks d) ((i, user), rid) = Some c" using Cons.prems(5) [of x] by (simp add: x)
  note e = pay_check_effect [OF Cons.prems(2,3) c p]
  have "map_of (fd_checks d1) ((i, user), fst y) = Some (snd y)" if "y \<in> set rows" for y
    using e(3) [of "fst y" "(i, user)"] Cons.prems(4) Cons.prems(5) [of y] that by (force simp: x)
  moreover have "map_of (fd_farms d1) i = Some f" using e(1) Cons.prems(3) by (simp add: settled_like_def)
  ultimately have "settled_like d1 d' \<and> trade user (fd_accounts d1) (fd_accounts d') (farm_pool d1) (farm_pool d')"
    using Cons.IH [OF r settled_like_ok(1) [OF e(1) Cons.prems(2)]] Cons.prems(4) by simp
  with e(1,2) show ?case using settled_like_trans trade_trans by blast
qed simp

lemma claim_tx_split:
  assumes h: "claim_rewards_tx boost fault now i user token_filter d = Inr (ps, d')" and ok: "farm_ok d"
  obtains f d1 where "map_of (fd_farms d) i = Some f" "map_of (fd_stakes d) (i, user) \<noteq> None"
    "accrued_to i f user (effective_amount (stake_of d (i, user)) (boost_bps_for boost user (stake_of d (i, user))))
      (effective_amount (stake_of d (i, user)) (boost_bps_for boost user (stake_of d (i, user)))) now (streams_in i d) d d1"
    "farm_ok d1" "settled_like d1 d'" "trade user (fd_accounts d1) (fd_accounts d') (farm_pool d1) (farm_pool d')"
proof -
  let ?a = "stake_of d (i, user)"
  let ?e = "effective_amount ?a (boost_bps_for boost user ?a)"
  from h obtain f row d1 where f: "map_of (fd_farms d) i = Some f" and s: "map_of (fd_stakes d) (i, user) = Some row"
    and a: "accrue_stake fault i f user ?e ?e now d = Inr d1"
    and p: "pay_checks fault i f user token_filter (checks_of (i, user) d1) d1 = Inr (ps, d')"
    by (auto simp: claim_rewards_tx_def stake_of_def tpart_def Let_def split: if_split_asm option.split_asm)
  note sp = accrue_stake_spec [OF a farm_okD(1) [OF ok]]
  note ok1 = accrued_ok [OF ok f sp]
  note m = checks_of_map [OF farm_okD(2) [OF ok1], where k = "(i, user)"]
  have f1: "map_of (fd_farms d1) i = Some f" using f by (simp add: accrued_toD(1) [OF sp])
  have "map_of (fd_checks d1) ((i, user), fst x) = Some (snd x)" if "x \<in> set (checks_of (i, user) d1)" for x
    using that m(2) [of "fst x" "snd x"] by simp
  from pay_checks_effect [OF p ok1 f1 m(1) this] that [OF f _ sp ok1] s show thesis by simp
qed

lemma claim_tx_trades:
  assumes ok: "farm_ok d" and h: "claim_rewards_tx boost fault now i user token_filter d = Inr (ps, d')"
  shows "farm_ok d' \<and> keeps d d' \<and> trade user (fd_accounts d) (fd_accounts d') (farm_pool d) (farm_pool d')"
proof (rule claim_tx_split [OF h ok])
  fix f d1
  let ?a = "stake_of d (i, user)"
  let ?e = "effective_amount ?a (boost_bps_for boost user ?a)"
  assume sp: "accrued_to i f user ?e ?e now (streams_in i d) d d1" and ok1: "farm_ok d1" and st: "settled_like d1 d'"
    and tr: "trade user (fd_accounts d1) (fd_accounts d') (farm_pool d1) (farm_pool d')"
  have "farm_pool d1 = farm_pool d" by (rule ext) (rule accrued_pool [OF ok sp])
  with tr settled_like_ok [OF st ok1] keeps_trans [OF accrued_keeps [OF sp]] accrued_toD(3) [OF sp] show ?thesis by simp
qed

section \<open>Edits, creation and funding\<close>

text \<open>What a request that moves no tokens may do: nothing the invariant or the pool depends on.\<close>

definition farm_quiet :: "farm_db \<Rightarrow> farm_db \<Rightarrow> bool" where
  "farm_quiet d d' \<longleftrightarrow> farm_ok d' \<and> keeps d d' \<and> fd_accounts d' = fd_accounts d \<and> farm_pool d' = farm_pool d
     \<and> fd_stakes d' = fd_stakes d \<and> fd_checks d' = fd_checks d
     \<and> (\<forall>j. map_of (fd_streams d) j \<noteq> None \<longrightarrow> map_of (fd_streams d') j = map_of (fd_streams d) j)
     \<and> (\<forall>k. map_of (fd_stakes d) k \<noteq> None \<longrightarrow> streams_in (fst k) d' = streams_in (fst k) d)"

lemma farm_quiet_refl [simp]: "farm_ok d \<Longrightarrow> farm_quiet d d"
  by (simp add: farm_quiet_def)

lemma modify_farm_quiet:
  assumes ok: "farm_ok d" and g: "\<And>f. fp_total (g f) = fp_total f \<and> fp_chain (g f) = fp_chain f \<and> fp_token (g f) = fp_token f"
  shows "farm_quiet d (modify_farm i g d)"
proof (cases "map_of (fd_farms d) i")
  case None
  then show ?thesis using ok by (simp add: modify_farm_def)
next
  case (Some f)
  let ?d = "d\<lparr>fd_farms := AList.update i (g f) (fd_farms d)\<rparr>"
  have t: "staked_in j ?d = staked_in j d" "streams_in j ?d = streams_in j d" for j by (simp_all add: staked_in_def streams_in_def)
  have s: "stream_asset ?d = stream_asset d" using Some g by (simp add: fun_eq_iff stream_asset_def chain_of_def)
  then have c: "check_asset ?d = check_asset d" by (intro ext) (simp add: check_asset_def)
  have "tsum (\<lambda>_ f. if farm_asset f = x then total_of f else 0) (fd_farms ?d)
      = tsum (\<lambda>_ f. if farm_asset f = x then total_of f else 0) (fd_farms d)" for x
    using g by (simp add: tsum_upd_known [OF Some] farm_asset_def total_of_def)
  then have "farm_pool ?d = farm_pool d" by (intro ext) (simp add: farm_pool_def s c)
  moreover have "farm_ok ?d"
    using farm_okD [OF ok] Some g unfolding farm_ok_def t by (auto simp: total_of_def)
  moreover have "keeps d ?d" using Some g by (simp add: keeps_def farm_key_def stream_key_def)
  ultimately show ?thesis using Some t(2) by (simp add: modify_farm_def farm_quiet_def)
qed

lemma with_farm_cases:
  assumes "with_farm pu fault raw pre k d0 d = (d', r)"
  shows "d' = d \<or> (\<exists>i f. k i f = (d', r) \<and> map_of (fd_farms d0) i = Some f \<and> pre = None)"
  using assms by (auto simp: with_farm_def load_farm_def split: option.split_asm sum.split_asm if_split_asm)

lemma check_farm_update_edit:
  assumes "check_farm_update pu pt gauge_exists r f0 = Inr g"
  shows "fp_total (g f) = fp_total f \<and> fp_chain (g f) = fp_chain f \<and> fp_token (g f) = fp_token f"
  using assms unfolding check_farm_update_def Let_def by (simp split: if_split_asm) auto

lemma update_farm_quiet:
  assumes ok: "farm_ok d" and h: "update_farm pu pt gauge_exists fault raw body d0 d = (d', r)"
  shows "farm_quiet d d'"
proof (cases "d' = d")
  case False
  with with_farm_cases [OF h [unfolded update_farm_def]] obtain i f0 where
    k: "(case check_farm_update pu pt gauge_exists (the body) f0 of Inl text \<Rightarrow> (d, Error_reply 400 text)
        | Inr edit \<Rightarrow> if fault Update_farm then (d, Error_reply 500 ''failed to update farm'')
            else let d' = modify_farm i edit d
              in (d', if fault Reload_farm then Error_reply 500 ''failed to reload farm''
                      else (case map_of (fd_farms d') i of None \<Rightarrow> Error_reply 500 ''failed to reload farm''
                            | Some row \<Rightarrow> Ok_reply 200 row))) = (d', r)" by blast
  then obtain g where "check_farm_update pu pt gauge_exists (the body) f0 = Inr g" "d' = modify_farm i g d"
    using False by (cases "check_farm_update pu pt gauge_exists (the body) f0") (auto simp: Let_def split: if_split_asm)
  then show ?thesis using modify_farm_quiet [OF ok] check_farm_update_edit by simp
qed (use ok in simp)

lemma delete_farm_quiet:
  assumes ok: "farm_ok d" and h: "delete_farm pu fault raw d0 d = (d', r)"
  shows "farm_quiet d d'"
proof -
  have "d' = d \<or> (\<exists>i. d' = modify_farm i (\<lambda>row. row\<lparr>fp_status := farm_closed\<rparr>) d)"
    using with_farm_cases [OF h [unfolded delete_farm_def]] by (auto split: if_split_asm)
  then show ?thesis using modify_farm_quiet [OF ok] ok by auto
qed

definition new_stream :: "string \<Rightarrow> stream \<Rightarrow> bool" where
  "new_stream i r \<longleftrightarrow> rw_farm r = i \<and> rw_acc r = ''0'' \<and> rw_funded r = ''0'' \<and> rw_distributed r = ''0''"

lemma check_streams_new:
  "check_streams hex i start seen qs = Inr rs \<Longrightarrow> r \<in> set rs \<Longrightarrow> new_stream i r"
proof (induction qs arbitrary: seen rs)
  case (Cons q qs)
  then show ?case
    by (auto simp: new_stream_def Let_def split: option.split_asm if_split_asm sum.split_asm)
qed simp

lemma add_stream_quiet:
  assumes ok: "farm_ok d" and n: "new_stream i r" and f: "map_of (fd_farms d) i \<noteq> None" and j: "map_of (fd_streams d) j = None"
    and ns: "\<forall>k. map_of (fd_stakes d) k \<noteq> None \<longrightarrow> fst k \<noteq> i"
  shows "farm_quiet d (d\<lparr>fd_streams := AList.update j r (fd_streams d)\<rparr>)"
proof -
  let ?d = "d\<lparr>fd_streams := AList.update j r (fd_streams d)\<rparr>"
  have z: "funded_of r = 0" "stream_ok r" "rw_farm r = i"
    using n by (simp_all add: new_stream_def stream_ok_def funded_of_def acc_of_def distributed_of_def)
  have t: "staked_in k ?d = staked_in k d" for k by (simp add: staked_in_def)
  have no: "k \<noteq> j" if "map_of (fd_checks d) (p, k) = Some c" for p k c
    using farm_okD(6) [OF ok that] j by (auto simp: streams_in_def)
  have s: "stream_asset ?d = stream_asset d" by (simp add: fun_eq_iff stream_asset_def chain_of_def)
  have c: "check_asset ?d k = check_asset d k" if "k \<noteq> j" for k using that by (simp add: check_asset_def s)
  have "tsum (\<lambda>k c. if check_asset ?d (snd k) = Some x then claimed_of c else 0) (fd_checks d)
      = tsum (\<lambda>k c. if check_asset d (snd k) = Some x then claimed_of c else 0) (fd_checks d)" for x
    by (rule tsum_same) (use no c in \<open>metis prod.collapse\<close>)
  then have p: "farm_pool ?d = farm_pool d" using j z by (intro ext) (simp add: farm_pool_def s tsum_upd_new)
  have "k \<in> streams_in q ?d" if "k \<in> streams_in q d" for k q using that j by (auto simp: streams_in_def)
  then have "farm_ok ?d"
    using farm_okD [OF ok] f z unfolding farm_ok_def t by (auto simp: distinct_update)
  moreover have "streams_in (fst k) ?d = streams_in (fst k) d" if "map_of (fd_stakes d) k \<noteq> None" for k
  proof -
    have "fst k \<noteq> i" using ns that by blast
    then show ?thesis using z(3) j by (auto simp: streams_in_def)
  qed
  ultimately show ?thesis using p j by (auto simp: farm_quiet_def keeps_def farm_key_def stream_key_def)
qed

lemma farm_quiet_trans: "farm_quiet d d1 \<Longrightarrow> farm_quiet d1 d2 \<Longrightarrow> farm_quiet d d2"
  using keeps_trans [of d d1 d2] by (simp add: farm_quiet_def)

lemma add_streams_quiet:
  assumes "add_streams fault new_ids n rs d = Some d'" "farm_ok d" "map_of (fd_farms d) i \<noteq> None" "\<forall>r \<in> set rs. new_stream i r"
    "\<forall>k. map_of (fd_stakes d) k \<noteq> None \<longrightarrow> fst k \<noteq> i"
  shows "farm_quiet d d'"
  using assms
proof (induction rs arbitrary: n d)
  case (Cons r rs)
  let ?d = "d\<lparr>fd_streams := AList.update (new_ids n) r (fd_streams d)\<rparr>"
  have q: "farm_quiet d ?d" using Cons.prems by (intro add_stream_quiet) (auto split: if_split_asm)
  have "farm_quiet ?d d'"
    using Cons.IH [of "Suc n" ?d] Cons.prems q by (auto simp: farm_quiet_def split: if_split_asm)
  with q show ?case by (rule farm_quiet_trans)
qed simp

lemma new_farm_quiet:
  assumes ok: "farm_ok d" and new: "map_of (fd_farms d) i = None" and z: "total_of f = 0"
  shows "farm_quiet d (d\<lparr>fd_farms := AList.update i f (fd_farms d)\<rparr>)"
proof -
  let ?d = "d\<lparr>fd_farms := AList.update i f (fd_farms d)\<rparr>"
  have t: "staked_in k ?d = staked_in k d" "streams_in k ?d = streams_in k d" for k by (simp_all add: staked_in_def streams_in_def)
  have ns: "fst k \<noteq> i" if "map_of (fd_stakes d) k = Some v" for k v using farm_okD(4) [OF ok that] new by auto
  then have e: "staked_in i d = 0"
    using tsum_same [of "fd_stakes d" "\<lambda>k t. if fst k = i then stored_amount t else 0" "\<lambda>_ _. 0"]
    by (simp add: staked_in_def) (simp add: tsum_def)
  have fr: "rw_farm r \<noteq> i" if "map_of (fd_streams d) j = Some r" for j r using farm_okD(5) [OF ok that] new by auto
  then have s: "stream_asset ?d r = stream_asset d r" if "map_of (fd_streams d) j = Some r" for j r
    using that by (simp add: stream_asset_def chain_of_def)
  then have c: "check_asset ?d j = check_asset d j" for j
    by (cases "map_of (fd_streams d) j") (simp_all add: check_asset_def)
  have "tsum (\<lambda>_ r. if stream_asset ?d r = x then funded_of r else 0) (fd_streams d)
      = tsum (\<lambda>_ r. if stream_asset d r = x then funded_of r else 0) (fd_streams d)" for x
    by (rule tsum_same) (simp add: s)
  then have "farm_pool ?d = farm_pool d" using new z by (intro ext) (simp add: farm_pool_def c tsum_upd_new)
  moreover have "farm_ok ?d"
    using farm_okD [OF ok] z e new unfolding farm_ok_def t by auto
  ultimately show ?thesis using new t(2) by (auto simp: farm_quiet_def keeps_def farm_key_def stream_key_def)
qed

lemma create_farm_quiet:
  assumes ok: "farm_ok d" and h: "create_farm pu hex pt gauge_exists fault i new_ids user body d0 d = (d', r)"
  shows "farm_quiet d d'"
proof (cases "d' = d")
  case False
  then obtain q f rs where c: "check_farm pu hex pt gauge_exists i user q = Inr (f, rs)" and t: "create_farm_tx fault i new_ids f rs d = Some d'"
    using h by (auto simp: create_farm_def split: option.split_asm sum.split_asm prod.split_asm if_split_asm)
  have z: "total_of f = 0" "\<forall>r \<in> set rs. new_stream i r"
    using c check_streams_new by (auto simp: check_farm_def Let_def total_of_def split: option.split_asm if_split_asm)
  have n: "map_of (fd_farms d) i = None" and a: "add_streams fault new_ids 0 rs (d\<lparr>fd_farms := AList.update i f (fd_farms d)\<rparr>) = Some d'"
    using t by (auto simp: create_farm_tx_def map_of_eq_None_iff split: if_split_asm)
  have ns: "fst k \<noteq> i" if "map_of (fd_stakes d) k \<noteq> None" for k using that farm_okD(4) [OF ok, of k] n by auto
  have q: "farm_quiet d (d\<lparr>fd_farms := AList.update i f (fd_farms d)\<rparr>)" by (rule new_farm_quiet [OF ok n z(1)])
  moreover have "farm_quiet (d\<lparr>fd_farms := AList.update i f (fd_farms d)\<rparr>) d'"
    using q z(2) ns by (intro add_streams_quiet [OF a]) (auto simp: farm_quiet_def simp del: split_paired_All)
  ultimately show ?thesis by (rule farm_quiet_trans)
qed (use ok in simp)

lemma fund_tx_trades:
  assumes ok: "farm_ok d" and h: "fund_stream_tx fault user chain token rid amount d = Inr d'"
    and r: "stream_key d rid = Some (i, token)" and f: "farm_key d i = Some (chain, tok)"
  shows "farm_ok d' \<and> keeps d d' \<and> trade user (fd_accounts d) (fd_accounts d') (farm_pool d) (farm_pool d')"
proof -
  from h obtain s t where s: "map_of (fd_streams d) rid = Some s"
    and t: "debit_within (\<lambda>c. fault (Farm_balance c)) user chain token (Some amount) (fd_accounts d) = Inr t"
    and d': "d' = d\<lparr>fd_accounts := t, fd_streams := AList.update rid (s\<lparr>rw_funded := int_string (funded_of s + amount)\<rparr>) (fd_streams d)\<rparr>"
    by (auto simp: fund_stream_tx_def ledger_left funded_of_def split: if_split_asm option.split_asm)
  let ?s = "s\<lparr>rw_funded := int_string (funded_of s + amount)\<rparr>"
  have k: "rw_farm s = i" "rw_token s = token" "chain_of d i = chain"
    using r f s by (auto simp: stream_key_def farm_key_def chain_of_def)
  have fu: "funded_of ?s = funded_of s + amount" by (simp add: funded_of_def)
  have sa: "stream_asset d' = stream_asset d" by (simp add: fun_eq_iff stream_asset_def chain_of_def d')
  have c: "check_asset d' = check_asset d" using s by (auto simp: fun_eq_iff check_asset_def sa) (simp_all add: d' stream_asset_def)
  have p: "farm_pool d' x = farm_pool d x + drift (chain, normalize_token token) (- amount) x" for x
    using s fu k unfolding farm_pool_def c sa by (simp add: d' tsum_upd_known drift_def stream_asset_def)
  have si: "streams_in q d' = streams_in q d" "staked_in q d' = staked_in q d" for q
    using s by (auto simp: streams_in_def staked_in_def d' split: if_split_asm)
  have "stream_ok ?s" using farm_okD(5) [OF ok s] debit_paid(1) [OF t] fu by (auto simp: stream_ok_def acc_of_def distributed_of_def)
  then have "farm_ok d'"
    using farm_okD [OF ok] s unfolding farm_ok_def si by (auto simp: d' distinct_update)
  moreover have "keeps d d'" using s by (auto simp: keeps_def farm_key_def stream_key_def d')
  moreover have "trade user (fd_accounts d) (fd_accounts d') (farm_pool d) (farm_pool d')"
    using moved_trade [OF moved_paid [OF debit_paid(2) [OF t] p]] by (simp add: d')
  ultimately show ?thesis by blast
qed

section \<open>Histories\<close>

text \<open>
  The states that the farms went through, the latest first. A request is served in the latest state;
  its early reads may have seen any state of the history. A step carries the boost source that the
  request saw and counts the stakes that it changed.
\<close>

type_synonym boost_source = "(string \<Rightarrow> int \<Rightarrow> int option) option"

inductive farm_step :: "boost_source \<Rightarrow> nat \<Rightarrow> farm_db list \<Rightarrow> farm_db list \<Rightarrow> bool" where
  create: "d0 \<in> set h \<Longrightarrow> create_farm pu hex pt gauges fault i new_ids user body d0 (hd h) = (d', r) \<Longrightarrow> farm_step boost 0 h (d' # h)"
| update: "d0 \<in> set h \<Longrightarrow> update_farm pu pt gauges fault raw edit d0 (hd h) = (d', r) \<Longrightarrow> farm_step boost 0 h (d' # h)"
| delete: "d0 \<in> set h \<Longrightarrow> delete_farm pu fault raw d0 (hd h) = (d', t) \<Longrightarrow> farm_step boost 0 h (d' # h)"
| fund: "d0 \<in> set h \<Longrightarrow> fund_farm_reward pu hex on fault user raw request d0 (hd h) = (d', q) \<Longrightarrow> farm_step boost 0 h (d' # h)"
| stake: "d0 \<in> set h \<Longrightarrow> stake pu boost on fault now user raw amount d0 (hd h) = (d', n) \<Longrightarrow> farm_step boost 1 h (d' # h)"
| unstake: "d0 \<in> set h \<Longrightarrow> unstake pu boost on fault now user raw amount d0 (hd h) = (d', n) \<Longrightarrow> farm_step boost 1 h (d' # h)"
| claim: "d0 \<in> set h \<Longrightarrow> claim_rewards pu hex boost on fault now user raw tok d0 (hd h) = (d', ps) \<Longrightarrow> farm_step boost 0 h (d' # h)"

definition farm_history :: "farm_db list \<Rightarrow> bool" where
  "farm_history h \<longleftrightarrow> h \<noteq> [] \<and> (\<forall>d \<in> set h. farm_ok d \<and> keeps d (hd h))"

text \<open>What one request does to the latest state.\<close>

inductive farm_served :: "boost_source \<Rightarrow> nat \<Rightarrow> farm_db \<Rightarrow> farm_db \<Rightarrow> bool" where
  unchanged: "farm_served boost n d d"
| quiet: "farm_quiet d d' \<Longrightarrow> farm_served boost 0 d d'"
| funded: "fund_stream_tx fault user chain token rid amount d = Inr d' \<Longrightarrow> stream_key d rid = Some (i, token) \<Longrightarrow>
    farm_key d i = Some (chain, tok) \<Longrightarrow> farm_served boost 0 d d'"
| staked: "stake_tx boost fault now i user amount d = Inr d' \<Longrightarrow> farm_served boost 1 d d'"
| unstaked: "unstake_tx boost fault now i user amount d = Inr d' \<Longrightarrow> 0 < amount \<Longrightarrow> farm_served boost 1 d d'"
| claimed: "claim_rewards_tx boost fault now i user token_filter d = Inr (ps, d') \<Longrightarrow> farm_served boost 0 d d'"

lemma positive_amount_pos: "positive_token_amount raw = Some n \<Longrightarrow> 0 < n"
  by (auto simp: positive_token_amount_def split: sum.split_asm if_split_asm)

lemma fund_served:
  assumes h: "fund_farm_reward pu hex on fault user raw body d0 d = (d', r)" and k: "keeps d0 d" and ok0: "farm_ok d0"
  shows "farm_served boost 0 d d'"
proof (cases "d' = d")
  case False
  from with_farm_cases [OF h [unfolded fund_farm_reward_def Let_def]] False obtain i f where f: "map_of (fd_farms d0) i = Some f"
    and b: "(case token_key_or_native hex (fst (the body)) of
           None \<Rightarrow> (d, Error_reply 400 ''token address is not a valid address'')
         | Some token \<Rightarrow>
             (case positive_token_amount (snd (the body)) of
                None \<Rightarrow> (d, Error_reply 400 ''amount must be a positive integer'')
              | Some amount \<Rightarrow>
                  (case (if fault Find_stream then None else find (\<lambda>x. rw_token (snd x) = token) (streams_of i d0)) of
                     None \<Rightarrow> (d, Error_reply 404 ''this farm has no reward stream for that token'')
                   | Some (rid, s) \<Rightarrow>
                       (case fund_stream_tx fault user (fp_chain f) token rid amount d of
                          Inr d' \<Rightarrow> (d', Ok_reply 200 (token, amount))
                        | Inl Farm_short \<Rightarrow> (d, Error_reply 409 ''insufficient balance to fund this reward stream'')
                        | Inl _ \<Rightarrow> (d, Error_reply 500 ''failed to record the funding''))))) = (d', r)" by blast
  obtain token where t: "token_key_or_native hex (fst (the body)) = Some token" using b False by (auto split: option.split_asm)
  obtain amount where a: "positive_token_amount (snd (the body)) = Some amount" using b False t by (auto split: option.split_asm)
  obtain rid s where s: "find (\<lambda>x. rw_token (snd x) = token) (streams_of i d0) = Some (rid, s)"
    and k2: "(case fund_stream_tx fault user (fp_chain f) token rid amount d of
                          Inr d' \<Rightarrow> (d', Ok_reply 200 (token, amount))
                        | Inl Farm_short \<Rightarrow> (d, Error_reply 409 ''insufficient balance to fund this reward stream'')
                        | Inl _ \<Rightarrow> (d, Error_reply 500 ''failed to record the funding'')) = (d', r)"
    using b False unfolding t a by (auto split: option.split_asm if_split_asm)
  have tx: "fund_stream_tx fault user (fp_chain f) token rid amount d = Inr d'"
    using k2 False by (auto split: sum.split_asm farm_error.split_asm)
  have "map_of (fd_streams d0) rid = Some s" "rw_farm s = i" "rw_token s = token"
    using find_SomeD [OF s] streams_of_map(2) [OF farm_okD(1) [OF ok0], of "(rid, s)" i] by simp_all
  then have "stream_key d rid = Some (i, token)" "farm_key d i = Some (fp_chain f, fp_token f)"
    using k f by (simp_all add: keeps_def stream_key_def farm_key_def)
  from farm_served.funded [OF tx this] show ?thesis .
qed (simp add: farm_served.unchanged)

lemma stake_served:
  assumes "stake pu boost on fault now user raw body d0 d = (d', r)"
  shows "farm_served boost 1 d d'"
proof -
  have "d' = d \<or> (\<exists>i amount. stake_tx boost fault now i user amount d = Inr d')"
    using with_farm_cases [OF assms [unfolded stake_def]] by (auto simp: Let_def split: option.split_asm sum.split_asm)
  then show ?thesis using farm_served.staked farm_served.unchanged by blast
qed

lemma unstake_served:
  assumes "unstake pu boost on fault now user raw body d0 d = (d', r)"
  shows "farm_served boost 1 d d'"
proof (cases "d' = d")
  case False
  then obtain i f where pre: "amount_pre user on body = (None :: int reply option)"
    and k: "(case unstake_tx boost fault now i user (the (positive_token_amount (the body))) d of
          Inl e \<Rightarrow> (d, unstake_reply e) | Inr d' \<Rightarrow> (d', Ok_reply 200 (the (positive_token_amount (the body))))) = (d', r)"
    using with_farm_cases [OF assms [unfolded unstake_def Let_def]] by blast
  have "positive_token_amount (the body) \<noteq> None"
    using pre by (auto simp: amount_pre_def farm_pre_def split: if_split_asm)
  then obtain n where n: "positive_token_amount (the body) = Some n" by auto
  then have "unstake_tx boost fault now i user n d = Inr d'" using k False by (auto split: sum.split_asm)
  with positive_amount_pos [OF n] show ?thesis using farm_served.unstaked by blast
qed (simp add: farm_served.unchanged)

lemma claim_served:
  assumes "claim_rewards pu hex boost on fault now user raw body d0 d = (d', r)"
  shows "farm_served boost 0 d d'"
proof (cases "d' = d")
  case False
  with with_farm_cases [OF assms [unfolded claim_rewards_def Let_def]] obtain i filter where
    "(case filter of
          None \<Rightarrow> (d, Error_reply 400 ''token address is not a valid address'')
        | Some token_filter \<Rightarrow>
            (case claim_rewards_tx boost fault now i user token_filter d of
               Inl e \<Rightarrow> (d, claim_rewards_reply e)
             | Inr (payouts, d') \<Rightarrow> (d', Ok_reply 200 payouts))) = (d', r)" by blast
  then obtain tf ps where "claim_rewards_tx boost fault now i user tf d = Inr (ps, d')"
    using False by (auto split: option.split_asm sum.split_asm prod.split_asm)
  then show ?thesis by (rule farm_served.claimed)
qed (simp add: farm_served.unchanged)

lemma farm_step_served:
  assumes st: "farm_step boost n h h'" and ok: "farm_history h"
  shows "\<exists>d'. h' = d' # h \<and> farm_served boost n (hd h) d'"
proof -
  have d: "farm_ok (hd h)" using ok by (simp add: farm_history_def)
  have d0: "farm_ok d0 \<and> keeps d0 (hd h)" if "d0 \<in> set h" for d0 using ok that by (simp add: farm_history_def)
  from st show ?thesis
  proof cases
    case create with create_farm_quiet [OF d] show ?thesis by (blast intro: farm_served.quiet)
  next
    case update with update_farm_quiet [OF d] show ?thesis by (blast intro: farm_served.quiet)
  next
    case delete with delete_farm_quiet [OF d] show ?thesis by (blast intro: farm_served.quiet)
  next
    case (fund e) with fund_served d0 show ?thesis by blast
  next
    case stake with stake_served show ?thesis by blast
  next
    case unstake with unstake_served show ?thesis by blast
  next
    case claim with claim_served show ?thesis by blast
  qed
qed

lemma served_trades:
  assumes "farm_served boost n d d'" "farm_ok d"
  shows "farm_ok d' \<and> keeps d d' \<and> (\<exists>user. trade user (fd_accounts d) (fd_accounts d') (farm_pool d) (farm_pool d'))"
  using assms
proof cases
  case quiet
  then show ?thesis by (auto simp: farm_quiet_def)
next
  case funded
  then show ?thesis using fund_tx_trades [OF assms(2)] by blast
next
  case staked
  then show ?thesis using stake_tx_trades [OF assms(2)] moved_trade by blast
next
  case unstaked
  then show ?thesis using unstake_tx_trades [OF assms(2)] moved_trade by blast
next
  case claimed
  then show ?thesis using claim_tx_trades [OF assms(2)] by blast
qed auto

lemma history_grows:
  assumes "farm_history h" "farm_ok d'" "keeps (hd h) d'"
  shows "farm_history (d' # h)"
  using assms keeps_trans by (auto simp: farm_history_def)

definition farm_request :: "farm_db list \<Rightarrow> farm_db list \<Rightarrow> bool" where
  "farm_request h h' \<longleftrightarrow> (\<exists>boost n. farm_step boost n h h')"

interpretation farms: custody "\<lambda>h. fd_accounts (hd h)" "\<lambda>h. farm_pool (hd h)" farm_history farm_request
proof
  fix h h'
  assume "farm_request h h'" and ok: "farm_history h"
  then obtain boost n where "farm_step boost n h h'" by (auto simp: farm_request_def)
  from farm_step_served [OF this ok] obtain d' where d': "h' = d' # h" "farm_served boost n (hd h) d'" by blast
  have "farm_ok (hd h)" using ok by (simp add: farm_history_def)
  from served_trades [OF d'(2) this] history_grows [OF ok] d'(1)
  show "farm_history h' \<and> (\<exists>user. trade user (fd_accounts (hd h)) (fd_accounts (hd h')) (farm_pool (hd h)) (farm_pool (hd h')))"
    by auto
qed

section \<open>Claims\<close>

text \<open>C24: The books of the farms agree over every run of interleaved requests: the total of a farm is
  the sum of the stakes in it, no stake is negative, and no stream ever counts more as distributed
  than was funded.\<close>

theorem farm_books_agree:
  assumes "farm_request\<^sup>*\<^sup>* [d] h" and "farm_ok d"
  shows "(\<forall>i f. map_of (fd_farms (hd h)) i = Some f \<longrightarrow> stored_amount (fp_total f) = staked_in i (hd h))
    \<and> (\<forall>k. 0 \<le> stake_of (hd h) k)
    \<and> (\<forall>j r. map_of (fd_streams (hd h)) j = Some r \<longrightarrow> 0 \<le> distributed_of r \<and> distributed_of r \<le> funded_of r)"
proof -
  have "farm_history h" using farms.run_ok [OF assms(1)] assms(2) by (simp add: farm_history_def)
  then have "farm_ok (hd h)" by (simp add: farm_history_def)
  then show ?thesis
    using farm_okD(3,5) [of "hd h"] stake_of_nonneg [of "hd h"] by (auto simp: stream_ok_def total_of_def simp del: split_paired_All)
qed

text \<open>C25: Tokens are conserved over every run of interleaved requests: for every asset, what finitely
  many users hold on the ledger, plus the stakes and the funds of the streams less what was claimed,
  never changes.\<close>

theorem farms_conserve_tokens:
  assumes "farm_request\<^sup>*\<^sup>* [d] h" and "farm_ok d"
  shows "\<exists>V. finite V \<and> (\<forall>U asset. finite U \<longrightarrow> V \<subseteq> U \<longrightarrow>
    holdings_of U asset (fd_accounts (hd h)) + farm_pool (hd h) asset
      = holdings_of U asset (fd_accounts d) + farm_pool d asset)"
  using farms.run_conserves [OF assms(1)] assms(2) by (simp add: farm_history_def)

end
