(* ===== verification/Farm_Solvency.thy ===== *)
theory Farm_Solvency
  imports Farm_Props Go_Duration
begin

text \<open>
  What a stream owes. The weight of a stream is, scaled, what its stakers were paid and can claim: the
  accrued and claimed amounts less the debts, plus the shares at the accumulator's value. An interval
  adds to it no more than it counts as distributed, a claim leaves it, and a change of a stake rounds
  it up by less than one unit. So without a boost the stakers of a stream receive at most what was
  distributed and one smallest unit for each change of a stake. Two runs show that the bound is no
  better than that, and that a boost which changes between two settlements breaks it.
\<close>

section \<open>Weights\<close>

definition owed_part :: "(string \<times> string \<Rightarrow> int) \<Rightarrow> int \<Rightarrow> checkpoint \<Rightarrow> string \<times> string \<Rightarrow> int" where
  "owed_part a A c k = acc_scale * (accrued_of c + claimed_of c - debt_of c) + a k * A"

definition weight ::
  "(string \<times> string \<Rightarrow> int) \<Rightarrow> int \<Rightarrow> string \<Rightarrow> (((string \<times> string) \<times> string) \<times> checkpoint) list \<Rightarrow> int" where
  "weight a A j t = tsum (\<lambda>k c. if snd k = j then owed_part a A c (fst k) else 0) t"

definition shares ::
  "(string \<times> string \<Rightarrow> int) \<Rightarrow> string \<Rightarrow> (((string \<times> string) \<times> string) \<times> checkpoint) list \<Rightarrow> int" where
  "shares a j t = tsum (\<lambda>k c. if snd k = j then a (fst k) else 0) t"

lemma weight_acc: "weight a A' j t = weight a A j t + (A' - A) * shares a j t"
  unfolding weight_def shares_def tsum_scale [symmetric] tsum_add [symmetric]
  by (rule tsum_same) (simp add: owed_part_def algebra_simps)

lemma shares_staked:
  assumes ok: "farm_ok d" and j: "j \<in> streams_in i d"
  shows "shares (stake_of d) j (fd_checks d) \<le> staked_in i d"
  unfolding shares_def staked_in_def
proof (rule tsum_into [where g = fst])
  let ?f = "\<lambda>k (c :: checkpoint). if snd k = j then stake_of d (fst k) else 0"
  have k: "snd k = j \<and> fst (fst k) = i" if "tpart ?f (fd_checks d) k \<noteq> 0" for k
  proof -
    from that obtain c where c: "map_of (fd_checks d) k = Some c" "snd k = j"
      by (auto simp: tpart_def split: option.split_asm if_split_asm)
    then have "map_of (fd_checks d) (fst k, j) = Some c" by (metis prod.collapse)
    from farm_okD(6) [OF ok this] j c(2) show ?thesis by (auto simp: streams_in_def)
  qed
  show "inj_on fst {k. tpart ?f (fd_checks d) k \<noteq> 0}"
  proof (rule inj_onI)
    fix x y assume h: "x \<in> {k. tpart ?f (fd_checks d) k \<noteq> 0}" "y \<in> {k. tpart ?f (fd_checks d) k \<noteq> 0}" "fst x = fst y"
    then have "snd x = j" "snd y = j" using k by blast+
    with h(3) show "x = y" by (simp add: prod_eq_iff)
  qed
  show "tpart ?f (fd_checks d) k \<le> tpart (\<lambda>k t. if fst k = i then stored_amount t else 0) (fd_stakes d) (fst k)"
    if "tpart ?f (fd_checks d) k \<noteq> 0" for k
    using k [OF that] that by (auto simp: tpart_def stake_of_def split: option.split_asm option.split)
  show "0 \<le> (if fst k = i then stored_amount t else 0)" if "map_of (fd_stakes d) k = Some t" for k t
    using farm_okD(4) [OF ok that] by simp
qed

text \<open>One checkpoint of the stream is written while the amount of its stake becomes \<open>n\<close>.\<close>

lemma weight_settle:
  assumes "\<And>k'. map_of t' (k', j) = (if k' = k then Some c' else map_of t (k', j))"
  shows "weight (a(k := n)) A j t'
    = weight a A j t - tpart (\<lambda>k c. owed_part a A c (fst k)) t (k, j) + owed_part (a(k := n)) A c' k"
proof -
  let ?g = "\<lambda>a q c. if snd q = j then owed_part a A c (fst q) else 0"
  let ?u = "AList.update (k, j) c' t"
  have "weight (a(k := n)) A j t' = tsum (?g (a(k := n))) ?u"
    unfolding weight_def
  proof (rule tsum_cong)
    fix q :: "(string \<times> string) \<times> string"
    show "map_of t' q = map_of ?u q \<or> tpart (?g (a(k := n))) t' q = tpart (?g (a(k := n))) ?u q"
      using assms by (cases q) (auto simp: tpart_def split: option.split)
  qed simp
  also have "\<dots> = tsum (?g (a(k := n))) t - tpart (?g (a(k := n))) t (k, j) + owed_part (a(k := n)) A c' k"
    by (simp add: tsum_update)
  also have "tsum (?g (a(k := n))) t - tpart (?g (a(k := n))) t (k, j) = tsum (?g a) t - tpart (?g a) t (k, j)"
  proof -
    have "tsum (?g b) t - tpart (?g b) t (k, j) = tsum (\<lambda>q c. if q = (k, j) then 0 else ?g b q c) t" for b
    proof -
      have "tsum (?g b) t = tsum (\<lambda>q c. (if q = (k, j) then ?g b q c else 0) + (if q = (k, j) then 0 else ?g b q c)) t"
        by (rule tsum_same) simp
      moreover have "tsum (\<lambda>q c. if q = (k, j) then ?g b q c else 0) t = tpart (?g b) t (k, j)"
        by (cases "map_of t (k, j)")
           (auto simp: tsum_def tpart_def domIff if_distrib sum.delta finite_dom_map_of cong: if_cong sum.cong intro!: sum.neutral)
      ultimately show ?thesis by (simp add: tsum_add)
    qed
    moreover have "tsum (\<lambda>q c. if q = (k, j) then 0 else ?g (a(k := n)) q c) t = tsum (\<lambda>q c. if q = (k, j) then 0 else ?g a q c) t"
      by (rule tsum_same) (auto simp: owed_part_def prod_eq_iff)
    ultimately show ?thesis by simp
  qed
  also have "tpart (?g a) t (k, j) = tpart (\<lambda>k c. owed_part a A c (fst k)) t (k, j)" by (simp add: tpart_def split: option.split)
  finally show ?thesis unfolding weight_def .
qed

text \<open>The value of that write: what rounding the new debt down gives away.\<close>

definition debt_bound :: "(string \<times> string \<Rightarrow> int) \<Rightarrow> int \<Rightarrow> checkpoint \<Rightarrow> string \<times> string \<Rightarrow> bool" where
  "debt_bound a A c k \<longleftrightarrow> acc_scale * debt_of c \<le> a k * A"

lemma next_check_owed:
  assumes "\<And>c. oc = Some c \<Longrightarrow> debt_bound a A c k" and "b k = n"
  shows "owed_part b A (next_check oc A (a k) n) k
      - (case oc of None \<Rightarrow> 0 | Some c \<Rightarrow> owed_part a A c k) < acc_scale"
    and "oc = Some c \<Longrightarrow> n = a k \<Longrightarrow> owed_part b A (next_check oc A (a k) n) k - owed_part a A c k \<le> 0"
    and "debt_bound b A (next_check oc A (a k) n) k"
proof -
  have d: "acc_scale * (n * A div acc_scale) \<le> n * A" "n * A < acc_scale * (n * A div acc_scale) + acc_scale"
    "acc_scale * (a k * A div acc_scale) \<le> a k * A"
    using div_mult_bounds [of acc_scale "n * A"] div_mult_bounds [of acc_scale "a k * A"] by simp_all
  have p: "pending_for (a k) A (debt_of c) = a k * A div acc_scale - debt_of c" if "debt_bound a A c k" for c
  proof -
    have "debt_of c \<le> a k * A div acc_scale"
      using that zdiv_mono1 [of "acc_scale * debt_of c" "a k * A" acc_scale] by (simp add: debt_bound_def)
    then show ?thesis by (simp add: pending_for_def Let_def)
  qed
  have some: "owed_part b A (next_check oc A (a k) n) k - owed_part a A c k
      = (n * A - acc_scale * (n * A div acc_scale)) - (a k * A - acc_scale * (a k * A div acc_scale))" if "oc = Some c" for c
  proof -
    have "accrued_of (next_check oc A (a k) n) + claimed_of (next_check oc A (a k) n) - debt_of (next_check oc A (a k) n)
        = accrued_of c + claimed_of c - debt_of c + (a k * A div acc_scale) - (n * A div acc_scale)"
      using that p [OF assms(1) [OF that]] by (simp add: next_check_facts)
    then show ?thesis using assms(2) by (simp add: owed_part_def) (simp only: right_diff_distrib distrib_left)
  qed
  show "owed_part b A (next_check oc A (a k) n) k - (case oc of None \<Rightarrow> 0 | Some c \<Rightarrow> owed_part a A c k) < acc_scale"
  proof (cases oc)
    case None
    with d assms(2) show ?thesis by (simp add: owed_part_def next_check_facts)
  next
    case (Some c)
    with some [OF Some] d show ?thesis by simp
  qed
  show "oc = Some c \<Longrightarrow> n = a k \<Longrightarrow> owed_part b A (next_check oc A (a k) n) k - owed_part a A c k \<le> 0"
    using some d by simp
  show "debt_bound b A (next_check oc A (a k) n) k"
    using d assms(2) by (simp add: debt_bound_def next_check_facts)
qed

section \<open>Solvency of one state\<close>

definition debts_bounded :: "(string \<times> string \<Rightarrow> int) \<Rightarrow> farm_db \<Rightarrow> bool" where
  "debts_bounded a d \<longleftrightarrow> (\<forall>k j c r. map_of (fd_checks d) (k, j) = Some c \<longrightarrow> map_of (fd_streams d) j = Some r \<longrightarrow>
     debt_bound a (acc_of r) c k)"

definition covered :: "farm_db \<Rightarrow> bool" where
  "covered d \<longleftrightarrow> (\<forall>k j. map_of (fd_stakes d) k \<noteq> None \<longrightarrow> j \<in> streams_in (fst k) d \<longrightarrow> map_of (fd_checks d) (k, j) \<noteq> None)"

definition weights_within :: "(string \<times> string \<Rightarrow> int) \<Rightarrow> int \<Rightarrow> farm_db \<Rightarrow> bool" where
  "weights_within a m d \<longleftrightarrow> (\<forall>j r. map_of (fd_streams d) j = Some r \<longrightarrow>
     weight a (acc_of r) j (fd_checks d) \<le> acc_scale * (distributed_of r + m))"

definition solvent :: "nat \<Rightarrow> farm_db \<Rightarrow> bool" where
  "solvent m d \<longleftrightarrow> farm_ok d \<and> covered d \<and> debts_bounded (stake_of d) d \<and> weights_within (stake_of d) (int m) d"

text \<open>Accruing without a boost, for a stake that will be \<open>n\<close>.\<close>

lemma accrued_weights:
  assumes ok: "farm_ok d" and f: "map_of (fd_farms d) i = Some f" and n: "0 \<le> n"
    and a: "accrued_to i f user (stake_of d (i, user)) n now (streams_in i d) d d'"
    and db: "debts_bounded (stake_of d) d" and w: "weights_within (stake_of d) m d"
    and e: "n = stake_of d (i, user) \<and> (\<forall>j \<in> streams_in i d. map_of (fd_checks d) ((i, user), j) \<noteq> None) \<or> 1 \<le> e" "0 \<le> e"
  shows "debts_bounded ((stake_of d)((i, user) := n)) d'" "weights_within ((stake_of d)((i, user) := n)) (m + e) d'"
proof -
  let ?k = "(i, user)" and ?a = "stake_of d"
  let ?b = "?a(?k := n)"
  have tot: "stored_amount (fp_total f) = staked_in i d" "0 \<le> stored_amount (fp_total f)"
    using farm_okD(3) [OF ok f] staked_in_nonneg [OF ok, of i] by (simp_all add: total_of_def)
  have main: "weight ?b (acc_of r') j (fd_checks d') \<le> acc_scale * (distributed_of r' + (m + e))
      \<and> (\<forall>k c. map_of (fd_checks d') (k, j) = Some c \<longrightarrow> debt_bound ?b (acc_of r') c k)"
    if r': "map_of (fd_streams d') j = Some r'" for j r'
  proof (cases "j \<in> streams_in i d")
    case False
    then have r: "map_of (fd_streams d) j = Some r'" using accrued_toD(5) [OF a] r' by simp
    have c: "map_of (fd_checks d') (k, j) = map_of (fd_checks d) (k, j)" for k using accrued_toD(7) [OF a, of k j] False by simp
    have nk: "k \<noteq> ?k" if "map_of (fd_checks d) (k, j) = Some c" for k c using farm_okD(6) [OF ok that] False by auto
    have "weight ?b (acc_of r') j (fd_checks d') = weight ?a (acc_of r') j (fd_checks d)"
      unfolding weight_def
    proof (rule tsum_cong)
      fix q :: "(string \<times> string) \<times> string"
      show "map_of (fd_checks d') q = map_of (fd_checks d) q
        \<or> tpart (\<lambda>k c. if snd k = j then owed_part ?b (acc_of r') c (fst k) else 0) (fd_checks d') q
          = tpart (\<lambda>k c. if snd k = j then owed_part ?a (acc_of r') c (fst k) else 0) (fd_checks d) q"
        using c by (cases q) (auto simp: tpart_def split: option.split)
    next
      fix q :: "(string \<times> string) \<times> string" and c
      assume "map_of (fd_checks d) q = Some c"
      then show "(if snd q = j then owed_part ?b (acc_of r') c (fst q) else 0) = (if snd q = j then owed_part ?a (acc_of r') c (fst q) else 0)"
        using nk [of "fst q" c] by (cases q) (auto simp: owed_part_def)
    qed
    moreover have "acc_scale * (distributed_of r' + m) \<le> acc_scale * (distributed_of r' + (m + e))"
      using e(2) by (intro mult_left_mono) simp_all
    moreover have "debt_bound ?b (acc_of r') c' k" if "map_of (fd_checks d') (k, j) = Some c'" for k c'
    proof -
      have c': "map_of (fd_checks d) (k, j) = Some c'" using c that by simp
      then have "debt_bound ?a (acc_of r') c' k" using db r unfolding debts_bounded_def by blast
      with nk [OF c'] show ?thesis by (simp add: debt_bound_def)
    qed
    moreover have "weight ?a (acc_of r') j (fd_checks d) \<le> acc_scale * (distributed_of r' + m)"
      using w r unfolding weights_within_def by blast
    ultimately show ?thesis by (metis order_trans)
  next
    case True
    then obtain r where r: "map_of (fd_streams d) j = Some r" and ro: "stream_ok r"
      using farm_okD(5) [OF ok] by (auto simp: streams_in_def)
    then have re: "r' = advanced r (stored_amount (fp_total f)) now (fp_end f)" using accrued_toD(4) [OF a True] r' by simp
    note grown = advanced_backed [OF ro tot(2), where now = now and finish = "fp_end f", unfolded re [symmetric]]
    let ?A = "acc_of r" and ?B = "acc_of r'"
    let ?oc = "map_of (fd_checks d) (?k, j)"
    have bound: "debt_bound ?a ?B c k" if "map_of (fd_checks d) (k, j) = Some c" for k c
    proof -
      have "debt_bound ?a ?A c k" using db r that unfolding debts_bounded_def by blast
      then have "acc_scale * debt_of c \<le> ?a k * ?A" by (simp add: debt_bound_def)
      also have "\<dots> \<le> ?a k * ?B" using grown(2) stake_of_nonneg [OF ok] by (intro mult_left_mono)
      finally show ?thesis by (simp add: debt_bound_def)
    qed
    have upd: "map_of (fd_checks d') (k', j) = (if k' = ?k then Some (next_check ?oc ?B (?a ?k) n) else map_of (fd_checks d) (k', j))" for k'
      using accrued_toD(6) [OF a True] accrued_toD(7) [OF a, of k' j] r' by auto
    have nc: "owed_part ?b ?B (next_check ?oc ?B (?a ?k) n) ?k - (case ?oc of None \<Rightarrow> 0 | Some c \<Rightarrow> owed_part ?a ?B c ?k) < acc_scale"
      "?oc = Some c \<Longrightarrow> n = ?a ?k \<Longrightarrow> owed_part ?b ?B (next_check ?oc ?B (?a ?k) n) ?k - owed_part ?a ?B c ?k \<le> 0"
      "debt_bound ?b ?B (next_check ?oc ?B (?a ?k) n) ?k" for c
      by (rule next_check_owed; use bound in simp)+
    have "weight ?b ?B j (fd_checks d') = weight ?a ?B j (fd_checks d)
        - tpart (\<lambda>k c. owed_part ?a ?B c (fst k)) (fd_checks d) (?k, j) + owed_part ?b ?B (next_check ?oc ?B (?a ?k) n) ?k"
      by (rule weight_settle) (rule upd)
    moreover have "owed_part ?b ?B (next_check ?oc ?B (?a ?k) n) ?k - tpart (\<lambda>k c. owed_part ?a ?B c (fst k)) (fd_checks d) (?k, j)
        \<le> acc_scale * e"
    proof (cases "1 \<le> e")
      case True
      then have "acc_scale * 1 \<le> acc_scale * e" by (intro mult_left_mono) simp_all
      moreover have "tpart (\<lambda>k c. owed_part ?a ?B c (fst k)) (fd_checks d) (?k, j)
          = (case ?oc of None \<Rightarrow> 0 | Some c \<Rightarrow> owed_part ?a ?B c ?k)" by (simp add: tpart_def split: option.split)
      ultimately show ?thesis using nc(1) by linarith
    next
      case False
      with e True obtain c where "?oc = Some c" "n = ?a ?k" by auto
      moreover have "0 \<le> acc_scale * e" using e(2) by simp
      ultimately show ?thesis using nc(2) [of c] by (simp add: tpart_def)
    qed
    moreover have "weight ?a ?B j (fd_checks d) = weight ?a ?A j (fd_checks d) + (?B - ?A) * shares ?a j (fd_checks d)"
      by (rule weight_acc)
    moreover have "(?B - ?A) * shares ?a j (fd_checks d) \<le> (?B - ?A) * staked_in i d"
      using shares_staked [OF ok True] grown(2) by (intro mult_left_mono) simp_all
    moreover have "(?B - ?A) * staked_in i d \<le> acc_scale * (distributed_of r' - distributed_of r)"
      using grown(4) tot(1) by (simp add: mult.commute)
    moreover have "weight ?a ?A j (fd_checks d) \<le> acc_scale * (distributed_of r + m)" using w r by (simp add: weights_within_def)
    ultimately have "weight ?b ?B j (fd_checks d') \<le> acc_scale * (distributed_of r + m)
        + acc_scale * (distributed_of r' - distributed_of r) + acc_scale * e" by linarith
    then have "weight ?b ?B j (fd_checks d') \<le> acc_scale * (distributed_of r' + (m + e))" by (simp add: algebra_simps)
    moreover have "debt_bound ?b ?B c k" if "map_of (fd_checks d') (k, j) = Some c" for k c
    proof (cases "k = ?k")
      case True
      with that upd nc(3) show ?thesis by simp
    next
      case False
      with that upd bound show ?thesis by (simp add: debt_bound_def)
    qed
    ultimately show ?thesis by blast
  qed
  then show "debts_bounded ?b d'" "weights_within ?b (m + e) d'"
    by (simp_all add: debts_bounded_def weights_within_def)
qed

section \<open>Requests keep a solvent state solvent\<close>

definition plain_boost :: "boost_source \<Rightarrow> bool" where
  "plain_boost boost \<longleftrightarrow> (\<forall>user amount. boost_bps_for boost user amount = 10000)"

lemma effective_plain: "plain_boost boost \<Longrightarrow> effective_amount n (boost_bps_for boost user n) = n"
  by (simp add: plain_boost_def effective_amount_def)

lemma solventD:
  assumes "solvent m d"
  shows "farm_ok d" "covered d" "debts_bounded (stake_of d) d" "weights_within (stake_of d) (int m) d"
  using assms by (simp_all add: solvent_def)

lemma stake_of_put: "stake_of (put_stake i f user n staked d) = (stake_of d)((i, user) := n)"
  by (auto simp: stake_of_def put_stake_def tpart_def fun_eq_iff)

text \<open>The settlement of a stake covers it.\<close>

lemma covered_put:
  assumes a: "accrued_to i f user oe ne now (streams_in i d) d d1"
    and c: "\<And>k j. k \<noteq> (i, user) \<Longrightarrow> map_of (fd_stakes d) k \<noteq> None \<Longrightarrow> j \<in> streams_in (fst k) d \<Longrightarrow> map_of (fd_checks d) (k, j) \<noteq> None"
  shows "covered (put_stake i f user n staked d1)"
  unfolding covered_def
proof (intro allI impI)
  fix k j
  assume k: "map_of (fd_stakes (put_stake i f user n staked d1)) k \<noteq> None" "j \<in> streams_in (fst k) (put_stake i f user n staked d1)"
  then have j: "j \<in> streams_in (fst k) d" using accrued_streams_in [OF a] by simp
  show "map_of (fd_checks (put_stake i f user n staked d1)) (k, j) \<noteq> None"
  proof (cases "k = (i, user)")
    case True
    then show ?thesis using accrued_toD(6) [OF a, of j] j by (simp add: put_stake_def)
  next
    case False
    then show ?thesis
      using c [OF False] k(1) j accrued_toD(7) [OF a, of k j] by (auto simp: put_stake_def accrued_toD(2) [OF a])
  qed
qed

lemma change_stake_solvent:
  assumes ok: "farm_ok d" and f: "map_of (fd_farms d) i = Some f" and n: "0 \<le> new"
    and st: "staked = total_of f + (new - stake_of d (i, user))" and p: "plain_boost boost"
    and c: "change_stake boost fault now i f user (stake_of d (i, user)) new staked d = Inr d'"
    and cov: "\<And>k j. k \<noteq> (i, user) \<Longrightarrow> map_of (fd_stakes d) k \<noteq> None \<Longrightarrow> j \<in> streams_in (fst k) d \<Longrightarrow> map_of (fd_checks d) (k, j) \<noteq> None"
    and db: "debts_bounded (stake_of d) d" and w: "weights_within (stake_of d) (int m) d"
  shows "solvent (Suc m) d'"
proof -
  obtain d1 where a: "accrued_to i f user (stake_of d (i, user)) new now (streams_in i d) d d1" and d': "d' = put_stake i f user new staked d1"
    using change_stake_spec [OF c farm_okD(1) [OF ok]] effective_plain [OF p] by metis
  have s: "stake_of d' = (stake_of d)((i, user) := new)" by (simp add: d' stake_of_put stake_of_accrued [OF a])
  have "covered d'" unfolding d' by (rule covered_put [OF a cov])
  moreover have "debts_bounded (stake_of d') d'" "weights_within (stake_of d') (int (Suc m)) d'"
    using accrued_weights [OF ok f n a db w, of 1] unfolding s
    by (simp_all add: d' put_stake_def debts_bounded_def weights_within_def add.commute)
  ultimately show ?thesis using change_stake_effect(1) [OF ok f n st c] by (simp add: solvent_def)
qed

lemma stake_tx_solvent:
  assumes s: "solvent m d" and p: "plain_boost boost" and h: "stake_tx boost fault now i user amount d = Inr d'"
  shows "solvent (Suc m) d'"
proof -
  note sd = solventD [OF s]
  obtain f t where f: "map_of (fd_farms d) i = Some f" and a: "0 < amount"
    and c: "change_stake boost fault now i f user (stake_of d (i, user)) (stake_of d (i, user) + amount) (total_of f + amount)
      (with_row (i, user) (d\<lparr>fd_accounts := t\<rparr>)) = Inr d'"
    by (rule stake_tx_split [OF h]) auto
  let ?d = "with_row (i, user) (d\<lparr>fd_accounts := t\<rparr>)"
  have st: "stake_of ?d = stake_of d" "streams_in k ?d = streams_in k d" for k by (simp_all add: streams_in_def)
  show ?thesis
  proof (rule change_stake_solvent [where d = ?d and boost = boost])
    show "farm_ok ?d" using sd(1) f by (intro with_row_ok) simp_all
    show "map_of (fd_farms ?d) i = Some f" using f by simp
    show "0 \<le> stake_of d (i, user) + amount" using a stake_of_nonneg [OF sd(1)] by (simp add: add_nonneg_nonneg)
    show "change_stake boost fault now i f user (stake_of ?d (i, user)) (stake_of d (i, user) + amount) (total_of f + amount) ?d = Inr d'"
      using c st by simp
    show "map_of (fd_checks ?d) (k, j) \<noteq> None"
      if "k \<noteq> (i, user)" "map_of (fd_stakes ?d) k \<noteq> None" "j \<in> streams_in (fst k) ?d" for k j
      using sd(2) that st(2) by (auto simp: covered_def with_row_def split: if_split_asm simp del: split_paired_All)
    show "debts_bounded (stake_of ?d) ?d" "weights_within (stake_of ?d) (int m) ?d"
      using sd(3,4) st(1) by (simp_all add: debts_bounded_def weights_within_def)
  qed (use st p in simp_all)
qed

lemma unstake_tx_solvent:
  assumes s: "solvent m d" and p: "plain_boost boost" and h: "unstake_tx boost fault now i user amount d = Inr d'" and a: "0 < amount"
  shows "solvent (Suc m) d'"
proof -
  note sd = solventD [OF s]
  obtain f d1 where f: "map_of (fd_farms d) i = Some f" and le: "amount \<le> stake_of d (i, user)"
    and c: "change_stake boost fault now i f user (stake_of d (i, user)) (stake_of d (i, user) - amount) (total_of f - amount) d = Inr d1"
    and d': "d' = d1\<lparr>fd_accounts := fd_accounts d'\<rparr>"
    by (rule unstake_tx_split [OF h sd(1) a]) auto
  have "solvent (Suc m) d1"
    by (rule change_stake_solvent [OF sd(1) f _ _ p c _ sd(3,4)])
       (use le sd(2) in \<open>auto simp: covered_def simp del: split_paired_All\<close>)
  then have "solvent (Suc m) (d1\<lparr>fd_accounts := fd_accounts d'\<rparr>)"
    by (simp add: solvent_def covered_def debts_bounded_def weights_within_def)
  then show ?thesis by (simp flip: d')
qed

lemma settled_like_solvent:
  assumes st: "settled_like d d'" and s: "farm_ok d" "covered d" "debts_bounded a d" "weights_within a m d"
  shows "covered d'" "debts_bounded a d'" "weights_within a m d'"
proof -
  have t: "fd_farms d' = fd_farms d" "fd_streams d' = fd_streams d" "fd_stakes d' = fd_stakes d" using st by (simp_all add: settled_like_def)
  have rel: "rel_option check_settled (map_of (fd_checks d) k) (map_of (fd_checks d') k)" for k
    using st unfolding settled_like_def by blast
  have none: "map_of (fd_checks d') k = None \<longleftrightarrow> map_of (fd_checks d) k = None" for k using rel [of k] by (auto elim: option.rel_cases)
  show "covered d'" using s(2) by (simp add: covered_def none t streams_in_def)
  show "debts_bounded a d'"
    unfolding debts_bounded_def t
  proof (intro allI impI)
    fix k j c' r assume h: "map_of (fd_checks d') (k, j) = Some c'" "map_of (fd_streams d) j = Some r"
    with rel [of "(k, j)"] obtain c where c: "map_of (fd_checks d) (k, j) = Some c" "check_settled c c'" by (auto simp: option_rel_Some2)
    with s(3) h(2) have "debt_bound a (acc_of r) c k" unfolding debts_bounded_def by blast
    with c(2) show "debt_bound a (acc_of r) c' k" by (simp add: debt_bound_def check_settled_def)
  qed
  have "weight a A j (fd_checks d') = weight a A j (fd_checks d)" for A j
    unfolding weight_def
  proof (rule tsum_cong)
    fix q
    show "map_of (fd_checks d') q = map_of (fd_checks d) q
      \<or> tpart (\<lambda>k c. if snd k = j then owed_part a A c (fst k) else 0) (fd_checks d') q
        = tpart (\<lambda>k c. if snd k = j then owed_part a A c (fst k) else 0) (fd_checks d) q"
      using rel [of q] by (cases rule: option.rel_cases) (auto simp: tpart_def owed_part_def check_settled_def)
  qed simp
  then show "weights_within a m d'" using s(4) by (simp add: weights_within_def t)
qed

lemma claim_tx_solvent:
  assumes s: "solvent m d" and p: "plain_boost boost" and h: "claim_rewards_tx boost fault now i user token_filter d = Inr (ps, d')"
  shows "solvent m d'"
proof -
  note sd = solventD [OF s]
  obtain f d1 where f: "map_of (fd_farms d) i = Some f" and row: "map_of (fd_stakes d) (i, user) \<noteq> None"
    and a: "accrued_to i f user (stake_of d (i, user)) (stake_of d (i, user)) now (streams_in i d) d d1"
    and ok1: "farm_ok d1" and st: "settled_like d1 d'"
    using claim_tx_split [OF h sd(1)] effective_plain [OF p] by metis
  have cov: "\<forall>j \<in> streams_in i d. map_of (fd_checks d) ((i, user), j) \<noteq> None" using sd(2) row by (auto simp: covered_def)
  have "debts_bounded (stake_of d) d1" "weights_within (stake_of d) (int m) d1"
    using accrued_weights [OF sd(1) f stake_of_nonneg [OF sd(1)] a sd(3,4), of 0] cov by simp_all
  moreover have "covered d1"
    using sd(2) accrued_toD(6) [OF a] accrued_toD(7) [OF a] unfolding covered_def accrued_streams_in [OF a] accrued_toD(2) [OF a]
    by (metis option.distinct(1))
  moreover have "stake_of d' = stake_of d"
    using st stake_of_accrued [OF a] by (simp add: settled_like_def stake_of_def)
  ultimately show ?thesis
    using settled_like_solvent [OF st ok1] settled_like_ok(1) [OF st ok1] by (simp add: solvent_def)
qed

lemma quiet_solvent:
  assumes s: "solvent m d" and q: "farm_quiet d d'"
  shows "solvent m d'"
proof -
  note sd = solventD [OF s]
  have t: "farm_ok d'" "fd_stakes d' = fd_stakes d" "fd_checks d' = fd_checks d"
    "\<And>j. map_of (fd_streams d) j \<noteq> None \<Longrightarrow> map_of (fd_streams d') j = map_of (fd_streams d) j"
    "\<And>k. map_of (fd_stakes d) k \<noteq> None \<Longrightarrow> streams_in (fst k) d' = streams_in (fst k) d"
    using q unfolding farm_quiet_def by blast+
  have so: "stake_of d' = stake_of d" by (simp add: stake_of_def t)
  have known: "map_of (fd_streams d) j \<noteq> None" if "map_of (fd_checks d) (k, j) = Some c" for k j c
    using farm_okD(6) [OF sd(1) that] by (auto simp: streams_in_def)
  have "covered d'" using sd(2) t(5) by (simp add: covered_def t(2,3))
  moreover have "debts_bounded (stake_of d) d'"
    using sd(3) known t(4) unfolding debts_bounded_def t(3) by metis
  moreover have "weights_within (stake_of d) (int m) d'"
    unfolding weights_within_def t(3)
  proof (intro allI impI)
    fix j r assume r: "map_of (fd_streams d') j = Some r"
    show "weight (stake_of d) (acc_of r) j (fd_checks d) \<le> acc_scale * (distributed_of r + int m)"
    proof (cases "map_of (fd_streams d) j")
      case None
      have "weight (stake_of d) (acc_of r) j (fd_checks d) = tsum (\<lambda>_ _. 0) (fd_checks d)"
        unfolding weight_def
      proof (rule tsum_same)
        fix q :: "(string \<times> string) \<times> string" and c
        assume "map_of (fd_checks d) q = Some c"
        then have "snd q \<noteq> j" using known [of "fst q" "snd q" c] None by auto
        then show "(if snd q = j then owed_part (stake_of d) (acc_of r) c (fst q) else 0) = 0" by simp
      qed
      moreover have "0 \<le> distributed_of r" using farm_okD(5) [OF t(1) r] by (simp add: stream_ok_def)
      ultimately show ?thesis by (simp add: tsum_def)
    next
      case (Some s0)
      then show ?thesis using sd(4) r t(4) [of j] by (simp add: weights_within_def)
    qed
  qed
  ultimately show ?thesis using t(1) by (simp add: solvent_def so)
qed

lemma fund_tx_solvent:
  assumes s: "solvent m d" and h: "fund_stream_tx fault user chain token rid amount d = Inr d'" and ok: "farm_ok d'"
  shows "solvent m d'"
proof -
  note sd = solventD [OF s]
  from h obtain r t where r: "map_of (fd_streams d) rid = Some r"
    and d': "d' = d\<lparr>fd_accounts := t, fd_streams := AList.update rid (r\<lparr>rw_funded := int_string (funded_of r + amount)\<rparr>) (fd_streams d)\<rparr>"
    by (auto simp: fund_stream_tx_def ledger_left funded_of_def split: if_split_asm option.split_asm)
  have so: "stake_of d' = stake_of d" by (simp add: stake_of_def d')
  have old: "\<exists>q. map_of (fd_streams d) j = Some q \<and> acc_of q = acc_of q' \<and> distributed_of q = distributed_of q'"
    if "map_of (fd_streams d') j = Some q'" for j q'
    using that r by (auto simp: d' acc_of_def distributed_of_def split: if_split_asm)
  have si: "streams_in k d' = streams_in k d" for k using r by (auto simp: streams_in_def d' split: if_split_asm)
  have ch: "fd_checks d' = fd_checks d" "fd_stakes d' = fd_stakes d" by (simp_all add: d')
  have "debts_bounded (stake_of d) d'" using sd(3) old unfolding debts_bounded_def ch by metis
  moreover have "weights_within (stake_of d) (int m) d'" using sd(4) old unfolding weights_within_def ch by metis
  moreover have "covered d'" using sd(2) by (simp add: covered_def si ch)
  ultimately show ?thesis using ok by (simp add: solvent_def so)
qed

lemma solvent_more: "solvent m d \<Longrightarrow> m \<le> n \<Longrightarrow> solvent n d"
proof -
  assume s: "solvent m d" and le: "m \<le> n"
  have "acc_scale * (distributed_of r + int m) \<le> acc_scale * (distributed_of r + int n)" for r
    using le by (intro mult_left_mono) simp_all
  then show ?thesis using s order_trans unfolding solvent_def weights_within_def by blast
qed

lemma served_solvent:
  assumes "farm_served boost n d d'" "plain_boost boost" "solvent m d"
  shows "solvent (m + n) d'"
  using assms(1)
proof cases
  case unchanged
  then show ?thesis using solvent_more [OF assms(3)] by simp
next
  case quiet
  then show ?thesis using quiet_solvent [OF assms(3)] by simp
next
  case funded
  then show ?thesis using fund_tx_solvent [OF assms(3)] fund_tx_trades [OF solventD(1) [OF assms(3)]] by auto
next
  case staked
  then show ?thesis using stake_tx_solvent [OF assms(3,2)] by auto
next
  case unstaked
  then show ?thesis using unstake_tx_solvent [OF assms(3,2)] by auto
next
  case claimed
  then show ?thesis using claim_tx_solvent [OF assms(3,2)] by auto
qed

section \<open>Runs without a boost\<close>

text \<open>A run in which nobody is boosted; the number counts the changes of a stake.\<close>

inductive plain_run :: "nat \<Rightarrow> farm_db list \<Rightarrow> farm_db list \<Rightarrow> bool" where
  start: "plain_run 0 h h"
| more: "plain_run n h h' \<Longrightarrow> farm_step boost m h' h'' \<Longrightarrow> plain_boost boost \<Longrightarrow> plain_run (n + m) h h''"

lemma plain_run_solvent:
  assumes "plain_run n h h'" "farm_history h" "solvent 0 (hd h)"
  shows "farm_history h' \<and> solvent n (hd h')"
  using assms
proof (induction rule: plain_run.induct)
  case (more n h h' boost m h'')
  then have ok: "farm_history h'" and s: "solvent n (hd h')" by blast+
  from farm_step_served [OF more.hyps(2) ok] obtain d' where d': "h'' = d' # h'" "farm_served boost m (hd h') d'" by blast
  from served_trades [OF d'(2) solventD(1) [OF s]] history_grows [OF ok] served_solvent [OF d'(2) more.hyps(3) s] d'(1)
  show ?case by simp
qed simp

text \<open>What the stakers of a stream were paid, have accrued, and would accrue now.\<close>

definition owed :: "string \<Rightarrow> stream \<Rightarrow> farm_db \<Rightarrow> int" where
  "owed j r d = tsum (\<lambda>k c. if snd k = j
     then accrued_of c + claimed_of c + pending_for (stake_of d (fst k)) (acc_of r) (debt_of c) else 0) (fd_checks d)"

lemma owed_weight:
  assumes db: "debts_bounded (stake_of d) d" and r: "map_of (fd_streams d) j = Some r"
  shows "acc_scale * owed j r d \<le> weight (stake_of d) (acc_of r) j (fd_checks d)"
  unfolding owed_def weight_def tsum_scale [symmetric]
proof (rule tsum_mono)
  fix q :: "(string \<times> string) \<times> string" and c
  assume m: "map_of (fd_checks d) q = Some c"
  let ?x = "stake_of d (fst q) * acc_of r"
  show "acc_scale * (if snd q = j then accrued_of c + claimed_of c + pending_for (stake_of d (fst q)) (acc_of r) (debt_of c) else 0)
    \<le> (if snd q = j then owed_part (stake_of d) (acc_of r) c (fst q) else 0)"
  proof (cases "snd q = j")
    case True
    then have "map_of (fd_checks d) (fst q, j) = Some c" using m by (metis prod.collapse)
    then have "debt_bound (stake_of d) (acc_of r) c (fst q)" using db r unfolding debts_bounded_def by blast
    then have "debt_of c \<le> ?x div acc_scale"
      using zdiv_mono1 [of "acc_scale * debt_of c" ?x acc_scale] by (simp add: debt_bound_def)
    then have p: "pending_for (stake_of d (fst q)) (acc_of r) (debt_of c) = ?x div acc_scale - debt_of c"
      by (simp add: pending_for_def Let_def)
    have "acc_scale * (accrued_of c + claimed_of c + (?x div acc_scale - debt_of c))
        = acc_scale * (accrued_of c + claimed_of c - debt_of c) + acc_scale * (?x div acc_scale)" by (simp add: algebra_simps)
    also have "\<dots> \<le> owed_part (stake_of d) (acc_of r) c (fst q)"
      using div_mult_bounds [of acc_scale ?x] by (simp add: owed_part_def)
    finally show ?thesis using True by (simp add: p)
  qed simp
qed

definition no_farms :: "farm_db \<Rightarrow> bool" where
  "no_farms d \<longleftrightarrow> fd_farms d = [] \<and> fd_streams d = [] \<and> fd_stakes d = [] \<and> fd_checks d = []"

lemma no_farms_solvent: "no_farms d \<Longrightarrow> solvent 0 d"
  by (simp add: no_farms_def solvent_def farm_ok_def covered_def debts_bounded_def weights_within_def streams_in_def)

text \<open>C26: Without a boost, rewards stay within the funds up to rounding. From an empty farm table, whatever
  requests are served in whatever interleaving, what the stakers of a stream were paid, have accrued
  and would accrue now is at most what the stream counts as distributed and one smallest unit for
  each change of a stake in the run; and it never counts more as distributed than was funded.\<close>

theorem unboosted_rewards_stay_funded:
  assumes "plain_run n [d] h" and "no_farms d" and "map_of (fd_streams (hd h)) j = Some r"
  shows "owed j r (hd h) \<le> distributed_of r + int n \<and> distributed_of r \<le> funded_of r"
proof -
  have s0: "solvent 0 d" using assms(2) by (rule no_farms_solvent)
  then have "farm_history [d]" by (simp add: farm_history_def solvent_def)
  with plain_run_solvent [OF assms(1)] s0 have s: "solvent n (hd h)" by simp
  have "acc_scale * owed j r (hd h) \<le> acc_scale * (distributed_of r + int n)"
    using owed_weight [OF solventD(3) [OF s] assms(3)] solventD(4) [OF s] assms(3) unfolding weights_within_def
    by (meson order_trans)
  then have "owed j r (hd h) \<le> distributed_of r + int n" by simp
  moreover have "distributed_of r \<le> funded_of r"
    using farm_okD(5) [OF solventD(1) [OF s] assms(3)] by (simp add: stream_ok_def)
  ultimately show ?thesis by blast
qed

section \<open>A boost that changes\<close>

lemma settled_likeE:
  assumes "settled_like d d'" "map_of (fd_checks d) k = Some c"
  obtains c' where "map_of (fd_checks d') k = Some c'" "check_settled c c'"
proof -
  have "rel_option check_settled (map_of (fd_checks d) k) (map_of (fd_checks d') k)"
    using assms(1) unfolding settled_like_def by blast
  with assms(2) that show thesis by (auto simp: option_rel_Some1)
qed

lemma boost_bps_for_ge: "10000 \<le> boost_bps_for boost user n"
  by (auto simp: boost_bps_for_def split: option.split)

text \<open>A rise of the boost pays for the whole past. When a staker claims with one boost and later with
  another, the second claim earns at least the difference of the two boosted shares of the
  accumulator's value at the first claim, that is of everything the stream emitted per share since
  it began, also of what it emitted before the user staked.\<close>

theorem boost_rise_pays_the_past_again:
  assumes "farm_ok d" and "claim_rewards_tx low fault now i user tok d = Inr (ps, d1)"
    and "claim_rewards_tx high fault' now' i user tok' d1 = Inr (ps', d2)"
    and "map_of (fd_streams d1) j = Some r" and "rw_farm r = i"
    and "x = effective_amount (stake_of d (i, user)) (boost_bps_for low user (stake_of d (i, user)))"
    and "y = effective_amount (stake_of d (i, user)) (boost_bps_for high user (stake_of d (i, user)))"
  shows "\<exists>c c'. map_of (fd_checks d1) ((i, user), j) = Some c \<and> map_of (fd_checks d2) ((i, user), j) = Some c'
    \<and> accrued_of c + claimed_of c + (y * acc_of r div acc_scale - x * acc_of r div acc_scale) \<le> accrued_of c' + claimed_of c'"
proof -
  obtain f e where a: "accrued_to i f user x x now (streams_in i d) d e" and ok: "farm_ok e" and st: "settled_like e d1"
    using claim_tx_split [OF assms(2,1)] assms(6) by metis
  have ok1: "farm_ok d1" by (rule settled_like_ok(1) [OF st ok])
  have so: "stake_of d1 = stake_of d" using st stake_of_accrued [OF a] by (simp add: settled_like_def stake_of_def)
  obtain f' e' where f': "map_of (fd_farms d1) i = Some f'"
    and a': "accrued_to i f' user y y now' (streams_in i d1) d1 e'" and st': "settled_like e' d2"
    using claim_tx_split [OF assms(3) ok1] assms(7) unfolding so by metis
  have se: "fd_streams d1 = fd_streams e" "fd_streams d2 = fd_streams e'" using st st' by (simp_all add: settled_like_def)
  have j: "j \<in> streams_in i d" "j \<in> streams_in i d1"
    using assms(4,5) accrued_streams_in [OF a, of i] by (auto simp: streams_in_def se)
  let ?c0 = "next_check (map_of (fd_checks d) ((i, user), j)) (acc_of r) x x"
  have "map_of (fd_checks e) ((i, user), j) = Some ?c0" using accrued_toD(6) [OF a j(1)] assms(4) by (simp add: se)
  from settled_likeE [OF st this] obtain c where c: "map_of (fd_checks d1) ((i, user), j) = Some c" "check_settled ?c0 c"
    by blast
  let ?r = "the (map_of (fd_streams e') j)"
  let ?c1 = "next_check (Some c) (acc_of ?r) y y"
  have "map_of (fd_checks e') ((i, user), j) = Some ?c1" using accrued_toD(6) [OF a' j(2)] c(1) by simp
  from settled_likeE [OF st' this] obtain c' where c': "map_of (fd_checks d2) ((i, user), j) = Some c'" "check_settled ?c1 c'"
    by blast
  have "0 \<le> stored_amount (fp_total f')"
    using farm_okD(3) [OF ok1 f'] staked_in_nonneg [OF ok1, of i] by (simp add: total_of_def)
  with farm_okD(5) [OF ok1 assms(4)] accrued_toD(4) [OF a' j(2)] assms(4) have g: "acc_of r \<le> acc_of ?r"
    using advanced_backed(2) by auto
  have "0 \<le> y"
    using stake_of_nonneg [OF assms(1), of "(i, user)"] boost_bps_for_ge [of high user "stake_of d (i, user)"]
    by (simp add: assms(7) effective_amount_def pos_imp_zdiv_nonneg_iff)
  with g have "y * acc_of r div acc_scale \<le> y * acc_of ?r div acc_scale" by (intro zdiv_mono1 mult_left_mono) simp_all
  moreover have "debt_of c = x * acc_of r div acc_scale" using c(2) by (simp add: check_settled_def next_check_facts)
  moreover have "y * acc_of ?r div acc_scale - debt_of c \<le> pending_for y (acc_of ?r) (debt_of c)"
    by (simp add: pending_for_def Let_def)
  ultimately show ?thesis using c(1) c' by (auto simp: check_settled_def next_check_facts)
qed

section \<open>Settlements in quick succession\<close>

lemma round_mag_below_one: "round_mag (1073741823 / 1073741824) = 1073741823 / 1073741824"
proof -
  have "lead_exp (1073741823 / 1073741824) = - 1" by (rule lead_exp_eq) (simp_all add: pow2_def)
  then have "ulp_exp (1073741823 / 1073741824) = - 53" by (simp add: ulp_exp_def)
  then show ?thesis by (intro round_mag_exact [of _ 9007199246352384]) (simp_all add: pow2_def)
qed

lemma less_than_a_second:
  assumes "d < 1000000000" "0 \<le> d"
  shows "f64_to_int64 (duration_seconds d) = 0"
proof -
  have d: "d div 1000000000 = 0" "d mod 1000000000 = d" "d \<le> max_int64" using assms by (simp_all add: max_int64_def)
  have "(of_int d :: rat) \<le> of_int 999999999" using assms(1) by (simp only: of_int_le_iff)
  then have "of_int d / 1000000000 \<le> (1073741823 / 1073741824 :: rat)" by simp
  from round_mag_mono [OF this] have "round_mag (of_int d / 1000000000) \<le> 1073741823 / 1073741824"
    by (simp add: round_mag_below_one)
  from round_mag_mono [OF this] have "seconds_rat d \<le> 1073741823 / 1073741824"
    by (simp add: seconds_rat_def d round_mag_below_one)
  moreover have "0 \<le> seconds_rat d" by (simp add: seconds_rat_def)
  ultimately have "\<lfloor>seconds_rat d\<rfloor> = 0" by (simp add: floor_eq_iff)
  then show ?thesis using whole_seconds_floor(1) [OF assms(2) d(3)] by (simp add: whole_seconds_def)
qed

lemma advanced_soon:
  assumes "min now finish < rw_last r + 1000000000"
  shows "acc_of (advanced r staked now finish) = acc_of r" "distributed_of (advanced r staked now finish) = distributed_of r"
    "rw_last (advanced r staked now finish) = max (rw_last r) (min now finish)"
proof -
  define n where "n = (if finish < now then finish else now)"
  define mark where "mark = (if n < rw_last r then rw_last r else n)"
  have m: "rw_last r \<le> mark" "mark < rw_last r + 1000000000" "mark = max (rw_last r) (min now finish)"
    "mark = rw_last r \<or> \<not> finish < mark" using assms by (auto simp: mark_def n_def)
  show "rw_last (advanced r staked now finish) = max (rw_last r) (min now finish)"
    unfolding advanced_def n_def [symmetric] Let_def mark_def [symmetric] m(3) [symmetric] by (simp split: prod.split)
  have "advanced r staked now finish = r\<lparr>rw_last := mark\<rparr>
    \<or> (acc_of (advanced r staked now finish) = fst (reward_step r staked mark finish)
       \<and> distributed_of (advanced r staked now finish) = fst (snd (reward_step r staked mark finish)) \<and> mark \<noteq> rw_last r)"
    unfolding advanced_def n_def [symmetric] Let_def mark_def [symmetric] by (simp add: acc_of_def distributed_of_def split: prod.split)
  moreover have "fst (reward_step r staked mark finish) = acc_of r \<and> fst (snd (reward_step r staked mark finish)) = distributed_of r"
    if "mark \<noteq> rw_last r"
  proof -
    have "time_sub mark (rw_last r) = mark - rw_last r"
      using m(1,2) by (simp add: time_sub_def min_int64_def max_int64_def)
    then have "f64_to_int64 (duration_seconds (time_sub mark (rw_last r))) = 0"
      using m(1,2) less_than_a_second [of "mark - rw_last r"] by simp
    with that m(4) show ?thesis by (simp add: reward_step_def Let_def acc_of_def distributed_of_def)
  qed
  ultimately show "acc_of (advanced r staked now finish) = acc_of r" "distributed_of (advanced r staked now finish) = distributed_of r"
    by (auto simp: acc_of_def distributed_of_def)
qed

text \<open>Settlements at the times \<open>ts\<close>, each less than a second after the one before.\<close>

fun soon :: "time \<Rightarrow> time list \<Rightarrow> bool" where
  "soon prev [] = True"
| "soon prev (t # ts) = (prev \<le> t \<and> t < prev + 1000000000 \<and> soon t ts)"

lemma advanced_run_soon:
  assumes "soon t ts" "min t finish \<le> rw_last r"
  shows "acc_of (foldl (\<lambda>r now. advanced r staked now finish) r ts) = acc_of r
    \<and> distributed_of (foldl (\<lambda>r now. advanced r staked now finish) r ts) = distributed_of r"
  using assms
proof (induction ts arbitrary: t r)
  case (Cons u ts)
  have s: "min u finish < rw_last r + 1000000000" using Cons.prems by (auto simp: min_def split: if_split_asm)
  have "min u finish \<le> rw_last (advanced r staked u finish)" by (simp add: advanced_soon(3) [OF s])
  with Cons.IH [of u "advanced r staked u finish"] Cons.prems(1) show ?case by (simp add: advanced_soon(1,2) [OF s])
qed simp

text \<open>A stream that is settled more than once a second emits nothing. Each settlement moves the
  checkpoint to the present but counts whole seconds only, so however long the run of settlements
  lasts, the accumulator and the distributed total stay what they were.\<close>

theorem frequent_settlements_stop_emission:
  assumes "soon (rw_last r) ts"
  shows "stored_amount (rw_acc (foldl (\<lambda>r now. advanced r staked now finish) r ts)) = stored_amount (rw_acc r)
    \<and> stored_amount (rw_distributed (foldl (\<lambda>r now. advanced r staked now finish) r ts)) = stored_amount (rw_distributed r)"
  using advanced_run_soon [OF assms, of finish r staked] by (simp add: acc_of_def distributed_of_def)

section \<open>Runs\<close>

text \<open>
  Two stakers of two units each; the hundred reward units that were funded have been emitted and
  paid, fifty to each.
\<close>

definition eg_farm :: farm where
  "eg_farm = \<lparr>fp_key = ''tgr-lp'', fp_name = ''TGR LP'', fp_type = farm_lp, fp_chain = 1, fp_token = ''0xlp'', fp_symbol = ''LP'',
     fp_decimals = 18, fp_gauge = None, fp_total = ''4'', fp_start = 5, fp_end = 9000, fp_status = farm_active,
     fp_created_by = ''root''\<rparr>"

definition eg_stream :: stream where
  "eg_stream = \<lparr>rw_farm = ''f1'', rw_token = ''native'', rw_symbol = ''TGR'', rw_decimals = 18, rw_rate = ''1'',
     rw_acc = ''25000000000000000000'', rw_last = 1000, rw_funded = ''100'', rw_distributed = ''100''\<rparr>"

definition eg_paid :: checkpoint where
  "eg_paid = \<lparr>ck_debt = ''50'', ck_accrued = ''0'', ck_claimed = ''50''\<rparr>"

definition eg_farms :: farm_db where
  "eg_farms = \<lparr>fd_farms = [(''f1'', eg_farm)], fd_streams = [(''r1'', eg_stream)],
     fd_stakes = [((''f1'', ''ann''), ''2''), ((''f1'', ''bob''), ''2'')],
     fd_checks = [(((''f1'', ''ann''), ''r1''), eg_paid), (((''f1'', ''bob''), ''r1''), eg_paid)], fd_accounts = []\<rparr>"

definition eg_bob_row :: "string \<Rightarrow> string \<Rightarrow> string \<Rightarrow> farm_db" where
  "eg_bob_row debt claimed bal = eg_farms\<lparr>
     fd_checks := [(((''f1'', ''ann''), ''r1''), eg_paid),
       (((''f1'', ''bob''), ''r1''), \<lparr>ck_debt = debt, ck_accrued = ''0'', ck_claimed = claimed\<rparr>)],
     fd_accounts := [((''bob'', 1, ''native''), \<lparr>ac_symbol = ''TGR'', ac_decimals = 18, ac_available = bal, ac_locked = ''0''\<rparr>)]\<rparr>"

definition full_boost :: boost_source where
  "full_boost = Some (\<lambda>_ _. Some 25000)"

definition eg_claim :: "boost_source \<Rightarrow> farm_db \<Rightarrow> farm_db \<times> payout list reply" where
  "eg_claim boost d = claim_rewards Some Some boost True (\<lambda>_. False) 1000 ''bob'' ''f1'' None d d"

lemma eg_first_claim: "eg_claim full_boost eg_farms = (eg_bob_row ''125'' ''125'' ''75'', Ok_reply 200 [(''native'', ''TGR'', 75)])"
  by code_simp

lemma eg_second_claim: "eg_claim None (eg_bob_row ''125'' ''125'' ''75'') = (eg_bob_row ''50'' ''125'' ''75'', Ok_reply 200 [])"
  by code_simp

lemma eg_third_claim:
  "eg_claim full_boost (eg_bob_row ''50'' ''125'' ''75'') = (eg_bob_row ''125'' ''200'' ''150'', Ok_reply 200 [(''native'', ''TGR'', 75)])"
  by code_simp

lemma eg_amounts:
  "acc_of eg_stream = 25000000000000000000" "distributed_of eg_stream = 100" "funded_of eg_stream = 100"
  "debt_of eg_paid = 50" "accrued_of eg_paid = 0" "claimed_of eg_paid = 50" "stored_amount ''2'' = 2" "total_of eg_farm = 4"
  by code_simp+

lemma eg_farms_lookup:
  "map_of (fd_farms eg_farms) i = Some f \<longleftrightarrow> i = ''f1'' \<and> f = eg_farm"
  "map_of (fd_streams eg_farms) j = Some r \<longleftrightarrow> j = ''r1'' \<and> r = eg_stream"
  "map_of (fd_stakes eg_farms) k = Some t \<longleftrightarrow> (k = (''f1'', ''ann'') \<or> k = (''f1'', ''bob'')) \<and> t = ''2''"
  "map_of (fd_checks eg_farms) (k, j) = Some c \<longleftrightarrow> (k = (''f1'', ''ann'') \<or> k = (''f1'', ''bob'')) \<and> j = ''r1'' \<and> c = eg_paid"
  by (auto simp: eg_farms_def)

lemma eg_farms_solvent: "solvent 0 eg_farms"
proof -
  have s: "stake_of eg_farms (''f1'', ''ann'') = 2" "stake_of eg_farms (''f1'', ''bob'') = 2" "staked_in ''f1'' eg_farms = 4"
    by (simp_all add: stake_of_def tpart_def staked_in_def eg_farms_def eg_amounts)
  have i: "streams_in i eg_farms = (if i = ''f1'' then {''r1''} else {})" for i
    by (auto simp: streams_in_def eg_farms_lookup eg_stream_def)
  have checks: "fd_checks eg_farms = [(((''f1'', ''ann''), ''r1''), eg_paid), (((''f1'', ''bob''), ''r1''), eg_paid)]" by (simp add: eg_farms_def)
  have w: "weight (stake_of eg_farms) (acc_of eg_stream) ''r1'' (fd_checks eg_farms) = acc_scale * 100"
    by (simp add: weight_def checks owed_part_def eg_amounts s acc_scale_def)
  have "farm_ok eg_farms"
    unfolding farm_ok_def eg_farms_lookup i
    by (auto simp: eg_amounts s stream_ok_def eg_farms_lookup) (simp_all add: eg_farms_def eg_stream_def)
  moreover have "covered eg_farms"
    by (auto simp: covered_def i eg_farms_lookup split: if_split_asm)
  moreover have "debts_bounded (stake_of eg_farms) eg_farms"
    by (auto simp: debts_bounded_def eg_farms_lookup debt_bound_def eg_amounts s acc_scale_def)
  moreover have "weights_within (stake_of eg_farms) 0 eg_farms"
    by (simp add: weights_within_def eg_farms_lookup w eg_amounts(2))
  ultimately show ?thesis by (simp add: solvent_def)
qed

text \<open>A boost that comes and goes pays out funds that do not exist. All hundred units that were
  funded have been paid, and nothing is owed. With the full boost one staker claims 75 more, and
  after one claim without the boost 75 again; the stream has then paid 250 of 100.\<close>

theorem boosted_claims_exceed_funds:
  "solvent 0 eg_farms \<and> owed ''r1'' eg_stream eg_farms = funded_of eg_stream
    \<and> eg_claim full_boost eg_farms = (eg_bob_row ''125'' ''125'' ''75'', Ok_reply 200 [(''native'', ''TGR'', 75)])
    \<and> eg_claim None (eg_bob_row ''125'' ''125'' ''75'') = (eg_bob_row ''50'' ''125'' ''75'', Ok_reply 200 [])
    \<and> eg_claim full_boost (eg_bob_row ''50'' ''125'' ''75'') = (eg_bob_row ''125'' ''200'' ''150'', Ok_reply 200 [(''native'', ''TGR'', 75)])
    \<and> owed ''r1'' eg_stream (eg_bob_row ''125'' ''200'' ''150'') = funded_of eg_stream + 150"
proof -
  have st: "stake_of (eg_bob_row a b c) = stake_of eg_farms" for a b c
    by (simp add: stake_of_def eg_bob_row_def)
  have s: "stake_of eg_farms (''f1'', ''ann'') = 2" "stake_of eg_farms (''f1'', ''bob'') = 2"
    by (simp_all add: stake_of_def tpart_def eg_farms_def eg_amounts)
  have p: "pending_for 2 (acc_of eg_stream) 50 = 0" "pending_for 2 (acc_of eg_stream) 125 = 0"
    by (simp_all add: eg_amounts pending_for_def acc_scale_def)
  have n: "stored_amount ''125'' = 125" "stored_amount ''200'' = 200" by code_simp+
  have "owed ''r1'' eg_stream eg_farms = funded_of eg_stream"
    unfolding owed_def by (simp add: eg_farms_def s [unfolded eg_farms_def] p eg_amounts(2-6))
  moreover have "owed ''r1'' eg_stream (eg_bob_row ''125'' ''200'' ''150'') = funded_of eg_stream + 150"
    unfolding owed_def st by (simp add: eg_bob_row_def s p eg_amounts(2-6)) (simp add: accrued_of_def claimed_of_def debt_of_def n p)
  ultimately show ?thesis using eg_farms_solvent eg_first_claim eg_second_claim eg_third_claim by blast
qed

text \<open>The same two claims, for the general statement.\<close>

lemma eg_claim_txs:
  "claim_rewards_tx None (\<lambda>_. False) 1000 ''f1'' ''bob'' [] eg_farms = Inr ([], eg_farms)"
  "claim_rewards_tx full_boost (\<lambda>_. False) 1000 ''f1'' ''bob'' [] eg_farms
    = Inr ([(''native'', ''TGR'', 75)], eg_bob_row ''125'' ''125'' ''75'')"
  by code_simp+

theorem boost_rise_witness:
  "\<exists>ps d c c'. claim_rewards_tx full_boost (\<lambda>_. False) 1000 ''f1'' ''bob'' [] eg_farms = Inr (ps, d)
    \<and> map_of (fd_checks eg_farms) ((''f1'', ''bob''), ''r1'') = Some c \<and> map_of (fd_checks d) ((''f1'', ''bob''), ''r1'') = Some c'
    \<and> accrued_of c + claimed_of c + 75 \<le> accrued_of c' + claimed_of c'"
proof -
  have m: "map_of (fd_streams eg_farms) ''r1'' = Some eg_stream" "rw_farm eg_stream = ''f1''"
    by (simp_all add: eg_farms_def eg_stream_def)
  have s: "stake_of eg_farms (''f1'', ''bob'') = 2" by (simp add: stake_of_def tpart_def eg_farms_def eg_amounts)
  have x: "2 = effective_amount (stake_of eg_farms (''f1'', ''bob'')) (boost_bps_for None ''bob'' (stake_of eg_farms (''f1'', ''bob'')))"
    "5 = effective_amount (stake_of eg_farms (''f1'', ''bob'')) (boost_bps_for full_boost ''bob'' (stake_of eg_farms (''f1'', ''bob'')))"
    by (simp_all add: s effective_amount_def boost_bps_for_def full_boost_def)
  from boost_rise_pays_the_past_again [OF solventD(1) [OF eg_farms_solvent] eg_claim_txs m x] eg_claim_txs(2) show ?thesis
    by (auto simp: eg_amounts acc_scale_def)
qed

theorem frequent_settlements_witness:
  "stored_amount (rw_acc (foldl (\<lambda>r now. advanced r 4 now 9000) eg_stream [2000, 999999000])) = stored_amount (rw_acc eg_stream)"
  using frequent_settlements_stop_emission [of eg_stream "[2000, 999999000]" 4 9000] by (simp add: eg_stream_def)

text \<open>A farm is created, and one user stakes in it as it starts.\<close>

definition eg_empty :: farm_db where
  "eg_empty = \<lparr>fd_farms = [], fd_streams = [], fd_stakes = [], fd_checks = [],
     fd_accounts = [((''ann'', 1, ''0xlp''), \<lparr>ac_symbol = ''LP'', ac_decimals = 18, ac_available = ''9'', ac_locked = ''0''\<rparr>)]\<rparr>"

definition eg_farm_request :: create_farm_req where
  "eg_farm_request = \<lparr>cf_key = ''tgr-lp'', cf_name = ''TGR LP'', cf_type = [], cf_chain = 1, cf_token = ''0xlp'', cf_symbol = ''LP'',
     cf_decimals = 18, cf_gauge = [], cf_start = ''start'', cf_end = ''end'',
     cf_rewards = Some [\<lparr>sq_token = ''native'', sq_symbol = ''TGR'', sq_decimals = 18, sq_rate = ''1''\<rparr>]\<rparr>"

definition eg_time :: "string \<Rightarrow> time option" where
  "eg_time s = (if s = ''start'' then Some 5 else Some 9000)"

definition eg_created_farm :: farm_db where
  "eg_created_farm = fst (create_farm Some Some eg_time (\<lambda>_. True) (\<lambda>_. False) ''f1'' (\<lambda>_. ''r1'') ''root'' (Some eg_farm_request) eg_empty eg_empty)"

definition eg_opened :: farm_db where
  "eg_opened = fst (update_farm Some eg_time (\<lambda>_. True) (\<lambda>_. False) ''f1''
     (Some \<lparr>uf_name = None, uf_type = None, uf_start = None, uf_end = None, uf_status = Some ''active'', uf_gauge = None\<rparr>)
     eg_created_farm eg_created_farm)"

definition eg_staked :: farm_db where
  "eg_staked = fst (stake Some None True (\<lambda>_. False) 5 ''ann'' ''f1'' (Some ''4'') eg_opened eg_opened)"

lemma eg_farm_steps:
  "farm_step None 0 [eg_empty] [eg_created_farm, eg_empty]"
  "farm_step None 0 [eg_created_farm, eg_empty] [eg_opened, eg_created_farm, eg_empty]"
  "farm_step None 1 [eg_opened, eg_created_farm, eg_empty] [eg_staked, eg_opened, eg_created_farm, eg_empty]"
  by (rule farm_step.create [where d' = eg_created_farm and h = "[eg_empty]", OF list.set_intros(1)], simp add: eg_created_farm_def,
      rule prod.collapse [symmetric])
     (rule farm_step.update [where d' = eg_opened and h = "[eg_created_farm, eg_empty]", OF list.set_intros(1)], simp add: eg_opened_def,
      rule prod.collapse [symmetric],
      rule farm_step.stake [where d' = eg_staked and h = "[eg_opened, eg_created_farm, eg_empty]", OF list.set_intros(1)], simp add: eg_staked_def,
      rule prod.collapse [symmetric])

lemma eg_staked_stream: "\<exists>r. map_of (fd_streams eg_staked) ''r1'' = Some r \<and> distributed_of r = 0"
proof -
  have "map_option distributed_of (map_of (fd_streams eg_staked) ''r1'') = Some 0" by code_simp
  then show ?thesis by auto
qed

lemma eg_empty_ok: "no_farms eg_empty" "farm_ok eg_empty"
  using no_farms_solvent [of eg_empty] by (simp_all add: no_farms_def eg_empty_def solvent_def)

lemma eg_farm_run: "farm_request\<^sup>*\<^sup>* [eg_empty] [eg_staked, eg_opened, eg_created_farm, eg_empty]"
proof -
  have q: "farm_step boost n h h' \<Longrightarrow> farm_request h h'" for boost n h h' unfolding farm_request_def by blast
  show ?thesis
    by (rule rtranclp.rtrancl_into_rtrancl [OF rtranclp.rtrancl_into_rtrancl
          [OF r_into_rtranclp [of farm_request, OF q [OF eg_farm_steps(1)]] q [OF eg_farm_steps(2)]] q [OF eg_farm_steps(3)]])
qed

theorem unboosted_rewards_witness:
  "\<exists>r. map_of (fd_streams eg_staked) ''r1'' = Some r \<and> owed ''r1'' r eg_staked \<le> 1"
proof -
  have p: "plain_boost None" by (simp add: plain_boost_def boost_bps_for_def)
  have "plain_run (0 + 0 + 0 + 1) [eg_empty] [eg_staked, eg_opened, eg_created_farm, eg_empty]"
    using eg_farm_steps p plain_run.intros by metis
  then have run: "plain_run 1 [eg_empty] [eg_staked, eg_opened, eg_created_farm, eg_empty]" by simp
  obtain r where r: "map_of (fd_streams eg_staked) ''r1'' = Some r" "distributed_of r = 0" using eg_staked_stream by blast
  from unboosted_rewards_stay_funded [OF run eg_empty_ok(1), of "''r1''" r] r show ?thesis by simp
qed

theorem farm_books_witness:
  "\<forall>k. 0 \<le> stake_of eg_staked k"
  using farm_books_agree [OF eg_farm_run eg_empty_ok(2)] by simp

theorem farms_conserve_witness:
  "\<exists>V. finite V \<and> (\<forall>U asset. finite U \<longrightarrow> V \<subseteq> U \<longrightarrow>
    holdings_of U asset (fd_accounts eg_staked) + farm_pool eg_staked asset
      = holdings_of U asset (fd_accounts eg_empty) + farm_pool eg_empty asset)"
  using farms_conserve_tokens [OF eg_farm_run eg_empty_ok(2)] by simp

end
