(* ===== verification/Market_Text.thy ===== *)
theory Market_Text
  imports Go_Tables
begin

text \<open>
  The validators that the trading bots and the block-trade desk share (\<open>services/bots_service.go\<close>):
  decimal text as a scaled integer with 18 places, market symbols and addresses. An error is the text
  of its message.
\<close>

definition is_lower :: "char \<Rightarrow> bool" where
  "is_lower c \<longleftrightarrow> 97 \<le> (of_char c :: nat) \<and> (of_char c :: nat) \<le> 122"

definition is_upper :: "char \<Rightarrow> bool" where
  "is_upper c \<longleftrightarrow> 65 \<le> (of_char c :: nat) \<and> (of_char c :: nat) \<le> 90"

definition is_hex :: "char \<Rightarrow> bool" where
  "is_hex c \<longleftrightarrow> is_digit c \<or> (is_lower c \<and> (of_char c :: nat) \<le> 102) \<or> (is_upper c \<and> (of_char c :: nat) \<le> 70)"

definition is_hex_address :: "string \<Rightarrow> bool" where
  "is_hex_address s \<longleftrightarrow> length s = 42 \<and> take 2 s = ''0x'' \<and> list_all is_hex (drop 2 s)"

definition parse_decimal_string :: "string \<Rightarrow> string + int" where
  "parse_decimal_string value =
     (let trimmed = trim_space value;
          (whole, rest) = split_once (CHR ''.'') trimmed;
          fraction = (case rest of None \<Rightarrow> [] | Some f \<Rightarrow> f) in
      if trimmed = [] then Inl ''value is required''
      else if CHR ''.'' \<in> set fraction then Inl ''value has more than one decimal point''
      else if whole = [] \<and> fraction = [] then Inl ''value has no digits''
      else if \<not> list_all is_digit whole \<or> \<not> list_all is_digit fraction then Inl ''value must be a non-negative decimal''
      else if 18 < length fraction then Inl ''value has more than 18 decimal places''
      else (case parse_int (whole @ fraction @ replicate (18 - length fraction) (CHR ''0'')) of
              None \<Rightarrow> Inl ''value must be a non-negative decimal''
            | Some n \<Rightarrow> Inr n))"

definition validate_positive_decimal :: "string \<Rightarrow> string \<Rightarrow> string + int" where
  "validate_positive_decimal field value =
     (case parse_decimal_string value of
        Inl e \<Rightarrow> Inl (field @ '': '' @ e)
      | Inr n \<Rightarrow> if n \<le> 0 then Inl (field @ '' must be positive'') else Inr n)"

definition is_token_symbol :: "string \<Rightarrow> bool" where
  "is_token_symbol s \<longleftrightarrow> s \<noteq> [] \<and> length s \<le> 20 \<and>
     list_all (\<lambda>c. is_upper c \<or> is_lower c \<or> is_digit c \<or> c = CHR ''.'' \<or> c = CHR ''_'' \<or> c = CHR ''-'') s"

definition validate_market_symbol :: "string \<Rightarrow> string + unit" where
  "validate_market_symbol symbol =
     (if symbol = [] \<or> 41 < length symbol then Inl ''symbol must be between 1 and 41 characters''
      else (case split_once (CHR ''/'') symbol of
              (base, Some quote) \<Rightarrow>
                if \<not> is_token_symbol base \<or> \<not> is_token_symbol quote
                  then Inl ''symbol must be a token or a BASE/QUOTE pair'' else Inr ()
            | (base, None) \<Rightarrow>
                if \<not> is_token_symbol base then Inl ''symbol must be a token or a BASE/QUOTE pair'' else Inr ()))"

text \<open>\<open>strconv.ParseUint(s, 10, 64)\<close>: digits only, within 64 bits.\<close>

definition parse_uint :: "string \<Rightarrow> uint64 option" where
  "parse_uint s =
     (if s = [] \<or> \<not> list_all is_digit s \<or> 2 ^ 64 \<le> digits_val s then None else Some (of_int (digits_val s)))"

text \<open>\<open>strconv.ParseInt(s, 10, 64)\<close>, and \<open>Atoi\<close>.\<close>

definition parse_int64 :: "string \<Rightarrow> int64 option" where
  "parse_int64 s = (case parse_int s of None \<Rightarrow> None | Some n \<Rightarrow> if in_int64 n then Some n else None)"

definition uint_string :: "uint64 \<Rightarrow> string" where
  "uint_string n = nat_string (unat n)"

section \<open>Facts\<close>

text \<open>The value of a decimal text that was accepted.\<close>

lemma parse_decimal_value:
  assumes "parse_decimal_string s = Inr n"
  obtains w f where "list_all is_digit w" "list_all is_digit f" "length f \<le> 18"
    "n = digits_val w * 10 ^ 18 + digits_val f * 10 ^ (18 - length f)"
proof -
  obtain w rest where c: "split_once (CHR ''.'') (trim_space s) = (w, rest)" by fastforce
  define f where "f = (case rest of None \<Rightarrow> [] | Some g \<Rightarrow> g)"
  have h: "list_all is_digit w" "list_all is_digit f" "length f \<le> 18"
    and p: "parse_int (w @ f @ replicate (18 - length f) (CHR ''0'')) = Some n"
    using assms by (auto simp: parse_decimal_string_def c f_def [symmetric] Let_def split: if_splits option.splits)
  have z: "list_all is_digit (replicate k (CHR ''0''))" for k by (simp add: list_all_iff is_digit_def)
  have ne: "w @ f @ replicate (18 - length f) (CHR ''0'') \<noteq> []"
    by (cases "length f = 18") auto
  have "n = digits_val (w @ f @ replicate (18 - length f) (CHR ''0''))"
    using p parse_int_digits [OF ne] h z by (simp add: list_all_append)
  also have "\<dots> = digits_val w * 10 ^ 18 + digits_val f * 10 ^ (18 - length f)"
    using h(3) by (simp add: digits_val_append)
  finally show thesis using h that by blast
qed

lemma parse_decimal_ge_0: "parse_decimal_string s = Inr n \<Longrightarrow> 0 \<le> n"
  by (elim parse_decimal_value) (simp add: digits_val_ge_0)

lemma validate_positive_iff: "validate_positive_decimal field s = Inr n \<longleftrightarrow> parse_decimal_string s = Inr n \<and> 0 < n"
  by (auto simp: validate_positive_decimal_def split: sum.splits)

lemma validate_positive_any: "validate_positive_decimal field s = Inr n \<Longrightarrow> validate_positive_decimal field' s = Inr n"
  by (simp add: validate_positive_iff)

lemma parse_decimal_zero [simp]: "parse_decimal_string ''0'' = Inr 0"
  by code_simp

end
