(* ===== verification/Sessions.thy ===== *)
theory Sessions
  imports Go_Duration Market_Text
begin

text \<open>
  Accounts and sessions: registration, login, token refresh and logout (\<open>AuthService\<close> in
  \<open>services/services.go\<close>), the store of revoked tokens (\<open>services/revocation.go\<close>), the checks that
  stand in front of the protected and the operator routes (\<open>middleware/middleware.go\<close>), the edits of an
  account, and the store of API keys (\<open>middleware/apikey.go\<close>).

  The JWT library is a parameter: \<open>sign\<close> encodes and signs claims, and \<open>parse now token\<close> gives the claims of a
  token with a valid signature that has not expired at \<open>now\<close>. Claims are what the JSON decoder makes of
  them: text stays text and a number is a \<open>float64\<close>. The password hash, the check of an e-mail address and
  the check of a wallet address are parameters as well. \<open>fault\<close> says which database calls fail. No operation
  sets the soft-delete mark of an account.
\<close>

section \<open>Values of a request context\<close>

datatype context_value =
  Ctx_nil | Ctx_string string | Ctx_uint uint64 | Ctx_uint64 uint64 | Ctx_int int64 | Ctx_int64 int64 | Ctx_float f64 | Ctx_other

type_synonym claims = "(string \<times> context_value) list"

text \<open>A missing key of a Go map of interfaces reads as nil; \<open>GetString\<close> gives the empty string for what is not text.\<close>

definition claim :: "claims \<Rightarrow> string \<Rightarrow> context_value" where
  "claim c k = (case map_of c k of None \<Rightarrow> Ctx_nil | Some v \<Rightarrow> v)"

fun text_of :: "context_value \<Rightarrow> string" where
  "text_of (Ctx_string s) = s"
| "text_of _ = []"

definition get_string :: "claims \<Rightarrow> string \<Rightarrow> string" where
  "get_string c k = text_of (claim c k)"

text \<open>
  \<open>currentUserID\<close> of \<open>services/bots_service.go\<close>. \<open>conv\<close> is the conversion of a \<open>float64\<close> that has no
  \<open>uint\<close> value, which the language leaves open.
\<close>

definition float_to_uint :: "(f64 \<Rightarrow> uint64) \<Rightarrow> f64 \<Rightarrow> uint64" where
  "float_to_uint conv x =
     (case x of
        Fin neg m \<Rightarrow> if \<lfloor>m\<rfloor> < 2 ^ 64 then of_int \<lfloor>m\<rfloor> else conv x
      | _ \<Rightarrow> conv x)"

fun current_user_id :: "(f64 \<Rightarrow> uint64) \<Rightarrow> context_value option \<Rightarrow> uint64 option" where
  "current_user_id conv None = None"
| "current_user_id conv (Some (Ctx_uint n)) = Some n"
| "current_user_id conv (Some (Ctx_int i)) = (if i < 0 then None else Some (of_int i))"
| "current_user_id conv (Some (Ctx_int64 i)) = (if i < 0 then None else Some (of_int i))"
| "current_user_id conv (Some (Ctx_uint64 n)) = Some n"
| "current_user_id conv (Some (Ctx_float x)) = (if f64_lt x (f64_of_int 0) then None else Some (float_to_uint conv x))"
| "current_user_id conv (Some _) = None"

section \<open>Revoked tokens\<close>

text \<open>The rows of the table \<open>revoked_tokens\<close> and their mirror in memory: the expiry by token identifier.\<close>

datatype auth_call =
  Find_email | Find_username | Create_user | Find_user | Update_user | Reload_user | Prune_revoked | List_revoked | Create_revoked

record user =
  us_email :: string
  us_username :: string
  us_password :: string
  us_wallet :: string
  us_role :: string
  us_verified :: bool
  us_active :: bool

record auth_state =
  as_users :: "(string \<times> user) list"
  as_rows :: "(string \<times> time) list"
  as_mem :: "(string \<times> time) list"

text \<open>The start of a process: the memory is empty, then loaded. Both failures are only logged.\<close>

definition load_revoked :: "(auth_call \<Rightarrow> bool) \<Rightarrow> time \<Rightarrow> auth_state \<Rightarrow> auth_state" where
  "load_revoked fault now st =
     (let rows = (if fault Prune_revoked then as_rows st else filter (\<lambda>(_, e). \<not> e < now) (as_rows st))
      in st\<lparr>as_rows := rows,
            as_mem := (if fault List_revoked then [] else filter (\<lambda>(_, e). now \<le> e) rows)\<rparr>)"

definition is_revoked :: "time \<Rightarrow> string \<Rightarrow> auth_state \<Rightarrow> bool \<times> auth_state" where
  "is_revoked now jti st =
     (case map_of (as_mem st) jti of
        None \<Rightarrow> (False, st)
      | Some expiry \<Rightarrow>
          if expiry < now then (False, st\<lparr>as_mem := AList.delete jti (as_mem st)\<rparr>)
          else (True, st))"

definition revoke :: "(auth_call \<Rightarrow> bool) \<Rightarrow> string \<Rightarrow> time \<Rightarrow> auth_state \<Rightarrow> auth_state option" where
  "revoke fault jti expires st =
     (if fault Create_revoked \<or> map_of (as_rows st) jti \<noteq> None then None
      else Some (st\<lparr>as_rows := AList.update jti expires (as_rows st), as_mem := AList.update jti expires (as_mem st)\<rparr>))"

section \<open>Tokens\<close>

definition access_expiry :: int64 where
  "access_expiry = 24 * 7 * 3600000000000"

definition unix :: "time \<Rightarrow> int64" where
  "unix t = t div 1000000000"

definition session_claims :: "time \<Rightarrow> string \<Rightarrow> string \<Rightarrow> string \<Rightarrow> string \<Rightarrow> claims" where
  "session_claims now jti user_id email role =
     [(''jti'', Ctx_string jti), (''user_id'', Ctx_string user_id), (''email'', Ctx_string email),
      (''role'', Ctx_string role), (''exp'', Ctx_float (f64_of_int (unix (now + access_expiry)))),
      (''iat'', Ctx_float (f64_of_int (unix now)))]"

definition generate_token :: "(claims \<Rightarrow> string) \<Rightarrow> time \<Rightarrow> string \<Rightarrow> string \<Rightarrow> user \<Rightarrow> string" where
  "generate_token sign now jti user_id u = sign (session_claims now jti user_id (us_email u) (us_role u))"

text \<open>The clock is read twice, by the library and by the look-up of the revocation.\<close>

definition validate_token ::
  "(time \<Rightarrow> string \<Rightarrow> claims option) \<Rightarrow> time \<Rightarrow> time \<Rightarrow> string \<Rightarrow> auth_state \<Rightarrow> claims option \<times> auth_state" where
  "validate_token parse now now' token st =
     (case parse now token of
        None \<Rightarrow> (None, st)
      | Some c \<Rightarrow>
          let jti = get_string c ''jti'' in
          if jti = [] then (Some c, st)
          else (case is_revoked now' jti st of (revoked, st') \<Rightarrow> (if revoked then None else Some c, st')))"

section \<open>The checks in front of a route\<close>

text \<open>\<open>strings.Split\<close> for a one-character separator.\<close>

fun split_on :: "char \<Rightarrow> string \<Rightarrow> string list" where
  "split_on c [] = [[]]"
| "split_on c (x # xs) = (if x = c then [] # split_on c xs
                          else (case split_on c xs of [] \<Rightarrow> [[x]] | w # ws \<Rightarrow> (x # w) # ws))"

datatype gate = Refused nat string | Passed claims

text \<open>\<open>RedisRateLimiter\<close>: \<open>hits\<close> is what Redis answers to the increment, \<open>None\<close> when there is no Redis or
  it fails. The first increment sets the expiry of the counter, which Redis keeps.\<close>

definition redis_rate_limiter :: "string \<Rightarrow> int option \<Rightarrow> (nat \<times> string) option" where
  "redis_rate_limiter path hits =
     (if path = ''/health'' then None
      else (case hits of
              None \<Rightarrow> None
            | Some n \<Rightarrow> if 100 < n then Some (429, ''Rate limit exceeded'') else None))"

definition request_context :: "claims \<Rightarrow> claims" where
  "request_context c =
     [(''user_id'', claim c ''user_id''), (''email'', claim c ''email''), (''role'', claim c ''role'')]"

definition with_token ::
  "(time \<Rightarrow> string \<Rightarrow> claims option) \<Rightarrow> time \<Rightarrow> time \<Rightarrow> (claims \<Rightarrow> gate) \<Rightarrow> string \<Rightarrow> auth_state \<Rightarrow> gate \<times> auth_state" where
  "with_token parse now now' k header st =
     (if header = [] then (Refused 401 ''Authorization header required'', st)
      else
        let parts = split_on (CHR '' '') header in
        if length parts \<noteq> 2 \<or> parts ! 0 \<noteq> ''Bearer'' then (Refused 401 ''Invalid authorization header format'', st)
        else (case validate_token parse now now' (parts ! 1) st of
                (None, st') \<Rightarrow> (Refused 401 ''Invalid or expired token'', st')
              | (Some c, st') \<Rightarrow> (k c, st')))"

definition auth_required ::
  "(time \<Rightarrow> string \<Rightarrow> claims option) \<Rightarrow> time \<Rightarrow> time \<Rightarrow> string \<Rightarrow> auth_state \<Rightarrow> gate \<times> auth_state" where
  "auth_required parse now now' = with_token parse now now' (\<lambda>c. Passed (request_context c))"

definition admin_required ::
  "(time \<Rightarrow> string \<Rightarrow> claims option) \<Rightarrow> time \<Rightarrow> time \<Rightarrow> string \<Rightarrow> auth_state \<Rightarrow> gate \<times> auth_state" where
  "admin_required parse now now' = with_token parse now now' (\<lambda>c.
     if map_of c ''role'' = None \<or> claim c ''role'' \<noteq> Ctx_string ''admin''
       then Refused 403 ''Admin access required'' else Passed (request_context c))"

section \<open>Registration and login\<close>

record register_req =
  rg_email :: string
  rg_password :: string
  rg_username :: string

definition username_char :: "char \<Rightarrow> bool" where
  "username_char c \<longleftrightarrow>
     is_lower c \<or> is_upper c \<or> is_digit c \<or> c = CHR ''_'' \<or> c = CHR ''-'' \<or> c = CHR ''.''"

definition find_by :: "('r \<Rightarrow> bool) \<Rightarrow> (string \<times> 'r) list \<Rightarrow> (string \<times> 'r) option" where
  "find_by P t = find (\<lambda>(_, r). P r) t"

text \<open>The reply of a success carries the identifier of the account and the token. A failed look-up counts as
  an address or a name that is free; the unique indexes of the table then decide.\<close>

definition register ::
  "(string \<Rightarrow> bool) \<Rightarrow> (string \<Rightarrow> string option) \<Rightarrow> (claims \<Rightarrow> string) \<Rightarrow> (auth_call \<Rightarrow> bool) \<Rightarrow>
     time \<Rightarrow> string \<Rightarrow> string \<Rightarrow> register_req option \<Rightarrow> auth_state \<Rightarrow> auth_state \<times> (string \<times> string) reply" where
  "register valid_email hash_password sign fault now jti new_id body st =
     (case body of
        None \<Rightarrow> (st, Bad_binding)
      | Some r \<Rightarrow>
          let username = trim_space (rg_username r) in
          if rg_email r = [] \<or> \<not> valid_email (rg_email r) \<or> rune_count (rg_password r) < 8 \<or> rg_username r = [] then (st, Bad_binding)
          else if length username < 3 \<or> 32 < length username
            then (st, Error_reply 400 ''Username must be between 3 and 32 characters'')
          else if \<not> list_all username_char username
            then (st, Error_reply 400 ''Username may only contain letters, digits, underscore, hyphen and dot'')
          else if 72 < length (rg_password r) then (st, Error_reply 400 ''Password must be at most 72 bytes'')
          else if \<not> fault Find_email \<and> find_by (\<lambda>u. us_email u = rg_email r) (as_users st) \<noteq> None
            then (st, Error_reply 400 ''Email already registered'')
          else if \<not> fault Find_username \<and> find_by (\<lambda>u. us_username u = username) (as_users st) \<noteq> None
            then (st, Error_reply 400 ''Username already taken'')
          else (case hash_password (rg_password r) of
                  None \<Rightarrow> (st, Error_reply 500 ''Failed to hash password'')
                | Some h \<Rightarrow>
                    let u = \<lparr>us_email = rg_email r, us_username = username, us_password = h, us_wallet = [],
                             us_role = ''user'', us_verified = False, us_active = True\<rparr> in
                    if fault Create_user \<or> map_of (as_users st) new_id \<noteq> None
                       \<or> find_by (\<lambda>v. us_email v = us_email u \<or> us_username v = username) (as_users st) \<noteq> None
                      then (st, Error_reply 500 ''Failed to create user'')
                    else (st\<lparr>as_users := AList.update new_id u (as_users st)\<rparr>,
                          Ok_reply 201 (new_id, generate_token sign now jti new_id u))))"

record login_req =
  lg_email :: string
  lg_password :: string

definition login ::
  "(string \<Rightarrow> string \<Rightarrow> bool) \<Rightarrow> (claims \<Rightarrow> string) \<Rightarrow> (auth_call \<Rightarrow> bool) \<Rightarrow> time \<Rightarrow> string \<Rightarrow>
     login_req option \<Rightarrow> auth_state \<Rightarrow> (string \<times> string) reply" where
  "login password_ok sign fault now jti body st =
     (case body of
        None \<Rightarrow> Bad_binding
      | Some r \<Rightarrow>
          if lg_email r = [] \<or> lg_password r = [] then Bad_binding
          else (case (if fault Find_email then None else find_by (\<lambda>u. us_email u = lg_email r) (as_users st)) of
                  None \<Rightarrow> Error_reply 401 ''Invalid credentials''
                | Some (i, u) \<Rightarrow>
                    if \<not> password_ok (us_password u) (lg_password r) then Error_reply 401 ''Invalid credentials''
                    else Ok_reply 200 (i, generate_token sign now jti i u)))"

text \<open>The scheme of the header is compared without regard to case here; \<open>parse_uuid\<close> is the UUID library.\<close>

definition bearer_token :: "string \<Rightarrow> string option" where
  "bearer_token header =
     (let parts = split_on (CHR '' '') header in
      if length parts \<noteq> 2 \<or> to_lower (parts ! 0) \<noteq> ''bearer'' then None else Some (parts ! 1))"

definition refresh_token ::
  "(time \<Rightarrow> string \<Rightarrow> claims option) \<Rightarrow> (claims \<Rightarrow> string) \<Rightarrow> (context_value \<Rightarrow> string option) \<Rightarrow> (auth_call \<Rightarrow> bool) \<Rightarrow>
     time \<Rightarrow> time \<Rightarrow> string \<Rightarrow> string \<Rightarrow> auth_state \<Rightarrow> auth_state \<times> string reply" where
  "refresh_token parse sign uuid_of fault now now' jti header st =
     (case bearer_token header of
        None \<Rightarrow> (st, Error_reply 401 ''Invalid authorization header format'')
      | Some token \<Rightarrow>
          (case validate_token parse now now' token st of
             (None, st') \<Rightarrow> (st', Error_reply 401 ''Invalid or expired token'')
           | (Some c, st') \<Rightarrow>
               (st', (case uuid_of (claim c ''user_id'') of
                        None \<Rightarrow> Error_reply 401 ''Invalid session''
                      | Some i \<Rightarrow>
                          (case (if fault Find_user then None else map_of (as_users st') i) of
                             None \<Rightarrow> Error_reply 401 ''User not found''
                           | Some u \<Rightarrow>
                               if \<not> us_active u then Error_reply 403 ''Account is not active''
                               else Ok_reply 200 (generate_token sign now' jti i u))))))"

text \<open>The expiry written with a revocation: that of the token, in whole seconds.\<close>

fun token_expiry :: "time \<Rightarrow> context_value \<Rightarrow> time" where
  "token_expiry now (Ctx_float x) = f64_to_int64 x * 1000000000"
| "token_expiry now _ = now + access_expiry"

definition logout ::
  "(time \<Rightarrow> string \<Rightarrow> claims option) \<Rightarrow> (auth_call \<Rightarrow> bool) \<Rightarrow> time \<Rightarrow> time \<Rightarrow> string \<Rightarrow> auth_state \<Rightarrow> auth_state \<times> string reply" where
  "logout parse fault now now' header st =
     (case bearer_token header of
        None \<Rightarrow> (st, Error_reply 400 ''Invalid authorization header format'')
      | Some token \<Rightarrow>
          (case validate_token parse now now' token st of
             (None, st') \<Rightarrow> (st', Error_reply 401 ''Invalid or expired token'')
           | (Some c, st') \<Rightarrow>
               let jti = get_string c ''jti'' in
               if jti = [] then (st', Error_reply 400 ''Token carries no identifier'')
               else (case revoke fault jti (token_expiry now' (claim c ''exp'')) st' of
                       None \<Rightarrow> (st', Error_reply 500 ''Failed to revoke token'')
                     | Some st'' \<Rightarrow> (st'', Ok_reply 200 ''success''))))"

section \<open>Edits of an account\<close>

definition get_profile :: "(auth_call \<Rightarrow> bool) \<Rightarrow> claims \<Rightarrow> auth_state \<Rightarrow> user reply" where
  "get_profile fault ctx st =
     (case (if fault Find_user then None else map_of (as_users st) (get_string ctx ''user_id'')) of
        None \<Rightarrow> Error_reply 404 ''User not found''
      | Some u \<Rightarrow> Ok_reply 200 u)"

definition modify_user :: "string \<Rightarrow> (user \<Rightarrow> user) \<Rightarrow> auth_state \<Rightarrow> auth_state" where
  "modify_user i g st =
     (case map_of (as_users st) i of
        None \<Rightarrow> st
      | Some u \<Rightarrow> st\<lparr>as_users := AList.update i (g u) (as_users st)\<rparr>)"

record profile_req =
  pf_username :: string
  pf_wallet :: string

text \<open>The update fails when the new name breaks the unique index.\<close>

definition update_profile ::
  "(string \<Rightarrow> bool) \<Rightarrow> (auth_call \<Rightarrow> bool) \<Rightarrow> claims \<Rightarrow> profile_req option \<Rightarrow> auth_state \<Rightarrow> auth_state \<times> user reply" where
  "update_profile hex_address fault ctx body st =
     (case body of
        None \<Rightarrow> (st, Bad_binding)
      | Some r \<Rightarrow>
          let i = get_string ctx ''user_id''; name = trim_space (pf_username r); wallet = trim_space (pf_wallet r) in
          if wallet \<noteq> [] \<and> \<not> hex_address (pf_wallet r) then (st, Error_reply 400 ''invalid wallet address'')
          else if name = [] \<and> wallet = [] then (st, Error_reply 400 ''no updatable fields supplied'')
          else if fault Update_user \<or> (name \<noteq> [] \<and> map_of (as_users st) i \<noteq> None \<and> (\<exists>(j, v) \<in> set (as_users st). j \<noteq> i \<and> us_username v = name))
            then (st, Error_reply 500 ''Failed to update profile'')
          else
            let st' = modify_user i (\<lambda>u. u\<lparr>us_username := (if name = [] then us_username u else name),
                                            us_wallet := (if wallet = [] then us_wallet u else to_lower (pf_wallet r))\<rparr>) st
            in (st', get_profile (\<lambda>x. fault (if x = Find_user then Reload_user else x)) ctx st'))"

definition connect_wallet ::
  "(string \<Rightarrow> bool) \<Rightarrow> (auth_call \<Rightarrow> bool) \<Rightarrow> claims \<Rightarrow> string option \<Rightarrow> auth_state \<Rightarrow> auth_state \<times> string reply" where
  "connect_wallet hex_address fault ctx body st =
     (case body of
        None \<Rightarrow> (st, Bad_binding)
      | Some address \<Rightarrow>
          if address = [] then (st, Bad_binding)
          else if \<not> hex_address address then (st, Error_reply 400 ''invalid wallet address'')
          else if fault Update_user then (st, Error_reply 500 ''Failed to link wallet'')
          else (modify_user (get_string ctx ''user_id'') (\<lambda>u. u\<lparr>us_wallet := to_lower address\<rparr>) st,
                Ok_reply 200 (to_lower address)))"

definition disconnect_wallet :: "(auth_call \<Rightarrow> bool) \<Rightarrow> claims \<Rightarrow> auth_state \<Rightarrow> auth_state \<times> string reply" where
  "disconnect_wallet fault ctx st =
     (if fault Update_user then (st, Error_reply 500 ''Failed to unlink wallet'')
      else (modify_user (get_string ctx ''user_id'') (\<lambda>u. u\<lparr>us_wallet := []\<rparr>) st, Ok_reply 200 ''success''))"

text \<open>The operator's edits (\<open>AdminService\<close>).\<close>

record user_edit_req =
  ue_role :: string
  ue_active :: "bool option"
  ue_verified :: "bool option"

definition update_user ::
  "(auth_call \<Rightarrow> bool) \<Rightarrow> string \<Rightarrow> user_edit_req option \<Rightarrow> auth_state \<Rightarrow> auth_state \<times> user reply" where
  "update_user fault i body st =
     (case body of
        None \<Rightarrow> (st, Bad_binding)
      | Some r \<Rightarrow>
          if ue_role r \<noteq> [] \<and> ue_role r \<notin> {''user'', ''admin'', ''superadmin''} then (st, Error_reply 400 ''invalid role'')
          else if ue_role r = [] \<and> ue_active r = None \<and> ue_verified r = None
            then (st, Error_reply 400 ''no updatable fields supplied'')
          else if fault Update_user then (st, Error_reply 500 ''Failed to update user'')
          else (case map_of (as_users st) i of
                  None \<Rightarrow> (st, Error_reply 404 ''User not found'')
                | Some u \<Rightarrow>
                    let u' = u\<lparr>us_role := (if ue_role r = [] then us_role u else ue_role r),
                               us_active := (case ue_active r of None \<Rightarrow> us_active u | Some b \<Rightarrow> b),
                               us_verified := (case ue_verified r of None \<Rightarrow> us_verified u | Some b \<Rightarrow> b)\<rparr>
                    in (modify_user i (\<lambda>_. u') st,
                        if fault Reload_user then Error_reply 404 ''User not found'' else Ok_reply 200 u')))"

definition delete_user :: "(auth_call \<Rightarrow> bool) \<Rightarrow> string \<Rightarrow> auth_state \<Rightarrow> auth_state \<times> string reply" where
  "delete_user fault i st =
     (if fault Update_user then (st, Error_reply 500 ''Failed to deactivate user'')
      else if map_of (as_users st) i = None then (st, Error_reply 404 ''User not found'')
      else (modify_user i (\<lambda>u. u\<lparr>us_active := False\<rparr>) st, Ok_reply 200 i))"

section \<open>API keys\<close>

text \<open>The store by hash; \<open>sha256\<close> is the library's hash. A zero expiry means that the key does not expire.\<close>

record 'h api_key =
  ak_hash :: 'h
  ak_label :: string
  ak_scopes :: "string list option"
  ak_created :: time
  ak_expires :: "time option"
  ak_last_used :: "time option"
  ak_revoked :: bool

type_synonym 'h key_store = "('h \<times> 'h api_key) list"

definition has_scope :: "string \<Rightarrow> 'h api_key \<Rightarrow> bool" where
  "has_scope scope k = (case ak_scopes k of None \<Rightarrow> False | Some scopes \<Rightarrow> ''*'' \<in> set scopes \<or> scope \<in> set scopes)"

definition key_expired :: "time \<Rightarrow> 'h api_key \<Rightarrow> bool" where
  "key_expired now k = (case ak_expires k of None \<Rightarrow> False | Some e \<Rightarrow> e < now)"

definition add_key ::
  "(string \<Rightarrow> 'h) \<Rightarrow> time \<Rightarrow> string \<Rightarrow> string \<Rightarrow> string list \<Rightarrow> int64 \<Rightarrow> 'h key_store \<Rightarrow> 'h \<times> 'h key_store" where
  "add_key sha256 now key label scopes ttl t =
     (sha256 key, AList.update (sha256 key)
        \<lparr>ak_hash = sha256 key, ak_label = label, ak_scopes = Some scopes, ak_created = now,
         ak_expires = (if 0 < ttl then Some (now + ttl) else None), ak_last_used = None, ak_revoked = False\<rparr> t)"

definition revoke_key :: "'h \<Rightarrow> 'h key_store \<Rightarrow> 'h key_store" where
  "revoke_key h t = (case map_of t h of None \<Rightarrow> t | Some k \<Rightarrow> AList.update h (k\<lparr>ak_revoked := True\<rparr>) t)"

definition validate_key ::
  "(string \<Rightarrow> 'h) \<Rightarrow> time \<Rightarrow> string \<Rightarrow> 'h key_store \<Rightarrow> 'h api_key option \<times> 'h key_store" where
  "validate_key sha256 now presented t =
     (if presented = [] then (None, t)
      else (case map_of t (sha256 presented) of
              None \<Rightarrow> (None, t)
            | Some k \<Rightarrow>
                if ak_hash k \<noteq> sha256 presented \<or> ak_revoked k \<or> key_expired now k then (None, t)
                else let k' = k\<lparr>ak_last_used := Some now\<rparr> in (Some k', AList.update (sha256 presented) k' t)))"

definition parse_api_key :: "string \<Rightarrow> string \<Rightarrow> string \<Rightarrow> string" where
  "parse_api_key header authorization query =
     (if header \<noteq> [] then trim_space header
      else if 7 < length authorization \<and> to_lower (take 7 authorization) = ''bearer '' then trim_space (drop 7 authorization)
      else trim_space query)"

text \<open>\<open>hex\<close> prints the first four bytes of the hash of the key.\<close>

definition mask_key :: "(string \<Rightarrow> string) \<Rightarrow> string \<Rightarrow> string" where
  "mask_key hex key = (if length key \<le> 8 then ''****'' else take 4 key @ ''...'' @ hex key)"

end
