(* ===== verification/Block_Trade.thy ===== *)
theory Block_Trade
  imports Sessions
begin

text \<open>
  Private block trades and time-weighted orders (\<open>services/otc_service.go\<close>). Both tables are keyed by a
  number that the database issues (\<open>new_id\<close>). Taking an order reads, checks and writes its row under a
  lock, so it is one step on the state \<open>d\<close>; cancelling reads the row in an earlier state \<open>d0\<close> and then
  writes its status whatever the row has become. The caller is what \<open>current_user_id\<close> made of the
  session. \<open>fault\<close> says which database calls fail; the driver's own texts are \<open>db_error\<close>. The columns
  with hashes of settlement transactions are never written and are left out.
\<close>

section \<open>Tables\<close>

record otc_order =
  ot_maker :: uint64
  ot_taker :: "uint64 option"
  ot_symbol :: string
  ot_side :: string
  ot_quantity :: string
  ot_price :: string
  ot_status :: string
  ot_min_fill :: string
  ot_counterparty :: string
  ot_expires :: time
  ot_created :: time

record twamm_order =
  tw_user :: uint64
  tw_symbol :: string
  tw_side :: string
  tw_quantity :: string
  tw_filled :: string
  tw_limit :: string
  tw_start :: time
  tw_end :: time
  tw_status :: string
  tw_created :: time

record desk_db =
  dd_otc :: "(uint64 \<times> otc_order) list"
  dd_twamm :: "(uint64 \<times> twamm_order) list"

datatype desk_call = Create_otc | List_otc | Lock_otc | Save_otc | Commit_otc | Find_otc | Cancel_otc | Expire_otc
  | Create_twamm | List_twamm | Find_twamm | Cancel_twamm

definition db_error :: string where
  "db_error = ''database error''"

definition otc_open :: string where "otc_open = ''open''"
definition otc_matched :: string where "otc_matched = ''matched''"
definition otc_cancelled :: string where "otc_cancelled = ''cancelled''"
definition otc_expired :: string where "otc_expired = ''expired''"
definition twamm_active :: string where "twamm_active = ''active''"

text \<open>A caller without a numeric identity is turned away first.\<close>

definition with_caller :: "uint64 option \<Rightarrow> 'd \<Rightarrow> (uint64 \<Rightarrow> 'd \<times> 'a reply) \<Rightarrow> 'd \<times> 'a reply" where
  "with_caller user d k =
     (case user of None \<Rightarrow> (d, Error_reply 401 ''authentication required'') | Some u \<Rightarrow> k u)"

text \<open>The newest rows first, at most \<open>n\<close> of them.\<close>

definition newest :: "nat \<Rightarrow> ('r \<Rightarrow> time) \<Rightarrow> ('k \<times> 'r) list \<Rightarrow> ('k \<times> 'r) list" where
  "newest n created t = take n (sort_key (\<lambda>(_, r). - created r) t)"

section \<open>Publishing a block trade\<close>

definition max_otc_expiry :: int64 where
  "max_otc_expiry = 30 * 24 * 3600000000000"

definition max_otc_seconds :: int64 where
  "max_otc_seconds = whole_seconds max_otc_expiry"

lemma max_otc_seconds_code [code, simp]: "max_otc_seconds = 2592000"
  using whole_seconds_exact [of 2592000] by (simp add: max_otc_seconds_def max_otc_expiry_def max_int64_def whole_seconds_def)

record otc_req =
  oq_symbol :: string
  oq_side :: string
  oq_quantity :: string
  oq_price :: string
  oq_min_fill :: string
  oq_expires_in :: int64

definition is_side :: "string \<Rightarrow> bool" where
  "is_side s \<longleftrightarrow> s = ''buy'' \<or> s = ''sell''"

text \<open>The checks in their order: the text of the refusal, or the row to create.\<close>

definition check_otc :: "time \<Rightarrow> uint64 \<Rightarrow> otc_req \<Rightarrow> string + otc_order" where
  "check_otc now user r =
     (let symbol = trim_space (oq_symbol r);
          min_fill = (if trim_space (oq_min_fill r) = [] then oq_quantity r else oq_min_fill r);
          longest = max_otc_seconds in
      and_then (validate_market_symbol symbol) (\<lambda>_.
      if \<not> is_side (oq_side r) then Inl ''side must be buy or sell''
      else and_then (validate_positive_decimal ''quantity'' (oq_quantity r)) (\<lambda>quantity.
      and_then (validate_positive_decimal ''price'' (oq_price r)) (\<lambda>_.
      and_then (validate_positive_decimal ''min_fill'' min_fill) (\<lambda>least.
      if quantity < least then Inl ''min_fill cannot exceed quantity''
      else if oq_expires_in r \<le> 0 \<or> longest < oq_expires_in r
        then Inl (''expires_in_seconds must be between 1 and '' @ int_string longest)
      else Inr \<lparr>ot_maker = user, ot_taker = None, ot_symbol = symbol, ot_side = oq_side r, ot_quantity = oq_quantity r,
                ot_price = oq_price r, ot_status = otc_open, ot_min_fill = min_fill, ot_counterparty = [],
                ot_expires = now + wrap64 (oq_expires_in r * 1000000000), ot_created = now\<rparr>)))))"

definition create_otc ::
  "(desk_call \<Rightarrow> bool) \<Rightarrow> time \<Rightarrow> uint64 \<Rightarrow> uint64 option \<Rightarrow> otc_req option \<Rightarrow> desk_db \<Rightarrow> desk_db \<times> otc_order reply" where
  "create_otc fault now new_id user body d =
     with_caller user d (\<lambda>u.
       (case body of
          None \<Rightarrow> (d, Error_reply 400 ''invalid request body'')
        | Some r \<Rightarrow>
            (case check_otc now u r of
               Inl e \<Rightarrow> (d, Error_reply 400 e)
             | Inr order \<Rightarrow>
                 if fault Create_otc \<or> map_of (dd_otc d) new_id \<noteq> None
                   then (d, Error_reply 500 ''could not create otc order'')
                 else (d\<lparr>dd_otc := AList.update new_id order (dd_otc d)\<rparr>, Ok_reply 201 order))))"

section \<open>Lists\<close>

definition list_otc ::
  "(desk_call \<Rightarrow> bool) \<Rightarrow> uint64 option \<Rightarrow> string \<Rightarrow> desk_db \<Rightarrow> (uint64 \<times> otc_order) list reply" where
  "list_otc fault user status d =
     snd (with_caller user d (\<lambda>u.
       let wanted = trim_space status in
       (d, if fault List_otc then Error_reply 500 ''could not list otc orders''
           else Ok_reply 200 (newest 200 ot_created
                  (filter (\<lambda>(_, b). (ot_maker b = u \<or> ot_taker b = Some u) \<and> (wanted = [] \<or> ot_status b = wanted)) (dd_otc d))))))"

definition list_open_otc ::
  "(desk_call \<Rightarrow> bool) \<Rightarrow> time \<Rightarrow> uint64 option \<Rightarrow> string \<Rightarrow> desk_db \<Rightarrow> (uint64 \<times> otc_order) list reply" where
  "list_open_otc fault now user symbol d =
     snd (with_caller user d (\<lambda>u.
       let wanted = trim_space symbol in
       (d, if fault List_otc then Error_reply 500 ''could not list open otc orders''
           else Ok_reply 200 (newest 200 ot_created
                  (filter (\<lambda>(_, b). ot_status b = otc_open \<and> now < ot_expires b \<and> ot_maker b \<noteq> u
                                    \<and> (wanted = [] \<or> ot_symbol b = wanted)) (dd_otc d))))))"

section \<open>Taking a block trade\<close>

datatype take_error = Otc_not_found | Otc_not_open | Otc_past | Below_min_fill | Take_other string

text \<open>The order as it is filled; \<open>text\<close> is the taker's quantity as it was written.\<close>

definition filled_order :: "uint64 \<Rightarrow> string \<Rightarrow> otc_order \<Rightarrow> otc_order" where
  "filled_order user quantity b =
     b\<lparr>ot_taker := Some user, ot_status := otc_matched, ot_counterparty := uint_string (ot_maker b), ot_quantity := quantity\<rparr>"

definition check_take :: "time \<Rightarrow> uint64 \<Rightarrow> int \<Rightarrow> otc_order \<Rightarrow> take_error option" where
  "check_take now user fill b =
     (if ot_status b \<noteq> otc_open then Some Otc_not_open
      else if ot_maker b = user then Some (Take_other ''you cannot take your own otc order'')
      else if \<not> now < ot_expires b then Some Otc_past
      else (case validate_positive_decimal ''quantity'' (ot_quantity b) of
              Inl e \<Rightarrow> Some (Take_other e)
            | Inr quantity \<Rightarrow>
                (case validate_positive_decimal ''min_fill'' (ot_min_fill b) of
                   Inl e \<Rightarrow> Some (Take_other e)
                 | Inr least \<Rightarrow>
                     if fill < least then Some Below_min_fill
                     else if quantity < fill then Some (Take_other ''quantity exceeds the order size'')
                     else None)))"

definition take_otc_tx ::
  "(desk_call \<Rightarrow> bool) \<Rightarrow> time \<Rightarrow> uint64 \<Rightarrow> uint64 \<Rightarrow> string \<Rightarrow> int \<Rightarrow> desk_db \<Rightarrow> take_error + (desk_db \<times> otc_order)" where
  "take_otc_tx fault now user i quantity fill d =
     (if fault Lock_otc then Inl (Take_other db_error)
      else (case map_of (dd_otc d) i of
              None \<Rightarrow> Inl Otc_not_found
            | Some b \<Rightarrow>
                (case check_take now user fill b of
                   Some e \<Rightarrow> Inl e
                 | None \<Rightarrow>
                     if fault Save_otc \<or> fault Commit_otc then Inl (Take_other db_error)
                     else let b' = filled_order user quantity b
                          in Inr (d\<lparr>dd_otc := AList.update i b' (dd_otc d)\<rparr>, b'))))"

fun take_reply :: "take_error \<Rightarrow> 'a reply" where
  "take_reply Otc_not_found = Error_reply 404 ''otc order not found''"
| "take_reply Otc_not_open = Error_reply 409 ''otc order is not open''"
| "take_reply Otc_past = Error_reply 409 ''otc order has expired''"
| "take_reply Below_min_fill = Error_reply 400 ''quantity is below the order's min_fill''"
| "take_reply (Take_other e) = Error_reply 400 e"

definition take_otc ::
  "(desk_call \<Rightarrow> bool) \<Rightarrow> time \<Rightarrow> uint64 option \<Rightarrow> string \<Rightarrow> string option \<Rightarrow> desk_db \<Rightarrow> desk_db \<times> otc_order reply" where
  "take_otc fault now user raw_id body d =
     with_caller user d (\<lambda>u.
       (case parse_uint raw_id of
          None \<Rightarrow> (d, Error_reply 400 ''invalid order id'')
        | Some i \<Rightarrow>
            (case body of
               None \<Rightarrow> (d, Error_reply 400 ''invalid request body'')
             | Some quantity \<Rightarrow>
                 (case validate_positive_decimal ''quantity'' quantity of
                    Inl e \<Rightarrow> (d, Error_reply 400 e)
                  | Inr fill \<Rightarrow>
                      (case take_otc_tx fault now u i quantity fill d of
                         Inl e \<Rightarrow> (d, take_reply e)
                       | Inr (d', b') \<Rightarrow> (d', Ok_reply 200 b'))))))"

section \<open>Cancelling and expiring\<close>

definition modify_otc :: "uint64 \<Rightarrow> (otc_order \<Rightarrow> otc_order) \<Rightarrow> desk_db \<Rightarrow> desk_db" where
  "modify_otc i g d =
     (case map_of (dd_otc d) i of
        None \<Rightarrow> d
      | Some b \<Rightarrow> d\<lparr>dd_otc := AList.update i (g b) (dd_otc d)\<rparr>)"

definition cancel_otc ::
  "(desk_call \<Rightarrow> bool) \<Rightarrow> uint64 option \<Rightarrow> string \<Rightarrow> desk_db \<Rightarrow> desk_db \<Rightarrow> desk_db \<times> otc_order reply" where
  "cancel_otc fault user raw_id d0 d =
     with_caller user d (\<lambda>u.
       (case parse_uint raw_id of
          None \<Rightarrow> (d, Error_reply 400 ''invalid order id'')
        | Some i \<Rightarrow>
            if fault Find_otc then (d, Error_reply 500 ''could not load otc order'')
            else (case map_of (dd_otc d0) i of
                    None \<Rightarrow> (d, Error_reply 404 ''otc order not found'')
                  | Some b \<Rightarrow>
                      if ot_maker b \<noteq> u then (d, Error_reply 404 ''otc order not found'')
                      else if ot_status b \<noteq> otc_open
                        then (d, Error_reply 409 ''only an open otc order can be cancelled'')
                      else if fault Cancel_otc then (d, Error_reply 500 ''could not cancel otc order'')
                      else (modify_otc i (\<lambda>row. row\<lparr>ot_status := otc_cancelled\<rparr>) d,
                            Ok_reply 200 (b\<lparr>ot_status := otc_cancelled\<rparr>)))))"

definition is_stale :: "time \<Rightarrow> otc_order \<Rightarrow> bool" where
  "is_stale now b \<longleftrightarrow> ot_status b = otc_open \<and> ot_expires b \<le> now"

definition expire_stale :: "(desk_call \<Rightarrow> bool) \<Rightarrow> time \<Rightarrow> desk_db \<Rightarrow> desk_db \<times> nat reply" where
  "expire_stale fault now d =
     (if fault Expire_otc then (d, Error_reply 500 db_error)
      else (d\<lparr>dd_otc := map (\<lambda>(i, b). (i, if is_stale now b then b\<lparr>ot_status := otc_expired\<rparr> else b)) (dd_otc d)\<rparr>,
            Ok_reply 200 (length (filter (\<lambda>(_, b). is_stale now b) (dd_otc d)))))"

section \<open>Time-weighted orders\<close>

definition min_twamm_duration :: int64 where
  "min_twamm_duration = 5 * 60000000000"

definition max_twamm_duration :: int64 where
  "max_twamm_duration = 180 * 24 * 3600000000000"

definition max_twamm_seconds :: int64 where
  "max_twamm_seconds = whole_seconds max_twamm_duration"

lemma max_twamm_seconds_code [code, simp]: "max_twamm_seconds = 15552000"
  using whole_seconds_exact [of 15552000]
  by (simp add: max_twamm_seconds_def max_twamm_duration_def max_int64_def whole_seconds_def)

text \<open>\<open>int(d.Hours())\<close> of the two limits.\<close>

definition whole_hours :: "int64 \<Rightarrow> int" where
  "whole_hours d = quo d 3600000000000"

record twamm_req =
  tq_symbol :: string
  tq_side :: string
  tq_quantity :: string
  tq_limit :: string
  tq_hours :: int64
  tq_delay :: int64

definition check_twamm :: "time \<Rightarrow> uint64 \<Rightarrow> twamm_req \<Rightarrow> string + twamm_order" where
  "check_twamm now user r =
     (let symbol = trim_space (tq_symbol r);
          unlimited = (trim_space (tq_limit r) = [] \<or> tq_limit r = ''0'');
          duration = wrap64 (tq_hours r * 3600000000000) in
      and_then (validate_market_symbol symbol) (\<lambda>_.
      if \<not> is_side (tq_side r) then Inl ''side must be buy or sell''
      else and_then (validate_positive_decimal ''total_quantity'' (tq_quantity r)) (\<lambda>_.
      and_then (if unlimited then Inr 0 else validate_positive_decimal ''limit_price'' (tq_limit r)) (\<lambda>_.
      if duration < min_twamm_duration \<or> max_twamm_duration < duration
        then Inl (''duration_hours must be between '' @ int_string (whole_hours min_twamm_duration) @ '' and ''
                  @ int_string (whole_hours max_twamm_duration))
      else if tq_delay r < 0 \<or> max_twamm_seconds < tq_delay r
        then Inl ''start_delay_seconds is out of range''
      else
        let start = now + wrap64 (tq_delay r * 1000000000) in
        Inr \<lparr>tw_user = user, tw_symbol = symbol, tw_side = tq_side r, tw_quantity = tq_quantity r, tw_filled = ''0'',
             tw_limit = (if unlimited then ''0'' else tq_limit r), tw_start = start, tw_end = start + duration,
             tw_status = twamm_active, tw_created = now\<rparr>))))"

definition create_twamm ::
  "(desk_call \<Rightarrow> bool) \<Rightarrow> time \<Rightarrow> uint64 \<Rightarrow> uint64 option \<Rightarrow> twamm_req option \<Rightarrow> desk_db \<Rightarrow> desk_db \<times> twamm_order reply" where
  "create_twamm fault now new_id user body d =
     with_caller user d (\<lambda>u.
       (case body of
          None \<Rightarrow> (d, Error_reply 400 ''invalid request body'')
        | Some r \<Rightarrow>
            (case check_twamm now u r of
               Inl e \<Rightarrow> (d, Error_reply 400 e)
             | Inr order \<Rightarrow>
                 if fault Create_twamm \<or> map_of (dd_twamm d) new_id \<noteq> None
                   then (d, Error_reply 500 ''could not create twamm order'')
                 else (d\<lparr>dd_twamm := AList.update new_id order (dd_twamm d)\<rparr>, Ok_reply 201 order))))"

definition list_twamm ::
  "(desk_call \<Rightarrow> bool) \<Rightarrow> uint64 option \<Rightarrow> desk_db \<Rightarrow> (uint64 \<times> twamm_order) list reply" where
  "list_twamm fault user d =
     snd (with_caller user d (\<lambda>u.
       (d, if fault List_twamm then Error_reply 500 ''could not list twamm orders''
           else Ok_reply 200 (newest 200 tw_created (filter (\<lambda>(_, b). tw_user b = u) (dd_twamm d))))))"

definition modify_twamm :: "uint64 \<Rightarrow> (twamm_order \<Rightarrow> twamm_order) \<Rightarrow> desk_db \<Rightarrow> desk_db" where
  "modify_twamm i g d =
     (case map_of (dd_twamm d) i of
        None \<Rightarrow> d
      | Some b \<Rightarrow> d\<lparr>dd_twamm := AList.update i (g b) (dd_twamm d)\<rparr>)"

definition cancel_twamm ::
  "(desk_call \<Rightarrow> bool) \<Rightarrow> uint64 option \<Rightarrow> string \<Rightarrow> desk_db \<Rightarrow> desk_db \<Rightarrow> desk_db \<times> twamm_order reply" where
  "cancel_twamm fault user raw_id d0 d =
     with_caller user d (\<lambda>u.
       (case parse_uint raw_id of
          None \<Rightarrow> (d, Error_reply 400 ''invalid order id'')
        | Some i \<Rightarrow>
            if fault Find_twamm then (d, Error_reply 500 ''could not load twamm order'')
            else (case map_of (dd_twamm d0) i of
                    None \<Rightarrow> (d, Error_reply 404 ''twamm order not found'')
                  | Some b \<Rightarrow>
                      if tw_user b \<noteq> u then (d, Error_reply 404 ''twamm order not found'')
                      else if tw_status b \<noteq> twamm_active
                        then (d, Error_reply 409 ''only an active twamm order can be cancelled'')
                      else if fault Cancel_twamm then (d, Error_reply 500 ''could not cancel twamm order'')
                      else (modify_twamm i (\<lambda>row. row\<lparr>tw_status := ''cancelled''\<rparr>) d,
                            Ok_reply 200 (b\<lparr>tw_status := ''cancelled''\<rparr>)))))"

text \<open>The part of the order that the schedule has released and that is not yet filled.\<close>

definition executable_slice :: "twamm_order \<Rightarrow> time \<Rightarrow> string + int" where
  "executable_slice b now =
     and_then (validate_positive_decimal ''total_quantity'' (tw_quantity b)) (\<lambda>quantity.
     and_then (parse_decimal_string (tw_filled b)) (\<lambda>filled.
       if \<not> tw_start b < now then Inr 0
       else
         let duration = time_sub (tw_end b) (tw_start b) in
         if duration \<le> 0 then Inl ''twamm order has no duration''
         else
           let elapsed = min (time_sub now (tw_start b)) duration;
               slice = quantity * elapsed div duration - filled
           in Inr (if slice < 0 then 0 else slice)))"

end
