(* ===== verification/Bots.thy ===== *)
theory Bots
  imports Block_Trade
begin

text \<open>
  The control plane of the trading bots (\<open>services/bots_service.go\<close>): the configuration of a bot, checked
  against the schema of its strategy, its lifecycle, and the record of the orders its engine decided to
  place. A handler that reads a row and later writes it has the two states as arguments, \<open>d0\<close> and \<open>d\<close>;
  no row is locked. \<open>marshal\<close> is the JSON encoder, \<open>shuffle\<close> the order in which Go visits a map.
\<close>

section \<open>Configurations\<close>

text \<open>A JSON value; a number keeps its literal.\<close>

datatype json = J_null | J_bool bool | J_number string | J_string string | J_array "json list" | J_object "(string \<times> json) list"

datatype config_value = C_int int64 | C_bool bool | C_text string

definition strategy_config_keys :: "(string \<times> (string \<times> string) list) list" where
  "strategy_config_keys =
     [(''market_maker'', [(''spread_bps'', ''int''), (''target_depth'', ''decimal''), (''rebalance_threshold_bps'', ''int''),
        (''min_spread_bps'', ''int''), (''max_spread_bps'', ''int''), (''min_book_depth'', ''decimal'')]),
      (''grid'', [(''lower_price'', ''decimal''), (''upper_price'', ''decimal''), (''levels'', ''int''),
        (''order_size'', ''decimal''), (''stop_out_bps'', ''int'')]),
      (''dca'', [(''amount_per_interval'', ''decimal''), (''interval_ms'', ''int''), (''max_price'', ''decimal''),
        (''total_intervals'', ''int'')]),
      (''twap'', [(''total_quantity'', ''decimal''), (''slices'', ''int''), (''interval_ms'', ''int''), (''side'', ''side'')]),
      (''arbitrage'', [(''min_edge_bps'', ''int''), (''max_quantity'', ''decimal''), (''depth_fraction_bps'', ''int'')]),
      (''sniper'', [(''max_price_impact_bps'', ''int''), (''min_liquidity'', ''decimal''), (''buy_size'', ''decimal'')]),
      (''rebalance'', [(''drift_threshold_bps'', ''int'')]),
      (''liquidation'', [(''close_factor_bps'', ''int''), (''min_bonus_bps'', ''int'')]),
      (''copy'', [(''trader_address'', ''address''), (''scale_bps'', ''int''), (''copy_perps'', ''bool'')])]"

text \<open>\<open>json.Unmarshal\<close> into a variable of a basic type: \<open>null\<close> leaves its zero value.\<close>

fun decode_text :: "json \<Rightarrow> string option" where
  "decode_text (J_string s) = Some s"
| "decode_text J_null = Some []"
| "decode_text _ = None"

fun decode_bool :: "json \<Rightarrow> bool option" where
  "decode_bool (J_bool b) = Some b"
| "decode_bool J_null = Some False"
| "decode_bool _ = None"

fun decode_int64 :: "json \<Rightarrow> string + int64" where
  "decode_int64 J_null = Inr 0"
| "decode_int64 (J_number s) = (case parse_int64 s of None \<Rightarrow> Inl ''must be an integer'' | Some n \<Rightarrow> Inr n)"
| "decode_int64 (J_string s) = (case parse_int64 (trim_space s) of None \<Rightarrow> Inl ''must be an integer'' | Some n \<Rightarrow> Inr n)"
| "decode_int64 _ = Inl ''must be an integer''"

text \<open>The value of one key. The double quotes in the messages are left out.\<close>

definition config_error :: "string \<Rightarrow> string \<Rightarrow> string" where
  "config_error key e = ''config '' @ key @ e"

definition decode_config :: "string \<Rightarrow> string \<Rightarrow> json \<Rightarrow> string + config_value" where
  "decode_config kind key v =
     (if kind = ''int'' then map_error (\<lambda>e. config_error key ('': '' @ e)) (and_then (decode_int64 v) (\<lambda>n. Inr (C_int n)))
      else if kind = ''bool'' then
        (case decode_bool v of None \<Rightarrow> Inl (config_error key '' must be a boolean'') | Some b \<Rightarrow> Inr (C_bool b))
      else if kind = ''side'' then
        (case decode_text v of
           None \<Rightarrow> Inl (config_error key '' must be a string'')
         | Some s \<Rightarrow> if is_side s then Inr (C_text s) else Inl (config_error key '' must be buy or sell''))
      else if kind = ''address'' then
        (case decode_text v of
           None \<Rightarrow> Inl (config_error key '' must be a string'')
         | Some s \<Rightarrow> if is_hex_address s then Inr (C_text (to_lower s))
                     else Inl (config_error key '' must be a 0x-prefixed address''))
      else
        (case decode_text v of
           None \<Rightarrow> Inl (config_error key '' must be a decimal string'')
         | Some s \<Rightarrow> and_then (map_error (\<lambda>e. config_error key ('': '' @ e)) (parse_decimal_string s)) (\<lambda>_. Inr (C_text s))))"

definition check_config_keys :: "string \<Rightarrow> (string \<times> string) list \<Rightarrow> (string \<times> json) list \<Rightarrow> string + unit" where
  "check_config_keys strategy schema entries =
     (case find (\<lambda>(k, _). map_of schema k = None) entries of
        None \<Rightarrow> Inr ()
      | Some (k, _) \<Rightarrow> Inl (config_error k ('' is not valid for strategy '' @ strategy)))"

fun canonical_config :: "(string \<times> string) list \<Rightarrow> (string \<times> json) list \<Rightarrow> string + (string \<times> config_value) list" where
  "canonical_config schema [] = Inr []"
| "canonical_config schema ((k, v) # entries) =
     and_then (decode_config (case map_of schema k of None \<Rightarrow> [] | Some kind \<Rightarrow> kind) k v) (\<lambda>c.
       and_then (canonical_config schema entries) (\<lambda>cs. Inr ((k, c) # cs)))"

text \<open>A repeated key of the object keeps its last value; a configuration that is \<open>null\<close> has no keys.\<close>

fun config_fields :: "json option \<Rightarrow> (string \<times> json) list option" where
  "config_fields None = Some []"
| "config_fields (Some J_null) = Some []"
| "config_fields (Some (J_object entries)) = Some (AList.clearjunk (rev entries))"
| "config_fields (Some _) = None"

definition validate_strategy_config ::
  "((string \<rightharpoonup> config_value) \<Rightarrow> string) \<Rightarrow> ((string \<times> json) list \<Rightarrow> (string \<times> json) list) \<Rightarrow>
     ((string \<times> json) list \<Rightarrow> (string \<times> json) list) \<Rightarrow> string \<Rightarrow> json option \<Rightarrow> string + string" where
  "validate_strategy_config marshal shuffle shuffle' strategy raw =
     (case map_of strategy_config_keys strategy of
        None \<Rightarrow> Inl (''unknown strategy '' @ strategy)
      | Some schema \<Rightarrow>
          (case config_fields raw of
             None \<Rightarrow> Inl ''config must be a JSON object''
           | Some entries \<Rightarrow>
               and_then (check_config_keys strategy schema (shuffle entries)) (\<lambda>_.
               and_then (canonical_config schema (shuffle' entries)) (\<lambda>c. Inr (marshal (map_of c))))))"

section \<open>Tables\<close>

record bot =
  bt_user :: uint64
  bt_name :: string
  bt_strategy :: string
  bt_symbol :: string
  bt_status :: string
  bt_config :: string
  bt_max_order :: string
  bt_max_loss :: string
  bt_max_open :: int
  bt_pnl :: string
  bt_filled :: int
  bt_volume :: string
  bt_created :: time

record bot_order =
  bo_bot :: uint64
  bo_user :: uint64
  bo_symbol :: string
  bo_side :: string
  bo_kind :: string
  bo_price :: string
  bo_quantity :: string
  bo_reduce_only :: bool
  bo_source :: string
  bo_status :: string
  bo_created :: time

record bot_day =
  bd_bot :: uint64
  bd_day :: time
  bd_placed :: int
  bd_filled :: int
  bd_volume :: string
  bd_pnl :: string

record bots_db =
  bb_bots :: "(uint64 \<times> bot) list"
  bb_orders :: "(uint64 \<times> bot_order) list"
  bb_days :: "(uint64 \<times> bot_day) list"

datatype bots_call = Create_bot | List_bots | Find_bot | Update_bot | Delete_bot | Count_bot | List_bot_orders | List_days
  | Count_pending | Create_bot_order | Group_bots

definition bot_active :: string where "bot_active = ''active''"
definition bot_paused :: string where "bot_paused = ''paused''"
definition bot_stopped :: string where "bot_stopped = ''stopped''"
definition pending_status :: string where "pending_status = ''pending''"

section \<open>Creating a bot\<close>

record bot_req =
  bq_name :: string
  bq_strategy :: string
  bq_symbol :: string
  bq_config :: "json option"
  bq_max_order :: string
  bq_max_loss :: string
  bq_max_open :: int

definition check_bot ::
  "(string \<Rightarrow> json option \<Rightarrow> string + string) \<Rightarrow> time \<Rightarrow> uint64 \<Rightarrow> bot_req \<Rightarrow> string + bot" where
  "check_bot validate_config now user r =
     (let name = trim_space (bq_name r); symbol = trim_space (bq_symbol r) in
      if name = [] \<or> 128 < length name then Inl ''name must be between 1 and 128 characters''
      else if map_of strategy_config_keys (bq_strategy r) = None then Inl ''unknown strategy''
      else and_then (validate_market_symbol symbol) (\<lambda>_.
           and_then (validate_config (bq_strategy r) (bq_config r)) (\<lambda>config.
           and_then (validate_positive_decimal ''max_order_size'' (bq_max_order r)) (\<lambda>_.
           and_then (map_error (\<lambda>e. ''max_daily_loss: '' @ e) (parse_decimal_string (bq_max_loss r))) (\<lambda>_.
             if bq_max_open r \<le> 0 \<or> 1000 < bq_max_open r then Inl ''max_open_orders must be between 1 and 1000''
             else Inr \<lparr>bt_user = user, bt_name = name, bt_strategy = bq_strategy r, bt_symbol = symbol, bt_status = bot_active,
                       bt_config = config, bt_max_order = bq_max_order r, bt_max_loss = bq_max_loss r,
                       bt_max_open = bq_max_open r, bt_pnl = ''0'', bt_filled = 0, bt_volume = ''0'', bt_created = now\<rparr>)))))"

definition create_bot ::
  "(string \<Rightarrow> json option \<Rightarrow> string + string) \<Rightarrow> (bots_call \<Rightarrow> bool) \<Rightarrow> time \<Rightarrow> uint64 \<Rightarrow> uint64 option \<Rightarrow> bot_req option \<Rightarrow>
     bots_db \<Rightarrow> bots_db \<times> bot reply" where
  "create_bot validate_config fault now new_id user body d =
     with_caller user d (\<lambda>u.
       (case body of
          None \<Rightarrow> (d, Error_reply 400 ''invalid request body'')
        | Some r \<Rightarrow>
            (case check_bot validate_config now u r of
               Inl e \<Rightarrow> (d, Error_reply 400 e)
             | Inr b \<Rightarrow>
                 if fault Create_bot \<or> map_of (bb_bots d) new_id \<noteq> None then (d, Error_reply 500 ''could not create bot'')
                 else (d\<lparr>bb_bots := AList.update new_id b (bb_bots d)\<rparr>, Ok_reply 201 b))))"

section \<open>Reading\<close>

definition list_bots ::
  "(bots_call \<Rightarrow> bool) \<Rightarrow> uint64 option \<Rightarrow> string \<Rightarrow> string \<Rightarrow> bots_db \<Rightarrow> (uint64 \<times> bot) list reply" where
  "list_bots fault user strategy status d =
     snd (with_caller user d (\<lambda>u.
       let strategy' = trim_space strategy; status' = trim_space status in
       (d, if fault List_bots then Error_reply 500 ''could not list bots''
           else Ok_reply 200 (newest 500 bt_created
                  (filter (\<lambda>(_, b). bt_user b = u \<and> (strategy' = [] \<or> bt_strategy b = strategy')
                                    \<and> (status' = [] \<or> bt_status b = status')) (bb_bots d))))))"

text \<open>The handlers about one bot: the caller, the number in the path and what comes before the look-up, then the
  bot, which must be the caller's.\<close>

definition with_bot ::
  "(bots_call \<Rightarrow> bool) \<Rightarrow> uint64 option \<Rightarrow> string \<Rightarrow> 'a reply option \<Rightarrow> (uint64 \<Rightarrow> bot \<Rightarrow> bots_db \<times> 'a reply) \<Rightarrow>
     bots_db \<Rightarrow> bots_db \<Rightarrow> bots_db \<times> 'a reply" where
  "with_bot fault user raw_id pre k d0 d =
     with_caller user d (\<lambda>u.
       (case parse_uint raw_id of
          None \<Rightarrow> (d, Error_reply 400 ''invalid bot id'')
        | Some i \<Rightarrow>
            (case pre of
               Some r \<Rightarrow> (d, r)
             | None \<Rightarrow>
                 if fault Find_bot then (d, Error_reply 500 ''could not load bot'')
                 else (case map_of (bb_bots d0) i of
                         None \<Rightarrow> (d, Error_reply 404 ''bot not found'')
                       | Some b \<Rightarrow> if bt_user b \<noteq> u then (d, Error_reply 404 ''bot not found'') else k i b))))"

definition get_bot :: "(bots_call \<Rightarrow> bool) \<Rightarrow> uint64 option \<Rightarrow> string \<Rightarrow> bots_db \<Rightarrow> bot reply" where
  "get_bot fault user raw_id d = snd (with_bot fault user raw_id None (\<lambda>_ b. (d, Ok_reply 200 b)) d d)"

definition list_bot_orders ::
  "(bots_call \<Rightarrow> bool) \<Rightarrow> uint64 option \<Rightarrow> string \<Rightarrow> string \<Rightarrow> bots_db \<Rightarrow> bots_db \<Rightarrow> (uint64 \<times> bot_order) list reply" where
  "list_bot_orders fault user raw_id limit d0 d =
     snd (with_bot fault user raw_id None (\<lambda>i _.
       let raw = trim_space limit;
           n = (if raw = [] then Some 100
                else (case parse_int64 raw of None \<Rightarrow> None | Some n \<Rightarrow> if n \<le> 0 \<or> 500 < n then None else Some n)) in
       (d, (case n of
              None \<Rightarrow> Error_reply 400 ''limit must be between 1 and 500''
            | Some n \<Rightarrow>
                if fault List_bot_orders then Error_reply 500 ''could not list orders''
                else Ok_reply 200 (newest (nat n) bo_created (filter (\<lambda>(_, x). bo_bot x = i) (bb_orders d)))))) d0 d)"

definition bot_performance_summary ::
  "(bots_call \<Rightarrow> bool) \<Rightarrow> uint64 option \<Rightarrow> string \<Rightarrow> bots_db \<Rightarrow> bots_db \<Rightarrow> (uint64 \<times> bot_day) list reply" where
  "bot_performance_summary fault user raw_id d0 d =
     snd (with_bot fault user raw_id None (\<lambda>i _.
       (d, if fault List_days then Error_reply 500 ''could not load performance''
           else Ok_reply 200 (newest 90 bd_day (filter (\<lambda>(_, x). bd_bot x = i) (bb_days d))))) d0 d)"

text \<open>The summary adds up the rows of a \<open>GROUP BY strategy, status\<close>; its total is the number of those rows.\<close>

definition group_rows :: "uint64 \<Rightarrow> bots_db \<Rightarrow> ((string \<times> string) \<times> nat) list" where
  "group_rows u d =
     (let mine = map (\<lambda>(_, b). (bt_strategy b, bt_status b)) (filter (\<lambda>(_, b). bt_user b = u) (bb_bots d))
      in map (\<lambda>g. (g, count_list mine g)) (remdups mine))"

definition add_count :: "string \<Rightarrow> nat \<Rightarrow> (string \<times> nat) list \<Rightarrow> (string \<times> nat) list" where
  "add_count k n m = AList.update k ((case map_of m k of None \<Rightarrow> 0 | Some x \<Rightarrow> x) + n) m"

definition count_by :: "(string \<times> string \<Rightarrow> string) \<Rightarrow> ((string \<times> string) \<times> nat) list \<Rightarrow> (string \<times> nat) list" where
  "count_by f rows = foldl (\<lambda>m (g, n). add_count (f g) n m) [] rows"

definition bots_summary ::
  "(bots_call \<Rightarrow> bool) \<Rightarrow> uint64 option \<Rightarrow> bots_db \<Rightarrow> ((string \<times> nat) list \<times> (string \<times> nat) list \<times> nat) reply" where
  "bots_summary fault user d =
     snd (with_caller user d (\<lambda>u.
       (d, if fault Group_bots then Error_reply 500 ''could not summarise bots''
           else let rows = group_rows u d in Ok_reply 200 (count_by fst rows, count_by snd rows, length rows))))"

definition available_strategies :: "(string \<times> (string \<times> string) list) list reply" where
  "available_strategies = Ok_reply 200 strategy_config_keys"

section \<open>The lifecycle\<close>

definition modify_bot :: "uint64 \<Rightarrow> (bot \<Rightarrow> bot) \<Rightarrow> bots_db \<Rightarrow> bots_db" where
  "modify_bot i g d =
     (case map_of (bb_bots d) i of
        None \<Rightarrow> d
      | Some b \<Rightarrow> d\<lparr>bb_bots := AList.update i (g b) (bb_bots d)\<rparr>)"

definition is_bot_status :: "string \<Rightarrow> bool" where
  "is_bot_status s \<longleftrightarrow> s = bot_active \<or> s = bot_paused \<or> s = bot_stopped"

definition update_bot_status ::
  "(bots_call \<Rightarrow> bool) \<Rightarrow> uint64 option \<Rightarrow> string \<Rightarrow> string option \<Rightarrow> bots_db \<Rightarrow> bots_db \<Rightarrow> bots_db \<times> bot reply" where
  "update_bot_status fault user raw_id body d0 d =
     with_bot fault user raw_id
       (case body of
          None \<Rightarrow> Some (Error_reply 400 ''invalid request body'')
        | Some s \<Rightarrow> if is_bot_status s then None else Some (Error_reply 400 ''status must be active, paused or stopped''))
       (\<lambda>i b.
         if bt_status b = bot_stopped then (d, Error_reply 409 ''a stopped bot cannot be restarted'')
         else if fault Update_bot then (d, Error_reply 500 ''could not update bot'')
         else (modify_bot i (\<lambda>row. row\<lparr>bt_status := the body\<rparr>) d, Ok_reply 200 (b\<lparr>bt_status := the body\<rparr>))) d0 d"

definition delete_bot ::
  "(bots_call \<Rightarrow> bool) \<Rightarrow> uint64 option \<Rightarrow> string \<Rightarrow> bots_db \<Rightarrow> bots_db \<Rightarrow> bots_db \<times> uint64 reply" where
  "delete_bot fault user raw_id d0 d =
     with_bot fault user raw_id None (\<lambda>i b.
       if bt_status b = bot_active then (d, Error_reply 409 ''pause the bot before deleting it'')
       else if fault Delete_bot then (d, Error_reply 500 ''could not delete bot'')
       else (d\<lparr>bb_orders := filter (\<lambda>(_, x). \<not> (bo_bot x = i \<and> bo_status x = pending_status)) (bb_orders d),
               bb_bots := AList.delete i (bb_bots d)\<rparr>,
             Ok_reply 200 i)) d0 d"

section \<open>Recording an order\<close>

record engine_order =
  eo_symbol :: string
  eo_side :: string
  eo_kind :: string
  eo_price :: string
  eo_quantity :: string
  eo_source :: string
  eo_reduce_only :: bool

definition pending_of :: "uint64 \<Rightarrow> bots_db \<Rightarrow> nat" where
  "pending_of i d = length (filter (\<lambda>(_, x). bo_bot x = i \<and> bo_status x = pending_status) (bb_orders d))"

definition check_bot_order :: "engine_order \<Rightarrow> bot \<Rightarrow> string + unit" where
  "check_bot_order e b =
     (if bt_status b \<noteq> bot_active then Inl ''bot is not active''
      else and_then (validate_positive_decimal ''quantity'' (eo_quantity e)) (\<lambda>quantity.
      and_then (validate_positive_decimal ''max_order_size'' (bt_max_order b)) (\<lambda>largest.
      if largest < quantity then Inl ''order exceeds the bot's max_order_size''
      else if \<not> is_side (eo_side e) then Inl ''side must be buy or sell''
      else if eo_kind e \<notin> {''limit'', ''market'', ''post_only''} then Inl ''order_kind must be limit, market or post_only''
      else if eo_kind e = ''market'' then Inr ()
      else and_then (validate_positive_decimal ''price'' (eo_price e)) (\<lambda>_. Inr ()))))"

text \<open>The bot is read in \<open>d0\<close>, its open orders are counted in \<open>d1\<close>, the order is stored in \<open>d\<close>.\<close>

definition record_bot_order ::
  "(bots_call \<Rightarrow> bool) \<Rightarrow> time \<Rightarrow> uint64 \<Rightarrow> uint64 \<Rightarrow> engine_order \<Rightarrow> bots_db \<Rightarrow> bots_db \<Rightarrow> bots_db \<Rightarrow> bots_db \<times> (string + bot_order)" where
  "record_bot_order fault now new_id i e d0 d1 d =
     (case (if fault Find_bot then None else map_of (bb_bots d0) i) of
        None \<Rightarrow> (d, Inl (''bot '' @ uint_string i @ '' not found''))
      | Some b \<Rightarrow>
          (case check_bot_order e b of
             Inl err \<Rightarrow> (d, Inl err)
           | Inr _ \<Rightarrow>
               if fault Count_pending then (d, Inl db_error)
               else if bt_max_open b \<le> int (pending_of i d1) then (d, Inl ''bot has reached its max_open_orders'')
               else
                 let x = \<lparr>bo_bot = i, bo_user = bt_user b, bo_symbol = eo_symbol e, bo_side = eo_side e, bo_kind = eo_kind e,
                          bo_price = eo_price e, bo_quantity = eo_quantity e, bo_reduce_only = eo_reduce_only e,
                          bo_source = eo_source e, bo_status = pending_status, bo_created = now\<rparr> in
                 if fault Create_bot_order \<or> map_of (bb_orders d) new_id \<noteq> None then (d, Inl db_error)
                 else (d\<lparr>bb_orders := AList.update new_id x (bb_orders d)\<rparr>, Inr x)))"

end
