(* ===== verification/Session_Props.thy ===== *)
theory Session_Props
  imports Sessions
begin

text \<open>
  What a session guarantees. A token that was logged out is refused until it expires, over every run of
  requests and restarts of one process whose clock does not go back, unless a restart cannot read the list. And where the accounts fall
  short: deactivating an account does not keep its owner from logging in, a profile edit stores a name
  that registration refuses, and an operator promoted to \<open>superadmin\<close> loses the operator routes.
\<close>

section \<open>Revocations\<close>

text \<open>
  What the development relies on of the JWT library: the claims of a token do not depend on when it is
  read, and no token is accepted from its expiry on.
\<close>

definition jwt_library :: "(time \<Rightarrow> string \<Rightarrow> claims option) \<Rightarrow> bool" where
  "jwt_library parse \<longleftrightarrow>
     (\<forall>n m token c c'. parse n token = Some c \<longrightarrow> parse m token = Some c' \<longrightarrow> c' = c)
     \<and> (\<forall>n token c x. parse n token = Some c \<longrightarrow> claim c ''exp'' = Ctx_float x \<longrightarrow> n < f64_to_int64 x * 1000000000)"

lemma map_of_filter_hit: "map_of t k = Some v \<Longrightarrow> P (k, v) \<Longrightarrow> map_of (filter P t) k = Some v"
  by (induction t) (auto split: if_splits)

definition held_back :: "string \<Rightarrow> time \<Rightarrow> time \<Rightarrow> auth_state \<Rightarrow> bool" where
  "held_back jti e t st \<longleftrightarrow> (t \<le> e \<longrightarrow> map_of (as_mem st) jti = Some e \<and> map_of (as_rows st) jti = Some e)"

lemma held_later: "held_back jti e t st \<Longrightarrow> t \<le> n \<Longrightarrow> held_back jti e n st"
  by (simp add: held_back_def)

lemma held_later2: "held_back jti e t st \<Longrightarrow> t \<le> n \<Longrightarrow> n \<le> n' \<Longrightarrow> held_back jti e n' st"
  by (simp add: held_back_def)

lemma is_revoked_held: "is_revoked n j st = (r, st') \<Longrightarrow> held_back jti e n st \<Longrightarrow> held_back jti e n st'"
  by (auto simp: held_back_def is_revoked_def delete_conv' split: option.splits if_splits)

lemma validate_held:
  "validate_token parse n n' token st = (r, st') \<Longrightarrow> held_back jti e n' st \<Longrightarrow> held_back jti e n' st'"
  by (auto simp: validate_token_def Let_def split: option.splits prod.splits if_splits dest: is_revoked_held)

lemma revoke_held: "revoke fault j x st = Some st' \<Longrightarrow> held_back jti e t st \<Longrightarrow> held_back jti e t st'"
  by (auto simp: revoke_def held_back_def update_conv' split: if_splits)

lemma load_held: "held_back jti e t st \<Longrightarrow> t \<le> n \<Longrightarrow> \<not> fault List_revoked \<Longrightarrow> held_back jti e n (load_revoked fault n st)"
  by (auto simp: held_back_def load_revoked_def Let_def intro!: map_of_filter_hit)

definition same_store :: "auth_state \<Rightarrow> auth_state \<Rightarrow> bool" where
  "same_store st st' \<longleftrightarrow> as_rows st' = as_rows st \<and> as_mem st' = as_mem st"

lemma same_store_refl [simp]: "same_store st st"
  by (simp add: same_store_def)

lemma modify_user_store [simp]: "same_store st (modify_user i g st)"
  by (simp add: same_store_def modify_user_def split: option.split)

lemma same_store_held: "same_store st st' \<Longrightarrow> held_back jti e t st \<Longrightarrow> t \<le> n \<Longrightarrow> held_back jti e n st'"
  by (auto simp: same_store_def held_back_def)

text \<open>
  One process: the clock and the state. A restart reads the list of revocations from the table; when
  that read fails it is only logged and the process serves with an empty list, so the step says which
  of the two happened.
\<close>

datatype auth_event = Served | Restarted_loaded | Restarted_unread

inductive auth_step ::
  "(time \<Rightarrow> string \<Rightarrow> claims option) \<Rightarrow> auth_event \<Rightarrow> time \<times> auth_state \<Rightarrow> time \<times> auth_state \<Rightarrow> bool"
  for parse where
  step_check: "t \<le> n \<Longrightarrow> n \<le> n' \<Longrightarrow> auth_step parse Served (t, st) (n', snd (auth_required parse n n' header st))"
| step_admin: "t \<le> n \<Longrightarrow> n \<le> n' \<Longrightarrow> auth_step parse Served (t, st) (n', snd (admin_required parse n n' header st))"
| step_refresh: "t \<le> n \<Longrightarrow> n \<le> n' \<Longrightarrow>
    auth_step parse Served (t, st) (n', fst (refresh_token parse sign uuid_of fault n n' jti header st))"
| step_logout: "t \<le> n \<Longrightarrow> n \<le> n' \<Longrightarrow> auth_step parse Served (t, st) (n', fst (logout parse fault n n' header st))"
| step_restart: "t \<le> n \<Longrightarrow>
    auth_step parse (if fault List_revoked then Restarted_unread else Restarted_loaded) (t, st) (n, load_revoked fault n st)"
| step_register: "t \<le> n \<Longrightarrow>
    auth_step parse Served (t, st) (n, fst (register valid_email hash_password sign fault n jti new_id body st))"
| step_profile: "t \<le> n \<Longrightarrow> auth_step parse Served (t, st) (n, fst (update_profile hex_address fault ctx profile st))"
| step_connect: "t \<le> n \<Longrightarrow> auth_step parse Served (t, st) (n, fst (connect_wallet hex_address fault ctx address st))"
| step_disconnect: "t \<le> n \<Longrightarrow> auth_step parse Served (t, st) (n, fst (disconnect_wallet fault ctx st))"
| step_update_user: "t \<le> n \<Longrightarrow> auth_step parse Served (t, st) (n, fst (update_user fault i edit st))"
| step_delete_user: "t \<le> n \<Longrightarrow> auth_step parse Served (t, st) (n, fst (delete_user fault i st))"

inductive auth_run ::
  "(time \<Rightarrow> string \<Rightarrow> claims option) \<Rightarrow> auth_event list \<Rightarrow> time \<times> auth_state \<Rightarrow> time \<times> auth_state \<Rightarrow> bool"
  for parse where
  run_start: "auth_run parse [] x x"
| run_step: "auth_run parse evs x y \<Longrightarrow> auth_step parse ev y z \<Longrightarrow> auth_run parse (evs @ [ev]) x z"

lemma with_token_held:
  "with_token parse n n' k header st = (g, st') \<Longrightarrow> held_back jti e n' st \<Longrightarrow> held_back jti e n' st'"
  by (auto simp: with_token_def Let_def split: prod.splits option.splits if_splits dest: validate_held)

lemma refresh_held:
  "refresh_token parse sign uuid_of fault n n' j header st = (st', r) \<Longrightarrow> held_back jti e n' st \<Longrightarrow> held_back jti e n' st'"
  by (auto simp: refresh_token_def split: prod.splits option.splits if_splits dest: validate_held)

lemma logout_held:
  "logout parse fault n n' header st = (st', r) \<Longrightarrow> held_back jti e n' st \<Longrightarrow> held_back jti e n' st'"
  by (auto simp: logout_def Let_def split: prod.splits option.splits if_splits dest: validate_held revoke_held)

lemmas request_held = with_token_held refresh_held logout_held

lemma account_edits_keep_store:
  "same_store st (fst (register valid_email hash_password sign fault n jti new_id body st))"
  "same_store st (fst (update_profile hex_address fault ctx profile st))"
  "same_store st (fst (connect_wallet hex_address fault ctx address st))"
  "same_store st (fst (disconnect_wallet fault ctx st))"
  "same_store st (fst (update_user fault i edit st))"
  "same_store st (fst (delete_user fault i st))"
  by (simp_all add: register_def update_profile_def connect_wallet_def disconnect_wallet_def update_user_def
      delete_user_def Let_def split: option.split)
    (simp add: same_store_def)

lemma step_held:
  assumes "auth_step parse ev x y" "ev \<noteq> Restarted_unread" "held_back jti e (fst x) (snd x)"
  shows "held_back jti e (fst y) (snd y)"
  using assms
proof (induction rule: auth_step.induct)
  case (step_check t n n' st header)
  then show ?case
    by (cases "auth_required parse n n' header st") (auto simp: auth_required_def elim: request_held intro: held_later2)
next
  case (step_admin t n n' st header)
  then show ?case
    by (cases "admin_required parse n n' header st") (auto simp: admin_required_def elim: request_held intro: held_later2)
next
  case (step_refresh t n n' st sign uuid_of fault j header)
  then show ?case
    by (cases "refresh_token parse sign uuid_of fault n n' j header st") (auto elim: request_held intro: held_later2)
next
  case (step_logout t n n' st fault header)
  then show ?case by (cases "logout parse fault n n' header st") (auto elim: request_held intro: held_later2)
qed (auto intro: load_held same_store_held account_edits_keep_store split: if_splits)

lemma run_held:
  "auth_run parse evs x y \<Longrightarrow> Restarted_unread \<notin> set evs \<Longrightarrow> held_back jti e (fst x) (snd x) \<Longrightarrow>
    held_back jti e (fst y) (snd y)"
  by (induction rule: auth_run.induct) (auto dest: step_held)

text \<open>A restart that cannot read the list forgets every revocation: the token is accepted again.\<close>

lemma unread_restart_accepts:
  assumes "fault List_revoked" and "parse n token = Some c"
  shows "auth_step parse Restarted_unread (t, st) (max t n, load_revoked fault (max t n) st)"
    "fst (validate_token parse n n' token (load_revoked fault (max t n) st)) = Some c"
  using step_restart [where t = t and n = "max t n" and fault = fault and parse = parse and st = st] assms
  by (simp_all add: validate_token_def load_revoked_def is_revoked_def Let_def)

lemma held_back_refused:
  assumes "held_back jti e t st" "t \<le> n" "n \<le> n'" "n' \<le> e" "parse n token = Some c" "jti = get_string c ''jti''" "jti \<noteq> []"
  shows "fst (validate_token parse n n' token st) = None"
  using assms by (simp add: validate_token_def held_back_def is_revoked_def Let_def)

lemma logout_ok:
  assumes "logout parse fault n n' header st = (st', Ok_reply code x)"
  obtains token c where "bearer_token header = Some token" "parse n token = Some c" "get_string c ''jti'' \<noteq> []"
    "held_back (get_string c ''jti'') (token_expiry n' (claim c ''exp'')) n' st'"
proof -
  obtain token where b: "bearer_token header = Some token" using assms by (auto simp: logout_def split: option.splits)
  obtain r s where v: "validate_token parse n n' token st = (r, s)" by fastforce
  obtain c where c: "r = Some c" using assms by (cases r) (auto simp: logout_def b v)
  have p: "parse n token = Some c" using v c by (auto simp: validate_token_def Let_def split: option.splits prod.splits if_splits)
  have j: "get_string c ''jti'' \<noteq> []" and
    "revoke fault (get_string c ''jti'') (token_expiry n' (claim c ''exp'')) s = Some st'"
    using assms by (auto simp: logout_def b v c Let_def split: if_splits option.splits)
  then have "held_back (get_string c ''jti'') (token_expiry n' (claim c ''exp'')) n' st'"
    by (auto simp: revoke_def held_back_def update_conv' split: if_splits)
  with b p j that show thesis by blast
qed

text \<open>C27: A token that was logged out stays refused over every later run of requests and restarts in
  which each restart could read the list of revocations; a restart that cannot read it makes the process
  accept the token again (\<open>unread_restart_accepts\<close>). The clock does not go back, and the request is one whose
  look-up comes no later than the token's own expiry, where the list holds it, or one that the library
  reads from the expiry on. What is left open is a request that is read just before the expiry and looked up just after.\<close>

theorem revoked_token_stays_refused:
  assumes "jwt_library parse" and "logout parse fault n0 n0' header st = (st0, Ok_reply code x)"
    and "bearer_token header = Some token" and "parse n0 token = Some c" and "claim c ''exp'' = Ctx_float v"
    and "auth_run parse evs (n0', st0) (t, st')" and "Restarted_unread \<notin> set evs" and "t \<le> n" and "n \<le> n'"
    and "n' \<le> f64_to_int64 v * 1000000000 \<or> f64_to_int64 v * 1000000000 \<le> n"
  shows "fst (validate_token parse n n' token st') = None"
proof (cases "parse n token")
  case None
  then show ?thesis by (simp add: validate_token_def)
next
  case (Some c')
  have c: "c' = c" using assms(1,4) Some by (auto simp: jwt_library_def)
  then have "n < f64_to_int64 v * 1000000000" using assms(1,5) Some by (auto simp: jwt_library_def)
  then have n': "n' \<le> f64_to_int64 v * 1000000000" using assms(10) by simp
  have h: "held_back (get_string c ''jti'') (f64_to_int64 v * 1000000000) n0' st0" "get_string c ''jti'' \<noteq> []"
    using logout_ok [OF assms(2)] assms(3,4,5) by (metis option.inject token_expiry.simps(1))+
  have "held_back (get_string c ''jti'') (f64_to_int64 v * 1000000000) t st'"
    using run_held [OF assms(6,7)] h(1) by simp
  then show ?thesis using assms(8,9) n' Some h(2) c by (auto intro: held_back_refused)
qed

definition eg_claims :: claims where
  "eg_claims = [(''jti'', Ctx_string ''j1''), (''user_id'', Ctx_string ''u1''), (''role'', Ctx_string ''superadmin''),
     (''exp'', Ctx_float (Fin False 1000))]"

definition eg_parse :: "time \<Rightarrow> string \<Rightarrow> claims option" where
  "eg_parse n token = (if token = ''t'' \<and> n < 1000000000000 then Some eg_claims else None)"

definition eg_user :: user where
  "eg_user = \<lparr>us_email = ''a@b.c'', us_username = ''alice'', us_password = ''hash'', us_wallet = [], us_role = ''user'',
     us_verified = False, us_active = True\<rparr>"

definition eg_users :: auth_state where
  "eg_users = \<lparr>as_users = [(''u1'', eg_user)], as_rows = [], as_mem = []\<rparr>"

definition eg_no_fault :: "auth_call \<Rightarrow> bool" where
  "eg_no_fault x \<longleftrightarrow> False"

definition eg_logged_out :: auth_state where
  "eg_logged_out = fst (logout eg_parse eg_no_fault 5 5 ''Bearer t'' eg_users)"

lemma eg_exp: "f64_to_int64 (Fin False 1000) = 1000"
  by code_simp

lemma eg_jwt_library: "jwt_library eg_parse"
  unfolding jwt_library_def eg_parse_def
  by (auto simp: eg_claims_def claim_def eg_exp split: if_splits)

lemma eg_logout: "logout eg_parse eg_no_fault 5 5 ''Bearer t'' eg_users = (eg_logged_out, Ok_reply 200 ''success'')"
proof -
  have "snd (logout eg_parse eg_no_fault 5 5 ''Bearer t'' eg_users) = Ok_reply 200 ''success''" by code_simp
  then show ?thesis by (simp add: eg_logged_out_def prod_eq_iff)
qed

theorem revoked_token_witness:
  "fst (validate_token eg_parse 7 8 ''t'' (load_revoked eg_no_fault 6 eg_logged_out)) = None"
proof (rule revoked_token_stays_refused [OF eg_jwt_library eg_logout])
  show "bearer_token ''Bearer t'' = Some ''t''" by code_simp
  show "eg_parse 5 ''t'' = Some eg_claims" by (simp add: eg_parse_def)
  show "claim eg_claims ''exp'' = Ctx_float (Fin False 1000)" by (simp add: eg_claims_def claim_def)
  have "auth_step eg_parse Restarted_loaded (5, eg_logged_out) (6, load_revoked eg_no_fault 6 eg_logged_out)"
    using step_restart [where t = 5 and n = 6 and fault = eg_no_fault and parse = eg_parse and st = eg_logged_out]
    by (simp add: eg_no_fault_def)
  from run_step [OF run_start this]
  show "auth_run eg_parse [Restarted_loaded] (5, eg_logged_out) (6, load_revoked eg_no_fault 6 eg_logged_out)" by simp
qed (simp_all add: eg_exp)

section \<open>Accounts\<close>

text \<open>A registration stores a name of safe characters only.\<close>

definition safe_name :: "string \<Rightarrow> bool" where
  "safe_name s \<longleftrightarrow> 3 \<le> length s \<and> length s \<le> 32 \<and> list_all username_char s"

lemma register_stores_safe_names:
  assumes "register valid_email hash_password sign fault now jti new_id body st = (st', Ok_reply code x)"
  shows "\<exists>u. map_of (as_users st') new_id = Some u \<and> safe_name (us_username u) \<and> us_active u \<and> us_role u = ''user''"
  using assms by (auto simp: register_def Let_def safe_name_def update_conv' split: option.splits if_splits)

text \<open>An edit of the profile stores any name that is free.\<close>

lemma profile_edit_stores_any_name:
  assumes "map_of (as_users st) i = Some u" and "get_string ctx ''user_id'' = i" and "trim_space name = name" and "name \<noteq> []"
    and "\<not> fault Update_user" and "\<forall>(j, v) \<in> set (as_users st). us_username v \<noteq> name"
  shows "map_of (as_users (fst (update_profile hex_address fault ctx (Some \<lparr>pf_username = name, pf_wallet = []\<rparr>) st))) i
    = Some (u\<lparr>us_username := name\<rparr>)"
  using assms by (auto simp: update_profile_def Let_def modify_user_def update_conv' trim_space_def trim_right_def)

text \<open>Deactivating an account changes nothing of what its owner gets from a login.\<close>

lemma find_by_update:
  assumes "find_by P t = Some (i, u)" "distinct (map fst t)" "P u = P u'"
  shows "find_by P (AList.update i u' t) = Some (i, u')"
  using assms
proof (induction t)
  case (Cons x t)
  then show ?case by (cases x) (auto simp: find_by_def split: if_splits dest: find_SomeD)
qed (simp add: find_by_def)

lemma login_unchanged_by_deactivation:
  assumes del: "delete_user fault i st = (st', Ok_reply 200 x)" and dist: "distinct (map fst (as_users st))"
    and found: "find_by (\<lambda>u. us_email u = lg_email r) (as_users st) = Some (i, u)"
  shows "login password_ok sign fault' now jti (Some r) st' = login password_ok sign fault' now jti (Some r) st"
proof -
  have m: "map_of (as_users st) i = Some u"
    using found find_SomeD [of _ "as_users st" "(i, u)"] dist by (simp add: find_by_def)
  have "as_users st' = AList.update i (u\<lparr>us_active := False\<rparr>) (as_users st)"
    using del by (auto simp: delete_user_def modify_user_def m split: if_splits)
  then have "find_by (\<lambda>u. us_email u = lg_email r) (as_users st') = Some (i, u\<lparr>us_active := False\<rparr>)"
    using find_by_update [OF found dist, of "u\<lparr>us_active := False\<rparr>"] by simp
  then show ?thesis using found by (simp add: login_def generate_token_def)
qed

text \<open>An account that an operator deactivated can still log in: the reply and the token are those of the
  active account, and the token opens every protected route until it expires; only the refresh of a token
  asks whether the account is active.\<close>

theorem deactivated_account_keeps_access:
  assumes "delete_user fault i st = (st', Ok_reply 200 x)" and "distinct (map fst (as_users st))"
    and "find_by (\<lambda>u. us_email u = lg_email r) (as_users st) = Some (i, u)"
    and "lg_email r \<noteq> []" and "lg_password r \<noteq> []" and "password_ok (us_password u) (lg_password r)" and "\<not> fault' Find_email"
    and "parse n (generate_token sign now jti i u) = Some (session_claims now jti i (us_email u) (us_role u))"
    and "map_of (as_mem st') jti = None" and "CHR '' '' \<notin> set (generate_token sign now jti i u)"
  shows "login password_ok sign fault' now jti (Some r) st' = Ok_reply 200 (i, generate_token sign now jti i u)
    \<and> fst (auth_required parse n n' (''Bearer '' @ generate_token sign now jti i u) st')
       = Passed [(''user_id'', Ctx_string i), (''email'', Ctx_string (us_email u)), (''role'', Ctx_string (us_role u))]
    \<and> map_option us_active (map_of (as_users st') i) = Some False"
proof -
  let ?t = "generate_token sign now jti i u"
  have "login password_ok sign fault' now jti (Some r) st = Ok_reply 200 (i, ?t)"
    using assms(3-7) by (simp add: login_def)
  then have l: "login password_ok sign fault' now jti (Some r) st' = Ok_reply 200 (i, ?t)"
    using login_unchanged_by_deactivation [OF assms(1-3)] by metis
  have w: "split_on (CHR '' '') s = [s]" if "CHR '' '' \<notin> set s" for s using that by (induction s) auto
  have s: "split_on (CHR '' '') (''Bearer '' @ ?t) = [''Bearer'', ?t]" using w [OF assms(10)] by simp
  have "fst (auth_required parse n n' (''Bearer '' @ ?t) st') = Passed (request_context (session_claims now jti i (us_email u) (us_role u)))"
    unfolding auth_required_def with_token_def s Let_def using assms(8,9)
    by (auto simp: validate_token_def is_revoked_def Let_def session_claims_def get_string_def claim_def)
  moreover have "map_option us_active (map_of (as_users st') i) = Some False"
    using assms(1) by (auto simp: delete_user_def modify_user_def update_conv' split: if_splits option.splits)
  ultimately show ?thesis using l by (simp add: request_context_def session_claims_def claim_def)
qed

definition eg_deactivated :: auth_state where
  "eg_deactivated = fst (delete_user eg_no_fault ''u1'' eg_users)"

definition eg_sign :: "claims \<Rightarrow> string" where
  "eg_sign c = ''t''"

definition eg_same :: "string \<Rightarrow> string \<Rightarrow> bool" where
  "eg_same h p \<longleftrightarrow> h = p"

definition eg_parse_any :: "time \<Rightarrow> string \<Rightarrow> claims option" where
  "eg_parse_any n token = Some (session_claims 0 ''j1'' ''u1'' ''a@b.c'' ''user'')"

definition eg_login :: login_req where
  "eg_login = \<lparr>lg_email = ''a@b.c'', lg_password = ''hash''\<rparr>"

lemma eg_delete: "delete_user eg_no_fault ''u1'' eg_users = (eg_deactivated, Ok_reply 200 ''u1'')"
proof -
  have "snd (delete_user eg_no_fault ''u1'' eg_users) = Ok_reply 200 ''u1''" by code_simp
  then show ?thesis by (simp add: eg_deactivated_def prod_eq_iff)
qed

theorem deactivated_account_witness:
  "login eg_same eg_sign eg_no_fault 0 ''j1'' (Some eg_login) eg_deactivated = Ok_reply 200 (''u1'', ''t'')
   \<and> fst (auth_required eg_parse_any 1 1 ''Bearer t'' eg_deactivated)
      = Passed [(''user_id'', Ctx_string ''u1''), (''email'', Ctx_string ''a@b.c''), (''role'', Ctx_string ''user'')]
   \<and> map_option us_active (map_of (as_users eg_deactivated) ''u1'') = Some False"
proof -
  have t: "generate_token eg_sign 0 ''j1'' ''u1'' eg_user = ''t''" by (simp add: generate_token_def eg_sign_def)
  have "login eg_same eg_sign eg_no_fault 0 ''j1'' (Some eg_login) eg_deactivated
      = Ok_reply 200 (''u1'', generate_token eg_sign 0 ''j1'' ''u1'' eg_user)
    \<and> fst (auth_required eg_parse_any 1 1 (''Bearer '' @ generate_token eg_sign 0 ''j1'' ''u1'' eg_user) eg_deactivated)
      = Passed [(''user_id'', Ctx_string ''u1''), (''email'', Ctx_string (us_email eg_user)), (''role'', Ctx_string (us_role eg_user))]
    \<and> map_option us_active (map_of (as_users eg_deactivated) ''u1'') = Some False"
    by (rule deactivated_account_keeps_access [OF eg_delete])
      (simp_all add: t eg_sign_def generate_token_def eg_users_def eg_user_def eg_login_def eg_same_def eg_no_fault_def eg_parse_any_def find_by_def
        eg_deactivated_def delete_user_def modify_user_def)
  then show ?thesis unfolding t by (simp add: eg_user_def)
qed

text \<open>The role \<open>superadmin\<close>, which an operator can assign, does not open the operator's routes.\<close>

lemma superadmin_is_refused:
  "claim c ''role'' = Ctx_string ''superadmin'' \<Longrightarrow> fst (admin_required parse n n' header st) \<noteq> Passed ctx \<or> parse n (split_on (CHR '' '') header ! 1) \<noteq> Some c"
  by (auto simp: admin_required_def with_token_def validate_token_def Let_def split: option.splits prod.splits if_splits)

section \<open>API keys\<close>

text \<open>A revoked key stays refused until it is added again, whatever is validated or revoked in between.\<close>

definition key_revoked :: "'h \<Rightarrow> 'h key_store \<Rightarrow> bool" where
  "key_revoked h t \<longleftrightarrow> (\<exists>k. map_of t h = Some k \<and> ak_revoked k)"

lemma revoke_key_revokes: "map_of t h \<noteq> None \<Longrightarrow> key_revoked h (revoke_key h t)"
  by (auto simp: key_revoked_def revoke_key_def update_conv')

lemma key_revoked_revoke: "key_revoked h t \<Longrightarrow> key_revoked h (revoke_key h' t)"
  by (auto simp: key_revoked_def revoke_key_def update_conv' split: option.split)

lemma key_revoked_validate: "key_revoked h t \<Longrightarrow> key_revoked h (snd (validate_key sha256 now key t))"
  by (auto simp: key_revoked_def validate_key_def update_conv' Let_def split: option.split)

lemma key_revoked_refused: "key_revoked (sha256 key) t \<Longrightarrow> fst (validate_key sha256 now key t) = None"
  by (auto simp: key_revoked_def validate_key_def)

lemma added_key_has_its_scopes:
  assumes "add_key sha256 now key label scopes ttl t = (h, t')" "key \<noteq> []" "fst (validate_key sha256 now' key t') = Some k"
  shows "has_scope s k \<longleftrightarrow> ''*'' \<in> set scopes \<or> s \<in> set scopes"
  using assms by (auto simp: add_key_def validate_key_def update_conv' has_scope_def Let_def split: if_splits)

end
