(* ===== verification/Desk_Props.thy ===== *)
theory Desk_Props
  imports Block_Trade Bots Session_Props "HOL-Library.Multiset"
begin

text \<open>
  What the block-trade desk and the bots guarantee over interleaved requests: an order is filled at most
  once, by somebody else than its maker, within its terms; the schedule of a time-weighted order never
  releases more than the order. And how they are reached: no session that the platform issues carries
  the numeric identity these handlers ask for.
\<close>

section \<open>The routes\<close>

text \<open>Every protected route of the three services, with what its request brings along (\<open>setupRouter\<close> in
  \<open>cmd/api/routes.go\<close>). The early reads are made in \<open>d0\<close>. \<open>Rq_strategies\<close> alone does not ask for the caller.\<close>

datatype desk_request =
  Rq_create_otc uint64 "otc_req option" | Rq_list_otc string | Rq_list_open string | Rq_take string "string option"
| Rq_cancel_otc string | Rq_create_twamm uint64 "twamm_req option" | Rq_list_twamm | Rq_cancel_twamm string

datatype bots_request =
  Rq_create_bot uint64 "bot_req option" | Rq_list_bots string string | Rq_summary | Rq_get_bot string
| Rq_bot_status string "string option" | Rq_delete_bot string | Rq_bot_orders string string | Rq_performance string
| Rq_strategies

fun serve_desk ::
  "(desk_call \<Rightarrow> bool) \<Rightarrow> time \<Rightarrow> uint64 option \<Rightarrow> desk_request \<Rightarrow> desk_db \<Rightarrow> desk_db \<Rightarrow> desk_db \<times> nat" where
  "serve_desk fault now user (Rq_create_otc k body) d0 d = map_prod id reply_code (create_otc fault now k user body d)"
| "serve_desk fault now user (Rq_list_otc status) d0 d = (d, reply_code (list_otc fault user status d))"
| "serve_desk fault now user (Rq_list_open symbol) d0 d = (d, reply_code (list_open_otc fault now user symbol d))"
| "serve_desk fault now user (Rq_take i body) d0 d = map_prod id reply_code (take_otc fault now user i body d)"
| "serve_desk fault now user (Rq_cancel_otc i) d0 d = map_prod id reply_code (cancel_otc fault user i d0 d)"
| "serve_desk fault now user (Rq_create_twamm k body) d0 d = map_prod id reply_code (create_twamm fault now k user body d)"
| "serve_desk fault now user Rq_list_twamm d0 d = (d, reply_code (list_twamm fault user d))"
| "serve_desk fault now user (Rq_cancel_twamm i) d0 d = map_prod id reply_code (cancel_twamm fault user i d0 d)"

fun serve_bots ::
  "(string \<Rightarrow> json option \<Rightarrow> string + string) \<Rightarrow> (bots_call \<Rightarrow> bool) \<Rightarrow> time \<Rightarrow> uint64 option \<Rightarrow> bots_request \<Rightarrow>
     bots_db \<Rightarrow> bots_db \<Rightarrow> bots_db \<times> nat" where
  "serve_bots vc fault now user (Rq_create_bot k body) d0 d = map_prod id reply_code (create_bot vc fault now k user body d)"
| "serve_bots vc fault now user (Rq_list_bots strategy status) d0 d = (d, reply_code (list_bots fault user strategy status d))"
| "serve_bots vc fault now user Rq_summary d0 d = (d, reply_code (bots_summary fault user d))"
| "serve_bots vc fault now user (Rq_get_bot i) d0 d = (d, reply_code (get_bot fault user i d))"
| "serve_bots vc fault now user (Rq_bot_status i body) d0 d = map_prod id reply_code (update_bot_status fault user i body d0 d)"
| "serve_bots vc fault now user (Rq_delete_bot i) d0 d = map_prod id reply_code (delete_bot fault user i d0 d)"
| "serve_bots vc fault now user (Rq_bot_orders i limit) d0 d = (d, reply_code (list_bot_orders fault user i limit d0 d))"
| "serve_bots vc fault now user (Rq_performance i) d0 d = (d, reply_code (bot_performance_summary fault user i d0 d))"
| "serve_bots vc fault now user Rq_strategies d0 d = (d, reply_code available_strategies)"

text \<open>A protected route: the session check, then the handler with the identity found in the context.\<close>

definition protected ::
  "(time \<Rightarrow> string \<Rightarrow> claims option) \<Rightarrow> (f64 \<Rightarrow> uint64) \<Rightarrow> time \<Rightarrow> time \<Rightarrow> string \<Rightarrow>
     (uint64 option \<Rightarrow> 'd \<times> nat) \<Rightarrow> 'd \<Rightarrow> auth_state \<Rightarrow> 'd \<times> nat" where
  "protected parse conv now now' header handler d st =
     (case fst (auth_required parse now now' header st) of
        Refused code _ \<Rightarrow> (d, code)
      | Passed ctx \<Rightarrow> handler (current_user_id conv (map_of ctx ''user_id'')))"

text \<open>
  What stands in front of every route: the CORS library, a parameter (\<open>cors\<close> is the status it answers
  with itself, \<open>None\<close> when it passes the request on), and the rate limiter.
\<close>

definition front_answer :: "nat option \<Rightarrow> string \<Rightarrow> int option \<Rightarrow> nat option" where
  "front_answer cors path hits =
     (case cors of Some code \<Rightarrow> Some code | None \<Rightarrow> map_option fst (redis_rate_limiter path hits))"

definition protected_route ::
  "nat option \<Rightarrow> string \<Rightarrow> int option \<Rightarrow> (time \<Rightarrow> string \<Rightarrow> claims option) \<Rightarrow> (f64 \<Rightarrow> uint64) \<Rightarrow> time \<Rightarrow> time \<Rightarrow>
     string \<Rightarrow> (uint64 option \<Rightarrow> 'd \<times> nat) \<Rightarrow> 'd \<Rightarrow> auth_state \<Rightarrow> 'd \<times> nat" where
  "protected_route cors path hits parse conv now now' header handler d st =
     (case front_answer cors path hits of
        Some code \<Rightarrow> (d, code)
      | None \<Rightarrow> protected parse conv now now' header handler d st)"

lemma no_caller [simp]: "with_caller None d k = (d, Error_reply 401 ''authentication required'')"
  by (simp add: with_caller_def)

lemma serve_desk_anonymous: "serve_desk fault now None r d0 d = (d, 401)"
  by (cases r) (simp_all add: create_otc_def list_otc_def list_open_otc_def take_otc_def cancel_otc_def
      create_twamm_def list_twamm_def cancel_twamm_def)

lemma serve_bots_anonymous: "r \<noteq> Rq_strategies \<Longrightarrow> serve_bots vc fault now None r d0 d = (d, 401)"
  by (cases r) (simp_all add: create_bot_def list_bots_def bots_summary_def get_bot_def update_bot_status_def
      delete_bot_def list_bot_orders_def bot_performance_summary_def with_bot_def)

text \<open>Every token that the library accepts was made by the platform's own \<open>generate_token\<close>.\<close>

definition issued_only :: "(time \<Rightarrow> string \<Rightarrow> claims option) \<Rightarrow> bool" where
  "issued_only parse \<longleftrightarrow>
     (\<forall>n token c. parse n token = Some c \<longrightarrow> (\<exists>now jti i email role. c = session_claims now jti i email role))"

lemma refused_gate: "fst (with_token parse n n' (\<lambda>c. Passed (f c)) header st) = Refused code e \<Longrightarrow> code = 401"
  by (auto simp: with_token_def Let_def split: if_splits option.splits prod.splits)

lemma passed_gate:
  "fst (with_token parse n n' (\<lambda>c. Passed (f c)) header st) = Passed ctx \<Longrightarrow> \<exists>c. parse n (split_on (CHR '' '') header ! 1) = Some c \<and> ctx = f c"
  by (auto simp: with_token_def validate_token_def Let_def split: if_splits option.splits prod.splits)

lemma protected_anonymous:
  assumes "issued_only parse" and h: "handler None = (d, 401)"
  shows "protected parse conv n n' header handler d st = (d, 401)"
proof (cases "fst (auth_required parse n n' header st)")
  case (Refused code e)
  then show ?thesis by (simp add: protected_def auth_required_def refused_gate)
next
  case (Passed ctx)
  obtain c where "parse n (split_on (CHR '' '') header ! 1) = Some c" "ctx = request_context c"
    using passed_gate Passed unfolding auth_required_def by blast
  with assms(1) obtain s where "map_of ctx ''user_id'' = Some (Ctx_string s)"
    by (fastforce simp: issued_only_def request_context_def session_claims_def claim_def)
  then show ?thesis using Passed h by (simp add: protected_def)
qed

text \<open>The list of strategies is the same for every caller with a session.\<close>

lemma strategies_route:
  "protected parse conv n n' header (\<lambda>user. serve_bots vc fault now user Rq_strategies d0 d) d st
     = (d, if \<exists>ctx. fst (auth_required parse n n' header st) = Passed ctx then 200 else 401)"
  by (auto simp: protected_def available_strategies_def auth_required_def dest: refused_gate split: gate.split)

text \<open>C28: A session identifies its user by a UUID in text, and the handlers of the desk, of the time-weighted
  orders and of the bots accept numbers only. So every one of these routes that acts on orders or bots or
  reads them answers 401 to every caller that gets past the CORS check and the rate limiter, with a session of
  the platform or without, and changes nothing. The one protected route that asks for no caller, the list of
  strategies, answers 200 to a session and 401 without one, and changes nothing either. A request that the
  front refuses, the limiter with 429, changes nothing.\<close>

theorem sessions_never_reach_the_desk:
  assumes "issued_only parse"
  shows "protected_route cors path hits parse conv n n' header (\<lambda>user. serve_desk fault now user r d0 d) d st
      = (d, case front_answer cors path hits of Some code \<Rightarrow> code | None \<Rightarrow> 401)
    \<and> protected_route cors path hits parse conv n n' header (\<lambda>user. serve_bots vc fault' now user q b0 b) b st
      = (b, case front_answer cors path hits of
              Some code \<Rightarrow> code
            | None \<Rightarrow> if q = Rq_strategies \<and> (\<exists>ctx. fst (auth_required parse n n' header st) = Passed ctx) then 200 else 401)
    \<and> (cors = None \<and> front_answer cors path hits = Some code \<longrightarrow> code = 429)"
proof -
  have "protected parse conv n n' header (\<lambda>user. serve_desk fault now user r d0 d) d st = (d, 401)"
    by (intro protected_anonymous assms serve_desk_anonymous)
  moreover have "q \<noteq> Rq_strategies \<Longrightarrow>
      protected parse conv n n' header (\<lambda>user. serve_bots vc fault' now user q b0 b) b st = (b, 401)"
    by (intro protected_anonymous assms serve_bots_anonymous)
  ultimately show ?thesis
    using strategies_route [of parse conv n n' header vc fault' now b0 b st]
    by (cases "q = Rq_strategies")
      (simp_all add: protected_route_def front_answer_def redis_rate_limiter_def split: option.split)
qed

lemma eg_issued_only: "issued_only eg_parse_any"
  unfolding issued_only_def eg_parse_any_def by blast

definition empty_desk :: desk_db where
  "empty_desk = \<lparr>dd_otc = [], dd_twamm = []\<rparr>"

definition empty_bots :: bots_db where
  "empty_bots = \<lparr>bb_bots = [], bb_orders = [], bb_days = []\<rparr>"

theorem sessions_never_reach_the_desk_witness:
  "protected_route None ''/api/v1/twamm/orders'' (Some 7) eg_parse_any (\<lambda>_. 0) 1 1 ''Bearer t''
      (\<lambda>user. serve_desk (\<lambda>_. False) 1 user Rq_list_twamm empty_desk empty_desk) empty_desk eg_users = (empty_desk, 401)
   \<and> protected_route None ''/api/v1/twamm/orders'' (Some 7) eg_parse_any (\<lambda>_. 0) 1 1 ''Bearer t''
      (\<lambda>user. serve_bots (\<lambda>_ _. Inr []) (\<lambda>_. False) 1 user Rq_summary empty_bots empty_bots) empty_bots eg_users = (empty_bots, 401)"
  using sessions_never_reach_the_desk [OF eg_issued_only, of None "''/api/v1/twamm/orders''" "Some 7" "\<lambda>_. 0" 1 1
      "''Bearer t''" "\<lambda>_. False" 1 Rq_list_twamm empty_desk empty_desk eg_users "\<lambda>_ _. Inr []" "\<lambda>_. False" Rq_summary
      empty_bots empty_bots]
  by (simp add: front_answer_def redis_rate_limiter_def)

section \<open>The desk over interleaved requests\<close>

text \<open>An order was created open; a filled one keeps its taker and its terms for ever.\<close>

definition otc_ok :: "otc_order \<Rightarrow> bool" where
  "otc_ok b \<longleftrightarrow>
     (case ot_taker b of
        None \<Rightarrow> ot_status b \<noteq> otc_matched
      | Some u \<Rightarrow> u \<noteq> ot_maker b \<and> ot_status b \<noteq> otc_open
          \<and> (\<exists>fill least. validate_positive_decimal ''quantity'' (ot_quantity b) = Inr fill
               \<and> validate_positive_decimal ''min_fill'' (ot_min_fill b) = Inr least \<and> least \<le> fill))"

definition desk_ok :: "desk_db \<Rightarrow> bool" where
  "desk_ok d \<longleftrightarrow> (\<forall>i b. map_of (dd_otc d) i = Some b \<longrightarrow> otc_ok b)"

text \<open>What no request changes of an order, and what none changes of an order that has left the book.\<close>

definition otc_kept :: "otc_order \<Rightarrow> otc_order \<Rightarrow> bool" where
  "otc_kept b b' \<longleftrightarrow>
     ot_maker b' = ot_maker b \<and> ot_price b' = ot_price b \<and> ot_side b' = ot_side b \<and> ot_symbol b' = ot_symbol b
     \<and> ot_min_fill b' = ot_min_fill b \<and> ot_expires b' = ot_expires b
     \<and> (ot_status b \<noteq> otc_open \<longrightarrow> ot_status b' \<noteq> otc_open \<and> ot_taker b' = ot_taker b \<and> ot_quantity b' = ot_quantity b)
     \<and> (ot_taker b \<noteq> None \<longrightarrow> ot_taker b' = ot_taker b \<and> ot_quantity b' = ot_quantity b)"

definition desk_kept :: "desk_db \<Rightarrow> desk_db \<Rightarrow> bool" where
  "desk_kept d d' \<longleftrightarrow> (\<forall>i b. map_of (dd_otc d) i = Some b \<longrightarrow> (\<exists>b'. map_of (dd_otc d') i = Some b' \<and> otc_kept b b'))"

lemma otc_kept_refl [simp]: "otc_kept b b"
  by (simp add: otc_kept_def)

lemma otc_kept_trans: "otc_kept a b \<Longrightarrow> otc_kept b c \<Longrightarrow> otc_kept a c"
  by (auto simp: otc_kept_def)

lemma desk_kept_refl [simp]: "desk_kept d d"
  by (simp add: desk_kept_def)

lemma desk_kept_trans: "desk_kept a b \<Longrightarrow> desk_kept b c \<Longrightarrow> desk_kept a c"
  unfolding desk_kept_def by (meson otc_kept_trans)

text \<open>One row is replaced by a well-formed successor, or a well-formed new row is added.\<close>

lemma put_otc:
  assumes "desk_ok d" "map_of (dd_otc d) i = Some b" "otc_kept b b'" "otc_ok b'" "dd_otc d' = AList.update i b' (dd_otc d)"
  shows "desk_ok d' \<and> desk_kept d d'"
  using assms by (auto simp: desk_ok_def desk_kept_def update_conv')

lemma add_otc:
  assumes "desk_ok d" "map_of (dd_otc d) i = None" "otc_ok b" "dd_otc d' = AList.update i b (dd_otc d)"
  shows "desk_ok d' \<and> desk_kept d d'"
  using assms by (auto simp: desk_ok_def desk_kept_def update_conv')

lemma same_otc: "desk_ok d \<Longrightarrow> dd_otc d' = dd_otc d \<Longrightarrow> desk_ok d' \<and> desk_kept d d'"
  by (simp add: desk_ok_def desk_kept_def)

lemma check_otc_ok: "check_otc now user r = Inr b \<Longrightarrow> otc_ok b \<and> ot_status b = otc_open \<and> ot_maker b = user"
  by (auto simp: check_otc_def otc_ok_def otc_open_def otc_matched_def Let_def split: if_splits)

lemma take_ok:
  assumes "check_take now user fill b = None" "validate_positive_decimal ''quantity'' quantity = Inr fill"
  shows "otc_ok (filled_order user quantity b)" and "ot_taker b = None \<Longrightarrow> otc_kept b (filled_order user quantity b)"
  using assms by (auto simp: check_take_def otc_ok_def filled_order_def otc_kept_def otc_open_def otc_matched_def
      split: if_splits sum.splits)

lemma otc_open_untaken: "otc_ok b \<Longrightarrow> ot_status b = otc_open \<Longrightarrow> ot_taker b = None"
  by (cases "ot_taker b") (auto simp: otc_ok_def)

lemma take_tx_ok:
  assumes "take_otc_tx fault now user i quantity fill d = Inr (d', b')" "desk_ok d"
    and "validate_positive_decimal ''quantity'' quantity = Inr fill"
  shows "desk_ok d' \<and> desk_kept d d'"
proof -
  obtain b where b: "map_of (dd_otc d) i = Some b" "check_take now user fill b = None"
    "d' = d\<lparr>dd_otc := AList.update i (filled_order user quantity b) (dd_otc d)\<rparr>"
    using assms(1) by (auto simp: take_otc_tx_def Let_def split: if_splits option.splits)
  have "otc_ok b" using assms(2) b(1) by (auto simp: desk_ok_def)
  moreover have "ot_status b = otc_open" using b(2) by (auto simp: check_take_def split: if_splits)
  ultimately show ?thesis
    using put_otc [OF assms(2) b(1)] take_ok [OF b(2) assms(3)] b(3) otc_open_untaken by simp
qed

lemma take_ok_step:
  assumes "desk_ok d"
  shows "desk_ok (fst (take_otc fault now user i body d)) \<and> desk_kept d (fst (take_otc fault now user i body d))"
  using assms by (auto simp: take_otc_def with_caller_def split: option.splits sum.splits dest: take_tx_ok)

lemma create_ok_step:
  assumes "desk_ok d"
  shows "desk_ok (fst (create_otc fault now k user body d)) \<and> desk_kept d (fst (create_otc fault now k user body d))"
  using assms add_otc [OF assms, of k]
  by (auto simp: create_otc_def with_caller_def split: option.splits sum.splits dest: check_otc_ok)

lemma cancelled_ok: "otc_ok b \<Longrightarrow> otc_ok (b\<lparr>ot_status := otc_cancelled\<rparr>)"
  by (auto simp: otc_ok_def otc_open_def otc_cancelled_def otc_matched_def split: option.splits)

lemma cancelled_kept: "otc_kept b (b\<lparr>ot_status := otc_cancelled\<rparr>)"
  by (auto simp: otc_kept_def otc_open_def otc_cancelled_def)

lemma modify_otc_ok:
  assumes "desk_ok d" "\<And>b. otc_ok b \<Longrightarrow> otc_ok (g b) \<and> otc_kept b (g b)"
  shows "desk_ok (modify_otc i g d) \<and> desk_kept d (modify_otc i g d)"
proof (cases "map_of (dd_otc d) i")
  case (Some b)
  then have g: "otc_ok (g b)" "otc_kept b (g b)" using assms by (auto simp: desk_ok_def)
  show ?thesis by (rule put_otc [OF assms(1) Some g(2,1)]) (simp add: modify_otc_def Some)
qed (use assms(1) in \<open>simp add: modify_otc_def\<close>)

lemma cancel_ok_step:
  assumes "desk_ok d"
  shows "desk_ok (fst (cancel_otc fault user i d0 d)) \<and> desk_kept d (fst (cancel_otc fault user i d0 d))"
  using assms modify_otc_ok [OF assms, of "\<lambda>row. row\<lparr>ot_status := otc_cancelled\<rparr>"] cancelled_ok cancelled_kept
  by (auto simp: cancel_otc_def with_caller_def split: option.splits)

lemma map_otc_ok:
  assumes "desk_ok d" "\<And>b. otc_ok b \<Longrightarrow> otc_ok (g b) \<and> otc_kept b (g b)" "dd_otc d' = map (\<lambda>(i, b). (i, g b)) (dd_otc d)"
  shows "desk_ok d' \<and> desk_kept d d'"
proof -
  have "map_of (map (\<lambda>(i, b). (i, g b)) t) i = map_option g (map_of t i)" for t :: "(uint64 \<times> otc_order) list" and i
    by (rule map_of_map [THEN fun_cong, simplified comp_def])
  then have "map_of (dd_otc d') i = map_option g (map_of (dd_otc d) i)" for i using assms(3) by simp
  then show ?thesis using assms(1,2) by (auto simp: desk_ok_def desk_kept_def)
qed

lemma expire_ok_step:
  assumes "desk_ok d"
  shows "desk_ok (fst (expire_stale fault now d)) \<and> desk_kept d (fst (expire_stale fault now d))"
proof (cases "fault Expire_otc")
  case False
  show ?thesis
    by (rule map_otc_ok [OF assms, of "\<lambda>b. if is_stale now b then b\<lparr>ot_status := otc_expired\<rparr> else b"])
      (auto simp: expire_stale_def False otc_ok_def otc_kept_def is_stale_def otc_open_def otc_expired_def otc_matched_def
        split: option.splits)
qed (use assms in \<open>simp add: expire_stale_def\<close>)

lemma twamm_ok_step:
  "dd_otc (fst (create_twamm fault now k user body' d)) = dd_otc d"
  "dd_otc (fst (cancel_twamm fault user i d0 d)) = dd_otc d"
  by (auto simp: create_twamm_def cancel_twamm_def with_caller_def modify_twamm_def split: option.splits sum.splits)

lemma serve_desk_ok:
  assumes "desk_ok d"
  shows "desk_ok (fst (serve_desk fault now user r d0 d)) \<and> desk_kept d (fst (serve_desk fault now user r d0 d))"
  using assms
  by (cases r) (simp_all add: create_ok_step take_ok_step cancel_ok_step same_otc twamm_ok_step)

text \<open>The states of a run, the newest first; a request may have made its early read in any of them.\<close>

inductive desk_run :: "desk_db list \<Rightarrow> bool" where
  desk_start: "dd_otc d = [] \<Longrightarrow> desk_run [d]"
| desk_serve: "desk_run h \<Longrightarrow> d0 \<in> set h \<Longrightarrow> desk_run (fst (serve_desk fault now user r d0 (hd h)) # h)"
| desk_sweep: "desk_run h \<Longrightarrow> desk_run (fst (expire_stale fault now (hd h)) # h)"

lemma desk_run_ok: "desk_run h \<Longrightarrow> h \<noteq> [] \<and> desk_ok (hd h) \<and> (\<forall>d \<in> set h. desk_kept d (hd h))"
proof (induction rule: desk_run.induct)
  case (desk_start d)
  then show ?case by (simp add: desk_ok_def)
next
  case (desk_serve h d0 fault now user r)
  then show ?case using serve_desk_ok [of "hd h" fault now user r d0] by (auto intro: desk_kept_trans)
next
  case (desk_sweep h fault now)
  then show ?case using expire_ok_step [of "hd h" fault now] by (auto intro: desk_kept_trans)
qed

text \<open>C29: Whatever requests are interleaved, an order that was filled keeps its one taker, who is not its maker,
  its executed quantity, which is at least the minimum fill, and its price for ever, and is never open again.\<close>

theorem otc_filled_at_most_once:
  assumes "desk_run (d' # h)" and "d \<in> set (d' # h)" and "map_of (dd_otc d) i = Some b" and "ot_taker b = Some u"
  shows "\<exists>b' fill least. map_of (dd_otc d') i = Some b' \<and> ot_taker b' = Some u \<and> u \<noteq> ot_maker b'
    \<and> ot_quantity b' = ot_quantity b \<and> ot_price b' = ot_price b \<and> ot_status b' \<noteq> otc_open
    \<and> validate_positive_decimal ''quantity'' (ot_quantity b') = Inr fill
    \<and> validate_positive_decimal ''min_fill'' (ot_min_fill b') = Inr least \<and> least \<le> fill"
proof -
  have run: "desk_ok d'" "desk_kept d d'" using desk_run_ok [OF assms(1)] assms(2) by auto
  then obtain b' where b': "map_of (dd_otc d') i = Some b'" "otc_kept b b'" "otc_ok b'"
    using assms(3) unfolding desk_kept_def desk_ok_def by blast
  moreover have "ot_taker b' = Some u" using b'(2) assms(4) by (simp add: otc_kept_def)
  ultimately show ?thesis using assms(4) by (auto simp: otc_kept_def otc_ok_def)
qed

definition no_fault :: "desk_call \<Rightarrow> bool" where
  "no_fault x \<longleftrightarrow> False"

definition eg_otc :: otc_req where
  "eg_otc = \<lparr>oq_symbol = ''A/B'', oq_side = ''sell'', oq_quantity = ''2.5'', oq_price = ''3'', oq_min_fill = ''1'', oq_expires_in = 60\<rparr>"

definition eg_published :: desk_db where
  "eg_published = fst (serve_desk no_fault 0 (Some 1) (Rq_create_otc 7 (Some eg_otc)) empty_desk empty_desk)"

definition eg_filled :: desk_db where
  "eg_filled = fst (serve_desk no_fault 5 (Some 2) (Rq_take ''7'' (Some ''1.5'')) eg_published eg_published)"

text \<open>The maker's cancellation read the order while it was open and writes after the fill.\<close>

definition eg_late_cancel :: desk_db where
  "eg_late_cancel = fst (serve_desk no_fault 6 (Some 1) (Rq_cancel_otc ''7'') eg_published eg_filled)"

definition eg_desk_order :: "string \<Rightarrow> otc_order" where
  "eg_desk_order status = \<lparr>ot_maker = 1, ot_taker = Some 2, ot_symbol = ''A/B'', ot_side = ''sell'', ot_quantity = ''1.5'', ot_price = ''3'',
     ot_status = status, ot_min_fill = ''1'', ot_counterparty = ''1'', ot_expires = 60000000000, ot_created = 0\<rparr>"

lemma eg_filled_row: "map_of (dd_otc eg_filled) 7 = Some (eg_desk_order otc_matched)"
  by code_simp

text \<open>A matched order can be turned into a cancelled one.\<close>

lemma filled_order_can_be_cancelled: "map_of (dd_otc eg_late_cancel) 7 = Some (eg_desk_order otc_cancelled)"
  by code_simp

lemma eg_desk_run: "desk_run [eg_late_cancel, eg_filled, eg_published, empty_desk]"
proof -
  have "desk_run [empty_desk]" by (rule desk_start) (simp add: empty_desk_def)
  from desk_serve [OF this, of empty_desk no_fault 0 "Some 1" "Rq_create_otc 7 (Some eg_otc)"]
  have "desk_run [eg_published, empty_desk]" by (simp add: eg_published_def)
  from desk_serve [OF this, of eg_published no_fault 5 "Some 2" "Rq_take ''7'' (Some ''1.5'')"]
  have "desk_run [eg_filled, eg_published, empty_desk]" by (simp add: eg_filled_def)
  from desk_serve [OF this, of eg_published no_fault 6 "Some 1" "Rq_cancel_otc ''7''"]
  show ?thesis by (simp add: eg_late_cancel_def)
qed

theorem otc_filled_at_most_once_witness:
  "\<exists>b' fill least. map_of (dd_otc eg_late_cancel) 7 = Some b' \<and> ot_taker b' = Some 2 \<and> 2 \<noteq> ot_maker b'
    \<and> ot_quantity b' = ''1.5'' \<and> ot_price b' = ''3'' \<and> ot_status b' \<noteq> otc_open
    \<and> validate_positive_decimal ''quantity'' (ot_quantity b') = Inr fill
    \<and> validate_positive_decimal ''min_fill'' (ot_min_fill b') = Inr least \<and> least \<le> fill"
  using otc_filled_at_most_once [OF eg_desk_run _ eg_filled_row, of 2] by (simp add: eg_desk_order_def)

section \<open>The schedule of a time-weighted order\<close>

lemma check_twamm_ok:
  assumes "check_twamm now user r = Inr b"
  obtains q where "validate_positive_decimal ''total_quantity'' (tw_quantity b) = Inr q" "0 < q"
    "tw_start b < tw_end b" "in_int64 (tw_end b - tw_start b)" "tw_filled b = ''0''"
proof -
  have "0 < min_twamm_duration" by (simp add: min_twamm_duration_def)
  then show thesis
    using assms that by (auto simp: check_twamm_def Let_def validate_positive_iff split: if_splits)
qed

lemma time_sub_mono: "t \<le> t' \<Longrightarrow> time_sub t u \<le> time_sub t' u"
  by (auto simp: time_sub_def)

lemma scheduled_bounds:
  fixes q e D :: int
  assumes "0 \<le> q" "0 \<le> e" "e \<le> D" "0 < D"
  shows "0 \<le> q * e div D" "q * e div D \<le> q"
proof -
  show "0 \<le> q * e div D" using assms by (simp add: pos_imp_zdiv_nonneg_iff)
  have "q * e div D \<le> q * D div D" using assms by (intro zdiv_mono1) (simp_all add: mult_left_mono)
  then show "q * e div D \<le> q" using assms by simp
qed

definition elapsed :: "twamm_order \<Rightarrow> time \<Rightarrow> int64" where
  "elapsed b now = min (time_sub now (tw_start b)) (time_sub (tw_end b) (tw_start b))"

lemma executable_slice_cases:
  assumes "validate_positive_decimal ''total_quantity'' (tw_quantity b) = Inr q" "parse_decimal_string (tw_filled b) = Inr f"
    "tw_start b < tw_end b" "in_int64 (tw_end b - tw_start b)"
  shows "executable_slice b now = Inr (if \<not> tw_start b < now then 0 else
    max 0 (q * elapsed b now div (tw_end b - tw_start b) - f))"
  using assms by (simp add: executable_slice_def Let_def elapsed_def time_sub_id max_def)

text \<open>C30: The schedule of an accepted time-weighted order, whatever part of it is filled: it always gives a slice; a slice is
  never negative and never takes the filled part past the order; later slices are no smaller; and from the end
  of the schedule on the slice is all that is left.\<close>

theorem twamm_slice_completes_the_order:
  assumes "check_twamm now0 user r = Inr b" and "parse_decimal_string filled = Inr f" and "now \<le> now'"
  shows "\<exists>q s s'. validate_positive_decimal ''total_quantity'' (tw_quantity b) = Inr q
    \<and> executable_slice (b\<lparr>tw_filled := filled\<rparr>) now = Inr s \<and> executable_slice (b\<lparr>tw_filled := filled\<rparr>) now' = Inr s'
    \<and> 0 \<le> s \<and> s \<le> s' \<and> (f \<le> q \<longrightarrow> f + s' \<le> q) \<and> (f \<le> q \<and> tw_end b \<le> now' \<longrightarrow> f + s' = q)"
proof -
  obtain q where q: "validate_positive_decimal ''total_quantity'' (tw_quantity b) = Inr q" "0 < q"
    "tw_start b < tw_end b" "in_int64 (tw_end b - tw_start b)" using check_twamm_ok [OF assms(1)] .
  let ?b = "b\<lparr>tw_filled := filled\<rparr>" and ?D = "tw_end b - tw_start b"
  define part where "part n = (if \<not> tw_start b < n then 0 else max 0 (q * elapsed b n div ?D - f))" for n
  have e: "executable_slice ?b n = Inr (part n)" for n
    using executable_slice_cases [of ?b q f n] q assms(2) by (simp add: elapsed_def part_def)
  have f: "0 \<le> f" using parse_decimal_ge_0 [OF assms(2)] .
  have D: "time_sub (tw_end b) (tw_start b) = ?D" "0 < ?D" using q(3,4) by (simp_all add: time_sub_id)
  have el: "elapsed b n \<le> ?D" "tw_start b < n \<Longrightarrow> 0 \<le> elapsed b n" for n
    using D by (auto simp: elapsed_def time_sub_def min_int64_def max_int64_def)
  have "q * elapsed b now div ?D \<le> q * elapsed b now' div ?D"
    using D(2) q(2) time_sub_mono [OF assms(3), of "tw_start b"]
    by (intro zdiv_mono1 mult_left_mono) (simp_all add: elapsed_def min.coboundedI1)
  then have mono: "part now \<le> part now'" using assms(3) by (simp add: part_def max_def)
  have "q * elapsed b now' div ?D \<le> q" if "tw_start b < now'"
    using scheduled_bounds(2) [of q "elapsed b now'" ?D] el [of now'] D(2) q(2) that by simp
  then have le: "f \<le> q \<Longrightarrow> f + part now' \<le> q" by (simp add: part_def max_def)
  have fin: "f + part now' = q" if "f \<le> q" "tw_end b \<le> now'"
  proof -
    have "elapsed b now' = ?D" using time_sub_mono [OF that(2), of "tw_start b"] D(1) by (simp add: elapsed_def)
    then have "q * elapsed b now' div ?D = q" using D(2) by simp
    moreover have "tw_start b < now'" using that(2) q(3) by simp
    ultimately show ?thesis using that(1) by (simp add: part_def)
  qed
  have "0 \<le> part now" by (simp add: part_def)
  with q(1) e mono le fin show ?thesis by blast
qed

definition eg_twamm :: twamm_req where
  "eg_twamm = \<lparr>tq_symbol = ''A/B'', tq_side = ''buy'', tq_quantity = ''10'', tq_limit = ''0'', tq_hours = 1, tq_delay = 0\<rparr>"

definition eg_scheduled :: twamm_order where
  "eg_scheduled = \<lparr>tw_user = 1, tw_symbol = ''A/B'', tw_side = ''buy'', tw_quantity = ''10'', tw_filled = ''0'', tw_limit = ''0'',
     tw_start = 0, tw_end = 3600000000000, tw_status = twamm_active, tw_created = 0\<rparr>"

lemma eg_twamm_accepted: "check_twamm 0 1 eg_twamm = Inr eg_scheduled"
  by code_simp

theorem twamm_slice_witness:
  "\<exists>q s s'. validate_positive_decimal ''total_quantity'' (tw_quantity eg_scheduled) = Inr q
    \<and> executable_slice (eg_scheduled\<lparr>tw_filled := ''2.5''\<rparr>) 1800000000000 = Inr s
    \<and> executable_slice (eg_scheduled\<lparr>tw_filled := ''2.5''\<rparr>) 3600000000000 = Inr s'
    \<and> 0 \<le> s \<and> s \<le> s' \<and> 2500000000000000000 + s' = q"
proof -
  have f: "parse_decimal_string ''2.5'' = Inr 2500000000000000000" by code_simp
  have n: "(1800000000000 :: int) \<le> 3600000000000" by simp
  have q: "validate_positive_decimal ''total_quantity'' (tw_quantity eg_scheduled) = Inr 10000000000000000000" by code_simp
  obtain q s s' where t: "validate_positive_decimal ''total_quantity'' (tw_quantity eg_scheduled) = Inr q"
    "executable_slice (eg_scheduled\<lparr>tw_filled := ''2.5''\<rparr>) 1800000000000 = Inr s"
    "executable_slice (eg_scheduled\<lparr>tw_filled := ''2.5''\<rparr>) 3600000000000 = Inr s'" "0 \<le> s" "s \<le> s'"
    "2500000000000000000 \<le> q \<and> tw_end eg_scheduled \<le> 3600000000000 \<longrightarrow> 2500000000000000000 + s' = q"
    using twamm_slice_completes_the_order [OF eg_twamm_accepted f n] by blast
  have "q = 10000000000000000000" using t(1) q by simp
  moreover have "tw_end eg_scheduled \<le> 3600000000000" by (simp add: eg_scheduled_def)
  ultimately have "2500000000000000000 + s' = q" using t(6) by simp
  with t(1-5) show ?thesis by blast
qed

text \<open>The length of a schedule is computed in \<open>int64\<close> nanoseconds before it is checked: five million hours pass for 25 minutes.\<close>

lemma huge_schedule_is_accepted:
  "check_twamm 0 1 (eg_twamm\<lparr>tq_hours := 5124096\<rparr>) = Inr (eg_scheduled\<lparr>tw_end := 1526290448384\<rparr>)"
  by code_simp

lemma twamm_limits_message: "whole_hours min_twamm_duration = 0"
  by code_simp

section \<open>Configurations\<close>

lemma check_config_keys_iff:
  "check_config_keys strategy schema entries = Inr () \<longleftrightarrow> (\<forall>x \<in> set entries. map_of schema (fst x) \<noteq> None)"
  by (induction entries) (auto simp: check_config_keys_def split: prod.splits)

definition config_value_of :: "(string \<times> string) list \<Rightarrow> string \<Rightarrow> json \<Rightarrow> string + config_value" where
  "config_value_of schema k v = decode_config (case map_of schema k of None \<Rightarrow> [] | Some kind \<Rightarrow> kind) k v"

lemma canonical_config_iff:
  "canonical_config schema entries = Inr cs \<longleftrightarrow>
     list_all2 (\<lambda>x y. fst y = fst x \<and> config_value_of schema (fst x) (snd x) = Inr (snd y)) entries cs"
proof (induction entries arbitrary: cs)
  case (Cons x entries)
  then show ?case by (cases x; cases cs) (auto simp: config_value_of_def list_all2_Cons1)
qed auto

lemma canonical_config_map:
  assumes "canonical_config schema entries = Inr cs"
  shows "map_of cs k = Option.bind (map_of entries k) (\<lambda>v. case config_value_of schema k v of Inl _ \<Rightarrow> None | Inr c \<Rightarrow> Some c)"
  using assms unfolding canonical_config_iff by (induction rule: list_all2_induct) auto

lemma canonical_config_ok:
  "(\<exists>cs. canonical_config schema entries = Inr cs) \<longleftrightarrow> (\<forall>x \<in> set entries. \<exists>c. config_value_of schema (fst x) (snd x) = Inr c)"
  by (induction entries) (auto simp: config_value_of_def)

lemma map_of_mset_eq:
  assumes "mset xs = mset ys" "distinct (map fst ys)"
  shows "map_of xs = map_of ys"
proof -
  have "mset (map fst xs) = mset (map fst ys)" using assms(1) by (metis mset_map)
  then have "distinct (map fst xs)" using assms(2) by (metis mset_eq_imp_distinct_iff)
  then show ?thesis using assms by (metis map_of_inject_set set_mset_mset)
qed

definition permutes_list :: "('a list \<Rightarrow> 'a list) \<Rightarrow> bool" where
  "permutes_list shuffle \<longleftrightarrow> (\<forall>xs. mset (shuffle xs) = mset xs)"

lemma config_fields_distinct: "config_fields raw = Some entries \<Longrightarrow> distinct (map fst entries)"
  by (cases raw rule: config_fields.cases) (auto simp: distinct_clearjunk)

text \<open>C31: What a configuration is accepted as does not depend on the orders in which Go happens to visit its keys: two
  visits accept the same configurations and store the same text.\<close>

theorem config_ignores_map_order:
  assumes "permutes_list p" and "permutes_list p'" and "permutes_list q" and "permutes_list q'"
  shows "validate_strategy_config marshal p p' strategy raw = Inr t \<longleftrightarrow> validate_strategy_config marshal q q' strategy raw = Inr t"
proof -
  have one: "validate_strategy_config marshal p p' strategy raw = Inr t \<longleftrightarrow>
      (\<exists>schema entries. map_of strategy_config_keys strategy = Some schema \<and> config_fields raw = Some entries
        \<and> (\<forall>x \<in> set entries. map_of schema (fst x) \<noteq> None \<and> (\<exists>c. config_value_of schema (fst x) (snd x) = Inr c))
        \<and> t = marshal (\<lambda>k. Option.bind (map_of entries k) (\<lambda>v. case config_value_of schema k v of Inl _ \<Rightarrow> None | Inr c \<Rightarrow> Some c)))"
    (is "_ \<longleftrightarrow> ?R") if perm: "permutes_list p" "permutes_list p'" for p p'
  proof (cases "map_of strategy_config_keys strategy")
    case (Some schema)
    note schema = this
    show ?thesis
    proof (cases "config_fields raw")
      case (Some entries)
      have s: "set (p entries) = set entries" "set (p' entries) = set entries"
        using perm by (metis permutes_list_def set_mset_mset)+
      have m: "map_of (p' entries) = map_of entries"
        using perm(2) map_of_mset_eq config_fields_distinct [OF Some] by (metis permutes_list_def)
      have c: "map_of cs = (\<lambda>k. Option.bind (map_of entries k) (\<lambda>v. case config_value_of schema k v of Inl _ \<Rightarrow> None | Inr c \<Rightarrow> Some c))"
        if "canonical_config schema (p' entries) = Inr cs" for cs
        using canonical_config_map [OF that] unfolding m by (rule ext)
      have "validate_strategy_config marshal p p' strategy raw = Inr t \<longleftrightarrow>
          check_config_keys strategy schema (p entries) = Inr () \<and> (\<exists>cs. canonical_config schema (p' entries) = Inr cs \<and> t = marshal (map_of cs))"
        by (auto simp: validate_strategy_config_def schema Some)
      also have "\<dots> \<longleftrightarrow> ?R"
        unfolding check_config_keys_iff s using canonical_config_ok [of schema "p' entries"] c
        by (auto simp: schema Some s)
      finally show ?thesis .
    qed (simp add: validate_strategy_config_def schema)
  qed (simp add: validate_strategy_config_def)
  show ?thesis unfolding one [OF assms(1,2)] one [OF assms(3,4)] ..
qed

lemma permutes_list_id: "permutes_list (\<lambda>xs. xs)" and permutes_list_rev: "permutes_list rev"
  by (simp_all add: permutes_list_def)

definition eg_marshal :: "(string \<rightharpoonup> config_value) \<Rightarrow> string" where
  "eg_marshal c = (case (c ''slices'', c ''side'') of (Some (C_int n), Some (C_text s)) \<Rightarrow> s @ int_string n | _ \<Rightarrow> [])"

definition eg_config :: json where
  "eg_config = J_object [(''slices'', J_number ''4''), (''side'', J_string ''buy''), (''slices'', J_string '' 5 '')]"

lemma eg_config_accepted: "validate_strategy_config eg_marshal rev rev ''twap'' (Some eg_config) = Inr ''buy5''"
  by code_simp

theorem config_ignores_map_order_witness:
  "validate_strategy_config eg_marshal (\<lambda>xs. xs) rev ''twap'' (Some eg_config) = Inr ''buy5''"
  using config_ignores_map_order [OF permutes_list_id permutes_list_rev permutes_list_rev permutes_list_rev] eg_config_accepted by blast

section \<open>The orders of a bot\<close>

text \<open>A recorded order is within the limits of its bot as long as the engine works alone.\<close>

lemma recorded_order_within_limits:
  assumes "record_bot_order fault now k i e d d d = (d', Inr x)" and "map_of (bb_bots d) i = Some b"
  shows "bt_status b = bot_active \<and> int (pending_of i d') \<le> bt_max_open b
    \<and> (\<exists>quantity largest. validate_positive_decimal ''quantity'' (bo_quantity x) = Inr quantity
        \<and> validate_positive_decimal ''max_order_size'' (bt_max_order b) = Inr largest \<and> quantity \<le> largest)"
proof -
  have c: "check_bot_order e b = Inr ()" and p: "int (pending_of i d) < bt_max_open b" and n: "map_of (bb_orders d) k = None"
    and d': "d' = d\<lparr>bb_orders := AList.update k x (bb_orders d)\<rparr>" and x: "bo_bot x = i" "bo_quantity x = eo_quantity e"
    using assms by (auto simp: record_bot_order_def Let_def split: if_splits sum.splits option.splits)
  have "length (filter P (AList.update k x t)) \<le> Suc (length (filter P t))" if "map_of t k = None" for P and t :: "(uint64 \<times> bot_order) list"
    using that by (induction t) (auto split: if_splits)
  then have "pending_of i d' \<le> Suc (pending_of i d)" using n d' by (simp add: pending_of_def)
  then show ?thesis using c p x by (auto simp: check_bot_order_def validate_positive_iff split: if_splits)
qed

definition eg_bot :: bot where
  "eg_bot = \<lparr>bt_user = 1, bt_name = ''b'', bt_strategy = ''dca'', bt_symbol = ''A/B'', bt_status = bot_active, bt_config = [],
     bt_max_order = ''1'', bt_max_loss = ''0'', bt_max_open = 1, bt_pnl = ''0'', bt_filled = 0, bt_volume = ''0'', bt_created = 0\<rparr>"

definition eg_bots :: bots_db where
  "eg_bots = \<lparr>bb_bots = [(3, eg_bot)], bb_orders = [], bb_days = []\<rparr>"

definition eg_engine_order :: engine_order where
  "eg_engine_order = \<lparr>eo_symbol = ''A/B'', eo_side = ''buy'', eo_kind = ''market'', eo_price = [], eo_quantity = ''1'',
     eo_source = ''dca'', eo_reduce_only = False\<rparr>"

text \<open>Two calls that count before either stores: a bot that may have one open order has two.\<close>

lemma open_orders_can_exceed_the_limit:
  "let d1 = fst (record_bot_order (\<lambda>_. False) 0 11 3 eg_engine_order eg_bots eg_bots eg_bots)
   in pending_of 3 (fst (record_bot_order (\<lambda>_. False) 0 12 3 eg_engine_order eg_bots eg_bots d1)) = 2"
  by code_simp

text \<open>A resume that read the bot before it was stopped restarts it.\<close>

lemma stopped_bot_can_restart:
  "let d1 = fst (update_bot_status (\<lambda>_. False) (Some 1) ''3'' (Some bot_stopped) eg_bots eg_bots);
       d2 = fst (update_bot_status (\<lambda>_. False) (Some 1) ''3'' (Some bot_active) eg_bots d1)
   in map_option bt_status (map_of (bb_bots d1) 3) = Some bot_stopped
      \<and> map_option bt_status (map_of (bb_bots d2) 3) = Some bot_active"
  by code_simp

text \<open>The summary's total counts groups, not bots.\<close>

lemma summary_total_counts_groups:
  "bots_summary (\<lambda>_. False) (Some 1) (eg_bots\<lparr>bb_bots := [(3, eg_bot), (4, eg_bot)]\<rparr>)
   = Ok_reply 200 ([(''dca'', 2)], [(''active'', 2)], 1)"
  by code_simp

end
