(* ===== verification/Go_Decimal.thy ===== *)
theory Go_Decimal
  imports Launchpad Go_Duration
begin

text \<open>
  Money between decimal text and \<open>float64\<close>: what \<open>services/perp_money.go\<close> and \<open>services/margin_engine.go\<close>
  share. An amount is an exact rational. A \<open>float64\<close> enters the exact arithmetic through its shortest
  decimal, the text that \<open>strconv.FormatFloat(x, 'f', -1, 64)\<close> writes: of the decimals with the fewest
  digits that read back as \<open>x\<close> the one nearest to it.
\<close>

section \<open>The shortest decimal\<close>

text \<open>The two decimals with \<open>k\<close> places around \<open>m\<close>; for a negative \<open>k\<close> they are multiples of a power of ten.\<close>

definition pow10 :: "int \<Rightarrow> rat" where
  "pow10 k = (if 0 \<le> k then 10 ^ nat k else 1 / 10 ^ nat (- k))"

definition decimal_below :: "int \<Rightarrow> rat \<Rightarrow> rat" where
  "decimal_below k m = of_int \<lfloor>m * pow10 k\<rfloor> / pow10 k"

definition decimal_above :: "int \<Rightarrow> rat \<Rightarrow> rat" where
  "decimal_above k m = of_int \<lceil>m * pow10 k\<rceil> / pow10 k"

definition reads_as :: "rat \<Rightarrow> rat \<Rightarrow> bool" where
  "reads_as c m \<longleftrightarrow> round_mag c = m"

definition decimal_at :: "int \<Rightarrow> rat \<Rightarrow> rat option" where
  "decimal_at k m =
     (let lo = decimal_below k m; hi = decimal_above k m in
      if reads_as lo m \<and> reads_as hi m then Some (if m - lo \<le> hi - m then lo else hi)
      else if reads_as lo m then Some lo
      else if reads_as hi m then Some hi
      else None)"

text \<open>The search for the fewest places; every \<open>float64\<close> is a decimal of 1074 places.\<close>

fun shortest_from :: "nat \<Rightarrow> int \<Rightarrow> rat \<Rightarrow> rat" where
  "shortest_from 0 k m = m"
| "shortest_from (Suc n) k m = (case decimal_at k m of Some c \<Rightarrow> c | None \<Rightarrow> shortest_from n (k + 1) m)"

definition shortest :: "rat \<Rightarrow> rat" where
  "shortest m = (if m \<le> 0 then 0 else shortest_from 1500 (- int (length (nat_string (nat \<lfloor>m\<rfloor>)))) m)"

lemma shortest_from_reads: "round_mag m = m \<Longrightarrow> round_mag (shortest_from n k m) = m"
  by (induction n k m rule: shortest_from.induct)
    (auto simp: decimal_at_def reads_as_def Let_def split: option.splits if_splits)

lemma shortest_reads: "round_mag m = m \<Longrightarrow> round_mag (shortest m) = m"
  using round_mag_ge_0 [of m] by (cases "m \<le> 0") (auto simp: shortest_def shortest_from_reads)

lemma pow10_pos [simp]: "0 < pow10 k"
  by (simp add: pow10_def)

lemma decimal_at_ge_0:
  assumes "0 \<le> m" "decimal_at k m = Some c"
  shows "0 \<le> c"
proof -
  have p: "0 < pow10 k" by simp
  have "0 \<le> m * pow10 k" using assms(1) order_less_imp_le [OF p] by (intro mult_nonneg_nonneg)
  then have "0 \<le> \<lfloor>m * pow10 k\<rfloor>" "0 \<le> \<lceil>m * pow10 k\<rceil>" by linarith+
  then have "0 \<le> decimal_below k m" "0 \<le> decimal_above k m"
    using order_less_imp_le [OF p] unfolding decimal_below_def decimal_above_def
    by (intro divide_nonneg_nonneg; simp)+
  with assms(2) show ?thesis by (auto simp: decimal_at_def Let_def split: if_splits)
qed

lemma shortest_ge_0 [simp]: "0 \<le> shortest m"
proof -
  have "0 \<le> m \<Longrightarrow> 0 \<le> shortest_from n k m" for n k
    by (induction n k m rule: shortest_from.induct) (auto split: option.splits dest: decimal_at_ge_0)
  then show ?thesis by (simp add: shortest_def)
qed

section \<open>Rounding errors\<close>

lemma round_even_error: "\<bar>of_int (round_even x) - x\<bar> \<le> 1 / 2"
proof -
  define d where "d = x - of_int \<lfloor>x\<rfloor>"
  have d: "0 \<le> d" "d < 1" unfolding d_def by linarith+
  have "x = of_int \<lfloor>x\<rfloor> + d" by (simp add: d_def)
  then have e: "\<bar>of_int n - x\<bar> = \<bar>of_int (n - \<lfloor>x\<rfloor>) - d\<bar>" for n by (simp add: algebra_simps)
  show ?thesis unfolding e round_even_def Let_def d_def [symmetric] using d by (auto simp: abs_if)
qed

text \<open>Rounding a normal number moves it by at most one part in \<open>2 ^ 53\<close>.\<close>

lemma round_mag_error:
  assumes "pow2 (- 1022) \<le> m"
  shows "\<bar>round_mag m - m\<bar> \<le> m * pow2 (- 53)"
proof -
  have m: "0 < m" using assms pow2_pos [of "- 1022"] by linarith
  have e: "ulp_exp m = lead_exp m - 52" using lead_exp_ge [OF m assms] by (simp add: ulp_exp_def)
  let ?u = "pow2 (ulp_exp m)"
  have "round_mag m - m = (of_int (round_even (m / ?u)) - m / ?u) * ?u"
    using m by (simp add: round_mag_def algebra_simps)
  then have "\<bar>round_mag m - m\<bar> = \<bar>of_int (round_even (m / ?u)) - m / ?u\<bar> * ?u" by (simp add: abs_mult)
  also have "\<dots> \<le> 1 / 2 * ?u" by (intro mult_right_mono round_even_error) simp
  also have "\<dots> = pow2 (lead_exp m) * pow2 (- 53)"
  proof -
    have "pow2 (ulp_exp m) = pow2 (lead_exp m) * pow2 (- 52)" by (simp add: e flip: pow2_add)
    moreover have "pow2 (- 52) = pow2 (- 53) * pow2 1" by (simp flip: pow2_add)
    moreover have "pow2 1 = 2" by (simp add: pow2_def)
    ultimately show ?thesis by simp
  qed
  also have "\<dots> \<le> m * pow2 (- 53)" using lead_exp_bounds [OF m] by (intro mult_right_mono) auto
  finally show ?thesis .
qed

section \<open>Amounts\<close>

text \<open>\<open>perpAmountValue\<close>: the bound is the \<open>float64\<close> nearest to \<open>1e24\<close>.\<close>

definition fraction_places :: "string \<Rightarrow> nat" where
  "fraction_places s = (case split_once (CHR ''.'') s of (_, Some f) \<Rightarrow> length f | (_, None) \<Rightarrow> 0)"

definition max_perp_amount :: rat where
  "max_perp_amount = 999999999999999983222784"

definition perp_amount_value :: "string \<Rightarrow> rat option" where
  "perp_amount_value amount =
     (case parse_decimal amount of
        None \<Rightarrow> None
      | Some v \<Rightarrow>
          if v \<le> 0 then None
          else if 8 < fraction_places (trim_space amount) then None
          else if max_perp_amount < v then None
          else Some v)"

text \<open>\<open>moneyValue\<close> of the margin engine has no upper bound.\<close>

definition money_value :: "string \<Rightarrow> rat option" where
  "money_value amount =
     (case parse_decimal amount of
        None \<Rightarrow> None
      | Some v \<Rightarrow> if v \<le> 0 \<or> 8 < fraction_places (trim_space amount) then None else Some v)"

definition amount_value_string :: "rat \<Rightarrow> string" where
  "amount_value_string v = format_decimal v 8"

text \<open>\<open>rationalFromFloat\<close>: the text of a negative number, and of the negative zero, starts with a sign, which
  \<open>parseDecimal\<close> refuses.\<close>

fun rational_from_float :: "f64 \<Rightarrow> rat option" where
  "rational_from_float (Fin False m) = Some (shortest m)"
| "rational_from_float _ = None"

text \<open>\<open>rationalToFloat\<close> refuses what overflows.\<close>

definition rational_to_float :: "rat \<Rightarrow> f64 option" where
  "rational_to_float v = (case f64_of_rat v of Fin s m \<Rightarrow> Some (Fin s m) | _ \<Rightarrow> None)"

lemma perp_amount_pos: "perp_amount_value a = Some v \<Longrightarrow> 0 < v \<and> v \<le> max_perp_amount \<and> parse_decimal a = Some v"
  by (auto simp: perp_amount_value_def split: option.splits if_splits)

lemma max_perp_amount_float: "f64_of_int (10 ^ 24) = Fin False max_perp_amount"
  by code_simp

end
