(* ===== verification/Perp.thy ===== *)
theory Perp
  imports Go_Decimal
begin

text \<open>
  Perpetual positions (\<open>services/perpetual_engine.go\<close>, \<open>services/perp_money.go\<close>). The engine keeps
  positions, orders and the registry of listed markets in memory behind one lock, and releases the lock
  while it asks the oracle: an operation makes each of its reads in a state of its own (\<open>s0\<close>, \<open>sm\<close>, ...), gets its
  prices, and writes in a later state \<open>s\<close>. The Go maps are association lists; \<open>mark\<close> and \<open>index\<close> are what the oracle answers for a
  symbol, \<open>None\<close> for an error. \<open>parse_float\<close> is \<open>strconv.ParseFloat\<close> on the text of a listing column. The
  texts of the errors, which quote their arguments, are constructors.
\<close>

section \<open>State\<close>

record perp_market =
  pm_symbol :: string
  pm_oracle :: string
  pm_index :: string
  pm_max_leverage :: int
  pm_maker_fee :: f64
  pm_taker_fee :: f64
  pm_maintenance :: f64
  pm_liquidation_fee :: f64
  pm_max_open_interest :: string
  pm_impact :: f64
  pm_funding_rate :: f64
  pm_funding_interval :: int64
  pm_funding_cap :: f64

record perp_position =
  pp_owner :: string
  pp_pair :: string
  pp_side :: string
  pp_size :: string
  pp_collateral :: string
  pp_entry :: f64
  pp_mark :: f64
  pp_index :: f64
  pp_liquidation :: f64
  pp_leverage :: int
  pp_pnl :: string
  pp_funding :: string
  pp_status :: string
  pp_opened :: time
  pp_closed :: "time option"

record perp_order =
  pr_owner :: string
  pr_pair :: string
  pr_side :: string
  pr_type :: string
  pr_size :: string
  pr_price :: f64
  pr_trigger :: f64
  pr_status :: string
  pr_filled :: string
  pr_created :: time
  pr_expires :: time

record perp_engine =
  pe_positions :: "(string \<times> perp_position) list"
  pe_orders :: "(string \<times> perp_order) list"
  pe_markets :: "(string \<times> perp_market) list"

datatype perp_error =
  Unsupported_pair | Market_not_listed | No_oracle_price | Price_not_positive | Bad_amount | No_mark_price | Bad_leverage
| Short_collateral | Unreadable_cap | Cap_not_positive | Unreadable_position | Cap_reached | Position_not_found | Being_liquidated
| Position_not_open | No_longer_open | Not_liquidatable | No_longer_liquidatable | Recovered | Unreadable_collateral
| Unreadable_price | Unreadable_fee_rate | Fee_rate_out_of_range | Bad_side | Bad_limit_price | Bad_trigger_price | Bad_order_type
| Bad_expiry | Perp_order_not_found | Order_not_cancellable | No_database | Listings_unreadable

definition perp_open :: string where "perp_open = ''open''"
definition perp_liquidatable :: string where "perp_liquidatable = ''liquidatable''"
definition perp_closed :: string where "perp_closed = ''closed''"
definition perp_liquidated :: string where "perp_liquidated = ''liquidated''"

section \<open>Listings\<close>

definition max_perp_leverage :: int where
  "max_perp_leverage = 1001"

text \<open>The constants 0.0001 and 0.01 as \<open>float64\<close>.\<close>

definition default_funding_rate :: f64 where
  "default_funding_rate = f64_of_rat (1 / 10000)"

definition default_funding_cap :: f64 where
  "default_funding_cap = f64_of_rat (1 / 100)"

definition default_funding_interval :: int64 where
  "default_funding_interval = 8 * 3600000000000"

definition clamp_leverage :: "int \<Rightarrow> int" where
  "clamp_leverage n = (if n \<le> 0 \<or> max_perp_leverage < n then max_perp_leverage else n)"

definition funding_interval :: "int \<Rightarrow> int64" where
  "funding_interval hours = (if hours \<le> 0 then default_funding_interval else wrap64 (hours * 3600000000000))"

definition decimal_or_zero :: "(string \<Rightarrow> f64 option) \<Rightarrow> string \<Rightarrow> f64" where
  "decimal_or_zero parse_float text' =
     (case parse_float (trim_space text') of
        None \<Rightarrow> f64_of_int 0
      | Some v \<Rightarrow> if is_nan v \<or> is_inf v \<or> f64_lt v (f64_of_int 0) then f64_of_int 0 else v)"

definition decimal_or_default :: "(string \<Rightarrow> f64 option) \<Rightarrow> string \<Rightarrow> f64 \<Rightarrow> f64" where
  "decimal_or_default parse_float text' def =
     (case parse_float (trim_space text') of
        None \<Rightarrow> def
      | Some v \<Rightarrow> if is_nan v \<or> is_inf v \<or> f64_le v (f64_of_int 0) then def else v)"

text \<open>What comes before the first slash or hyphen, unless that is nothing.\<close>

definition oracle_base_from_symbol :: "string \<Rightarrow> string" where
  "oracle_base_from_symbol symbol =
     (let s = to_upper (trim_space symbol);
          base = takeWhile (\<lambda>c. c \<noteq> CHR ''/'' \<and> c \<noteq> CHR ''-'') s
      in if base = [] \<or> base = s then s else base)"

record futures_listing =
  fl_symbol :: string
  fl_base :: string
  fl_max_leverage :: int
  fl_maker_fee :: f64
  fl_taker_fee :: f64
  fl_maintenance :: f64
  fl_liquidation_fee :: f64
  fl_funding_rate :: string
  fl_funding_hours :: int
  fl_funding_cap :: string
  fl_status :: string

record perps_listing =
  pl_symbol :: string
  pl_market_type :: string
  pl_max_leverage :: int
  pl_maker_fee :: f64
  pl_taker_fee :: f64
  pl_maintenance :: f64
  pl_liquidation_fee :: f64
  pl_max_open_interest :: string
  pl_impact :: f64
  pl_status :: string

definition futures_market_config :: "(string \<Rightarrow> f64 option) \<Rightarrow> futures_listing \<Rightarrow> perp_market option" where
  "futures_market_config parse_float m =
     (let symbol = to_upper (trim_space (fl_symbol m)); base = to_upper (trim_space (fl_base m)) in
      if symbol = [] \<or> base = [] then None
      else Some \<lparr>pm_symbol = symbol, pm_oracle = base, pm_index = base, pm_max_leverage = clamp_leverage (fl_max_leverage m),
                 pm_maker_fee = fl_maker_fee m, pm_taker_fee = fl_taker_fee m, pm_maintenance = fl_maintenance m,
                 pm_liquidation_fee = fl_liquidation_fee m, pm_max_open_interest = [], pm_impact = f64_of_int 0,
                 pm_funding_rate = decimal_or_zero parse_float (fl_funding_rate m),
                 pm_funding_interval = funding_interval (fl_funding_hours m),
                 pm_funding_cap = decimal_or_default parse_float (fl_funding_cap m) default_funding_cap\<rparr>)"

definition perps_market_config :: "perps_listing \<Rightarrow> perp_market option" where
  "perps_market_config m =
     (let symbol = to_upper (trim_space (pl_symbol m)); mt = to_lower (trim_space (pl_market_type m));
          base = oracle_base_from_symbol symbol in
      if symbol = [] then None
      else if mt \<noteq> [] \<and> mt \<noteq> ''oracle'' then None
      else if base = [] then None
      else Some \<lparr>pm_symbol = symbol, pm_oracle = base, pm_index = base, pm_max_leverage = clamp_leverage (pl_max_leverage m),
                 pm_maker_fee = pl_maker_fee m, pm_taker_fee = pl_taker_fee m, pm_maintenance = pl_maintenance m,
                 pm_liquidation_fee = pl_liquidation_fee m, pm_max_open_interest = trim_space (pl_max_open_interest m),
                 pm_impact = pl_impact m, pm_funding_rate = default_funding_rate,
                 pm_funding_interval = default_funding_interval, pm_funding_cap = default_funding_cap\<rparr>)"

text \<open>The futures rows first, a later row over an earlier one; a perpetual row only where there is no entry yet.
  \<open>rows\<close> is what the two queries give, \<open>None\<close> for an error; a nil database is an error as well.\<close>

definition add_futures :: "(string \<Rightarrow> f64 option) \<Rightarrow> futures_listing \<Rightarrow> (string \<times> perp_market) list \<Rightarrow> (string \<times> perp_market) list" where
  "add_futures parse_float m reg =
     (case futures_market_config parse_float m of None \<Rightarrow> reg | Some c \<Rightarrow> AList.update (pm_symbol c) c reg)"

definition add_perps :: "perps_listing \<Rightarrow> (string \<times> perp_market) list \<Rightarrow> (string \<times> perp_market) list" where
  "add_perps m reg =
     (case perps_market_config m of
        None \<Rightarrow> reg
      | Some c \<Rightarrow> if map_of reg (pm_symbol c) = None then AList.update (pm_symbol c) c reg else reg)"

definition refresh_markets ::
  "(string \<Rightarrow> f64 option) \<Rightarrow> bool \<Rightarrow> futures_listing list option \<Rightarrow> perps_listing list option \<Rightarrow> perp_engine \<Rightarrow>
     perp_engine \<times> perp_error option" where
  "refresh_markets parse_float has_db futures perps s =
     (if \<not> has_db then (s, Some No_database)
      else (case (futures, perps) of
              (Some fs, Some ps) \<Rightarrow>
                (s\<lparr>pe_markets := fold add_perps (filter (\<lambda>m. pl_status m = ''active'') ps)
                     (fold (add_futures parse_float) (filter (\<lambda>m. fl_status m = ''active'') fs) [])\<rparr>, None)
            | _ \<Rightarrow> (s, Some Listings_unreadable)))"

section \<open>Prices\<close>

definition market :: "string \<Rightarrow> perp_engine \<Rightarrow> perp_market option" where
  "market pair s = map_of (pe_markets s) (to_upper (trim_space pair))"

type_synonym price_feed = "string \<Rightarrow> f64 option"

definition oracle_price :: "price_feed \<Rightarrow> string \<Rightarrow> perp_error + f64" where
  "oracle_price price symbol =
     (case price symbol of
        None \<Rightarrow> Inl No_oracle_price
      | Some usd \<Rightarrow> if f64_le usd (f64_of_int 0) then Inl Price_not_positive else Inr usd)"

definition get_mark_price :: "price_feed \<Rightarrow> string \<Rightarrow> perp_engine \<Rightarrow> perp_error + f64" where
  "get_mark_price price pair s =
     (case market pair s of None \<Rightarrow> Inl Market_not_listed | Some c \<Rightarrow> oracle_price price (pm_oracle c))"

definition get_index_price :: "price_feed \<Rightarrow> string \<Rightarrow> perp_engine \<Rightarrow> perp_error + f64" where
  "get_index_price price pair s =
     (case market pair s of
        None \<Rightarrow> Inl Market_not_listed
      | Some c \<Rightarrow> oracle_price price (if pm_index c = [] then pm_oracle c else pm_index c))"

text \<open>Half of the margin is the buffer: \<open>entry * (1 -+ 1 / leverage * 0.5)\<close> in \<open>float64\<close>.\<close>

definition calculate_liquidation_price :: "f64 \<Rightarrow> int \<Rightarrow> bool \<Rightarrow> f64" where
  "calculate_liquidation_price entry leverage long =
     (let threshold = f64_mul (f64_div (f64_of_int 1) (f64_of_int leverage)) (Fin False (1 / 2)) in
      f64_mul entry (if long then f64_sub (f64_of_int 1) threshold else f64_add (f64_of_int 1) threshold))"

definition is_liquidatable :: "perp_position \<Rightarrow> bool" where
  "is_liquidatable p =
     (if pp_side p = ''long'' then f64_le (pp_mark p) (pp_liquidation p) else f64_le (pp_liquidation p) (pp_mark p))"

definition notional_pnl :: "f64 \<Rightarrow> f64 \<Rightarrow> string \<Rightarrow> string \<Rightarrow> rat option" where
  "notional_pnl entry current qty side =
     (if f64_le entry (f64_of_int 0) \<or> is_nan entry \<or> is_inf entry then Some 0
      else (case (parse_decimal qty, rational_from_float entry, rational_from_float current) of
              (Some notional, Some e, Some c) \<Rightarrow>
                let move = (c - e) / e in Some ((if equal_fold side ''short'' then - move else move) * notional)
            | _ \<Rightarrow> None))"

definition calculate_pnl :: "perp_position \<Rightarrow> f64 \<Rightarrow> string" where
  "calculate_pnl p price =
     (case notional_pnl (pp_entry p) price (pp_size p) (pp_side p) of None \<Rightarrow> ''0'' | Some v \<Rightarrow> format_decimal v 8)"

section \<open>Open interest\<close>

definition position_is_live :: "string \<Rightarrow> bool" where
  "position_is_live status \<longleftrightarrow> status = perp_open \<or> status = perp_liquidatable"

text \<open>Long and short totals of one symbol, \<open>None\<close> when a size cannot be read.\<close>

fun add_interest :: "string \<Rightarrow> (string \<times> perp_position) list \<Rightarrow> rat \<times> rat \<Rightarrow> (rat \<times> rat) option" where
  "add_interest symbol [] t = Some t"
| "add_interest symbol ((_, p) # ps) (long, short) =
     (if pp_pair p \<noteq> symbol \<or> \<not> position_is_live (pp_status p) then add_interest symbol ps (long, short)
      else (case perp_amount_value (pp_size p) of
              None \<Rightarrow> None
            | Some v \<Rightarrow> add_interest symbol ps (if pp_side p = ''short'' then (long, short + v) else (long + v, short))))"

definition open_interest :: "string \<Rightarrow> perp_engine \<Rightarrow> (rat \<times> rat) option" where
  "open_interest symbol s = add_interest symbol (pe_positions s) (0, 0)"

definition open_interest_cap :: "perp_market \<Rightarrow> perp_error + rat option" where
  "open_interest_cap c =
     (if trim_space (pm_max_open_interest c) = [] then Inr None
      else (case parse_decimal (pm_max_open_interest c) of
              None \<Rightarrow> Inl Unreadable_cap
            | Some v \<Rightarrow> if v \<le> 0 then Inl Cap_not_positive else Inr (Some v)))"

section \<open>Opening and closing\<close>

definition amount_of :: "string \<Rightarrow> perp_error + rat" where
  "amount_of text' = (case perp_amount_value text' of None \<Rightarrow> Inl Bad_amount | Some v \<Rightarrow> Inr v)"

definition check_cap :: "perp_market \<Rightarrow> string \<Rightarrow> rat \<Rightarrow> perp_engine \<Rightarrow> perp_error + unit" where
  "check_cap c pair qty s =
     and_then (open_interest_cap c) (\<lambda>cap.
       (case cap of
          None \<Rightarrow> Inr ()
        | Some limit \<Rightarrow>
            (case open_interest pair s of
               None \<Rightarrow> Inl Unreadable_position
             | Some (long, short) \<Rightarrow> if limit < long + short + qty then Inl Cap_reached else Inr ())))"

text \<open>
  The position to store. Each read takes the lock for itself: the listing is read in \<open>s0\<close>, its entry for the
  mark price in \<open>sm\<close> and for the index price in \<open>si\<close>, the open interest in \<open>s1\<close>.
\<close>

definition new_position ::
  "price_feed \<Rightarrow> price_feed \<Rightarrow> time \<Rightarrow> string \<Rightarrow> string \<Rightarrow> string \<Rightarrow> string \<Rightarrow> string \<Rightarrow> int \<Rightarrow>
     perp_engine \<Rightarrow> perp_engine \<Rightarrow> perp_engine \<Rightarrow> perp_engine \<Rightarrow> perp_error + perp_position" where
  "new_position mark index now owner pair side qty collateral leverage s0 sm si s1 =
     (case market pair s0 of
        None \<Rightarrow> Inl Unsupported_pair
      | Some c \<Rightarrow>
          and_then (get_mark_price mark pair sm) (\<lambda>mark_price.
          and_then (get_index_price index pair si) (\<lambda>index_price.
          and_then (amount_of qty) (\<lambda>size_value.
          and_then (amount_of collateral) (\<lambda>collateral_value.
            if f64_le mark_price (f64_of_int 0) \<or> is_nan mark_price \<or> is_inf mark_price then Inl No_mark_price
            else if leverage < 1 \<or> pm_max_leverage c < leverage then Inl Bad_leverage
            else if collateral_value < size_value / of_int leverage then Inl Short_collateral
            else and_then (check_cap c pair size_value s1) (\<lambda>_.
              Inr \<lparr>pp_owner = owner, pp_pair = pair, pp_side = side, pp_size = qty, pp_collateral = collateral,
                   pp_entry = mark_price, pp_mark = mark_price, pp_index = index_price,
                   pp_liquidation = calculate_liquidation_price mark_price leverage (side = ''long''),
                   pp_leverage = leverage, pp_pnl = ''0'', pp_funding = ''0'', pp_status = perp_open, pp_opened = now,
                   pp_closed = None\<rparr>))))))"

definition open_position ::
  "price_feed \<Rightarrow> price_feed \<Rightarrow> time \<Rightarrow> string \<Rightarrow> string \<Rightarrow> string \<Rightarrow> string \<Rightarrow> string \<Rightarrow> string \<Rightarrow> int \<Rightarrow>
     perp_engine \<Rightarrow> perp_engine \<Rightarrow> perp_engine \<Rightarrow> perp_engine \<Rightarrow> perp_engine \<Rightarrow> perp_engine \<times> (perp_error + perp_position)" where
  "open_position mark index now new_id owner pair side qty collateral leverage s0 sm si s1 s =
     (case new_position mark index now owner pair side qty collateral leverage s0 sm si s1 of
        Inl e \<Rightarrow> (s, Inl e)
      | Inr p \<Rightarrow> (s\<lparr>pe_positions := AList.update new_id p (pe_positions s)\<rparr>, Inr p))"

definition put_position :: "string \<Rightarrow> perp_position \<Rightarrow> perp_engine \<Rightarrow> perp_engine" where
  "put_position i p s = s\<lparr>pe_positions := AList.update i p (pe_positions s)\<rparr>"

definition settled :: "string \<Rightarrow> time \<Rightarrow> f64 \<Rightarrow> string \<Rightarrow> perp_position \<Rightarrow> perp_position" where
  "settled status now price pnl p = p\<lparr>pp_status := status, pp_closed := Some now, pp_mark := price, pp_pnl := pnl\<rparr>"

text \<open>The position is read in \<open>s0\<close>, the listing for its mark price in \<open>sm\<close>.\<close>

definition close_position ::
  "price_feed \<Rightarrow> time \<Rightarrow> string \<Rightarrow> string \<Rightarrow> perp_engine \<Rightarrow> perp_engine \<Rightarrow> perp_engine \<Rightarrow>
     perp_engine \<times> (perp_error + perp_position)" where
  "close_position mark now owner i s0 sm s =
     (case map_of (pe_positions s0) i of
        None \<Rightarrow> (s, Inl Position_not_found)
      | Some p0 \<Rightarrow>
          if owner \<noteq> [] \<and> pp_owner p0 \<noteq> owner then (s, Inl Position_not_found)
          else if pp_status p0 = perp_liquidatable then (s, Inl Being_liquidated)
          else if pp_status p0 \<noteq> perp_open then (s, Inl Position_not_open)
          else (case get_mark_price mark (pp_pair p0) sm of
                  Inl e \<Rightarrow> (s, Inl e)
                | Inr price \<Rightarrow>
                    (case map_of (pe_positions s) i of
                       None \<Rightarrow> (s, Inl No_longer_open)
                     | Some p \<Rightarrow>
                         if pp_status p \<noteq> perp_open then (s, Inl No_longer_open)
                         else let p' = settled perp_closed now price (calculate_pnl p price) p
                              in (put_position i p' s, Inr p'))))"

definition get_position :: "string \<Rightarrow> perp_engine \<Rightarrow> perp_error + perp_position" where
  "get_position i s = (case map_of (pe_positions s) i of None \<Rightarrow> Inl Position_not_found | Some p \<Rightarrow> Inr p)"

definition get_user_positions :: "string \<Rightarrow> perp_engine \<Rightarrow> (string \<times> perp_position) list" where
  "get_user_positions user s = filter (\<lambda>(_, p). pp_owner p = user \<and> position_is_live (pp_status p)) (pe_positions s)"

section \<open>Marking and liquidation\<close>

text \<open>The marks that an update has for the pairs of the live positions it saw, by the text of the pair.\<close>

definition new_mark :: "price_feed \<Rightarrow> perp_engine \<Rightarrow> string \<Rightarrow> f64 option" where
  "new_mark price s0 pair =
     (if \<exists>(_, p) \<in> set (pe_positions s0). pp_pair p = pair \<and> position_is_live (pp_status p)
      then (case get_mark_price price pair s0 of Inl _ \<Rightarrow> None | Inr usd \<Rightarrow> Some usd)
      else None)"

definition remark :: "(string \<Rightarrow> f64 option) \<Rightarrow> perp_position \<Rightarrow> perp_position" where
  "remark marks p =
     (if \<not> position_is_live (pp_status p) then p
      else (case marks (pp_pair p) of
              None \<Rightarrow> p
            | Some price \<Rightarrow>
                let q = p\<lparr>pp_mark := price\<rparr> in
                q\<lparr>pp_status := (if is_liquidatable q then perp_liquidatable else perp_open), pp_pnl := calculate_pnl q price\<rparr>))"

text \<open>Each pair has one mark per update, which the oracle gave for its symbol.\<close>

definition update_positions :: "price_feed \<Rightarrow> perp_engine \<Rightarrow> perp_engine \<Rightarrow> perp_engine" where
  "update_positions price s0 s =
     s\<lparr>pe_positions := map (\<lambda>(i, p). (i, remark (new_mark price s0) p)) (pe_positions s)\<rparr>"

definition liquidatable_positions :: "perp_engine \<Rightarrow> (string \<times> perp_position) list" where
  "liquidatable_positions s = filter (\<lambda>(_, p). pp_status p = perp_liquidatable) (pe_positions s)"

definition liquidation_payout :: "rat \<Rightarrow> rat \<Rightarrow> f64 \<Rightarrow> perp_error + rat" where
  "liquidation_payout collateral pnl fee_rate =
     (case rational_from_float fee_rate of
        None \<Rightarrow> Inl Unreadable_fee_rate
      | Some rate \<Rightarrow>
          if rate < 0 \<or> 1 < rate then Inl Fee_rate_out_of_range
          else Inr (max 0 (collateral + pnl) * rate))"

text \<open>A refusal after the new price was taken leaves the price in the position.\<close>

definition settle_liquidation ::
  "time \<Rightarrow> f64 \<Rightarrow> perp_market \<Rightarrow> string \<Rightarrow> perp_position \<Rightarrow> perp_engine \<Rightarrow> perp_engine \<times> (perp_error + rat)" where
  "settle_liquidation now price c i p s =
     (let q = p\<lparr>pp_mark := price\<rparr> in
      if \<not> is_liquidatable q
        then (put_position i (q\<lparr>pp_status := perp_open, pp_pnl := calculate_pnl q price\<rparr>) s, Inl Recovered)
      else (case parse_decimal (pp_collateral q) of
              None \<Rightarrow> (put_position i q s, Inl Unreadable_collateral)
            | Some collateral \<Rightarrow>
                (case notional_pnl (pp_entry q) price (pp_size q) (pp_side q) of
                   None \<Rightarrow> (put_position i q s, Inl Unreadable_price)
                 | Some pnl \<Rightarrow>
                     (case liquidation_payout collateral pnl (pm_liquidation_fee c) of
                        Inl e \<Rightarrow> (put_position i q s, Inl e)
                      | Inr fee \<Rightarrow>
                          (put_position i (settled perp_liquidated now price (format_decimal pnl 8) q) s, Inr fee)))))"

text \<open>The position is read in \<open>s0\<close>, its listing in \<open>sc\<close>, and the listing for the mark price in \<open>sm\<close>.\<close>

definition liquidate_position ::
  "price_feed \<Rightarrow> time \<Rightarrow> string \<Rightarrow> perp_engine \<Rightarrow> perp_engine \<Rightarrow> perp_engine \<Rightarrow> perp_engine \<Rightarrow>
     perp_engine \<times> (perp_error + rat)" where
  "liquidate_position mark now i s0 sc sm s =
     (case map_of (pe_positions s0) i of
        None \<Rightarrow> (s, Inl Position_not_found)
      | Some p0 \<Rightarrow>
          if pp_status p0 \<noteq> perp_liquidatable then (s, Inl Not_liquidatable)
          else (case market (pp_pair p0) sc of
                  None \<Rightarrow> (s, Inl Market_not_listed)
                | Some c \<Rightarrow>
                    (case get_mark_price mark (pp_pair p0) sm of
                       Inl e \<Rightarrow> (s, Inl e)
                     | Inr price \<Rightarrow>
                         (case map_of (pe_positions s) i of
                            None \<Rightarrow> (s, Inl No_longer_liquidatable)
                          | Some p \<Rightarrow>
                              if pp_status p \<noteq> perp_liquidatable then (s, Inl No_longer_liquidatable)
                              else settle_liquidation now price c i p s))))"

section \<open>Orders\<close>

definition order_type_check :: "string \<Rightarrow> f64 \<Rightarrow> f64 \<Rightarrow> perp_error + unit" where
  "order_type_check order_type price trigger =
     (if order_type = ''market'' then Inr ()
      else if order_type = ''limit'' then
        (if f64_le price (f64_of_int 0) \<or> is_nan price \<or> is_inf price then Inl Bad_limit_price else Inr ())
      else if order_type = ''stop'' then
        (if f64_le trigger (f64_of_int 0) \<or> is_nan trigger \<or> is_inf trigger then Inl Bad_trigger_price else Inr ())
      else Inl Bad_order_type)"

definition order_id :: "time \<Rightarrow> string" where
  "order_id now = ''ord_'' @ int_string now"

definition new_order ::
  "time \<Rightarrow> string \<Rightarrow> string \<Rightarrow> string \<Rightarrow> string \<Rightarrow> string \<Rightarrow> f64 \<Rightarrow> f64 \<Rightarrow> int \<Rightarrow> perp_engine \<Rightarrow> perp_error + perp_order" where
  "new_order now owner pair side order_type qty price trigger expires_in s0 =
     (let side' = to_lower (trim_space side); order_type' = to_lower (trim_space order_type) in
      if market pair s0 = None then Inl Unsupported_pair
      else if side' \<noteq> ''long'' \<and> side' \<noteq> ''short'' then Inl Bad_side
      else and_then (order_type_check order_type' price trigger) (\<lambda>_.
           and_then (amount_of qty) (\<lambda>_.
             if expires_in \<le> 0 then Inl Bad_expiry
             else Inr \<lparr>pr_owner = owner, pr_pair = pair, pr_side = side', pr_type = order_type', pr_size = qty, pr_price = price,
                       pr_trigger = trigger, pr_status = ''pending'', pr_filled = ''0'', pr_created = now,
                       pr_expires = now + wrap64 (expires_in * 1000000000)\<rparr>)))"

text \<open>A market order is filled in its record at the mark price of \<open>s1\<close>; when there is no price it stays pending.\<close>

definition create_order ::
  "price_feed \<Rightarrow> time \<Rightarrow> string \<Rightarrow> string \<Rightarrow> string \<Rightarrow> string \<Rightarrow> string \<Rightarrow> f64 \<Rightarrow> f64 \<Rightarrow> int \<Rightarrow>
     perp_engine \<Rightarrow> perp_engine \<Rightarrow> perp_engine \<Rightarrow> perp_engine \<times> (perp_error + perp_order)" where
  "create_order mark now owner pair side order_type qty price trigger expires_in s0 s1 s =
     (case new_order now owner pair side order_type qty price trigger expires_in s0 of
        Inl e \<Rightarrow> (s, Inl e)
      | Inr x \<Rightarrow>
          let put = (\<lambda>y. s\<lparr>pe_orders := AList.update (order_id now) y (pe_orders s)\<rparr>) in
          if pr_type x \<noteq> ''market'' then (put x, Inr x)
          else (case get_mark_price mark pair s1 of
                  Inl e \<Rightarrow> (put x, Inl e)
                | Inr p \<Rightarrow> let y = x\<lparr>pr_status := ''filled'', pr_filled := qty, pr_price := p\<rparr> in (put y, Inr y)))"

definition cancel_order :: "string \<Rightarrow> string \<Rightarrow> perp_engine \<Rightarrow> perp_engine \<times> perp_error option" where
  "cancel_order i owner s =
     (case map_of (pe_orders s) i of
        None \<Rightarrow> (s, Some Perp_order_not_found)
      | Some x \<Rightarrow>
          if owner \<noteq> [] \<and> pr_owner x \<noteq> owner then (s, Some Perp_order_not_found)
          else if pr_status x \<noteq> ''pending'' then (s, Some Order_not_cancellable)
          else (s\<lparr>pe_orders := AList.update i (x\<lparr>pr_status := ''cancelled''\<rparr>) (pe_orders s)\<rparr>, None))"

section \<open>Funding\<close>

text \<open>\<open>Truncate\<close> counts from the first of January of year one.\<close>

definition year_one :: time where
  "year_one = - 62135596800000000000"

definition next_funding_time :: "time \<Rightarrow> int64 \<Rightarrow> time" where
  "next_funding_time now interval =
     (let i = (if interval \<le> 0 then default_funding_interval else interval);
          next = now - (now - year_one) mod i + i
      in if next \<le> now then next + i else next)"

record funding_info =
  fi_pair :: string
  fi_rate :: f64
  fi_next :: time
  fi_interest :: f64

definition clamp_rate :: "f64 \<Rightarrow> f64 \<Rightarrow> f64" where
  "clamp_rate cap rate =
     (if f64_lt cap rate then cap else if f64_lt rate (f64_neg cap) then f64_neg cap else rate)"

definition get_funding_rate :: "price_feed \<Rightarrow> price_feed \<Rightarrow> time \<Rightarrow> string \<Rightarrow> perp_engine \<Rightarrow> perp_error + funding_info" where
  "get_funding_rate mark index now pair s =
     (case market pair s of
        None \<Rightarrow> Inl Market_not_listed
      | Some c \<Rightarrow>
          and_then (get_mark_price mark pair s) (\<lambda>mark_price.
          and_then (get_index_price index pair s) (\<lambda>index_price.
            if f64_le index_price (f64_of_int 0) then Inl Price_not_positive
            else
              let premium = f64_div (f64_sub mark_price index_price) index_price;
                  cap = (if f64_le (pm_funding_cap c) (f64_of_int 0) then default_funding_cap else pm_funding_cap c)
              in Inr \<lparr>fi_pair = pair, fi_rate = clamp_rate cap (f64_add premium (pm_funding_rate c)),
                      fi_next = next_funding_time now (pm_funding_interval c), fi_interest = pm_funding_rate c\<rparr>)))"

section \<open>The handlers\<close>

text \<open>The engine's error texts go out under \<open>error\<close>; here their place is taken by the empty text. An anonymous caller is
  turned away first.\<close>

definition with_owner :: "string \<Rightarrow> 's \<Rightarrow> (string \<Rightarrow> 's \<times> 'a reply) \<Rightarrow> 's \<times> 'a reply" where
  "with_owner owner s k = (if owner = [] then (s, Error_reply 401 ''Authenticated session required'') else k owner)"

fun reply_of :: "nat \<Rightarrow> 's \<times> (perp_error + 'a) \<Rightarrow> 's \<times> 'a reply" where
  "reply_of code (s, Inl e) = (s, Error_reply code [])"
| "reply_of code (s, Inr x) = (s, Ok_reply 200 x)"

definition close_position_handler ::
  "price_feed \<Rightarrow> time \<Rightarrow> string \<Rightarrow> string \<Rightarrow> perp_engine \<Rightarrow> perp_engine \<Rightarrow> perp_engine \<Rightarrow> perp_engine \<times> perp_position reply" where
  "close_position_handler mark now owner i s0 sm s =
     with_owner owner s (\<lambda>u. reply_of 404 (close_position mark now u i s0 sm s))"

definition get_positions_handler :: "string \<Rightarrow> perp_engine \<Rightarrow> (string \<times> perp_position) list reply" where
  "get_positions_handler owner s = snd (with_owner owner s (\<lambda>u. (s, Ok_reply 200 (get_user_positions u s))))"

record order_request =
  oe_pair :: string
  oe_side :: string
  oe_type :: string
  oe_size :: string
  oe_price :: f64
  oe_trigger :: f64
  oe_expires_in :: int

definition create_order_handler ::
  "price_feed \<Rightarrow> time \<Rightarrow> string \<Rightarrow> order_request option \<Rightarrow> perp_engine \<Rightarrow> perp_engine \<Rightarrow> perp_engine \<Rightarrow> perp_engine \<times> perp_order reply" where
  "create_order_handler mark now owner body s0 s1 s =
     with_owner owner s (\<lambda>u.
       (case body of
          None \<Rightarrow> (s, Bad_binding)
        | Some r \<Rightarrow>
            if oe_pair r = [] \<or> oe_side r = [] \<or> oe_type r = [] \<or> oe_size r = [] then (s, Bad_binding)
            else reply_of 400 (create_order mark now u (oe_pair r) (oe_side r) (oe_type r) (oe_size r) (oe_price r) (oe_trigger r)
                   (if oe_expires_in r = 0 then 3600 else oe_expires_in r) s0 s1 s)))"

definition cancel_order_handler :: "string \<Rightarrow> string \<Rightarrow> perp_engine \<Rightarrow> perp_engine \<times> unit reply" where
  "cancel_order_handler owner i s =
     with_owner owner s (\<lambda>u.
       (case cancel_order i u s of (s', None) \<Rightarrow> (s', Ok_reply 200 ()) | (s', Some e) \<Rightarrow> (s', Error_reply 400 [])))"

definition get_funding_rate_handler :: "price_feed \<Rightarrow> price_feed \<Rightarrow> time \<Rightarrow> string \<Rightarrow> perp_engine \<Rightarrow> funding_info reply" where
  "get_funding_rate_handler mark index now pair s = snd (reply_of 500 (s, get_funding_rate mark index now pair s))"

definition list_liquidatable_handler :: "perp_engine \<Rightarrow> (string \<times> perp_position) list reply" where
  "list_liquidatable_handler s = Ok_reply 200 (liquidatable_positions s)"

text \<open>The fee is printed with eight places, rounded half away from zero, which \<open>fee_text\<close> does.\<close>

definition liquidate_position_handler ::
  "(rat \<Rightarrow> string) \<Rightarrow> price_feed \<Rightarrow> time \<Rightarrow> string \<Rightarrow> perp_engine \<Rightarrow> perp_engine \<Rightarrow> perp_engine \<Rightarrow> perp_engine \<Rightarrow>
     perp_engine \<times> string reply" where
  "liquidate_position_handler fee_text mark now i s0 sc sm s =
     (case liquidate_position mark now i s0 sc sm s of
        (s', Inl e) \<Rightarrow> (s', Error_reply 400 [])
      | (s', Inr fee) \<Rightarrow> (s', Ok_reply 200 (fee_text fee)))"

record market_view =
  mv_symbol :: string
  mv_mark :: f64
  mv_index :: f64
  mv_funding :: f64
  mv_max_leverage :: int
  mv_long :: f64
  mv_short :: f64
  mv_active :: bool

definition open_interest_floats :: "string \<Rightarrow> perp_engine \<Rightarrow> f64 \<times> f64" where
  "open_interest_floats symbol s =
     (case open_interest symbol s of
        None \<Rightarrow> (f64_of_int 0, f64_of_int 0)
      | Some (long, short) \<Rightarrow>
          (case (rational_to_float long, rational_to_float short) of
             (Some l, Some t) \<Rightarrow> (l, t)
           | _ \<Rightarrow> (f64_of_int 0, f64_of_int 0)))"

definition market_view_of :: "price_feed \<Rightarrow> price_feed \<Rightarrow> time \<Rightarrow> perp_engine \<Rightarrow> string \<times> perp_market \<Rightarrow> market_view" where
  "market_view_of mark index now s x =
     (case x of (symbol, c) \<Rightarrow>
        let zero = f64_of_int 0;
            view = \<lparr>mv_symbol = symbol, mv_mark = zero, mv_index = zero, mv_funding = zero, mv_max_leverage = pm_max_leverage c,
                    mv_long = zero, mv_short = zero, mv_active = False\<rparr> in
        (case get_mark_price mark symbol s of
           Inl _ \<Rightarrow> view
         | Inr price \<Rightarrow>
             view\<lparr>mv_mark := price,
                  mv_index := (case get_index_price index symbol s of Inr i \<Rightarrow> i | Inl _ \<Rightarrow> price),
                  mv_active := True,
                  mv_funding := (case get_funding_rate mark index now symbol s of Inr f \<Rightarrow> fi_rate f | Inl _ \<Rightarrow> zero),
                  mv_long := fst (open_interest_floats symbol s),
                  mv_short := snd (open_interest_floats symbol s)\<rparr>))"

definition get_markets_handler :: "price_feed \<Rightarrow> price_feed \<Rightarrow> time \<Rightarrow> perp_engine \<Rightarrow> market_view list reply" where
  "get_markets_handler mark index now s = Ok_reply 200 (map (market_view_of mark index now s) (pe_markets s))"

end
