(* ===== verification/Margin.thy ===== *)
theory Margin
  imports Perp Sessions
begin

text \<open>
  Spot margin accounts (\<open>services/margin_engine.go\<close>): collateral and borrowed amounts in the database, valued at
  oracle prices. Nothing runs in a transaction: deposits, borrows and repayments make their reads in a state
  \<open>s0\<close>, all of them in the same, and write in a later state \<open>s\<close>; a view, a scan and a liquidation, which make
  many reads and writes, are modelled undisturbed. The oracle is asked for every row anew. Rows are found in the order of their keys. The database answers every
  query. \<open>pow\<close> is \<open>math.Pow\<close>, \<open>parse_uuid\<close> reads a key.
\<close>

section \<open>State\<close>

record margin_market =
  mm_pair :: string
  mm_base :: string
  mm_quote :: string
  mm_mode :: string
  mm_max_leverage :: int
  mm_collateral :: string
  mm_borrowable :: string
  mm_base_rate :: f64
  mm_kink :: f64
  mm_jump :: f64
  mm_ltv :: f64
  mm_threshold :: f64
  mm_bonus :: f64
  mm_close :: f64
  mm_status :: string

text \<open>The sets of assets are lists.\<close>

record margin_config =
  mg_pair :: string
  mg_base :: string
  mg_quote :: string
  mg_mode :: string
  mg_max_leverage :: int
  mg_collateral :: "string list"
  mg_borrowable :: "string list"
  mg_base_rate :: f64
  mg_kink :: f64
  mg_jump :: f64
  mg_ltv :: f64
  mg_threshold :: f64
  mg_bonus :: f64
  mg_close :: f64

record margin_account =
  ma_user :: string
  ma_mode :: string
  ma_pair :: string
  ma_status :: string

record margin_collateral =
  mc_account :: uuid
  mc_asset :: string
  mc_amount :: string

record margin_borrow =
  mb_account :: uuid
  mb_asset :: string
  mb_principal :: string
  mb_interest :: string
  mb_accrued :: time

record margin_db =
  md_markets :: "margin_market list"
  md_accounts :: "(uuid \<times> margin_account) list"
  md_collateral :: "(uuid \<times> margin_collateral) list"
  md_borrows :: "(uuid \<times> margin_borrow) list"

datatype margin_error =
  Margin_not_listed | Account_not_found | Account_inactive string | Asset_not_allowed | Bad_money | Unpriced | Unreadable_column
| Unusable_number | Insufficient_collateral | Bad_mode | No_debt | Exceeds_debt | Account_healthy

definition margin_active :: string where "margin_active = ''active''"
definition margin_liquidated :: string where "margin_liquidated = ''liquidated''"

text \<open>\<open>UPDATE \<dots> WHERE id = i\<close> changes the named columns of the row that is there, if any.\<close>

definition update_row :: "uuid \<Rightarrow> ('r \<Rightarrow> 'r) \<Rightarrow> (uuid \<times> 'r) list \<Rightarrow> (uuid \<times> 'r) list" where
  "update_row i f t = map (\<lambda>(j, r). (j, if j = i then f r else r)) t"

definition delete_row :: "uuid \<Rightarrow> (uuid \<times> 'r) list \<Rightarrow> (uuid \<times> 'r) list" where
  "delete_row i t = filter (\<lambda>(j, _). j \<noteq> i) t"

section \<open>Listings\<close>

definition asset_set :: "string \<Rightarrow> string list" where
  "asset_set raw = filter (\<lambda>a. a \<noteq> []) (map (\<lambda>p. to_upper (trim_space p)) (split_on (CHR '','') raw))"

definition margin_config_of :: "string \<Rightarrow> margin_market \<Rightarrow> margin_error + margin_config" where
  "margin_config_of normalized m =
     (let base = to_upper (trim_space (mm_base m)); quote' = to_upper (trim_space (mm_quote m)) in
      if base = [] \<or> quote' = [] then Inl Margin_not_listed
      else Inr \<lparr>mg_pair = normalized, mg_base = base, mg_quote = quote', mg_mode = to_lower (trim_space (mm_mode m)),
                mg_max_leverage = mm_max_leverage m, mg_collateral = asset_set (mm_collateral m),
                mg_borrowable = asset_set (mm_borrowable m), mg_base_rate = mm_base_rate m, mg_kink = mm_kink m,
                mg_jump = mm_jump m, mg_ltv = mm_ltv m, mg_threshold = mm_threshold m, mg_bonus = mm_bonus m,
                mg_close = mm_close m\<rparr>)"

definition margin_listing :: "string \<Rightarrow> margin_db \<Rightarrow> margin_error + margin_config" where
  "margin_listing pair s =
     (let normalized = to_upper (trim_space pair) in
      case find (\<lambda>m. mm_pair m = normalized \<and> mm_status m = ''active'') (md_markets s) of
        None \<Rightarrow> Inl Margin_not_listed
      | Some m \<Rightarrow> margin_config_of normalized m)"

definition owned_account :: "string \<Rightarrow> uuid \<Rightarrow> margin_db \<Rightarrow> margin_error + margin_config" where
  "owned_account user i s =
     (case map_of (md_accounts s) i of
        None \<Rightarrow> Inl Account_not_found
      | Some a \<Rightarrow>
          if ma_user a \<noteq> user then Inl Account_not_found
          else if ma_status a \<noteq> margin_active then Inl (Account_inactive (ma_status a))
          else margin_listing (ma_pair a) s)"

section \<open>Valuation\<close>

definition asset_price :: "price_feed \<Rightarrow> string \<Rightarrow> margin_error + f64" where
  "asset_price price asset =
     (case price (to_upper (trim_space asset)) of
        None \<Rightarrow> Inl Unpriced
      | Some usd \<Rightarrow> if f64_le usd (f64_of_int 0) then Inl Unpriced else Inr usd)"

definition usable :: "f64 \<Rightarrow> margin_error + rat" where
  "usable x = (case rational_from_float x of None \<Rightarrow> Inl Unusable_number | Some v \<Rightarrow> Inr v)"

definition column :: "string \<Rightarrow> margin_error + rat" where
  "column text' = (case parse_decimal text' of None \<Rightarrow> Inl Unreadable_column | Some v \<Rightarrow> Inr v)"

definition price_value :: "price_feed \<Rightarrow> string \<Rightarrow> margin_error + rat" where
  "price_value price asset = and_then (asset_price price asset) usable"

definition usd_value :: "price_feed \<Rightarrow> string \<Rightarrow> rat \<Rightarrow> margin_error + f64" where
  "usd_value price asset amount = and_then (price_value price asset) (\<lambda>usd. Inr (f64_of_rat (amount * usd)))"

text \<open>
  The oracle is asked anew for every row, and may have moved in between: \<open>row_feed\<close> gives the answers by
  the key of the row, a \<open>health_feed\<close> those for the collateral and for the debts of one computation.
\<close>

type_synonym row_feed = "uuid \<Rightarrow> price_feed"
type_synonym health_feed = "row_feed \<times> row_feed"

type_synonym valued_row = "price_feed \<times> string \<times> (margin_error + rat)"

fun add_values :: "valued_row list \<Rightarrow> f64 \<Rightarrow> margin_error + f64" where
  "add_values [] acc = Inr acc"
| "add_values ((price, asset, amount) # rest) acc =
     and_then amount (\<lambda>v.
       if v \<le> 0 then add_values rest acc
       else and_then (usd_value price asset v) (\<lambda>usd. add_values rest (f64_add acc usd)))"

definition loan_debt :: "margin_borrow \<Rightarrow> margin_error + rat" where
  "loan_debt b = and_then (column (mb_principal b)) (\<lambda>p. and_then (column (mb_interest b)) (\<lambda>i. Inr (p + i)))"

definition collateral_rows :: "uuid \<Rightarrow> margin_db \<Rightarrow> (uuid \<times> margin_collateral) list" where
  "collateral_rows a s = filter (\<lambda>(_, c). mc_account c = a) (md_collateral s)"

definition borrow_rows :: "uuid \<Rightarrow> margin_db \<Rightarrow> (uuid \<times> margin_borrow) list" where
  "borrow_rows a s = filter (\<lambda>(_, b). mb_account b = a) (md_borrows s)"

record margin_health =
  mh_collateral :: f64
  mh_debt :: f64
  mh_liquidation :: f64
  mh_factor :: f64

definition collateral_values :: "row_feed \<Rightarrow> uuid \<Rightarrow> margin_db \<Rightarrow> valued_row list" where
  "collateral_values price a s = map (\<lambda>(i, c). (price i, mc_asset c, column (mc_amount c))) (collateral_rows a s)"

definition debt_values :: "row_feed \<Rightarrow> uuid \<Rightarrow> margin_db \<Rightarrow> valued_row list" where
  "debt_values price a s = map (\<lambda>(i, b). (price i, mb_asset b, loan_debt b)) (borrow_rows a s)"

definition compute_health :: "health_feed \<Rightarrow> uuid \<Rightarrow> margin_config \<Rightarrow> margin_db \<Rightarrow> margin_error + margin_health" where
  "compute_health price a cfg s =
     and_then (add_values (collateral_values (fst price) a s) (f64_of_int 0)) (\<lambda>collateral.
     and_then (add_values (debt_values (snd price) a s) (f64_of_int 0)) (\<lambda>debt.
       let liquidation = f64_mul collateral (mg_threshold cfg) in
       Inr \<lparr>mh_collateral = collateral, mh_debt = debt, mh_liquidation = liquidation,
            mh_factor = (if f64_le debt (f64_of_int 0) then Infty False else f64_div liquidation debt)\<rparr>))"

section \<open>Interest\<close>

definition borrow_rate :: "margin_config \<Rightarrow> f64 \<Rightarrow> f64" where
  "borrow_rate cfg utilization =
     (let zero = f64_of_int 0; one = f64_of_int 1;
          u0 = (if f64_lt utilization zero then zero else utilization);
          u = (if f64_lt one u0 then one else u0) in
      if f64_lt (mg_kink cfg) u then
        let over = f64_sub u (mg_kink cfg); denom = f64_sub one (mg_kink cfg) in
        if f64_lt zero denom then f64_add (mg_base_rate cfg) (f64_mul (mg_jump cfg) (f64_div over denom)) else mg_base_rate cfg
      else mg_base_rate cfg)"

text \<open>\<open>Duration.Hours\<close>.\<close>

definition duration_hours :: "int64 \<Rightarrow> f64" where
  "duration_hours d =
     f64_add (f64_of_int (quo d 3600000000000)) (f64_div (f64_of_int (rem_trunc d 3600000000000)) (f64_of_int 3600000000000))"

definition growth_factor :: "(f64 \<Rightarrow> f64 \<Rightarrow> f64) \<Rightarrow> margin_config \<Rightarrow> int64 \<Rightarrow> f64" where
  "growth_factor pow cfg elapsed =
     pow (f64_add (f64_of_int 1) (f64_div (borrow_rate cfg (f64_of_int 0)) (f64_of_int 365)))
         (f64_div (duration_hours elapsed) (f64_of_int 24))"

text \<open>The interest to store, \<open>None\<close> when no time has passed.\<close>

definition accrued :: "(f64 \<Rightarrow> f64 \<Rightarrow> f64) \<Rightarrow> margin_config \<Rightarrow> time \<Rightarrow> margin_borrow \<Rightarrow> margin_error + string option" where
  "accrued pow cfg now b =
     (let elapsed = time_sub now (mb_accrued b) in
      if elapsed \<le> 0 then Inr None
      else and_then (column (mb_principal b)) (\<lambda>p.
           and_then (column (mb_interest b)) (\<lambda>i.
           and_then (usable (growth_factor pow cfg elapsed)) (\<lambda>g.
             Inr (Some (amount_value_string (max 0 ((p + i) * g - p))))))))"

definition set_interest :: "string \<Rightarrow> time \<Rightarrow> margin_borrow \<Rightarrow> margin_borrow" where
  "set_interest interest now b = b\<lparr>mb_interest := interest, mb_accrued := now\<rparr>"

definition write_borrow :: "uuid \<Rightarrow> (margin_borrow \<Rightarrow> margin_borrow) \<Rightarrow> margin_db \<Rightarrow> margin_db" where
  "write_borrow i f s = s\<lparr>md_borrows := update_row i f (md_borrows s)\<rparr>"

fun accrue_rows ::
  "(f64 \<Rightarrow> f64 \<Rightarrow> f64) \<Rightarrow> margin_config \<Rightarrow> time \<Rightarrow> (uuid \<times> margin_borrow) list \<Rightarrow> margin_db \<Rightarrow> margin_db \<times> margin_error option" where
  "accrue_rows pow cfg now [] s = (s, None)"
| "accrue_rows pow cfg now ((i, b) # rest) s =
     (case accrued pow cfg now b of
        Inl e \<Rightarrow> (s, Some e)
      | Inr None \<Rightarrow> accrue_rows pow cfg now rest s
      | Inr (Some interest) \<Rightarrow> accrue_rows pow cfg now rest (write_borrow i (set_interest interest now) s))"

definition accrue_interest ::
  "(f64 \<Rightarrow> f64 \<Rightarrow> f64) \<Rightarrow> uuid \<Rightarrow> margin_config \<Rightarrow> time \<Rightarrow> margin_db \<Rightarrow> margin_db \<times> margin_error option" where
  "accrue_interest pow a cfg now s = accrue_rows pow cfg now (borrow_rows a s) s"

section \<open>What a user can do\<close>

definition open_account :: "string \<Rightarrow> string \<Rightarrow> string \<Rightarrow> uuid \<Rightarrow> margin_db \<Rightarrow> margin_db \<Rightarrow> margin_db \<times> (margin_error + margin_account)" where
  "open_account user pair requested new_id s0 s =
     (case margin_listing pair s0 of
        Inl e \<Rightarrow> (s, Inl e)
      | Inr cfg \<Rightarrow>
          let m0 = to_lower (trim_space requested);
              m1 = (if m0 = [] then mg_mode cfg else m0);
              mode = (if m1 = [] then ''cross'' else m1) in
          if mode \<noteq> ''cross'' \<and> mode \<noteq> ''isolated'' then (s, Inl Bad_mode)
          else let a = \<lparr>ma_user = user, ma_mode = mode, ma_pair = mg_pair cfg, ma_status = margin_active\<rparr>
               in (s\<lparr>md_accounts := insert_row new_id a (md_accounts s)\<rparr>, Inr a))"

definition money :: "string \<Rightarrow> margin_error + rat" where
  "money amount = (case money_value amount of None \<Rightarrow> Inl Bad_money | Some v \<Rightarrow> Inr v)"

definition find_collateral :: "uuid \<Rightarrow> string \<Rightarrow> margin_db \<Rightarrow> (uuid \<times> margin_collateral) option" where
  "find_collateral a asset s = find (\<lambda>(_, c). mc_account c = a \<and> mc_asset c = asset) (md_collateral s)"

definition find_borrow :: "uuid \<Rightarrow> string \<Rightarrow> margin_db \<Rightarrow> (uuid \<times> margin_borrow) option" where
  "find_borrow a asset s = find (\<lambda>(_, b). mb_account b = a \<and> mb_asset b = asset) (md_borrows s)"

text \<open>A write prepared on the state read.\<close>

definition apply_write :: "margin_error + (margin_db \<Rightarrow> margin_db) \<Rightarrow> margin_db \<Rightarrow> margin_db \<times> margin_error option" where
  "apply_write r s = (case r of Inl e \<Rightarrow> (s, Some e) | Inr f \<Rightarrow> (f s, None))"

definition store_collateral :: "uuid \<Rightarrow> string \<Rightarrow> rat \<Rightarrow> uuid \<Rightarrow> margin_db \<Rightarrow> margin_error + (margin_db \<Rightarrow> margin_db)" where
  "store_collateral a asset v new_id s0 =
     (case find_collateral a asset s0 of
        None \<Rightarrow> Inr (\<lambda>s. s\<lparr>md_collateral := insert_row new_id
                   \<lparr>mc_account = a, mc_asset = asset, mc_amount = amount_value_string v\<rparr> (md_collateral s)\<rparr>)
      | Some (i, c) \<Rightarrow>
          and_then (column (mc_amount c)) (\<lambda>current.
            Inr (\<lambda>s. s\<lparr>md_collateral := update_row i (mc_amount_update (\<lambda>_. amount_value_string (current + v))) (md_collateral s)\<rparr>)))"

definition plan_deposit :: "price_feed \<Rightarrow> string \<Rightarrow> uuid \<Rightarrow> string \<Rightarrow> string \<Rightarrow> uuid \<Rightarrow> margin_db \<Rightarrow> margin_error + (margin_db \<Rightarrow> margin_db)" where
  "plan_deposit price user a asset amount new_id s0 =
     and_then (owned_account user a s0) (\<lambda>cfg.
       let normalized = to_upper (trim_space asset) in
       if normalized \<notin> set (mg_collateral cfg) then Inl Asset_not_allowed
       else and_then (money amount) (\<lambda>v.
            and_then (asset_price price normalized) (\<lambda>_. store_collateral a normalized v new_id s0)))"

definition deposit_collateral ::
  "price_feed \<Rightarrow> string \<Rightarrow> uuid \<Rightarrow> string \<Rightarrow> string \<Rightarrow> uuid \<Rightarrow> margin_db \<Rightarrow> margin_db \<Rightarrow> margin_db \<times> margin_error option" where
  "deposit_collateral price user a asset amount new_id s0 s = apply_write (plan_deposit price user a asset amount new_id s0) s"

text \<open>The exact comparison of a new borrow with the loan to value of the listing.\<close>

definition within_ltv :: "margin_health \<Rightarrow> margin_config \<Rightarrow> rat \<Rightarrow> rat \<Rightarrow> margin_error + unit" where
  "within_ltv h cfg v usd =
     and_then (usable (mg_ltv cfg)) (\<lambda>ltv.
     and_then (usable (mh_collateral h)) (\<lambda>collateral.
     and_then (usable (mh_debt h)) (\<lambda>debt.
       if collateral * ltv < debt + v * usd then Inl Insufficient_collateral else Inr ())))"

text \<open>Here the interest of the time since the last accrual is charged on the principal alone.\<close>

definition simple_interest :: "(f64 \<Rightarrow> f64 \<Rightarrow> f64) \<Rightarrow> margin_config \<Rightarrow> time \<Rightarrow> margin_borrow \<Rightarrow> rat \<Rightarrow> rat \<Rightarrow> margin_error + rat" where
  "simple_interest pow cfg now b prin interest =
     (let elapsed = time_sub now (mb_accrued b) in
      if elapsed \<le> 0 then Inr interest
      else and_then (usable (growth_factor pow cfg elapsed)) (\<lambda>g. Inr (interest + prin * (g - 1))))"

definition store_borrow ::
  "(f64 \<Rightarrow> f64 \<Rightarrow> f64) \<Rightarrow> margin_config \<Rightarrow> time \<Rightarrow> uuid \<Rightarrow> string \<Rightarrow> rat \<Rightarrow> uuid \<Rightarrow> margin_db \<Rightarrow>
     margin_error + (margin_db \<Rightarrow> margin_db)" where
  "store_borrow pow cfg now a asset v new_id s0 =
     (case find_borrow a asset s0 of
        None \<Rightarrow> Inr (\<lambda>s. s\<lparr>md_borrows := insert_row new_id
                   \<lparr>mb_account = a, mb_asset = asset, mb_principal = amount_value_string v, mb_interest = ''0'', mb_accrued = now\<rparr>
                   (md_borrows s)\<rparr>)
      | Some (i, b) \<Rightarrow>
          and_then (column (mb_principal b)) (\<lambda>prin.
          and_then (column (mb_interest b)) (\<lambda>interest.
          and_then (simple_interest pow cfg now b prin interest) (\<lambda>total.
            Inr (write_borrow i (\<lambda>r. r\<lparr>mb_principal := amount_value_string (prin + v),
                                       mb_interest := amount_value_string (max 0 total), mb_accrued := now\<rparr>))))))"

text \<open>\<open>p0\<close> answers for the asset to be borrowed, \<open>price\<close> for the rows of the account.\<close>

definition plan_borrow ::
  "(f64 \<Rightarrow> f64 \<Rightarrow> f64) \<Rightarrow> price_feed \<Rightarrow> health_feed \<Rightarrow> time \<Rightarrow> string \<Rightarrow> uuid \<Rightarrow> string \<Rightarrow> string \<Rightarrow> uuid \<Rightarrow> margin_db \<Rightarrow>
     margin_error + (margin_db \<Rightarrow> margin_db)" where
  "plan_borrow pow p0 price now user a asset amount new_id s0 =
     and_then (owned_account user a s0) (\<lambda>cfg.
       let normalized = to_upper (trim_space asset) in
       if normalized \<notin> set (mg_borrowable cfg) then Inl Asset_not_allowed
       else and_then (money amount) (\<lambda>v.
            and_then (asset_price p0 normalized) (\<lambda>borrow_price.
            and_then (compute_health price a cfg s0) (\<lambda>h.
            and_then (usable borrow_price) (\<lambda>usd.
            and_then (within_ltv h cfg v usd) (\<lambda>_. store_borrow pow cfg now a normalized v new_id s0))))))"

definition borrow ::
  "(f64 \<Rightarrow> f64 \<Rightarrow> f64) \<Rightarrow> price_feed \<Rightarrow> health_feed \<Rightarrow> time \<Rightarrow> string \<Rightarrow> uuid \<Rightarrow> string \<Rightarrow> string \<Rightarrow> uuid \<Rightarrow> margin_db \<Rightarrow> margin_db \<Rightarrow>
     margin_db \<times> margin_error option" where
  "borrow pow p0 price now user a asset amount new_id s0 s =
     apply_write (plan_borrow pow p0 price now user a asset amount new_id s0) s"

text \<open>Interest is paid before principal.\<close>

definition pay_down :: "rat \<Rightarrow> rat \<Rightarrow> rat \<Rightarrow> rat \<times> rat" where
  "pay_down prin interest v =
     (if v \<le> interest then (prin, interest - v) else (max 0 (prin - (v - interest)), 0))"

definition set_debt :: "rat \<times> rat \<Rightarrow> margin_borrow \<Rightarrow> margin_borrow" where
  "set_debt d b = b\<lparr>mb_principal := amount_value_string (fst d), mb_interest := amount_value_string (snd d)\<rparr>"

definition drop_borrow :: "uuid \<Rightarrow> margin_db \<Rightarrow> margin_db" where
  "drop_borrow i s = s\<lparr>md_borrows := delete_row i (md_borrows s)\<rparr>"

definition plan_repay :: "string \<Rightarrow> uuid \<Rightarrow> string \<Rightarrow> string \<Rightarrow> margin_db \<Rightarrow> margin_error + (margin_db \<Rightarrow> margin_db)" where
  "plan_repay user a asset amount s0 =
     and_then (owned_account user a s0) (\<lambda>_.
     and_then (money amount) (\<lambda>v.
       (case find_borrow a (to_upper (trim_space asset)) s0 of
          None \<Rightarrow> Inl No_debt
        | Some (i, b) \<Rightarrow>
            and_then (column (mb_principal b)) (\<lambda>prin.
            and_then (column (mb_interest b)) (\<lambda>interest.
              if prin + interest < v then Inl Exceeds_debt
              else if v = prin + interest then Inr (drop_borrow i)
              else Inr (write_borrow i (set_debt (pay_down prin interest v))))))))"

definition repay :: "string \<Rightarrow> uuid \<Rightarrow> string \<Rightarrow> string \<Rightarrow> margin_db \<Rightarrow> margin_db \<Rightarrow> margin_db \<times> margin_error option" where
  "repay user a asset amount s0 s = apply_write (plan_repay user a asset amount s0) s"

section \<open>Liquidation\<close>

fun holdings :: "row_feed \<Rightarrow> (uuid \<times> margin_collateral) list \<Rightarrow> margin_error + (uuid \<times> rat \<times> f64) list" where
  "holdings price [] = Inr []"
| "holdings price ((i, c) # rest) =
     and_then (column (mc_amount c)) (\<lambda>v.
       if v \<le> 0 then holdings price rest
       else and_then (usd_value (price i) (mc_asset c) v) (\<lambda>usd. and_then (holdings price rest) (\<lambda>hs. Inr ((i, v, usd) # hs))))"

definition keep_share :: "rat \<Rightarrow> uuid \<times> rat \<times> f64 \<Rightarrow> margin_db \<Rightarrow> margin_db" where
  "keep_share kept h s = (case h of (i, v, _) \<Rightarrow>
     s\<lparr>md_collateral := update_row i (mc_amount_update (\<lambda>_. amount_value_string (max 0 (v * kept)))) (md_collateral s)\<rparr>)"

definition seize_collateral :: "row_feed \<Rightarrow> uuid \<Rightarrow> f64 \<Rightarrow> margin_db \<Rightarrow> margin_db \<times> margin_error option" where
  "seize_collateral price a value_usd s =
     (case holdings price (collateral_rows a s) of
        Inl e \<Rightarrow> (s, Some e)
      | Inr hs \<Rightarrow>
          let total = foldl (\<lambda>acc (_, _, usd). f64_add acc usd) (f64_of_int 0) hs in
          if f64_le total (f64_of_int 0) then (s, None)
          else
            let share = f64_div value_usd total; fraction = (if f64_lt (f64_of_int 1) share then f64_of_int 1 else share) in
            (case usable fraction of
               Inl e \<Rightarrow> (s, Some e)
             | Inr f \<Rightarrow> (fold (keep_share (1 - f)) hs s, None)))"

text \<open>One borrow of the list: what is left to pay, and the state. A debt that is not positive is passed over.\<close>

definition pay_borrow ::
  "price_feed \<Rightarrow> uuid \<Rightarrow> margin_borrow \<Rightarrow> f64 \<Rightarrow> margin_db \<Rightarrow> margin_error + f64 \<times> margin_db" where
  "pay_borrow price i b remaining s =
     and_then (asset_price price (mb_asset b)) (\<lambda>p.
     and_then (column (mb_principal b)) (\<lambda>prin.
     and_then (column (mb_interest b)) (\<lambda>interest.
     and_then (usable p) (\<lambda>usd.
       let owed = (prin + interest) * usd in
       if owed \<le> 0 then Inr (remaining, s)
       else and_then (usable remaining) (\<lambda>left.
         let pay = min left owed; (p', i') = pay_down prin interest (pay / usd) in
         Inr (f64_sub remaining (f64_of_rat pay),
              if p' = 0 \<and> i' = 0 then drop_borrow i s else write_borrow i (set_debt (p', i')) s))))))"

fun reduce_rows :: "row_feed \<Rightarrow> (uuid \<times> margin_borrow) list \<Rightarrow> f64 \<Rightarrow> margin_db \<Rightarrow> margin_db \<times> margin_error option" where
  "reduce_rows price [] remaining s = (s, None)"
| "reduce_rows price ((i, b) # rest) remaining s =
     (if f64_le remaining (f64_of_int 0) then (s, None)
      else (case pay_borrow (price i) i b remaining s of
              Inl e \<Rightarrow> (s, Some e)
            | Inr (remaining', s') \<Rightarrow> reduce_rows price rest remaining' s'))"

definition reduce_debt :: "row_feed \<Rightarrow> uuid \<Rightarrow> f64 \<Rightarrow> margin_db \<Rightarrow> margin_db \<times> margin_error option" where
  "reduce_debt price a value_usd s = reduce_rows price (borrow_rows a s) value_usd s"

record liquidation_candidate =
  lc_account :: uuid
  lc_factor :: f64
  lc_debt :: f64

text \<open>The value to repay and the value to seize.\<close>

definition liquidation_amounts :: "margin_config \<Rightarrow> margin_health \<Rightarrow> f64 \<times> f64" where
  "liquidation_amounts cfg h =
     (let zero = f64_of_int 0; one = f64_of_int 1;
          close = (if f64_le (mg_close cfg) zero \<or> f64_lt one (mg_close cfg) then one else mg_close cfg);
          repayable = f64_mul (mh_debt h) close;
          seize = f64_mul repayable (f64_add one (mg_bonus cfg))
      in (repayable, if f64_lt (mh_collateral h) seize then mh_collateral h else seize))"

definition settled_debt :: f64 where
  "settled_debt = f64_of_rat (1 / 1000000000)"

definition mark_liquidated :: "uuid \<Rightarrow> margin_db \<Rightarrow> margin_db" where
  "mark_liquidated a s = s\<lparr>md_accounts := update_row a (ma_status_update (\<lambda>_. margin_liquidated)) (md_accounts s)\<rparr>"

definition close_if_cleared :: "health_feed \<Rightarrow> uuid \<Rightarrow> margin_config \<Rightarrow> margin_db \<Rightarrow> margin_db" where
  "close_if_cleared price a cfg s =
     (case compute_health price a cfg s of
        Inl _ \<Rightarrow> s
      | Inr h \<Rightarrow> if f64_le (mh_debt h) settled_debt then mark_liquidated a s else s)"

definition settle_account ::
  "row_feed \<Rightarrow> row_feed \<Rightarrow> health_feed \<Rightarrow> uuid \<Rightarrow> margin_config \<Rightarrow> margin_health \<Rightarrow> margin_db \<Rightarrow>
     margin_db \<times> (margin_error + liquidation_candidate)" where
  "settle_account p2 p3 p4 a cfg h s =
     (let (repayable, seize) = liquidation_amounts cfg h in
      (case seize_collateral p2 a seize s of
         (s2, Some e) \<Rightarrow> (s2, Inl e)
       | (s2, None) \<Rightarrow>
           (case reduce_debt p3 a repayable s2 of
              (s3, Some e) \<Rightarrow> (s3, Inl e)
            | (s3, None) \<Rightarrow>
                (close_if_cleared p4 a cfg s3, Inr \<lparr>lc_account = a, lc_factor = mh_factor h, lc_debt = mh_debt h\<rparr>))))"

definition below_health :: "margin_health \<Rightarrow> bool" where
  "below_health h \<longleftrightarrow> \<not> (f64_le (mh_debt h) (f64_of_int 0) \<or> f64_le (f64_of_int 1) (mh_factor h))"

definition liquidate ::
  "(f64 \<Rightarrow> f64 \<Rightarrow> f64) \<Rightarrow> time \<Rightarrow> health_feed \<Rightarrow> row_feed \<Rightarrow> row_feed \<Rightarrow> health_feed \<Rightarrow> uuid \<Rightarrow> margin_db \<Rightarrow>
     margin_db \<times> (margin_error + liquidation_candidate)" where
  "liquidate pow now p1 p2 p3 p4 a s =
     (case map_of (md_accounts s) a of
        None \<Rightarrow> (s, Inl Account_not_found)
      | Some acc \<Rightarrow>
          (case margin_listing (ma_pair acc) s of
             Inl e \<Rightarrow> (s, Inl e)
           | Inr cfg \<Rightarrow>
               (case accrue_interest pow a cfg now s of
                  (s1, Some e) \<Rightarrow> (s1, Inl e)
                | (s1, None) \<Rightarrow>
                    (case compute_health p1 a cfg s1 of
                       Inl e \<Rightarrow> (s1, Inl e)
                     | Inr h \<Rightarrow> if \<not> below_health h then (s1, Inl Account_healthy) else settle_account p2 p3 p4 a cfg h s1))))"

text \<open>The scan accrues the interest of every account it can price.\<close>

definition scan_account ::
  "(f64 \<Rightarrow> f64 \<Rightarrow> f64) \<Rightarrow> time \<Rightarrow> (uuid \<Rightarrow> health_feed) \<Rightarrow> uuid \<times> margin_account \<Rightarrow>
     margin_db \<times> liquidation_candidate list \<Rightarrow> margin_db \<times> liquidation_candidate list" where
  "scan_account pow now price x st =
     (case (x, st) of ((a, acc), (s, found)) \<Rightarrow>
        (case margin_listing (ma_pair acc) s of
           Inl _ \<Rightarrow> (s, found)
         | Inr cfg \<Rightarrow>
             (case accrue_interest pow a cfg now s of
                (s1, Some _) \<Rightarrow> (s1, found)
              | (s1, None) \<Rightarrow>
                  (case compute_health (price a) a cfg s1 of
                     Inl _ \<Rightarrow> (s1, found)
                   | Inr h \<Rightarrow>
                       if f64_lt (f64_of_int 0) (mh_debt h) \<and> f64_lt (mh_factor h) (f64_of_int 1)
                       then (s1, found @ [\<lparr>lc_account = a, lc_factor = mh_factor h, lc_debt = mh_debt h\<rparr>])
                       else (s1, found)))))"

definition liquidatable_accounts ::
  "(f64 \<Rightarrow> f64 \<Rightarrow> f64) \<Rightarrow> time \<Rightarrow> (uuid \<Rightarrow> health_feed) \<Rightarrow> margin_db \<Rightarrow> margin_db \<times> liquidation_candidate list" where
  "liquidatable_accounts pow now price s =
     fold (scan_account pow now price) (filter (\<lambda>(_, a). ma_status a = margin_active) (md_accounts s)) (s, [])"

section \<open>Views and handlers\<close>

record margin_view =
  mw_account :: uuid
  mw_mode :: string
  mw_pair :: string
  mw_status :: string
  mw_collateral :: f64
  mw_debt :: f64
  mw_equity :: f64
  mw_factor :: f64
  mw_liquidation :: f64

definition get_account_view ::
  "(f64 \<Rightarrow> f64 \<Rightarrow> f64) \<Rightarrow> health_feed \<Rightarrow> time \<Rightarrow> string \<Rightarrow> uuid \<Rightarrow> margin_db \<Rightarrow> margin_db \<times> (margin_error + margin_view)" where
  "get_account_view pow price now user a s =
     (case (owned_account user a s, map_of (md_accounts s) a) of
        (Inl e, _) \<Rightarrow> (s, Inl e)
      | (Inr _, None) \<Rightarrow> (s, Inl Account_not_found)
      | (Inr cfg, Some acc) \<Rightarrow>
          (case accrue_interest pow a cfg now s of
             (s1, Some e) \<Rightarrow> (s1, Inl e)
           | (s1, None) \<Rightarrow>
               (case compute_health price a cfg s1 of
                  Inl e \<Rightarrow> (s1, Inl e)
                | Inr h \<Rightarrow>
                    (s1, Inr \<lparr>mw_account = a, mw_mode = ma_mode acc, mw_pair = ma_pair acc, mw_status = ma_status acc,
                              mw_collateral = mh_collateral h, mw_debt = mh_debt h,
                              mw_equity = f64_sub (mh_collateral h) (mh_debt h), mw_factor = mh_factor h,
                              mw_liquidation = mh_liquidation h\<rparr>))))"

definition open_account_handler ::
  "string \<Rightarrow> (string \<times> string) option \<Rightarrow> uuid \<Rightarrow> margin_db \<Rightarrow> margin_db \<Rightarrow> margin_db \<times> margin_account reply" where
  "open_account_handler user body new_id s0 s =
     with_owner user s (\<lambda>u.
       (case body of
          None \<Rightarrow> (s, Bad_binding)
        | Some (pair, mode) \<Rightarrow>
            if pair = [] then (s, Bad_binding)
            else (case open_account u pair mode new_id s0 s of
                    (s', Inl _) \<Rightarrow> (s', Error_reply 400 [])
                  | (s', Inr a) \<Rightarrow> (s', Ok_reply 201 a))))"

definition get_account_handler ::
  "(string \<Rightarrow> uuid option) \<Rightarrow> (f64 \<Rightarrow> f64 \<Rightarrow> f64) \<Rightarrow> health_feed \<Rightarrow> time \<Rightarrow> string \<Rightarrow> string \<Rightarrow> margin_db \<Rightarrow> margin_db \<times> margin_view reply" where
  "get_account_handler parse_uuid pow price now user i s =
     with_owner user s (\<lambda>u.
       (case parse_uuid i of
          None \<Rightarrow> (s, Error_reply 400 ''invalid account id'')
        | Some a \<Rightarrow>
            (case get_account_view pow price now u a s of
               (s', Inl _) \<Rightarrow> (s', Error_reply 404 [])
             | (s', Inr v) \<Rightarrow> (s', Ok_reply 200 v))))"

text \<open>Deposits, borrows and repayments bind the same three fields.\<close>

definition bound_request ::
  "(string \<Rightarrow> uuid option) \<Rightarrow> string \<Rightarrow> (string \<times> string \<times> string) option \<Rightarrow> margin_db \<Rightarrow>
     (string \<Rightarrow> uuid \<Rightarrow> string \<Rightarrow> string \<Rightarrow> margin_db \<times> unit reply) \<Rightarrow> margin_db \<times> unit reply" where
  "bound_request parse_uuid user body s k =
     with_owner user s (\<lambda>u.
       (case body of
          None \<Rightarrow> (s, Bad_binding)
        | Some (i, asset, amount) \<Rightarrow>
            if i = [] \<or> asset = [] \<or> amount = [] then (s, Bad_binding)
            else (case parse_uuid i of
                    None \<Rightarrow> (s, Error_reply 400 ''invalid account id'')
                  | Some a \<Rightarrow> k u a asset amount)))"

fun done_reply :: "margin_db \<times> margin_error option \<Rightarrow> margin_db \<times> unit reply" where
  "done_reply (s, None) = (s, Ok_reply 200 ())"
| "done_reply (s, Some e) = (s, Error_reply (if e = Insufficient_collateral then 422 else 400) [])"

definition deposit_handler ::
  "(string \<Rightarrow> uuid option) \<Rightarrow> price_feed \<Rightarrow> string \<Rightarrow> (string \<times> string \<times> string) option \<Rightarrow> uuid \<Rightarrow> margin_db \<Rightarrow> margin_db \<Rightarrow>
     margin_db \<times> unit reply" where
  "deposit_handler parse_uuid price user body new_id s0 s =
     bound_request parse_uuid user body s (\<lambda>u a asset amount. done_reply (deposit_collateral price u a asset amount new_id s0 s))"

definition borrow_handler ::
  "(string \<Rightarrow> uuid option) \<Rightarrow> (f64 \<Rightarrow> f64 \<Rightarrow> f64) \<Rightarrow> price_feed \<Rightarrow> health_feed \<Rightarrow> time \<Rightarrow> string \<Rightarrow> (string \<times> string \<times> string) option \<Rightarrow> uuid \<Rightarrow>
     margin_db \<Rightarrow> margin_db \<Rightarrow> margin_db \<times> unit reply" where
  "borrow_handler parse_uuid pow p0 price now user body new_id s0 s =
     bound_request parse_uuid user body s (\<lambda>u a asset amount. done_reply (borrow pow p0 price now u a asset amount new_id s0 s))"

definition repay_handler ::
  "(string \<Rightarrow> uuid option) \<Rightarrow> string \<Rightarrow> (string \<times> string \<times> string) option \<Rightarrow> margin_db \<Rightarrow> margin_db \<Rightarrow> margin_db \<times> unit reply" where
  "repay_handler parse_uuid user body s0 s =
     bound_request parse_uuid user body s (\<lambda>u a asset amount. done_reply (repay u a asset amount s0 s))"

definition liquidate_account_handler ::
  "(string \<Rightarrow> uuid option) \<Rightarrow> (f64 \<Rightarrow> f64 \<Rightarrow> f64) \<Rightarrow> time \<Rightarrow> health_feed \<Rightarrow> row_feed \<Rightarrow> row_feed \<Rightarrow> health_feed \<Rightarrow> string \<Rightarrow>
     margin_db \<Rightarrow> margin_db \<times> liquidation_candidate reply" where
  "liquidate_account_handler parse_uuid pow now p1 p2 p3 p4 i s =
     (case parse_uuid i of
        None \<Rightarrow> (s, Error_reply 400 ''invalid account id'')
      | Some a \<Rightarrow>
          (case liquidate pow now p1 p2 p3 p4 a s of
             (s', Inl _) \<Rightarrow> (s', Error_reply 400 [])
           | (s', Inr c) \<Rightarrow> (s', Ok_reply 200 c)))"

definition list_accounts_handler ::
  "(f64 \<Rightarrow> f64 \<Rightarrow> f64) \<Rightarrow> time \<Rightarrow> (uuid \<Rightarrow> health_feed) \<Rightarrow> margin_db \<Rightarrow> margin_db \<times> liquidation_candidate list reply" where
  "list_accounts_handler pow now price s =
     (case liquidatable_accounts pow now price s of (s', found) \<Rightarrow> (s', Ok_reply 200 found))"

end
