(* ===== verification/Perp_Props.thy ===== *)
theory Perp_Props
  imports Perp
begin

text \<open>
  What the perpetual engine guarantees over interleaved requests: positions stay margined and within
  their bounds, an open position keeps almost half of its required margin at its last mark, settled
  positions stay settled, and a liquidation pays a bounded fee on a position that has crossed its
  price. And where it falls short: the cap on open interest counts one spelling of a pair only, a side
  that is neither \<open>long\<close> nor \<open>short\<close> is never liquidated for its losses, and a market that is taken off
  the list traps its positions.
\<close>

section \<open>Prices as floats\<close>

text \<open>A price that the oracle gives: a \<open>float64\<close> of ordinary size.\<close>

definition ordinary :: "f64 \<Rightarrow> bool" where
  "ordinary x \<longleftrightarrow> (\<exists>m. x = Fin False m \<and> round_mag m = m \<and> pow2 (- 900) \<le> m \<and> m \<le> pow2 900)"

definition eps :: rat where "eps = pow2 (- 53)"

lemma eps_bounds: "0 < eps" "eps * 9007199254740992 = 1"
  by (simp_all add: eps_def pow2_def)

lemma eps_small: "eps * 1000000000000000 \<le> 1"
  using eps_bounds by linarith

lemma round_mag_near:
  assumes "pow2 (- 1022) \<le> m"
  shows "m - m * eps \<le> round_mag m" "round_mag m \<le> m + m * eps"
  using round_mag_error [OF assms] by (auto simp: eps_def abs_le_iff)

lemma pow2_le_small: "- 1022 \<le> e \<Longrightarrow> pow2 e \<le> x \<Longrightarrow> pow2 (- 1022) \<le> x"
  using pow2_mono [of "- 1022" e] by linarith

lemma pow2_m900: "1 / 4 \<le> x \<Longrightarrow> pow2 (- 1022) \<le> pow2 (- 900) * x"
proof -
  assume x: "1 / 4 \<le> x"
  have "pow2 (- 1022) = pow2 (- 900) * pow2 (- 122)" by (simp flip: pow2_add)
  also have "\<dots> \<le> pow2 (- 900) * (1 / 4)" by (intro mult_left_mono) (simp_all add: pow2_def)
  also have "\<dots> \<le> pow2 (- 900) * x" using x by (intro mult_left_mono) simp_all
  finally show ?thesis .
qed

lemma shortest_near:
  assumes "round_mag m = m" "pow2 (- 900) \<le> m"
  shows "m - 2 * (m * eps) \<le> shortest m" "shortest m \<le> m + 2 * (m * eps)"
proof -
  let ?s = "shortest m"
  have r: "round_mag ?s = m" using shortest_reads [OF assms(1)] .
  have m: "0 < m" using assms(2) pow2_pos [of "- 900"] by linarith
  have n: "pow2 (- 1022) \<le> ?s"
  proof (rule ccontr)
    assume "\<not> ?thesis"
    then have "m \<le> round_mag (pow2 (- 1022))" using round_mag_mono [of ?s "pow2 (- 1022)"] r by simp
    also have "\<dots> \<le> pow2 (- 1022) + pow2 (- 1022) * eps" using round_mag_near(2) [of "pow2 (- 1022)"] by simp
    also have "\<dots> < pow2 (- 1022) * 2" using eps_small eps_bounds pow2_pos [of "- 1022"] by simp
    also have "\<dots> = pow2 (- 1021)" by (simp add: pow2_def)
    finally show False using assms(2) pow2_mono [of "- 1021" "- 900"] by simp
  qed
  have b: "?s - ?s * eps \<le> m" "m \<le> ?s + ?s * eps" using round_mag_near [OF n] r by simp_all
  have s: "0 < ?s" using n pow2_pos [of "- 1022"] by linarith
  have "?s \<le> 2 * m"
  proof -
    have "?s * eps \<le> ?s * (1 / 2)" using eps_small s by (intro mult_left_mono) simp_all
    then show ?thesis using b(1) by simp
  qed
  then have "?s * eps \<le> 2 * m * eps" using eps_bounds by (intro mult_right_mono) simp_all
  then show "m - 2 * (m * eps) \<le> ?s" "?s \<le> m + 2 * (m * eps)" using b by (simp_all add: algebra_simps)
qed

lemma f64_round_small: "round_mag m \<le> pow2 1000 \<Longrightarrow> f64_round neg m = Fin neg (round_mag m)"
proof -
  assume "round_mag m \<le> pow2 1000"
  moreover have "pow2 1000 < pow2 1024" by simp
  ultimately have "\<not> pow2 1024 \<le> round_mag m" by linarith
  then show ?thesis by (simp add: f64_round_def Let_def)
qed

lemma pow2_1000: "x \<le> 2 \<Longrightarrow> x \<le> pow2 1000"
  using pow2_mono [of 1 1000] by (simp add: pow2_def)

text \<open>The threshold of the liquidation price in \<open>float64\<close>.\<close>

definition threshold :: "int \<Rightarrow> rat" where
  "threshold n = round_mag (round_mag (1 / of_int n) * (1 / 2))"

lemma leverage_share:
  assumes "1 \<le> n" "n \<le> 1001"
  shows "1 / 1001 \<le> 1 / (of_int n :: rat)" "1 / (of_int n :: rat) \<le> 1"
proof -
  have n: "(1 :: rat) \<le> of_int n" "(of_int n :: rat) \<le> 1001" using assms by simp_all
  show "1 / 1001 \<le> 1 / (of_int n :: rat)" using n by (intro divide_left_mono) simp_all
  show "1 / (of_int n :: rat) \<le> 1" using n by simp
qed

lemma share_normal: "1 / 4096 \<le> x \<Longrightarrow> pow2 (- 1022) \<le> x"
  using pow2_mono [of "- 1022" "- 12"] by (simp add: pow2_def)

lemma near_unit:
  assumes "1 / 4096 \<le> x" "x \<le> 2"
  shows "x - 2 * eps \<le> round_mag x" "round_mag x \<le> x + 2 * eps"
proof -
  have "x * eps \<le> 2 * eps" using assms eps_bounds by (intro mult_right_mono) simp_all
  then show "x - 2 * eps \<le> round_mag x" "round_mag x \<le> x + 2 * eps"
    using round_mag_near [OF share_normal [OF assms(1)]] by linarith+
qed

lemma threshold_near:
  assumes "1 \<le> n" "n \<le> 1001"
  shows "1 / of_int n / 2 - 3 * eps \<le> threshold n" "threshold n \<le> 1 / of_int n / 2 + 3 * eps"
    "1 / 4096 \<le> threshold n" "threshold n \<le> 501 / 1000"
proof -
  let ?q = "1 / of_int n :: rat" and ?r = "round_mag (1 / of_int n)"
  note q = leverage_share [OF assms]
  have r: "?q - 2 * eps \<le> ?r" "?r \<le> ?q + 2 * eps" using near_unit [of ?q] q by simp_all
  have t: "?r * (1 / 2) - 2 * eps \<le> threshold n" "threshold n \<le> ?r * (1 / 2) + 2 * eps"
    unfolding threshold_def using near_unit [of "?r * (1 / 2)"] r q eps_small by simp_all
  show "?q / 2 - 3 * eps \<le> threshold n" "threshold n \<le> ?q / 2 + 3 * eps" using r t by simp_all
  then show "1 / 4096 \<le> threshold n" "threshold n \<le> 501 / 1000" using q eps_small by simp_all
qed

text \<open>The factor \<open>1 -+ threshold\<close>, and the liquidation price.\<close>

definition liq_factor :: "int \<Rightarrow> bool \<Rightarrow> rat" where
  "liq_factor n long = round_mag (if long then 1 - threshold n else 1 + threshold n)"

lemma liq_factor_near:
  assumes "1 \<le> n" "n \<le> 1001"
  shows "\<bar>liq_factor n long - (if long then 1 - threshold n else 1 + threshold n)\<bar> \<le> 2 * eps"
    "49 / 100 \<le> liq_factor n long" "liq_factor n long \<le> 16 / 10"
proof -
  note t = threshold_near(3,4) [OF assms]
  show "\<bar>liq_factor n long - (if long then 1 - threshold n else 1 + threshold n)\<bar> \<le> 2 * eps"
    unfolding liq_factor_def using t near_unit [of "1 - threshold n"] near_unit [of "1 + threshold n"]
    by (cases long) (simp_all add: abs_le_iff)
  then show "49 / 100 \<le> liq_factor n long" "liq_factor n long \<le> 16 / 10"
    using t eps_small by (cases long; simp add: abs_le_iff)+
qed

lemma f64_of_leverage: "1 \<le> n \<Longrightarrow> n \<le> 1001 \<Longrightarrow> f64_of_int n = Fin False (of_int n)"
  by (rule f64_of_int_exact) simp_all

lemma liquidation_price_eq:
  assumes "1 \<le> n" "n \<le> 1001" and m: "pow2 (- 900) \<le> m" "m \<le> pow2 900"
  shows "calculate_liquidation_price (Fin False m) n long = Fin False (round_mag (m * liq_factor n long))"
proof -
  note t = threshold_near [OF assms(1,2)] and q = leverage_share [OF assms(1,2)]
  have r: "round_mag (1 / of_int n) \<le> 2" using near_unit(2) [of "1 / of_int n"] q eps_small by simp
  have n0: "(of_int n :: rat) \<noteq> 0" using assms(1) by simp
  have d: "f64_div (f64_of_int 1) (f64_of_int n) = Fin False (round_mag (1 / of_int n))"
    using n0 by (simp add: f64_of_leverage [OF assms(1,2)] f64_of_leverage [of 1, simplified] f64_round_small [OF pow2_1000 [OF r]])
  have th: "f64_mul (Fin False (round_mag (1 / of_int n))) (Fin False (1 / 2)) = Fin False (threshold n)"
    using f64_round_small [OF pow2_1000, of "round_mag (1 / of_int n) * (1 / 2)" False] t(4)
    by (simp add: threshold_def)
  have f: "(if long then f64_sub (f64_of_int 1) (Fin False (threshold n)) else f64_add (f64_of_int 1) (Fin False (threshold n)))
      = Fin False (liq_factor n long)"
    using liq_factor_near(3) [OF assms(1,2), of long] t(3,4) f64_round_small [OF pow2_1000, of "1 - threshold n" False]
      f64_round_small [OF pow2_1000, of "1 + threshold n" False]
    by (cases long) (simp_all add: f64_of_leverage [of 1, simplified] f64_sub_def f64_of_rat_def liq_factor_def Let_def)
  have "m * liq_factor n long \<le> pow2 900 * 2"
    using m pow2_pos [of 900] liq_factor_near(2,3) [OF assms(1,2), of long] by (intro mult_mono) simp_all
  also have "\<dots> \<le> pow2 901" by (simp add: pow2_def)
  finally have "round_mag (m * liq_factor n long) \<le> round_mag (pow2 901)" by (rule round_mag_mono)
  also have "\<dots> \<le> pow2 901 + pow2 901 * eps" using round_mag_near(2) [of "pow2 901"] pow2_mono [of "- 1022" 901] by simp
  also have "\<dots> \<le> pow2 901 * 2" using eps_small by simp
  also have "\<dots> \<le> pow2 1000" by (simp add: pow2_def)
  finally show ?thesis
    unfolding calculate_liquidation_price_def Let_def d th f by (simp add: f64_round_small)
qed

section \<open>An open position keeps its margin\<close>

lemma eps_nonneg [simp]: "0 \<le> eps"
  using eps_bounds by simp

lemma mult_eps_mono: "x \<le> y \<Longrightarrow> x * eps \<le> y * eps"
  by (rule mult_right_mono) simp_all

lemma mult_normal: "pow2 (- 900) \<le> e \<Longrightarrow> 49 / 100 \<le> u \<Longrightarrow> pow2 (- 1022) \<le> e * u"
proof -
  assume e: "pow2 (- 900) \<le> e" and u: "49 / 100 \<le> u"
  have "pow2 (- 1022) \<le> pow2 (- 900) * u" using pow2_m900 [of u] u by simp
  also have "\<dots> \<le> e * u" using e u by (intro mult_right_mono) simp_all
  finally show ?thesis .
qed

lemma liq_price_near:
  assumes n: "1 \<le> n" "n \<le> 1001" and e: "pow2 (- 900) \<le> e"
  shows "\<bar>round_mag (e * liq_factor n long) - e * liq_factor n long\<bar> \<le> e * (2 * eps)"
proof -
  let ?u = "liq_factor n long"
  have e0: "0 < e" using e pow2_pos [of "- 900"] by linarith
  have "e * ?u * eps \<le> e * (2 * eps)"
    using liq_factor_near(2,3) [OF n, of long] e0 mult_left_mono [of "?u * eps" "2 * eps" e] mult_eps_mono [of ?u 2]
    by (simp add: mult.assoc)
  then show ?thesis
    using round_mag_near [OF mult_normal [OF e liq_factor_near(2) [OF n, of long]]] by (simp add: abs_le_iff)
qed

lemma gap_slack:
  assumes "1 / 1001 \<le> q" "q \<le> 1"
  shows "q / 2 + 15 * eps \<le> 51 / 100 * q * (1 - 2 * eps)"
proof -
  have "51 / 100 * q * (1 - 2 * eps) = 51 / 100 * q - 102 / 100 * (q * eps)" by (simp add: field_simps)
  moreover have "q * eps \<le> eps" using assms(2) mult_eps_mono [of q 1] by simp
  ultimately show ?thesis using assms(1) eps_small by linarith
qed

text \<open>Everything is measured in entries: \<open>x\<close> is the shortest decimal of the mark, \<open>y\<close> that of the entry.\<close>

lemma long_gap:
  assumes n: "1 \<le> n" "n \<le> 1001" and e: "round_mag e = e" "pow2 (- 900) \<le> e" and m: "round_mag m = m" "pow2 (- 900) \<le> m"
    and above: "round_mag (e * liq_factor n True) < m"
  shows "shortest e - shortest m \<le> 51 / 100 * (1 / of_int n) * shortest e"
proof -
  let ?q = "1 / of_int n :: rat" and ?u = "liq_factor n True"
  have e0: "0 < e" using e pow2_pos [of "- 900"] by linarith
  have q: "1 / 1001 \<le> ?q" "?q \<le> 1" using leverage_share [OF n] .
  have u: "1 - ?q / 2 - 5 * eps \<le> ?u" "?u \<le> 1"
    using liq_factor_near(1) [OF n, of True] threshold_near [OF n] eps_small by (simp_all add: abs_le_iff)
  have p: "e * ?u - e * (2 * eps) < m" using above liq_price_near [OF n e(2), of True] by (simp add: abs_le_iff)
  have "m - 2 * (m * eps) \<le> shortest m" using shortest_near [OF m] by simp
  moreover have "(e * ?u - e * (2 * eps)) * (1 - 2 * eps) \<le> m * (1 - 2 * eps)"
    using p eps_small by (intro mult_right_mono) simp_all
  ultimately have x: "(e * ?u - e * (2 * eps)) * (1 - 2 * eps) \<le> shortest m" by (simp add: algebra_simps)
  have "e * (?u - 4 * eps) \<le> (e * ?u - e * (2 * eps)) * (1 - 2 * eps)"
  proof -
    have "?u * eps \<le> eps" using u(2) mult_eps_mono [of ?u 1] by simp
    moreover have "(?u - 2 * eps) * (1 - 2 * eps) = ?u - 2 * eps - 2 * (?u * eps) + 4 * (eps * eps)" by (simp add: algebra_simps)
    moreover have "0 \<le> eps * eps" by simp
    ultimately have "?u - 4 * eps \<le> (?u - 2 * eps) * (1 - 2 * eps)" by linarith
    then have "e * (?u - 4 * eps) \<le> e * ((?u - 2 * eps) * (1 - 2 * eps))" using e0 by (intro mult_left_mono) simp_all
    then show ?thesis by (simp add: algebra_simps)
  qed
  with x have x': "e * (?u - 4 * eps) \<le> shortest m" by linarith
  have y: "shortest e \<le> e * (1 + 2 * eps)" "e * (1 - 2 * eps) \<le> shortest e"
    using shortest_near [OF e] by (simp_all add: algebra_simps)
  have "shortest e - shortest m \<le> e * (1 + 2 * eps - (?u - 4 * eps))" using x' y(1) by (simp add: algebra_simps)
  also have "\<dots> \<le> e * (51 / 100 * ?q * (1 - 2 * eps))"
  proof (intro mult_left_mono)
    show "1 + 2 * eps - (?u - 4 * eps) \<le> 51 / 100 * ?q * (1 - 2 * eps)"
      using gap_slack [OF q] u(1) eps_nonneg by linarith
  qed (use e0 in simp)
  also have "\<dots> = 51 / 100 * ?q * (e * (1 - 2 * eps))" by (simp only: mult.left_commute mult.commute mult.assoc)
  also have "\<dots> \<le> 51 / 100 * ?q * shortest e" using y(2) n(1) by (intro mult_left_mono) simp_all
  finally show ?thesis .
qed

lemma short_gap:
  assumes n: "1 \<le> n" "n \<le> 1001" and e: "round_mag e = e" "pow2 (- 900) \<le> e" and m: "round_mag m = m" "pow2 (- 900) \<le> m"
    and below: "m < round_mag (e * liq_factor n False)"
  shows "shortest m - shortest e \<le> 51 / 100 * (1 / of_int n) * shortest e"
proof -
  let ?q = "1 / of_int n :: rat" and ?u = "liq_factor n False"
  have e0: "0 < e" using e pow2_pos [of "- 900"] by linarith
  have q: "1 / 1001 \<le> ?q" "?q \<le> 1" using leverage_share [OF n] .
  have u: "?u \<le> 1 + ?q / 2 + 5 * eps" "?u \<le> 16 / 10"
    using liq_factor_near(1,3) [OF n, of False] threshold_near [OF n] by (simp_all add: abs_le_iff)
  have p: "m < e * ?u + e * (2 * eps)" using below liq_price_near [OF n e(2), of False] by (simp add: abs_le_iff)
  have "shortest m \<le> m + 2 * (m * eps)" using shortest_near [OF m] by simp
  moreover have "m * (1 + 2 * eps) \<le> (e * ?u + e * (2 * eps)) * (1 + 2 * eps)"
    using p eps_small by (intro mult_right_mono) simp_all
  ultimately have x: "shortest m \<le> (e * ?u + e * (2 * eps)) * (1 + 2 * eps)" by (simp add: algebra_simps)
  have "(e * ?u + e * (2 * eps)) * (1 + 2 * eps) \<le> e * (?u + 6 * eps)"
  proof -
    have "?u * eps \<le> 16 / 10 * eps" using u(2) mult_eps_mono [of ?u "16 / 10"] by simp
    moreover have "eps * eps \<le> 1 / 1000 * eps" using eps_small by (intro mult_eps_mono) simp
    moreover have "(?u + 2 * eps) * (1 + 2 * eps) = ?u + 2 * eps + 2 * (?u * eps) + 4 * (eps * eps)" by (simp add: algebra_simps)
    ultimately have "(?u + 2 * eps) * (1 + 2 * eps) \<le> ?u + 6 * eps" using eps_nonneg by linarith
    then have "e * ((?u + 2 * eps) * (1 + 2 * eps)) \<le> e * (?u + 6 * eps)" using e0 by (intro mult_left_mono) simp_all
    then show ?thesis by (simp add: algebra_simps)
  qed
  with x have x': "shortest m \<le> e * (?u + 6 * eps)" by linarith
  have y: "e * (1 - 2 * eps) \<le> shortest e" using shortest_near [OF e] by (simp add: algebra_simps)
  have "shortest m - shortest e \<le> e * (?u + 6 * eps - (1 - 2 * eps))" using x' y by (simp add: algebra_simps)
  also have "\<dots> \<le> e * (51 / 100 * ?q * (1 - 2 * eps))"
  proof (intro mult_left_mono)
    show "?u + 6 * eps - (1 - 2 * eps) \<le> 51 / 100 * ?q * (1 - 2 * eps)"
      using gap_slack [OF q] u(1) eps_nonneg by linarith
  qed (use e0 in simp)
  also have "\<dots> = 51 / 100 * ?q * (e * (1 - 2 * eps))" by (simp only: mult.left_commute mult.commute mult.assoc)
  also have "\<dots> \<le> 51 / 100 * ?q * shortest e" using y n(1) by (intro mult_left_mono) simp_all
  finally show ?thesis .
qed

section \<open>Well-formed engines\<close>

definition position_ok :: "perp_position \<Rightarrow> bool" where
  "position_ok p \<longleftrightarrow>
     (\<exists>v c. perp_amount_value (pp_size p) = Some v \<and> perp_amount_value (pp_collateral p) = Some c
        \<and> v / of_int (pp_leverage p) \<le> c)
     \<and> 1 \<le> pp_leverage p \<and> pp_leverage p \<le> max_perp_leverage \<and> ordinary (pp_entry p) \<and> ordinary (pp_mark p)
     \<and> pp_liquidation p = calculate_liquidation_price (pp_entry p) (pp_leverage p) (pp_side p = ''long'')
     \<and> pp_status p \<in> {perp_open, perp_liquidatable, perp_closed, perp_liquidated}
     \<and> (pp_status p = perp_open \<longrightarrow> \<not> is_liquidatable p)"

definition perp_ok :: "perp_engine \<Rightarrow> bool" where
  "perp_ok s \<longleftrightarrow> (\<forall>i p. map_of (pe_positions s) i = Some p \<longrightarrow> position_ok p)
     \<and> (\<forall>k c. map_of (pe_markets s) k = Some c \<longrightarrow> 1 \<le> pm_max_leverage c \<and> pm_max_leverage c \<le> max_perp_leverage)"

text \<open>What no operation changes of a position; a settled one is not changed at all.\<close>

definition position_kept :: "perp_position \<Rightarrow> perp_position \<Rightarrow> bool" where
  "position_kept p q \<longleftrightarrow>
     pp_owner q = pp_owner p \<and> pp_pair q = pp_pair p \<and> pp_side q = pp_side p \<and> pp_size q = pp_size p
     \<and> pp_collateral q = pp_collateral p \<and> pp_entry q = pp_entry p \<and> pp_leverage q = pp_leverage p
     \<and> (pp_status p \<in> {perp_closed, perp_liquidated} \<longrightarrow> q = p)"

definition engine_kept :: "perp_engine \<Rightarrow> perp_engine \<Rightarrow> bool" where
  "engine_kept s t \<longleftrightarrow>
     (\<forall>i p. map_of (pe_positions s) i = Some p \<longrightarrow> (\<exists>q. map_of (pe_positions t) i = Some q \<and> position_kept p q))"

definition ordinary_feed :: "price_feed \<Rightarrow> bool" where
  "ordinary_feed price \<longleftrightarrow> (\<forall>symbol usd. price symbol = Some usd \<longrightarrow> ordinary usd)"

lemma position_kept_refl [simp]: "position_kept p p"
  by (simp add: position_kept_def)

lemma position_kept_trans: "position_kept p q \<Longrightarrow> position_kept q r \<Longrightarrow> position_kept p r"
  by (auto simp: position_kept_def)

lemma engine_kept_refl [simp]: "engine_kept s s"
  by (simp add: engine_kept_def)

lemma engine_kept_trans: "engine_kept s t \<Longrightarrow> engine_kept t u \<Longrightarrow> engine_kept s u"
  unfolding engine_kept_def by (meson position_kept_trans)

lemma ordinary_val: "ordinary x \<Longrightarrow> \<exists>m. x = Fin False m \<and> round_mag m = m \<and> pow2 (- 900) \<le> m \<and> m \<le> pow2 900 \<and> 0 < m"
  using less_le_trans [OF pow2_pos [of "- 900"]] by (auto simp: ordinary_def)

lemma max_leverage [simp]: "max_perp_leverage = 1001"
  by (simp add: max_perp_leverage_def)

lemma perp_status_neq [simp]:
  "perp_open \<noteq> perp_liquidatable" "perp_open \<noteq> perp_closed" "perp_open \<noteq> perp_liquidated"
  "perp_liquidatable \<noteq> perp_open" "perp_closed \<noteq> perp_open" "perp_liquidated \<noteq> perp_open"
  "perp_liquidatable \<noteq> perp_closed" "perp_liquidatable \<noteq> perp_liquidated" "perp_closed \<noteq> perp_liquidatable"
  "perp_liquidated \<noteq> perp_liquidatable" "perp_closed \<noteq> perp_liquidated" "perp_liquidated \<noteq> perp_closed"
  by (simp_all add: perp_open_def perp_liquidatable_def perp_closed_def perp_liquidated_def)

text \<open>A position that is opened has not crossed its liquidation price.\<close>

lemma entry_not_liquidatable:
  assumes "1 \<le> n" "n \<le> 1001" "ordinary e"
  shows "\<not> f64_le e (calculate_liquidation_price e n True)" "\<not> f64_le (calculate_liquidation_price e n False) e"
proof -
  obtain m where m: "e = Fin False m" "round_mag m = m" "pow2 (- 900) \<le> m" "m \<le> pow2 900" "0 < m"
    using ordinary_val [OF assms(3)] by blast
  note n = assms(1,2)
  note l = liquidation_price_eq [OF n m(3,4)] and p = liq_price_near [OF n m(3)]
  have "liq_factor n True \<le> 1 - 1 / 8192" "1 + 1 / 8192 \<le> liq_factor n False"
    using liq_factor_near(1) [OF n, of True] liq_factor_near(1) [OF n, of False] threshold_near(3) [OF n] eps_small
    unfolding abs_le_iff by simp_all
  then have f: "m * liq_factor n True \<le> m * (1 - 1 / 8192)" "m * (1 + 1 / 8192) \<le> m * liq_factor n False"
    using m(5) by (auto intro!: mult_left_mono)
  have s: "m * (2 * eps) < m * (1 / 8192)" using eps_small m(5) by (intro mult_strict_left_mono) simp_all
  have "round_mag (m * liq_factor n True) < m" "m < round_mag (m * liq_factor n False)"
    using f p [of True] p [of False] s unfolding abs_le_iff right_diff_distrib distrib_left mult_1_right by linarith+
  then show "\<not> f64_le e (calculate_liquidation_price e n True)" "\<not> f64_le (calculate_liquidation_price e n False) e"
    by (simp_all add: m(1) l)
qed

section \<open>The margin of an open position\<close>

definition follows_its_side :: "perp_position \<Rightarrow> bool" where
  "follows_its_side p \<longleftrightarrow> pp_side p = ''long'' \<or> equal_fold (pp_side p) ''short''"

lemma long_is_not_short: "\<not> equal_fold ''long'' ''short''"
  by code_simp

lemma open_keeps_margin:
  assumes ok: "position_ok p" and "pp_status p = perp_open" and side: "follows_its_side p"
  shows "\<exists>v c pnl. perp_amount_value (pp_size p) = Some v \<and> perp_amount_value (pp_collateral p) = Some c
    \<and> notional_pnl (pp_entry p) (pp_mark p) (pp_size p) (pp_side p) = Some pnl
    \<and> 49 / 100 * (v / of_int (pp_leverage p)) \<le> c + pnl"
proof -
  let ?n = "pp_leverage p"
  obtain v c where v: "perp_amount_value (pp_size p) = Some v" "perp_amount_value (pp_collateral p) = Some c" "v / of_int ?n \<le> c"
    using ok unfolding position_ok_def by blast
  have n: "1 \<le> ?n" "?n \<le> 1001" and liq: "\<not> is_liquidatable p"
    and l: "pp_liquidation p = calculate_liquidation_price (pp_entry p) ?n (pp_side p = ''long'')"
    using ok assms(2) by (auto simp: position_ok_def)
  obtain e where e: "pp_entry p = Fin False e" "round_mag e = e" "pow2 (- 900) \<le> e" "e \<le> pow2 900" "0 < e"
    using ok ordinary_val [of "pp_entry p"] unfolding position_ok_def by blast
  obtain m where m: "pp_mark p = Fin False m" "round_mag m = m" "pow2 (- 900) \<le> m" "m \<le> pow2 900" "0 < m"
    using ok ordinary_val [of "pp_mark p"] unfolding position_ok_def by blast
  have v0: "0 < v" "parse_decimal (pp_size p) = Some v" using perp_amount_pos [OF v(1)] by simp_all
  have "e * eps \<le> e * (1 / 4)" using eps_small e(5) by (intro mult_left_mono) simp_all
  then have y: "0 < shortest e" using shortest_near(1) [OF e(2,3)] e(5) by linarith
  let ?move = "(shortest m - shortest e) / shortest e" and ?long = "pp_side p = ''long''"
  have sl: "?long \<Longrightarrow> \<not> equal_fold (pp_side p) ''short''" by (simp add: long_is_not_short)
  have pnl: "notional_pnl (pp_entry p) (pp_mark p) (pp_size p) (pp_side p) = Some ((if ?long then ?move else - ?move) * v)"
    using side sl v0(2) e(5) by (auto simp: notional_pnl_def e(1) m(1) Let_def follows_its_side_def)
  have "- (51 / 100 * (1 / of_int ?n)) \<le> (if ?long then ?move else - ?move)"
  proof (cases ?long)
    case True
    then have "round_mag (e * liq_factor ?n True) < m"
      using liq liquidation_price_eq [OF n e(3,4), of True] by (simp add: is_liquidatable_def l e(1) m(1))
    from long_gap [OF n e(2,3) m(2,3) this] y True show ?thesis by (simp add: field_simps)
  next
    case False
    then have "m < round_mag (e * liq_factor ?n False)"
      using liq liquidation_price_eq [OF n e(3,4), of False] by (simp add: is_liquidatable_def l e(1) m(1))
    from short_gap [OF n e(2,3) m(2,3) this] y False show ?thesis by (simp add: field_simps)
  qed
  then have "- (51 / 100 * (1 / of_int ?n)) * v \<le> (if ?long then ?move else - ?move) * v"
    using v0(1) by (intro mult_right_mono) simp_all
  then have "49 / 100 * (v / of_int ?n) \<le> c + (if ?long then ?move else - ?move) * v" using v(3) by (simp add: field_simps)
  with v pnl show ?thesis by blast
qed

section \<open>Every operation keeps the engine well-formed\<close>

lemma get_mark_ordinary: "get_mark_price price pair s = Inr x \<Longrightarrow> ordinary_feed price \<Longrightarrow> ordinary x"
  by (auto simp: get_mark_price_def oracle_price_def ordinary_feed_def split: option.splits if_splits)

lemma new_position_ok:
  assumes new: "new_position mark index now owner pair side qty collateral leverage s0 sm si s1 = Inr p"
    and "perp_ok s0" "ordinary_feed mark"
  shows "position_ok p \<and> pp_status p = perp_open \<and> pp_pair p = pair \<and> pp_size p = qty"
proof -
  obtain c price index_price v w where c: "market pair s0 = Some c" and price: "get_mark_price mark pair sm = Inr price"
    and v: "perp_amount_value qty = Some v" "perp_amount_value collateral = Some w" "\<not> w < v / of_int leverage"
    and n: "1 \<le> leverage" "leverage \<le> pm_max_leverage c"
    and p: "p = \<lparr>pp_owner = owner, pp_pair = pair, pp_side = side, pp_size = qty, pp_collateral = collateral,
                   pp_entry = price, pp_mark = price, pp_index = index_price,
                   pp_liquidation = calculate_liquidation_price price leverage (side = ''long''),
                   pp_leverage = leverage, pp_pnl = ''0'', pp_funding = ''0'', pp_status = perp_open, pp_opened = now,
                   pp_closed = None\<rparr>"
    using new by (auto simp: new_position_def amount_of_def split: option.splits if_splits)
  have o: "ordinary price" using get_mark_ordinary [OF price assms(3)] .
  have "pm_max_leverage c \<le> 1001" using c assms(2) by (auto simp: market_def perp_ok_def)
  then have n': "leverage \<le> 1001" using n by simp
  have "\<not> is_liquidatable p" using entry_not_liquidatable [OF n(1) n' o] by (simp add: p is_liquidatable_def)
  then show ?thesis using v n n' o by (simp add: position_ok_def p)
qed

lemma put_position_ok:
  assumes "perp_ok s" "map_of (pe_positions s) i = Some p" "position_kept p q" "position_ok q"
  shows "perp_ok (put_position i q s) \<and> engine_kept s (put_position i q s)"
  using assms by (auto simp: perp_ok_def engine_kept_def put_position_def update_conv')

lemma add_position_ok:
  assumes "perp_ok s" "map_of (pe_positions s) i = None" "position_ok q"
  shows "perp_ok (s\<lparr>pe_positions := AList.update i q (pe_positions s)\<rparr>)
    \<and> engine_kept s (s\<lparr>pe_positions := AList.update i q (pe_positions s)\<rparr>)"
  using assms by (auto simp: perp_ok_def engine_kept_def update_conv')

lemma settled_ok:
  "position_ok p \<Longrightarrow> ordinary price \<Longrightarrow> status \<in> {perp_closed, perp_liquidated} \<Longrightarrow> position_ok (settled status now price pnl p)"
  by (auto simp: position_ok_def settled_def)

lemma settled_kept: "pp_status p \<notin> {perp_closed, perp_liquidated} \<Longrightarrow> position_kept p (settled status now price pnl p)"
  by (auto simp: position_kept_def settled_def)

lemma open_position_ok:
  assumes "perp_ok s" "perp_ok s0" "ordinary_feed mark" "map_of (pe_positions s) new_id = None"
  shows "perp_ok (fst (open_position mark index now new_id owner pair side qty collateral leverage s0 sm si s1 s))
    \<and> engine_kept s (fst (open_position mark index now new_id owner pair side qty collateral leverage s0 sm si s1 s))"
  using assms new_position_ok [OF _ assms(2,3)] add_position_ok [OF assms(1,4)]
  by (auto simp: open_position_def split: sum.split)

lemma close_position_ok:
  assumes "perp_ok s" "ordinary_feed mark"
  shows "perp_ok (fst (close_position mark now owner i s0 sm s)) \<and> engine_kept s (fst (close_position mark now owner i s0 sm s))"
proof -
  have "perp_ok (put_position i q s) \<and> engine_kept s (put_position i q s)"
    if "map_of (pe_positions s) i = Some p" "pp_status p = perp_open" "get_mark_price mark pair sm = Inr price"
      "q = settled perp_closed now price (calculate_pnl p price) p" for p q price pair
  proof -
    have "position_ok p" using assms(1) that(1) by (simp add: perp_ok_def)
    then show ?thesis
      using put_position_ok [OF assms(1) that(1)] settled_ok [OF _ get_mark_ordinary [OF that(3) assms(2)]] settled_kept that(2,4) by simp
  qed
  with assms(1) show ?thesis by (auto simp: close_position_def Let_def split: option.split sum.split)
qed

lemma remark_ok:
  assumes "position_ok p" "\<And>pair x. marks pair = Some x \<Longrightarrow> ordinary x"
  shows "position_ok (remark marks p) \<and> position_kept p (remark marks p)"
  using assms by (auto simp: remark_def position_ok_def position_kept_def is_liquidatable_def position_is_live_def Let_def
      split: option.split)

lemma update_positions_ok:
  assumes "perp_ok s" "ordinary_feed price"
  shows "perp_ok (update_positions price s0 s) \<and> engine_kept s (update_positions price s0 s)"
proof -
  let ?marks = "new_mark price s0"
  have o: "ordinary x" if "?marks pair = Some x" for pair x
    using that assms(2) get_mark_ordinary by (auto simp: new_mark_def split: if_splits sum.splits)
  have "map_of (map (\<lambda>(i, p). (i, remark ?marks p)) t) i = map_option (remark ?marks) (map_of t i)"
    for t :: "(string \<times> perp_position) list" and i by (rule map_of_map [THEN fun_cong, simplified comp_def])
  then have m: "map_of (pe_positions (update_positions price s0 s)) i = map_option (remark ?marks) (map_of (pe_positions s) i)" for i
    by (simp add: update_positions_def)
  have "pe_markets (update_positions price s0 s) = pe_markets s" by (simp add: update_positions_def)
  then show ?thesis using assms(1) remark_ok [OF _ o] unfolding perp_ok_def engine_kept_def m by auto
qed

lemma settle_liquidation_ok:
  assumes s: "perp_ok s" and i: "map_of (pe_positions s) i = Some p" "pp_status p = perp_liquidatable" and o: "ordinary price"
  shows "perp_ok (fst (settle_liquidation now price c i p s)) \<and> engine_kept s (fst (settle_liquidation now price c i p s))"
proof -
  have p: "position_ok p" using s i by (simp add: perp_ok_def)
  let ?q = "p\<lparr>pp_mark := price\<rparr>"
  have q: "position_ok ?q" "position_kept p ?q" "pp_status ?q = perp_liquidatable"
    using p o i(2) by (auto simp: position_ok_def position_kept_def)
  let ?r = "?q\<lparr>pp_status := perp_open, pp_pnl := calculate_pnl ?q price\<rparr>"
  have r: "\<not> is_liquidatable ?q \<Longrightarrow> position_ok ?r" "position_kept p ?r"
    using q i(2) by (auto simp: position_ok_def position_kept_def is_liquidatable_def)
  have f: "position_ok (settled perp_liquidated now price pnl ?q)" "position_kept p (settled perp_liquidated now price pnl ?q)" for pnl
    using settled_ok [OF q(1) o] i(2) by (auto simp: position_kept_def settled_def)
  note put = put_position_ok [OF s i(1)]
  show ?thesis
    using put [OF q(2,1)] put [OF r(2)] r(1) put [OF f(2,1)]
    by (auto simp: settle_liquidation_def Let_def split: option.split sum.split)
qed

lemma liquidate_position_ok:
  assumes "perp_ok s" "ordinary_feed mark"
  shows "perp_ok (fst (liquidate_position mark now i s0 sc sm s)) \<and> engine_kept s (fst (liquidate_position mark now i s0 sc sm s))"
  using assms settle_liquidation_ok [OF assms(1)] get_mark_ordinary [OF _ assms(2)]
  by (auto simp: liquidate_position_def split: option.split sum.split)

definition registry_ok :: "(string \<times> perp_market) list \<Rightarrow> bool" where
  "registry_ok reg \<longleftrightarrow> (\<forall>k c. map_of reg k = Some c \<longrightarrow> 1 \<le> pm_max_leverage c \<and> pm_max_leverage c \<le> max_perp_leverage)"

lemma clamp_leverage_range: "1 \<le> clamp_leverage n \<and> clamp_leverage n \<le> 1001"
  by (simp add: clamp_leverage_def)

lemma add_futures_ok: "registry_ok reg \<Longrightarrow> registry_ok (add_futures pf m reg)"
  using clamp_leverage_range
  by (auto simp: add_futures_def registry_ok_def futures_market_config_def update_conv' Let_def split: option.split)

lemma add_perps_ok: "registry_ok reg \<Longrightarrow> registry_ok (add_perps m reg)"
  using clamp_leverage_range
  by (auto simp: add_perps_def registry_ok_def perps_market_config_def update_conv' Let_def split: option.split)

lemma refresh_registry_ok: "registry_ok (fold add_perps ps (fold (add_futures pf) fs []))"
proof -
  have "registry_ok reg \<Longrightarrow> registry_ok (fold (add_futures pf) fs reg)" for reg by (induction fs arbitrary: reg) (simp_all add: add_futures_ok)
  moreover have "registry_ok reg \<Longrightarrow> registry_ok (fold add_perps ps reg)" for reg by (induction ps arbitrary: reg) (simp_all add: add_perps_ok)
  moreover have "registry_ok []" by (simp add: registry_ok_def)
  ultimately show ?thesis by blast
qed

lemma refresh_markets_ok:
  assumes "perp_ok s"
  shows "perp_ok (fst (refresh_markets pf has_db fs ps s)) \<and> engine_kept s (fst (refresh_markets pf has_db fs ps s))"
  using assms refresh_registry_ok
  by (auto simp: refresh_markets_def perp_ok_def engine_kept_def registry_ok_def split: option.split)

lemma orders_ok:
  "pe_positions (fst (create_order mark now owner pair side order_type qty price trigger expires_in s0 s1 s)) = pe_positions s"
  "pe_markets (fst (create_order mark now owner pair side order_type qty price trigger expires_in s0 s1 s)) = pe_markets s"
  "pe_positions (fst (cancel_order i owner s)) = pe_positions s" "pe_markets (fst (cancel_order i owner s)) = pe_markets s"
  by (auto simp: create_order_def cancel_order_def Let_def split: sum.split option.split)

lemma same_positions_ok:
  "perp_ok s \<Longrightarrow> pe_positions t = pe_positions s \<Longrightarrow> pe_markets t = pe_markets s \<Longrightarrow> perp_ok t \<and> engine_kept s t"
  by (simp add: perp_ok_def engine_kept_def)

section \<open>Runs\<close>

text \<open>The states of a run, the newest first. A request made its early reads in earlier states; identifiers are fresh.\<close>

inductive perp_run :: "perp_engine list \<Rightarrow> bool" where
  run_start: "perp_run [\<lparr>pe_positions = [], pe_orders = [], pe_markets = []\<rparr>]"
| run_refresh: "perp_run h \<Longrightarrow> perp_run (fst (refresh_markets parse_float has_db futures perps (hd h)) # h)"
| run_open: "perp_run h \<Longrightarrow> s0 \<in> set h \<Longrightarrow> sm \<in> set h \<Longrightarrow> si \<in> set h \<Longrightarrow> s1 \<in> set h \<Longrightarrow> ordinary_feed mark \<Longrightarrow>
    map_of (pe_positions (hd h)) new_id = None \<Longrightarrow>
    perp_run (fst (open_position mark index now new_id owner pair side qty collateral leverage s0 sm si s1 (hd h)) # h)"
| run_close: "perp_run h \<Longrightarrow> s0 \<in> set h \<Longrightarrow> sm \<in> set h \<Longrightarrow> ordinary_feed mark \<Longrightarrow>
    perp_run (fst (close_position mark now owner i s0 sm (hd h)) # h)"
| run_update: "perp_run h \<Longrightarrow> s0 \<in> set h \<Longrightarrow> ordinary_feed mark \<Longrightarrow> perp_run (update_positions mark s0 (hd h) # h)"
| run_liquidate: "perp_run h \<Longrightarrow> s0 \<in> set h \<Longrightarrow> sc \<in> set h \<Longrightarrow> sm \<in> set h \<Longrightarrow> ordinary_feed mark \<Longrightarrow>
    perp_run (fst (liquidate_position mark now i s0 sc sm (hd h)) # h)"
| run_order: "perp_run h \<Longrightarrow> s0 \<in> set h \<Longrightarrow> s1 \<in> set h \<Longrightarrow>
    perp_run (fst (create_order mark now owner pair side order_type qty price trigger expires_in s0 s1 (hd h)) # h)"
| run_cancel: "perp_run h \<Longrightarrow> perp_run (fst (cancel_order i owner (hd h)) # h)"

lemma run_extend:
  assumes "h \<noteq> []" "\<forall>s \<in> set h. perp_ok s \<and> engine_kept s (hd h)" "perp_ok t \<and> engine_kept (hd h) t"
  shows "t # h \<noteq> [] \<and> (\<forall>s \<in> set (t # h). perp_ok s \<and> engine_kept s (hd (t # h)))"
  using assms by (auto intro: engine_kept_trans)

lemma perp_run_ok: "perp_run h \<Longrightarrow> h \<noteq> [] \<and> (\<forall>s \<in> set h. perp_ok s \<and> engine_kept s (hd h))"
proof (induction rule: perp_run.induct)
  case run_start
  then show ?case by (simp add: perp_ok_def)
next
  case (run_open h s0 sm si s1 mark new_id index now owner pair side qty collateral leverage)
  then show ?case using open_position_ok [of "hd h" s0 mark new_id] by (intro run_extend) auto
qed ((rule run_extend, blast, blast), (use refresh_markets_ok close_position_ok update_positions_ok liquidate_position_ok
  same_positions_ok orders_ok hd_in_set in metis))+

section \<open>What the engine guarantees\<close>

text \<open>C32: In every interleaving, an open position of either side has, after its profit or loss at its last mark, still
  at least 49 percent of the margin that its leverage requires: the liquidation price, computed in \<open>float64\<close>,
  is crossed long before the collateral is used up.\<close>

theorem open_positions_keep_margin:
  assumes "perp_run (s # h)" and "map_of (pe_positions s) i = Some p" and "pp_status p = perp_open" and "follows_its_side p"
  shows "\<exists>v c pnl. perp_amount_value (pp_size p) = Some v \<and> perp_amount_value (pp_collateral p) = Some c
    \<and> 1 \<le> pp_leverage p \<and> pp_leverage p \<le> max_perp_leverage \<and> v / of_int (pp_leverage p) \<le> c
    \<and> notional_pnl (pp_entry p) (pp_mark p) (pp_size p) (pp_side p) = Some pnl
    \<and> 49 / 100 * (v / of_int (pp_leverage p)) \<le> c + pnl"
proof -
  have ok: "position_ok p" using perp_run_ok [OF assms(1)] assms(2) by (auto simp: perp_ok_def)
  then have "1 \<le> pp_leverage p \<and> pp_leverage p \<le> max_perp_leverage" "\<exists>v c. perp_amount_value (pp_size p) = Some v
      \<and> perp_amount_value (pp_collateral p) = Some c \<and> v / of_int (pp_leverage p) \<le> c" by (auto simp: position_ok_def)
  with open_keeps_margin [OF ok assms(3,4)] show ?thesis by fastforce
qed

text \<open>C33: A position that was closed or liquidated is never touched again, whatever requests are interleaved, and no request
  changes the owner, the pair, the side, the size, the collateral, the entry price or the leverage of any position.\<close>

theorem settled_positions_are_final:
  assumes "perp_run (s # h)" and "s0 \<in> set (s # h)" and "map_of (pe_positions s0) i = Some p"
  shows "\<exists>q. map_of (pe_positions s) i = Some q \<and> pp_owner q = pp_owner p \<and> pp_pair q = pp_pair p \<and> pp_side q = pp_side p
    \<and> pp_size q = pp_size p \<and> pp_collateral q = pp_collateral p \<and> pp_entry q = pp_entry p \<and> pp_leverage q = pp_leverage p
    \<and> (pp_status p = perp_closed \<or> pp_status p = perp_liquidated \<longrightarrow> q = p)"
proof -
  have "engine_kept s0 s" using perp_run_ok [OF assms(1)] assms(2) by auto
  then obtain q where "map_of (pe_positions s) i = Some q" "position_kept p q" using assms(3) by (auto simp: engine_kept_def)
  then show ?thesis by (auto simp: position_kept_def)
qed

lemma settle_liquidation_fee:
  assumes "settle_liquidation now price c i p s = (s', Inr fee)" and "map_of (pe_positions s) i = Some p"
  shows "\<exists>q collateral pnl. map_of (pe_positions s') i = Some q \<and> pp_status q = perp_liquidated \<and> is_liquidatable q
    \<and> parse_decimal (pp_collateral q) = Some collateral \<and> notional_pnl (pp_entry q) (pp_mark q) (pp_size q) (pp_side q) = Some pnl
    \<and> 0 \<le> fee \<and> fee \<le> max 0 (collateral + pnl) \<and> (\<forall>j. j \<noteq> i \<longrightarrow> map_of (pe_positions s') j = map_of (pe_positions s) j)"
proof -
  let ?q = "p\<lparr>pp_mark := price\<rparr>"
  obtain collateral pnl where r: "is_liquidatable ?q" "parse_decimal (pp_collateral p) = Some collateral"
    "notional_pnl (pp_entry p) price (pp_size p) (pp_side p) = Some pnl"
    "liquidation_payout collateral pnl (pm_liquidation_fee c) = Inr fee"
    "s' = put_position i (settled perp_liquidated now price (format_decimal pnl 8) ?q) s"
    using assms(1) by (auto simp: settle_liquidation_def Let_def split: if_splits option.splits sum.splits)
  obtain rate where rate: "rational_from_float (pm_liquidation_fee c) = Some rate"
    using r(4) by (auto simp: liquidation_payout_def split: option.splits)
  then have "\<not> (rate < 0 \<or> 1 < rate)" "max 0 (collateral + pnl) * rate = fee"
    using r(4) by (simp_all only: liquidation_payout_def option.case split: if_splits) simp_all
  then have "0 \<le> rate" "rate \<le> 1" "fee = max 0 (collateral + pnl) * rate" by simp_all
  then have "0 \<le> fee" "fee \<le> max 0 (collateral + pnl)" by (simp_all add: mult_left_le)
  with r show ?thesis by (auto simp: put_position_def settled_def update_conv' is_liquidatable_def)
qed

text \<open>C34: A liquidation succeeds only on a position that was flagged and that has still crossed its liquidation price at the
  price of the settlement; it pays the liquidator a fee between nothing and the margin that is left, marks the
  position liquidated and changes no other position.\<close>

theorem liquidation_pays_a_bounded_fee:
  assumes "liquidate_position mark now i s0 sc sm s = (s', Inr fee)"
  shows "\<exists>p q collateral pnl. map_of (pe_positions s) i = Some p \<and> pp_status p = perp_liquidatable
    \<and> map_of (pe_positions s') i = Some q \<and> pp_status q = perp_liquidated \<and> is_liquidatable q
    \<and> parse_decimal (pp_collateral q) = Some collateral \<and> notional_pnl (pp_entry q) (pp_mark q) (pp_size q) (pp_side q) = Some pnl
    \<and> 0 \<le> fee \<and> fee \<le> max 0 (collateral + pnl) \<and> (\<forall>j. j \<noteq> i \<longrightarrow> map_of (pe_positions s') j = map_of (pe_positions s) j)"
proof -
  obtain p c price where "map_of (pe_positions s) i = Some p" "pp_status p = perp_liquidatable"
    "settle_liquidation now price c i p s = (s', Inr fee)"
    using assms by (auto simp: liquidate_position_def split: option.splits if_splits sum.splits)
  with settle_liquidation_fee show ?thesis by blast
qed

section \<open>Open interest\<close>

lemma alist_update_new: "map_of t k = None \<Longrightarrow> AList.update k v t = t @ [(k, v)]"
  by (induction t) (auto split: if_splits)

lemma add_interest_snoc:
  "add_interest symbol (ps @ [x]) t = Option.bind (add_interest symbol ps t) (\<lambda>u. add_interest symbol [x] u)"
  by (induction symbol ps t rule: add_interest.induct) (auto split: option.split)

text \<open>The open interest of a pair, both sides together.\<close>

definition interest_total :: "string \<Rightarrow> perp_engine \<Rightarrow> rat option" where
  "interest_total pair s = map_option (\<lambda>(long, short). long + short) (open_interest pair s)"

lemma add_interest_readable:
  "\<forall>(i, p) \<in> set ps. perp_amount_value (pp_size p) \<noteq> None \<Longrightarrow> add_interest symbol ps t \<noteq> None"
  by (induction symbol ps t rule: add_interest.induct) (auto split: option.split)

lemma open_interest_readable: "perp_ok s \<Longrightarrow> distinct (map fst (pe_positions s)) \<Longrightarrow> open_interest symbol s \<noteq> None"
  unfolding open_interest_def by (rule add_interest_readable) (fastforce simp: perp_ok_def position_ok_def)

lemma perp_run_distinct: "perp_run h \<Longrightarrow> s \<in> set h \<Longrightarrow> distinct (map fst (pe_positions s))"
proof (induction arbitrary: s rule: perp_run.induct)
  case (run_update h s0 mark)
  have "map fst (pe_positions (update_positions mark s0 t)) = map fst (pe_positions t)" for t
    by (simp add: update_positions_def case_prod_beta comp_def)
  with run_update show ?case using perp_run_ok [OF run_update.hyps(1)] hd_in_set by (metis set_ConsD)
next
  case (run_liquidate h s0 sc sm mark now i)
  then show ?case using perp_run_ok [OF run_liquidate.hyps(1)]
    by (auto simp: liquidate_position_def settle_liquidation_def put_position_def Let_def
        intro!: distinct_update split: option.splits sum.splits)
next
  case (run_close h s0 sm mark now owner i)
  then show ?case using perp_run_ok [OF run_close.hyps(1)]
    by (auto simp: close_position_def put_position_def Let_def intro!: distinct_update split: option.splits sum.splits)
next
  case (run_open h s0 sm si s1 mark new_id index now owner pair side qty collateral leverage)
  then show ?case using perp_run_ok [OF run_open.hyps(1)]
    by (auto simp: open_position_def intro!: distinct_update split: sum.splits)
next
  case (run_refresh h pf has_db futures perps)
  then show ?case using perp_run_ok [OF run_refresh.hyps(1)]
    by (auto simp: refresh_markets_def split: option.splits)
next
  case (run_order h s0 s1 mark now owner pair side order_type qty price trigger expires_in)
  then show ?case using perp_run_ok [OF run_order.hyps(1)] by (auto simp: orders_ok)
next
  case (run_cancel h i owner)
  then show ?case using perp_run_ok [OF run_cancel.hyps(1)] by (auto simp: orders_ok)
qed simp

text \<open>C35: A position of a market with a cap is opened only when the open interest of its pair, as it was counted by the
  request, leaves room for it: counted interest and new size together are within the cap. The stored position then
  adds exactly its size. So in every interleaving the interest after it exceeds the cap at most by what other requests
  opened between the count and the store, and a request that nobody disturbs keeps it within the cap. Interest is
  counted under the spelling of the pair that the request uses (\<open>other_spelling_passes_the_cap\<close>).\<close>

theorem open_interest_stays_within_cap:
  assumes "perp_run (s # h)"
    and "open_position mark index now new_id owner pair side qty collateral leverage s0 sm si s1 s = (s', Inr p)"
    and "market pair s0 = Some c" and "open_interest_cap c = Inr (Some limit)" and "map_of (pe_positions s) new_id = None"
  shows "\<exists>v counted before after. perp_amount_value qty = Some v \<and> interest_total pair s1 = Some counted
    \<and> interest_total pair s = Some before \<and> interest_total pair s' = Some after
    \<and> counted + v \<le> limit \<and> after = before + v \<and> after \<le> limit + (before - counted) \<and> (s1 = s \<longrightarrow> after \<le> limit)"
proof -
  have new: "new_position mark index now owner pair side qty collateral leverage s0 sm si s1 = Inr p"
    and s': "s' = s\<lparr>pe_positions := AList.update new_id p (pe_positions s)\<rparr>"
    using assms(2) by (auto simp: open_position_def split: sum.splits)
  obtain v where v: "perp_amount_value qty = Some v" and cap: "check_cap c pair v s1 = Inr ()"
    using new assms(3) by (auto simp: new_position_def amount_of_def split: option.splits if_splits)
  have p: "pp_pair p = pair" "pp_size p = qty" "pp_status p = perp_open"
    using new by (auto simp: new_position_def split: option.splits if_splits)
  obtain long1 short1 where o1: "open_interest pair s1 = Some (long1, short1)" "long1 + short1 + v \<le> limit"
    using cap assms(4) by (auto simp: check_cap_def split: option.splits if_splits)
  have ok: "perp_ok s" "distinct (map fst (pe_positions s))"
    using perp_run_ok [OF assms(1)] perp_run_distinct [OF assms(1)] by simp_all
  obtain long short where o: "open_interest pair s = Some (long, short)" using open_interest_readable [OF ok, of pair] by auto
  have "open_interest pair s' = (if pp_side p = ''short'' then Some (long, short + v) else Some (long + v, short))"
    using o p v by (simp add: open_interest_def s' alist_update_new [OF assms(5)] add_interest_snoc position_is_live_def)
  then have "interest_total pair s' = Some (long + short + v)" by (simp add: interest_total_def)
  with o1 o v show ?thesis by (auto simp: interest_total_def)
qed

section \<open>Delisting\<close>

text \<open>While the market of a position is not on the list of tradable markets (an operator paused it, say), nobody can settle
  the position: closing it and liquidating it are refused, and updates leave its mark as it is.\<close>

theorem delisted_market_traps_positions:
  assumes "map_of (pe_positions s) i = Some p" and "market (pp_pair p) s = None"
  shows "fst (close_position mark now owner i s s s) = s \<and> (\<exists>e. snd (close_position mark now owner i s s s) = Inl e)
    \<and> fst (liquidate_position mark now i s s s s) = s \<and> (\<exists>e. snd (liquidate_position mark now i s s s s) = Inl e)
    \<and> map_of (pe_positions (update_positions mark s s)) i = Some p"
proof -
  have g: "get_mark_price mark (pp_pair p) s = Inl Market_not_listed" using assms(2) by (simp add: get_mark_price_def)
  have "remark (new_mark mark s) p = p" by (simp add: remark_def new_mark_def g)
  moreover have "map_of (pe_positions (update_positions mark s s)) i = map_option (remark (new_mark mark s)) (map_of (pe_positions s) i)"
    by (simp add: update_positions_def map_of_map)
  ultimately have "map_of (pe_positions (update_positions mark s s)) i = Some p" using assms(1) by simp
  then show ?thesis using assms g by (simp add: close_position_def liquidate_position_def)
qed

section \<open>Sides\<close>

text \<open>A side that is written in another case than \<open>long\<close> gains and loses as a long position and is liquidated as a short one:
  no fall of the price ever liquidates it.\<close>

lemma other_side_escapes_liquidation:
  assumes "pp_side p \<noteq> ''long''" "\<not> equal_fold (pp_side p) ''short''" "pp_entry p = Fin False e" "0 < e"
    "pp_liquidation p = calculate_liquidation_price (pp_entry p) (pp_leverage p) False" "1 \<le> pp_leverage p" "pp_leverage p \<le> 1001"
    "ordinary (pp_entry p)" "pp_mark p = Fin False m" "m \<le> e" "parse_decimal (pp_size p) = Some v"
  shows "\<not> is_liquidatable p"
    and "notional_pnl (pp_entry p) (pp_mark p) (pp_size p) (pp_side p) = Some ((shortest m - shortest e) / shortest e * v)"
proof -
  obtain l where l: "pp_liquidation p = Fin False l"
    using liquidation_price_eq [OF assms(6,7), of e False] ordinary_val [OF assms(8)] assms(3,5) by auto
  have "\<not> f64_le (pp_liquidation p) (pp_entry p)" using entry_not_liquidatable(2) [OF assms(6,7,8)] assms(5) by simp
  then have "e < l" by (simp add: l assms(3))
  then show "\<not> is_liquidatable p" using assms(1,9,10) by (simp add: is_liquidatable_def l)
  show "notional_pnl (pp_entry p) (pp_mark p) (pp_size p) (pp_side p) = Some ((shortest m - shortest e) / shortest e * v)"
    using assms by (simp add: notional_pnl_def Let_def)
qed

end
