(* ===== verification/Margin_Props.thy ===== *)
theory Margin_Props
  imports Margin Perp_Props Launchpad_Props
begin

text \<open>
  What the margin accounts guarantee. The amounts in the database stay readable with eight places whatever requests
  are interleaved; a repayment reduces the debt by exactly its amount; a liquidation touches only an account
  below its health and takes from it no more than it holds; nothing but a liquidation lowers the collateral,
  which also says that collateral can never be withdrawn; and interest is owed only if somebody happens to
  accrue it before the loan is repaid.
\<close>

section \<open>Amounts of eight places\<close>

definition eight_places :: "rat \<Rightarrow> bool" where
  "eight_places v \<longleftrightarrow> (\<exists>n. 0 \<le> n \<and> v = of_int n / 10 ^ 8)"

definition worth :: "string \<Rightarrow> rat" where
  "worth t = (case parse_decimal t of None \<Rightarrow> 0 | Some v \<Rightarrow> v)"

definition money_text :: "string \<Rightarrow> bool" where
  "money_text t \<longleftrightarrow> (\<exists>v. parse_decimal t = Some v \<and> eight_places v)"

lemma eight_places_ge_0: "eight_places v \<Longrightarrow> 0 \<le> v"
  by (auto simp: eight_places_def)

lemma eight_places_add: "eight_places v \<Longrightarrow> eight_places w \<Longrightarrow> eight_places (v + w)"
proof -
  assume "eight_places v" "eight_places w"
  then obtain n m where "0 \<le> n" "v = of_int n / 10 ^ 8" "0 \<le> m" "w = of_int m / 10 ^ 8" by (auto simp: eight_places_def)
  then have "0 \<le> n + m \<and> v + w = of_int (n + m) / 10 ^ 8" by (simp add: add_divide_distrib)
  then show ?thesis unfolding eight_places_def by blast
qed

lemma eight_places_diff: "eight_places v \<Longrightarrow> eight_places w \<Longrightarrow> w \<le> v \<Longrightarrow> eight_places (v - w)"
proof -
  assume "eight_places v" "eight_places w" "w \<le> v"
  then obtain n m where "v = of_int n / 10 ^ 8" "w = of_int m / 10 ^ 8" "m \<le> n"
    by (auto simp: eight_places_def divide_le_cancel)
  then have "0 \<le> n - m \<and> v - w = of_int (n - m) / 10 ^ 8" by (simp add: diff_divide_distrib)
  then show ?thesis unfolding eight_places_def by blast
qed

lemma eight_places_0 [simp]: "eight_places 0"
  unfolding eight_places_def by (rule exI [of _ 0]) simp

lemma written: "0 \<le> v \<Longrightarrow> parse_decimal (amount_value_string v) = Some (of_int \<lfloor>v * 10 ^ 8\<rfloor> / 10 ^ 8)"
  unfolding amount_value_string_def by (rule parse_format_decimal) simp_all

lemma written_money [simp]: "0 \<le> v \<Longrightarrow> money_text (amount_value_string v)"
  unfolding money_text_def eight_places_def by (intro exI [of _ "of_int \<lfloor>v * 10 ^ 8\<rfloor> / 10 ^ 8"] conjI exI [of _ "\<lfloor>v * 10 ^ 8\<rfloor>"] written)
    simp_all

lemma written_exact: "eight_places v \<Longrightarrow> parse_decimal (amount_value_string v) = Some v"
  using written [OF eight_places_ge_0] by (auto simp: eight_places_def)

lemma worth_written: "0 \<le> v \<Longrightarrow> worth (amount_value_string v) \<le> v \<and> 0 \<le> worth (amount_value_string v)"
  using written_bounds(1) [of v 8] by (simp add: worth_def written)

lemma worth_exact: "eight_places v \<Longrightarrow> worth (amount_value_string v) = v"
  by (simp add: worth_def written_exact)

lemma money_text_0 [simp]: "money_text ''0''"
proof -
  have "parse_decimal ''0'' = Some 0" by code_simp
  then show ?thesis by (simp add: money_text_def)
qed

lemma decimal_places:
  assumes "parse_decimal t = Some v"
  shows "\<exists>n. 0 \<le> n \<and> v = of_int n / 10 ^ fraction_places (trim_space t)"
proof -
  obtain w f where sp: "split_once (CHR ''.'') (trim_space t) = (w, f)" by fastforce
  have d: "list_all is_digit (w @ (case f of None \<Rightarrow> [] | Some x \<Rightarrow> x))"
    "v = of_int (digits_val (w @ (case f of None \<Rightarrow> [] | Some x \<Rightarrow> x))) / 10 ^ length (case f of None \<Rightarrow> [] | Some x \<Rightarrow> x)"
    using assms sp by (auto simp: parse_decimal_def Let_def split: if_splits)
  have "fraction_places (trim_space t) = length (case f of None \<Rightarrow> [] | Some x \<Rightarrow> x)"
    by (simp add: fraction_places_def sp split: option.split)
  with d digits_val_ge_0 [OF d(1)] show ?thesis by metis
qed

lemma money_eight:
  assumes "money amount = Inr v"
  shows "eight_places v" "0 < v"
proof -
  have v: "parse_decimal amount = Some v" "0 < v" "fraction_places (trim_space amount) \<le> 8"
    using assms by (auto simp: money_def money_value_def split: option.splits if_splits)
  obtain n where n: "0 \<le> n" "v = of_int n / 10 ^ fraction_places (trim_space amount)" using decimal_places [OF v(1)] by blast
  define k where "k = fraction_places (trim_space amount)"
  have "v = of_int (n * 10 ^ (8 - k)) / (10 ^ k * 10 ^ (8 - k))" using n(2) by (simp add: k_def)
  also have "(10 :: rat) ^ k * 10 ^ (8 - k) = 10 ^ 8" using v(3) by (simp add: k_def flip: power_add)
  finally have "v = of_int (n * 10 ^ (8 - k)) / 10 ^ 8" .
  with n(1) show "eight_places v" unfolding eight_places_def by (metis mult_nonneg_nonneg zero_le_numeral zero_le_power)
  show "0 < v" by fact
qed

lemma column_money: "money_text t \<Longrightarrow> column t = Inr (worth t) \<and> eight_places (worth t)"
  by (auto simp: money_text_def column_def worth_def)

section \<open>Well-formed databases\<close>

definition borrow_money :: "margin_borrow \<Rightarrow> bool" where
  "borrow_money b \<longleftrightarrow> money_text (mb_principal b) \<and> money_text (mb_interest b)"

definition margin_ok :: "margin_db \<Rightarrow> bool" where
  "margin_ok s \<longleftrightarrow> distinct (map fst (md_accounts s)) \<and> distinct (map fst (md_collateral s)) \<and> distinct (map fst (md_borrows s))
     \<and> (\<forall>(i, c) \<in> set (md_collateral s). money_text (mc_amount c)) \<and> (\<forall>(i, b) \<in> set (md_borrows s). borrow_money b)"

lemma update_row_fst [simp]: "map fst (update_row i f t) = map fst t"
  by (induction t) (auto simp: update_row_def)

lemma update_row_set: "(j, r) \<in> set (update_row i f t) \<Longrightarrow> \<exists>q. (j, q) \<in> set t \<and> r = (if j = i then f q else q)"
  by (auto simp: update_row_def)

lemma update_row_map_of: "map_of (update_row i f t) j = (if j = i then map_option f (map_of t j) else map_of t j)"
  by (induction t) (auto simp: update_row_def)

lemma delete_row_map_of: "map_of (delete_row i t) j = (if j = i then None else map_of t j)"
  by (induction t) (auto simp: delete_row_def)

lemma delete_row_distinct: "distinct (map fst t) \<Longrightarrow> distinct (map fst (delete_row i t))"
  by (simp add: delete_row_def distinct_map_filter)

lemma update_collateral_ok:
  assumes "margin_ok s" "0 \<le> v"
  shows "margin_ok (s\<lparr>md_collateral := update_row i (mc_amount_update (\<lambda>_. amount_value_string v)) (md_collateral s)\<rparr>)"
  using assms by (auto simp: margin_ok_def dest!: update_row_set)

lemma write_borrow_ok:
  assumes "margin_ok s" "\<And>b. borrow_money b \<Longrightarrow> borrow_money (f b)"
  shows "margin_ok (write_borrow i f s)"
  using assms by (auto simp: margin_ok_def write_borrow_def dest!: update_row_set)

lemma drop_borrow_ok: "margin_ok s \<Longrightarrow> margin_ok (drop_borrow i s)"
  by (auto simp: margin_ok_def drop_borrow_def delete_row_distinct) (auto simp: delete_row_def)

lemma insert_collateral_ok:
  assumes "margin_ok s" "new_id \<notin> fst ` set (md_collateral s)" "money_text (mc_amount c)"
  shows "margin_ok (s\<lparr>md_collateral := insert_row new_id c (md_collateral s)\<rparr>)"
  using assms by (simp add: margin_ok_def table_facts)

lemma insert_borrow_ok:
  assumes "margin_ok s" "new_id \<notin> fst ` set (md_borrows s)" "borrow_money b"
  shows "margin_ok (s\<lparr>md_borrows := insert_row new_id b (md_borrows s)\<rparr>)"
  using assms by (simp add: margin_ok_def table_facts)

section \<open>The operations keep the amounts readable\<close>

lemma usable_ge_0: "usable x = Inr v \<Longrightarrow> 0 \<le> v"
  by (cases x rule: rational_from_float.cases) (auto simp: usable_def)

lemma open_account_ok:
  assumes "margin_ok s" "new_id \<notin> fst ` set (md_accounts s)"
  shows "margin_ok (fst (open_account user pair requested new_id s0 s))"
  using assms by (simp add: open_account_def Let_def margin_ok_def table_facts split: sum.split)

lemma find_collateral_row: "find_collateral a asset s = Some (i, c) \<Longrightarrow> (i, c) \<in> set (md_collateral s) \<and> mc_account c = a \<and> mc_asset c = asset"
  by (auto simp: find_collateral_def dest: find_SomeD)

lemma find_borrow_row: "find_borrow a asset s = Some (i, b) \<Longrightarrow> (i, b) \<in> set (md_borrows s) \<and> mb_account b = a \<and> mb_asset b = asset"
  by (auto simp: find_borrow_def dest: find_SomeD)

lemma store_collateral_ok:
  assumes "store_collateral a asset v new_id s0 = Inr f" "eight_places v" "margin_ok s0" "margin_ok s"
    "new_id \<notin> fst ` set (md_collateral s)"
  shows "margin_ok (f s)"
proof (cases "find_collateral a asset s0")
  case None
  with assms show ?thesis by (auto simp: store_collateral_def eight_places_ge_0 intro!: insert_collateral_ok)
next
  case (Some x)
  obtain i c where x: "x = (i, c)" by fastforce
  then have "money_text (mc_amount c)" using find_collateral_row [of a asset s0 i c] Some assms(3) by (auto simp: margin_ok_def)
  with column_money eight_places_ge_0 [OF assms(2)] eight_places_ge_0 Some x assms(1,4) show ?thesis
    by (auto simp: store_collateral_def intro!: update_collateral_ok)
qed

lemma deposit_collateral_ok:
  assumes "margin_ok s0" "margin_ok s" "new_id \<notin> fst ` set (md_collateral s)"
  shows "margin_ok (fst (deposit_collateral price user a asset amount new_id s0 s))"
  using assms money_eight(1)
  by (auto simp: deposit_collateral_def apply_write_def plan_deposit_def Let_def split: sum.split if_splits intro: store_collateral_ok)

lemma store_borrow_ok:
  assumes "store_borrow pow cfg now a asset v new_id s0 = Inr f" "eight_places v" "margin_ok s0" "margin_ok s"
    "new_id \<notin> fst ` set (md_borrows s)"
  shows "margin_ok (f s)"
proof (cases "find_borrow a asset s0")
  case None
  with assms show ?thesis by (auto simp: store_borrow_def borrow_money_def eight_places_ge_0 intro!: insert_borrow_ok)
next
  case (Some x)
  obtain i b where x: "x = (i, b)" by fastforce
  then have "borrow_money b" using find_borrow_row [of a asset s0 i b] Some assms(3) by (auto simp: margin_ok_def)
  then have "0 \<le> worth (mb_principal b) + v" "column (mb_principal b) = Inr (worth (mb_principal b))"
    using column_money eight_places_ge_0 [OF assms(2)] eight_places_ge_0 by (auto simp: borrow_money_def)
  with Some x assms(1,4) show ?thesis
    by (auto simp: store_borrow_def borrow_money_def intro!: write_borrow_ok)
qed

lemma borrow_ok:
  assumes "margin_ok s0" "margin_ok s" "new_id \<notin> fst ` set (md_borrows s)"
  shows "margin_ok (fst (borrow pow p0 price now user a asset amount new_id s0 s))"
  using assms money_eight(1)
  by (auto simp: borrow_def apply_write_def plan_borrow_def Let_def split: sum.split if_splits intro: store_borrow_ok)

lemma pay_down_ge_0: "0 \<le> p \<Longrightarrow> 0 \<le> i \<Longrightarrow> 0 \<le> fst (pay_down p i v) \<and> 0 \<le> snd (pay_down p i v)"
  by (simp add: pay_down_def)

lemma set_debt_money: "0 \<le> fst d \<Longrightarrow> 0 \<le> snd d \<Longrightarrow> borrow_money (set_debt d b)"
  by (simp add: borrow_money_def set_debt_def)

lemma borrow_columns:
  assumes "borrow_money b"
  shows "column (mb_principal b) = Inr (worth (mb_principal b))" "column (mb_interest b) = Inr (worth (mb_interest b))"
    "eight_places (worth (mb_principal b))" "eight_places (worth (mb_interest b))"
    "0 \<le> worth (mb_principal b)" "0 \<le> worth (mb_interest b)"
  using assms column_money eight_places_ge_0 by (auto simp: borrow_money_def)

lemma repay_ok:
  assumes "margin_ok s0" "margin_ok s"
  shows "margin_ok (fst (repay user a asset amount s0 s))"
proof (cases "plan_repay user a asset amount s0")
  case (Inr f)
  have "margin_ok (f s)"
  proof (cases "find_borrow a (to_upper (trim_space asset)) s0")
    case (Some x)
    obtain i b where x: "x = (i, b)" by fastforce
    then have "borrow_money b" using find_borrow_row [of a "to_upper (trim_space asset)" s0 i b] Some assms(1) by (auto simp: margin_ok_def)
    with borrow_columns [OF this] Inr Some x assms(2) show ?thesis
      by (auto simp: plan_repay_def pay_down_ge_0 split: if_splits intro!: write_borrow_ok set_debt_money drop_borrow_ok)
  qed (use Inr in \<open>auto simp: plan_repay_def\<close>)
  with Inr show ?thesis by (simp add: repay_def apply_write_def)
qed (simp add: repay_def apply_write_def assms)

lemma accrue_rows_ok: "margin_ok s \<Longrightarrow> margin_ok (fst (accrue_rows pow cfg now rows s))"
proof (induction rows arbitrary: s)
  case (Cons x rows)
  obtain i b where x: "x = (i, b)" by fastforce
  have "margin_ok (write_borrow i (set_interest t now) s)" if t: "accrued pow cfg now b = Inr (Some t)" for t
  proof -
    have "money_text t" using t by (auto simp: accrued_def Let_def split: if_splits)
    with Cons.prems show ?thesis by (auto simp: set_interest_def borrow_money_def intro!: write_borrow_ok)
  qed
  with Cons x show ?case by (auto split: sum.split option.split)
qed simp

lemma accrue_interest_ok: "margin_ok s \<Longrightarrow> margin_ok (fst (accrue_interest pow a cfg now s))"
  by (simp add: accrue_interest_def accrue_rows_ok)

lemma keep_share_ok: "margin_ok s \<Longrightarrow> margin_ok (keep_share kept h s)"
  by (auto simp: keep_share_def split: prod.split intro!: update_collateral_ok)

lemma fold_keep_ok: "margin_ok s \<Longrightarrow> margin_ok (fold (keep_share kept) hs s)"
  by (induction hs arbitrary: s) (simp_all add: keep_share_ok)

lemma seize_collateral_ok: "margin_ok s \<Longrightarrow> margin_ok (fst (seize_collateral price a v s))"
  by (auto simp: seize_collateral_def Let_def fold_keep_ok split: sum.split)

lemma pay_borrow_ok:
  assumes "pay_borrow price i b remaining s = Inr (r', s')" "margin_ok s" "borrow_money b"
  shows "margin_ok s'"
  using assms borrow_columns [OF assms(3)]
  by (auto simp: pay_borrow_def Let_def pay_down_ge_0 case_prod_beta split: if_splits intro!: drop_borrow_ok write_borrow_ok set_debt_money)

lemma reduce_rows_ok:
  "margin_ok s \<Longrightarrow> \<forall>(i, b) \<in> set rows. borrow_money b \<Longrightarrow> margin_ok (fst (reduce_rows price rows remaining s))"
proof (induction rows arbitrary: remaining s)
  case (Cons x rows)
  obtain i b where x: "x = (i, b)" by fastforce
  show ?case
  proof (cases "pay_borrow (price i) i b remaining s")
    case (Inr y)
    obtain r' s' where y: "y = (r', s')" by fastforce
    have "margin_ok s'" using pay_borrow_ok [of "price i" i b remaining s r' s'] Inr y Cons.prems x by simp
    with Cons Inr x y show ?thesis by auto
  qed (use Cons.prems x in simp)
qed simp

lemma reduce_debt_ok: "margin_ok s \<Longrightarrow> margin_ok (fst (reduce_debt price a v s))"
  unfolding reduce_debt_def by (rule reduce_rows_ok) (auto simp: margin_ok_def borrow_rows_def)

lemma mark_liquidated_ok: "margin_ok s \<Longrightarrow> margin_ok (mark_liquidated a s)"
  by (simp add: margin_ok_def mark_liquidated_def)

lemma close_if_cleared_ok: "margin_ok s \<Longrightarrow> margin_ok (close_if_cleared price a cfg s)"
  by (simp add: close_if_cleared_def mark_liquidated_ok split: sum.split)

lemma settle_account_ok: "margin_ok s \<Longrightarrow> margin_ok (fst (settle_account p2 p3 p4 a cfg h s))"
  using seize_collateral_ok [of s p2 a "snd (liquidation_amounts cfg h)"]
    reduce_debt_ok [of "fst (seize_collateral p2 a (snd (liquidation_amounts cfg h)) s)" p3 a "fst (liquidation_amounts cfg h)"]
  by (auto simp: settle_account_def case_prod_beta close_if_cleared_ok split: option.split)

lemma liquidate_ok: "margin_ok s \<Longrightarrow> margin_ok (fst (liquidate pow now p1 p2 p3 p4 a s))"
  using accrue_interest_ok
  by (auto simp: liquidate_def settle_account_ok split: option.split sum.split prod.split) (metis fst_conv settle_account_ok)+

lemma scan_account_ok: "margin_ok (fst st) \<Longrightarrow> margin_ok (fst (scan_account pow now price x st))"
  using accrue_interest_ok [of "fst st" pow "fst x"]
  by (auto simp: scan_account_def case_prod_beta split: option.split sum.split)

lemma liquidatable_accounts_ok: "margin_ok s \<Longrightarrow> margin_ok (fst (liquidatable_accounts pow now price s))"
proof -
  have "margin_ok (fst st) \<Longrightarrow> margin_ok (fst (fold (scan_account pow now price) xs st))" for xs st
    by (induction xs arbitrary: st) (simp_all add: scan_account_ok)
  then show "margin_ok s \<Longrightarrow> ?thesis" by (simp add: liquidatable_accounts_def)
qed

lemma get_account_view_ok: "margin_ok s \<Longrightarrow> margin_ok (fst (get_account_view pow price now user a s))"
  using accrue_interest_ok [of s pow a]
  by (auto simp: get_account_view_def case_prod_beta split: option.split sum.split)

section \<open>Runs\<close>

text \<open>The states of a run, the newest first; the reads of a request come from an earlier state. The listings change at
  any time. Keys are fresh.\<close>

inductive margin_run :: "(f64 \<Rightarrow> f64 \<Rightarrow> f64) \<Rightarrow> margin_db list \<Rightarrow> bool" for pow where
  mrun_start: "margin_run pow [\<lparr>md_markets = listings, md_accounts = [], md_collateral = [], md_borrows = []\<rparr>]"
| mrun_listings: "margin_run pow h \<Longrightarrow> margin_run pow ((hd h)\<lparr>md_markets := listings\<rparr> # h)"
| mrun_open: "margin_run pow h \<Longrightarrow> s0 \<in> set h \<Longrightarrow> new_id \<notin> fst ` set (md_accounts (hd h)) \<Longrightarrow>
    margin_run pow (fst (open_account user pair requested new_id s0 (hd h)) # h)"
| mrun_deposit: "margin_run pow h \<Longrightarrow> s0 \<in> set h \<Longrightarrow> new_id \<notin> fst ` set (md_collateral (hd h)) \<Longrightarrow>
    margin_run pow (fst (deposit_collateral price user a asset amount new_id s0 (hd h)) # h)"
| mrun_borrow: "margin_run pow h \<Longrightarrow> s0 \<in> set h \<Longrightarrow> new_id \<notin> fst ` set (md_borrows (hd h)) \<Longrightarrow>
    margin_run pow (fst (borrow pow p0 price now user a asset amount new_id s0 (hd h)) # h)"
| mrun_repay: "margin_run pow h \<Longrightarrow> s0 \<in> set h \<Longrightarrow> margin_run pow (fst (repay user a asset amount s0 (hd h)) # h)"
| mrun_view: "margin_run pow h \<Longrightarrow> margin_run pow (fst (get_account_view pow price now user a (hd h)) # h)"
| mrun_liquidate: "margin_run pow h \<Longrightarrow> margin_run pow (fst (liquidate pow now p1 p2 p3 p4 a (hd h)) # h)"
| mrun_scan: "margin_run pow h \<Longrightarrow> margin_run pow (fst (liquidatable_accounts pow now price (hd h)) # h)"

lemma margin_run_ok: "margin_run pow h \<Longrightarrow> h \<noteq> [] \<and> (\<forall>s \<in> set h. margin_ok s)"
proof (induction rule: margin_run.induct)
  case (mrun_listings h listings)
  then show ?case by (auto simp: margin_ok_def)
qed (auto simp: margin_ok_def [of "margin_db.make _ _ _ _"] open_account_ok deposit_collateral_ok borrow_ok repay_ok get_account_view_ok
  liquidate_ok liquidatable_accounts_ok, auto simp: margin_ok_def)

text \<open>In every interleaving of requests every amount in the database is a readable, non-negative number of at most eight
  places, and no key is used twice: no later request fails on a column that an earlier one wrote.\<close>

theorem margin_columns_stay_readable:
  assumes "margin_run pow (s # h)"
  shows "(\<forall>(i, c) \<in> set (md_collateral s). money_text (mc_amount c))
    \<and> (\<forall>(i, b) \<in> set (md_borrows s). money_text (mb_principal b) \<and> money_text (mb_interest b))
    \<and> distinct (map fst (md_accounts s)) \<and> distinct (map fst (md_collateral s)) \<and> distinct (map fst (md_borrows s))"
  using margin_run_ok [OF assms] by (auto simp: margin_ok_def borrow_money_def)

section \<open>Repayments\<close>

lemma owned_account_borrows [simp]: "owned_account user a (s\<lparr>md_borrows := x\<rparr>) = owned_account user a s"
proof -
  have "margin_listing p (s\<lparr>md_borrows := x\<rparr>) = margin_listing p s" for p by (simp add: margin_listing_def)
  then show ?thesis by (simp add: owned_account_def split: option.split)
qed

lemma pay_down_exact:
  assumes "eight_places p" "eight_places i" "eight_places v" "v \<le> p + i"
  shows "eight_places (fst (pay_down p i v))" "eight_places (snd (pay_down p i v))"
    "fst (pay_down p i v) + snd (pay_down p i v) = p + i - v"
proof -
  have "eight_places (v - i)" if "\<not> v \<le> i" using eight_places_diff [OF assms(3,2)] that by simp
  then show "eight_places (fst (pay_down p i v))" "eight_places (snd (pay_down p i v))"
    using assms eight_places_diff [OF assms(2,3)] eight_places_diff [OF assms(1), of "v - i"] by (auto simp: pay_down_def max_def)
  show "fst (pay_down p i v) + snd (pay_down p i v) = p + i - v" using assms(4) by (simp add: pay_down_def)
qed

text \<open>C37: A repayment that is accepted and that no other request disturbs (it reads and writes in one state) lowers
  the stored debt, principal and interest together, by exactly its amount, the interest first; a debt that is paid in full is deleted; the other debts stay as they are.\<close>

theorem repayment_is_exact:
  assumes "margin_ok s" and "repay user a asset amount s s = (s', None)"
  shows "\<exists>i b v. map_of (md_borrows s) i = Some b \<and> mb_account b = a \<and> mb_asset b = to_upper (trim_space asset)
    \<and> money_value amount = Some v \<and> v \<le> worth (mb_principal b) + worth (mb_interest b)
    \<and> (case map_of (md_borrows s') i of
         None \<Rightarrow> v = worth (mb_principal b) + worth (mb_interest b)
       | Some b' \<Rightarrow> worth (mb_principal b') + worth (mb_interest b') = worth (mb_principal b) + worth (mb_interest b) - v
           \<and> (worth (mb_principal b') = worth (mb_principal b) \<or> worth (mb_interest b') = 0))
    \<and> (\<forall>j. j \<noteq> i \<longrightarrow> map_of (md_borrows s') j = map_of (md_borrows s) j)"
proof -
  obtain f where f: "plan_repay user a asset amount s = Inr f" "s' = f s"
    using assms(2) by (auto simp: repay_def apply_write_def split: sum.splits)
  obtain v i b where v: "money amount = Inr v" and b: "find_borrow a (to_upper (trim_space asset)) s = Some (i, b)"
    using f(1) by (auto simp: plan_repay_def split: option.splits)
  have row: "(i, b) \<in> set (md_borrows s)" "mb_account b = a" "mb_asset b = to_upper (trim_space asset)"
    using find_borrow_row [OF b] by simp_all
  have m: "map_of (md_borrows s) i = Some b" "borrow_money b" using row(1) assms(1) by (auto simp: margin_ok_def)
  note c = borrow_columns [OF m(2)]
  let ?p = "worth (mb_principal b)" and ?i = "worth (mb_interest b)"
  have le: "v \<le> ?p + ?i" and s': "s' = (if v = ?p + ?i then drop_borrow i s else write_borrow i (set_debt (pay_down ?p ?i v)) s)"
    using f v b c by (auto simp: plan_repay_def split: if_splits)
  note pd = pay_down_exact [OF c(3,4) money_eight(1) [OF v] le]
  have w: "worth (mb_principal (set_debt (pay_down ?p ?i v) b)) = fst (pay_down ?p ?i v)"
    "worth (mb_interest (set_debt (pay_down ?p ?i v) b)) = snd (pay_down ?p ?i v)"
    using pd(1,2) by (simp_all add: set_debt_def worth_exact)
  have "fst (pay_down ?p ?i v) = ?p \<or> snd (pay_down ?p ?i v) = 0" by (simp add: pay_down_def)
  moreover have "money_value amount = Some v" using v by (auto simp: money_def split: option.splits)
  moreover have "map_of (md_borrows s') i = (if v = ?p + ?i then None else Some (set_debt (pay_down ?p ?i v) b))"
    "j \<noteq> i \<Longrightarrow> map_of (md_borrows s') j = map_of (md_borrows s) j" for j
    using m(1) by (simp_all add: s' drop_borrow_def write_borrow_def delete_row_map_of update_row_map_of)
  ultimately show ?thesis using m(1) row(2,3) le pd(3) w
    by (intro exI [of _ i] exI [of _ b] exI [of _ v]) simp
qed

section \<open>Liquidations\<close>

definition loan_owed :: "margin_borrow \<Rightarrow> rat" where
  "loan_owed b = worth (mb_principal b) + worth (mb_interest b)"

lemma holdings_rows: "holdings price rows = Inr hs \<Longrightarrow> (i, v, u) \<in> set hs \<Longrightarrow> \<exists>c. (i, c) \<in> set rows \<and> column (mc_amount c) = Inr v"
  by (induction price rows arbitrary: hs rule: holdings.induct) (auto split: if_splits, blast+)

text \<open>What a fold of writes leaves in a row.\<close>

lemma keep_share_row: "map_of (md_collateral (keep_share kept (j, v, u) s)) i =
    (if i = j then map_option (mc_amount_update (\<lambda>_. amount_value_string (max 0 (v * kept)))) (map_of (md_collateral s) i)
     else map_of (md_collateral s) i)"
  by (simp add: keep_share_def update_row_map_of)

lemma fold_keep_row:
  assumes "map_of (md_collateral s) i = Some c"
  shows "\<exists>c'. map_of (md_collateral (fold (keep_share kept) hs s)) i = Some c'
    \<and> (c' = c \<or> (\<exists>v u. (i, v, u) \<in> set hs \<and> c' = c\<lparr>mc_amount := amount_value_string (max 0 (v * kept))\<rparr>))"
  using assms
proof (induction hs rule: rev_induct)
  case (snoc h hs)
  then obtain c' where c': "map_of (md_collateral (fold (keep_share kept) hs s)) i = Some c'"
    "c' = c \<or> (\<exists>v u. (i, v, u) \<in> set hs \<and> c' = c\<lparr>mc_amount := amount_value_string (max 0 (v * kept))\<rparr>)" by blast
  obtain j v u where h: "h = (j, v, u)" by (cases h)
  then have "map_of (md_collateral (fold (keep_share kept) (hs @ [h]) s)) i
      = Some (if i = j then c'\<lparr>mc_amount := amount_value_string (max 0 (v * kept))\<rparr> else c')"
    using c'(1) h by (cases "i = j") (simp_all add: keep_share_row)
  with c'(2) h show ?case by auto
qed simp

lemma seize_cases: "fst (seize_collateral price a v s) = s
    \<or> (\<exists>hs f. holdings price (collateral_rows a s) = Inr hs \<and> 0 \<le> f \<and> fst (seize_collateral price a v s) = fold (keep_share (1 - f)) hs s)"
proof (cases "holdings price (collateral_rows a s)")
  case (Inr hs)
  have e: "fst (if b then (s, None) else (case usable x of Inl e \<Rightarrow> (s, Some e) | Inr f \<Rightarrow> (fold (keep_share (1 - f)) hs s, None))) = s
      \<or> (\<exists>f. 0 \<le> f \<and> fst (if b then (s, None) else (case usable x of Inl e \<Rightarrow> (s, Some e) | Inr f \<Rightarrow> (fold (keep_share (1 - f)) hs s, None)))
          = fold (keep_share (1 - f)) hs s)" for b x
    using usable_ge_0 [of x] by (cases "usable x") auto
  show ?thesis unfolding seize_collateral_def Inr Let_def sum.case using e by blast
qed (simp add: seize_collateral_def)

lemma seize_collateral_row:
  assumes "margin_ok s" "map_of (md_collateral s) i = Some c"
  shows "\<exists>c'. map_of (md_collateral (fst (seize_collateral price a v s))) i = Some c' \<and> mc_account c' = mc_account c
    \<and> mc_asset c' = mc_asset c \<and> worth (mc_amount c') \<le> worth (mc_amount c) \<and> (mc_account c \<noteq> a \<longrightarrow> c' = c)"
proof (cases "fst (seize_collateral price a v s) = s")
  case False
  then obtain hs f where hs: "holdings price (collateral_rows a s) = Inr hs" and f: "0 \<le> f"
    and t: "fst (seize_collateral price a v s) = fold (keep_share (1 - f)) hs s"
    using seize_cases [of price a v s] by blast
  obtain c' where c': "map_of (md_collateral (fold (keep_share (1 - f)) hs s)) i = Some c'"
    "c' = c \<or> (\<exists>w u. (i, w, u) \<in> set hs \<and> c' = c\<lparr>mc_amount := amount_value_string (max 0 (w * (1 - f)))\<rparr>)"
    using fold_keep_row [OF assms(2)] by blast
  have "mc_account c = a \<and> w = worth (mc_amount c) \<and> 0 \<le> w" if row: "(i, w, u) \<in> set hs" for w u
  proof -
    obtain d where d: "(i, d) \<in> set (md_collateral s)" "mc_account d = a" "column (mc_amount d) = Inr w"
      using holdings_rows [OF hs row] by (auto simp: collateral_rows_def)
    have "distinct (map fst (md_collateral s))" using assms(1) by (simp add: margin_ok_def)
    then have "d = c" using d(1) assms(2) by simp
    moreover have "money_text (mc_amount d)" using d(1) assms(1) by (auto simp: margin_ok_def)
    ultimately show ?thesis using d column_money [of "mc_amount d"] eight_places_ge_0 by auto
  qed
  moreover have "worth (amount_value_string (max 0 (w * (1 - f)))) \<le> w" if "0 \<le> w" for w
  proof -
    have "w * (1 - f) \<le> w" using mult_left_mono [of "1 - f" 1 w] f that by simp
    then have "max 0 (w * (1 - f)) \<le> w" using that by simp
    with worth_written [of "max 0 (w * (1 - f))"] show ?thesis by (meson max.cobounded1 order_trans)
  qed
  ultimately show ?thesis using c' unfolding t by auto
qed (use assms(2) in auto)

lemma seize_collateral_borrows [simp]: "md_borrows (fst (seize_collateral price a v s)) = md_borrows s"
proof -
  have "md_borrows (fold (keep_share k) hs s) = md_borrows s" for k hs
    by (induction hs arbitrary: s) (simp_all add: keep_share_def split: prod.split)
  then show ?thesis by (simp add: seize_collateral_def Let_def split: sum.split)
qed

text \<open>What a pass over the borrows leaves of a debt.\<close>

definition debt_kept :: "uuid \<Rightarrow> uuid \<Rightarrow> margin_borrow \<Rightarrow> margin_db \<Rightarrow> bool" where
  "debt_kept a i b s \<longleftrightarrow>
     (case map_of (md_borrows s) i of
        None \<Rightarrow> mb_account b = a
      | Some b' \<Rightarrow> mb_account b' = mb_account b \<and> mb_asset b' = mb_asset b \<and> loan_owed b' \<le> loan_owed b \<and> (mb_account b \<noteq> a \<longrightarrow> b' = b))"

lemma pay_borrow_effect:
  assumes "pay_borrow price i b remaining s = Inr (r', s')" "borrow_money b"
  shows "md_collateral s' = md_collateral s \<and> md_accounts s' = md_accounts s \<and> (s' = s \<or> s' = drop_borrow i s
    \<or> (\<exists>x \<ge> 0. s' = write_borrow i (set_debt (pay_down (worth (mb_principal b)) (worth (mb_interest b)) x)) s))"
proof -
  let ?p = "worth (mb_principal b)" and ?i = "worth (mb_interest b)"
  obtain p usd where u: "asset_price price (mb_asset b) = Inr p" "usable p = Inr usd"
    using assms(1) by (auto simp: pay_borrow_def)
  show ?thesis
  proof (cases "(?p + ?i) * usd \<le> 0")
    case True
    with assms(1) u borrow_columns [OF assms(2)] show ?thesis by (simp add: pay_borrow_def)
  next
    case False
    then obtain left where left: "usable remaining = Inr left"
      using assms(1) u borrow_columns [OF assms(2)] by (auto simp: pay_borrow_def)
    let ?x = "min left ((?p + ?i) * usd) / usd"
    have "0 \<le> ?x" using False usable_ge_0 [OF left] usable_ge_0 [OF u(2)] by simp
    moreover have "s' = (if fst (pay_down ?p ?i ?x) = 0 \<and> snd (pay_down ?p ?i ?x) = 0 then drop_borrow i s
        else write_borrow i (set_debt (pay_down ?p ?i ?x)) s)"
      using assms(1) u left False borrow_columns [OF assms(2)] by (auto simp: pay_borrow_def case_prod_beta Let_def split: if_splits)
    ultimately show ?thesis by (auto simp: drop_borrow_def write_borrow_def)
  qed
qed

lemma set_debt_fields [simp]: "mb_account (set_debt d b) = mb_account b" "mb_asset (set_debt d b) = mb_asset b"
  by (simp_all add: set_debt_def)

lemma pay_down_owed:
  assumes "0 \<le> p" "0 \<le> i" "0 \<le> x"
  shows "loan_owed (set_debt (pay_down p i x) b) \<le> p + i"
proof -
  have "fst (pay_down p i x) + snd (pay_down p i x) \<le> p + i" using assms by (auto simp: pay_down_def max_def)
  then show ?thesis
    using worth_written [of "fst (pay_down p i x)"] worth_written [of "snd (pay_down p i x)"] pay_down_ge_0 [OF assms(1,2), of x]
    by (simp add: loan_owed_def set_debt_def)
qed

lemma reduce_rows_effect:
  assumes "\<forall>(j, b) \<in> set rows. borrow_money b \<and> mb_account b = a \<and> (j = i \<longrightarrow> b = b0)" and "debt_kept a i b0 s"
  shows "debt_kept a i b0 (fst (reduce_rows price rows remaining s)) \<and> md_collateral (fst (reduce_rows price rows remaining s)) = md_collateral s"
  using assms
proof (induction rows arbitrary: remaining s)
  case (Cons x rows)
  obtain j b where x: "x = (j, b)" by fastforce
  have b: "borrow_money b" "mb_account b = a" "j = i \<longrightarrow> b = b0" using Cons.prems(1) x by auto
  show ?case
  proof (cases "pay_borrow (price j) j b remaining s")
    case (Inr y)
    obtain r' s' where y: "y = (r', s')" by fastforce
    have e: "md_collateral s' = md_collateral s" "s' = s \<or> s' = drop_borrow j s
        \<or> (\<exists>z \<ge> 0. s' = write_borrow j (set_debt (pay_down (worth (mb_principal b)) (worth (mb_interest b)) z)) s)"
      using pay_borrow_effect [of "price j" j b remaining s r' s'] Inr y b(1) by auto
    have "debt_kept a i b0 s'"
    proof (cases "j = i")
      case True
      then have "b = b0" using b(3) by simp
      then show ?thesis
        using e(2) Cons.prems(2) b(2) True pay_down_owed [OF borrow_columns(5,6) [OF b(1)]]
        by (auto simp: debt_kept_def drop_borrow_def write_borrow_def delete_row_map_of update_row_map_of loan_owed_def [of b0] split: option.splits)
    qed (use e(2) Cons.prems(2) in \<open>auto simp: debt_kept_def drop_borrow_def write_borrow_def delete_row_map_of update_row_map_of\<close>)
    with Cons Inr x y e(1) show ?thesis by auto
  qed (use Cons.prems x in simp)
qed simp

lemma reduce_debt_effect:
  assumes "margin_ok s" "map_of (md_borrows s) i = Some b"
  shows "debt_kept a i b (fst (reduce_debt price a v s)) \<and> md_collateral (fst (reduce_debt price a v s)) = md_collateral s"
  unfolding reduce_debt_def
proof (rule reduce_rows_effect)
  have "distinct (map fst (md_borrows s))" using assms(1) by (simp add: margin_ok_def)
  then have "(i, c) \<in> set (md_borrows s) \<Longrightarrow> c = b" for c using assms(2) map_of_is_SomeI [of "md_borrows s" i c] by simp
  then show "\<forall>(j, c) \<in> set (borrow_rows a s). borrow_money c \<and> mb_account c = a \<and> (j = i \<longrightarrow> c = b)"
    using assms(1) by (auto simp: margin_ok_def borrow_rows_def)
  show "debt_kept a i b s" using assms(2) by (simp add: debt_kept_def)
qed

lemma close_if_cleared_rows [simp]:
  "md_collateral (close_if_cleared price a cfg s) = md_collateral s" "md_borrows (close_if_cleared price a cfg s) = md_borrows s"
  by (simp_all add: close_if_cleared_def mark_liquidated_def split: sum.split)

lemma settle_account_effect:
  assumes "margin_ok s"
  shows "map_of (md_collateral s) i = Some c \<Longrightarrow>
      \<exists>c'. map_of (md_collateral (fst (settle_account p2 p3 p4 a cfg h s))) i = Some c' \<and> mc_account c' = mc_account c
        \<and> mc_asset c' = mc_asset c \<and> worth (mc_amount c') \<le> worth (mc_amount c) \<and> (mc_account c \<noteq> a \<longrightarrow> c' = c)"
    and "map_of (md_borrows s) j = Some b \<Longrightarrow> debt_kept a j b (fst (settle_account p2 p3 p4 a cfg h s))"
proof -
  let ?s2 = "fst (seize_collateral p2 a (snd (liquidation_amounts cfg h)) s)"
  let ?s3 = "fst (reduce_debt p3 a (fst (liquidation_amounts cfg h)) ?s2)"
  let ?t = "fst (settle_account p2 p3 p4 a cfg h s)"
  have t: "md_collateral ?t = md_collateral ?s2 \<and> md_borrows ?t = md_borrows ?s2
      \<or> md_collateral ?t = md_collateral ?s3 \<and> md_borrows ?t = md_borrows ?s3"
    by (auto simp: settle_account_def case_prod_beta split: option.split)
  have ok: "margin_ok ?s2" by (rule seize_collateral_ok) fact
  have kept: "debt_kept a j b ?s2 \<and> debt_kept a j b ?s3" if "map_of (md_borrows s) j = Some b" for j b
    using reduce_debt_effect [OF ok, of j b a p3] that by (simp add: debt_kept_def)
  have "md_collateral ?s3 = md_collateral ?s2"
  proof -
    have "md_collateral (fst (reduce_rows p rows v u)) = md_collateral u" if "\<forall>(j, b) \<in> set rows. borrow_money b" for p rows v u
      using that
    proof (induction rows arbitrary: v u)
      case (Cons x rows)
      then show ?case using pay_borrow_effect by (auto split: sum.split prod.split)
    qed simp
    then show ?thesis using ok by (auto simp: reduce_debt_def borrow_rows_def margin_ok_def)
  qed
  with t have c: "md_collateral ?t = md_collateral ?s2" by auto
  show "map_of (md_collateral s) i = Some c \<Longrightarrow>
      \<exists>c'. map_of (md_collateral ?t) i = Some c' \<and> mc_account c' = mc_account c
        \<and> mc_asset c' = mc_asset c \<and> worth (mc_amount c') \<le> worth (mc_amount c) \<and> (mc_account c \<noteq> a \<longrightarrow> c' = c)"
    unfolding c by (rule seize_collateral_row [OF assms])
  show "map_of (md_borrows s) j = Some b \<Longrightarrow> debt_kept a j b ?t" using t kept [of j b] by (auto simp: debt_kept_def)
qed

text \<open>C39: A liquidation that is accepted found, under the listing of the account's own pair and after the accrual of
  interest, a debt above nothing and a health factor below one. It changes the collateral and the debts of this
  account only, and none of them grows.\<close>

theorem liquidation_spares_the_healthy:
  assumes "margin_ok s" and "liquidate pow now p1 p2 p3 p4 a s = (s', Inr found)"
  shows "\<exists>acc cfg h s1. map_of (md_accounts s) a = Some acc \<and> margin_listing (ma_pair acc) s = Inr cfg
    \<and> accrue_interest pow a cfg now s = (s1, None) \<and> compute_health p1 a cfg s1 = Inr h
    \<and> \<not> f64_le (mh_debt h) (Fin False 0) \<and> \<not> f64_le (Fin False 1) (mh_factor h)
    \<and> (\<forall>i c. map_of (md_collateral s1) i = Some c \<longrightarrow> (\<exists>c'. map_of (md_collateral s') i = Some c' \<and> mc_account c' = mc_account c
          \<and> mc_asset c' = mc_asset c \<and> worth (mc_amount c') \<le> worth (mc_amount c) \<and> (mc_account c \<noteq> a \<longrightarrow> c' = c)))
    \<and> (\<forall>i b. map_of (md_borrows s1) i = Some b \<longrightarrow> debt_kept a i b s')"
proof -
  obtain acc cfg h s1 where acc: "map_of (md_accounts s) a = Some acc" "margin_listing (ma_pair acc) s = Inr cfg"
    and s1: "accrue_interest pow a cfg now s = (s1, None)" "compute_health p1 a cfg s1 = Inr h" "below_health h"
    "settle_account p2 p3 p4 a cfg h s1 = (s', Inr found)"
    using assms(2) by (auto simp: liquidate_def split: option.splits sum.splits prod.splits if_splits)
  have ok: "margin_ok s1" using accrue_interest_ok [OF assms(1), of pow a cfg now] s1(1) by simp
  have s': "s' = fst (settle_account p2 p3 p4 a cfg h s1)" using s1(4) by simp
  have h: "\<not> f64_le (mh_debt h) (Fin False 0)" "\<not> f64_le (Fin False 1) (mh_factor h)" using s1(3) by (simp_all add: below_health_def)
  show ?thesis unfolding s'
    by (rule exI [of _ acc], rule exI [of _ cfg], rule exI [of _ h], rule exI [of _ s1],
        intro conjI allI impI acc s1(1,2) h settle_account_effect [OF ok]) assumption+
qed

section \<open>Loans without interest\<close>

text \<open>
  A repayment asks for the stored interest only, and only a view of the account, a scan for liquidatable
  accounts, a further loan or a liquidation stores any. \<open>quiet_step a\<close>: time passes, and requests that
  touch no debt of account \<open>a\<close> are served one at a time.
\<close>

inductive quiet_step :: "(f64 \<Rightarrow> f64 \<Rightarrow> f64) \<Rightarrow> uuid \<Rightarrow> time \<times> margin_db \<Rightarrow> time \<times> margin_db \<Rightarrow> bool" for pow a where
  quiet_wait: "t \<le> n \<Longrightarrow> quiet_step pow a (t, s) (n, s)"
| quiet_listings: "t \<le> n \<Longrightarrow> quiet_step pow a (t, s) (n, s\<lparr>md_markets := listings\<rparr>)"
| quiet_account: "t \<le> n \<Longrightarrow> new_id \<notin> fst ` set (md_accounts s) \<Longrightarrow>
    quiet_step pow a (t, s) (n, fst (open_account user pair requested new_id s s))"
| quiet_deposit: "t \<le> n \<Longrightarrow> new_id \<notin> fst ` set (md_collateral s) \<Longrightarrow>
    quiet_step pow a (t, s) (n, fst (deposit_collateral price user b asset amount new_id s s))"
| quiet_borrow: "t \<le> n \<Longrightarrow> b \<noteq> a \<Longrightarrow> new_id \<notin> fst ` set (md_borrows s) \<Longrightarrow>
    quiet_step pow a (t, s) (n, fst (borrow pow p0 prices n user b asset amount new_id s s))"
| quiet_repay: "t \<le> n \<Longrightarrow> b \<noteq> a \<Longrightarrow> quiet_step pow a (t, s) (n, fst (repay user b asset amount s s))"
| quiet_view: "t \<le> n \<Longrightarrow> b \<noteq> a \<Longrightarrow> quiet_step pow a (t, s) (n, fst (get_account_view pow prices n user b s))"
| quiet_liquidate: "t \<le> n \<Longrightarrow> b \<noteq> a \<Longrightarrow> quiet_step pow a (t, s) (n, fst (liquidate pow n p1 p2 p3 p4 b s))"

text \<open>A key that is not of the account; writes there leave the debts of the account alone.\<close>

definition foreign_key :: "uuid \<Rightarrow> uuid \<Rightarrow> margin_db \<Rightarrow> bool" where
  "foreign_key a i s \<longleftrightarrow> (\<forall>r. (i, r) \<in> set (md_borrows s) \<longrightarrow> mb_account r \<noteq> a)"

lemma foreign_rows:
  assumes "margin_ok s" "(i, r) \<in> set (borrow_rows b s)" "b \<noteq> a"
  shows "foreign_key a i s"
proof -
  have "map_of (md_borrows s) i = Some r" "mb_account r = b"
    using assms(1,2) by (auto simp: margin_ok_def borrow_rows_def)
  moreover have "distinct (map fst (md_borrows s))" using assms(1) by (simp add: margin_ok_def)
  ultimately have "q = r" if "(i, q) \<in> set (md_borrows s)" for q using map_of_is_SomeI [of "md_borrows s" i q] that by simp
  then show ?thesis using \<open>mb_account r = b\<close> assms(3) by (auto simp: foreign_key_def)
qed

definition keeps_account :: "(margin_borrow \<Rightarrow> margin_borrow) \<Rightarrow> bool" where
  "keeps_account f \<longleftrightarrow> (\<forall>r. mb_account (f r) = mb_account r)"

lemma keeps_account_simps [simp]:
  "keeps_account (set_interest t n)" "keeps_account (set_debt d)"
  "keeps_account (\<lambda>r. r\<lparr>mb_principal := p, mb_interest := i, mb_accrued := n\<rparr>)"
  by (simp_all add: keeps_account_def set_interest_def set_debt_def)

lemma write_foreign:
  assumes "foreign_key a i s" "keeps_account f"
  shows "borrow_rows a (write_borrow i f s) = borrow_rows a s" "foreign_key a j s \<Longrightarrow> foreign_key a j (write_borrow i f s)"
proof -
  have "filter (\<lambda>(_, r). mb_account r = a) (update_row i f t) = filter (\<lambda>(_, r). mb_account r = a) t"
    if "\<forall>r. (i, r) \<in> set t \<longrightarrow> mb_account r \<noteq> a" for t
    using that
  proof (induction t)
    case (Cons x t)
    obtain j r where x: "x = (j, r)" by fastforce
    have "mb_account (f r) = mb_account r" using assms(2) by (simp add: keeps_account_def)
    then show ?case using Cons x by (cases "j = i") (simp_all add: update_row_def)
  qed (simp add: update_row_def)
  then show "borrow_rows a (write_borrow i f s) = borrow_rows a s"
    using assms(1) by (simp add: borrow_rows_def write_borrow_def foreign_key_def)
  have "mb_account (f r) = mb_account r" for r using assms(2) by (simp add: keeps_account_def)
  then show "foreign_key a j s \<Longrightarrow> foreign_key a j (write_borrow i f s)"
    by (fastforce simp: foreign_key_def write_borrow_def update_row_def split: if_splits)
qed

lemma drop_foreign:
  assumes "foreign_key a i s"
  shows "borrow_rows a (drop_borrow i s) = borrow_rows a s" "foreign_key a j s \<Longrightarrow> foreign_key a j (drop_borrow i s)"
proof -
  show "borrow_rows a (drop_borrow i s) = borrow_rows a s"
    using assms by (auto simp: borrow_rows_def drop_borrow_def delete_row_def foreign_key_def intro!: filter_cong)
  show "foreign_key a j s \<Longrightarrow> foreign_key a j (drop_borrow i s)"
    by (auto simp: foreign_key_def drop_borrow_def delete_row_def)
qed

lemma accrue_rows_foreign:
  "\<forall>(i, r) \<in> set rows. foreign_key a i s \<Longrightarrow> borrow_rows a (fst (accrue_rows pow cfg now rows s)) = borrow_rows a s"
proof (induction rows arbitrary: s)
  case (Cons x rows)
  obtain i r where x: "x = (i, r)" by fastforce
  have "\<forall>(j, q) \<in> set rows. foreign_key a j (write_borrow i (set_interest t now) s)" for t
    using Cons.prems x write_foreign(2) by fastforce
  with Cons x write_foreign(1) show ?case by (auto split: sum.split option.split)
qed simp

lemma accrue_foreign: "margin_ok s \<Longrightarrow> b \<noteq> a \<Longrightarrow> borrow_rows a (fst (accrue_interest pow b cfg now s)) = borrow_rows a s"
  unfolding accrue_interest_def by (rule accrue_rows_foreign) (auto intro: foreign_rows)

lemma pay_borrow_foreign:
  assumes "pay_borrow price i b remaining s = Inr (r', s')" "foreign_key a i s"
  shows "borrow_rows a s' = borrow_rows a s \<and> (\<forall>j. foreign_key a j s \<longrightarrow> foreign_key a j s')"
proof -
  have "s' = s \<or> s' = drop_borrow i s \<or> (\<exists>f. keeps_account f \<and> s' = write_borrow i f s)"
    using assms(1) by (auto simp: pay_borrow_def Let_def case_prod_beta intro: keeps_account_simps split: if_splits)
  with write_foreign [OF assms(2)] drop_foreign [OF assms(2)] show ?thesis by auto
qed

lemma reduce_rows_foreign:
  "\<forall>(i, r) \<in> set rows. foreign_key a i s \<Longrightarrow> borrow_rows a (fst (reduce_rows price rows remaining s)) = borrow_rows a s"
proof (induction rows arbitrary: remaining s)
  case (Cons x rows)
  obtain i r where x: "x = (i, r)" by fastforce
  show ?case
  proof (cases "pay_borrow (price i) i r remaining s")
    case (Inr y)
    obtain r' s' where y: "y = (r', s')" by fastforce
    have k: "borrow_rows a s' = borrow_rows a s" "\<forall>j. foreign_key a j s \<longrightarrow> foreign_key a j s'"
      using pay_borrow_foreign [of "price i" i r remaining s r' s' a] Inr y Cons.prems x by auto
    have "\<forall>(j, q) \<in> set rows. foreign_key a j s'" using k(2) Cons.prems x by auto
    with Cons.IH [of s' r'] k(1) Inr x y show ?thesis by simp
  qed (simp add: x)
qed simp

lemma reduce_foreign: "margin_ok s \<Longrightarrow> b \<noteq> a \<Longrightarrow> borrow_rows a (fst (reduce_debt price b v s)) = borrow_rows a s"
  unfolding reduce_debt_def by (rule reduce_rows_foreign) (auto intro: foreign_rows)

lemma settle_foreign:
  assumes "margin_ok s" "b \<noteq> a"
  shows "borrow_rows a (fst (settle_account p2 p3 p4 b cfg h s)) = borrow_rows a s"
proof -
  let ?s2 = "fst (seize_collateral p2 b (snd (liquidation_amounts cfg h)) s)"
  have same: "borrow_rows a u = borrow_rows a t" if "md_borrows u = md_borrows t" for u t using that by (simp add: borrow_rows_def)
  have 2: "borrow_rows a ?s2 = borrow_rows a s" by (rule same) simp
  have "margin_ok ?s2" using seize_collateral_ok [OF assms(1)] .
  from reduce_foreign [OF this assms(2)] 2 show ?thesis
    by (auto simp: settle_account_def case_prod_beta same [OF close_if_cleared_rows(2)] split: option.split)
qed

lemma liquidate_foreign:
  assumes "margin_ok s" "b \<noteq> a"
  shows "borrow_rows a (fst (liquidate pow now p1 p2 p3 p4 b s)) = borrow_rows a s"
proof -
  have "borrow_rows a s1 = borrow_rows a s" "margin_ok s1" if "accrue_interest pow b cfg now s = (s1, e)" for cfg s1 e
    using accrue_foreign [OF assms, of pow cfg now] accrue_interest_ok [OF assms(1), of pow b cfg now] that by simp_all
  then show ?thesis using settle_foreign [OF _ assms(2)]
    by (auto simp: liquidate_def split: option.split sum.split prod.split)
qed

lemma view_foreign:
  assumes "margin_ok s" "b \<noteq> a"
  shows "borrow_rows a (fst (get_account_view pow price now user b s)) = borrow_rows a s"
  using accrue_foreign [OF assms, of pow _ now]
  by (auto simp: get_account_view_def case_prod_beta split: option.split sum.split)

lemma find_foreign: "margin_ok s \<Longrightarrow> find_borrow b asset s = Some (i, r) \<Longrightarrow> b \<noteq> a \<Longrightarrow> foreign_key a i s"
  using find_borrow_row [of b asset s i r] by (intro foreign_rows [where r = r and b = b]) (auto simp: borrow_rows_def)

lemma borrow_foreign:
  assumes "margin_ok s" "b \<noteq> a"
  shows "borrow_rows a (fst (borrow pow p0 price now user b asset amount new_id s s)) = borrow_rows a s"
proof (cases "plan_borrow pow p0 price now user b asset amount new_id s")
  case (Inr f)
  then obtain v cfg where st: "store_borrow pow cfg now b (to_upper (trim_space asset)) v new_id s = Inr f"
    by (auto simp: plan_borrow_def Let_def split: if_splits)
  have "borrow_rows a (f s) = borrow_rows a s"
  proof (cases "find_borrow b (to_upper (trim_space asset)) s")
    case None
    then show ?thesis using st assms(2) by (auto simp: store_borrow_def borrow_rows_def insert_row_def filter_insort_triv)
  next
    case (Some x)
    obtain i r where x: "x = (i, r)" by fastforce
    from st Some x write_foreign(1) [OF find_foreign [OF assms(1) Some [unfolded x] assms(2)]]
    show ?thesis by (auto simp: store_borrow_def)
  qed
  with Inr show ?thesis by (simp add: borrow_def apply_write_def)
qed (simp add: borrow_def apply_write_def)

lemma repay_foreign:
  assumes "margin_ok s" "b \<noteq> a"
  shows "borrow_rows a (fst (repay user b asset amount s s)) = borrow_rows a s"
proof (cases "plan_repay user b asset amount s")
  case (Inr f)
  then obtain i r where r: "find_borrow b (to_upper (trim_space asset)) s = Some (i, r)"
    by (auto simp: plan_repay_def split: option.splits)
  with Inr write_foreign(1) [OF find_foreign [OF assms(1) r assms(2)]] drop_foreign(1) [OF find_foreign [OF assms(1) r assms(2)]]
  show ?thesis by (auto simp: repay_def apply_write_def plan_repay_def split: if_splits)
qed (simp add: repay_def apply_write_def)

lemma account_borrows [simp]:
  "md_borrows (fst (open_account user pair requested new_id s0 s)) = md_borrows s"
  "md_borrows (fst (deposit_collateral price user b asset amount new_id s0 s)) = md_borrows s"
  by (auto simp: open_account_def deposit_collateral_def apply_write_def plan_deposit_def store_collateral_def Let_def
      split: sum.split if_splits option.splits)

lemma quiet_step_rows:
  assumes "quiet_step pow a x y" "margin_ok (snd x)"
  shows "margin_ok (snd y) \<and> borrow_rows a (snd y) = borrow_rows a (snd x) \<and> fst x \<le> fst y"
  using assms
proof (induction rule: quiet_step.induct)
  case (quiet_listings t n s listings)
  then show ?case by (simp add: margin_ok_def borrow_rows_def)
next
  case (quiet_account t n new_id s user pair requested)
  have "borrow_rows a (fst (open_account user pair requested new_id s s)) = borrow_rows a s" by (simp add: borrow_rows_def)
  with quiet_account show ?case by (simp add: open_account_ok)
next
  case (quiet_deposit t n new_id s price user b asset amount)
  have "borrow_rows a (fst (deposit_collateral price user b asset amount new_id s s)) = borrow_rows a s" by (simp add: borrow_rows_def)
  with quiet_deposit show ?case by (simp add: deposit_collateral_ok)
qed (simp_all add: borrow_ok borrow_foreign repay_ok repay_foreign get_account_view_ok view_foreign liquidate_ok liquidate_foreign)

lemma quiet_run_rows:
  assumes "(quiet_step pow a)\<^sup>*\<^sup>* x y" "margin_ok (snd x)"
  shows "margin_ok (snd y) \<and> borrow_rows a (snd y) = borrow_rows a (snd x) \<and> fst x \<le> fst y"
  using assms by (induction rule: rtranclp_induct) (use quiet_step_rows in fastforce)+

lemma find_borrow_rows: "find_borrow a asset s = find (\<lambda>(_, b). mb_asset b = asset) (borrow_rows a s)"
proof -
  have "find (\<lambda>(_, b). mb_account b = a \<and> mb_asset b = asset) t = find (\<lambda>(_, b). mb_asset b = asset) (filter (\<lambda>(_, b). mb_account b = a) t)"
    for t :: "(uuid \<times> margin_borrow) list" by (induction t) auto
  then show ?thesis by (simp add: find_borrow_def borrow_rows_def)
qed

text \<open>A granted loan in an asset that was not owed is one new row, without interest.\<close>

lemma fresh_loan:
  assumes "borrow pow p0 price now user a asset amount new_id s s = (s', None)" "find_borrow a (to_upper (trim_space asset)) s = None"
  obtains v b where "money amount = Inr v" "column (mb_principal b) = Inr v" "column (mb_interest b) = Inr 0"
    "mb_account b = a" "mb_asset b = to_upper (trim_space asset)" "s' = s\<lparr>md_borrows := insert_row new_id b (md_borrows s)\<rparr>"
    "find_borrow a (to_upper (trim_space asset)) s' = Some (new_id, b)"
proof -
  let ?n = "to_upper (trim_space asset)"
  obtain f where f: "plan_borrow pow p0 price now user a asset amount new_id s = Inr f" "s' = f s"
    using assms(1) by (auto simp: borrow_def apply_write_def split: sum.splits)
  obtain v cfg where v: "money amount = Inr v" and st: "store_borrow pow cfg now a ?n v new_id s = Inr f"
    using f(1) by (auto simp: plan_borrow_def Let_def split: if_splits)
  let ?b = "\<lparr>mb_account = a, mb_asset = ?n, mb_principal = amount_value_string v, mb_interest = ''0'', mb_accrued = now\<rparr>"
  have s': "s' = s\<lparr>md_borrows := insert_row new_id ?b (md_borrows s)\<rparr>" using st f(2) assms(2) by (auto simp: store_borrow_def)
  have "find P (insort_key fst (k, x) t) = Some (k, x)" if "P (k, x)" "find P t = None"
    for P and k :: uuid and x :: margin_borrow and t using that by (induction t) (auto split: if_splits)
  then have "find_borrow a ?n s' = Some (new_id, ?b)" using assms(2) by (simp add: find_borrow_def s' insert_row_def)
  moreover have "parse_decimal ''0'' = Some 0" by code_simp
  then have "column (mb_principal ?b) = Inr v" "column (mb_interest ?b) = Inr 0"
    using written_exact [OF money_eight(1) [OF v]] by (simp_all add: column_def)
  ultimately show thesis using v s' that [of v ?b] by simp
qed


section \<open>Collateral stays where it is\<close>

text \<open>Everything but a liquidation, the requests served one at a time: each reads and writes in one state.\<close>

inductive margin_step :: "(f64 \<Rightarrow> f64 \<Rightarrow> f64) \<Rightarrow> margin_db \<Rightarrow> margin_db \<Rightarrow> bool" for pow where
  step_listings: "margin_step pow s (s\<lparr>md_markets := listings\<rparr>)"
| step_account: "new_id \<notin> fst ` set (md_accounts s) \<Longrightarrow> margin_step pow s (fst (open_account user pair requested new_id s s))"
| step_deposit: "new_id \<notin> fst ` set (md_collateral s) \<Longrightarrow> margin_step pow s (fst (deposit_collateral price user a asset amount new_id s s))"
| step_borrow: "new_id \<notin> fst ` set (md_borrows s) \<Longrightarrow> margin_step pow s (fst (borrow pow p0 price now user a asset amount new_id s s))"
| step_repay: "margin_step pow s (fst (repay user a asset amount s s))"
| step_view: "margin_step pow s (fst (get_account_view pow price now user a s))"
| step_scan: "margin_step pow s (fst (liquidatable_accounts pow now price s))"

lemma write_borrow_collateral [simp]: "md_collateral (write_borrow i f s) = md_collateral s" "md_collateral (drop_borrow i s) = md_collateral s"
  by (simp_all add: write_borrow_def drop_borrow_def)

lemma accrue_collateral [simp]: "md_collateral (fst (accrue_interest pow a cfg now s)) = md_collateral s"
proof -
  have "md_collateral (fst (accrue_rows pow cfg now rows s)) = md_collateral s" for rows
    by (induction pow cfg now rows s rule: accrue_rows.induct) (auto split: sum.split option.split)
  then show ?thesis by (simp add: accrue_interest_def)
qed

lemma accrue_collateral_pair: "accrue_interest pow a cfg now s = (t, e) \<Longrightarrow> md_collateral t = md_collateral s"
  using accrue_collateral [of pow a cfg now s] by simp

lemma borrow_collateral [simp]: "md_collateral (fst (borrow pow p0 price now user a asset amount new_id s0 s)) = md_collateral s"
  by (auto simp: borrow_def apply_write_def plan_borrow_def store_borrow_def Let_def split: sum.split if_splits option.splits)

lemma repay_collateral [simp]: "md_collateral (fst (repay user a asset amount s0 s)) = md_collateral s"
  by (auto simp: repay_def apply_write_def plan_repay_def split: sum.split if_splits option.splits)

lemma view_collateral [simp]: "md_collateral (fst (get_account_view pow price now user a s)) = md_collateral s"
proof (cases "owned_account user a s")
  case (Inr cfg)
  then show ?thesis
    by (cases "accrue_interest pow a cfg now s")
      (simp add: get_account_view_def accrue_collateral_pair split: sum.split option.split)
qed (simp add: get_account_view_def)

lemma scan_collateral [simp]: "md_collateral (fst (liquidatable_accounts pow now price s)) = md_collateral s"
proof -
  have "md_collateral (fst (scan_account pow now price x st)) = md_collateral (fst st)" for x st
    by (auto simp: scan_account_def case_prod_beta split: sum.split option.split)
  then have "md_collateral (fst (fold (scan_account pow now price) xs st)) = md_collateral (fst st)" for xs st
    by (induction xs arbitrary: st) simp_all
  then show ?thesis by (simp add: liquidatable_accounts_def)
qed

lemma deposit_row:
  assumes "margin_ok s" "map_of (md_collateral s) i = Some c" "new_id \<notin> fst ` set (md_collateral s)"
  shows "\<exists>c'. map_of (md_collateral (fst (deposit_collateral price user a asset amount new_id s s))) i = Some c'
    \<and> mc_account c' = mc_account c \<and> mc_asset c' = mc_asset c \<and> worth (mc_amount c) \<le> worth (mc_amount c')"
proof (cases "plan_deposit price user a asset amount new_id s")
  case (Inr f)
  then obtain v where v: "money amount = Inr v" and st: "store_collateral a (to_upper (trim_space asset)) v new_id s = Inr f"
    by (auto simp: plan_deposit_def Let_def split: if_splits)
  have i: "i \<noteq> new_id" using map_of_known [OF assms(2)] assms(3) by auto
  show ?thesis
  proof (cases "find_collateral a (to_upper (trim_space asset)) s")
    case None
    then show ?thesis using st Inr i assms(2,3)
      by (auto simp: deposit_collateral_def apply_write_def store_collateral_def table_facts)
  next
    case (Some x)
    obtain j d where x: "x = (j, d)" by fastforce
    have d: "(j, d) \<in> set (md_collateral s)" using find_collateral_row [of a _ s j d] Some x by blast
    then have m: "money_text (mc_amount d)" using assms(1) by (auto simp: margin_ok_def)
    have e: "eight_places (worth (mc_amount d) + v)" using column_money [OF m] money_eight(1) [OF v] eight_places_add by blast
    have "j = i \<Longrightarrow> d = c" using d assms(1,2) by (auto simp: margin_ok_def)
    moreover have "0 < v" by (rule money_eight(2) [OF v])
    moreover have "md_collateral (fst (deposit_collateral price user a asset amount new_id s s))
        = update_row j (mc_amount_update (\<lambda>_. amount_value_string (worth (mc_amount d) + v))) (md_collateral s)"
      using st Inr Some x column_money [OF m] by (auto simp: deposit_collateral_def apply_write_def store_collateral_def)
    ultimately show ?thesis using assms(2) worth_exact [OF e] by (cases "j = i") (simp_all add: update_row_map_of)
  qed
qed (use assms in \<open>simp add: deposit_collateral_def apply_write_def\<close>)

lemma margin_step_ok: "margin_step pow s t \<Longrightarrow> margin_ok s \<Longrightarrow> margin_ok t"
  by (induction rule: margin_step.induct)
    (auto simp: open_account_ok deposit_collateral_ok borrow_ok repay_ok get_account_view_ok liquidatable_accounts_ok, simp add: margin_ok_def)

lemma margin_step_row:
  assumes "margin_step pow s t" "margin_ok s" "map_of (md_collateral s) i = Some c"
  shows "\<exists>c'. map_of (md_collateral t) i = Some c' \<and> mc_account c' = mc_account c \<and> mc_asset c' = mc_asset c
    \<and> worth (mc_amount c) \<le> worth (mc_amount c')"
  using assms
proof cases
  case (step_account new_id user pair requested)
  then have "md_collateral t = md_collateral s" by (simp add: open_account_def Let_def split: sum.split)
  with assms(3) show ?thesis by simp
qed (use assms deposit_row in \<open>auto\<close>)

text \<open>C40: Collateral goes one way: requests that are served one at a time, by the owner or by anybody else, whatever they are
  but liquidations, never lower an amount of collateral. There is no request that gives any of it back, not even when
  the account owes nothing. (Deposits that overlap can lose one of them: \<open>concurrent_deposits_lose_one\<close>.)\<close>

theorem collateral_cannot_be_withdrawn:
  assumes "(margin_step pow)\<^sup>*\<^sup>* s t" and "margin_ok s" and "map_of (md_collateral s) i = Some c"
  shows "\<exists>c'. map_of (md_collateral t) i = Some c' \<and> mc_account c' = mc_account c \<and> mc_asset c' = mc_asset c
    \<and> worth (mc_amount c) \<le> worth (mc_amount c')"
proof -
  have "margin_ok t \<and> (\<exists>c'. map_of (md_collateral t) i = Some c' \<and> mc_account c' = mc_account c \<and> mc_asset c' = mc_asset c
    \<and> worth (mc_amount c) \<le> worth (mc_amount c'))"
    using assms
  proof (induction rule: rtranclp_induct)
    case (step t u)
    then obtain c' where c': "map_of (md_collateral t) i = Some c'" "mc_account c' = mc_account c" "mc_asset c' = mc_asset c"
      "worth (mc_amount c) \<le> worth (mc_amount c')" and ok: "margin_ok t" by blast
    from margin_step_row [OF step.hyps(2) ok c'(1)] margin_step_ok [OF step.hyps(2) ok] c'(2-4) show ?case by fastforce
  qed simp
  then show ?thesis by blast
qed

section \<open>Interest\<close>

lemma floor_small:
  fixes x :: rat
  assumes "0 \<le> x" "x < 1 / 10 ^ 8"
  shows "\<lfloor>(of_int n / 10 ^ 8 + x) * 10 ^ 8\<rfloor> = (n :: int)"
proof -
  have "(of_int n / 10 ^ 8 + x) * 10 ^ 8 = of_int n + x * (10 ^ 8 :: rat)" by (simp add: algebra_simps)
  moreover have "0 \<le> x * 10 ^ 8" "x * 10 ^ 8 < 1" using assms by (simp_all add: pos_less_divide_eq)
  ultimately show ?thesis by (simp add: floor_eq_iff)
qed

text \<open>What one accrual adds is cut off below the eighth place, and the clock of the loan starts again.\<close>

lemma small_growth_is_forgotten:
  assumes "borrow_money b" "0 < time_sub now (mb_accrued b)" "usable (growth_factor pow cfg (time_sub now (mb_accrued b))) = Inr g"
    "1 \<le> g" "loan_owed b * (g - 1) < 1 / 10 ^ 8"
  shows "\<exists>t. accrued pow cfg now b = Inr (Some t) \<and> worth t = worth (mb_interest b)"
proof -
  note c = borrow_columns [OF assms(1)]
  let ?p = "worth (mb_principal b)" and ?i = "worth (mb_interest b)"
  obtain n where n: "0 \<le> n" "?i = of_int n / 10 ^ 8" using c(4) by (auto simp: eight_places_def)
  have x: "0 \<le> loan_owed b * (g - 1)" using assms(4) c(5,6) by (simp add: loan_owed_def)
  have e: "(?p + ?i) * g - ?p = of_int n / 10 ^ 8 + loan_owed b * (g - 1)"
    unfolding n(2) [symmetric] by (simp add: loan_owed_def algebra_simps)
  have pos: "0 \<le> (?p + ?i) * g - ?p" unfolding e using n(1) x by simp
  have "\<lfloor>((?p + ?i) * g - ?p) * 10 ^ 8\<rfloor> = n" unfolding e by (rule floor_small [OF x assms(5)])
  then have "parse_decimal (amount_value_string ((?p + ?i) * g - ?p)) = Some (of_int n / 10 ^ 8)"
    using written [OF pos] by (simp only:)
  then have "worth (amount_value_string ((?p + ?i) * g - ?p)) = ?i" unfolding n(2) by (simp add: worth_def)
  moreover have "max 0 ((?p + ?i) * g - ?p) = (?p + ?i) * g - ?p" using pos by simp
  ultimately show ?thesis using assms(2,3) c(1,2) by (simp add: accrued_def Let_def)
qed

definition forgets :: "(f64 \<Rightarrow> f64 \<Rightarrow> f64) \<Rightarrow> margin_config \<Rightarrow> time \<Rightarrow> margin_borrow \<Rightarrow> bool" where
  "forgets pow cfg now b \<longleftrightarrow> 0 < time_sub now (mb_accrued b)
     \<and> (\<exists>g. usable (growth_factor pow cfg (time_sub now (mb_accrued b))) = Inr g \<and> 1 \<le> g \<and> loan_owed b * (g - 1) < 1 / 10 ^ 8)"

lemma accrue_rows_forget:
  assumes "\<forall>(j, b) \<in> set rows. borrow_money b \<and> forgets pow cfg now b \<and> (j = i \<longrightarrow> b = b0)"
    and "map_of (md_borrows s) i = Some q" "mb_principal q = mb_principal b0" "worth (mb_interest q) = worth (mb_interest b0)"
    and "mb_accrued q = now \<or> i \<in> fst ` set rows"
  shows "snd (accrue_rows pow cfg now rows s) = None \<and> (\<exists>q'. map_of (md_borrows (fst (accrue_rows pow cfg now rows s))) i = Some q'
    \<and> mb_principal q' = mb_principal b0 \<and> worth (mb_interest q') = worth (mb_interest b0) \<and> mb_accrued q' = now)"
  using assms
proof (induction rows arbitrary: s q)
  case (Cons x rows)
  obtain j b where x: "x = (j, b)" by fastforce
  then obtain t where t: "accrued pow cfg now b = Inr (Some t)" "worth t = worth (mb_interest b)"
    using small_growth_is_forgotten [of b now pow cfg] Cons.prems(1) by (auto simp: forgets_def)
  let ?s = "write_borrow j (set_interest t now) s" and ?q = "if i = j then set_interest t now q else q"
  have q: "map_of (md_borrows ?s) i = Some ?q" using Cons.prems(2) by (cases "i = j") (simp_all add: write_borrow_def update_row_map_of)
  have "mb_principal ?q = mb_principal b0" "worth (mb_interest ?q) = worth (mb_interest b0)"
    "mb_accrued ?q = now \<or> i \<in> fst ` set rows"
    using Cons.prems x t(2) by (auto simp: set_interest_def)
  from Cons.IH [OF _ q this] Cons.prems(1) show ?case by (simp add: x t(1))
qed auto

text \<open>Interest that is too small for the eighth place is forgotten and the clock starts again: when the growth since the last
  accrual adds less than one unit to a debt, an accrual succeeds, leaves the debt where it was and moves the date.
  Every view of the account accrues, so a borrower who looks often enough pays nothing.\<close>

theorem frequent_views_cost_no_interest:
  assumes "margin_ok s" and "\<forall>(i, b) \<in> set (borrow_rows a s). forgets pow cfg now b"
    and "map_of (md_borrows s) i = Some b" and "mb_account b = a"
  shows "snd (accrue_interest pow a cfg now s) = None \<and> (\<exists>b'. map_of (md_borrows (fst (accrue_interest pow a cfg now s))) i = Some b'
    \<and> loan_owed b' = loan_owed b \<and> mb_accrued b' = now)"
proof -
  have u: "(i, c) \<in> set (md_borrows s) \<Longrightarrow> c = b" for c
    using assms(1,3) map_of_is_SomeI [of "md_borrows s" i c] by (simp add: margin_ok_def)
  have "\<forall>(j, c) \<in> set (borrow_rows a s). borrow_money c \<and> forgets pow cfg now c \<and> (j = i \<longrightarrow> c = b)"
    using assms(1,2) u by (auto simp: margin_ok_def borrow_rows_def)
  moreover have "i \<in> fst ` set (borrow_rows a s)"
    using assms(3,4) by (force simp: borrow_rows_def dest: map_of_SomeD)
  ultimately show ?thesis
    using accrue_rows_forget [of "borrow_rows a s" pow cfg now i b s b] assms(3) by (auto simp: accrue_interest_def loan_owed_def)
qed

end
