(* ===== verification/Margin_Ltv.thy ===== *)
theory Margin_Ltv
  imports Margin_Props
begin

text \<open>
  The risk check of a loan. The values of the collateral and of the debts are sums of rounded products in \<open>float64\<close>;
  the lemmas bound the error of such a sum and of its shortest decimal, and the theorem says what the check
  guarantees for the exact values.
\<close>

section \<open>Loan to value\<close>

definition tame_feed :: "price_feed \<Rightarrow> bool" where
  "tame_feed price \<longleftrightarrow> (\<forall>symbol usd. price symbol = Some usd \<longrightarrow> (\<exists>m. usd = Fin False m \<and> round_mag m = m \<and> pow2 (- 800) \<le> m))"

definition unit_price :: "price_feed \<Rightarrow> string \<Rightarrow> rat" where
  "unit_price price asset = (case price_value price asset of Inl _ \<Rightarrow> 0 | Inr usd \<Rightarrow> usd)"

text \<open>The exact value of a list of holdings, and the lists that the lemmas are about.\<close>

definition exact_value :: "valued_row list \<Rightarrow> rat" where
  "exact_value xs = (\<Sum>(price, asset, v)\<leftarrow>xs. case v of Inl _ \<Rightarrow> 0 | Inr v \<Rightarrow> v * unit_price price asset)"

definition tame_rows :: "valued_row list \<Rightarrow> bool" where
  "tame_rows xs \<longleftrightarrow> (\<forall>(price, asset, v) \<in> set xs. tame_feed price \<and> (\<exists>w. v = Inr w \<and> eight_places w))"

lemma tame_rows_Cons: "tame_rows (y # xs) \<Longrightarrow>
    \<exists>price asset w. y = (price, asset, Inr w) \<and> tame_feed price \<and> eight_places w \<and> tame_rows xs"
  by (cases y) (auto simp: tame_rows_def)

lemma price_value_tame:
  assumes "price_value price asset = Inr p" "tame_feed price"
  shows "pow2 (- 801) \<le> p"
proof -
  obtain x where x: "price (to_upper (trim_space asset)) = Some x" "usable x = Inr p"
    using assms(1) by (auto simp: price_value_def asset_price_def split: option.splits if_splits)
  then obtain m where m: "x = Fin False m" "round_mag m = m" "pow2 (- 800) \<le> m" using assms(2) by (auto simp: tame_feed_def)
  have "pow2 (- 900) \<le> m" using m(3) pow2_mono [of "- 900" "- 800"] by simp
  from shortest_near(1) [OF m(2) this] have "m - 2 * (m * eps) \<le> p" using x(2) m(1) by (simp add: usable_def)
  moreover have "0 \<le> m" using m(3) pow2_pos [of "- 800"] by linarith
  then have "m * eps \<le> m * (1 / 4)" using eps_small by (intro mult_left_mono) simp_all
  moreover have "pow2 (- 801) * 2 = pow2 (- 800)" by (simp add: pow2_def)
  ultimately show ?thesis using m(3) by simp
qed

lemma value_normal:
  assumes "pow2 (- 801) \<le> p" "1 / 10 ^ 8 \<le> v"
  shows "pow2 (- 1022) \<le> v * p" "pow2 (- 890) \<le> v * p" "pow2 (- 900) \<le> v * p"
proof -
  have "pow2 (- 890) \<le> 1 / 10 ^ 8 * pow2 (- 801)"
  proof -
    have "pow2 (- 890) = pow2 (- 89) * pow2 (- 801)" by (simp flip: pow2_add)
    moreover have "pow2 (- 89) \<le> 1 / 10 ^ 8" using pow2_mono [of "- 89" "- 27"] by (simp add: pow2_def [of "- 27"])
    ultimately show ?thesis by (simp add: mult_right_mono)
  qed
  also have "\<dots> \<le> v * p" using assms by (intro mult_mono) simp_all
  finally show l: "pow2 (- 890) \<le> v * p" .
  show "pow2 (- 1022) \<le> v * p" "pow2 (- 900) \<le> v * p"
    using l pow2_mono [of "- 1022" "- 890"] pow2_mono [of "- 900" "- 890"] by simp_all
qed

text \<open>Rounding twice is rounding once.\<close>

lemma round_mag_scaled:
  assumes "0 < n" "n \<le> 2 ^ 53" "- 1074 \<le> e"
  shows "round_mag (of_int n * pow2 e) = of_int n * pow2 e"
proof (cases "n = 2 ^ 53")
  case True
  have "of_int n * pow2 e = pow2 (e + 53)" using True by (simp add: pow2_add pow2_def [of 53])
  moreover have "lead_exp (pow2 (e + 53)) = e + 53" by (rule lead_exp_eq) simp_all
  then have "pow2 (e + 53) = of_int (2 ^ 52) * pow2 (ulp_exp (pow2 (e + 53)))"
    using assms(3) by (simp add: ulp_exp_def pow2_add pow2_def [of 53] pow2_def [of 1] pow2_diff)
  from round_mag_exact [OF pow2_pos this] have "round_mag (pow2 (e + 53)) = pow2 (e + 53)" .
  ultimately show ?thesis by simp
next
  case False
  let ?r = "of_int n * pow2 e"
  have r: "0 < ?r" using assms(1) by simp
  have "of_int n < (of_int (2 ^ 53) :: rat)" using False assms(2) by (simp only: of_int_less_iff)
  then have "?r < pow2 53 * pow2 e" by (intro mult_strict_right_mono) (simp_all add: pow2_def [of 53])
  then have "?r < pow2 (e + 53)" by (simp add: pow2_add)
  then have u: "ulp_exp ?r \<le> e" using lead_exp_less [OF r, of "e + 53"] assms(3) by (simp add: ulp_exp_def)
  have "pow2 e = of_int (2 ^ nat (e - ulp_exp ?r)) * pow2 (ulp_exp ?r)"
  proof -
    have "pow2 e = pow2 (e - ulp_exp ?r) * pow2 (ulp_exp ?r)" by (simp flip: pow2_add)
    then show ?thesis using pow2_nat [of "e - ulp_exp ?r"] u by simp
  qed
  then have "?r = of_int (n * 2 ^ nat (e - ulp_exp ?r)) * pow2 (ulp_exp ?r)" by simp
  with r show ?thesis by (rule round_mag_exact)
qed

lemma round_mag_idem [simp]: "round_mag (round_mag m) = round_mag m"
proof (cases "0 < m")
  case True
  let ?n = "round_even (m / pow2 (ulp_exp m))"
  have m: "round_mag m = of_int ?n * pow2 (ulp_exp m)" using True by (simp add: round_mag_def)
  have "lead_exp m + 1 \<le> ulp_exp m + 53" by (simp add: ulp_exp_def)
  from pow2_mono [OF this] have "m < pow2 (ulp_exp m + 53)" using lead_exp_bounds(2) [OF True] by linarith
  then have "m / pow2 (ulp_exp m) \<le> of_int (2 ^ 53)" by (simp add: pow2_add pow2_def [of 53] pos_divide_le_eq mult.commute)
  then have n: "?n \<le> 2 ^ 53" using round_even_mono round_even_of_int by metis
  have "0 \<le> ?n" using True by (intro round_even_ge_0) simp
  then consider "?n = 0" | "0 < ?n" by linarith
  then show ?thesis
  proof cases
    case 2
    have "- 1074 \<le> ulp_exp m" by (simp add: ulp_exp_def)
    from round_mag_scaled [OF 2 n this] show ?thesis by (simp only: m)
  qed (simp add: m)
qed (simp add: round_mag_def)

text \<open>A sum that overflows stays unusable.\<close>

lemma add_values_inf: "add_values xs acc = Inr x \<Longrightarrow> is_inf acc \<or> is_nan acc \<Longrightarrow> is_inf x \<or> is_nan x"
proof (induction xs acc rule: add_values.induct)
  case (2 price asset amount rest acc)
  have "is_inf (f64_add acc u) \<or> is_nan (f64_add acc u)" for u using 2(4) by (cases acc; cases u) auto
  with 2 show ?case by (auto split: if_splits)
qed simp

lemma round_positive: "0 \<le> x \<Longrightarrow> f64_of_rat x = Fin False (round_mag x) \<or> f64_of_rat x = Infty False"
  by (simp add: f64_of_rat_def f64_round_def Let_def)

lemma grow: "0 \<le> x \<Longrightarrow> x \<le> x * (1 + eps)" and shrink: "0 \<le> x \<Longrightarrow> x * (1 - eps) \<le> x"
  using mult_left_mono [of 0 eps x] by (simp_all add: algebra_simps)

lemma eps_lt_1 [simp]: "eps < 1"
  using eps_small eps_bounds by linarith

text \<open>One addition of a rounded product.\<close>

lemma add_step:
  assumes "0 \<le> acc" "pow2 (- 900) \<le> w" "f64_add (Fin False acc) (f64_of_rat w) = Fin sg t"
  shows "\<not> sg" "0 \<le> t" "(acc + w) * (1 - eps) ^ 2 \<le> t" "t \<le> (acc + w) * (1 + eps) ^ 2"
proof -
  have w: "0 < w" "pow2 (- 1022) \<le> w" using assms(2) pow2_pos [of "- 900"] pow2_mono [of "- 1022" "- 900"] by linarith+
  let ?u = "round_mag w"
  have u: "w * (1 - eps) \<le> ?u" "?u \<le> w * (1 + eps)" using round_mag_near [OF w(2)] by (simp_all add: algebra_simps)
  have "f64_of_rat w \<noteq> Infty False" using assms(3) by auto
  then have fw: "f64_of_rat w = Fin False ?u" using round_positive [of w] w(1) by auto
  have half: "pow2 (- 1022) \<le> ?u"
  proof -
    have "w * (1 / 2) \<le> w * (1 - eps)" using w(1) eps_small by (intro mult_left_mono) simp_all
    moreover have "pow2 (- 1022) \<le> pow2 (- 900) * (1 / 2)" using pow2_m900 [of "1 / 2"] by simp
    ultimately show ?thesis using u(1) assms(2) by simp
  qed
  then have u0: "0 < ?u" using pow2_pos [of "- 1022"] by linarith
  have n: "pow2 (- 1022) \<le> acc + ?u" using half assms(1) by simp
  have "f64_add (Fin False acc) (Fin False ?u) = f64_of_rat (acc + ?u)" using u0 assms(1) by simp
  then have "f64_of_rat (acc + ?u) = Fin sg t" using assms(3) fw by simp
  then have t: "\<not> sg" "t = round_mag (acc + ?u)" using round_positive [of "acc + ?u"] u0 assms(1) by auto
  show "\<not> sg" "0 \<le> t" using t by simp_all
  have b: "(acc + ?u) * (1 - eps) \<le> t" "t \<le> (acc + ?u) * (1 + eps)" using round_mag_near [OF n] t(2) by (simp_all add: algebra_simps)
  have "(acc + w) * (1 - eps) ^ 2 = (acc + w) * (1 - eps) * (1 - eps)" by (simp add: power2_eq_square)
  also have "\<dots> \<le> (acc + ?u) * (1 - eps)"
    using shrink [OF assms(1)] u(1) by (intro mult_right_mono) (simp_all add: distrib_right less_imp_le)
  finally show "(acc + w) * (1 - eps) ^ 2 \<le> t" using b(1) by simp
  have "(acc + ?u) * (1 + eps) \<le> (acc + w) * (1 + eps) * (1 + eps)"
    using grow [OF assms(1)] u(2) by (intro mult_right_mono) (simp_all add: distrib_right)
  then show "t \<le> (acc + w) * (1 + eps) ^ 2" using b(2) by (simp add: power2_eq_square)
qed

lemma add_values_near:
  assumes "add_values xs (Fin False acc) = Inr (Fin sg r)" "0 \<le> acc" "tame_rows xs"
  shows "\<not> sg \<and> (acc + exact_value xs) * (1 - eps) ^ (2 * length xs) \<le> r
    \<and> r \<le> (acc + exact_value xs) * (1 + eps) ^ (2 * length xs) \<and> 0 \<le> exact_value xs"
  using assms
proof (induction xs arbitrary: acc)
  case (Cons y xs)
  obtain price asset w where y: "y = (price, asset, Inr w)" "eight_places w" and tame: "tame_feed price" "tame_rows xs"
    using tame_rows_Cons [OF Cons.prems(3)] by blast
  note w0 = eight_places_ge_0 [OF y(2)]
  let ?E = "exact_value xs" and ?n = "2 * length xs"
  show ?case
  proof (cases "w \<le> 0")
    case True
    then have w: "w = 0" using w0 by simp
    then have ih: "\<not> sg \<and> (acc + ?E) * (1 - eps) ^ ?n \<le> r \<and> r \<le> (acc + ?E) * (1 + eps) ^ ?n \<and> 0 \<le> ?E"
      using Cons.IH [of acc] Cons.prems y(1) w tame by simp
    have a: "0 \<le> acc + ?E" using ih Cons.prems(2) by simp
    have "(1 - eps) ^ (?n + 2) \<le> (1 - eps) ^ ?n" by (rule power_decreasing) (simp_all add: less_imp_le)
    then have "(acc + ?E) * (1 - eps) ^ (?n + 2) \<le> (acc + ?E) * (1 - eps) ^ ?n" using a by (intro mult_left_mono)
    moreover have "(1 + eps) ^ ?n \<le> (1 + eps) ^ (?n + 2)" by (rule power_increasing) simp_all
    then have "(acc + ?E) * (1 + eps) ^ ?n \<le> (acc + ?E) * (1 + eps) ^ (?n + 2)" using a by (intro mult_left_mono)
    ultimately show ?thesis using ih w y(1) by (simp add: exact_value_def)
  next
    case False
    obtain p where p: "price_value price asset = Inr p" using Cons.prems(1) y False by (auto simp: usd_value_def)
    let ?w = "w * p"
    have step: "add_values xs (f64_add (Fin False acc) (f64_of_rat ?w)) = Inr (Fin sg r)"
      using Cons.prems(1) y False p by (simp add: usd_value_def del: f64_add.simps)
    obtain n where n: "0 \<le> n" "w = of_int n / 10 ^ 8" using y(2) by (auto simp: eight_places_def)
    then have "1 / 10 ^ 8 \<le> w" using False by (cases "n = 0") (auto simp: divide_le_cancel)
    from value_normal [OF price_value_tame [OF p tame(1)] this] have nw: "pow2 (- 900) \<le> ?w" by simp
    then have w1: "0 < ?w" using pow2_pos [of "- 900"] by linarith
    obtain sg' t where t: "f64_add (Fin False acc) (f64_of_rat ?w) = Fin sg' t"
      using add_values_inf [OF step] by (cases "f64_add (Fin False acc) (f64_of_rat ?w)") auto
    note s = add_step [OF Cons.prems(2) nw t]
    have ih: "\<not> sg \<and> (t + ?E) * (1 - eps) ^ ?n \<le> r \<and> r \<le> (t + ?E) * (1 + eps) ^ ?n \<and> 0 \<le> ?E"
      using Cons.IH [of t] tame(2) step s(1,2) y t by simp
    then have E: "0 \<le> ?E" by blast
    have "?E * (1 - eps) ^ 2 \<le> ?E" using E mult_left_mono [of "(1 - eps) ^ 2" 1 ?E] power_le_one [of "1 - eps" 2] by (simp add: less_imp_le)
    then have lo: "(acc + ?w + ?E) * (1 - eps) ^ 2 \<le> t + ?E" using s(3) by (simp add: distrib_right)
    have "?E \<le> ?E * (1 + eps) ^ 2" using E mult_left_mono [of 1 "(1 + eps) ^ 2" ?E] one_le_power [of "1 + eps" 2] by simp
    then have hi: "t + ?E \<le> (acc + ?w + ?E) * (1 + eps) ^ 2" using s(4) by (simp add: distrib_right)
    have "(acc + ?w + ?E) * (1 - eps) ^ (?n + 2) = (acc + ?w + ?E) * (1 - eps) ^ 2 * (1 - eps) ^ ?n"
      by (simp add: power_add power2_eq_square)
    also have "\<dots> \<le> (t + ?E) * (1 - eps) ^ ?n" by (rule mult_right_mono [OF lo]) (simp add: less_imp_le)
    also have "\<dots> \<le> r" using ih by blast
    finally have low: "(acc + ?w + ?E) * (1 - eps) ^ (?n + 2) \<le> r" .
    have "(t + ?E) * (1 + eps) ^ ?n \<le> (acc + ?w + ?E) * (1 + eps) ^ 2 * (1 + eps) ^ ?n"
      by (rule mult_right_mono [OF hi]) simp
    also have "\<dots> = (acc + ?w + ?E) * (1 + eps) ^ (?n + 2)" by (simp add: power_add power2_eq_square)
    finally have "r \<le> (acc + ?w + ?E) * (1 + eps) ^ (?n + 2)" using ih by (meson order_trans)
    moreover have "exact_value (y # xs) = ?w + ?E" using p y by (simp add: exact_value_def unit_price_def)
    ultimately show ?thesis using low ih w1 E by (simp add: add.assoc del: power_Suc power_add)
  qed
qed (simp add: exact_value_def)

lemma power_slack:
  assumes "k \<le> 3000000"
  shows "1 - 1 / 10 ^ 9 / 2 \<le> (1 - eps) ^ k" "(1 + eps) ^ k * (1 - 1 / 10 ^ 9 / 2) \<le> 1"
proof -
  have b: "1 + of_nat k * (- eps) \<le> (1 + (- eps)) ^ k" by (rule Bernoulli_inequality) (simp add: less_imp_le)
  have "of_nat k * eps \<le> 3000000 * eps" using assms by (intro mult_right_mono) simp_all
  also have "\<dots> \<le> 1 / 10 ^ 9 / 2" using eps_bounds by simp
  finally have "of_nat k * eps \<le> 1 / 10 ^ 9 / 2" .
  with b show lo: "1 - 1 / 10 ^ 9 / 2 \<le> (1 - eps) ^ k" by simp
  have "(1 + eps) ^ k * (1 - 1 / 10 ^ 9 / 2) \<le> (1 + eps) ^ k * (1 - eps) ^ k" using lo by (intro mult_left_mono) simp_all
  also have "\<dots> = (1 - eps * eps) ^ k" by (simp add: algebra_simps flip: power_mult_distrib)
  also have "\<dots> \<le> 1" using eps_small mult_mono [of eps 1 eps 1] by (intro power_le_one) (simp_all add: less_imp_le)
  finally show "(1 + eps) ^ k * (1 - 1 / 10 ^ 9 / 2) \<le> 1" .
qed

text \<open>A sum is zero or well above the smallest normal number, and it is a \<open>float64\<close>.\<close>

lemma exact_value_big:
  assumes "add_values xs acc = Inr x" "tame_rows xs"
  shows "exact_value xs = 0 \<or> pow2 (- 890) \<le> exact_value xs"
  using assms
proof (induction xs arbitrary: acc)
  case (Cons y xs)
  obtain price asset w where y: "y = (price, asset, Inr w)" "eight_places w" and tame: "tame_feed price" "tame_rows xs"
    using tame_rows_Cons [OF Cons.prems(2)] by blast
  have e: "exact_value (y # xs) = w * unit_price price asset + exact_value xs" by (simp add: exact_value_def y(1))
  show ?case
  proof (cases "w \<le> 0")
    case True
    then have "w = 0" using eight_places_ge_0 [OF y(2)] by simp
    with Cons.IH [of acc] Cons.prems tame y(1) e show ?thesis by simp
  next
    case False
    then obtain p acc' where p: "price_value price asset = Inr p" "add_values xs acc' = Inr x"
      using Cons.prems(1) y by (auto simp: usd_value_def)
    obtain n where n: "0 \<le> n" "w = of_int n / 10 ^ 8" using y(2) by (auto simp: eight_places_def)
    then have "1 / 10 ^ 8 \<le> w" using False by (cases "n = 0") (auto simp: divide_le_cancel)
    from value_normal(2) [OF price_value_tame [OF p(1) tame(1)] this]
    have "pow2 (- 890) \<le> w * p" .
    moreover have "0 \<le> exact_value xs"
      using Cons.IH [OF p(2) tame(2)] pow2_pos [of "- 890"] by (auto simp del: pow2_pos)
    ultimately show ?thesis using e p(1) by (simp add: unit_price_def)
  qed
qed (simp add: exact_value_def)

lemma add_values_rounded:
  assumes "add_values xs (Fin False m) = Inr (Fin sg r)" "round_mag m = m" "0 \<le> m" "tame_rows xs"
  shows "round_mag r = r"
  using assms
proof (induction xs arbitrary: m)
  case (Cons y xs)
  obtain price asset w where y: "y = (price, asset, Inr w)" "eight_places w" and tame: "tame_feed price" "tame_rows xs"
    using tame_rows_Cons [OF Cons.prems(4)] by blast
  show ?case
  proof (cases "w \<le> 0")
    case False
    then obtain p where p: "price_value price asset = Inr p"
      and step: "add_values xs (f64_add (Fin False m) (f64_of_rat (w * p))) = Inr (Fin sg r)"
      using Cons.prems(1) y by (auto simp: usd_value_def simp del: f64_add.simps)
    have "0 \<le> p" using price_value_tame [OF p tame(1)] pow2_pos [of "- 801"] by linarith
    then have wp: "0 \<le> w * p" using False by simp
    have "is_inf (f64_add (Fin False m) (f64_of_rat (w * p))) \<or> (\<exists>t. f64_add (Fin False m) (f64_of_rat (w * p)) = Fin False t \<and> round_mag t = t \<and> 0 \<le> t)"
    proof (cases "f64_of_rat (w * p) = Infty False")
      case False
      let ?u = "round_mag (w * p)"
      have "f64_add (Fin False m) (f64_of_rat (w * p)) = (if m + ?u = 0 then Fin False 0 else f64_of_rat (m + ?u))"
        using round_positive [OF wp] False by simp
      then show ?thesis using round_positive [of "m + ?u"] Cons.prems(3) by auto
    qed simp
    then obtain t where t: "f64_add (Fin False m) (f64_of_rat (w * p)) = Fin False t" "round_mag t = t" "0 \<le> t"
      using add_values_inf [OF step] by auto
    with Cons.IH [of t] step tame(2) show ?thesis by simp
  qed (use Cons y tame in simp)
qed simp

text \<open>The value that a risk check computes is exact up to one part in two thousand million.\<close>

lemma computed_value_near:
  assumes "add_values xs (Fin False 0) = Inr x" "usable x = Inr r" "length xs \<le> 1000000"
    and tame: "tame_rows xs"
  shows "exact_value xs * (1 - 1 / 10 ^ 9 / 2) \<le> r" "r * (1 - 1 / 10 ^ 9 / 2) \<le> exact_value xs" "0 \<le> exact_value xs"
proof -
  let ?E = "exact_value xs" and ?n = "2 * length xs"
  obtain m where m: "x = Fin False m" "r = shortest m"
    using assms(2) by (cases x rule: rational_from_float.cases) (auto simp: usable_def)
  note near = add_values_near [OF assms(1) [unfolded m(1)] _ tame]
  have b: "?E * (1 - eps) ^ ?n \<le> m" "m \<le> ?E * (1 + eps) ^ ?n" and E: "0 \<le> ?E" using near by simp_all
  show "0 \<le> ?E" by (rule E)
  have "?E * (1 - 1 / 10 ^ 9 / 2) \<le> r \<and> r * (1 - 1 / 10 ^ 9 / 2) \<le> ?E"
  proof (cases "?E = 0")
    case True
    then show ?thesis using b m by (simp add: shortest_def)
  next
    case False
    have big: "pow2 (- 890) \<le> ?E" using exact_value_big [OF assms(1) tame] False by simp
    have "1 / 2 \<le> (1 - eps) ^ ?n" using power_slack(1) [of ?n] assms(3) by simp
    then have "?E * (1 / 2) \<le> m" using mult_left_mono [of "1 / 2" "(1 - eps) ^ ?n" ?E] E b(1) by linarith
    moreover have "pow2 (- 900) * 2 \<le> pow2 (- 890)" using pow2_mono [of "- 899" "- 890"] by (simp add: pow2_def [of "- 900"] pow2_def [of "- 899"])
    ultimately have "pow2 (- 900) \<le> m" using big by linarith
    moreover have "round_mag m = m" using add_values_rounded [OF assms(1) [unfolded m(1)] _ _ tame] by simp
    ultimately have s: "m * (1 - 2 * eps) \<le> r" "r \<le> m * (1 + 2 * eps)" using shortest_near [of m] m(2) by (simp_all add: algebra_simps)
    have m0: "0 \<le> m" using \<open>?E * (1 / 2) \<le> m\<close> E by linarith
    have k: "?n + 3 \<le> 3000000" using assms(3) by simp
    have lo: "(1 - eps) ^ 3 \<le> 1 - 2 * eps" and hi: "1 + 2 * eps \<le> (1 + eps) ^ 3"
    proof -
      have "eps * (eps * 3) \<le> eps * 1" using eps_small by (intro mult_left_mono) simp_all
      moreover have "0 \<le> eps * (eps * eps)" "0 \<le> eps * eps" by simp_all
      moreover have "(1 - eps) ^ 3 = 1 - 3 * eps + 3 * (eps * eps) - eps * (eps * eps)"
        "(1 + eps) ^ 3 = 1 + 3 * eps + 3 * (eps * eps) + eps * (eps * eps)" by (simp_all add: power3_eq_cube algebra_simps)
      ultimately show "(1 - eps) ^ 3 \<le> 1 - 2 * eps" "1 + 2 * eps \<le> (1 + eps) ^ 3" using eps_nonneg by linarith+
    qed
    have "?E * (1 - 1 / 10 ^ 9 / 2) \<le> ?E * (1 - eps) ^ (?n + 3)" using E power_slack(1) [OF k] by (intro mult_left_mono)
    also have "\<dots> = ?E * (1 - eps) ^ ?n * (1 - eps) ^ 3" by (simp add: power_add)
    also have "\<dots> \<le> m * (1 - 2 * eps)" using b(1) lo m0 by (intro mult_mono) (simp_all add: less_imp_le)
    finally have 1: "?E * (1 - 1 / 10 ^ 9 / 2) \<le> r" using s(1) by simp
    have "m * (1 + 2 * eps) \<le> ?E * (1 + eps) ^ ?n * (1 + eps) ^ 3" using b(2) hi m0 E by (intro mult_mono) simp_all
    then have "r \<le> ?E * (1 + eps) ^ (?n + 3)" using s(2) by (simp add: power_add)
    then have "r * (1 - 1 / 10 ^ 9 / 2) \<le> ?E * ((1 + eps) ^ (?n + 3) * (1 - 1 / 10 ^ 9 / 2))"
      using mult_right_mono [of r "?E * (1 + eps) ^ (?n + 3)" "1 - 1 / 10 ^ 9 / 2"] by (simp add: mult.assoc)
    also have "\<dots> \<le> ?E * 1" using E power_slack(2) [OF k] by (intro mult_left_mono)
    finally show ?thesis using 1 by simp
  qed
  then show "?E * (1 - 1 / 10 ^ 9 / 2) \<le> r" "r * (1 - 1 / 10 ^ 9 / 2) \<le> ?E" by simp_all
qed

definition collateral_value :: "row_feed \<Rightarrow> uuid \<Rightarrow> margin_db \<Rightarrow> rat" where
  "collateral_value price a s = (\<Sum>(i, c)\<leftarrow>collateral_rows a s. worth (mc_amount c) * unit_price (price i) (mc_asset c))"

definition debt_value :: "row_feed \<Rightarrow> uuid \<Rightarrow> margin_db \<Rightarrow> rat" where
  "debt_value price a s = (\<Sum>(i, b)\<leftarrow>borrow_rows a s. loan_owed b * unit_price (price i) (mb_asset b))"

lemma loan_debt_money: "borrow_money b \<Longrightarrow> loan_debt b = Inr (loan_owed b) \<and> eight_places (loan_owed b)"
  using borrow_columns [of b] eight_places_add by (simp add: loan_debt_def loan_owed_def)

lemma exact_rows:
  assumes "margin_ok s"
  shows "exact_value (collateral_values price a s) = collateral_value price a s"
    and "exact_value (debt_values price a s) = debt_value price a s"
proof -
  have "column (mc_amount c) = Inr (worth (mc_amount c))" if "(i, c) \<in> set (collateral_rows a s)" for i c
    using assms that column_money by (auto simp: margin_ok_def collateral_rows_def)
  then show "exact_value (collateral_values price a s) = collateral_value price a s"
    by (auto simp: exact_value_def collateral_value_def collateral_values_def comp_def case_prod_beta intro!: arg_cong [where f = sum_list] map_cong)
  have "loan_debt b = Inr (loan_owed b)" if "(i, b) \<in> set (borrow_rows a s)" for i b
    using assms that loan_debt_money by (auto simp: margin_ok_def borrow_rows_def)
  then show "exact_value (debt_values price a s) = debt_value price a s"
    by (auto simp: exact_value_def debt_value_def debt_values_def comp_def case_prod_beta intro!: arg_cong [where f = sum_list] map_cong)
qed

lemma tame_values:
  assumes "margin_ok s" "\<And>i. tame_feed (price i)"
  shows "tame_rows (collateral_values price a s)" "tame_rows (debt_values price a s)"
  using assms column_money loan_debt_money
  by (auto simp: tame_rows_def collateral_values_def debt_values_def margin_ok_def collateral_rows_def borrow_rows_def)

text \<open>C36: The risk check of a loan is computed in \<open>float64\<close> and yet exact up to one part in a thousand million: when a loan
  is granted, the exact value of the debt on record and of the new loan stays within the loan to value of the exact
  value of the collateral, for every account of at most a million rows and any prices of ordinary size, of which the
  oracle may give another one to every row. Collateral and debts are those that the request read
  (in \<open>s\<close>), whatever state \<open>t\<close> the loan is then stored in.\<close>

theorem loan_stays_within_ltv:
  assumes "margin_ok s" and "\<And>i. tame_feed (fst price i)" and "\<And>i. tame_feed (snd price i)" and "length (collateral_rows a s) \<le> 1000000" 
    and "length (borrow_rows a s) \<le> 1000000" and "borrow pow p0 price now user a asset amount new_id s t = (s', None)"
  shows "\<exists>cfg v ltv. owned_account user a s = Inr cfg \<and> money_value amount = Some v \<and> usable (mg_ltv cfg) = Inr ltv
    \<and> (debt_value (snd price) a s + v * unit_price p0 (to_upper (trim_space asset))) * (1 - 1 / 10 ^ 9)
      \<le> ltv * collateral_value (fst price) a s"
proof -
  let ?cs = "collateral_values (fst price) a s" and ?bs = "debt_values (snd price) a s"
  have n: "length ?cs \<le> 1000000" "length ?bs \<le> 1000000" using assms(4,5) by (simp_all add: collateral_values_def debt_values_def)
  obtain f where f: "plan_borrow pow p0 price now user a asset amount new_id s = Inr f"
    using assms(6) by (auto simp: borrow_def apply_write_def split: sum.splits)
  obtain cfg v bp h usd where cfg: "owned_account user a s = Inr cfg" and v: "money amount = Inr v"
    and bp: "asset_price p0 (to_upper (trim_space asset)) = Inr bp" "usable bp = Inr usd"
    and h: "compute_health price a cfg s = Inr h" and ltv: "within_ltv h cfg v usd = Inr ()"
    using f by (auto simp: plan_borrow_def Let_def split: if_splits)
  obtain l c d where l: "usable (mg_ltv cfg) = Inr l" and c: "usable (mh_collateral h) = Inr c" and d: "usable (mh_debt h) = Inr d"
    and le: "d + v * usd \<le> c * l"
    using ltv by (auto simp: within_ltv_def split: if_splits)
  have hc: "add_values ?cs (Fin False 0) = Inr (mh_collateral h)" and hd: "add_values ?bs (Fin False 0) = Inr (mh_debt h)"
    using h by (auto simp: compute_health_def Let_def)
  note nc = computed_value_near [OF hc c n(1) tame_values(1) [OF assms(1,2)], unfolded exact_rows(1) [OF assms(1)]]
  note nd = computed_value_near [OF hd d n(2) tame_values(2) [OF assms(1,3)], unfolded exact_rows(2) [OF assms(1)]]
  let ?C = "collateral_value (fst price) a s" and ?D = "debt_value (snd price) a s" and ?e = "1 - 1 / 10 ^ 9 / 2 :: rat"
  have C: "c * ?e \<le> ?C" and D: "?D * ?e \<le> d" "0 \<le> ?D" using nc nd by simp_all
  have l0: "0 \<le> l" using usable_ge_0 [OF l] .
  have "0 \<le> usd" using usable_ge_0 [OF bp(2)] .
  then have w: "0 \<le> v * usd" using money_eight(2) [OF v] by simp
  have "(v * usd) * ?e \<le> v * usd" by (rule mult_left_le) (simp, rule w)
  then have "(?D + v * usd) * ?e \<le> c * l" unfolding distrib_right using D(1) le by linarith
  then have "(?D + v * usd) * ?e * ?e \<le> c * l * ?e" by (rule mult_right_mono) simp
  also have "\<dots> \<le> l * ?C" using mult_left_mono [OF C l0] by (simp add: mult_ac)
  finally have 1: "(?D + v * usd) * (?e * ?e) \<le> l * ?C" by (simp add: mult.assoc)
  have "(?D + v * usd) * (1 - 1 / 10 ^ 9) \<le> (?D + v * usd) * (?e * ?e)" using D(2) w by (intro mult_left_mono) simp_all
  from order_trans [OF this 1] have 2: "(?D + v * usd) * (1 - 1 / 10 ^ 9) \<le> l * ?C" .
  have p: "unit_price p0 (to_upper (trim_space asset)) = usd" using bp by (simp add: unit_price_def price_value_def)
  have "money_value amount = Some v" using v by (auto simp: money_def split: option.splits)
  then show ?thesis using 2 cfg l unfolding p by blast
qed

end
