(* ===== verification/Perp_Examples.thy ===== *)
theory Perp_Examples
  imports Perp_Props
begin

text \<open>
  The perpetual engine on a concrete listing: one position is opened, marked down, flagged and liquidated. The
  witnesses of the properties of \<open>Perp_Props\<close>, and the behaviours at the edges of the engine.
\<close>

section \<open>A listing and its prices\<close>

definition eg_listing :: perps_listing where
  "eg_listing = \<lparr>pl_symbol = ''btc-usd'', pl_market_type = ''oracle'', pl_max_leverage = 10, pl_maker_fee = Fin False 0,
     pl_taker_fee = Fin False 0, pl_maintenance = Fin False 0, pl_liquidation_fee = Fin False (1 / 2),
     pl_max_open_interest = ''150'', pl_impact = Fin False 0, pl_status = ''active''\<rparr>"

definition eg_price :: "rat \<Rightarrow> price_feed" where
  "eg_price m = (\<lambda>_. Some (Fin False m))"

definition no_engine :: perp_engine where
  "no_engine = \<lparr>pe_positions = [], pe_orders = [], pe_markets = []\<rparr>"

definition eg_perp_market :: perp_market where
  "eg_perp_market = \<lparr>pm_symbol = ''BTC-USD'', pm_oracle = ''BTC'', pm_index = ''BTC'', pm_max_leverage = 10, pm_maker_fee = Fin False 0,
     pm_taker_fee = Fin False 0, pm_maintenance = Fin False 0, pm_liquidation_fee = Fin False (1 / 2),
     pm_max_open_interest = ''150'', pm_impact = Fin False 0, pm_funding_rate = default_funding_rate,
     pm_funding_interval = default_funding_interval, pm_funding_cap = default_funding_cap\<rparr>"

definition eg_perp_listed :: perp_engine where
  "eg_perp_listed = no_engine\<lparr>pe_markets := [(''BTC-USD'', eg_perp_market)]\<rparr>"

definition eg_position :: perp_position where
  "eg_position = \<lparr>pp_owner = ''ann'', pp_pair = ''BTC-USD'', pp_side = ''long'', pp_size = ''100'', pp_collateral = ''100'',
     pp_entry = Fin False 100, pp_mark = Fin False 100, pp_index = Fin False 100, pp_liquidation = Fin False 50, pp_leverage = 1,
     pp_pnl = ''0'', pp_funding = ''0'', pp_status = perp_open, pp_opened = 7, pp_closed = None\<rparr>"

definition eg_perp_opened :: perp_engine where
  "eg_perp_opened = eg_perp_listed\<lparr>pe_positions := [(''p1'', eg_position)]\<rparr>"

definition eg_flagged :: perp_engine where
  "eg_flagged = eg_perp_listed\<lparr>pe_positions :=
     [(''p1'', eg_position\<lparr>pp_mark := Fin False 40, pp_status := perp_liquidatable, pp_pnl := format_decimal (- 60) 8\<rparr>)]\<rparr>"

definition eg_liquidated :: perp_engine where
  "eg_liquidated = eg_perp_listed\<lparr>pe_positions :=
     [(''p1'', eg_position\<lparr>pp_mark := Fin False 40, pp_status := perp_liquidated, pp_pnl := format_decimal (- 60) 8, pp_closed := Some 9\<rparr>)]\<rparr>"

section \<open>The numbers\<close>

lemma round_mag_numeral [simp]: "(numeral n :: int) \<le> 9007199254740992 \<Longrightarrow> round_mag (numeral n) = numeral n"
  using round_mag_of_int [of "numeral n"] by simp

lemma round_mag_half [simp]: "round_mag (1 / 2) = 1 / 2"
proof -
  have "lead_exp (1 / 2) = - 1" by (rule lead_exp_eq) (simp_all add: pow2_def)
  then show ?thesis by (intro round_mag_exact [of _ "2 ^ 52"]) (simp_all add: ulp_exp_def pow2_def)
qed

lemma round_mag_1 [simp]: "round_mag 1 = 1"
  using round_mag_of_int [of 1] by simp

lemma pow2_1024_big [simp]: "x \<le> 18446744073709551616 \<Longrightarrow> \<not> pow2 1024 \<le> x"
  by (rule pow2_1024_gt)

lemma pow2_1024_double [simp]: "\<not> pow2 1024 * 2 \<le> 1"
  using pow2_1024_gt [of 1] pow2_pos [of 1024] by linarith

lemma eg_liquidation_price: "calculate_liquidation_price (Fin False 100) 1 True = Fin False 50"
  using f64_round_exact [of 50 False]
  by (simp add: calculate_liquidation_price_def f64_round_def f64_sub_def f64_of_rat_def Let_def)

lemma shortest_step: "0 < n \<Longrightarrow> shortest_from n k m =
    (case decimal_at k m of Some c \<Rightarrow> c | None \<Rightarrow> shortest_from (n - 1) (k + 1) m)"
  by (cases n) (simp_all split: option.split)

lemma shortest_100 [simp]: "shortest 100 = 100"
proof -
  have "nat_string 100 = ''100''" by code_simp
  moreover have "\<lceil>1 / 10 :: rat\<rceil> = 1" "\<lfloor>1 / 10 :: rat\<rfloor> = 0" by (simp_all add: ceiling_eq_iff floor_eq_iff)
  ultimately show ?thesis
    by (simp add: shortest_def shortest_step decimal_at_def decimal_below_def decimal_above_def pow10_def reads_as_def Let_def)
qed

lemma shortest_40 [simp]: "shortest 40 = 40"
proof -
  have "nat_string 40 = ''40''" by code_simp
  moreover have "\<lceil>2 / 5 :: rat\<rceil> = 1" "\<lfloor>2 / 5 :: rat\<rfloor> = 0" by (simp_all add: ceiling_eq_iff floor_eq_iff)
  ultimately show ?thesis
    by (simp add: shortest_def shortest_step decimal_at_def decimal_below_def decimal_above_def pow10_def reads_as_def Let_def)
qed

lemma shortest_half [simp]: "shortest (1 / 2) = 1 / 2"
proof -
  have "nat_string 0 = ''0''" by code_simp
  moreover have "\<lceil>1 / 20 :: rat\<rceil> = 1" "\<lceil>1 / 2 :: rat\<rceil> = 1" "\<lfloor>1 / 20 :: rat\<rfloor> = 0" "\<lfloor>1 / 2 :: rat\<rfloor> = 0"
    by (simp_all add: ceiling_eq_iff floor_eq_iff)
  ultimately show ?thesis
    by (simp add: shortest_def shortest_step decimal_at_def decimal_below_def decimal_above_def pow10_def reads_as_def Let_def)
qed

lemma eg_text: "parse_decimal ''100'' = Some 100" "parse_decimal ''150'' = Some 150" "perp_amount_value ''100'' = Some 100"
  by (code_simp, code_simp, code_simp)

lemma eg_pnl: "notional_pnl (Fin False 100) (Fin False 40) ''100'' ''long'' = Some (- 60)"
proof -
  show ?thesis by (simp add: notional_pnl_def eg_text long_is_not_short)
qed

lemma eg_refresh: "refresh_markets (\<lambda>_. None) True (Some []) (Some [eg_listing]) no_engine = (eg_perp_listed, None)"
proof -
  have "to_upper (trim_space ''btc-usd'') = ''BTC-USD''" "to_lower (trim_space ''oracle'') = ''oracle''"
    "oracle_base_from_symbol ''BTC-USD'' = ''BTC''" "trim_space ''150'' = ''150''" "clamp_leverage 10 = 10" by code_simp+
  then show ?thesis
    by (simp add: refresh_markets_def add_perps_def perps_market_config_def eg_listing_def eg_perp_listed_def eg_perp_market_def no_engine_def Let_def)
qed

lemma eg_perp_market_of: "pe_markets s = pe_markets eg_perp_listed \<Longrightarrow> market ''BTC-USD'' s = Some eg_perp_market"
proof -
  assume "pe_markets s = pe_markets eg_perp_listed"
  moreover have "to_upper (trim_space ''BTC-USD'') = ''BTC-USD''" by code_simp
  ultimately show ?thesis by (simp add: market_def eg_perp_listed_def no_engine_def)
qed

lemma eg_prices:
  assumes "pe_markets s = pe_markets eg_perp_listed" "0 < m"
  shows "get_mark_price (eg_price m) ''BTC-USD'' s = Inr (Fin False m)"
    and "get_index_price (eg_price m) ''BTC-USD'' s = Inr (Fin False m)"
  using assms by (simp_all add: get_mark_price_def get_index_price_def eg_perp_market_of oracle_price_def eg_price_def)

lemma eg_cap: "open_interest_cap eg_perp_market = Inr (Some 150)"
proof -
  have "trim_space ''150'' \<noteq> []" by code_simp
  then show ?thesis by (simp add: open_interest_cap_def eg_perp_market_def eg_text)
qed

lemma eg_fields [simp]:
  "pe_positions eg_perp_listed = []" "pm_max_leverage eg_perp_market = 10" "pm_liquidation_fee eg_perp_market = Fin False (1 / 2)"
  "pe_markets eg_perp_opened = pe_markets eg_perp_listed" "pe_markets eg_flagged = pe_markets eg_perp_listed"
  "pe_positions eg_perp_opened = [(''p1'', eg_position)]"
  by (simp_all add: eg_perp_listed_def no_engine_def eg_perp_market_def eg_perp_opened_def eg_flagged_def)

lemma eg_perp_open:
  "open_position (eg_price 100) (eg_price 100) 7 ''p1'' ''ann'' ''BTC-USD'' ''long'' ''100'' ''100'' 1 eg_perp_listed eg_perp_listed eg_perp_listed eg_perp_listed eg_perp_listed
   = (eg_perp_opened, Inr eg_position)"
  by (simp add: open_position_def new_position_def eg_perp_market_of eg_prices amount_of_def eg_text check_cap_def eg_cap open_interest_def
      eg_perp_opened_def eg_position_def eg_liquidation_price)

lemma eg_mark: "new_mark (eg_price 40) eg_perp_opened ''BTC-USD'' = Some (Fin False 40)"
  by (simp add: new_mark_def eg_prices eg_position_def position_is_live_def)

lemma eg_remark: "remark (new_mark (eg_price 40) eg_perp_opened) eg_position
    = eg_position\<lparr>pp_mark := Fin False 40, pp_status := perp_liquidatable, pp_pnl := format_decimal (- 60) 8\<rparr>"
  by (simp add: eg_mark remark_def eg_position_def position_is_live_def is_liquidatable_def calculate_pnl_def eg_pnl Let_def)

lemma eg_update: "update_positions (eg_price 40) eg_perp_opened eg_perp_opened = eg_flagged"
  by (simp add: update_positions_def eg_remark) (simp add: eg_perp_opened_def eg_flagged_def)

lemma eg_liquidate: "liquidate_position (eg_price 40) 9 ''p1'' eg_flagged eg_flagged eg_flagged eg_flagged = (eg_liquidated, Inr 20)"
proof -
  have c: "map_of (pe_positions eg_flagged) ''p1'' = Some (eg_position\<lparr>pp_mark := Fin False 40, pp_status := perp_liquidatable,
      pp_pnl := format_decimal (- 60) 8\<rparr>)" (is "_ = Some ?p") by (simp add: eg_flagged_def)
  have "settle_liquidation 9 (Fin False 40) eg_perp_market ''p1'' ?p eg_flagged = (eg_liquidated, Inr 20)"
    by (simp add: settle_liquidation_def Let_def is_liquidatable_def eg_position_def eg_text eg_pnl liquidation_payout_def
        put_position_def settled_def eg_flagged_def eg_liquidated_def)
  moreover have "pp_pair ?p = ''BTC-USD''" by (simp add: eg_position_def)
  ultimately show ?thesis by (simp add: liquidate_position_def c eg_perp_market_of eg_prices)
qed

section \<open>A run\<close>

lemma eg_ordinary:
  assumes "1 \<le> n" "n \<le> 9007199254740992"
  shows "ordinary_feed (eg_price (of_int n))"
proof -
  have "round_mag (of_int n) = of_int n" using assms by (intro round_mag_of_int) auto
  moreover have "pow2 (- 900) \<le> of_int n" using pow2_mono [of "- 900" 0] assms(1) by (simp add: pow2_def [of 0])
  moreover have "of_int n \<le> pow2 900" using pow2_mono [of 53 900] assms(2) by (simp add: pow2_def [of 53])
  ultimately show ?thesis by (simp add: ordinary_feed_def eg_price_def ordinary_def)
qed

lemma eg_run_listed: "perp_run [eg_perp_listed, no_engine]"
  using run_refresh [OF run_start, of "\<lambda>_. None" True "Some []" "Some [eg_listing]"] eg_refresh by (simp add: no_engine_def)

lemma eg_run_opened: "perp_run [eg_perp_opened, eg_perp_listed, no_engine]"
proof -
  from run_open [OF eg_run_listed, of eg_perp_listed eg_perp_listed eg_perp_listed eg_perp_listed "eg_price 100" "''p1''" "eg_price 100" 7 "''ann''" "''BTC-USD''" "''long''" "''100''" "''100''" 1]
  show ?thesis using eg_ordinary [of 100] by (simp add: eg_perp_open)
qed

lemma eg_run: "perp_run [eg_liquidated, eg_flagged, eg_perp_opened, eg_perp_listed, no_engine]"
proof -
  have f: "ordinary_feed (eg_price 40)" using eg_ordinary [of 40] by simp
  have "perp_run [eg_flagged, eg_perp_opened, eg_perp_listed, no_engine]"
    using run_update [OF eg_run_opened, of eg_perp_opened "eg_price 40"] f by (simp add: eg_update)
  from run_liquidate [OF this, of eg_flagged eg_flagged eg_flagged "eg_price 40" 9 "''p1''"] show ?thesis using f by (simp add: eg_liquidate)
qed

section \<open>Witnesses\<close>

theorem open_positions_keep_margin_witness:
  "\<exists>v c pnl. perp_amount_value (pp_size eg_position) = Some v \<and> perp_amount_value (pp_collateral eg_position) = Some c
    \<and> 1 \<le> pp_leverage eg_position \<and> pp_leverage eg_position \<le> max_perp_leverage \<and> v / of_int (pp_leverage eg_position) \<le> c
    \<and> notional_pnl (pp_entry eg_position) (pp_mark eg_position) (pp_size eg_position) (pp_side eg_position) = Some pnl
    \<and> 49 / 100 * (v / of_int (pp_leverage eg_position)) \<le> c + pnl"
  by (rule open_positions_keep_margin [OF eg_run_opened, of "''p1''"])
    (simp_all add: eg_position_def follows_its_side_def)

theorem settled_positions_are_final_witness:
  "\<exists>q. map_of (pe_positions eg_liquidated) ''p1'' = Some q \<and> pp_owner q = ''ann'' \<and> pp_size q = ''100''"
  using settled_positions_are_final [OF eg_run, of eg_perp_opened "''p1''" eg_position] by (auto simp: eg_position_def)

theorem liquidation_pays_a_bounded_fee_witness:
  "\<exists>q. map_of (pe_positions eg_liquidated) ''p1'' = Some q \<and> pp_status q = perp_liquidated \<and> is_liquidatable q"
  using liquidation_pays_a_bounded_fee [OF eg_liquidate] by blast

theorem open_interest_stays_within_cap_witness:
  "\<exists>v counted after. perp_amount_value ''100'' = Some v \<and> interest_total ''BTC-USD'' eg_perp_listed = Some counted
    \<and> interest_total ''BTC-USD'' eg_perp_opened = Some after \<and> counted + v \<le> 150 \<and> after \<le> 150"
  using open_interest_stays_within_cap [OF eg_run_listed eg_perp_open _ eg_cap]
  by (auto simp: eg_perp_market_of)

definition eg_delisted :: perp_engine where
  "eg_delisted = eg_flagged\<lparr>pe_markets := []\<rparr>"

theorem delisted_market_traps_positions_witness:
  "fst (liquidate_position (eg_price 40) 9 ''p1'' eg_delisted eg_delisted eg_delisted eg_delisted) = eg_delisted
   \<and> (\<exists>e. snd (liquidate_position (eg_price 40) 9 ''p1'' eg_delisted eg_delisted eg_delisted eg_delisted) = Inl e)"
  using delisted_market_traps_positions [of eg_delisted "''p1''" _ "eg_price 40" 9]
  by (simp add: eg_delisted_def eg_flagged_def market_def)

section \<open>At the edges\<close>

text \<open>The cap counts one spelling of a pair: 100 more are opened under \<open>btc-usd\<close> although the listing's cap is 150.\<close>

lemma other_spelling_passes_the_cap:
  "\<exists>p. snd (open_position (eg_price 100) (eg_price 100) 8 ''p2'' ''bob'' ''btc-usd'' ''long'' ''100'' ''100'' 1
      eg_perp_opened eg_perp_opened eg_perp_opened eg_perp_opened eg_perp_opened) = Inr p \<and> pp_pair p = ''btc-usd''"
proof -
  have "to_upper (trim_space ''btc-usd'') = ''BTC-USD''" by code_simp
  then have "market ''btc-usd'' eg_perp_opened = Some eg_perp_market" by (simp add: market_def eg_perp_listed_def no_engine_def)
  moreover have "eg_price 100 x = Some (Fin False 100)" for x by (simp add: eg_price_def)
  ultimately show ?thesis
    by (simp add: open_position_def new_position_def get_mark_price_def get_index_price_def oracle_price_def amount_of_def eg_text
        check_cap_def eg_cap open_interest_def eg_position_def)
qed

text \<open>A market order is filled in its record; no position is opened.\<close>

lemma market_order_opens_nothing:
  "pe_positions (fst (create_order mark now owner pair side order_type qty price trigger expires_in s0 s1 s)) = pe_positions s"
  by (simp add: create_order_def Let_def split: sum.split)

text \<open>Closing does not look at the liquidation price: until an update has flagged it, a position far below it is closed with no
  liquidation fee.\<close>

lemma crossed_position_closes_without_fee:
  "is_liquidatable (eg_position\<lparr>pp_mark := Fin False 40\<rparr>)
   \<and> snd (close_position (eg_price 40) 9 ''ann'' ''p1'' eg_perp_opened eg_perp_opened eg_perp_opened)
     = Inr (settled perp_closed 9 (Fin False 40) (format_decimal (- 60) 8) eg_position)"
proof -
  have "calculate_pnl eg_position (Fin False 40) = format_decimal (- 60) 8"
    by (simp add: calculate_pnl_def eg_position_def eg_pnl)
  moreover have "pp_owner eg_position = ''ann''" "pp_status eg_position = perp_open" "pp_pair eg_position = ''BTC-USD''"
    by (simp_all add: eg_position_def)
  ultimately show ?thesis by (simp add: close_position_def eg_prices Let_def) (simp add: is_liquidatable_def eg_position_def)
qed

end
