(* ===== verification/Margin_Examples.thy ===== *)
theory Margin_Examples
  imports Margin_Ltv Perp_Examples
begin

text \<open>
  The margin accounts on a concrete listing: one account with 64 units of collateral, a loan and its repayment, and
  the liquidation of a debt of 128. The witnesses of the properties of \<open>Margin_Props\<close> and \<open>Margin_Ltv\<close>.
\<close>

section \<open>A listing and an account\<close>

definition eg_margin :: margin_market where
  "eg_margin = \<lparr>mm_pair = ''BTC/RUSD'', mm_base = ''BTC'', mm_quote = ''RUSD'', mm_mode = ''cross'', mm_max_leverage = 5,
     mm_collateral = ''btc, ETH'', mm_borrowable = ''RUSD'', mm_base_rate = Fin False 0, mm_kink = Fin False 1,
     mm_jump = Fin False 0, mm_ltv = Fin False (1 / 2), mm_threshold = Fin False (1 / 2), mm_bonus = Fin False 0,
     mm_close = Fin False 1, mm_status = ''active''\<rparr>"

definition eg_cfg :: margin_config where
  "eg_cfg = \<lparr>mg_pair = ''BTC/RUSD'', mg_base = ''BTC'', mg_quote = ''RUSD'', mg_mode = ''cross'', mg_max_leverage = 5,
     mg_collateral = [''BTC'', ''ETH''], mg_borrowable = [''RUSD''], mg_base_rate = Fin False 0, mg_kink = Fin False 1,
     mg_jump = Fin False 0, mg_ltv = Fin False (1 / 2), mg_threshold = Fin False (1 / 2), mg_bonus = Fin False 0,
     mg_close = Fin False 1\<rparr>"

definition eg_no_margin :: margin_db where
  "eg_no_margin = \<lparr>md_markets = [eg_margin], md_accounts = [], md_collateral = [], md_borrows = []\<rparr>"

definition eg_account :: margin_account where
  "eg_account = \<lparr>ma_user = ''ann'', ma_mode = ''cross'', ma_pair = ''BTC/RUSD'', ma_status = margin_active\<rparr>"

definition eg_secured :: margin_db where
  "eg_secured = eg_no_margin\<lparr>md_accounts := [(7, eg_account)],
     md_collateral := [(2, \<lparr>mc_account = 7, mc_asset = ''BTC'', mc_amount = amount_value_string 64\<rparr>)]\<rparr>"

definition eg_loan :: "rat \<Rightarrow> margin_borrow" where
  "eg_loan v = \<lparr>mb_account = 7, mb_asset = ''RUSD'', mb_principal = amount_value_string v, mb_interest = ''0'', mb_accrued = 5\<rparr>"

definition eg_owing :: "rat \<Rightarrow> margin_db" where
  "eg_owing v = eg_secured\<lparr>md_borrows := [(3, eg_loan v)]\<rparr>"

definition flat_growth :: "f64 \<Rightarrow> f64 \<Rightarrow> f64" where
  "flat_growth x y = Fin False 1"

lemma eg_eight [simp]: "eight_places 16" "eight_places 8" "eight_places 64" "eight_places 128"
proof -
  have "eight_places (of_int n)" if "0 \<le> n" for n :: int
    unfolding eight_places_def by (rule exI [of _ "n * 10 ^ 8"]) (use that in simp)
  from this [of 16] this [of 8] this [of 64] this [of 128]
  show "eight_places 16" "eight_places 8" "eight_places 64" "eight_places 128" by simp_all
qed

lemma eg_column: "eight_places v \<Longrightarrow> column (amount_value_string v) = Inr v" "column ''0'' = Inr 0"
proof -
  show "eight_places v \<Longrightarrow> column (amount_value_string v) = Inr v" by (simp add: column_def written_exact)
  have "parse_decimal ''0'' = Some 0" by code_simp
  then show "column ''0'' = Inr 0" by (simp add: column_def)
qed

lemma eg_margin_texts [simp]:
  "to_upper (trim_space ''BTC/RUSD'') = ''BTC/RUSD''" "to_upper (trim_space ''RUSD'') = ''RUSD''" "to_upper (trim_space ''BTC'') = ''BTC''"
  "to_lower (trim_space ''cross'') = ''cross''" "asset_set ''btc, ETH'' = [''BTC'', ''ETH'']" "asset_set ''RUSD'' = [''RUSD'']"
  "money_value ''16'' = Some 16" "money_value ''8.0'' = Some 8"
  by code_simp+

lemma eg_margin_config: "md_markets s = [eg_margin] \<Longrightarrow> margin_listing ''BTC/RUSD'' s = Inr eg_cfg"
  by (simp add: margin_listing_def margin_config_of_def eg_margin_def eg_cfg_def Let_def)

lemma eg_owned: "md_markets s = [eg_margin] \<Longrightarrow> md_accounts s = [(7, eg_account)] \<Longrightarrow> owned_account ''ann'' 7 s = Inr eg_cfg"
  by (simp add: owned_account_def eg_account_def eg_margin_config)

lemma eg_fields_margin [simp]:
  "md_markets eg_secured = [eg_margin]" "md_accounts eg_secured = [(7, eg_account)]" "md_borrows eg_secured = []"
  "md_markets (eg_owing v) = [eg_margin]" "md_accounts (eg_owing v) = [(7, eg_account)]" "md_borrows (eg_owing v) = [(3, eg_loan v)]"
  "md_collateral eg_secured = [(2, \<lparr>mc_account = 7, mc_asset = ''BTC'', mc_amount = amount_value_string 64\<rparr>)]"
  "md_collateral (eg_owing v) = md_collateral eg_secured"
  by (simp_all add: eg_secured_def eg_owing_def eg_no_margin_def)

lemma eg_secured_ok: "margin_ok eg_secured"
  by (simp add: margin_ok_def)

lemma eg_owing_ok: "0 \<le> v \<Longrightarrow> margin_ok (eg_owing v)"
  by (simp add: margin_ok_def eg_loan_def borrow_money_def)

section \<open>The numbers\<close>

lemma shortest_64 [simp]: "shortest 64 = 64" and shortest_128 [simp]: "shortest 128 = 128" and shortest_1 [simp]: "shortest 1 = 1"
proof -
  have "nat_string 64 = ''64''" "nat_string 128 = ''128''" "nat_string 1 = ''1''" by code_simp+
  moreover have "\<lceil>16 / 25 :: rat\<rceil> = 1" "\<lfloor>16 / 25 :: rat\<rfloor> = 0" "\<lceil>32 / 5 :: rat\<rceil> = 7" "\<lfloor>32 / 5 :: rat\<rfloor> = 6"
    "\<lceil>16 / 125 :: rat\<rceil> = 1" "\<lfloor>16 / 125 :: rat\<rfloor> = 0" "\<lceil>32 / 25 :: rat\<rceil> = 2" "\<lfloor>32 / 25 :: rat\<rfloor> = 1"
    "\<lceil>64 / 5 :: rat\<rceil> = 13" "\<lfloor>64 / 5 :: rat\<rfloor> = 12" "\<lceil>1 / 10 :: rat\<rceil> = 1" "\<lfloor>1 / 10 :: rat\<rfloor> = 0"
    by (simp_all add: ceiling_eq_iff floor_eq_iff)
  ultimately show "shortest 64 = 64" "shortest 128 = 128" "shortest 1 = 1"
    by (simp_all add: shortest_def shortest_step decimal_at_def decimal_below_def decimal_above_def pow10_def reads_as_def Let_def)
qed

lemma shortest_0 [simp]: "shortest 0 = 0"
  by (simp add: shortest_def)

lemma eg_round [simp]: "round_mag (1 / 4) = 1 / 4"
  using round_mag_scaled [of 1 "- 2"] by (simp add: pow2_def)

lemma eg_of_rat [simp]: "(numeral n :: int) \<le> 9007199254740992 \<Longrightarrow> f64_of_rat (numeral n) = Fin False (numeral n)"
  by (simp add: f64_of_rat_def)

lemma eg_of_rat_1 [simp]: "f64_of_rat 1 = Fin False 1"
  by (simp add: f64_of_rat_def)

lemma pow2_1024_four [simp]: "\<not> pow2 1024 * 4 \<le> 1"
  using pow2_1024_gt [of 1] pow2_pos [of 1024] by linarith

lemma eg_unit [simp]: "price_value (eg_price 1) asset = Inr 1" "asset_price (eg_price 1) asset = Inr (Fin False 1)" "usable (Fin False 1) = Inr 1"
  by (simp_all add: price_value_def asset_price_def eg_price_def usable_def)

definition eg_feed :: health_feed where
  "eg_feed = (\<lambda>_. eg_price 1, \<lambda>_. eg_price 1)"

lemma eg_feed_rows [simp]: "fst eg_feed i = eg_price 1" "snd eg_feed i = eg_price 1"
  by (simp_all add: eg_feed_def)

lemma eg_tame: "tame_feed (eg_price 1)"
  using pow2_mono [of "- 800" 0] by (simp add: tame_feed_def eg_price_def pow2_def [of 0])

section \<open>A loan\<close>

lemma eg_rows [simp]:
  "collateral_rows 7 eg_secured = md_collateral eg_secured" "borrow_rows 7 eg_secured = []"
  "collateral_rows 7 (eg_owing v) = md_collateral eg_secured" "borrow_rows 7 (eg_owing v) = [(3, eg_loan v)]"
  by (simp_all add: collateral_rows_def borrow_rows_def eg_loan_def)

lemma eg_debt: "eight_places v \<Longrightarrow> loan_debt (eg_loan v) = Inr v"
  by (simp add: loan_debt_def eg_loan_def eg_column)

lemma eg_health: "compute_health eg_feed 7 eg_cfg eg_secured
    = Inr \<lparr>mh_collateral = Fin False 64, mh_debt = Fin False 0, mh_liquidation = Fin False 32, mh_factor = Infty False\<rparr>"
  using f64_round_exact [of 32 False]
  by (simp add: compute_health_def collateral_values_def debt_values_def usd_value_def eg_column eg_cfg_def Let_def)

lemma eg_store: "store_borrow pow eg_cfg 5 7 ''RUSD'' 16 3 eg_secured = Inr f \<Longrightarrow> f eg_secured = eg_owing 16"
  by (auto simp: store_borrow_def find_borrow_def eg_owing_def eg_loan_def insert_row_def)

lemma eg_borrow: "borrow pow (eg_price 1) eg_feed 5 ''ann'' 7 ''RUSD'' ''16'' 3 eg_secured eg_secured = (eg_owing 16, None)"
proof -
  have "within_ltv \<lparr>mh_collateral = Fin False 64, mh_debt = Fin False 0, mh_liquidation = Fin False 32, mh_factor = Infty False\<rparr> eg_cfg 16 1
      = Inr ()" by (simp add: within_ltv_def usable_def eg_cfg_def)
  moreover obtain f where "store_borrow pow eg_cfg 5 7 ''RUSD'' 16 3 eg_secured = Inr f" "f eg_secured = eg_owing 16"
    using eg_store [of pow] by (cases "store_borrow pow eg_cfg 5 7 ''RUSD'' 16 3 eg_secured") (auto simp: store_borrow_def find_borrow_def)
  moreover have "''RUSD'' \<in> set (mg_borrowable eg_cfg)" by (simp add: eg_cfg_def)
  ultimately show ?thesis by (simp add: borrow_def plan_borrow_def apply_write_def eg_owned eg_health money_def)
qed

lemma eg_repay: "repay ''ann'' 7 ''RUSD'' ''8.0'' (eg_owing 16) (eg_owing 16)
    = (write_borrow 3 (set_debt (8, 0)) (eg_owing 16), None)"
proof -
  have "find_borrow 7 ''RUSD'' (eg_owing 16) = Some (3, eg_loan 16)" by (simp add: find_borrow_def eg_loan_def)
  moreover have "column (mb_principal (eg_loan 16)) = Inr 16" "column (mb_interest (eg_loan 16)) = Inr 0"
    by (simp_all add: eg_loan_def eg_column)
  ultimately show ?thesis by (simp add: repay_def plan_repay_def apply_write_def eg_owned money_def pay_down_def)
qed

lemma eg_accrue: "accrue_interest pow 7 cfg 5 (eg_owing v) = (eg_owing v, None)"
  by (simp add: accrue_interest_def accrued_def eg_loan_def time_sub_def min_int64_def max_int64_def)

section \<open>A liquidation\<close>

lemma eg_low_health: "compute_health eg_feed 7 eg_cfg (eg_owing 128)
    = Inr \<lparr>mh_collateral = Fin False 64, mh_debt = Fin False 128, mh_liquidation = Fin False 32, mh_factor = Fin False (1 / 4)\<rparr>"
  using f64_round_exact [of 32 False]
  by (simp add: compute_health_def collateral_values_def debt_values_def usd_value_def eg_column eg_cfg_def Let_def eg_debt f64_round_def)

definition eg_cleared :: margin_db where
  "eg_cleared = eg_secured\<lparr>md_accounts := [(7, eg_account\<lparr>ma_status := margin_liquidated\<rparr>)],
     md_collateral := [(2, \<lparr>mc_account = 7, mc_asset = ''BTC'', mc_amount = amount_value_string 0\<rparr>)]\<rparr>"

lemma eg_seize: "seize_collateral (\<lambda>_. eg_price 1) 7 (Fin False 64) (eg_owing 128)
    = (eg_owing 128\<lparr>md_collateral := [(2, \<lparr>mc_account = 7, mc_asset = ''BTC'', mc_amount = amount_value_string 0\<rparr>)]\<rparr>, None)"
  by (simp add: seize_collateral_def usd_value_def eg_column Let_def keep_share_def update_row_def)

lemma eg_reduce: "md_borrows s = [(3, eg_loan 128)] \<Longrightarrow> reduce_debt (\<lambda>_. eg_price 1) 7 (Fin False 128) s = (s\<lparr>md_borrows := []\<rparr>, None)"
  by (simp add: reduce_debt_def borrow_rows_def eg_loan_def pay_borrow_def eg_column usable_def pay_down_def drop_borrow_def
      delete_row_def f64_sub_def Let_def)

lemma eg_loan_paid: "(eg_owing v)\<lparr>md_collateral := x, md_borrows := []\<rparr> = eg_secured\<lparr>md_collateral := x\<rparr>"
  by (simp add: eg_owing_def eg_secured_def eg_no_margin_def)

lemma eg_liquidate_account: "liquidate pow 5 eg_feed (\<lambda>_. eg_price 1) (\<lambda>_. eg_price 1) eg_feed 7 (eg_owing 128)
    = (eg_cleared, Inr \<lparr>lc_account = 7, lc_factor = Fin False (1 / 4), lc_debt = Fin False 128\<rparr>)"
proof -
  let ?h = "\<lparr>mh_collateral = Fin False 64, mh_debt = Fin False 128, mh_liquidation = Fin False 32, mh_factor = Fin False (1 / 4)\<rparr>"
  have "below_health ?h" by (simp add: below_health_def)
  moreover have "liquidation_amounts eg_cfg ?h = (Fin False 128, Fin False 64)"
    by (simp add: liquidation_amounts_def eg_cfg_def Let_def)
  moreover have "close_if_cleared eg_feed 7 eg_cfg (eg_secured\<lparr>md_collateral :=
      [(2, \<lparr>mc_account = 7, mc_asset = ''BTC'', mc_amount = amount_value_string 0\<rparr>)]\<rparr>) = eg_cleared"
  proof -
    have "f64_le (Fin False 0) settled_debt"
      using round_positive [of "1 / 1000000000"] by (auto simp: settled_debt_def)
    then show ?thesis
      by (simp add: close_if_cleared_def compute_health_def collateral_values_def debt_values_def collateral_rows_def borrow_rows_def eg_column eg_cfg_def Let_def
          mark_liquidated_def update_row_def) (simp add: eg_cleared_def)
  qed
  ultimately have "settle_account (\<lambda>_. eg_price 1) (\<lambda>_. eg_price 1) eg_feed 7 eg_cfg ?h (eg_owing 128)
      = (eg_cleared, Inr \<lparr>lc_account = 7, lc_factor = Fin False (1 / 4), lc_debt = Fin False 128\<rparr>)"
    by (simp add: settle_account_def eg_seize eg_reduce eg_loan_paid)
  with \<open>below_health ?h\<close> show ?thesis
    by (simp add: liquidate_def eg_account_def eg_margin_config eg_accrue eg_low_health)
qed

section \<open>Witnesses\<close>

theorem repayment_is_exact_witness:
  "\<exists>i b v. map_of (md_borrows (eg_owing 16)) i = Some b \<and> money_value ''8.0'' = Some v \<and> v \<le> loan_owed b"
  using repayment_is_exact [OF eg_owing_ok eg_repay] by (auto simp: loan_owed_def split: if_splits)


theorem liquidation_spares_the_healthy_witness:
  "\<exists>cfg h. margin_listing ''BTC/RUSD'' (eg_owing 128) = Inr cfg \<and> compute_health eg_feed 7 cfg (eg_owing 128) = Inr h \<and> below_health h
     \<and> debt_kept 7 3 (eg_loan 128) eg_cleared"
proof -
  obtain acc cfg h s1 where r: "map_of (md_accounts (eg_owing 128)) 7 = Some acc" "margin_listing (ma_pair acc) (eg_owing 128) = Inr cfg"
    "accrue_interest flat_growth 7 cfg 5 (eg_owing 128) = (s1, None)" "compute_health eg_feed 7 cfg s1 = Inr h"
    "\<not> f64_le (mh_debt h) (Fin False 0)" "\<not> f64_le (Fin False 1) (mh_factor h)"
    "\<forall>i b. map_of (md_borrows s1) i = Some b \<longrightarrow> debt_kept 7 i b eg_cleared"
    using liquidation_spares_the_healthy [OF eg_owing_ok eg_liquidate_account [of flat_growth]] by auto
  have "s1 = eg_owing 128" "ma_pair acc = ''BTC/RUSD''" using r(1,3) by (simp_all add: eg_accrue) (auto simp: eg_account_def)
  with r show ?thesis by (intro exI [of _ cfg] exI [of _ h]) (auto simp: below_health_def)
qed

theorem collateral_cannot_be_withdrawn_witness:
  "\<exists>c. map_of (md_collateral (eg_owing 16)) 2 = Some c \<and> 64 \<le> worth (mc_amount c)"
proof -
  have "margin_step flat_growth eg_secured (eg_owing 16)"
    using step_borrow [of 3 eg_secured flat_growth "eg_price 1" eg_feed 5 "''ann''" 7 "''RUSD''" "''16''"] eg_borrow [of flat_growth] by simp
  then have "(margin_step flat_growth)\<^sup>*\<^sup>* eg_secured (eg_owing 16)" by simp
  from collateral_cannot_be_withdrawn [OF this eg_secured_ok, of 2] show ?thesis
    by (auto simp: worth_exact)
qed

theorem frequent_views_witness:
  "\<exists>b. map_of (md_borrows (fst (accrue_interest flat_growth 7 eg_cfg 6 (eg_owing 16)))) 3 = Some b \<and> loan_owed b = loan_owed (eg_loan 16) \<and> mb_accrued b = 6"
proof -
  have "forgets flat_growth eg_cfg 6 (eg_loan 16)"
    by (simp add: forgets_def eg_loan_def growth_factor_def flat_growth_def time_sub_def min_int64_def max_int64_def)
  then show ?thesis
    using frequent_views_cost_no_interest [OF eg_owing_ok, of 16 7 flat_growth eg_cfg 6 3 "eg_loan 16"] by (simp add: eg_loan_def)
qed

theorem loan_stays_within_ltv_witness:
  "\<exists>v ltv. money_value ''16'' = Some v \<and> usable (mg_ltv eg_cfg) = Inr ltv
    \<and> (debt_value (snd eg_feed) 7 eg_secured + v * unit_price (eg_price 1) ''RUSD'') * (1 - 1 / 10 ^ 9)
      \<le> ltv * collateral_value (fst eg_feed) 7 eg_secured"
  using loan_stays_within_ltv [OF eg_secured_ok _ _ _ _ eg_borrow [of flat_growth]] eg_tame eg_owned [of eg_secured] by auto

lemma eg_margin_run: "margin_run flat_growth [eg_secured\<lparr>md_collateral := []\<rparr>, eg_no_margin]"
proof -
  have "margin_run flat_growth [eg_no_margin]" using mrun_start [of flat_growth "[eg_margin]"] by (simp add: eg_no_margin_def)
  from mrun_open [OF this, of eg_no_margin 7 "''ann''" "''BTC/RUSD''" "[]"]
  show ?thesis
    by (simp add: eg_no_margin_def open_account_def eg_margin_config Let_def eg_cfg_def insert_row_def eg_secured_def eg_account_def
        trim_space_def trim_right_def to_lower_def)
qed

theorem margin_columns_stay_readable_witness:
  "distinct (map fst (md_accounts (eg_secured\<lparr>md_collateral := []\<rparr>)))"
  using margin_columns_stay_readable [OF eg_margin_run] by blast

text \<open>The liquidation above cleared a debt of 128 against collateral worth 64: the rest of the debt is written off, and
  neither the seized collateral nor the bonus is credited to anybody.\<close>

lemma liquidation_writes_off_the_rest:
  "\<exists>s. liquidate flat_growth 5 eg_feed (\<lambda>_. eg_price 1) (\<lambda>_. eg_price 1) eg_feed 7 (eg_owing 128) = (s, Inr \<lparr>lc_account = 7,
      lc_factor = Fin False (1 / 4), lc_debt = Fin False 128\<rparr>) \<and> md_borrows s = [] \<and> collateral_value (fst eg_feed) 7 (eg_owing 128) = 64"
  using eg_liquidate_account [of flat_growth]
  by (simp add: eg_cleared_def collateral_value_def unit_price_def worth_exact)

text \<open>Two deposits that read the same row: the second write takes the first away.\<close>

lemma concurrent_deposits_lose_one:
  assumes "find_collateral a asset s = Some (i, c)" "column (mc_amount c) = Inr w"
    and "store_collateral a asset v k s = Inr f" "store_collateral a asset v' k' s = Inr g"
  shows "g (f s) = g s"
proof -
  have "update_row i (mc_amount_update (\<lambda>_. x)) (update_row i (mc_amount_update (\<lambda>_. y)) t) = update_row i (mc_amount_update (\<lambda>_. x)) t"
    for x y :: string and t :: "(uuid \<times> margin_collateral) list"
    by (simp add: update_row_def case_prod_beta)
  with assms show ?thesis by (auto simp: store_collateral_def)
qed

end
