(* ===== verification/Spec2Isabelle.thy ===== *)
theory Spec2Isabelle
  imports Engine_Examples Amm Option_Props Order_Service_Props Airdrop_Props Launchpad_Props Cache_Props Option_Service_Props Farm_Solvency Desk_Props Margin_Examples
begin

text \<open>
  TigerSwap: a verification library for the Go backend of the exchange (\<open>src/backend\<close>).

  The backend is a set of services. An API process serves the handlers of \<open>services/\<close> over one
  database; a matching service (\<open>go/order_matching\<close>) keeps order books in memory; cache, gateway and
  other services run beside them. What is modelled here, theory by theory:

  \<^item> \<open>Go_Prelude\<close>, \<open>Go_Float\<close>, \<open>Go_Duration\<close>, \<open>Go_Text\<close>, \<open>Go_Tables\<close>, \<open>Table_Sums\<close>: the parts of Go and of the database that the
    models share. An \<open>int64\<close> is an \<open>int\<close> with the wrap-around written out (\<open>wrap64\<close>, \<open>add64\<close>), a
    \<open>big.Int\<close> an \<open>int\<close> with truncating \<open>quo\<close>, a \<open>float64\<close> an exact rational rounded to 53 bits after
    each operation (\<open>f64\<close>), a string its list of bytes, a table an association list from its key to a
    row, an amount column its decimal text. An HTTP answer is a \<open>reply\<close>. Letters are the ASCII ones,
    but \<open>equal_fold\<close> folds as \<open>strings.EqualFold\<close> does and \<open>rune_count\<close> counts runes.
  \<^item> \<open>Book_Side\<close>, \<open>Book_Tape\<close>, \<open>Book_Match\<close>: the order book of \<open>go/order_matching/orderbook/book.go\<close>:
    price levels with their binary search, the trade ring buffer, validation, matching, resting and
    cancelling. \<open>Book_Refine\<close>, \<open>Book_Props\<close>, \<open>Book_Claims\<close>, \<open>Book_Cancel\<close>, \<open>Book_Examples\<close>: the
    matching loop over levels refines a walk over the flat list of resting orders; from it follow
    termination, the book invariant, price-time priority, fairness of the trades, the contract of
    cancellation, and that the ring buffer reads back the end of the history.
  \<^item> \<open>Engine\<close>, \<open>Engine_Props\<close>, \<open>Engine_Examples\<close>: the engine of the same file, its books, order index
    and counters, as a step relation; reachable engines are consistent and every resting order can
    be found and cancelled by its owner.
  \<^item> \<open>Order_Service\<close>, \<open>Order_Service_Props\<close>: the HTTP layer of \<open>go/order_matching/main.go\<close> over that
    engine: parsing, handlers, every route of \<open>/api/v1\<close> with the rate limiter in front, the admin gate,
    the pairs listed at start. Every request is answered, and a refused one changes no book.
  \<^item> \<open>Amm\<close>: the curves of \<open>go/amm/amm.go\<close>. The Newton loops of StableSwap run with the 255 steps of
    the source, so their models need no other fuel.
  \<^item> \<open>Option_Math\<close>, \<open>Option_Props\<close>: the fixed-point option library \<open>services/option_math.go\<close>; its series
    have the fixed numbers of terms of the source (24 for the logarithm, 11 for the exponential) and
    the inverse square root its 40 Newton steps.
  \<^item> \<open>Ledger\<close>: \<open>services/ledger_service.go\<close>. Its contract is the locale \<open>ledger_ops\<close>, interpreted on the
    model; everything that moves money uses the facts of this interpretation.
  \<^item> \<open>Airdrop\<close>, \<open>Airdrop_Props\<close>: \<open>services/airdrop_service.go\<close>, as a step relation over interleaved
    requests; campaigns never overpay and tokens are conserved.
  \<^item> \<open>Custody\<close>: the locale \<open>custody\<close>, the law of a service that takes tokens into a pool and pays them
    out; conservation over every run is proved in it once. The airdrops, the option market and the
    farms interpret it.
  \<^item> \<open>Option_Service\<close>, \<open>Option_Service_Props\<close>: the option market \<open>services/option_service.go\<close>, series,
    pool, positions and settlement, over the ledger and the option library: typed columns, collateral
    that covers what is locked, conservation, and the runs in which providers take what holders are owed.
  \<^item> \<open>Farm\<close>, \<open>Farm_Props\<close>, \<open>Farm_Solvency\<close>: liquidity mining, \<open>services/farm_service.go\<close>: farms, reward
    streams, stakes and claims; the books agree and tokens are conserved, unboosted rewards stay within
    the funds up to rounding, and two ways in which boosted claims do not.
  \<^item> \<open>Governance\<close>, \<open>Governance_Props\<close>, \<open>Governance_Votes\<close>: \<open>services/governance_service.go\<close>: locks and
    their decaying voting power, gauges, votes, bribes and boosts.
  \<^item> \<open>Launchpad\<close>, \<open>Launchpad_Props\<close>: \<open>services/launchpad.go\<close>: projects, tiers, purchases, claims, and
    the decimal codec \<open>parseDecimal\<close>/\<open>formatDecimal\<close>.
  \<^item> \<open>Rate_Limit\<close>: the sliding windows of the matching service and the cache service, both
    interpretations of the locale \<open>sliding_window\<close>, and the fixed windows and the ban list of
    \<open>middleware/rate_limit.go\<close>.
  \<^item> \<open>Cache\<close>, \<open>Cache_Props\<close>: the LRU cache, the consistent-hash ring and the shards of
    \<open>go/distributed\<close>; the cache refines a list of recent entries, the ring is a walk clockwise.
  \<^item> \<open>Market_Text\<close>: the validators of amounts and symbols in \<open>services/bots_service.go\<close>, which the desk shares.
  \<^item> \<open>Sessions\<close>, \<open>Session_Props\<close>: accounts and tokens: the \<open>AuthService\<close> and the account edits of the administrators
    in \<open>services/services.go\<close>, \<open>services/revocation.go\<close>, the checks in front of a route and the Redis limiter in
    \<open>middleware/middleware.go\<close> and the keys of \<open>middleware/apikey.go\<close>. A token that was logged out stays
    refused, unless a restart cannot read the list of the revoked ones; a deactivated account keeps its access.
  \<^item> \<open>Block_Trade\<close>, \<open>Bots\<close>, \<open>Desk_Props\<close>: \<open>services/otc_service.go\<close> (block trades and time-weighted orders) and
    \<open>services/bots_service.go\<close> (strategies, their configuration, the limits of a bot). An order is filled at
    most once, the slices of a schedule complete it, a configuration means the same in every order of its
    keys, and no session of the platform reaches a protected handler of these routes: each answers 401, or the 429
    of the limiter in front; the listing of the strategies, which asks for no identifier, is the exception.
  \<^item> \<open>Go_Decimal\<close>: money between decimal text and \<open>float64\<close>: the shortest decimal of a float, the amounts of
    \<open>services/perp_money.go\<close>, the rounding error of one operation.
  \<^item> \<open>Perp\<close>, \<open>Perp_Props\<close>, \<open>Perp_Examples\<close>: \<open>services/perpetual_engine.go\<close>: listings, prices, positions, liquidation,
    orders and funding, with the lock that is released around the oracle, so that each read of an operation has a
    state of its own. Open positions keep their margin, which rests on the rounding errors of the liquidation price;
    settled positions are final; the fee of a liquidation is bounded; openings served one at a time keep the open
    interest within the cap; and the ways around the cap (openings that overlap, a second spelling of the pair), the
    side and the liquidation fee.
  \<^item> \<open>Margin\<close>, \<open>Margin_Props\<close>, \<open>Margin_Ltv\<close>, \<open>Margin_Examples\<close>: \<open>services/margin_engine.go\<close>: collateral, loans, interest,
    repayment and liquidation. Each row is valued at a price of its own, as every row asks the price service. A
    request takes all its early reads in one state and writes in a later one. Repayments that no other request
    disturbs are exact and the risk check of a loan is exact up to one part in a thousand million although it adds
    rounded products; a liquidation spares an account whose health factor is one or more. A loan is repaid without
    interest after any run that does not touch its row; served one at a time, no request but a liquidation lowers a
    collateral, and deposits that overlap lose one.

  State and concurrency. A service's state is a record; an operation takes it and returns it
  updated. A mutex, or a transaction with the row locked, makes an operation one step. Where a
  handler reads outside the lock first, its model takes two states: \<open>d0\<close>, which the early reads saw,
  and \<open>d\<close>, in which the transaction runs; the claims that quantify over \<open>d0\<close> hold in every
  interleaving, and those that need \<open>d0 = d\<close> say so. The submission of an order is one step, although the
  order index is written after the book under a lock of its own. Each database call can fail: the parameter
  \<open>fault\<close> says which, and a failed transaction changes nothing.

  Parameters and assumptions. Third-party code is a parameter of the definition that calls it:
  parsing of UUIDs, RFC3339 times, hex addresses and JSON bodies (\<open>None\<close> is a body that does not
  bind), what Redis or a price source returns, the text of an error that is passed through. The
  clock and fresh identifiers are arguments. Floats are those of amd64: no fused multiply-add, and
  a conversion of what does not fit to \<open>int64\<close> gives the least integer. Column lengths and the
  rounding of stored times are not modelled, nor is the creation order of listings. \<open>math.Pow\<close>, whose result
  the Go specification leaves to the platform, is a parameter of the interest. The search for a shortest decimal
  has 1500 steps, more than the 1074 places that any \<open>float64\<close> needs. The margin accounts assume a database that
  answers every query.

  Not modelled: network, process start-up and WebSocket streams (I/O); the blockchain access and
  everything that needs a node; the weighted AMM curve, which goes through \<open>math.Pow\<close>; the generated
  or repetitive clients; the opening of a perpetual position by a transaction that its handler only forwards;
  and, with the reasons given in the manifest, NFTs, the bridge, pools, swaps, fees, listings, wallets, copy
  trading, price sources, the gateway, the aggregator, the keeper and the indexer.
\<close>

end
